(* ===== verification/Prelude.thy ===== *)
theory Prelude
  imports Main "HOL-Library.AList" "HOL-Library.Char_ord" "HOL-Library.List_Lexorder"
    "HOL-Library.Product_Lexorder" "HOL-Library.Monad_Syntax"
begin

text \<open>
  What every component of the model shares.

  \<^item> Python values: a \<open>str\<close> is a \<^typ>\<open>string\<close> (the bytes of its UTF-8 form, whose lexicographic
    order is Python's code-point order), an \<open>int\<close> is an \<^typ>\<open>int\<close>, \<open>None\<close> or an absent key is
    \<^term>\<open>None\<close>, a set is a \<^typ>\<open>'a set\<close>, a dict is an association list in insertion order with
    the operations of \<^verbatim>\<open>HOL-Library.AList\<close>: assignment keeps the place of a key that is there and
    appends one that is not, exactly as \<open>d[k] = v\<close> does.
  \<^item> An operation that can raise returns an option: \<^term>\<open>None\<close> is the uncaught exception. A
    required key \<open>m["k"]\<close> of a message is read by binding the optional field in the option monad.
  \<^item> \<open>py_dict\<close> is the contract of the dictionaries, \<open>machine\<close> the contract of every component with
    a \<open>step\<close> method, from which its behaviour over whole traces follows once.
\<close>

section \<open>Dictionaries\<close>

type_synonym ('k, 'v) dict = "('k \<times> 'v) list"

abbreviation dget :: "('k, 'v) dict \<Rightarrow> 'k \<Rightarrow> 'v option" where
  "dget d k \<equiv> map_of d k"

abbreviation dset :: "'k \<Rightarrow> 'v \<Rightarrow> ('k, 'v) dict \<Rightarrow> ('k, 'v) dict" where
  "dset k v d \<equiv> AList.update k v d"

abbreviation ddel :: "'k \<Rightarrow> ('k, 'v) dict \<Rightarrow> ('k, 'v) dict" where
  "ddel k d \<equiv> AList.delete k d"

abbreviation dkeys :: "('k, 'v) dict \<Rightarrow> 'k list" where
  "dkeys d \<equiv> map fst d"

abbreviation dvals :: "('k, 'v) dict \<Rightarrow> 'v list" where
  "dvals d \<equiv> map snd d"

text \<open>\<open>sorted(d)\<close>, \<open>d.get(k, default)\<close>, \<open>d.setdefault(k, v)\<close> and a change of the object held at a key.\<close>

definition dsorted :: "('k::linorder, 'v) dict \<Rightarrow> 'k list" where
  "dsorted d = sort (dkeys d)"

definition dget_or :: "('k, 'v) dict \<Rightarrow> 'k \<Rightarrow> 'v \<Rightarrow> 'v" where
  "dget_or d k v = (case dget d k of None \<Rightarrow> v | Some x \<Rightarrow> x)"

definition dsetdefault :: "'k \<Rightarrow> 'v \<Rightarrow> ('k, 'v) dict \<Rightarrow> ('k, 'v) dict" where
  "dsetdefault k v d = (case dget d k of None \<Rightarrow> dset k v d | Some _ \<Rightarrow> d)"

definition dmodify :: "'k \<Rightarrow> ('v \<Rightarrow> 'v) \<Rightarrow> ('k, 'v) dict \<Rightarrow> ('k, 'v) dict" where
  "dmodify k f d = (case dget d k of None \<Rightarrow> d | Some v \<Rightarrow> dset k (f v) d)"

subsection \<open>The contract of a dictionary\<close>

locale py_dict =
  fixes get :: "'d \<Rightarrow> 'k \<Rightarrow> 'v option"
    and put :: "'k \<Rightarrow> 'v \<Rightarrow> 'd \<Rightarrow> 'd"
    and del :: "'k \<Rightarrow> 'd \<Rightarrow> 'd"
    and keys :: "'d \<Rightarrow> 'k list"
  assumes get_put: "get (put k v d) = (get d)(k \<mapsto> v)"
    and get_del: "get (del k d) = (get d)(k := None)"
    and set_keys: "set (keys d) = dom (get d)"
    and keys_put: "keys (put k v d) = (if k \<in> set (keys d) then keys d else keys d @ [k])"
    and keys_del: "keys (del k d) = filter (\<lambda>k'. k' \<noteq> k) (keys d)"
begin

lemma get_put_same: "get (put k v d) k = Some v"
  by (simp add: get_put)

lemma get_put_other: "k' \<noteq> k \<Longrightarrow> get (put k v d) k' = get d k'"
  by (simp add: get_put)

lemma get_del_same: "get (del k d) k = None"
  by (simp add: get_del)

lemma get_del_other: "k' \<noteq> k \<Longrightarrow> get (del k d) k' = get d k'"
  by (simp add: get_del)

lemma distinct_keys_put: "distinct (keys d) \<Longrightarrow> distinct (keys (put k v d))"
  by (simp add: keys_put)

lemma distinct_keys_del: "distinct (keys d) \<Longrightarrow> distinct (keys (del k d))"
  by (simp add: keys_del)

lemma get_put_all: "(\<forall>k' v'. get d k' = Some v' \<longrightarrow> P k' v') \<Longrightarrow> P k v
    \<Longrightarrow> get (put k v d) k' = Some v' \<Longrightarrow> P k' v'"
  by (auto simp: get_put split: if_splits)

lemma get_del_all: "(\<forall>k' v'. get d k' = Some v' \<longrightarrow> P k' v') \<Longrightarrow> get (del k d) k' = Some v' \<Longrightarrow> P k' v'"
  by (auto simp: get_del split: if_splits)

lemma keys_foldl_put:
  "set (keys (foldl (\<lambda>d k. put k (f k) d) d ks)) = set (keys d) \<union> set ks"
  by (induction ks arbitrary: d) (auto simp: keys_put)

end

interpretation dict: py_dict map_of "AList.update :: 'k \<Rightarrow> 'v \<Rightarrow> ('k, 'v) dict \<Rightarrow> ('k, 'v) dict"
  AList.delete "map fst"
proof unfold_locales
  show "dkeys (ddel k d) = filter (\<lambda>k'. k' \<noteq> k) (dkeys d)" for k and d :: "('k, 'v) dict"
    by (simp add: AList.delete_eq filter_map comp_def case_prod_beta' eq_commute)
qed (simp_all add: AList.update_conv' AList.delete_conv' dom_map_of_conv_image_fst AList.update_keys)

lemmas dict_simps = dict.get_put dict.get_del

lemma dget_dset [simp]: "dget (dset k v d) k' = (if k' = k then Some v else dget d k')"
  by (simp add: dict.get_put)

lemma dget_ddel [simp]: "dget (ddel k d) k' = (if k' = k then None else dget d k')"
  by (simp add: dict.get_del)

lemma dget_dmodify [simp]:
  "dget (dmodify k f d) k' = (if k' = k then map_option f (dget d k) else dget d k')"
  by (simp add: dmodify_def split: option.split)

lemma dget_dsetdefault [simp]:
  "dget (dsetdefault k v d) k' = (if k' = k \<and> dget d k = None then Some v else dget d k')"
  by (auto simp: dsetdefault_def split: option.split)

lemma dkeys_dmodify [simp]: "dkeys (dmodify k f d) = dkeys d"
proof (cases "dget d k")
  case (Some v)
  then have "k \<in> set (dkeys d)"
    by (simp add: map_of_eq_Some_iff map_of_SomeD image_iff) (metis fst_conv map_of_SomeD)
  with Some show ?thesis
    by (simp add: dmodify_def AList.update_keys)
qed (simp add: dmodify_def)

lemma dget_None_keys: "dget d k = None \<longleftrightarrow> k \<notin> set (dkeys d)"
  by (simp add: map_of_eq_None_iff)

lemma set_dsorted [simp]: "set (dsorted d) = set (dkeys d)"
  by (simp add: dsorted_def)

lemma dget_in_keys: "dget d k = Some v \<Longrightarrow> k \<in> set (dkeys d)"
  by (metis dget_None_keys option.distinct(1))

text \<open>Invariants of a loop: of the state alone, and of the state with the elements already done.\<close>

lemma foldl_inv: "P s \<Longrightarrow> (\<And>s x. P s \<Longrightarrow> P (f s x)) \<Longrightarrow> P (foldl f s xs)"
  by (induction xs arbitrary: s) auto

lemma foldl_inv_done:
  assumes "P {} s" "\<And>X s x. P X s \<Longrightarrow> x \<in> set xs \<Longrightarrow> P (insert x X) (f s x)"
  shows "P (set xs) (foldl f s xs)"
  using assms by (induction xs rule: rev_induct) auto

lemma dget_filter: "dget (filter (\<lambda>(k, v). Q k) d) k = (if Q k then dget d k else None)"
  by (induction d) auto

section \<open>Small Python functions\<close>

definition clamp :: "int \<Rightarrow> int \<times> int \<Rightarrow> int" where
  "clamp v bounds = max (fst bounds) (min (snd bounds) v)"

lemma clamp_bounds: "fst b \<le> snd b \<Longrightarrow> fst b \<le> clamp v b \<and> clamp v b \<le> snd b"
  by (auto simp: clamp_def)

text \<open>\<open>s.startswith(p)\<close>, \<open>s.split(".", 1)[0]\<close>, \<open>s.rpartition(".")\<close>, decimal numerals.\<close>

definition startswith :: "string \<Rightarrow> string \<Rightarrow> bool" where
  "startswith s p \<longleftrightarrow> take (length p) s = p"

definition before_sep :: "char \<Rightarrow> string \<Rightarrow> string" where
  "before_sep c s = takeWhile (\<lambda>x. x \<noteq> c) s"

definition rpartition :: "char \<Rightarrow> string \<Rightarrow> string \<times> string" where
  "rpartition c s = (if c \<in> set s
     then (rev (tl (dropWhile (\<lambda>x. x \<noteq> c) (rev s))), rev (takeWhile (\<lambda>x. x \<noteq> c) (rev s)))
     else ([], s))"

definition is_digit :: "char \<Rightarrow> bool" where
  "is_digit c \<longleftrightarrow> (of_char c :: nat) \<in> {48..57}"

definition is_numeral :: "string \<Rightarrow> bool" where
  "is_numeral s \<longleftrightarrow> s \<noteq> [] \<and> list_all is_digit s"

definition parse_nat :: "string \<Rightarrow> nat" where
  "parse_nat s = foldl (\<lambda>n c. 10 * n + (of_char c - 48)) 0 s"

text \<open>\<open>int(s)\<close> on digits raises beyond the interpreter's limit on the length of a decimal string.\<close>

definition INT_MAX_STR_DIGITS :: nat where "INT_MAX_STR_DIGITS = 4300"

definition int_of_digits :: "string \<Rightarrow> nat option" where
  "int_of_digits s = (if length s \<le> INT_MAX_STR_DIGITS then Some (parse_nat s) else None)"

fun show_nat :: "nat \<Rightarrow> string" where
  "show_nat n = (if n < 10 then [char_of (48 + n)] else show_nat (n div 10) @ [char_of (48 + n mod 10)])"

declare show_nat.simps [simp del]

lemma show_nat_digits: "is_numeral (show_nat n)"
proof (induction n rule: show_nat.induct)
  case (1 n)
  then show ?case
    by (cases "n < 10") (auto simp: show_nat.simps [of n] is_numeral_def is_digit_def of_char_of)
qed

lemma parse_show_nat: "parse_nat (show_nat n) = n"
proof (induction n rule: show_nat.induct)
  case (1 n)
  then show ?case
    by (cases "n < 10") (auto simp: show_nat.simps [of n] parse_nat_def of_char_of)
qed

lemma rpartition_dot: "c \<notin> set t \<Longrightarrow> rpartition c (s @ c # t) = (s, t)"
  by (simp add: rpartition_def) (subst takeWhile_append2 dropWhile_append2, auto)+

lemma numeral_no_dot: "is_numeral t \<Longrightarrow> CHR ''.'' \<notin> set t"
  by (auto simp: is_numeral_def is_digit_def list_all_iff)

section \<open>Step machines\<close>

text \<open>
  A component is a state and a \<open>step\<close>; \<open>runs\<close> is a trace of events (the harness's loop over the
  steps of a vector), and \<open>reaches\<close> the states a component can get to.
\<close>

fun runs :: "('s \<Rightarrow> 'e \<Rightarrow> 's option) \<Rightarrow> 's \<Rightarrow> 'e list \<Rightarrow> 's option" where
  "runs step s [] = Some s"
| "runs step s (e # es) = do { s' \<leftarrow> step s e; runs step s' es }"

inductive reaches :: "('s \<Rightarrow> 'e \<Rightarrow> 's option) \<Rightarrow> ('e \<Rightarrow> bool) \<Rightarrow> 's \<Rightarrow> 's \<Rightarrow> bool" for step ok where
  reaches_refl: "reaches step ok s s"
| reaches_step: "reaches step ok s t \<Longrightarrow> ok e \<Longrightarrow> step t e = Some u \<Longrightarrow> reaches step ok s u"

lemma runs_Cons_Some: "runs step s (e # es) = Some u \<longleftrightarrow> (\<exists>t. step s e = Some t \<and> runs step t es = Some u)"
  by (simp add: bind_eq_Some_conv)

lemma reaches_runs:
  "list_all ok es \<Longrightarrow> runs step s es = Some t \<Longrightarrow> reaches step ok r s \<Longrightarrow> reaches step ok r t"
proof (induction es arbitrary: s)
  case (Cons e es)
  then obtain u where "step s e = Some u" "runs step u es = Some t"
    by (auto simp only: runs_Cons_Some)
  with Cons show ?case
    by (auto intro: reaches_step)
qed simp

text \<open>\<open>ok\<close> are the events the inputs of the component are checked to be.\<close>

locale machine =
  fixes step :: "'s \<Rightarrow> 'e \<Rightarrow> 's option"
    and ok :: "'e \<Rightarrow> bool"
    and inv :: "'s \<Rightarrow> bool"
  assumes step_inv: "inv s \<Longrightarrow> ok e \<Longrightarrow> step s e = Some s' \<Longrightarrow> inv s'"
begin

lemma reaches_inv: "reaches step ok s s' \<Longrightarrow> inv s \<Longrightarrow> inv s'"
  by (induction rule: reaches.induct) (auto intro: step_inv)

lemma runs_inv: "inv s \<Longrightarrow> list_all ok es \<Longrightarrow> runs step s es = Some s' \<Longrightarrow> inv s'"
  by (rule reaches_inv) (auto intro: reaches_runs reaches_refl)

end

text \<open>A machine that never raises on such events.\<close>

locale total_machine = machine +
  assumes step_total: "inv s \<Longrightarrow> ok e \<Longrightarrow> \<exists>s'. step s e = Some s'"
begin

lemma runs_total: "inv s \<Longrightarrow> list_all ok es \<Longrightarrow> \<exists>s'. runs step s es = Some s' \<and> inv s'"
proof (induction es arbitrary: s)
  case (Cons e es)
  then obtain s' where s': "step s e = Some s'"
    using step_total [of s e] by auto
  with Cons show ?case
    by (auto dest: step_inv)
qed simp

end

text \<open>A quantity that no step decreases (a clock, a sequence number) is monotone over a run.\<close>

locale monotone_machine = machine +
  fixes measured :: "'s \<Rightarrow> 'm::order"
  assumes step_mono: "inv s \<Longrightarrow> ok e \<Longrightarrow> step s e = Some s' \<Longrightarrow> measured s \<le> measured s'"
begin

lemma reaches_mono: "reaches step ok s s' \<Longrightarrow> inv s \<Longrightarrow> measured s \<le> measured s'"
proof (induction rule: reaches.induct)
  case (reaches_step s t e u)
  then show ?case
    by (meson order_trans reaches_inv step_mono)
qed simp

end

end
