(* ===== verification/Registry.thy ===== *)
theory Registry
  imports Prelude
begin

text \<open>
  The open registries of \<^verbatim>\<open>dsipvec/registry.py\<close>: reason tokens with the message types they are
  valid on, and the fallback rules that resolve a well-formed but unknown value instead of failing.
  The tables are association lists in the source's order; \<open>resolve_reason\<close>, \<open>effective_answered_by\<close>,
  \<open>effective_progress_status\<close> and \<open>effective_integrity\<close> are total, and the lemmas below say that what
  they return is always a registered value or has a registered category.
\<close>

section \<open>The tables\<close>

definition REASONS :: "(string, string list) dict" where
  "REASONS = [
    (''user.declined'', [''reject'', ''bye'']),
    (''user.no-answer'', [''reject'']),
    (''user.hangup'', [''bye'']),
    (''user.cancelled'', [''cancel'']),
    (''user.blocked'', [''reject'']),
    (''endpoint.busy'', [''reject'']),
    (''endpoint.unavailable'', [''reject'']),
    (''endpoint.capability'', [''reject'']),
    (''identity.not-in-service'', [''reject'', ''error'']),
    (''identity.moved'', [''reject'']),
    (''identity.suspended'', [''reject'']),
    (''identity.unknown'', [''reject'', ''error'']),
    (''session.expired'', [''reject'']),
    (''session.timeout'', [''cancel'', ''bye'']),
    (''session.glare'', [''reject'', ''cancel'']),
    (''session.answered-elsewhere'', [''cancel'']),
    (''session.already-answered'', [''bye'']),
    (''session.cancelled'', [''bye'']),
    (''session.invalid-state'', [''error'']),
    (''session.unknown-session'', [''error'']),
    (''session.update-pending'', [''error'']),
    (''session.unsupported-core-version'', [''reject'', ''error'']),
    (''session.unsupported-profile-version'', [''reject'', ''error'']),
    (''session.unsupported-critical-extension'', [''reject'', ''error'']),
    (''session.version-downgrade-detected'', [''error'']),
    (''session.unsupported-wire-format'', [''error'']),
    (''session.failed'', [''reject'', ''bye'', ''error'']),
    (''media.unsupported'', [''reject'', ''bye'']),
    (''media.offer-required'', [''reject'']),
    (''media.encryption-required'', [''reject'']),
    (''media.failed'', [''bye'']),
    (''policy.trust-insufficient'', [''reject'']),
    (''policy.first-contact-required'', [''reject'']),
    (''policy.blocked'', [''reject'', ''cancel'']),
    (''policy.terminated'', [''bye'']),
    (''policy.recording-declined'', [''reject'', ''bye'']),
    (''policy.rate-limited'', [''reject'', ''error'']),
    (''policy.subscription-lifetime'', [''error'']),
    (''transport.envelope-too-large'', [''error'']),
    (''transport.hello-required'', [''error'']),
    (''transport.hello-rejected'', [''error'']),
    (''transport.routing-refused'', [''error'']),
    (''transport.unknown-recipient'', [''error'']),
    (''transport.rate-limited'', [''error'']),
    (''transport.no-response'', [''error'']),
    (''transport.replaced'', [''error'']),
    (''gateway.unreachable'', [''reject'', ''bye'', ''error'']),
    (''gateway.downgraded'', [''error'']),
    (''gateway.mapped'', [''reject'', ''bye'', ''error'']),
    (''mailbox.commit-conflict'', [''error'']),
    (''mailbox.stale-epoch'', [''error'']),
    (''mailbox.unknown-group'', [''error'']),
    (''mailbox.cursor-invalid'', [''error'']),
    (''mailbox.object-too-large'', [''error'']),
    (''mailbox.quota-exceeded'', [''error'']),
    (''mailbox.no-key-packages'', [''error'']),
    (''mailbox.unsupported-class'', [''error'']),
    (''mailbox.unsupported-mode'', [''error'']),
    (''mailbox.blob-mismatch'', [''error'']),
    (''mailbox.hub-unreachable'', [''error'']),
    (''mailbox.not-served'', [''error'']),
    (''mailbox.not-enrolled'', [''error'']),
    (''presence.signer-mismatch'', [''error'']),
    (''presence.sealed-invalid'', [''error'']),
    (''presence.lifetime'', [''error'']),
    (''presence.stale'', [''error''])
  ]"

definition CATEGORIES :: "string list" where
  "CATEGORIES = [''user'', ''endpoint'', ''identity'', ''session'', ''media'', ''policy'', ''transport'', ''gateway'', ''mailbox'', ''presence'']"

definition REASON_BEARING_TYPES :: "string list" where
  "REASON_BEARING_TYPES = [''reject'', ''cancel'', ''bye'', ''error'']"

definition ANSWERED_BY :: "string list" where
  "ANSWERED_BY = [''user'', ''service'', ''screening'', ''gateway'']"

definition ANSWERED_BY_FALLBACK :: string where
  "ANSWERED_BY_FALLBACK = ''service''"

definition PROGRESS_STATUS :: "string list" where
  "PROGRESS_STATUS = [''trying'', ''ringing'', ''queued'', ''forwarded'']"

definition PROGRESS_STATUS_FALLBACK :: string where
  "PROGRESS_STATUS_FALLBACK = ''trying''"

definition SUBSCRIPTION_EVENTS :: "(string, int) dict" where
  "SUBSCRIPTION_EVENTS = [(''presence'', 3600), (''publication'', 86400)]"

definition PRESENCE_STATES :: "string list" where
  "PRESENCE_STATES = [''available'', ''busy'', ''away'', ''dnd'', ''offline'']"

definition PRESENCE_STATE_FALLBACK :: string where
  "PRESENCE_STATE_FALLBACK = ''available''"

definition INTEGRITY_MODES :: "string list" where
  "INTEGRITY_MODES = [''metadata-only'', ''derivative-bound'']"

section \<open>Resolution\<close>

text \<open>The \<open>fallback\<close> field: \<open>none\<close>, \<open>category\<close> or \<open>unknown-category\<close>.\<close>

datatype fallback = NoFallback | CategoryFallback | UnknownCategory

record resolution =
  rr_token :: string
  rr_effective :: string
  rr_fallback :: fallback
  rr_valid_on_type :: bool

definition resolve_reason :: "string \<Rightarrow> string \<Rightarrow> resolution" where
  "resolve_reason token msg_type =
    (let category = before_sep CHR ''.'' token in
     case dget REASONS token of
       Some valid_on \<Rightarrow>
         \<lparr>rr_token = token, rr_effective = token, rr_fallback = NoFallback,
          rr_valid_on_type = (msg_type \<notin> set REASON_BEARING_TYPES \<or> msg_type \<in> set valid_on)\<rparr>
     | None \<Rightarrow>
         if category \<in> set CATEGORIES
         then \<lparr>rr_token = token, rr_effective = token, rr_fallback = CategoryFallback, rr_valid_on_type = True\<rparr>
         else \<lparr>rr_token = token, rr_effective = ''session.failed'', rr_fallback = UnknownCategory,
               rr_valid_on_type = True\<rparr>)"

definition effective_answered_by :: "string \<Rightarrow> string" where
  "effective_answered_by v = (if v \<in> set ANSWERED_BY then v else ANSWERED_BY_FALLBACK)"

definition effective_progress_status :: "string \<Rightarrow> string" where
  "effective_progress_status v = (if v \<in> set PROGRESS_STATUS then v else PROGRESS_STATUS_FALLBACK)"

definition effective_integrity :: "string option \<Rightarrow> string" where
  "effective_integrity v = (case v of Some m \<Rightarrow> if m \<in> set INTEGRITY_MODES then m else ''metadata-only''
                            | None \<Rightarrow> ''metadata-only'')"

section \<open>What resolution returns\<close>

text \<open>Every registered token belongs to a registered category; the table is a function.\<close>

lemma registered_category: "dget REASONS t = Some v \<Longrightarrow> before_sep CHR ''.'' t \<in> set CATEGORIES"
proof -
  have "list_all (\<lambda>(t, _). before_sep CHR ''.'' t \<in> set CATEGORIES) REASONS"
    by code_simp
  then show "dget REASONS t = Some v \<Longrightarrow> before_sep CHR ''.'' t \<in> set CATEGORIES"
    by (auto simp: list_all_iff dest: map_of_SomeD)
qed

lemma resolve_effective_category:
  "before_sep CHR ''.'' (rr_effective (resolve_reason t m)) \<in> set CATEGORIES"
  by (auto simp: resolve_reason_def Let_def registered_category split: option.split)
     (simp add: before_sep_def CATEGORIES_def)

lemma resolve_idempotent:
  "rr_effective (resolve_reason (rr_effective (resolve_reason t m)) m') = rr_effective (resolve_reason t m)"
  by (auto simp: resolve_reason_def Let_def split: option.splits)

lemma resolve_registered [simp]: "dget REASONS t = Some v \<Longrightarrow> rr_effective (resolve_reason t m) = t"
  by (simp add: resolve_reason_def Let_def)

lemma effective_answered_by_registered: "effective_answered_by v \<in> set ANSWERED_BY"
  by (simp add: effective_answered_by_def ANSWERED_BY_def ANSWERED_BY_FALLBACK_def)

lemma effective_progress_registered: "effective_progress_status v \<in> set PROGRESS_STATUS"
  by (simp add: effective_progress_status_def PROGRESS_STATUS_def PROGRESS_STATUS_FALLBACK_def)

lemma effective_integrity_registered: "effective_integrity v \<in> set INTEGRITY_MODES"
  by (auto simp: effective_integrity_def INTEGRITY_MODES_def split: option.split)

end
