(* ===== verification/Session_Model.thy ===== *)
theory Session_Model
  imports Registry
begin

text \<open>
  The session engine of \<^verbatim>\<open>dsipvec/session.py\<close>: one \<open>Endpoint\<close> with its sessions, its mock clock and the
  timers of the protocol, its contacts (grants, introductions, tokens) and its presence keys.
  Mutation of \<open>self\<close> is explicit state passing over the record \<open>endpoint\<close>; \<open>self.out\<close> is its field
  \<open>ep_out\<close>, and a \<open>Session\<close> object is reached by its id in \<open>ep_sessions\<close>. A handler that can raise
  (a missing required key, an exhausted \<open>grant_ids\<close>) returns an option.
\<close>

section \<open>Data\<close>

datatype role = Initiator | Responder

datatype sstate = INVITING | PROCEEDING | OFFERED | ALERTING | ACTIVE | ENDED

datatype direction = Outbound | Inbound

datatype tname = T_Establish | T_Ring | T_Queue | T_Ring_Local

record timer =
  tm_name :: tname
  tm_session :: string
  tm_deadline :: int
  tm_seq :: nat

record session =
  s_id :: string
  s_role :: role
  s_state :: sstate
  s_peer :: string
  s_invite_to :: "string option"
  s_invite_expires_at :: "int option"
  s_answered_device :: "string option"
  s_outstanding :: "(string \<times> direction) option"
  s_cancelled :: bool
  s_was_active :: bool
  s_post_answer_seen :: bool
  s_queue_count :: nat

definition new_session :: "string \<Rightarrow> role \<Rightarrow> sstate \<Rightarrow> string \<Rightarrow> string option \<Rightarrow> int option \<Rightarrow> session" where
  "new_session i r st peer to exp = \<lparr>s_id = i, s_role = r, s_state = st, s_peer = peer, s_invite_to = to,
     s_invite_expires_at = exp, s_answered_device = None, s_outstanding = None, s_cancelled = False,
     s_was_active = False, s_post_answer_seen = False, s_queue_count = 0\<rparr>"

definition renegotiating :: "session \<Rightarrow> bool" where
  "renegotiating s \<longleftrightarrow> (case s_outstanding s of Some (_, d) \<Rightarrow> d = Outbound | None \<Rightarrow> False)"

record issued_grant =
  g_grantee :: string
  g_scope :: "string list"
  g_valid_until :: int
  g_audience :: "string option"
  g_keys :: "string list"
  g_chain :: "string list"
  g_ended :: bool

record held_grant =
  h_by :: string
  h_scope :: "string list"
  h_valid_until :: int

text \<open>An outgoing message: a field that is \<^term>\<open>None\<close> is one that \<open>send\<close> leaves out.\<close>

record out_msg =
  o_type :: string
  o_to :: "string option"
  o_session :: "string option"
  o_id :: "string option"
  o_reason :: "string option"
  o_in_reply_to :: "string option"
  o_status :: "string option"
  o_ring_timeout :: "int option"
  o_answered_by :: "string option"
  o_grant :: "string option"
  o_purpose :: "string option"
  o_contact_token :: "string option"
  o_scope :: "string list option"
  o_valid_until :: "int option"
  o_presence_audience :: "string option"
  o_presence_keys :: "string list option"

definition msg0 :: "string \<Rightarrow> out_msg" where
  "msg0 t = \<lparr>o_type = t, o_to = None, o_session = None, o_id = None, o_reason = None, o_in_reply_to = None,
     o_status = None, o_ring_timeout = None, o_answered_by = None, o_grant = None, o_purpose = None,
     o_contact_token = None, o_scope = None, o_valid_until = None, o_presence_audience = None,
     o_presence_keys = None\<rparr>"

datatype media_op = MediaStart | MediaStop | MediaApplyUpdate

datatype ui_event =
    UiEnded string
  | UiOffered
  | UiProgress string
  | UiAnswered string
  | UiMissedCall
  | UiGlareRetry
  | UiUpdateOffered
  | UiUpdateRejected string
  | UiError "string option"
  | UiIntroductionReceived string bool
  | UiIntroductionRejected string
  | UiGranted string

datatype emission =
    Send out_msg
  | TimerStart tname int
  | TimerStop tname
  | TimerFire tname
  | Media media_op
  | Ui ui_event
  | Drop string
  | Refused string
  | Info string
  | Revoked "string list"
  | KeysRotated string nat
  | KeysSeen string nat

record endpoint =
  ep_device :: string
  ep_identity :: string
  ep_identities :: "(string, string) dict"
  ep_now :: int
  ep_t_establish :: int
  ep_t_ring :: int
  ep_t_ring_local :: int
  ep_sessions :: "(string, session) dict"
  ep_timers :: "timer list"
  ep_seq :: nat
  ep_out :: "emission list"
  ep_first_contact :: bool
  ep_allow :: "string set"
  ep_grants_issued :: "(string, issued_grant) dict"
  ep_grants_held :: "(string, held_grant) dict"
  ep_requests :: "(string, string \<times> string) dict"
  ep_pending_sent :: "(string, string) dict"
  ep_tokens :: "(string, string) dict"
  ep_seen_introductions :: "string set"
  ep_keys_on :: bool
  ep_sealed :: "string set"
  ep_t_rotate :: int
  ep_grant_ids :: "string list"
  ep_epochs :: "(string, nat) dict"
  ep_last_rotated :: "(string, int) dict"
  ep_due :: "(string, int) dict"
  ep_held_keys :: "(string, (string, nat set) dict) dict"

text \<open>An incoming message, after the shape checks of the pipeline: \<open>type\<close>, \<open>id\<close> and \<open>from\<close> are there, every
  other key may be absent. \<open>MOther\<close> is a type with no handler.\<close>

datatype mtype = MInvite | MProgress | MAnswer | MReject | MCancel | MUpdate | MInfo | MBye | MHello
  | MError | MIntroduction | MGrant | MPresence | MOther string

record msg =
  m_type :: mtype
  m_id :: string
  m_from :: string
  m_to :: "string option"
  m_session :: "string option"
  m_reason :: "string option"
  m_in_reply_to :: "string option"
  m_status :: "string option"
  m_ring_timeout :: "int option"
  m_queue_timeout :: "int option"
  m_answered_by :: "string option"
  m_about :: "string option"
  m_expires_at :: "int option"
  m_contact_token :: "string option"
  m_scope :: "string list option"
  m_valid_until :: "int option"
  m_presence_keys :: "string list option"
  m_subject :: "string option"
  m_kid :: "string option"

datatype session_cmd =
    Cancel
  | Hangup "string option"
  | Alert "int option"
  | AutoReject string
  | Accept "string option"
  | Decline "string option"
  | Update string "string option"
  | AnswerUpdate string "string option"
  | RejectUpdate string string
  | SendInfo

datatype local_event =
    PlaceCall string string
  | Introduce string string "string option" "string option"
  | IssueGrant string string "string list option" int "string option"
  | Regrant string string "string list option" int "string option"
  | RejectIntroduction string "string option"
  | RevokeGrant string
  | IssueToken string string
  | InSession string session_cmd

datatype event = Advance int | Recv msg | Local local_event

section \<open>Constants and construction\<close>

definition T_ESTABLISH_DEFAULT :: int where "T_ESTABLISH_DEFAULT = 15"
definition T_ESTABLISH_BOUNDS :: "int \<times> int" where "T_ESTABLISH_BOUNDS = (5, 60)"
definition T_RING_DEFAULT :: int where "T_RING_DEFAULT = 120"
definition T_RING_BOUNDS :: "int \<times> int" where "T_RING_BOUNDS = (30, 300)"
definition T_QUEUE_CAP :: int where "T_QUEUE_CAP = 1800"
definition T_RING_LOCAL_DEFAULT :: int where "T_RING_LOCAL_DEFAULT = 120"
definition T_RING_LOCAL_BOUNDS :: "int \<times> int" where "T_RING_LOCAL_BOUNDS = (30, 300)"
definition T_PRESENCE_ROTATE_DEFAULT :: int where "T_PRESENCE_ROTATE_DEFAULT = 60"
definition T_PRESENCE_ROTATE_BOUNDS :: "int \<times> int" where "T_PRESENCE_ROTATE_BOUNDS = (0, 3600)"
definition MAX_CONSECUTIVE_REQUEUES :: nat where "MAX_CONSECUTIVE_REQUEUES = 3"
definition KNOWN_INFO_ABOUT :: "string set" where "KNOWN_INFO_ABOUT = {''transport:webrtc'', ''media:dtmf''}"

lemmas timer_bounds = T_ESTABLISH_BOUNDS_def T_RING_BOUNDS_def T_RING_LOCAL_BOUNDS_def
  T_PRESENCE_ROTATE_BOUNDS_def T_QUEUE_CAP_def

text \<open>The \<open>presence_keys\<close> part of a context, and the context of \<open>Endpoint(ctx)\<close>.\<close>

record keys_ctx =
  kc_sealed :: "string list"
  kc_t_rotate :: "int option"
  kc_grant_ids :: "string list"

record ctx =
  cx_device :: string
  cx_identity :: string
  cx_identities :: "(string, string) dict"
  cx_start :: int
  cx_t_establish :: "int option"
  cx_t_ring :: "int option"
  cx_t_ring_local :: "int option"
  cx_first_contact :: bool
  cx_allow :: "string list"
  cx_keys :: "keys_ctx option"

definition opt_or :: "'a option \<Rightarrow> 'a \<Rightarrow> 'a" where
  "opt_or x d = (case x of Some v \<Rightarrow> v | None \<Rightarrow> d)"

definition init_endpoint :: "ctx \<Rightarrow> endpoint" where
  "init_endpoint c =
    (let pk = cx_keys c;
         sealed = (case pk of Some k \<Rightarrow> kc_sealed k | None \<Rightarrow> []) in
     \<lparr>ep_device = cx_device c, ep_identity = cx_identity c, ep_identities = cx_identities c,
      ep_now = cx_start c,
      ep_t_establish = clamp (opt_or (cx_t_establish c) T_ESTABLISH_DEFAULT) T_ESTABLISH_BOUNDS,
      ep_t_ring = clamp (opt_or (cx_t_ring c) T_RING_DEFAULT) T_RING_BOUNDS,
      ep_t_ring_local = clamp (opt_or (cx_t_ring_local c) T_RING_LOCAL_DEFAULT) T_RING_LOCAL_BOUNDS,
      ep_sessions = [], ep_timers = [], ep_seq = 0, ep_out = [],
      ep_first_contact = cx_first_contact c, ep_allow = set (cx_allow c),
      ep_grants_issued = [], ep_grants_held = [], ep_requests = [], ep_pending_sent = [], ep_tokens = [],
      ep_seen_introductions = {},
      ep_keys_on = (pk \<noteq> None), ep_sealed = set sealed,
      ep_t_rotate = clamp (opt_or (Option.bind pk kc_t_rotate) T_PRESENCE_ROTATE_DEFAULT) T_PRESENCE_ROTATE_BOUNDS,
      ep_grant_ids = (case pk of Some k \<Rightarrow> kc_grant_ids k | None \<Rightarrow> []),
      ep_epochs = (if pk \<noteq> None then foldl (\<lambda>d sc. dset sc 0 d) [(''main'', 0)] sealed else []),
      ep_last_rotated = [], ep_due = [], ep_held_keys = []\<rparr>)"

section \<open>Helpers\<close>

definition identity_of :: "endpoint \<Rightarrow> string \<Rightarrow> string" where
  "identity_of ep did = dget_or (ep_identities ep) did did"

definition has_grant :: "endpoint \<Rightarrow> string \<Rightarrow> bool" where
  "has_grant ep who \<longleftrightarrow> list_ex (\<lambda>g. g_grantee g = who \<and> ep_now ep < g_valid_until g
     \<and> ''dsip.invite'' \<in> set (g_scope g)) (dvals (ep_grants_issued ep))"

definition emit :: "emission \<Rightarrow> endpoint \<Rightarrow> endpoint" where
  "emit e ep = ep\<lparr>ep_out := ep_out ep @ [e]\<rparr>"

definition send :: "out_msg \<Rightarrow> endpoint \<Rightarrow> endpoint" where
  "send m ep = emit (Send m) ep"

definition send_error :: "string \<Rightarrow> string \<Rightarrow> string option \<Rightarrow> string \<Rightarrow> endpoint \<Rightarrow> endpoint" where
  "send_error from mid sess reason ep =
     send ((msg0 ''error'')\<lparr>o_to := Some from, o_session := sess, o_reason := Some reason,
            o_in_reply_to := Some mid\<rparr>) ep"

definition err :: "msg \<Rightarrow> string \<Rightarrow> endpoint \<Rightarrow> endpoint" where
  "err m reason ep = send_error (m_from m) (m_id m) (m_session m) reason ep"

definition running :: "endpoint \<Rightarrow> string \<Rightarrow> tname \<Rightarrow> timer option" where
  "running ep i n = find (\<lambda>t. tm_session t = i \<and> tm_name t = n) (ep_timers ep)"

definition stop_timer :: "string \<Rightarrow> tname \<Rightarrow> bool \<Rightarrow> endpoint \<Rightarrow> endpoint" where
  "stop_timer i n silent ep = (case running ep i n of
      None \<Rightarrow> ep
    | Some t \<Rightarrow>
        (let ep = ep\<lparr>ep_timers := remove1 t (ep_timers ep)\<rparr>
         in if silent then ep else emit (TimerStop n) ep))"

definition start_timer :: "string \<Rightarrow> tname \<Rightarrow> int \<Rightarrow> endpoint \<Rightarrow> endpoint" where
  "start_timer i n seconds ep =
    (let ep = stop_timer i n True ep;
         q = Suc (ep_seq ep);
         t = \<lparr>tm_name = n, tm_session = i, tm_deadline = ep_now ep + seconds, tm_seq = q\<rparr>
     in emit (TimerStart n seconds) (ep\<lparr>ep_seq := q, ep_timers := ep_timers ep @ [t]\<rparr>))"

definition stop_all :: "string \<Rightarrow> endpoint \<Rightarrow> endpoint" where
  "stop_all i ep = foldl (\<lambda>ep n. stop_timer i n False ep) ep [T_Establish, T_Ring, T_Queue, T_Ring_Local]"

text \<open>A write to the \<open>Session\<close> object with id \<open>i\<close>.\<close>

definition upd :: "string \<Rightarrow> (session \<Rightarrow> session) \<Rightarrow> endpoint \<Rightarrow> endpoint" where
  "upd i f ep = ep\<lparr>ep_sessions := dmodify i f (ep_sessions ep)\<rparr>"

definition put_session :: "session \<Rightarrow> endpoint \<Rightarrow> endpoint" where
  "put_session s ep = ep\<lparr>ep_sessions := dset (s_id s) s (ep_sessions ep)\<rparr>"

definition end_session :: "string \<Rightarrow> string option \<Rightarrow> bool \<Rightarrow> endpoint \<Rightarrow> endpoint" where
  "end_session i ui_reason media_stop ep =
    (let ep = stop_all i ep;
         ep = upd i (\<lambda>s. s\<lparr>s_outstanding := None\<rparr>) ep;
         ep = (if media_stop then emit (Media MediaStop) ep else ep);
         ep = upd i (\<lambda>s. s\<lparr>s_state := ENDED\<rparr>) ep
     in case ui_reason of Some r \<Rightarrow> emit (Ui (UiEnded r)) ep | None \<Rightarrow> ep)"

section \<open>Grants and presence keys\<close>

definition key_scopes :: "endpoint \<Rightarrow> string list \<Rightarrow> string option \<Rightarrow> string list" where
  "key_scopes ep scope audience =
    (if \<not> ep_keys_on ep \<or> ''dsip.subscribe'' \<notin> set scope then []
     else if ''main'' \<notin> ep_sealed ep \<and> (case audience of Some a \<Rightarrow> a \<notin> ep_sealed ep | None \<Rightarrow> True) then []
     else ''main'' # (case audience of Some a \<Rightarrow> [a] | None \<Rightarrow> []))"

text \<open>The wire name of a key, \<open>f"{scope}.{epoch}"\<close>.\<close>

definition kid_of :: "string \<Rightarrow> nat \<Rightarrow> string" where
  "kid_of sc e = sc @ ''.'' @ show_nat e"

definition kids_at :: "(string, nat) dict \<Rightarrow> string list \<Rightarrow> string list" where
  "kids_at epochs keys = map (\<lambda>sc. kid_of sc (dget_or epochs sc 0)) keys"

definition issue_grant :: "string \<Rightarrow> string \<Rightarrow> string list \<Rightarrow> int \<Rightarrow> string \<Rightarrow> string option \<Rightarrow> string list
    \<Rightarrow> endpoint \<Rightarrow> endpoint" where
  "issue_grant gid grantee scope valid_until introduction audience chain ep =
    (let keys = key_scopes ep scope audience;
         ep = ep\<lparr>ep_epochs := foldl (\<lambda>d sc. dsetdefault sc 0 d) (ep_epochs ep) keys\<rparr>;
         g = \<lparr>g_grantee = grantee, g_scope = scope, g_valid_until = valid_until, g_audience = audience,
              g_keys = keys, g_chain = chain, g_ended = False\<rparr>;
         ep = ep\<lparr>ep_grants_issued := dset gid g (ep_grants_issued ep)\<rparr>
     in send ((msg0 ''grant'')\<lparr>o_to := Some grantee, o_session := Some introduction, o_id := Some gid,
          o_scope := Some scope, o_valid_until := Some valid_until, o_presence_audience := audience,
          o_presence_keys := (if keys = [] then None else Some (kids_at (ep_epochs ep) keys))\<rparr>) ep)"

text \<open>
  \<open>end_grant\<close> makes the scopes of a grant due. The flag \<open>ended\<close> of the grant object is set by
  \<open>mark_ended\<close> where the object stays in \<open>grants_issued\<close>; at the other two calls it has been removed.
\<close>

definition due_scope :: "string list \<Rightarrow> endpoint \<Rightarrow> string \<Rightarrow> endpoint" where
  "due_scope keep ep sc =
    (if sc \<in> set keep \<or> dget (ep_due ep) sc \<noteq> None then ep
     else ep\<lparr>ep_due := dset sc
       (case dget (ep_last_rotated ep) sc of
          None \<Rightarrow> ep_now ep
        | Some prev \<Rightarrow> if prev + ep_t_rotate ep \<le> ep_now ep then ep_now ep else prev + ep_t_rotate ep)
       (ep_due ep)\<rparr>)"

definition end_grant :: "issued_grant \<Rightarrow> string list \<Rightarrow> endpoint \<Rightarrow> endpoint" where
  "end_grant g keep ep = (if g_ended g then ep else foldl (due_scope keep) ep (g_keys g))"

definition mark_ended :: "string \<Rightarrow> endpoint \<Rightarrow> endpoint" where
  "mark_ended gid ep = ep\<lparr>ep_grants_issued := dmodify gid (\<lambda>g. g\<lparr>g_ended := True\<rparr>) (ep_grants_issued ep)\<rparr>"

text \<open>One iteration of the loop of \<open>regrant_carrying\<close>, and the loop over the ids that were there at its start.\<close>

definition regrant_one :: "string set \<Rightarrow> string \<Rightarrow> endpoint \<Rightarrow> endpoint option" where
  "regrant_one scopes gid ep = do {
     g \<leftarrow> dget (ep_grants_issued ep) gid;
     if g_valid_until g \<le> ep_now ep \<or> scopes \<inter> set (g_keys g) = {} then Some ep
     else case ep_grant_ids ep of
       [] \<Rightarrow> None
     | new # rest \<Rightarrow>
         Some (issue_grant new (g_grantee g) (g_scope g) (g_valid_until g) gid (g_audience g) (gid # g_chain g)
           (ep\<lparr>ep_grants_issued := ddel gid (ep_grants_issued ep), ep_grant_ids := rest\<rparr>))
   }"

fun regrant_all :: "string set \<Rightarrow> string list \<Rightarrow> endpoint \<Rightarrow> endpoint option" where
  "regrant_all scopes [] ep = Some ep"
| "regrant_all scopes (gid # gids) ep = do { ep' \<leftarrow> regrant_one scopes gid ep; regrant_all scopes gids ep' }"

definition regrant_carrying :: "string set \<Rightarrow> endpoint \<Rightarrow> endpoint option" where
  "regrant_carrying scopes ep =
    (if scopes = {} then Some ep else regrant_all scopes (dsorted (ep_grants_issued ep)) ep)"

fun rotate_scopes :: "string list \<Rightarrow> endpoint \<Rightarrow> endpoint option" where
  "rotate_scopes [] ep = Some ep"
| "rotate_scopes (sc # scs) ep = do {
     e \<leftarrow> dget (ep_epochs ep) sc;
     rotate_scopes scs (emit (KeysRotated sc (Suc e))
       (ep\<lparr>ep_due := ddel sc (ep_due ep), ep_epochs := dset sc (Suc e) (ep_epochs ep),
          ep_last_rotated := dset sc (ep_now ep) (ep_last_rotated ep)\<rparr>))
   }"

definition due_now :: "endpoint \<Rightarrow> string list" where
  "due_now ep = sort_key (\<lambda>sc. (sc \<noteq> ''main'', sc)) (map fst (filter (\<lambda>(sc, t). t \<le> ep_now ep) (ep_due ep)))"

definition rotate_due :: "endpoint \<Rightarrow> endpoint option" where
  "rotate_due ep = (let scopes = due_now ep in do {
     ep' \<leftarrow> rotate_scopes scopes ep;
     regrant_carrying (set scopes) ep'
   })"

text \<open>The first held grant, in id order, from an identity that is live and admits an invite.\<close>

definition held_grant_for :: "endpoint \<Rightarrow> string \<Rightarrow> string option" where
  "held_grant_for ep who =
    map_option fst (find (\<lambda>(gid, g). h_by g = who \<and> ep_now ep < h_valid_until g \<and> ''dsip.invite'' \<in> set (h_scope g))
      (sort_key fst (ep_grants_held ep)))"

section \<open>The clock\<close>

definition fire :: "timer \<Rightarrow> endpoint \<Rightarrow> endpoint option" where
  "fire t ep = do {
     s \<leftarrow> dget (ep_sessions ep) (tm_session t);
     let i = s_id s;
     let ep = emit (TimerFire (tm_name t)) ep;
     if tm_name t \<in> {T_Establish, T_Ring, T_Queue} \<and> s_state s \<in> {INVITING, PROCEEDING} then
       (let ep = stop_all i ep;
            ep = send ((msg0 ''cancel'')\<lparr>o_to := s_invite_to s, o_session := Some i,
                        o_reason := Some ''session.timeout''\<rparr>) ep;
            ep = upd i (\<lambda>s. s\<lparr>s_cancelled := True\<rparr>) ep
        in Some (end_session i (Some ''session.timeout'') False ep))
     else if tm_name t = T_Ring_Local \<and> s_state s = ALERTING then
       (let ep = send ((msg0 ''reject'')\<lparr>o_to := Some (s_peer s), o_session := Some i,
                        o_reason := Some ''user.no-answer''\<rparr>) ep
        in Some (end_session i (Some ''user.no-answer'') False ep))
     else Some ep
   }"

definition due_timers :: "endpoint \<Rightarrow> timer list" where
  "due_timers ep = filter (\<lambda>t. tm_deadline t \<le> ep_now ep) (ep_timers ep)"

definition next_timer :: "endpoint \<Rightarrow> timer" where
  "next_timer ep = arg_min_list (\<lambda>t. (tm_deadline t, tm_seq t)) (due_timers ep)"

definition fire_next :: "endpoint \<Rightarrow> endpoint option" where
  "fire_next ep = fire (next_timer ep) (ep\<lparr>ep_timers := remove1 (next_timer ep) (ep_timers ep)\<rparr>)"

partial_function (option) fire_due :: "endpoint \<Rightarrow> endpoint option" where
  "fire_due ep = (if due_timers ep = [] then Some ep else Option.bind (fire_next ep) fire_due)"

fun end_expired :: "string list \<Rightarrow> endpoint \<Rightarrow> endpoint option" where
  "end_expired [] ep = Some ep"
| "end_expired (gid # gids) ep = do {
     g \<leftarrow> dget (ep_grants_issued ep) gid;
     end_expired gids
       (if g_keys g \<noteq> [] \<and> \<not> g_ended g \<and> g_valid_until g \<le> ep_now ep
        then mark_ended gid (end_grant g [] ep) else ep)
   }"

definition instants :: "int \<Rightarrow> endpoint \<Rightarrow> int list" where
  "instants target ep = filter (\<lambda>t. t \<le> target)
     (map tm_deadline (ep_timers ep)
      @ map g_valid_until (filter (\<lambda>g. g_keys g \<noteq> [] \<and> \<not> g_ended g) (dvals (ep_grants_issued ep)))
      @ dvals (ep_due ep))"

text \<open>One turn of the outer loop of \<open>advance\<close>: everything due at the next instant.\<close>

definition settle :: "int \<Rightarrow> endpoint \<Rightarrow> endpoint option" where
  "settle target ep = do {
     let ep = ep\<lparr>ep_now := max (ep_now ep) (min_list (instants target ep))\<rparr>;
     ep \<leftarrow> fire_due ep;
     ep \<leftarrow> end_expired (dsorted (ep_grants_issued ep)) ep;
     rotate_due ep
   }"

partial_function (option) advance_to :: "int \<Rightarrow> endpoint \<Rightarrow> endpoint option" where
  "advance_to target ep = (if instants target ep = [] then Some (ep\<lparr>ep_now := target\<rparr>)
     else Option.bind (settle target ep) (advance_to target))"

definition advance :: "int \<Rightarrow> endpoint \<Rightarrow> endpoint option" where
  "advance seconds ep = advance_to (ep_now ep + seconds) ep"

section \<open>Local events\<close>

text \<open>\<open>re.fullmatch(r"[a-z][a-z0-9-]{0,63}", audience)\<close>.\<close>

definition is_lower :: "char \<Rightarrow> bool" where
  "is_lower c \<longleftrightarrow> (of_char c :: nat) \<in> {97..122}"

definition valid_audience :: "string \<Rightarrow> bool" where
  "valid_audience a = (case a of [] \<Rightarrow> False
     | c # cs \<Rightarrow> is_lower c \<and> length cs \<le> 63 \<and> list_all (\<lambda>c. is_lower c \<or> is_digit c \<or> c = CHR ''-'') cs)"

definition bad_audience :: "string option \<Rightarrow> bool" where
  "bad_audience a = (case a of Some x \<Rightarrow> \<not> valid_audience x | None \<Rightarrow> False)"

definition place_call :: "string \<Rightarrow> string \<Rightarrow> endpoint \<Rightarrow> endpoint" where
  "place_call sid to ep =
    (if dget (ep_sessions ep) sid \<noteq> None then emit (Refused ''invalid-state'') ep
     else
       (let ep = put_session (new_session sid Initiator INVITING to (Some to) None) ep;
            ep = send ((msg0 ''invite'')\<lparr>o_to := Some to, o_session := Some sid,
                        o_grant := held_grant_for ep (identity_of ep to)\<rparr>) ep
        in start_timer sid T_Establish (ep_t_establish ep) ep))"

definition introduce :: "string \<Rightarrow> string \<Rightarrow> string option \<Rightarrow> string option \<Rightarrow> endpoint \<Rightarrow> endpoint" where
  "introduce i to purpose token ep =
    send ((msg0 ''introduction'')\<lparr>o_to := Some to, o_id := Some i, o_purpose := purpose, o_contact_token := token\<rparr>)
      (ep\<lparr>ep_pending_sent := dset i to (ep_pending_sent ep)\<rparr>)"

definition local_grant :: "string \<Rightarrow> string \<Rightarrow> string list option \<Rightarrow> int \<Rightarrow> string option \<Rightarrow> endpoint \<Rightarrow> endpoint" where
  "local_grant introduction gid scope valid_until audience ep =
    (case dget (ep_requests ep) introduction of
       None \<Rightarrow> emit (Refused ''unknown-introduction'') ep
     | Some (from, _) \<Rightarrow>
         if bad_audience audience then emit (Refused ''invalid-audience'') ep
         else issue_grant gid from (opt_or scope [''dsip.invite'']) valid_until introduction audience []
                (ep\<lparr>ep_requests := ddel introduction (ep_requests ep)\<rparr>))"

definition local_regrant :: "string \<Rightarrow> string \<Rightarrow> string list option \<Rightarrow> int \<Rightarrow> string option \<Rightarrow> endpoint
    \<Rightarrow> endpoint option" where
  "local_regrant grant gid scope valid_until audience ep =
    (case dget (ep_grants_issued ep) grant of
       None \<Rightarrow> Some (emit (Refused ''unknown-grant'') ep)
     | Some old \<Rightarrow>
         if g_valid_until old \<le> ep_now ep then Some (emit (Refused ''unknown-grant'') ep)
         else if bad_audience audience then Some (emit (Refused ''invalid-audience'') ep)
         else do {
           let ep = emit (Revoked (grant # g_chain old)) ep;
           let ep = ep\<lparr>ep_grants_issued := ddel grant (ep_grants_issued ep)\<rparr>;
           let ep = issue_grant gid (g_grantee old) (opt_or scope [''dsip.invite'']) valid_until grant audience [] ep;
           new \<leftarrow> dget (ep_grants_issued ep) gid;
           rotate_due (end_grant old (g_keys new) ep)
         })"

definition reject_introduction :: "string \<Rightarrow> string option \<Rightarrow> endpoint \<Rightarrow> endpoint" where
  "reject_introduction introduction reason ep =
    (case dget (ep_requests ep) introduction of
       None \<Rightarrow> emit (Refused ''unknown-introduction'') ep
     | Some (from, _) \<Rightarrow>
         send ((msg0 ''reject'')\<lparr>o_to := Some from, o_session := Some introduction,
                o_reason := Some (opt_or reason ''user.declined'')\<rparr>)
           (ep\<lparr>ep_requests := ddel introduction (ep_requests ep)\<rparr>))"

definition revoke_grant :: "string \<Rightarrow> endpoint \<Rightarrow> endpoint option" where
  "revoke_grant grant ep =
    (case dget (ep_grants_issued ep) grant of
       None \<Rightarrow> Some (emit (Refused ''unknown-grant'') ep)
     | Some g \<Rightarrow>
         (let ep = ep\<lparr>ep_grants_issued := ddel grant (ep_grants_issued ep)\<rparr>;
              ep = emit (Revoked (grant # g_chain g)) ep
          in rotate_due (end_grant g [] ep)))"

text \<open>The commands about a session, \<open>s\<close> the session with id \<open>i\<close> at their start.\<close>

definition cmd_cancel :: "string \<Rightarrow> session \<Rightarrow> endpoint \<Rightarrow> endpoint" where
  "cmd_cancel i s ep =
    (if s_role s = Initiator \<and> s_state s \<in> {INVITING, PROCEEDING} then
       (let ep = stop_all i ep;
            ep = send ((msg0 ''cancel'')\<lparr>o_to := s_invite_to s, o_session := Some i,
                        o_reason := Some ''user.cancelled''\<rparr>) ep
        in upd i (\<lambda>s. s\<lparr>s_cancelled := True, s_state := ENDED\<rparr>) ep)
     else emit (Refused ''invalid-state'') ep)"

definition cmd_hangup :: "string \<Rightarrow> session \<Rightarrow> string option \<Rightarrow> endpoint \<Rightarrow> endpoint" where
  "cmd_hangup i s reason ep =
    (if s_state s = ACTIVE then
       (let ep = stop_all i ep;
            ep = upd i (\<lambda>s. s\<lparr>s_outstanding := None\<rparr>) ep;
            why = (case reason of Some r \<Rightarrow> if r = [] then ''user.hangup'' else r | None \<Rightarrow> ''user.hangup'');
            ep = send ((msg0 ''bye'')\<lparr>o_to := Some (s_peer s), o_session := Some i, o_reason := Some why\<rparr>) ep;
            ep = emit (Media MediaStop) ep
        in upd i (\<lambda>s. s\<lparr>s_state := ENDED\<rparr>) ep)
     else emit (Refused ''invalid-state'') ep)"

definition cmd_alert :: "string \<Rightarrow> session \<Rightarrow> int option \<Rightarrow> endpoint \<Rightarrow> endpoint option" where
  "cmd_alert i s rt ep =
    (if s_role s = Responder \<and> s_state s = OFFERED then do {
       expires_at \<leftarrow> s_invite_expires_at s;
       if expires_at \<le> ep_now ep then
         Some (end_session i None False
           (send ((msg0 ''reject'')\<lparr>o_to := Some (s_peer s), o_session := Some i,
                  o_reason := Some ''session.expired''\<rparr>) ep))
       else
         (let ep = send ((msg0 ''progress'')\<lparr>o_to := Some (s_peer s), o_session := Some i,
                          o_status := Some ''ringing'', o_ring_timeout := rt\<rparr>) ep;
              ep = upd i (\<lambda>s. s\<lparr>s_state := ALERTING\<rparr>) ep
          in Some (start_timer i T_Ring_Local
               (case rt of Some v \<Rightarrow> if v = 0 then ep_t_ring_local ep else clamp v T_RING_LOCAL_BOUNDS
                | None \<Rightarrow> ep_t_ring_local ep) ep))
     } else Some (emit (Refused ''invalid-state'') ep))"

definition cmd_auto_reject :: "string \<Rightarrow> session \<Rightarrow> string \<Rightarrow> endpoint \<Rightarrow> endpoint" where
  "cmd_auto_reject i s reason ep =
    (if s_role s = Responder \<and> s_state s = OFFERED then
       end_session i None False
         (send ((msg0 ''reject'')\<lparr>o_to := Some (s_peer s), o_session := Some i, o_reason := Some reason\<rparr>) ep)
     else emit (Refused ''invalid-state'') ep)"

definition cmd_accept :: "string \<Rightarrow> session \<Rightarrow> string option \<Rightarrow> endpoint \<Rightarrow> endpoint" where
  "cmd_accept i s answered_by ep =
    (if s_role s = Responder \<and> s_state s = ALERTING then
       (let ep = stop_all i ep;
            ep = send ((msg0 ''answer'')\<lparr>o_to := Some (s_peer s), o_session := Some i,
                        o_answered_by := Some (opt_or answered_by ''user'')\<rparr>) ep;
            ep = upd i (\<lambda>s. s\<lparr>s_state := ACTIVE, s_was_active := True\<rparr>) ep
        in emit (Media MediaStart) ep)
     else emit (Refused ''invalid-state'') ep)"

definition cmd_decline :: "string \<Rightarrow> session \<Rightarrow> string option \<Rightarrow> endpoint \<Rightarrow> endpoint" where
  "cmd_decline i s reason ep =
    (if s_role s = Responder \<and> s_state s = ALERTING then
       (let ep = stop_all i ep;
            ep = send ((msg0 ''reject'')\<lparr>o_to := Some (s_peer s), o_session := Some i,
                        o_reason := Some (opt_or reason ''user.declined'')\<rparr>) ep
        in end_session i None False ep)
     else emit (Refused ''invalid-state'') ep)"

definition cmd_update :: "string \<Rightarrow> session \<Rightarrow> string \<Rightarrow> string option \<Rightarrow> endpoint \<Rightarrow> endpoint" where
  "cmd_update i s uid answered_by ep =
    (if s_state s \<noteq> ACTIVE then emit (Refused ''invalid-state'') ep
     else if s_outstanding s \<noteq> None then emit (Refused ''update-pending'') ep
     else upd i (\<lambda>s. s\<lparr>s_outstanding := Some (uid, Outbound)\<rparr>)
       (send ((msg0 ''update'')\<lparr>o_to := Some (s_peer s), o_session := Some i, o_id := Some uid,
               o_answered_by := answered_by\<rparr>) ep))"

definition cmd_reply_update :: "string \<Rightarrow> session \<Rightarrow> string \<Rightarrow> (endpoint \<Rightarrow> endpoint) \<Rightarrow> endpoint \<Rightarrow> endpoint" where
  "cmd_reply_update i s in_reply_to reply ep =
    (if s_state s = ACTIVE \<and> s_outstanding s = Some (in_reply_to, Inbound)
     then upd i (\<lambda>s. s\<lparr>s_outstanding := None\<rparr>) (reply ep)
     else emit (Refused ''no-pending-update'') ep)"

definition cmd_info :: "string \<Rightarrow> session \<Rightarrow> endpoint \<Rightarrow> endpoint" where
  "cmd_info i s ep =
    (if s_state s = ACTIVE then send ((msg0 ''info'')\<lparr>o_to := Some (s_peer s), o_session := Some i\<rparr>) ep
     else emit (Refused ''invalid-state'') ep)"

fun do_session_cmd :: "string \<Rightarrow> session \<Rightarrow> session_cmd \<Rightarrow> endpoint \<Rightarrow> endpoint option" where
  "do_session_cmd i s Cancel ep = Some (cmd_cancel i s ep)"
| "do_session_cmd i s (Hangup reason) ep = Some (cmd_hangup i s reason ep)"
| "do_session_cmd i s (Alert rt) ep = cmd_alert i s rt ep"
| "do_session_cmd i s (AutoReject reason) ep = Some (cmd_auto_reject i s reason ep)"
| "do_session_cmd i s (Accept ab) ep = Some (cmd_accept i s ab ep)"
| "do_session_cmd i s (Decline reason) ep = Some (cmd_decline i s reason ep)"
| "do_session_cmd i s (Update uid ab) ep = Some (cmd_update i s uid ab ep)"
| "do_session_cmd i s (AnswerUpdate rep ab) ep = Some (cmd_reply_update i s rep
     (\<lambda>ep. emit (Media MediaApplyUpdate)
       (send ((msg0 ''answer'')\<lparr>o_to := Some (s_peer s), o_session := Some i,
               o_answered_by := Some (opt_or ab ''user''), o_in_reply_to := Some rep\<rparr>) ep)) ep)"
| "do_session_cmd i s (RejectUpdate rep reason) ep = Some (cmd_reply_update i s rep
     (\<lambda>ep. send ((msg0 ''reject'')\<lparr>o_to := Some (s_peer s), o_session := Some i, o_reason := Some reason,
               o_in_reply_to := Some rep\<rparr>) ep) ep)"
| "do_session_cmd i s SendInfo ep = Some (cmd_info i s ep)"

fun local_step :: "local_event \<Rightarrow> endpoint \<Rightarrow> endpoint option" where
  "local_step (PlaceCall sid to) ep = Some (place_call sid to ep)"
| "local_step (Introduce i to purpose token) ep = Some (introduce i to purpose token ep)"
| "local_step (IssueGrant introduction gid scope vu audience) ep =
     Some (local_grant introduction gid scope vu audience ep)"
| "local_step (Regrant grant gid scope vu audience) ep = local_regrant grant gid scope vu audience ep"
| "local_step (RejectIntroduction introduction reason) ep = Some (reject_introduction introduction reason ep)"
| "local_step (RevokeGrant grant) ep = revoke_grant grant ep"
| "local_step (IssueToken token gid) ep = Some (ep\<lparr>ep_tokens := dset token gid (ep_tokens ep)\<rparr>)"
| "local_step (InSession sid c) ep = (case dget (ep_sessions ep) sid of
       None \<Rightarrow> Some (emit (Refused ''unknown-session'') ep)
     | Some s \<Rightarrow> do_session_cmd (s_id s) s c ep)"

section \<open>Received messages\<close>

definition recv_introduction :: "msg \<Rightarrow> endpoint \<Rightarrow> endpoint" where
  "recv_introduction m ep =
    (if m_id m \<in> ep_seen_introductions ep then emit (Drop ''duplicate-introduction'') ep
     else
       (let ep = ep\<lparr>ep_seen_introductions := insert (m_id m) (ep_seen_introductions ep)\<rparr>;
            who = identity_of ep (m_from m)
        in case Option.bind (m_contact_token m) (\<lambda>t. map_option (\<lambda>g. (t, g)) (dget (ep_tokens ep) t)) of
             Some (token, gid) \<Rightarrow>
               (let ep = ep\<lparr>ep_tokens := ddel token (ep_tokens ep)\<rparr>;
                    ep = emit (Ui (UiIntroductionReceived who True)) ep
                in issue_grant gid who [''dsip.invite''] (ep_now ep + 31536000) (m_id m) None [] ep)
           | None \<Rightarrow>
               emit (Ui (UiIntroductionReceived who False))
                 (ep\<lparr>ep_requests := dset (m_id m) (who, m_from m) (ep_requests ep)\<rparr>)))"

text \<open>The keys a received grant lists: per scope, those of the two highest epochs are held.\<close>

definition keep_two :: "nat set \<Rightarrow> nat set" where
  "keep_two es = (let xs = sorted_list_of_set es in set (drop (length xs - 2) xs))"

text \<open>A key of a grant: a name whose epoch is not a number is passed over, and one too long for \<open>int\<close> raises.\<close>

definition hold_key :: "string \<Rightarrow> string \<Rightarrow> (string, (string, nat set) dict) dict
    \<Rightarrow> (string, (string, nat set) dict) dict option" where
  "hold_key by kid held =
    (let (sc, e) = rpartition CHR ''.'' kid in
     if \<not> is_numeral e then Some held
     else map_option (\<lambda>n.
       let scopes = dget_or held by [];
           epochs = dget_or scopes sc {}
       in dset by (dset sc (keep_two (insert n epochs)) scopes) held) (int_of_digits e))"

fun hold_keys :: "string \<Rightarrow> string list \<Rightarrow> (string, (string, nat set) dict) dict
    \<Rightarrow> (string, (string, nat set) dict) dict option" where
  "hold_keys by [] held = Some held"
| "hold_keys by (kid # kids) held = Option.bind (hold_key by kid held) (hold_keys by kids)"

definition recv_grant :: "msg \<Rightarrow> endpoint \<Rightarrow> endpoint option" where
  "recv_grant m ep =
    (let intro = m_session m;
         by = identity_of ep (m_from m);
         followed = Option.bind intro (dget (ep_grants_held ep));
         accept = (\<lambda>ep. map_option (\<lambda>keys. emit (Ui (UiGranted by))
           (ep\<lparr>ep_grants_held := dset (m_id m)
                 \<lparr>h_by = by, h_scope = opt_or (m_scope m) [], h_valid_until = opt_or (m_valid_until m) 0\<rparr>
                 (ep_grants_held ep),
               ep_held_keys := keys\<rparr>))
           (hold_keys by (opt_or (m_presence_keys m) []) (ep_held_keys ep)))
     in case Option.bind intro (\<lambda>i. map_option (\<lambda>_. i) (dget (ep_pending_sent ep) i)) of
          Some i \<Rightarrow> accept (ep\<lparr>ep_pending_sent := ddel i (ep_pending_sent ep)\<rparr>)
        | None \<Rightarrow>
            (case (intro, followed) of
               (Some i, Some g) \<Rightarrow>
                 if h_by g = by \<and> ep_now ep < h_valid_until g
                 then accept (ep\<lparr>ep_grants_held := ddel i (ep_grants_held ep)\<rparr>)
                 else Some (emit (Drop ''unknown-introduction'') ep)
             | _ \<Rightarrow> Some (emit (Drop ''unknown-introduction'') ep)))"

definition recv_own_record :: "msg \<Rightarrow> endpoint \<Rightarrow> endpoint option" where
  "recv_own_record m ep =
    (case m_kid m of
       None \<Rightarrow> Some ep
     | Some kid \<Rightarrow>
         if \<not> ep_keys_on ep \<or> m_subject m \<noteq> Some (ep_identity ep) then Some ep
         else let (sc, e) = rpartition CHR ''.'' kid in
           if \<not> is_numeral e then Some ep
           else do {
             n \<leftarrow> int_of_digits e;
             if (case dget (ep_epochs ep) sc of Some x \<Rightarrow> n \<le> x | None \<Rightarrow> False) then Some ep
             else regrant_carrying {sc} (emit (KeysSeen sc n) (ep\<lparr>ep_epochs := dset sc n (ep_epochs ep)\<rparr>))
           })"

text \<open>Glare: our live attempts to the identity an invite comes from, in id order, and their withdrawal.\<close>

definition rivals :: "endpoint \<Rightarrow> string \<Rightarrow> session list" where
  "rivals ep from_identity = sort_key s_id (filter (\<lambda>s. s_role s = Initiator \<and> s_state s \<in> {INVITING, PROCEEDING}
     \<and> map_option (identity_of ep) (s_invite_to s) = Some from_identity) (dvals (ep_sessions ep)))"

definition withdraw :: "endpoint \<Rightarrow> session \<Rightarrow> endpoint" where
  "withdraw ep s =
    (let ep = stop_all (s_id s) ep;
         ep = send ((msg0 ''cancel'')\<lparr>o_to := s_invite_to s, o_session := Some (s_id s),
                     o_reason := Some ''session.glare''\<rparr>) ep;
         ep = upd (s_id s) (\<lambda>s. s\<lparr>s_cancelled := True, s_state := ENDED\<rparr>) ep
     in emit (Ui (UiEnded ''session.glare'')) ep)"

definition reject_invite :: "msg \<Rightarrow> string \<Rightarrow> endpoint \<Rightarrow> endpoint" where
  "reject_invite m reason ep =
    send ((msg0 ''reject'')\<lparr>o_to := Some (m_from m), o_session := Some (m_id m), o_reason := Some reason\<rparr>) ep"

definition offer :: "msg \<Rightarrow> endpoint \<Rightarrow> endpoint" where
  "offer m ep = emit (Ui UiOffered)
     (put_session (new_session (m_id m) Responder OFFERED (m_from m) (m_to m) (m_expires_at m)) ep)"

definition recv_invite :: "msg \<Rightarrow> endpoint \<Rightarrow> endpoint" where
  "recv_invite m ep =
    (let sid = m_id m;
         who = identity_of ep (m_from m);
         rejected = new_session sid Responder ENDED (m_from m) None None
     in if ep_first_contact ep \<and> who \<notin> ep_allow ep \<and> \<not> has_grant ep who then
          put_session rejected (reject_invite m ''policy.first-contact-required'' ep)
        else case rivals ep who of
          [] \<Rightarrow> (case dget (ep_sessions ep) sid of
                   Some s \<Rightarrow> if s_state s = ENDED then emit (Drop ''ended-session'') ep
                             else send_error (m_from m) sid (Some sid) ''session.invalid-state'' ep
                 | None \<Rightarrow> offer m ep)
        | r # rs \<Rightarrow>
            if s_id r < sid then put_session rejected (reject_invite m ''session.glare'' ep)
            else let ep = foldl withdraw ep (r # rs) in
              if s_id r = sid then emit (Ui UiGlareRetry) (reject_invite m ''session.glare'' ep)
              else offer m ep)"

text \<open>The three branches of \<open>recv_progress\<close> on the effective status.\<close>

definition on_ringing :: "string \<Rightarrow> msg \<Rightarrow> endpoint \<Rightarrow> endpoint" where
  "on_ringing i m ep =
    (let ep = upd i (\<lambda>s. s\<lparr>s_queue_count := 0\<rparr>) ep;
         ep = stop_timer i T_Queue False ep
     in case m_ring_timeout m of
          Some rt \<Rightarrow> start_timer i T_Ring (clamp rt T_RING_BOUNDS) ep
        | None \<Rightarrow> if running ep i T_Ring = None then start_timer i T_Ring (ep_t_ring ep) ep else ep)"

definition on_queued :: "string \<Rightarrow> session \<Rightarrow> msg \<Rightarrow> endpoint \<Rightarrow> endpoint option" where
  "on_queued i s m ep =
    (let n = Suc (s_queue_count s);
         ep = upd i (\<lambda>s. s\<lparr>s_queue_count := n\<rparr>) ep
     in if n > MAX_CONSECUTIVE_REQUEUES then
          (let ep = stop_all i ep;
               ep = send ((msg0 ''cancel'')\<lparr>o_to := s_invite_to s, o_session := Some i,
                           o_reason := Some ''session.timeout''\<rparr>) ep;
               ep = upd i (\<lambda>s. s\<lparr>s_cancelled := True\<rparr>) ep
           in Some (end_session i (Some ''session.timeout'') False ep))
        else do {
          let ep = stop_timer i T_Ring False ep;
          qt \<leftarrow> m_queue_timeout m;
          Some (start_timer i T_Queue (min qt T_QUEUE_CAP) ep)
        })"

definition on_other_status :: "string \<Rightarrow> endpoint \<Rightarrow> endpoint" where
  "on_other_status i ep =
    (if running ep i T_Ring = None \<and> running ep i T_Queue = None
     then start_timer i T_Ring (ep_t_ring ep) ep else ep)"

definition recv_progress :: "string \<Rightarrow> session \<Rightarrow> msg \<Rightarrow> endpoint \<Rightarrow> endpoint option" where
  "recv_progress i s m ep =
    (if s_role s \<noteq> Initiator \<or> s_state s \<notin> {INVITING, PROCEEDING} then Some (err m ''session.invalid-state'' ep)
     else do {
       raw \<leftarrow> m_status m;
       let status = effective_progress_status raw;
       let ep = stop_timer i T_Establish False ep;
       let ep = upd i (\<lambda>s. s\<lparr>s_state := PROCEEDING\<rparr>) ep;
       let ep = emit (Ui (UiProgress status)) ep;
       if status = ''ringing'' then Some (on_ringing i m ep)
       else if status = ''queued'' then on_queued i s m ep
       else Some (on_other_status i ep)
     })"

text \<open>Whether \<open>s\<close> has an outstanding outbound update that \<open>m\<close> replies to.\<close>

definition replies_to_ours :: "session \<Rightarrow> string \<Rightarrow> bool" where
  "replies_to_ours s rep \<longleftrightarrow> s_outstanding s = Some (rep, Outbound)"

definition recv_answer :: "string \<Rightarrow> session \<Rightarrow> msg \<Rightarrow> endpoint \<Rightarrow> endpoint option" where
  "recv_answer i s m ep =
    (if s_role s \<noteq> Initiator \<and> \<not> (s_state s = ACTIVE \<and> m_in_reply_to m \<noteq> None)
     then Some (err m ''session.invalid-state'' ep)
     else if s_state s \<in> {INVITING, PROCEEDING} then
       if m_in_reply_to m \<noteq> None then Some (err m ''session.invalid-state'' ep)
       else do {
         let ep = stop_all i ep;
         let ep = upd i (\<lambda>s. s\<lparr>s_state := ACTIVE, s_was_active := True, s_answered_device := Some (m_from m),
                             s_peer := m_from m\<rparr>) ep;
         let ep = emit (Media MediaStart) ep;
         ab \<leftarrow> m_answered_by m;
         let ep = emit (Ui (UiAnswered (effective_answered_by ab))) ep;
         Some (if s_invite_to s \<noteq> Some (m_from m)
               then send ((msg0 ''cancel'')\<lparr>o_to := s_invite_to s, o_session := Some i,
                           o_reason := Some ''session.answered-elsewhere''\<rparr>) ep
               else ep)
       }
     else if s_state s = ACTIVE then
       (case m_in_reply_to m of
          Some rep \<Rightarrow>
            Some (if replies_to_ours s rep
                  then emit (Media MediaApplyUpdate) (upd i (\<lambda>s. s\<lparr>s_outstanding := None\<rparr>) ep)
                  else emit (Drop ''stale-update-reply'') ep)
        | None \<Rightarrow>
            Some (if s_answered_device s \<noteq> Some (m_from m)
                  then send ((msg0 ''bye'')\<lparr>o_to := Some (m_from m), o_session := Some i,
                              o_reason := Some ''session.already-answered''\<rparr>) ep
                  else err m ''session.invalid-state'' ep))
     else Some (err m ''session.invalid-state'' ep))"

definition recv_reject :: "string \<Rightarrow> session \<Rightarrow> msg \<Rightarrow> endpoint \<Rightarrow> endpoint option" where
  "recv_reject i s m ep = do {
     token \<leftarrow> m_reason m;
     let reason = rr_effective (resolve_reason token ''reject'');
     Some (if s_role s = Initiator \<and> s_state s \<in> {INVITING, PROCEEDING} \<and> m_in_reply_to m = None
           then end_session i (Some reason) False ep
           else case m_in_reply_to m of
             Some rep \<Rightarrow>
               if s_state s = ACTIVE then
                 if replies_to_ours s rep
                 then emit (Ui (UiUpdateRejected reason)) (upd i (\<lambda>s. s\<lparr>s_outstanding := None\<rparr>) ep)
                 else emit (Drop ''stale-update-reply'') ep
               else err m ''session.invalid-state'' ep
           | None \<Rightarrow> err m ''session.invalid-state'' ep)
   }"

definition recv_cancel :: "string \<Rightarrow> session \<Rightarrow> msg \<Rightarrow> endpoint \<Rightarrow> endpoint option" where
  "recv_cancel i s m ep = do {
     token \<leftarrow> m_reason m;
     let reason = rr_effective (resolve_reason token ''cancel'');
     Some (if s_role s \<noteq> Responder then err m ''session.invalid-state'' ep
           else if s_state s = OFFERED then end_session i (Some reason) False ep
           else if s_state s = ALERTING then
             (let ep = stop_all i ep;
                  ep = (if reason \<noteq> ''session.answered-elsewhere'' then emit (Ui UiMissedCall) ep else ep)
              in end_session i (Some reason) False ep)
           else if s_state s = ACTIVE then
             if reason \<noteq> ''session.answered-elsewhere'' \<and> \<not> s_post_answer_seen s
             then end_session i (Some reason) True ep
             else err m ''session.invalid-state'' ep
           else err m ''session.invalid-state'' ep)
   }"

definition recv_update :: "string \<Rightarrow> session \<Rightarrow> msg \<Rightarrow> endpoint \<Rightarrow> endpoint" where
  "recv_update i s m ep =
    (let take = (\<lambda>ep.
           let ep = upd i (\<lambda>s. s\<lparr>s_outstanding := Some (m_id m, Inbound)\<rparr>) ep;
               ep = emit (Ui UiUpdateOffered) ep
           in case m_answered_by m of
                Some ab \<Rightarrow> emit (Ui (UiAnswered (effective_answered_by ab))) ep
              | None \<Rightarrow> ep)
     in if s_state s \<noteq> ACTIVE then err m ''session.invalid-state'' ep
        else case s_outstanding s of
          Some (uid, Outbound) \<Rightarrow>
            if uid < m_id m
            then send ((msg0 ''reject'')\<lparr>o_to := Some (m_from m), o_session := Some i,
                        o_reason := Some ''session.glare'', o_in_reply_to := Some (m_id m)\<rparr>) ep
            else take (emit (Ui (UiUpdateRejected ''session.glare'')) ep)
        | Some (uid, Inbound) \<Rightarrow>
            err m ''session.update-pending'' (upd i (\<lambda>s. s\<lparr>s_outstanding := None\<rparr>) ep)
        | None \<Rightarrow> take ep)"

definition recv_info :: "string \<Rightarrow> session \<Rightarrow> msg \<Rightarrow> endpoint \<Rightarrow> endpoint" where
  "recv_info i s m ep =
    (if s_state s \<noteq> ACTIVE then err m ''session.invalid-state'' ep
     else case m_about m of
       Some a \<Rightarrow> if a \<in> KNOWN_INFO_ABOUT then emit (Info a) ep else emit (Drop ''unknown-about'') ep
     | None \<Rightarrow> emit (Drop ''unknown-about'') ep)"

definition recv_bye :: "string \<Rightarrow> session \<Rightarrow> msg \<Rightarrow> endpoint \<Rightarrow> endpoint option" where
  "recv_bye i s m ep =
    (if s_state s \<noteq> ACTIVE then Some (err m ''session.invalid-state'' ep)
     else do {
       token \<leftarrow> m_reason m;
       Some (end_session i (Some (rr_effective (resolve_reason token ''bye''))) True ep)
     })"

definition session_handler :: "string \<Rightarrow> session \<Rightarrow> msg \<Rightarrow> endpoint \<Rightarrow> endpoint option" where
  "session_handler i s m ep = (case m_type m of
       MProgress \<Rightarrow> recv_progress i s m ep
     | MAnswer \<Rightarrow> recv_answer i s m ep
     | MReject \<Rightarrow> recv_reject i s m ep
     | MCancel \<Rightarrow> recv_cancel i s m ep
     | MUpdate \<Rightarrow> Some (recv_update i s m ep)
     | MInfo \<Rightarrow> Some (recv_info i s m ep)
     | MBye \<Rightarrow> recv_bye i s m ep
     | MHello \<Rightarrow> Some (err m ''session.invalid-state'' ep)
     | _ \<Rightarrow> None)"

text \<open>A message for a session that has ended.\<close>

definition recv_ended :: "session \<Rightarrow> msg \<Rightarrow> endpoint \<Rightarrow> endpoint" where
  "recv_ended s m ep =
    (if m_type m = MAnswer \<and> s_role s = Initiator \<and> m_in_reply_to m = None then
       send ((msg0 ''bye'')\<lparr>o_to := Some (m_from m), o_session := Some (s_id s),
              o_reason := Some (if s_cancelled s then ''session.cancelled''
                                else if s_was_active s then ''session.already-answered''
                                else ''session.failed'')\<rparr>) ep
     else emit (Drop ''ended-session'') ep)"

definition find_session :: "endpoint \<Rightarrow> string option \<Rightarrow> session option" where
  "find_session ep sid = Option.bind sid (dget (ep_sessions ep))"

definition recv_session :: "msg \<Rightarrow> endpoint \<Rightarrow> endpoint option" where
  "recv_session m ep =
    (case find_session ep (m_session m) of
       None \<Rightarrow> Some (err m ''session.unknown-session'' ep)
     | Some s \<Rightarrow>
         if s_state s = ENDED then Some (recv_ended s m ep)
         else if s_role s = Responder \<and> s_state s = ACTIVE \<and> m_type m \<noteq> MCancel
         then session_handler (s_id s) (s\<lparr>s_post_answer_seen := True\<rparr>) m
                (upd (s_id s) (\<lambda>s. s\<lparr>s_post_answer_seen := True\<rparr>) ep)
         else session_handler (s_id s) s m ep)"

definition recv_error :: "msg \<Rightarrow> endpoint \<Rightarrow> endpoint" where
  "recv_error m ep =
    (case find_session ep (m_session m) of
       Some s \<Rightarrow>
         if m_reason m = Some ''transport.no-response'' \<and> s_role s = Initiator \<and> s_state s \<in> {INVITING, PROCEEDING}
         then end_session (s_id s) (Some ''transport.no-response'') False ep
         else emit (Ui (UiError (m_reason m))) ep
     | None \<Rightarrow> emit (Ui (UiError (m_reason m))) ep)"

definition pending_introduction :: "endpoint \<Rightarrow> msg \<Rightarrow> string option" where
  "pending_introduction ep m = Option.bind (m_session m) (\<lambda>i. map_option (\<lambda>_. i) (dget (ep_pending_sent ep) i))"

definition recv_msg :: "msg \<Rightarrow> endpoint \<Rightarrow> endpoint option" where
  "recv_msg m ep = (case m_type m of
       MInvite \<Rightarrow> Some (recv_invite m ep)
     | MError \<Rightarrow> Some (recv_error m ep)
     | MIntroduction \<Rightarrow> Some (recv_introduction m ep)
     | MGrant \<Rightarrow> recv_grant m ep
     | MPresence \<Rightarrow> recv_own_record m ep
     | MReject \<Rightarrow>
         (case pending_introduction ep m of
            Some i \<Rightarrow> do {
              token \<leftarrow> m_reason m;
              Some (emit (Ui (UiIntroductionRejected (rr_effective (resolve_reason token ''reject''))))
                (ep\<lparr>ep_pending_sent := ddel i (ep_pending_sent ep)\<rparr>))
            }
          | None \<Rightarrow> recv_session m ep)
     | _ \<Rightarrow> recv_session m ep)"

section \<open>The driver\<close>

fun ep_step :: "endpoint \<Rightarrow> event \<Rightarrow> endpoint option" where
  "ep_step ep (Advance n) = advance n (ep\<lparr>ep_out := []\<rparr>)"
| "ep_step ep (Recv m) = recv_msg m (ep\<lparr>ep_out := []\<rparr>)"
| "ep_step ep (Local e) = local_step e (ep\<lparr>ep_out := []\<rparr>)"

end
