(* ===== verification/Session_Timers.thy ===== *)
theory Session_Timers
  imports Session_Model
begin

text \<open>
  The timers of an endpoint as an abstract map: \<open>armed ep i n\<close> is the deadline of timer \<open>n\<close> of session \<open>i\<close>.
  As long as a session has each timer at most once (\<open>store_ok\<close>, which also says that the session dict has no key twice, is kept by every operation) starting,
  stopping and stopping all of them are updates of that map; the locale \<open>timer_service\<close> is that contract, and
  the rest of the engine uses the list of timers only through it.
\<close>

section \<open>What the helpers leave alone\<close>

lemma emit_simps [simp]:
  "ep_sessions (emit e ep) = ep_sessions ep" "ep_timers (emit e ep) = ep_timers ep"
  "ep_now (emit e ep) = ep_now ep" "ep_seq (emit e ep) = ep_seq ep"
  "ep_t_establish (emit e ep) = ep_t_establish ep" "ep_t_ring (emit e ep) = ep_t_ring ep"
  "ep_t_ring_local (emit e ep) = ep_t_ring_local ep" "ep_out (emit e ep) = ep_out ep @ [e]"
  "ep_identities (emit e ep) = ep_identities ep" "ep_grants_issued (emit e ep) = ep_grants_issued ep"
  "ep_keys_on (emit e ep) = ep_keys_on ep" "ep_sealed (emit e ep) = ep_sealed ep"
  "ep_t_rotate (emit e ep) = ep_t_rotate ep" "ep_grant_ids (emit e ep) = ep_grant_ids ep"
  "ep_epochs (emit e ep) = ep_epochs ep" "ep_last_rotated (emit e ep) = ep_last_rotated ep"
  "ep_due (emit e ep) = ep_due ep" "ep_grants_held (emit e ep) = ep_grants_held ep"
  "ep_requests (emit e ep) = ep_requests ep" "ep_pending_sent (emit e ep) = ep_pending_sent ep"
  by (simp_all add: emit_def)

lemmas sends = send_def send_error_def err_def

definition stopped :: "string \<Rightarrow> tname \<Rightarrow> timer list \<Rightarrow> timer list" where
  "stopped i n ts = (case find (\<lambda>t. tm_session t = i \<and> tm_name t = n) ts of
     None \<Rightarrow> ts | Some t \<Rightarrow> remove1 t ts)"

lemma stop_timer_eq: "\<exists>os. stop_timer i n b ep = ep\<lparr>ep_timers := stopped i n (ep_timers ep), ep_out := ep_out ep @ os\<rparr>"
proof (cases "running ep i n")
  case None
  then have "stop_timer i n b ep = ep\<lparr>ep_timers := stopped i n (ep_timers ep), ep_out := ep_out ep @ []\<rparr>"
    by (simp add: stop_timer_def stopped_def running_def)
  then show ?thesis by blast
next
  case (Some t)
  then have "stop_timer i n b ep =
      ep\<lparr>ep_timers := stopped i n (ep_timers ep), ep_out := ep_out ep @ (if b then [] else [TimerStop n])\<rparr>"
    by (simp add: stop_timer_def stopped_def running_def emit_def)
  then show ?thesis by blast
qed

lemma stop_timer_simps [simp]:
  "ep_sessions (stop_timer i n b ep) = ep_sessions ep" "ep_timers (stop_timer i n b ep) = stopped i n (ep_timers ep)"
  "ep_now (stop_timer i n b ep) = ep_now ep" "ep_seq (stop_timer i n b ep) = ep_seq ep"
  "ep_t_establish (stop_timer i n b ep) = ep_t_establish ep" "ep_t_ring (stop_timer i n b ep) = ep_t_ring ep"
  "ep_t_ring_local (stop_timer i n b ep) = ep_t_ring_local ep"
  "ep_identities (stop_timer i n b ep) = ep_identities ep"
  "ep_grants_issued (stop_timer i n b ep) = ep_grants_issued ep"
  "ep_keys_on (stop_timer i n b ep) = ep_keys_on ep" "ep_sealed (stop_timer i n b ep) = ep_sealed ep"
  "ep_t_rotate (stop_timer i n b ep) = ep_t_rotate ep" "ep_grant_ids (stop_timer i n b ep) = ep_grant_ids ep"
  "ep_epochs (stop_timer i n b ep) = ep_epochs ep" "ep_last_rotated (stop_timer i n b ep) = ep_last_rotated ep"
  "ep_due (stop_timer i n b ep) = ep_due ep"
  using stop_timer_eq [of i n b ep] by auto

lemma stop_timer_out: "\<exists>os. ep_out (stop_timer i n b ep) = ep_out ep @ os \<and> set os \<subseteq> {TimerStop n}"
  by (auto simp: stop_timer_def Let_def split: option.splits)

text \<open>Two endpoints that agree on everything the timers do not touch.\<close>

definition same_rest :: "endpoint \<Rightarrow> endpoint \<Rightarrow> bool" where
  "same_rest ep ep' \<longleftrightarrow>
     ep'\<lparr>ep_timers := [], ep_seq := 0, ep_out := []\<rparr> = ep\<lparr>ep_timers := [], ep_seq := 0, ep_out := []\<rparr>"

lemma same_rest_trans: "same_rest a b \<Longrightarrow> same_rest b c \<Longrightarrow> same_rest a c"
  by (simp add: same_rest_def)

lemma same_rest_emit: "same_rest ep (emit e ep)"
  by (simp add: same_rest_def emit_def)

lemma same_rest_stop: "same_rest ep (stop_timer i n b ep)"
  using stop_timer_eq [of i n b ep] by (auto simp: same_rest_def)

lemma same_rest_stop_all: "same_rest ep (stop_all i ep)"
  by (simp add: stop_all_def) (meson same_rest_stop same_rest_trans)

lemma same_rest_start: "same_rest ep (start_timer i n d ep)"
proof -
  have "same_rest (stop_timer i n True ep) (start_timer i n d ep)"
    by (simp add: same_rest_def start_timer_def Let_def emit_def)
  then show ?thesis
    using same_rest_stop same_rest_trans by blast
qed

lemma same_rest_simps:
  assumes "same_rest ep ep'"
  shows "ep_sessions ep' = ep_sessions ep" "ep_now ep' = ep_now ep"
    "ep_t_establish ep' = ep_t_establish ep" "ep_t_ring ep' = ep_t_ring ep"
    "ep_t_ring_local ep' = ep_t_ring_local ep" "ep_identities ep' = ep_identities ep"
    "ep_grants_issued ep' = ep_grants_issued ep" "ep_keys_on ep' = ep_keys_on ep"
    "ep_sealed ep' = ep_sealed ep" "ep_t_rotate ep' = ep_t_rotate ep" "ep_grant_ids ep' = ep_grant_ids ep"
    "ep_epochs ep' = ep_epochs ep" "ep_last_rotated ep' = ep_last_rotated ep" "ep_due ep' = ep_due ep"
    "ep_first_contact ep' = ep_first_contact ep" "ep_allow ep' = ep_allow ep"
    "ep_grants_held ep' = ep_grants_held ep" "ep_requests ep' = ep_requests ep"
    "ep_pending_sent ep' = ep_pending_sent ep" "ep_tokens ep' = ep_tokens ep"
    "ep_seen_introductions ep' = ep_seen_introductions ep" "ep_held_keys ep' = ep_held_keys ep"
    "ep_device ep' = ep_device ep" "ep_identity ep' = ep_identity ep"
  using assms by (cases ep; cases ep'; simp add: same_rest_def)+

lemmas start_timer_simps [simp] = same_rest_simps [OF same_rest_start]
lemmas stop_all_simps [simp] = same_rest_simps [OF same_rest_stop_all]

section \<open>The timers as a map\<close>

definition timer_key :: "timer \<Rightarrow> string \<times> tname" where
  "timer_key t = (tm_session t, tm_name t)"

definition store_ok :: "endpoint \<Rightarrow> bool" where
  "store_ok ep \<longleftrightarrow> distinct (map timer_key (ep_timers ep)) \<and> distinct (dkeys (ep_sessions ep))"

definition armed :: "endpoint \<Rightarrow> string \<Rightarrow> tname \<Rightarrow> int option" where
  "armed ep i n = map_option tm_deadline (running ep i n)"

lemma find_key: "find (\<lambda>t. tm_session t = i \<and> tm_name t = n) ts = find (\<lambda>t. timer_key t = (i, n)) ts"
  by (simp add: timer_key_def)

lemma running_key: "running ep i n = find (\<lambda>t. timer_key t = (i, n)) (ep_timers ep)"
  by (simp add: running_def find_key)

lemma timer_key_new [simp]: "timer_key \<lparr>tm_name = n, tm_session = i, tm_deadline = d, tm_seq = q\<rparr> = (i, n)"
  by (simp add: timer_key_def)

lemma find_key_None: "find (\<lambda>t. timer_key t = k) ts = None \<longleftrightarrow> k \<notin> timer_key ` set ts"
  by (auto simp: find_None_iff)

lemma remove1_key:
  "distinct (map timer_key ts) \<Longrightarrow> find (\<lambda>t. timer_key t = k) ts = Some t
    \<Longrightarrow> remove1 t ts = filter (\<lambda>t. timer_key t \<noteq> k) ts"
proof (induction ts)
  case (Cons a ts)
  show ?case
  proof (cases "timer_key a = k")
    case True
    with Cons.prems have "\<forall>x \<in> set ts. timer_key x \<noteq> k"
      by (metis distinct.simps(2) image_eqI list.simps(9) list.set_map)
    then have "filter (\<lambda>t. timer_key t \<noteq> k) ts = ts"
      by (simp add: filter_id_conv)
    with True Cons.prems show ?thesis by simp
  next
    case False
    with Cons.prems have f: "find (\<lambda>t. timer_key t = k) ts = Some t" by simp
    then have "timer_key t = k" by (auto simp: find_Some_iff)
    with False have "t \<noteq> a" by auto
    with False Cons f show ?thesis by auto
  qed
qed simp

lemma stopped_filter:
  assumes "distinct (map timer_key ts)"
  shows "stopped i n ts = filter (\<lambda>t. timer_key t \<noteq> (i, n)) ts"
proof (cases "find (\<lambda>t. timer_key t = (i, n)) ts")
  case None
  then have "(i, n) \<notin> timer_key ` set ts" by (simp add: find_key_None)
  then have "\<forall>t \<in> set ts. timer_key t \<noteq> (i, n)"
    by (metis image_eqI)
  then have "filter (\<lambda>t. timer_key t \<noteq> (i, n)) ts = ts"
    by (simp add: filter_id_conv)
  with None show ?thesis
    by (simp add: stopped_def find_key)
next
  case (Some t)
  with assms show ?thesis
    by (simp add: stopped_def find_key remove1_key)
qed

lemma distinct_filter_keys: "distinct (map timer_key ts) \<Longrightarrow> distinct (map timer_key (filter P ts))"
  by (induction ts) auto

lemma find_filter_key:
  "find (\<lambda>t. timer_key t = k) (filter (\<lambda>t. timer_key t \<noteq> k') ts)
   = (if k = k' then None else find (\<lambda>t. timer_key t = k) ts)"
  by (induction ts) auto

lemma find_append_key:
  "find P (xs @ [y]) = (case find P xs of Some z \<Rightarrow> Some z | None \<Rightarrow> if P y then Some y else None)"
  by (induction xs) auto

lemma armed_stop: "store_ok ep \<Longrightarrow>
    armed (stop_timer i n b ep) j m = (if j = i \<and> m = n then None else armed ep j m)"
  by (auto simp: armed_def running_key store_ok_def stopped_filter find_filter_key)

lemma distinct_stop: "store_ok ep \<Longrightarrow> store_ok (stop_timer i n b ep)"
  by (simp add: store_ok_def stopped_filter distinct_filter_keys)

lemma start_timers: "ep_timers (start_timer i n d ep) = stopped i n (ep_timers ep)
    @ [\<lparr>tm_name = n, tm_session = i, tm_deadline = ep_now ep + d, tm_seq = Suc (ep_seq ep)\<rparr>]"
  by (simp add: start_timer_def Let_def)

lemma armed_start: "store_ok ep \<Longrightarrow>
    armed (start_timer i n d ep) j m = (if j = i \<and> m = n then Some (ep_now ep + d) else armed ep j m)"
  by (auto simp: armed_def running_key store_ok_def start_timers stopped_filter find_append_key
      find_filter_key split: option.split)

lemma distinct_start: "store_ok ep \<Longrightarrow> store_ok (start_timer i n d ep)"
  by (auto simp: store_ok_def start_timers stopped_filter distinct_filter_keys)

section \<open>The contract of the timers\<close>

locale timer_service =
  fixes ok :: "'s \<Rightarrow> bool"
    and lookup :: "'s \<Rightarrow> 'i \<Rightarrow> tname \<Rightarrow> int option"
    and clock :: "'s \<Rightarrow> int"
    and start :: "'i \<Rightarrow> tname \<Rightarrow> int \<Rightarrow> 's \<Rightarrow> 's"
    and stop :: "'i \<Rightarrow> tname \<Rightarrow> 's \<Rightarrow> 's"
  assumes ok_start: "ok s \<Longrightarrow> ok (start i n d s)"
    and ok_stop: "ok s \<Longrightarrow> ok (stop i n s)"
    and lookup_start: "ok s \<Longrightarrow> lookup (start i n d s) j m = (if j = i \<and> m = n then Some (clock s + d) else lookup s j m)"
    and lookup_stop: "ok s \<Longrightarrow> lookup (stop i n s) j m = (if j = i \<and> m = n then None else lookup s j m)"
    and clock_stop: "clock (stop i n s) = clock s"
begin

lemma ok_stops: "ok s \<Longrightarrow> ok (foldl (\<lambda>s n. stop i n s) s ns)"
  by (induction ns arbitrary: s) (simp_all add: ok_stop)

lemma lookup_stops: "ok s \<Longrightarrow>
    lookup (foldl (\<lambda>s n. stop i n s) s ns) j m = (if j = i \<and> m \<in> set ns then None else lookup s j m)"
  by (induction ns arbitrary: s) (auto simp: ok_stop lookup_stop)

lemma restart: "ok s \<Longrightarrow> lookup (start i n d (start i n d' s)) i n = Some (clock (start i n d' s) + d)"
  by (simp add: ok_start lookup_start)

end

interpretation timers: timer_service store_ok armed ep_now start_timer "\<lambda>i n. stop_timer i n False"
  by unfold_locales (simp_all add: distinct_start distinct_stop armed_start armed_stop)

lemma tname_cases: "n \<in> {T_Establish, T_Ring, T_Queue, T_Ring_Local}"
  by (cases n) auto

lemma distinct_stop_all [simp]: "store_ok ep \<Longrightarrow> store_ok (stop_all i ep)"
  unfolding stop_all_def by (rule timers.ok_stops)

lemma armed_stop_all [simp]: "store_ok ep \<Longrightarrow>
    armed (stop_all i ep) j m = (if j = i then None else armed ep j m)"
  unfolding stop_all_def by (subst timers.lookup_stops) (use tname_cases [of m] in auto)

lemmas timer_simps [simp] = armed_start armed_stop distinct_start distinct_stop

lemma armed_cong: "ep_timers ep' = ep_timers ep \<Longrightarrow> armed ep' = armed ep"
  by (simp add: armed_def running_def fun_eq_iff)

lemma distinct_cong: "ep_timers ep' = ep_timers ep \<Longrightarrow> ep_sessions ep' = ep_sessions ep \<Longrightarrow> store_ok ep' = store_ok ep"
  by (simp add: store_ok_def)

lemma armed_emit [simp]: "armed (emit e ep) = armed ep" "store_ok (emit e ep) = store_ok ep"
  by (rule armed_cong, simp) (rule distinct_cong, simp_all)

lemma armed_in: "store_ok ep \<Longrightarrow> t \<in> set (ep_timers ep)
    \<Longrightarrow> armed ep (tm_session t) (tm_name t) = Some (tm_deadline t)"
proof -
  have "distinct (map timer_key ts) \<Longrightarrow> t \<in> set ts \<Longrightarrow> find (\<lambda>u. timer_key u = timer_key t) ts = Some t" for ts
    by (induction ts) auto
  then show "store_ok ep \<Longrightarrow> t \<in> set (ep_timers ep)
    \<Longrightarrow> armed ep (tm_session t) (tm_name t) = Some (tm_deadline t)"
    by (simp add: armed_def running_key store_ok_def flip: timer_key_def)
qed

lemma armed_Some_in: "armed ep i n = Some d \<Longrightarrow>
    \<exists>t \<in> set (ep_timers ep). tm_session t = i \<and> tm_name t = n \<and> tm_deadline t = d"
  by (auto simp: armed_def running_def find_Some_iff)

end
