(* ===== verification/Session_Safety.thy ===== *)
theory Session_Safety
  imports Session_Timers
begin

text \<open>
  The invariant of the session engine, and that every handler keeps it. It is pointwise in the session
  ids: \<open>ok_at\<close> relates the session with id \<open>i\<close> to the timers of \<open>i\<close>. In particular a pending attempt
  and a ringing session always have a timer that will end them.
\<close>

section \<open>The invariant\<close>

abbreviation sess :: "endpoint \<Rightarrow> string \<Rightarrow> session option" where
  "sess ep i \<equiv> dget (ep_sessions ep) i"

definition attempt_timers :: "tname set" where
  "attempt_timers = {T_Establish, T_Ring, T_Queue}"

definition session_ok :: "string \<Rightarrow> session \<Rightarrow> (tname \<Rightarrow> int option) \<Rightarrow> bool" where
  "session_ok i s a \<longleftrightarrow> s_id s = i
     \<and> (s_state s \<in> {INVITING, PROCEEDING} \<longrightarrow> s_role s = Initiator \<and> (\<exists>n \<in> attempt_timers. a n \<noteq> None))
     \<and> (s_state s \<in> {OFFERED, ALERTING} \<longrightarrow> s_role s = Responder)
     \<and> (s_state s = ALERTING \<longrightarrow> a T_Ring_Local \<noteq> None)
     \<and> (s_role s = Initiator \<longrightarrow> s_invite_to s \<noteq> None)
     \<and> (s_state s \<noteq> ACTIVE \<longrightarrow> s_outstanding s = None)
     \<and> (s_state s = OFFERED \<longrightarrow> s_invite_expires_at s \<noteq> None)"

definition ok_at :: "int \<Rightarrow> string \<Rightarrow> session option \<Rightarrow> (tname \<Rightarrow> int option) \<Rightarrow> bool" where
  "ok_at now i so a \<longleftrightarrow> (\<forall>n d. a n = Some d \<longrightarrow> d \<le> now + T_QUEUE_CAP)
     \<and> (case so of None \<Rightarrow> \<forall>n. a n = None | Some s \<Rightarrow> session_ok i s a)"

definition cfg_ok :: "endpoint \<Rightarrow> bool" where
  "cfg_ok ep \<longleftrightarrow> 5 \<le> ep_t_establish ep \<and> ep_t_establish ep \<le> 60 \<and> 30 \<le> ep_t_ring ep \<and> ep_t_ring ep \<le> 300
     \<and> 30 \<le> ep_t_ring_local ep \<and> ep_t_ring_local ep \<le> 300"

definition ep_inv :: "endpoint \<Rightarrow> bool" where
  "ep_inv ep \<longleftrightarrow> store_ok ep \<and> cfg_ok ep \<and> (\<forall>i. ok_at (ep_now ep) i (sess ep i) (armed ep i))"

lemma armed_updates [simp]:
  "armed (ep\<lparr>ep_sessions := x1\<rparr>) = armed ep" "armed (ep\<lparr>ep_now := x2\<rparr>) = armed ep"
  "armed (ep\<lparr>ep_out := x3\<rparr>) = armed ep" "armed (ep\<lparr>ep_grants_issued := x4\<rparr>) = armed ep"
  "armed (ep\<lparr>ep_grants_held := x5\<rparr>) = armed ep" "armed (ep\<lparr>ep_requests := x6\<rparr>) = armed ep"
  "armed (ep\<lparr>ep_pending_sent := x7\<rparr>) = armed ep" "armed (ep\<lparr>ep_tokens := x8\<rparr>) = armed ep"
  "armed (ep\<lparr>ep_seen_introductions := x9\<rparr>) = armed ep" "armed (ep\<lparr>ep_grant_ids := x10\<rparr>) = armed ep"
  "armed (ep\<lparr>ep_epochs := x11\<rparr>) = armed ep" "armed (ep\<lparr>ep_last_rotated := x12\<rparr>) = armed ep"
  "armed (ep\<lparr>ep_due := x13\<rparr>) = armed ep" "armed (ep\<lparr>ep_held_keys := x14\<rparr>) = armed ep"
  by (rule armed_cong, simp)+

lemma distinct_updates [simp]:
  "store_ok (ep\<lparr>ep_now := x2\<rparr>) = store_ok ep"
  "store_ok (ep\<lparr>ep_out := x3\<rparr>) = store_ok ep"
  "store_ok (ep\<lparr>ep_grants_issued := x4\<rparr>) = store_ok ep"
  "store_ok (ep\<lparr>ep_grants_held := x5\<rparr>) = store_ok ep"
  "store_ok (ep\<lparr>ep_requests := x6\<rparr>) = store_ok ep"
  "store_ok (ep\<lparr>ep_pending_sent := x7\<rparr>) = store_ok ep"
  "store_ok (ep\<lparr>ep_tokens := x8\<rparr>) = store_ok ep"
  "store_ok (ep\<lparr>ep_seen_introductions := x9\<rparr>) = store_ok ep"
  "store_ok (ep\<lparr>ep_grant_ids := x10\<rparr>) = store_ok ep"
  "store_ok (ep\<lparr>ep_epochs := x11\<rparr>) = store_ok ep"
  "store_ok (ep\<lparr>ep_last_rotated := x12\<rparr>) = store_ok ep"
  "store_ok (ep\<lparr>ep_due := x13\<rparr>) = store_ok ep"
  "store_ok (ep\<lparr>ep_held_keys := x14\<rparr>) = store_ok ep"
  by (rule distinct_cong, simp_all)+

text \<open>An operation that leaves sessions, timers, clock and configuration alone keeps the invariant.\<close>

definition same_core :: "endpoint \<Rightarrow> endpoint \<Rightarrow> bool" where
  "same_core ep ep' \<longleftrightarrow> ep_sessions ep' = ep_sessions ep \<and> ep_timers ep' = ep_timers ep \<and> ep_now ep' = ep_now ep
     \<and> ep_t_establish ep' = ep_t_establish ep \<and> ep_t_ring ep' = ep_t_ring ep \<and> ep_t_ring_local ep' = ep_t_ring_local ep
     \<and> ep_keys_on ep' = ep_keys_on ep"

lemma same_core_refl [simp]: "same_core ep ep"
  by (simp add: same_core_def)

lemma same_core_trans: "same_core a b \<Longrightarrow> same_core b c \<Longrightarrow> same_core a c"
  by (simp add: same_core_def)

lemma same_core_inv: "same_core ep ep' \<Longrightarrow> ep_inv ep' = ep_inv ep"
  by (simp add: same_core_def ep_inv_def cfg_ok_def armed_cong [of ep' ep] distinct_cong [of ep' ep])

lemma same_core_emit [simp]: "same_core a (emit e b) = same_core a b"
  by (simp add: same_core_def)

lemma same_core_updates [simp]:
  "same_core a (ep\<lparr>ep_grants_issued := x4\<rparr>) = same_core a ep"
  "same_core a (ep\<lparr>ep_grants_held := x5\<rparr>) = same_core a ep" "same_core a (ep\<lparr>ep_requests := x6\<rparr>) = same_core a ep"
  "same_core a (ep\<lparr>ep_pending_sent := x7\<rparr>) = same_core a ep" "same_core a (ep\<lparr>ep_tokens := x8\<rparr>) = same_core a ep"
  "same_core a (ep\<lparr>ep_seen_introductions := x9\<rparr>) = same_core a ep"
  "same_core a (ep\<lparr>ep_grant_ids := x10\<rparr>) = same_core a ep"
  "same_core a (ep\<lparr>ep_epochs := x11\<rparr>) = same_core a ep" "same_core a (ep\<lparr>ep_last_rotated := x12\<rparr>) = same_core a ep"
  "same_core a (ep\<lparr>ep_due := x13\<rparr>) = same_core a ep" "same_core a (ep\<lparr>ep_held_keys := x14\<rparr>) = same_core a ep"
  "same_core a (ep\<lparr>ep_out := x15\<rparr>) = same_core a ep"
  by (simp_all add: same_core_def)

section \<open>Grants, introductions and keys touch no session\<close>

lemma same_core_issue [simp]: "same_core a (issue_grant g w sc vu i au ch ep) = same_core a ep"
  by (simp add: issue_grant_def Let_def sends)

lemma same_core_due: "same_core ep (due_scope keep ep sc)"
  by (simp add: due_scope_def)

lemma same_core_foldl: "(\<And>s x. same_core s (f s x)) \<Longrightarrow> same_core ep (foldl f ep xs)"
proof (induction xs arbitrary: ep)
  case (Cons x xs)
  have "same_core ep (f ep x)" by (rule Cons.prems)
  moreover have "same_core (f ep x) (foldl f (f ep x) xs)" by (rule Cons.IH) (rule Cons.prems)
  ultimately show ?case by (auto intro: same_core_trans)
qed simp

lemma same_core_end_grant: "same_core ep (end_grant g keep ep)"
  by (simp add: end_grant_def same_core_foldl same_core_due)

lemma same_core_left:
  "same_core (emit e a) b = same_core a b" "same_core (a\<lparr>ep_grants_issued := x\<rparr>) b = same_core a b"
  "same_core (issue_grant gi w sc vu i au ch a) b = same_core a b"
  "same_core (end_grant g keep a) b = same_core a b"
  using same_core_end_grant [of a g keep] same_core_issue [of a gi w sc vu i au ch a]
  by (auto simp: same_core_def simp del: same_core_issue)

lemma same_core_mark: "same_core ep (mark_ended g ep)"
  by (simp add: mark_ended_def)

lemma same_core_regrant_one: "regrant_one scopes gid ep = Some ep' \<Longrightarrow> same_core ep ep'"
  by (auto simp: regrant_one_def bind_eq_Some_conv split: if_splits list.splits)

lemma same_core_regrant_all: "regrant_all scopes gids ep = Some ep' \<Longrightarrow> same_core ep ep'"
proof (induction gids arbitrary: ep)
  case (Cons g gids)
  then show ?case
    by (auto simp: bind_eq_Some_conv intro: same_core_trans dest!: same_core_regrant_one)
qed simp

lemma same_core_regrant: "regrant_carrying scopes ep = Some ep' \<Longrightarrow> same_core ep ep'"
  by (auto simp: regrant_carrying_def split: if_splits dest: same_core_regrant_all)

lemma same_core_rotate_scopes: "rotate_scopes scs ep = Some ep' \<Longrightarrow> same_core ep ep'"
proof (induction scs arbitrary: ep)
  case (Cons sc scs)
  then obtain e where e: "rotate_scopes scs (emit (KeysRotated sc (Suc e))
       (ep\<lparr>ep_due := ddel sc (ep_due ep), ep_epochs := dset sc (Suc e) (ep_epochs ep),
          ep_last_rotated := dset sc (ep_now ep) (ep_last_rotated ep)\<rparr>)) = Some ep'"
    by (auto simp: bind_eq_Some_conv)
  show ?case
    by (rule same_core_trans [OF _ Cons.IH [OF e]]) simp
qed simp

lemma same_core_rotate_due: "rotate_due ep = Some ep' \<Longrightarrow> same_core ep ep'"
  by (auto simp: rotate_due_def Let_def bind_eq_Some_conv
      intro: same_core_trans dest!: same_core_rotate_scopes same_core_regrant)

lemma same_core_contacts [simp]:
  "same_core ep (introduce i to p t ep)" "same_core ep (local_grant i g sc vu au ep)"
  "same_core ep (reject_introduction i r ep)" "same_core ep (recv_introduction m ep)"
  by (simp_all add: introduce_def local_grant_def reject_introduction_def recv_introduction_def
      sends Let_def split: option.split prod.split)

lemma same_core_local_regrant: "local_regrant g g' sc vu au ep = Some ep' \<Longrightarrow> same_core ep ep'"
  by (auto simp: local_regrant_def Let_def bind_eq_Some_conv same_core_left split: option.splits if_splits
      dest!: same_core_rotate_due)

lemma same_core_revoke: "revoke_grant g ep = Some ep' \<Longrightarrow> same_core ep ep'"
  by (auto simp: revoke_grant_def Let_def same_core_left split: option.splits dest!: same_core_rotate_due)

lemma same_core_grant: "recv_grant m ep = Some ep' \<Longrightarrow> same_core ep ep'"
  by (auto simp: recv_grant_def Let_def split: option.splits if_splits)

lemma recv_own_record_cases:
  assumes "recv_own_record m ep = Some ep'"
  obtains "ep' = ep" | (adopted) sc n where "ep_keys_on ep"
    "regrant_carrying {sc} (emit (KeysSeen sc n) (ep\<lparr>ep_epochs := dset sc n (ep_epochs ep)\<rparr>)) = Some ep'"
proof (cases "ep' = ep")
  case False
  then obtain kid where kid: "m_kid m = Some kid" using assms by (cases "m_kid m") (simp_all add: recv_own_record_def)
  obtain sc e where e: "rpartition CHR ''.'' kid = (sc, e)" by fastforce
  have on: "ep_keys_on ep" "is_numeral e" using assms False kid e by (auto simp: recv_own_record_def split: if_splits)
  then obtain n where n: "int_of_digits e = Some n" using assms False kid e
    by (cases "int_of_digits e") (simp_all add: recv_own_record_def split: if_split_asm)
  show thesis
    using assms False kid e on n adopted [of sc n] by (simp add: recv_own_record_def split: if_split_asm)
qed (rule that(1))

lemma same_core_own_record: "recv_own_record m ep = Some ep' \<Longrightarrow> same_core ep ep'"
  by (auto elim!: recv_own_record_cases intro: same_core_trans [rotated] dest!: same_core_regrant)


section \<open>Handlers that change one session\<close>

text \<open>
  \<open>upd\<close>, \<open>put_session\<close>, \<open>stop_all\<close>, \<open>end_session\<close> and the sends, seen through \<open>sess\<close> and \<open>armed\<close>.
\<close>

lemma upd_simps [simp]:
  "sess (upd i f ep) j = (if j = i then map_option f (sess ep i) else sess ep j)"
  "armed (upd i f ep) = armed ep" "store_ok (upd i f ep) = store_ok ep"
  "ep_now (upd i f ep) = ep_now ep" "cfg_ok (upd i f ep) = cfg_ok ep" "ep_t_ring (upd i f ep) = ep_t_ring ep"
  "ep_t_ring_local (upd i f ep) = ep_t_ring_local ep" "ep_t_establish (upd i f ep) = ep_t_establish ep"
  "ep_identities (upd i f ep) = ep_identities ep" "ep_timers (upd i f ep) = ep_timers ep"
  "ep_out (upd i f ep) = ep_out ep"
  by (simp_all add: upd_def cfg_ok_def store_ok_def)

lemma put_session_simps [simp]:
  "sess (put_session s ep) j = (if j = s_id s then Some s else sess ep j)"
  "armed (put_session s ep) = armed ep" "store_ok ep \<Longrightarrow> store_ok (put_session s ep)"
  "ep_now (put_session s ep) = ep_now ep" "cfg_ok (put_session s ep) = cfg_ok ep"
  "ep_t_ring (put_session s ep) = ep_t_ring ep" "ep_t_ring_local (put_session s ep) = ep_t_ring_local ep"
  "ep_t_establish (put_session s ep) = ep_t_establish ep" "ep_out (put_session s ep) = ep_out ep"
  "ep_identities (put_session s ep) = ep_identities ep" "ep_timers (put_session s ep) = ep_timers ep"
  by (simp_all add: put_session_def cfg_ok_def store_ok_def dict.distinct_keys_put)

lemma cfg_ok_simps [simp]:
  "cfg_ok (emit e ep) = cfg_ok ep" "cfg_ok (stop_timer i n b ep) = cfg_ok ep"
  "cfg_ok (start_timer i n d ep) = cfg_ok ep" "cfg_ok (stop_all i ep) = cfg_ok ep"
  by (simp_all add: cfg_ok_def)

lemma end_session_simps [simp]:
  "sess (end_session i r b ep) j =
     (if j = i then map_option (\<lambda>s. s\<lparr>s_outstanding := None, s_state := ENDED\<rparr>) (sess ep i) else sess ep j)"
  "ep_now (end_session i r b ep) = ep_now ep" "cfg_ok (end_session i r b ep) = cfg_ok ep"
  "ep_t_ring (end_session i r b ep) = ep_t_ring ep" "ep_t_ring_local (end_session i r b ep) = ep_t_ring_local ep"
  "ep_t_establish (end_session i r b ep) = ep_t_establish ep"
  "store_ok ep \<Longrightarrow> store_ok (end_session i r b ep)"
  "store_ok ep \<Longrightarrow> armed (end_session i r b ep) j n = (if j = i then None else armed ep j n)"
  by (auto simp: end_session_def Let_def option.map_comp comp_def split: option.split)

lemma new_session_simps [simp]:
  "s_id (new_session i r st p to x) = i" "s_role (new_session i r st p to x) = r"
  "s_state (new_session i r st p to x) = st" "s_invite_to (new_session i r st p to x) = to"
  "s_peer (new_session i r st p to x) = p" "s_outstanding (new_session i r st p to x) = None"
  "s_invite_expires_at (new_session i r st p to x) = x" "s_cancelled (new_session i r st p to x) = False"
  "s_was_active (new_session i r st p to x) = False"
  by (simp_all add: new_session_def)

text \<open>
  The rule for a handler of session \<open>i\<close>: the other ids are untouched, and the session and its timers
  agree afterwards.
\<close>

lemma ep_inv_at:
  assumes "ep_inv ep" "store_ok ep'" "cfg_ok ep'" "ep_now ep' = ep_now ep"
    and "\<And>j. j \<noteq> i \<Longrightarrow> sess ep' j = sess ep j" "\<And>j n. j \<noteq> i \<Longrightarrow> armed ep' j n = armed ep j n"
    and "ok_at (ep_now ep) i (sess ep' i) (armed ep' i)"
  shows "ep_inv ep'"
proof -
  have "ok_at (ep_now ep) j (sess ep' j) (armed ep' j)" for j
  proof (cases "j = i")
    case False
    with assms(5,6) have "sess ep' j = sess ep j" "armed ep' j = armed ep j" by auto
    with assms(1) show ?thesis by (simp add: ep_inv_def)
  qed (use assms(7) in simp)
  with assms(2-4) show ?thesis by (simp add: ep_inv_def)
qed

lemma ep_invD: "ep_inv ep \<Longrightarrow> store_ok ep" "ep_inv ep \<Longrightarrow> cfg_ok ep"
  "ep_inv ep \<Longrightarrow> ok_at (ep_now ep) i (sess ep i) (armed ep i)"
  by (simp_all add: ep_inv_def)

lemma ep_inv_session: "ep_inv ep \<Longrightarrow> sess ep i = Some s \<Longrightarrow> session_ok i s (armed ep i)"
  using ep_invD(3) [of ep i] by (simp add: ok_at_def)

lemma ep_inv_emit [simp]: "ep_inv (emit e ep) = ep_inv ep"
  by (rule same_core_inv) simp

text \<open>What the invariant says of the session a handler runs on.\<close>

lemma sessD:
  assumes "ep_inv ep" "sess ep i = Some s"
  shows "s_id s = i" "s_role s = Initiator \<Longrightarrow> s_invite_to s \<noteq> None"
    "s_state s \<in> {INVITING, PROCEEDING} \<Longrightarrow> s_role s = Initiator"
    "s_state s \<in> {OFFERED, ALERTING} \<Longrightarrow> s_role s = Responder"
    "s_state s \<noteq> ACTIVE \<Longrightarrow> s_outstanding s = None"
  using ep_inv_session [OF assms] by (auto simp: session_ok_def)

lemma cfg_bounds: "ep_inv ep \<Longrightarrow> ep_t_establish ep \<le> 60" "ep_inv ep \<Longrightarrow> ep_t_ring ep \<le> 300"
  "ep_inv ep \<Longrightarrow> ep_t_ring_local ep \<le> 300"
  by (simp_all add: ep_inv_def cfg_ok_def)

lemma deadline_bound: "ep_inv ep \<Longrightarrow> armed ep i n = Some d \<Longrightarrow> d \<le> ep_now ep + T_QUEUE_CAP"
  by (auto simp: ep_inv_def ok_at_def)

text \<open>The session leaves the states that need a timer, and its timers are gone.\<close>

lemma ep_inv_disarm:
  assumes "ep_inv ep" "sess ep i = Some s" "store_ok ep'" "cfg_ok ep'" "ep_now ep' = ep_now ep"
    and "\<And>j. sess ep' j = (if j = i then Some s' else sess ep j)"
    and "\<And>j n. armed ep' j n = (if j = i then None else armed ep j n)"
    and "s_id s' = s_id s" "s_role s' = s_role s" "s_invite_to s' = s_invite_to s"
    and "s_state s' = ACTIVE \<or> s_state s' = ENDED \<and> s_outstanding s' = None"
  shows "ep_inv ep'"
proof (rule ep_inv_at [OF assms(1,3-5), where i = i])
  show "ok_at (ep_now ep) i (sess ep' i) (armed ep' i)"
  proof -
    have "session_ok i s' (armed ep' i)"
      using assms(11) ep_inv_session [OF assms(1,2)]
      unfolding session_ok_def assms(8-10) by (elim disjE conjE) simp_all
    then show ?thesis
      by (simp add: assms(6,7) ok_at_def)
  qed
qed (simp_all add: assms(6,7))

text \<open>Only the outstanding update, the flags or the peer change.\<close>

lemma ep_inv_touch:
  assumes "ep_inv ep" "sess ep i = Some s" "store_ok ep'" "cfg_ok ep'" "ep_now ep' = ep_now ep"
    and "\<And>j. sess ep' j = (if j = i then Some s' else sess ep j)"
    and "\<And>j n. armed ep' j n = armed ep j n"
    and "s_id s' = s_id s" "s_role s' = s_role s" "s_invite_to s' = s_invite_to s" "s_state s' = s_state s"
    and "s_state s \<noteq> ACTIVE \<Longrightarrow> s_outstanding s' = None"
    and "s_invite_expires_at s' = s_invite_expires_at s"
  shows "ep_inv ep'"
proof (rule ep_inv_at [OF assms(1,3-5), where i = i])
  show "ok_at (ep_now ep) i (sess ep' i) (armed ep' i)"
  proof -
    have "armed ep' i = armed ep i" using assms(7) by auto
    moreover have "session_ok i s' (armed ep i)"
      using ep_inv_session [OF assms(1,2)] assms(12) unfolding session_ok_def assms(8-11,13) by blast
    ultimately show ?thesis
      using deadline_bound [OF assms(1)] by (simp add: assms(6) ok_at_def)
  qed
qed (simp_all add: assms(6,7))

text \<open>The session waits on a timer that is armed within the cap.\<close>

lemma ep_inv_wait:
  assumes "ep_inv ep" "store_ok ep'" "cfg_ok ep'" "ep_now ep' = ep_now ep"
    and "\<And>j. j \<noteq> i \<Longrightarrow> sess ep' j = sess ep j" "\<And>j n. j \<noteq> i \<Longrightarrow> armed ep' j n = armed ep j n"
    and "\<And>n d. armed ep' i n = Some d \<Longrightarrow> d \<le> ep_now ep + T_QUEUE_CAP"
    and "sess ep' i = Some s'" "s_id s' = i" "s_outstanding s' = None"
    and "s_state s' = ALERTING \<and> s_role s' = Responder \<and> armed ep' i T_Ring_Local \<noteq> None
       \<or> s_state s' \<in> {INVITING, PROCEEDING} \<and> s_role s' = Initiator \<and> s_invite_to s' \<noteq> None
         \<and> (\<exists>n \<in> attempt_timers. armed ep' i n \<noteq> None)"
  shows "ep_inv ep'"
proof (rule ep_inv_at [OF assms(1-6)])
  have "session_ok i s' (armed ep' i)"
    using assms(9-11) unfolding session_ok_def by (elim disjE conjE) auto
  with assms(7,8) show "ok_at (ep_now ep) i (sess ep' i) (armed ep' i)"
    by (simp add: ok_at_def)
qed

section \<open>Local events keep the invariant\<close>

lemmas handler_simps = Let_def sends ep_invD(1,2)

lemma end_session_inv:
  assumes "ep_inv ep" "sess ep i = Some s" shows "ep_inv (end_session i r b ep)"
  by (rule ep_inv_disarm [OF assms, where s' = "s\<lparr>s_outstanding := None, s_state := ENDED\<rparr>"])
    (use assms in \<open>auto simp: ep_invD\<close>)

lemma place_call_inv:
  assumes "ep_inv ep" shows "ep_inv (place_call sid to ep)"
proof (cases "sess ep sid")
  case None
  with assms have "\<forall>n. armed ep sid n = None"
    using ep_invD(3) [of ep sid] by (simp add: ok_at_def)
  with None cfg_bounds(1) [OF assms] ep_invD(1,2) [OF assms] show ?thesis
    by (intro ep_inv_wait [OF assms, where i = sid and s' = "new_session sid Initiator INVITING to (Some to) None"])
      (auto simp: place_call_def Let_def sends attempt_timers_def T_QUEUE_CAP_def split: if_splits)
qed (simp add: place_call_def assms)

lemma cmd_cancel_inv:
  assumes "ep_inv ep" "sess ep i = Some s" shows "ep_inv (cmd_cancel i s ep)"
proof (cases "s_role s = Initiator \<and> s_state s \<in> {INVITING, PROCEEDING}")
  case True
  with assms show ?thesis
    by (intro ep_inv_disarm [OF assms, where s' = "s\<lparr>s_cancelled := True, s_state := ENDED\<rparr>"])
      (auto simp: cmd_cancel_def handler_simps sessD(5))
qed (auto simp: cmd_cancel_def assms)

lemma cmd_hangup_inv:
  assumes "ep_inv ep" "sess ep i = Some s" shows "ep_inv (cmd_hangup i s r ep)"
proof (cases "s_state s = ACTIVE")
  case True
  with assms show ?thesis
    by (intro ep_inv_disarm [OF assms, where s' = "s\<lparr>s_outstanding := None, s_state := ENDED\<rparr>"])
      (auto simp: cmd_hangup_def handler_simps)
qed (simp add: cmd_hangup_def assms)

lemma cmd_alert_inv:
  assumes "ep_inv ep" "sess ep i = Some s" "cmd_alert i s rt ep = Some ep'" shows "ep_inv ep'"
proof (cases "s_role s = Responder \<and> s_state s = OFFERED")
  case True
  with assms(3) obtain x where x: "s_invite_expires_at s = Some x"
    by (auto simp: cmd_alert_def bind_eq_Some_conv)
  show ?thesis
  proof (cases "x \<le> ep_now ep")
    case True
    with assms x show ?thesis
      by (auto simp: cmd_alert_def sends intro!: end_session_inv split: if_splits)
  next
    case False
    have "clamp v T_RING_LOCAL_BOUNDS \<le> 300" for v
      using clamp_bounds [of T_RING_LOCAL_BOUNDS v] by (simp add: T_RING_LOCAL_BOUNDS_def)
    then have d: "(case rt of Some v \<Rightarrow> if v = 0 then ep_t_ring_local ep else clamp v T_RING_LOCAL_BOUNDS
        | None \<Rightarrow> ep_t_ring_local ep) \<le> 1800"
      using cfg_bounds(3) [OF assms(1)] by (fastforce split: option.split intro: order_trans)
    from assms x False True sessD(1,5) [OF assms(1,2)] show ?thesis
      by (intro ep_inv_wait [OF assms(1), where i = i and s' = "s\<lparr>s_state := ALERTING\<rparr>"])
        (use d deadline_bound [OF assms(1)] in
          \<open>auto simp: cmd_alert_def handler_simps T_QUEUE_CAP_def split: if_splits option.splits\<close>)
  qed
qed (use assms in \<open>auto simp: cmd_alert_def\<close>)

lemma cmd_auto_reject_inv: "ep_inv ep \<Longrightarrow> sess ep i = Some s \<Longrightarrow> ep_inv (cmd_auto_reject i s r ep)"
  by (auto simp: cmd_auto_reject_def sends intro: end_session_inv)

lemma cmd_accept_inv:
  assumes "ep_inv ep" "sess ep i = Some s" shows "ep_inv (cmd_accept i s ab ep)"
proof (cases "s_role s = Responder \<and> s_state s = ALERTING")
  case True
  with assms show ?thesis
    by (intro ep_inv_disarm [OF assms, where s' = "s\<lparr>s_state := ACTIVE, s_was_active := True\<rparr>"])
      (auto simp: cmd_accept_def handler_simps)
qed (auto simp: cmd_accept_def assms)

lemma cmd_decline_inv:
  assumes "ep_inv ep" "sess ep i = Some s" shows "ep_inv (cmd_decline i s r ep)"
proof (cases "s_role s = Responder \<and> s_state s = ALERTING")
  case True
  with assms show ?thesis
    by (intro ep_inv_disarm [OF assms, where s' = "s\<lparr>s_outstanding := None, s_state := ENDED\<rparr>"])
      (auto simp: cmd_decline_def handler_simps)
qed (auto simp: cmd_decline_def assms)

text \<open>A handler that writes only the outstanding update of an \<open>ACTIVE\<close> session.\<close>

lemma upd_outstanding_inv:
  assumes "ep_inv ep" "sess ep i = Some s" "s_state s = ACTIVE \<or> o' = None" "same_core ep ep'"
  shows "ep_inv (upd i (\<lambda>s. s\<lparr>s_outstanding := o'\<rparr>) ep')"
proof -
  have ep': "ep_inv ep'" "sess ep' i = Some s"
    using assms(1,2,4) by (simp_all add: same_core_inv [OF assms(4)]) (simp add: same_core_def)
  show ?thesis
    by (rule ep_inv_touch [OF ep', where s' = "s\<lparr>s_outstanding := o'\<rparr>"])
      (use ep' assms(3) sessD(5) [OF ep'] in \<open>auto simp: ep_invD\<close>)
qed

lemma upd_none_inv: "ep_inv ep \<Longrightarrow> sess ep i = Some s \<Longrightarrow> ep_inv (upd i (\<lambda>s. s\<lparr>s_outstanding := None\<rparr>) ep)"
  by (rule upd_outstanding_inv [where ep = ep and s = s]) simp_all

lemma cmd_update_inv: "ep_inv ep \<Longrightarrow> sess ep i = Some s \<Longrightarrow> ep_inv (cmd_update i s u ab ep)"
  by (auto simp: cmd_update_def sends intro: upd_outstanding_inv)

lemma cmd_reply_update_inv:
  "ep_inv ep \<Longrightarrow> sess ep i = Some s \<Longrightarrow> same_core ep (reply ep) \<Longrightarrow> ep_inv (cmd_reply_update i s rep reply ep)"
  by (auto simp: cmd_reply_update_def intro: upd_outstanding_inv)

lemma cmd_info_inv: "ep_inv ep \<Longrightarrow> ep_inv (cmd_info i s ep)"
  by (simp add: cmd_info_def sends)

lemma session_cmd_inv:
  assumes "ep_inv ep" "sess ep i = Some s" "do_session_cmd i s c ep = Some ep'" shows "ep_inv ep'"
  using assms
  by (cases c) (auto simp: sends intro: cmd_cancel_inv cmd_hangup_inv cmd_alert_inv cmd_auto_reject_inv cmd_accept_inv
      cmd_decline_inv cmd_update_inv cmd_info_inv intro!: cmd_reply_update_inv)

lemma local_step_inv:
  assumes "ep_inv ep" "local_step e ep = Some ep'" shows "ep_inv ep'"
proof (cases e)
  case (InSession sid c)
  then show ?thesis
    using assms session_cmd_inv [OF assms(1)] sessD(1) [OF assms(1)] by (auto split: option.splits)
next
  case (Regrant x1 x2 x3 x4 x5)
  then show ?thesis
    using assms same_core_inv [OF same_core_local_regrant] by auto
next
  case (RevokeGrant g)
  then show ?thesis
    using assms same_core_inv [OF same_core_revoke] by auto
next
  case (IssueToken t g)
  then show ?thesis
    using assms by (auto simp: same_core_inv [of ep "ep\<lparr>ep_tokens := dset t g (ep_tokens ep)\<rparr>"])
qed (use assms in \<open>auto simp: place_call_inv same_core_inv intro: same_core_contacts [THEN same_core_inv, THEN iffD2]\<close>)

end
