(* ===== verification/Session_Recv.thy ===== *)
theory Session_Recv
  imports Session_Safety
begin

text \<open>
  Received messages and the clock keep the invariant of \<^verbatim>\<open>Session_Safety\<close>; the step function is
  interpreted as a \<open>machine\<close>, which carries the invariant over every trace.
\<close>

section \<open>Received messages\<close>

lemma recv_info_inv: "ep_inv ep \<Longrightarrow> ep_inv (recv_info i s m ep)"
  by (simp add: recv_info_def sends split: option.split)

lemma recv_ended_inv: "ep_inv ep \<Longrightarrow> ep_inv (recv_ended s m ep)"
  by (simp add: recv_ended_def sends)

lemma recv_bye_inv: "ep_inv ep \<Longrightarrow> sess ep i = Some s \<Longrightarrow> recv_bye i s m ep = Some ep' \<Longrightarrow> ep_inv ep'"
  by (auto simp: recv_bye_def bind_eq_Some_conv sends intro: end_session_inv split: if_splits)

lemma recv_update_inv: "ep_inv ep \<Longrightarrow> sess ep i = Some s \<Longrightarrow> ep_inv (recv_update i s m ep)"
  by (auto simp: recv_update_def Let_def sends intro: upd_outstanding_inv
      split: option.split prod.split direction.split)

lemma recv_reject_inv:
  "ep_inv ep \<Longrightarrow> sess ep i = Some s \<Longrightarrow> recv_reject i s m ep = Some ep' \<Longrightarrow> ep_inv ep'"
  by (auto simp: recv_reject_def bind_eq_Some_conv sends Let_def intro: end_session_inv upd_none_inv
      split: if_splits option.splits)

lemma end_stopped_inv:
  assumes "ep_inv ep" "sess ep i = Some s" "same_core (stop_all i ep) ep'"
  shows "ep_inv (end_session i r b ep')"
proof -
  have "store_ok ep'" "cfg_ok ep'" "ep_now ep' = ep_now ep" "ep_sessions ep' = ep_sessions ep"
      "ep_timers ep' = ep_timers (stop_all i ep)"
    using assms ep_invD [OF assms(1)] distinct_cong [of ep' "stop_all i ep"]
    by (auto simp: same_core_def cfg_ok_def)
  moreover from this have "armed ep' j n = (if j = i then None else armed ep j n)" for j n
    using armed_cong [of ep' "stop_all i ep"] ep_invD(1) [OF assms(1)] by simp
  ultimately show ?thesis
    by (intro ep_inv_disarm [OF assms(1,2), where s' = "s\<lparr>s_outstanding := None, s_state := ENDED\<rparr>"])
      (use assms in auto)
qed

lemma recv_cancel_inv:
  assumes "ep_inv ep" "sess ep i = Some s" "recv_cancel i s m ep = Some ep'" shows "ep_inv ep'"
proof (cases "s_state s = ALERTING")
  case True
  with assms show ?thesis
    by (auto simp: recv_cancel_def bind_eq_Some_conv sends Let_def intro!: end_stopped_inv [OF assms(1,2)]
        split: if_splits)
next
  case False
  with assms show ?thesis
    by (auto simp: recv_cancel_def bind_eq_Some_conv sends Let_def intro: end_session_inv split: if_splits)
qed

lemma recv_answer_inv:
  assumes "ep_inv ep" "sess ep i = Some s" "recv_answer i s m ep = Some ep'" shows "ep_inv ep'"
proof (cases "s_role s = Initiator \<and> s_state s \<in> {INVITING, PROCEEDING} \<and> m_in_reply_to m = None")
  case True
  with assms show ?thesis
    by (intro ep_inv_disarm [OF assms(1,2), where s' = "s\<lparr>s_state := ACTIVE, s_was_active := True,
          s_answered_device := Some (m_from m), s_peer := m_from m\<rparr>"])
      (auto simp: recv_answer_def bind_eq_Some_conv handler_simps split: if_splits)
next
  case False
  with assms sessD(3) [OF assms(1,2)] show ?thesis
    by (auto simp: recv_answer_def bind_eq_Some_conv sends intro: upd_none_inv split: if_splits option.splits)
qed

text \<open>
  \<open>recv_progress\<close>: after the common part the session is \<open>PROCEEDING\<close> and \<open>T_Establish\<close> is stopped
  (\<open>proceeding_at\<close>); each branch then leaves a timer of the attempt armed, or ends the attempt.
\<close>

definition proceeding_at :: "string \<Rightarrow> session \<Rightarrow> endpoint \<Rightarrow> endpoint \<Rightarrow> bool" where
  "proceeding_at i s ep e1 \<longleftrightarrow> store_ok e1 \<and> cfg_ok e1 \<and> ep_now e1 = ep_now ep \<and> ep_t_ring e1 = ep_t_ring ep
     \<and> sess e1 i = Some s \<and> (\<forall>j. j \<noteq> i \<longrightarrow> sess e1 j = sess ep j)
     \<and> (\<forall>j n. j \<noteq> i \<longrightarrow> armed e1 j n = armed ep j n)
     \<and> (\<forall>n d. armed e1 i n = Some d \<longrightarrow> d \<le> ep_now ep + T_QUEUE_CAP)
     \<and> s_id s = i \<and> s_role s = Initiator \<and> s_invite_to s \<noteq> None \<and> s_outstanding s = None \<and> s_state s = PROCEEDING"

lemma running_armed: "running ep i n = None \<longleftrightarrow> armed ep i n = None"
  by (simp add: armed_def)

lemma ring_bounds:
  assumes "ep_inv ep" shows "clamp v T_RING_BOUNDS \<le> T_QUEUE_CAP" "ep_t_ring ep \<le> T_QUEUE_CAP"
  using clamp_bounds [of T_RING_BOUNDS v] cfg_bounds(2) [OF assms] by (simp_all add: timer_bounds)

lemma on_ringing_inv:
  assumes "ep_inv ep" "proceeding_at i s ep e1" shows "ep_inv (on_ringing i m e1)"
  using assms(2) ring_bounds [OF assms(1)]
  by (intro ep_inv_wait [OF assms(1), where i = i and s' = "s\<lparr>s_queue_count := 0\<rparr>"])
    (auto simp: on_ringing_def Let_def proceeding_at_def attempt_timers_def running_armed
      split: option.splits if_splits)

lemma on_queued_inv:
  assumes "ep_inv ep" "sess ep i = Some s0" "s_id s0 = i" "s_role s0 = Initiator" "s_invite_to s0 = s_invite_to s"
    and "proceeding_at i s ep e1" "on_queued i s0 m e1 = Some ep'"
  shows "ep_inv ep'"
proof (cases "Suc (s_queue_count s0) > MAX_CONSECUTIVE_REQUEUES")
  case True
  with assms(7) have "ep' = end_session i (Some ''session.timeout'') False (upd i (\<lambda>s. s\<lparr>s_cancelled := True\<rparr>)
      (send ((msg0 ''cancel'')\<lparr>o_to := s_invite_to s0, o_session := Some i, o_reason := Some ''session.timeout''\<rparr>)
        (stop_all i (upd i (\<lambda>s. s\<lparr>s_queue_count := Suc (s_queue_count s0)\<rparr>) e1))))"
    by (simp add: on_queued_def Let_def)
  then show ?thesis
    using assms(6)
    by (intro ep_inv_disarm [OF assms(1,2), where s' = "s\<lparr>s_state := ENDED, s_outstanding := None,
            s_cancelled := True, s_queue_count := Suc (s_queue_count s0)\<rparr>"])
      (simp_all add: proceeding_at_def sends assms(3-5))
next
  case False
  with assms(7) obtain qt where "ep' = start_timer i T_Queue (min qt T_QUEUE_CAP) (stop_timer i T_Ring False
      (upd i (\<lambda>s. s\<lparr>s_queue_count := Suc (s_queue_count s0)\<rparr>) e1))"
    by (auto simp: on_queued_def Let_def bind_eq_Some_conv)
  then show ?thesis
    using assms(6)
    by (intro ep_inv_wait [OF assms(1), where i = i and s' = "s\<lparr>s_queue_count := Suc (s_queue_count s0)\<rparr>"])
      (auto simp: proceeding_at_def attempt_timers_def split: if_splits)
qed

lemma on_other_status_inv:
  assumes "ep_inv ep" "proceeding_at i s ep e1" shows "ep_inv (on_other_status i e1)"
  using assms(2) ring_bounds [OF assms(1)]
  by (intro ep_inv_wait [OF assms(1), where i = i and s' = s])
    (auto simp: on_other_status_def proceeding_at_def attempt_timers_def running_armed split: if_splits)

lemma recv_progress_inv:
  assumes "ep_inv ep" "sess ep i = Some s" "recv_progress i s m ep = Some ep'" shows "ep_inv ep'"
proof (cases "s_role s = Initiator \<and> s_state s \<in> {INVITING, PROCEEDING}")
  case True
  let ?e = "\<lambda>st. emit (Ui (UiProgress st)) (upd i (\<lambda>s. s\<lparr>s_state := PROCEEDING\<rparr>) (stop_timer i T_Establish False ep))"
  have "proceeding_at i (s\<lparr>s_state := PROCEEDING\<rparr>) ep (?e st)" for st
    using True assms(2) sessD [OF assms(1,2)] ep_invD(1,2) [OF assms(1)] deadline_bound [OF assms(1)]
    by (auto simp: proceeding_at_def split: if_splits)
  with True assms show ?thesis
    by (auto simp: recv_progress_def bind_eq_Some_conv Let_def intro: on_ringing_inv on_other_status_inv
        split: if_splits elim!: on_queued_inv [where s = "s\<lparr>s_state := PROCEEDING\<rparr>", rotated -1] dest: sessD(1))
qed (use assms in \<open>auto simp: recv_progress_def sends\<close>)


lemma dval_Some: "distinct (dkeys d) \<Longrightarrow> v \<in> set (dvals d) \<Longrightarrow> \<exists>k. dget d k = Some v"
  by (auto simp: map_of_eq_Some_iff)

lemma rival_facts: "ep_inv ep \<Longrightarrow> r \<in> set (rivals ep who) \<Longrightarrow>
    sess ep (s_id r) = Some r \<and> s_role r = Initiator \<and> s_state r \<in> {INVITING, PROCEEDING}"
  using dval_Some [of "ep_sessions ep" r] sessD(1) [of ep _ r]
  by (fastforce simp: rivals_def ep_inv_def store_ok_def)


text \<open>Glare: withdrawing our attempts, and the session of an incoming invite.\<close>

definition withdrawable :: "endpoint \<Rightarrow> string \<Rightarrow> bool" where
  "withdrawable ep i \<longleftrightarrow> (\<exists>s. sess ep i = Some s \<and> s_outstanding s = None)"

lemma withdraw_inv:
  assumes "ep_inv ep" "withdrawable ep (s_id r)" shows "ep_inv (withdraw ep r)"
proof -
  obtain s where s: "sess ep (s_id r) = Some s" "s_outstanding s = None"
    using assms(2) by (auto simp: withdrawable_def)
  show ?thesis
    by (rule ep_inv_disarm [OF assms(1) s(1), where s' = "s\<lparr>s_cancelled := True, s_state := ENDED\<rparr>"])
      (use s assms(1) in \<open>auto simp: withdraw_def handler_simps\<close>)
qed

lemma withdraw_sess: "sess (withdraw ep r) j =
    (if j = s_id r then map_option (\<lambda>s. s\<lparr>s_cancelled := True, s_state := ENDED\<rparr>) (sess ep j) else sess ep j)"
  by (auto simp: withdraw_def handler_simps)

lemma withdrawable_withdraw: "withdrawable ep i \<Longrightarrow> withdrawable (withdraw ep r) i"
  by (auto simp: withdrawable_def withdraw_sess)

lemma withdraw_all_inv:
  "ep_inv ep \<Longrightarrow> (\<And>r. r \<in> set rs \<Longrightarrow> withdrawable ep (s_id r)) \<Longrightarrow> ep_inv (foldl withdraw ep rs)"
  by (induction rs arbitrary: ep) (simp_all add: withdraw_inv withdrawable_withdraw)

lemma rivals_withdrawable: "ep_inv ep \<Longrightarrow> r \<in> set (rivals ep who) \<Longrightarrow> withdrawable ep (s_id r)"
  using rival_facts [of ep r who] sessD(5) [of ep "s_id r" r] by (auto simp: withdrawable_def)

lemma put_session_inv:
  assumes "ep_inv ep" "s_state s \<in> {OFFERED, ENDED}" "s_role s = Responder" "s_outstanding s = None"
    "s_state s = OFFERED \<longrightarrow> s_invite_expires_at s \<noteq> None"
  shows "ep_inv (put_session s ep)"
  by (rule ep_inv_at [OF assms(1), where i = "s_id s"])
    (use assms deadline_bound [OF assms(1)] in \<open>auto simp: ep_invD ok_at_def session_ok_def\<close>)

lemma offer_inv: "ep_inv ep \<Longrightarrow> m_expires_at m \<noteq> None \<Longrightarrow> ep_inv (offer m ep)"
  by (simp add: offer_def put_session_inv)

lemma recv_invite_inv:
  assumes "ep_inv ep" "m_expires_at m \<noteq> None" shows "ep_inv (recv_invite m ep)"
proof -
  let ?who = "identity_of ep (m_from m)"
  have "rivals ep ?who = r # rs \<Longrightarrow> ep_inv (withdraw_all)" if "withdraw_all = foldl withdraw ep (r # rs)" for r rs withdraw_all
    unfolding that by (rule withdraw_all_inv [OF assms(1)]) (metis assms(1) rivals_withdrawable)
  then show ?thesis
    using assms
    by (auto simp: recv_invite_def Let_def reject_invite_def sends put_session_inv offer_inv
        split: list.split option.split)
qed

lemma session_handler_inv:
  assumes "ep_inv ep" "sess ep i = Some s" "session_handler i s m ep = Some ep'" shows "ep_inv ep'"
proof (cases "m_type m")
  case MProgress
  with assms show ?thesis by (simp add: session_handler_def recv_progress_inv)
next
  case MAnswer
  with assms show ?thesis by (simp add: session_handler_def recv_answer_inv)
next
  case MReject
  with assms show ?thesis by (simp add: session_handler_def recv_reject_inv)
next
  case MCancel
  with assms show ?thesis by (simp add: session_handler_def recv_cancel_inv)
next
  case MBye
  with assms show ?thesis by (simp add: session_handler_def recv_bye_inv)
next
  case MUpdate
  with assms show ?thesis by (auto simp: session_handler_def recv_update_inv)
next
  case MInfo
  with assms show ?thesis by (auto simp: session_handler_def recv_info_inv)
next
  case MHello
  with assms show ?thesis by (auto simp: session_handler_def sends)
qed (use assms in \<open>simp_all add: session_handler_def\<close>)

lemma recv_session_inv:
  assumes "ep_inv ep" "recv_session m ep = Some ep'" shows "ep_inv ep'"
proof (cases "find_session ep (m_session m)")
  case None
  with assms show ?thesis by (auto simp: recv_session_def sends)
next
  case (Some s)
  then obtain i where i: "sess ep i = Some s"
    by (auto simp: find_session_def bind_eq_Some_conv)
  then have id: "s_id s = i" using sessD(1) assms(1) by blast
  let ?s' = "s\<lparr>s_post_answer_seen := True\<rparr>" and ?ep' = "upd i (\<lambda>s. s\<lparr>s_post_answer_seen := True\<rparr>) ep"
  have seen: "ep_inv ?ep'" "sess ?ep' i = Some ?s'"
    by (rule ep_inv_touch [OF assms(1) i, where s' = ?s'])
      (use i sessD(5) [OF assms(1) i] in \<open>auto simp: ep_invD [OF assms(1)]\<close>)
  show ?thesis
    using assms Some i id session_handler_inv [OF assms(1) i] session_handler_inv [OF seen]
    by (auto simp: recv_session_def recv_ended_inv split: if_splits)
qed

lemma recv_error_inv: "ep_inv ep \<Longrightarrow> ep_inv (recv_error m ep)"
  using sessD(1) [of ep]
  by (auto simp: recv_error_def find_session_def bind_eq_Some_conv intro!: end_session_inv split: option.split)

lemma recv_msg_inv:
  assumes "ep_inv ep" "m_type m = MInvite \<longrightarrow> m_expires_at m \<noteq> None" "recv_msg m ep = Some ep'" shows "ep_inv ep'"
proof -
  have "ep_inv (recv_introduction m ep)"
    using assms(1) by (simp add: same_core_inv [OF same_core_contacts(4)])
  moreover have "recv_grant m ep = Some ep' \<Longrightarrow> ep_inv ep'"
    using assms(1) same_core_inv [OF same_core_grant] by blast
  moreover have "ep_inv (emit x (ep\<lparr>ep_pending_sent := y\<rparr>))" for x y
    using assms(1) same_core_inv [of ep "ep\<lparr>ep_pending_sent := y\<rparr>"] by simp
  moreover have "recv_own_record m ep = Some ep' \<Longrightarrow> ep_inv ep'"
    using assms(1) same_core_inv [OF same_core_own_record] by blast
  ultimately show ?thesis
    using assms recv_session_inv [OF assms(1), of m]
    by (auto simp: recv_msg_def recv_invite_inv recv_error_inv bind_eq_Some_conv Let_def
        split: mtype.splits option.splits)
qed

end
