(* ===== verification/Session_Clock.thy ===== *)
theory Session_Clock
  imports Session_Recv
begin

text \<open>
  The clock of an endpoint. \<open>fire_due\<close> always returns and fires every due timer; \<open>settle\<close> makes progress
  on a measure, so \<open>advance_to\<close> returns whenever the configured grant ids suffice; advancing past the
  longest deadline ends every attempt and every ringing session.
\<close>

section \<open>Firing timers\<close>

lemma remove1_armed:
  assumes "distinct (map timer_key ts)" "t \<in> set ts"
  shows "find (\<lambda>u. timer_key u = k) (remove1 t ts)
    = (if k = timer_key t then None else find (\<lambda>u. timer_key u = k) ts)"
proof -
  have f: "find (\<lambda>u. timer_key u = timer_key t) ts = Some t"
    using assms by (induction ts) auto
  show ?thesis
    by (simp add: remove1_key [OF assms(1) f] find_filter_key)
qed

lemma drop_timer:
  assumes "store_ok ep" "t \<in> set (ep_timers ep)"
  defines "ep' \<equiv> ep\<lparr>ep_timers := remove1 t (ep_timers ep)\<rparr>"
  shows "store_ok ep'"
    "armed ep' j n = (if j = tm_session t \<and> n = tm_name t then None else armed ep j n)"
proof -
  from assms(1) have d: "distinct (map timer_key (ep_timers ep))" by (simp add: store_ok_def)
  then have "distinct (map timer_key (remove1 t (ep_timers ep)))"
    by (meson distinct_map distinct_remove1 inj_on_subset set_remove1_subset)
  with assms(1) show "store_ok ep'" by (simp add: store_ok_def ep'_def)
  show "armed ep' j n = (if j = tm_session t \<and> n = tm_name t then None else armed ep j n)"
    by (simp add: ep'_def armed_def running_key remove1_armed [OF d assms(2)] timer_key_def [of t])
qed

lemma next_timer_in: "due_timers ep \<noteq> [] \<Longrightarrow> next_timer ep \<in> set (due_timers ep)"
  unfolding next_timer_def by (rule arg_min_list_in)

text \<open>
  Firing a due timer keeps the invariant, removes at least that timer and starts none; grants and keys
  are not involved.
\<close>

definition fired :: "endpoint \<Rightarrow> endpoint \<Rightarrow> bool" where
  "fired ep ep' \<longleftrightarrow> set (ep_timers ep') \<subseteq> set (ep_timers ep) \<and> ep_now ep' = ep_now ep
     \<and> ep_grants_issued ep' = ep_grants_issued ep \<and> ep_due ep' = ep_due ep \<and> ep_epochs ep' = ep_epochs ep
     \<and> ep_grant_ids ep' = ep_grant_ids ep \<and> ep_keys_on ep' = ep_keys_on ep \<and> ep_sealed ep' = ep_sealed ep
     \<and> ep_t_rotate ep' = ep_t_rotate ep \<and> ep_last_rotated ep' = ep_last_rotated ep"

lemma fired_refl [simp]: "fired ep ep"
  by (simp add: fired_def)

lemma fired_trans: "fired a b \<Longrightarrow> fired b c \<Longrightarrow> fired a c"
  by (auto simp: fired_def)

lemma fired_emit [simp]: "fired a (emit e b) = fired a b"
  by (simp add: fired_def)

lemma set_stopped: "set (stopped i n ts) \<subseteq> set ts"
  by (auto simp: stopped_def split: option.splits dest: set_remove1_subset [THEN subsetD])

lemma fired_stop: "fired ep (stop_timer i n b ep)"
  by (simp add: fired_def set_stopped)

lemma fired_stop_all: "fired ep (stop_all i ep)"
  by (simp add: stop_all_def) (meson fired_stop fired_trans)

lemma fired_upd [simp]: "fired a (upd i f b) = fired a b"
  by (simp add: fired_def upd_def)

lemma fired_end [simp]: "fired a b \<Longrightarrow> fired a (end_session i r m b)"
  by (auto simp: end_session_def Let_def intro: fired_trans [OF _ fired_stop_all] split: option.split)

lemma length_stopped: "length (stopped i n ts) \<le> length ts"
  by (auto simp: stopped_def length_remove1 split: option.split)

lemma length_stop_all: "length (ep_timers (stop_all i ep)) \<le> length (ep_timers ep)"
  by (simp add: stop_all_def) (meson length_stopped order_trans)

lemma length_end_session: "length (ep_timers (end_session i r m ep)) \<le> length (ep_timers ep)"
  by (auto simp: end_session_def Let_def length_stop_all split: option.split)

lemma fire_spec:
  assumes inv: "ep_inv ep" and t: "t \<in> set (ep_timers ep)"
  defines "ep0 \<equiv> ep\<lparr>ep_timers := remove1 t (ep_timers ep)\<rparr>"
  shows "\<exists>ep'. fire t ep0 = Some ep' \<and> ep_inv ep' \<and> fired ep0 ep' \<and> length (ep_timers ep') < length (ep_timers ep)"
proof -
  let ?i = "tm_session t"
  have ar: "armed ep ?i (tm_name t) = Some (tm_deadline t)"
    using armed_in [OF ep_invD(1) [OF inv] t] .
  have "sess ep ?i \<noteq> None"
    using ep_invD(3) [OF inv, of ?i] ar by (cases "sess ep ?i") (auto simp: ok_at_def)
  then obtain s where s: "sess ep ?i = Some s" by blast
  have len: "length (ep_timers ep0) < length (ep_timers ep)"
    using t length_pos_if_in_set [OF t] by (simp add: ep0_def length_remove1)
  note id = sessD(1) [OF inv s]
  note a0 = drop_timer [OF ep_invD(1) [OF inv] t, folded ep0_def]
  have ep0: "ep_now ep0 = ep_now ep" "ep_sessions ep0 = ep_sessions ep" "cfg_ok ep0"
    using ep_invD(2) [OF inv] by (simp_all add: ep0_def cfg_ok_def)
  have ended: "ep_inv (end_session ?i r b e)" if "store_ok e" "cfg_ok e" "ep_now e = ep_now ep"
    "\<And>j. sess e j = (if j = ?i then Some s' else sess ep j)" "s_id s' = s_id s" "s_role s' = s_role s"
    "s_invite_to s' = s_invite_to s" "\<And>j n. j \<noteq> ?i \<Longrightarrow> armed e j n = armed ep j n" for r b e s'
    by (rule ep_inv_disarm [OF inv s, where s' = "s'\<lparr>s_outstanding := None, s_state := ENDED\<rparr>"]) (use that in auto)
  show ?thesis
  proof (cases "tm_name t \<in> {T_Establish, T_Ring, T_Queue} \<and> s_state s \<in> {INVITING, PROCEEDING}")
    case True
    let ?e = "upd ?i (\<lambda>s. s\<lparr>s_cancelled := True\<rparr>) (send ((msg0 ''cancel'')\<lparr>o_to := s_invite_to s, o_session := Some ?i,
       o_reason := Some ''session.timeout''\<rparr>) (stop_all ?i (emit (TimerFire (tm_name t)) ep0)))"
    let ?ep' = "end_session ?i (Some ''session.timeout'') False ?e"
    have "fire t ep0 = Some ?ep'"
      using True s id ep0 by (simp add: fire_def Let_def)
    moreover have "ep_inv ?ep'"
      by (rule ended [where s' = "s\<lparr>s_cancelled := True\<rparr>"]) (use s a0 ep0 in \<open>auto simp: sends\<close>)
    moreover have "fired ep0 ?ep'"
      using fired_stop_all [of "emit (TimerFire (tm_name t)) ep0" ?i]
      by (intro fired_end) (simp add: sends, simp add: fired_def)
    moreover have "length (ep_timers ?ep') < length (ep_timers ep)"
      by (rule le_less_trans [OF length_end_session]) (use len length_stop_all [of ?i "emit (TimerFire (tm_name t)) ep0"] in \<open>simp add: sends\<close>)
    ultimately show ?thesis by blast
  next
    case no_attempt: False
    show ?thesis
    proof (cases "tm_name t = T_Ring_Local \<and> s_state s = ALERTING")
      case True
      let ?e = "send ((msg0 ''reject'')\<lparr>o_to := Some (s_peer s), o_session := Some ?i,
         o_reason := Some ''user.no-answer''\<rparr>) (emit (TimerFire (tm_name t)) ep0)"
      let ?ep' = "end_session ?i (Some ''user.no-answer'') False ?e"
      have "fire t ep0 = Some ?ep'"
        using True s id ep0 by (simp add: fire_def Let_def)
      moreover have "ep_inv ?ep'"
        by (rule ended [where s' = s]) (use s a0 ep0 in \<open>auto simp: sends\<close>)
      moreover have "fired ep0 ?ep'"
        by (intro fired_end) (simp add: sends)
      moreover have "length (ep_timers ?ep') < length (ep_timers ep)"
        by (rule le_less_trans [OF length_end_session]) (use len in \<open>simp add: sends\<close>)
      ultimately show ?thesis by blast
    next
      case False
      let ?ep' = "emit (TimerFire (tm_name t)) ep0"
      have "fire t ep0 = Some ?ep'"
        using no_attempt False s ep0 by (auto simp: fire_def Let_def)
      moreover have "session_ok ?i s (armed ?ep' ?i)"
        using ep_inv_session [OF inv s] no_attempt False a0(2)
        unfolding session_ok_def attempt_timers_def by (cases "tm_name t") auto
      then have "ep_inv ?ep'"
        by (intro ep_inv_at [OF inv, where i = ?i])
          (use a0 ep0 s deadline_bound [OF inv] in \<open>auto simp: ok_at_def\<close>)
      ultimately show ?thesis using len by auto
    qed
  qed
qed


text \<open>\<open>fire_due\<close> returns, keeps the invariant and leaves no due timer.\<close>

lemma fire_due_spec:
  "ep_inv ep \<Longrightarrow> \<exists>ep'. fire_due ep = Some ep' \<and> ep_inv ep' \<and> fired ep ep' \<and> due_timers ep' = []
     \<and> length (ep_timers ep') \<le> length (ep_timers ep)
     \<and> (due_timers ep \<noteq> [] \<longrightarrow> length (ep_timers ep') < length (ep_timers ep))"
proof (induction "length (ep_timers ep)" arbitrary: ep rule: less_induct)
  case less
  show ?case
  proof (cases "due_timers ep = []")
    case True
    then show ?thesis using less.prems by (simp add: fire_due.simps)
  next
    case False
    let ?t = "next_timer ep"
    from next_timer_in [OF False] have t: "?t \<in> set (ep_timers ep)"
      by (simp add: due_timers_def)
    from fire_spec [OF less.prems t] obtain e1 where e1: "fire_next ep = Some e1" "ep_inv e1"
        "fired (ep\<lparr>ep_timers := remove1 ?t (ep_timers ep)\<rparr>) e1" "length (ep_timers e1) < length (ep_timers ep)"
      by (auto simp: fire_next_def)
    have "fired ep e1"
      using e1(3) set_remove1_subset [of ?t "ep_timers ep"] by (auto simp: fired_def)
    moreover obtain e2 where e2: "fire_due e1 = Some e2" "ep_inv e2" "fired e1 e2" "due_timers e2 = []"
        "length (ep_timers e2) \<le> length (ep_timers e1)"
      using less.hyps [OF e1(4,2)] by blast
    moreover have "fire_due ep = Some e2"
      using False e1(1) e2(1) by (subst fire_due.simps) simp
    moreover have "fired ep e2" "length (ep_timers e2) < length (ep_timers ep)"
      using calculation(1,4) e1(4) e2(5) by (auto intro: fired_trans)
    ultimately show ?thesis by auto
  qed
qed


section \<open>The keys and the measure of the clock\<close>

text \<open>
  \<open>keys_inv\<close>: every scope that is due or carried by a grant has an epoch, and a grant's keys are those
  \<open>key_scopes\<close> computes from its scope and audience. \<open>work\<close> bounds the turns of the outer loop: a turn
  ends a grant (which may make every scope due) or consumes a timer or a due scope.
\<close>

definition keys_inv :: "endpoint \<Rightarrow> bool" where
  "keys_inv ep \<longleftrightarrow> distinct (dkeys (ep_grants_issued ep)) \<and> distinct (dkeys (ep_due ep))
     \<and> (\<forall>sc. dget (ep_due ep) sc \<noteq> None \<longrightarrow> dget (ep_epochs ep) sc \<noteq> None)
     \<and> (\<forall>gid g. dget (ep_grants_issued ep) gid = Some g \<longrightarrow>
          g_keys g = key_scopes ep (g_scope g) (g_audience g)
          \<and> (\<forall>sc \<in> set (g_keys g). dget (ep_epochs ep) sc \<noteq> None)
          \<and> (g_ended g \<longrightarrow> g_valid_until g \<le> ep_now ep))"

lemma key_scopes_cong: "ep_keys_on a = ep_keys_on b \<Longrightarrow> ep_sealed a = ep_sealed b \<Longrightarrow> key_scopes a = key_scopes b"
  by (simp add: key_scopes_def fun_eq_iff split: option.split)

lemma keys_inv_cong:
  assumes "ep_grants_issued b = ep_grants_issued a" "ep_due b = ep_due a" "ep_epochs b = ep_epochs a"
    "ep_keys_on b = ep_keys_on a" "ep_sealed b = ep_sealed a" "ep_now a \<le> ep_now b" "keys_inv a"
  shows "keys_inv b"
  using assms(6,7) unfolding keys_inv_def assms(1-5) key_scopes_cong [OF assms(4,5)] by (meson order_trans)

definition unended :: "endpoint \<Rightarrow> nat" where
  "unended ep = length (filter (\<lambda>g. g_keys g \<noteq> [] \<and> \<not> g_ended g) (dvals (ep_grants_issued ep)))"

definition work :: "endpoint \<Rightarrow> nat" where
  "work ep = unended ep * Suc (length (ep_epochs ep)) + length (ep_timers ep) + length (ep_due ep)"

text \<open>Counting the values of a dict.\<close>

lemma count_dset: "length (filter P (dvals (dset k v d))) \<le> length (filter P (dvals d)) + (if P v then 1 else 0)"
  by (induction d) auto

lemma count_dset_less: "dget d k = Some w \<Longrightarrow> P w \<Longrightarrow> \<not> P v
    \<Longrightarrow> length (filter P (dvals (dset k v d))) < length (filter P (dvals d))"
  by (induction d) (auto split: if_splits)

lemma count_ddel: "length (filter P (dvals (ddel k d))) \<le> length (filter P (dvals d))"
  by (induction d) auto

lemma count_ddel_less: "dget d k = Some w \<Longrightarrow> P w \<Longrightarrow> length (filter P (dvals (ddel k d))) < length (filter P (dvals d))"
proof (induction d)
  case (Cons x d)
  then show ?case
    using count_ddel [of P k d] by (cases x) (auto split: if_splits)
qed simp

lemma length_dset: "length (dset k v d) = (if dget d k = None then Suc (length d) else length d)"
  by (induction d) auto

lemma length_ddel: "length (ddel k d) \<le> length d"
  by (induction d) auto

lemma length_ddel_less: "dget d k \<noteq> None \<Longrightarrow> length (ddel k d) < length d"
  by (induction d) (auto split: if_splits intro: le_imp_less_Suc length_ddel)

lemma setdefault_present: "(\<And>sc. sc \<in> set ks \<Longrightarrow> dget d sc \<noteq> None) \<Longrightarrow> foldl (\<lambda>d sc. dsetdefault sc 0 d) d ks = d"
proof (induction ks arbitrary: d)
  case (Cons k ks)
  then obtain v where "dget d k = Some v" by fastforce
  then have "dsetdefault k 0 d = d" by (simp add: dsetdefault_def)
  with Cons show ?case by simp
qed simp

lemma setdefault_keys: "dget (foldl (\<lambda>d sc. dsetdefault sc 0 d) d ks) k \<noteq> None \<longleftrightarrow> dget d k \<noteq> None \<or> k \<in> set ks"
  by (induction ks arbitrary: d) (auto split: if_splits)

section \<open>Grants and rotation make progress\<close>

lemma issue_simps [simp]:
  "ep_now (issue_grant gid w sc vu i au ch ep) = ep_now ep" "ep_due (issue_grant gid w sc vu i au ch ep) = ep_due ep"
  "ep_timers (issue_grant gid w sc vu i au ch ep) = ep_timers ep"
  "ep_grant_ids (issue_grant gid w sc vu i au ch ep) = ep_grant_ids ep"
  "ep_keys_on (issue_grant gid w sc vu i au ch ep) = ep_keys_on ep"
  "ep_sealed (issue_grant gid w sc vu i au ch ep) = ep_sealed ep"
  "ep_epochs (issue_grant gid w sc vu i au ch ep) =
     foldl (\<lambda>d sc. dsetdefault sc 0 d) (ep_epochs ep) (key_scopes ep sc au)"
  "ep_grants_issued (issue_grant gid w sc vu i au ch ep) = dset gid \<lparr>g_grantee = w, g_scope = sc, g_valid_until = vu,
     g_audience = au, g_keys = key_scopes ep sc au, g_chain = ch, g_ended = False\<rparr> (ep_grants_issued ep)"
  "ep_sessions (issue_grant gid w sc vu i au ch ep) = ep_sessions ep"
  "ep_t_rotate (issue_grant gid w sc vu i au ch ep) = ep_t_rotate ep"
  "ep_last_rotated (issue_grant gid w sc vu i au ch ep) = ep_last_rotated ep"
  by (simp_all add: issue_grant_def Let_def sends)

lemma keys_inv_issue: "keys_inv ep \<Longrightarrow> keys_inv (issue_grant gid w sc vu i au ch ep)"
  using key_scopes_cong [of "issue_grant gid w sc vu i au ch ep" ep]
  by (auto simp: keys_inv_def dict.distinct_keys_put setdefault_keys simp del: not_None_eq)

lemma keys_inv_ddel: "keys_inv ep \<Longrightarrow> keys_inv (ep\<lparr>ep_grants_issued := ddel gid (ep_grants_issued ep), ep_grant_ids := r\<rparr>)"
  using key_scopes_cong [of "ep\<lparr>ep_grants_issued := ddel gid (ep_grants_issued ep), ep_grant_ids := r\<rparr>" ep]
  by (auto simp: keys_inv_def dict.distinct_keys_del simp del: not_None_eq)

text \<open>What one or several regrants may change.\<close>

definition regranted :: "nat \<Rightarrow> endpoint \<Rightarrow> endpoint \<Rightarrow> bool" where
  "regranted n ep ep' \<longleftrightarrow> keys_inv ep' \<and> unended ep' \<le> unended ep \<and> ep_epochs ep' = ep_epochs ep
     \<and> length (ep_grants_issued ep') \<le> length (ep_grants_issued ep) \<and> ep_due ep' = ep_due ep
     \<and> length (ep_grant_ids ep) \<le> n + length (ep_grant_ids ep') \<and> ep_timers ep' = ep_timers ep
     \<and> ep_now ep' = ep_now ep \<and> same_core ep ep'"

lemma regrant_one_spec:
  assumes "keys_inv ep" "dget (ep_grants_issued ep) gid \<noteq> None" "ep_grant_ids ep \<noteq> []"
  shows "\<exists>ep'. regrant_one scopes gid ep = Some ep' \<and> regranted 1 ep ep'
    \<and> (\<forall>k. k \<noteq> gid \<longrightarrow> dget (ep_grants_issued ep) k \<noteq> None \<longrightarrow> dget (ep_grants_issued ep') k \<noteq> None)"
proof -
  obtain g where g: "dget (ep_grants_issued ep) gid = Some g" using assms(2) by blast
  obtain new rest where ids: "ep_grant_ids ep = new # rest" using assms(3) by (cases "ep_grant_ids ep") auto
  show ?thesis
  proof (cases "g_valid_until g \<le> ep_now ep \<or> scopes \<inter> set (g_keys g) = {}")
    case True
    with g assms(1) show ?thesis by (auto simp: regrant_one_def regranted_def)
  next
    case False
    let ?e = "ep\<lparr>ep_grants_issued := ddel gid (ep_grants_issued ep), ep_grant_ids := rest\<rparr>"
    let ?ep' = "issue_grant new (g_grantee g) (g_scope g) (g_valid_until g) gid (g_audience g) (gid # g_chain g) ?e"
    have ks: "key_scopes ?e (g_scope g) (g_audience g) = g_keys g"
      using assms(1) g key_scopes_cong [of ?e ep] by (auto simp: keys_inv_def)
    have keyed: "g_keys g \<noteq> [] \<and> \<not> g_ended g" and ep: "\<And>sc. sc \<in> set (g_keys g) \<Longrightarrow> dget (ep_epochs ep) sc \<noteq> None"
      using False assms(1) g by (force simp: keys_inv_def)+
    let ?P = "\<lambda>g. g_keys g \<noteq> [] \<and> \<not> g_ended g"
    have "unended ?ep' \<le> unended ep"
      using count_ddel_less [of "ep_grants_issued ep" gid g ?P, OF g keyed]
        count_dset [of ?P new "\<lparr>g_grantee = g_grantee g, g_scope = g_scope g, g_valid_until = g_valid_until g,
          g_audience = g_audience g, g_keys = g_keys g, g_chain = gid # g_chain g, g_ended = False\<rparr>"
          "ddel gid (ep_grants_issued ep)"]
      by (simp add: unended_def ks split: if_splits)
    moreover have "length (ep_grants_issued ?ep') \<le> length (ep_grants_issued ep)"
      using length_ddel_less [of "ep_grants_issued ep" gid] g by (simp add: length_dset ks)
    moreover have "ep_epochs ?ep' = ep_epochs ep"
      by (simp add: ks setdefault_present ep)
    moreover have "keys_inv ?ep'"
      by (rule keys_inv_issue) (rule keys_inv_ddel [OF assms(1)])
    moreover have "regrant_one scopes gid ep = Some ?ep'"
      using False g ids by (simp add: regrant_one_def)
    ultimately show ?thesis
      by (auto simp: regranted_def ids)
  qed
qed

lemma regranted_trans: "regranted n a b \<Longrightarrow> regranted m b c \<Longrightarrow> regranted (n + m) a c"
  by (auto simp: regranted_def intro: same_core_trans)

lemma regrant_all_spec:
  "keys_inv ep \<Longrightarrow> distinct gids \<Longrightarrow> (\<And>k. k \<in> set gids \<Longrightarrow> dget (ep_grants_issued ep) k \<noteq> None)
    \<Longrightarrow> length gids \<le> length (ep_grant_ids ep)
    \<Longrightarrow> \<exists>ep'. regrant_all scopes gids ep = Some ep' \<and> regranted (length gids) ep ep'"
proof (induction gids arbitrary: ep)
  case Nil
  then show ?case by (simp add: regranted_def)
next
  case (Cons gid gids)
  then have "ep_grant_ids ep \<noteq> []" by auto
  with regrant_one_spec [OF Cons.prems(1), of gid scopes] Cons.prems(3) obtain e1 where
    e1: "regrant_one scopes gid ep = Some e1" "regranted 1 ep e1"
      "\<And>k. k \<noteq> gid \<Longrightarrow> dget (ep_grants_issued ep) k \<noteq> None \<Longrightarrow> dget (ep_grants_issued e1) k \<noteq> None"
    by (auto simp del: not_None_eq)
  have "\<exists>ep'. regrant_all scopes gids e1 = Some ep' \<and> regranted (length gids) e1 ep'"
  proof (rule Cons.IH)
    show "keys_inv e1" "length gids \<le> length (ep_grant_ids e1)"
      using e1(2) Cons.prems(4) by (simp_all add: regranted_def)
    show "k \<in> set gids \<Longrightarrow> dget (ep_grants_issued e1) k \<noteq> None" for k
      using e1(3) [of k] Cons.prems(2,3) by auto
  qed (use Cons.prems(2) in simp)
  then obtain e2 where "regrant_all scopes gids e1 = Some e2" "regranted (length gids) e1 e2" by blast
  with e1(1) regranted_trans [OF e1(2)] show ?case by fastforce
qed

lemma regrant_carrying_spec:
  assumes "keys_inv ep" "length (ep_grants_issued ep) \<le> length (ep_grant_ids ep)"
  shows "\<exists>ep'. regrant_carrying scopes ep = Some ep' \<and> regranted (length (ep_grants_issued ep)) ep ep'"
proof (cases "scopes = {}")
  case True
  then show ?thesis using assms by (auto simp: regrant_carrying_def regranted_def)
next
  case False
  have "distinct (dsorted (ep_grants_issued ep))"
    using assms(1) by (simp add: dsorted_def keys_inv_def)
  moreover have "k \<in> set (dsorted (ep_grants_issued ep)) \<Longrightarrow> dget (ep_grants_issued ep) k \<noteq> None" for k
    using dget_None_keys [of "ep_grants_issued ep" k] by auto
  ultimately have "\<exists>ep'. regrant_all scopes (dsorted (ep_grants_issued ep)) ep = Some ep'
      \<and> regranted (length (dsorted (ep_grants_issued ep))) ep ep'"
    using assms by (intro regrant_all_spec) (simp_all add: dsorted_def)
  with False show ?thesis
    by (simp add: regrant_carrying_def dsorted_def)
qed


section \<open>One turn of the clock\<close>

text \<open>What every part of a turn keeps: the measure does not grow.\<close>

definition progress :: "endpoint \<Rightarrow> endpoint \<Rightarrow> bool" where
  "progress ep ep' \<longleftrightarrow> keys_inv ep' \<and> length (ep_epochs ep') = length (ep_epochs ep) \<and> unended ep' \<le> unended ep
     \<and> length (ep_timers ep') \<le> length (ep_timers ep)
     \<and> (unended ep' = unended ep \<longrightarrow> length (ep_due ep') \<le> length (ep_due ep))
     \<and> length (ep_grants_issued ep') \<le> length (ep_grants_issued ep) \<and> set (ep_timers ep') \<subseteq> set (ep_timers ep)"

lemma progress_trans: "progress a b \<Longrightarrow> progress b c \<Longrightarrow> progress a c"
  by (auto simp: progress_def)

lemma length_due: assumes "keys_inv ep" shows "length (ep_due ep) \<le> length (ep_epochs ep)"
proof -
  have sub: "set (dkeys (ep_due ep)) \<subseteq> set (dkeys (ep_epochs ep))"
  proof
    fix sc assume "sc \<in> set (dkeys (ep_due ep))"
    then have "dget (ep_due ep) sc \<noteq> None" by (simp add: dget_None_keys)
    with assms have "dget (ep_epochs ep) sc \<noteq> None" by (simp add: keys_inv_def del: not_None_eq)
    then show "sc \<in> set (dkeys (ep_epochs ep))" by (simp add: dget_None_keys)
  qed
  have "length (ep_due ep) = card (set (dkeys (ep_due ep)))"
    using assms by (metis keys_inv_def distinct_card length_map)
  also have "\<dots> \<le> card (set (dkeys (ep_epochs ep)))" by (rule card_mono) (use sub in auto)
  also have "\<dots> \<le> length (ep_epochs ep)" by (metis card_length length_map)
  finally show ?thesis .
qed

lemma progress_work:
  assumes "progress ep ep'"
  shows "work ep' \<le> work ep"
    and "unended ep' < unended ep \<or> length (ep_timers ep') < length (ep_timers ep)
      \<or> length (ep_due ep') < length (ep_due ep) \<Longrightarrow> work ep' < work ep"
proof -
  let ?E = "length (ep_epochs ep)"
  have E: "length (ep_epochs ep') = ?E" and T: "length (ep_timers ep') \<le> length (ep_timers ep)"
    and D: "length (ep_due ep') \<le> ?E"
    using assms length_due [of ep'] by (auto simp: progress_def)
  have lt: "work ep' < work ep" if "unended ep' < unended ep"
  proof -
    have "Suc (unended ep') * Suc ?E \<le> unended ep * Suc ?E"
      by (rule mult_le_mono1) (use that in simp)
    with E T D show ?thesis by (simp add: work_def)
  qed
  have eq: "unended ep' < unended ep \<or> unended ep' = unended ep" using assms by (auto simp: progress_def)
  show "work ep' \<le> work ep"
    using eq lt assms by (auto simp: work_def progress_def)
  show "work ep' < work ep" if "unended ep' < unended ep \<or> length (ep_timers ep') < length (ep_timers ep)
      \<or> length (ep_due ep') < length (ep_due ep)"
    using eq lt that assms by (auto simp: work_def progress_def)
qed

lemma regranted_progress: "regranted n a b \<Longrightarrow> progress a b"
  by (auto simp: regranted_def progress_def)

text \<open>Making the scopes of a grant due, and ending the grants that expired.\<close>

definition due_grows :: "(string, nat) dict \<Rightarrow> (string, int) dict \<Rightarrow> (string, int) dict \<Rightarrow> bool" where
  "due_grows epochs d d' \<longleftrightarrow> distinct (dkeys d') \<and> (\<forall>sc t. dget d sc = Some t \<longrightarrow> dget d' sc = Some t)
     \<and> (\<forall>sc. dget d' sc \<noteq> None \<longrightarrow> dget epochs sc \<noteq> None)"

definition due_only :: "endpoint \<Rightarrow> endpoint \<Rightarrow> bool" where
  "due_only ep ep' \<longleftrightarrow> (\<exists>d. ep' = ep\<lparr>ep_due := d\<rparr> \<and> due_grows (ep_epochs ep) (ep_due ep) d)"

lemma keys_inv_due: assumes "keys_inv ep" "due_only ep ep'" shows "keys_inv ep'"
proof -
  obtain d where d: "ep' = ep\<lparr>ep_due := d\<rparr>" "distinct (dkeys d)" "\<And>sc. dget d sc \<noteq> None \<Longrightarrow> dget (ep_epochs ep) sc \<noteq> None"
    using assms(2) unfolding due_only_def due_grows_def by blast
  have "key_scopes ep' = key_scopes ep" by (rule key_scopes_cong) (simp_all add: d(1))
  with assms(1) d(2,3) show ?thesis
    unfolding keys_inv_def by (simp add: d(1) del: not_None_eq)
qed

lemma due_only_refl: "keys_inv ep \<Longrightarrow> due_only ep ep"
  unfolding due_only_def due_grows_def keys_inv_def by (rule exI [of _ "ep_due ep"]) simp

lemma due_grows_trans: "due_grows E a b \<Longrightarrow> due_grows E b c \<Longrightarrow> due_grows E a c"
  unfolding due_grows_def by blast

lemma due_only_trans: assumes "due_only a b" "due_only b c" shows "due_only a c"
proof -
  obtain d where d: "b = a\<lparr>ep_due := d\<rparr>" "due_grows (ep_epochs a) (ep_due a) d"
    using assms(1) unfolding due_only_def by blast
  obtain e where e: "c = b\<lparr>ep_due := e\<rparr>" "due_grows (ep_epochs b) (ep_due b) e"
    using assms(2) unfolding due_only_def by blast
  have "c = a\<lparr>ep_due := e\<rparr>" "due_grows (ep_epochs a) (ep_due a) e"
    using d e due_grows_trans [OF d(2), of e] by simp_all
  then show ?thesis unfolding due_only_def by blast
qed

lemma due_scope_only:
  assumes "keys_inv ep" "dget (ep_epochs ep) sc \<noteq> None"
  shows "due_only ep (due_scope keep ep sc)"
proof (cases "sc \<in> set keep \<or> dget (ep_due ep) sc \<noteq> None")
  case True
  with assms show ?thesis by (simp only: due_scope_def if_True due_only_refl)
next
  case False
  have "due_grows (ep_epochs ep) (ep_due ep) (dset sc t (ep_due ep))" for t
    using assms False unfolding due_grows_def keys_inv_def
    by (auto simp: dict.distinct_keys_put)
  moreover have "\<exists>t. due_scope keep ep sc = ep\<lparr>ep_due := dset sc t (ep_due ep)\<rparr>"
    using False by (auto simp: due_scope_def)
  ultimately show ?thesis unfolding due_only_def by blast
qed

lemma due_scopes_only:
  "keys_inv ep \<Longrightarrow> (\<And>sc. sc \<in> set scs \<Longrightarrow> dget (ep_epochs ep) sc \<noteq> None) \<Longrightarrow> due_only ep (foldl (due_scope keep) ep scs)"
proof (induction scs arbitrary: ep)
  case (Cons sc scs)
  have 1: "due_only ep (due_scope keep ep sc)"
    by (rule due_scope_only) (use Cons.prems in auto)
  have "due_only (due_scope keep ep sc) (foldl (due_scope keep) (due_scope keep ep sc) scs)"
    by (rule Cons.IH [OF keys_inv_due [OF Cons.prems(1) 1]]) (use Cons.prems(2) in \<open>simp add: due_scope_def\<close>)
  with due_only_trans [OF 1] show ?case by simp
qed (simp add: due_only_refl)

lemma end_grant_only:
  "keys_inv ep \<Longrightarrow> (\<And>sc. sc \<in> set (g_keys g) \<Longrightarrow> dget (ep_epochs ep) sc \<noteq> None) \<Longrightarrow> due_only ep (end_grant g keep ep)"
  by (simp add: end_grant_def due_only_refl due_scopes_only del: not_None_eq)


lemma due_only_simps:
  assumes "due_only ep ep'"
  shows "ep_grants_issued ep' = ep_grants_issued ep" "ep_epochs ep' = ep_epochs ep" "ep_timers ep' = ep_timers ep"
    "ep_now ep' = ep_now ep" "ep_grant_ids ep' = ep_grant_ids ep" "same_core ep ep'" "ep_keys_on ep' = ep_keys_on ep"
    "ep_sealed ep' = ep_sealed ep" "ep_out ep' = ep_out ep"
    "dget (ep_due ep) sc = Some t \<Longrightarrow> dget (ep_due ep') sc = Some t"
  using assms by (auto simp: due_only_def due_grows_def)

text \<open>An iteration of the loop over the expired grants.\<close>

definition expired_now :: "endpoint \<Rightarrow> string \<Rightarrow> bool" where
  "expired_now ep gid \<longleftrightarrow> (case dget (ep_grants_issued ep) gid of
     Some g \<Rightarrow> g_keys g \<noteq> [] \<and> \<not> g_ended g \<and> g_valid_until g \<le> ep_now ep | None \<Rightarrow> False)"

definition ends :: "endpoint \<Rightarrow> endpoint \<Rightarrow> bool" where
  "ends ep ep' \<longleftrightarrow> progress ep ep' \<and> same_core ep ep' \<and> ep_grant_ids ep' = ep_grant_ids ep
     \<and> dkeys (ep_grants_issued ep') = dkeys (ep_grants_issued ep) \<and> ep_epochs ep' = ep_epochs ep
     \<and> (\<forall>sc t. dget (ep_due ep) sc = Some t \<longrightarrow> dget (ep_due ep') sc = Some t)
     \<and> (\<forall>gid. unended ep' = unended ep \<longrightarrow> expired_now ep gid \<longrightarrow> expired_now ep' gid)"

lemma keys_inv_mark:
  assumes "keys_inv ep" "dget (ep_grants_issued ep) gid = Some g" "g_valid_until g \<le> ep_now ep"
  shows "keys_inv (mark_ended gid ep)"
proof -
  have "key_scopes (mark_ended gid ep) = key_scopes ep"
    by (rule key_scopes_cong) (simp_all add: mark_ended_def)
  then show ?thesis
    using assms unfolding keys_inv_def by (auto simp: mark_ended_def simp del: not_None_eq)
qed

lemma ends_one:
  assumes "keys_inv ep" "dget (ep_grants_issued ep) gid = Some g" "expired_now ep gid"
  shows "ends ep (mark_ended gid (end_grant g [] ep))" "unended (mark_ended gid (end_grant g [] ep)) < unended ep"
proof -
  let ?e = "end_grant g [] ep"
  have d: "due_only ep ?e"
    by (rule end_grant_only [OF assms(1)]) (use assms(1,2) in \<open>auto simp: keys_inv_def simp del: not_None_eq\<close>)
  note e = due_only_simps [OF d]
  have x: "g_keys g \<noteq> []" "\<not> g_ended g" "g_valid_until g \<le> ep_now ep"
    using assms(2,3) by (simp_all add: expired_now_def)
  have k: "keys_inv (mark_ended gid ?e)"
    by (rule keys_inv_mark [OF keys_inv_due [OF assms(1) d]]) (use assms(2) x(3) e in auto)
  show u: "unended (mark_ended gid ?e) < unended ep"
    using count_dset_less [of "ep_grants_issued ep" gid g "\<lambda>g. g_keys g \<noteq> [] \<and> \<not> g_ended g" "g\<lparr>g_ended := True\<rparr>"] assms(2) x e
    by (simp add: unended_def mark_ended_def dmodify_def)
  have ks: "dkeys (ep_grants_issued (mark_ended gid ?e)) = dkeys (ep_grants_issued ep)"
    by (simp add: mark_ended_def e(1))
  then have "length (ep_grants_issued (mark_ended gid ?e)) = length (ep_grants_issued ep)"
    by (metis length_map)
  then have "progress ep (mark_ended gid ?e)"
    using k u e(2,3) by (simp add: progress_def mark_ended_def)
  then show "ends ep (mark_ended gid ?e)"
    using u ks e same_core_trans [OF e(6) same_core_mark] by (simp add: ends_def mark_ended_def)
qed

lemma ends_refl: "keys_inv ep \<Longrightarrow> ends ep ep"
  by (simp add: ends_def progress_def)

lemma ends_trans: "ends a b \<Longrightarrow> ends b c \<Longrightarrow> ends a c"
  unfolding ends_def by (auto intro: progress_trans same_core_trans simp: progress_def)

lemma ends_keys: "ends a b \<Longrightarrow> keys_inv b" "ends a b \<Longrightarrow> dkeys (ep_grants_issued b) = dkeys (ep_grants_issued a)"
  "ends a b \<Longrightarrow> unended b \<le> unended a"
  "ends a b \<Longrightarrow> unended b = unended a \<Longrightarrow> expired_now a gid \<Longrightarrow> expired_now b gid"
  by (auto simp: ends_def progress_def)

lemma end_expired_spec:
  "keys_inv ep \<Longrightarrow> set gids \<subseteq> set (dkeys (ep_grants_issued ep))
    \<Longrightarrow> \<exists>ep'. end_expired gids ep = Some ep' \<and> ends ep ep' \<and> (list_ex (expired_now ep) gids \<longrightarrow> unended ep' < unended ep)"
proof (induction gids arbitrary: ep)
  case Nil
  then show ?case by (simp add: ends_refl)
next
  case (Cons gid gids)
  have "dget (ep_grants_issued ep) gid \<noteq> None" using Cons.prems(2) dget_None_keys [of "ep_grants_issued ep" gid] by simp
  then obtain g where g: "dget (ep_grants_issued ep) gid = Some g" by blast
  let ?e = "if expired_now ep gid then mark_ended gid (end_grant g [] ep) else ep"
  have s: "end_expired (gid # gids) ep = end_expired gids ?e"
    by (simp add: g expired_now_def)
  have e: "ends ep ?e" "expired_now ep gid \<Longrightarrow> unended ?e < unended ep"
    using ends_one [OF Cons.prems(1) g] ends_refl [OF Cons.prems(1)] by auto
  have "set gids \<subseteq> set (dkeys (ep_grants_issued ?e))"
    unfolding ends_keys(2) [OF e(1)] using Cons.prems(2) by simp
  then obtain ep' where ep': "end_expired gids ?e = Some ep'" "ends ?e ep'"
      "list_ex (expired_now ?e) gids \<Longrightarrow> unended ep' < unended ?e"
    using Cons.IH [OF ends_keys(1) [OF e(1)]] by blast
  have "unended ep' < unended ep" if "list_ex (expired_now ep) (gid # gids)"
  proof (cases "unended ?e = unended ep")
    case True
    then have "\<not> expired_now ep gid" using e(2) by fastforce
    then show ?thesis using that ep'(3) by simp
  next
    case False
    then show ?thesis using ends_keys(3) [OF e(1)] ends_keys(3) [OF ep'(2)] by linarith
  qed
  moreover have "end_expired (gid # gids) ep = Some ep'" using s ep'(1) by simp
  ultimately show ?case using ends_trans [OF e(1) ep'(2)] by blast
qed


text \<open>Rotation: every due scope leaves \<open>due\<close>, and the grants that carry one are issued anew.\<close>

lemma keys_inv_rotated:
  assumes "keys_inv ep"
  shows "keys_inv (emit x (ep\<lparr>ep_due := ddel sc (ep_due ep), ep_epochs := dset sc e (ep_epochs ep), ep_last_rotated := l\<rparr>))"
proof -
  have "key_scopes (emit x (ep\<lparr>ep_due := ddel sc (ep_due ep), ep_epochs := dset sc e (ep_epochs ep), ep_last_rotated := l\<rparr>))
      = key_scopes ep"
    by (rule key_scopes_cong) simp_all
  with assms show ?thesis
    unfolding keys_inv_def by (simp add: dict.distinct_keys_del del: not_None_eq)
qed

lemma rotate_scopes_spec:
  "keys_inv ep \<Longrightarrow> distinct scs \<Longrightarrow> (\<And>sc. sc \<in> set scs \<Longrightarrow> dget (ep_due ep) sc \<noteq> None)
    \<Longrightarrow> \<exists>ep'. rotate_scopes scs ep = Some ep' \<and> progress ep ep' \<and> length (ep_due ep') + length scs \<le> length (ep_due ep)
       \<and> ep_grant_ids ep' = ep_grant_ids ep \<and> ep_grants_issued ep' = ep_grants_issued ep"
proof (induction scs arbitrary: ep)
  case Nil
  then show ?case by (simp add: progress_def)
next
  case (Cons sc scs)
  have "dget (ep_due ep) sc \<noteq> None" using Cons.prems(3) by simp
  with Cons.prems(1) have "dget (ep_epochs ep) sc \<noteq> None" by (simp add: keys_inv_def del: not_None_eq)
  then obtain e where e: "dget (ep_epochs ep) sc = Some e" by blast
  let ?e = "emit (KeysRotated sc (Suc e)) (ep\<lparr>ep_due := ddel sc (ep_due ep), ep_epochs := dset sc (Suc e) (ep_epochs ep),
          ep_last_rotated := dset sc (ep_now ep) (ep_last_rotated ep)\<rparr>)"
  have s: "rotate_scopes (sc # scs) ep = rotate_scopes scs ?e" by (simp add: e)
  have less: "length (ddel sc (ep_due ep)) < length (ep_due ep)"
    by (rule length_ddel_less) (use Cons.prems(3) in simp)
  have "progress ep ?e"
    using keys_inv_rotated [OF Cons.prems(1)] less by (simp add: progress_def unended_def length_dset e)
  moreover have "\<exists>ep'. rotate_scopes scs ?e = Some ep' \<and> progress ?e ep' \<and> length (ep_due ep') + length scs \<le> length (ep_due ?e)
       \<and> ep_grant_ids ep' = ep_grant_ids ?e \<and> ep_grants_issued ep' = ep_grants_issued ?e"
  proof (rule Cons.IH)
    show "dget (ep_due ?e) sc' \<noteq> None" if "sc' \<in> set scs" for sc'
      using that Cons.prems(2,3) by (auto simp del: not_None_eq)
  qed (use Cons.prems(2) keys_inv_rotated [OF Cons.prems(1)] in simp_all)
  then obtain ep' where "rotate_scopes scs ?e = Some ep'" "progress ?e ep'" "length (ep_due ep') + length scs \<le> length (ep_due ?e)"
    "ep_grant_ids ep' = ep_grant_ids ?e" "ep_grants_issued ep' = ep_grants_issued ?e" by blast
  ultimately show ?case
    unfolding s using less progress_trans by (intro exI [of _ ep']) auto
qed

lemma due_now_spec:
  assumes "keys_inv ep"
  shows "distinct (due_now ep)" "sc \<in> set (due_now ep) \<Longrightarrow> dget (ep_due ep) sc \<noteq> None"
    "dget (ep_due ep) sc = Some t \<Longrightarrow> t \<le> ep_now ep \<Longrightarrow> sc \<in> set (due_now ep)"
proof -
  have d: "distinct (dkeys (ep_due ep))" using assms by (simp add: keys_inv_def)
  then have "distinct (map fst (filter (\<lambda>(sc, t). t \<le> ep_now ep) (ep_due ep)))"
    by (meson distinct_map_filter)
  then show "distinct (due_now ep)" by (simp add: due_now_def)
  show "sc \<in> set (due_now ep) \<Longrightarrow> dget (ep_due ep) sc \<noteq> None"
    using dget_None_keys [of "ep_due ep" sc] by (auto simp: due_now_def intro: rev_image_eqI)
  show "sc \<in> set (due_now ep)" if "dget (ep_due ep) sc = Some t" "t \<le> ep_now ep"
    using map_of_SomeD [OF that(1)] that(2) by (force simp: due_now_def)
qed

lemma rotate_due_spec:
  assumes "keys_inv ep" "ep_epochs ep = [] \<or> length (ep_grants_issued ep) \<le> length (ep_grant_ids ep)"
  shows "\<exists>ep'. rotate_due ep = Some ep' \<and> progress ep ep' \<and> length (ep_due ep') + length (due_now ep) \<le> length (ep_due ep)
    \<and> length (ep_grant_ids ep) \<le> length (ep_grants_issued ep) + length (ep_grant_ids ep')"
proof -
  obtain e1 where e1: "rotate_scopes (due_now ep) ep = Some e1" "progress ep e1"
      "length (ep_due e1) + length (due_now ep) \<le> length (ep_due ep)" "ep_grant_ids e1 = ep_grant_ids ep"
      "ep_grants_issued e1 = ep_grants_issued ep"
    using rotate_scopes_spec [OF assms(1) due_now_spec(1,2) [OF assms(1)]] by blast
  show ?thesis
  proof (cases "due_now ep = []")
    case True
    then show ?thesis using e1 by (auto simp: rotate_due_def regrant_carrying_def)
  next
    case False
    then have "ep_due ep \<noteq> []" by (auto simp: due_now_def)
    then have "ep_epochs ep \<noteq> []" using length_due [OF assms(1)] by fastforce
    then obtain e2 where "regrant_carrying (set (due_now ep)) e1 = Some e2" "regranted (length (ep_grants_issued e1)) e1 e2"
      using regrant_carrying_spec [of e1] e1 assms(2) by (auto simp: progress_def)
    then show ?thesis
      using e1 regranted_progress progress_trans by (intro exI [of _ e2]) (auto simp: rotate_due_def regranted_def)
  qed
qed


text \<open>A whole turn.\<close>

definition budget :: "endpoint \<Rightarrow> bool" where
  "budget ep \<longleftrightarrow> ep_epochs ep = [] \<or> length (ep_grants_issued ep) * work ep \<le> length (ep_grant_ids ep)"

lemma ep_inv_later: "ep_inv ep \<Longrightarrow> ep_now ep \<le> n \<Longrightarrow> ep_inv (ep\<lparr>ep_now := n\<rparr>)"
proof -
  have "ok_at (ep_now ep) i so a \<Longrightarrow> ep_now ep \<le> n \<Longrightarrow> ok_at n i so a" for i so a
    unfolding ok_at_def by fastforce
  then show "ep_inv ep \<Longrightarrow> ep_now ep \<le> n \<Longrightarrow> ep_inv (ep\<lparr>ep_now := n\<rparr>)"
    by (simp add: ep_inv_def cfg_ok_def)
qed

lemma fired_simps:
  assumes "fired a b"
  shows "ep_now b = ep_now a" "ep_grants_issued b = ep_grants_issued a" "ep_due b = ep_due a" "ep_epochs b = ep_epochs a"
    "ep_grant_ids b = ep_grant_ids a" "ep_keys_on b = ep_keys_on a" "ep_sealed b = ep_sealed a"
    "set (ep_timers b) \<subseteq> set (ep_timers a)"
  using assms by (simp_all add: fired_def)

lemma fired_progress:
  assumes "fired a b" "keys_inv a" "length (ep_timers b) \<le> length (ep_timers a)"
  shows "progress a b" "expired_now b gid = expired_now a gid"
proof -
  note f = fired_simps [OF assms(1)]
  have "keys_inv b" by (rule keys_inv_cong [OF f(2,3,4,6,7) _ assms(2)]) (simp add: f(1))
  with assms(3) f(8) show "progress a b" by (simp add: f progress_def unended_def)
  show "expired_now b gid = expired_now a gid" unfolding expired_now_def f ..
qed

lemma min_list_in: "xs \<noteq> [] \<Longrightarrow> min_list xs \<in> set xs"
proof (induction xs)
  case (Cons x xs)
  then show ?case by (cases xs) (auto simp: min_def)
qed simp

lemma instants_le: "x \<in> set (instants target ep) \<Longrightarrow> x \<le> target"
  by (auto simp: instants_def)

text \<open>The instant of a turn is that of a timer, of an expiring grant or of a due scope.\<close>

lemma instants_cases:
  assumes "keys_inv ep" "m \<in> set (instants target ep)"
  obtains t where "t \<in> set (ep_timers ep)" "tm_deadline t = m"
  | gid g where "dget (ep_grants_issued ep) gid = Some g" "g_keys g \<noteq> []" "\<not> g_ended g" "g_valid_until g = m"
  | sc where "dget (ep_due ep) sc = Some m"
proof -
  have dk: "distinct (dkeys (ep_grants_issued ep))" "distinct (dkeys (ep_due ep))"
    using assms(1) by (simp_all add: keys_inv_def)
  from assms(2) consider "m \<in> tm_deadline ` set (ep_timers ep)"
    | g where "g \<in> snd ` set (ep_grants_issued ep)" "g_keys g \<noteq> []" "\<not> g_ended g" "g_valid_until g = m"
    | "m \<in> snd ` set (ep_due ep)"
    by (auto simp: instants_def)
  then show thesis
  proof cases
    case 2
    then obtain gid where "(gid, g) \<in> set (ep_grants_issued ep)" by auto
    with dk(1) have "dget (ep_grants_issued ep) gid = Some g" by simp
    with 2 that(2) show thesis by blast
  next
    case 3
    then obtain sc where "(sc, m) \<in> set (ep_due ep)" by auto
    with dk(2) have "dget (ep_due ep) sc = Some m" by simp
    with that(3) show thesis by blast
  qed (use that(1) in blast)
qed

lemma settle_spec:
  assumes inv: "ep_inv ep" "keys_inv ep" and ne: "instants target ep \<noteq> []" and now: "ep_now ep \<le> target"
    and ids: "ep_epochs ep = [] \<or> length (ep_grants_issued ep) \<le> length (ep_grant_ids ep)"
  shows "\<exists>ep'. settle target ep = Some ep' \<and> ep_inv ep' \<and> progress ep ep' \<and> work ep' < work ep \<and> ep_now ep \<le> ep_now ep'
    \<and> ep_now ep' \<le> target \<and> length (ep_grant_ids ep) \<le> length (ep_grants_issued ep) + length (ep_grant_ids ep')
    \<and> ep_keys_on ep' = ep_keys_on ep"
proof -
  let ?m = "min_list (instants target ep)"
  let ?n = "max (ep_now ep) ?m"
  let ?e0 = "ep\<lparr>ep_now := ?n\<rparr>"
  have m: "?m \<in> set (instants target ep)" by (rule min_list_in [OF ne])
  then have n: "ep_now ep \<le> ?n" "?n \<le> target" using now instants_le [OF m] by simp_all
  have k0: "keys_inv ?e0" by (rule keys_inv_cong [OF _ _ _ _ _ _ inv(2)]) simp_all
  have p0: "progress ep ?e0" using k0 by (simp add: progress_def unended_def)
  obtain e1 where e1: "fire_due ?e0 = Some e1" "ep_inv e1" "fired ?e0 e1"
      "length (ep_timers e1) \<le> length (ep_timers ?e0)" "due_timers ?e0 \<noteq> [] \<Longrightarrow> length (ep_timers e1) < length (ep_timers ?e0)"
    using fire_due_spec [OF ep_inv_later [OF inv(1) n(1)]] by blast
  have p1: "progress ?e0 e1" and x1: "\<And>gid. expired_now e1 gid = expired_now ?e0 gid"
    using fired_progress [OF e1(3) k0 e1(4)] by blast+
  have k1: "keys_inv e1" using p1 by (simp add: progress_def)
  obtain e2 where e2: "end_expired (dsorted (ep_grants_issued e1)) e1 = Some e2" "ends e1 e2"
      "list_ex (expired_now e1) (dsorted (ep_grants_issued e1)) \<Longrightarrow> unended e2 < unended e1"
    using end_expired_spec [OF k1, of "dsorted (ep_grants_issued e1)"] by auto
  have p2: "progress e1 e2" using e2(2) by (simp add: ends_def)
  have g2: "length (ep_grants_issued e2) = length (ep_grants_issued ep)" "ep_grant_ids e2 = ep_grant_ids ep"
      "ep_epochs e2 = ep_epochs ep" "ep_now e2 = ?n"
    using e1(3) e2(2) map_eq_imp_length_eq [OF ends_keys(2) [OF e2(2)]]
    by (simp_all add: fired_def ends_def same_core_def)
  have ids2: "ep_epochs e2 = [] \<or> length (ep_grants_issued e2) \<le> length (ep_grant_ids e2)"
    using ids by (simp only: g2)
  obtain e3 where e3: "rotate_due e2 = Some e3" "progress e2 e3"
      "length (ep_due e3) + length (due_now e2) \<le> length (ep_due e2)"
      "length (ep_grant_ids e2) \<le> length (ep_grants_issued e2) + length (ep_grant_ids e3)"
    using rotate_due_spec [OF ends_keys(1) [OF e2(2)] ids2] by blast
  have w: "work e1 \<le> work ?e0" "work e2 \<le> work e1" "work e3 \<le> work e2"
    using progress_work(1) p1 p2 e3(2) by blast+
  have lt: "work e1 < work ?e0 \<or> work e2 < work e1 \<or> work e3 < work e2"
    using inv(2) m
  proof (cases rule: instants_cases)
    case (1 t)
    then have "tm_deadline t \<le> ?n" by simp
    with 1(1) have "due_timers ?e0 \<noteq> []" by (auto simp: due_timers_def filter_empty_conv)
    then show ?thesis using progress_work(2) [OF p1] e1(5) by blast
  next
    case (2 gid g)
    then have "expired_now e1 gid" "gid \<in> set (dsorted (ep_grants_issued e1))"
      using e1(3) dget_in_keys [of "ep_grants_issued ep" gid g] by (auto simp: x1 expired_now_def fired_def)
    then have "unended e2 < unended e1" using e2(3) by (auto simp: list_ex_iff)
    then show ?thesis using progress_work(2) [OF p2] by blast
  next
    case (3 sc)
    then have "dget (ep_due e1) sc = Some ?m" using e1(3) by (simp add: fired_def)
    then have "dget (ep_due e2) sc = Some ?m" using e2(2) by (simp add: ends_def)
    then have "sc \<in> set (due_now e2)"
      by (rule due_now_spec(3) [OF ends_keys(1) [OF e2(2)]]) (simp add: g2)
    then have "length (ep_due e3) < length (ep_due e2)" using e3(3) by (cases "due_now e2") auto
    then show ?thesis using progress_work(2) [OF e3(2)] by blast
  qed
  have "work ?e0 = work ep" by (simp add: work_def unended_def)
  moreover have "settle target ep = Some e3" using e1(1) e2(1) e3(1) by (simp add: settle_def Let_def)
  moreover have "ep_now e3 = ?n" using same_core_rotate_due [OF e3(1)] g2(4) by (simp add: same_core_def)
  moreover have "ep_inv e3"
    using e1(2) e2(2) same_core_inv [OF same_core_rotate_due [OF e3(1)]] same_core_inv [of e1 e2] by (simp add: ends_def)
  moreover have "ep_keys_on e3 = ep_keys_on ep"
    using same_core_rotate_due [OF e3(1)] e2(2) fired_simps(6) [OF e1(3)] by (simp add: same_core_def ends_def)
  moreover have "progress ep e3" using p0 p1 p2 e3(2) progress_trans by blast
  ultimately show ?thesis using w lt n e3(4) by (auto simp: g2)
qed


text \<open>
  \<open>advance\<close> returns: by induction on the work left. At the end every timer that is left is still to come.
\<close>

lemma work_pos: assumes "instants target ep \<noteq> []" shows "0 < work ep"
proof (rule ccontr)
  assume "\<not> 0 < work ep"
  then have "unended ep = 0" "ep_timers ep = []" "ep_due ep = []" by (simp_all add: work_def)
  then have "instants target ep = []" unfolding instants_def unended_def length_0_conv by simp
  with assms show False by blast
qed

lemma budget_ids:
  assumes "budget ep" "instants target ep \<noteq> []"
  shows "ep_epochs ep = [] \<or> length (ep_grants_issued ep) \<le> length (ep_grant_ids ep)"
proof -
  have "length (ep_grants_issued ep) * 1 \<le> length (ep_grants_issued ep) * work ep"
    by (rule mult_le_mono2) (use work_pos [OF assms(2)] in simp)
  with assms(1) show ?thesis unfolding budget_def by linarith
qed

lemma budget_turn:
  assumes "progress a b" "work b < work a" "budget a"
    "length (ep_grant_ids a) \<le> length (ep_grants_issued a) + length (ep_grant_ids b)"
  shows "budget b"
proof (cases "ep_epochs a = []")
  case True
  then show ?thesis using assms(1) by (simp add: progress_def budget_def)
next
  case False
  let ?G = "length (ep_grants_issued a)"
  have "length (ep_grants_issued b) * work b \<le> ?G * work b"
    using assms(1) by (simp add: progress_def)
  moreover have "?G * work b + ?G \<le> ?G * work a"
    using mult_le_mono2 [of "Suc (work b)" "work a" ?G] assms(2) by simp
  ultimately show ?thesis using False assms(3,4) unfolding budget_def by linarith
qed

lemma advance_to_spec:
  "ep_inv ep \<Longrightarrow> keys_inv ep \<Longrightarrow> ep_now ep \<le> target \<Longrightarrow> budget ep
    \<Longrightarrow> \<exists>ep'. advance_to target ep = Some ep' \<and> ep_inv ep' \<and> keys_inv ep' \<and> ep_now ep' = target
       \<and> set (ep_timers ep') \<subseteq> set (ep_timers ep) \<and> (\<forall>t \<in> set (ep_timers ep'). target < tm_deadline t)
       \<and> length (ep_epochs ep') = length (ep_epochs ep) \<and> ep_keys_on ep' = ep_keys_on ep"
proof (induction "work ep" arbitrary: ep rule: less_induct)
  case less
  show ?case
  proof (cases "instants target ep = []")
    case True
    then have "\<forall>t \<in> set (ep_timers ep). target < tm_deadline t"
      by (auto simp: instants_def filter_empty_conv)
    moreover have "keys_inv (ep\<lparr>ep_now := target\<rparr>)"
      by (rule keys_inv_cong [OF _ _ _ _ _ _ less.prems(2)]) (use less.prems(3) in simp_all)
    moreover have "advance_to target ep = Some (ep\<lparr>ep_now := target\<rparr>)"
      using True by (simp add: advance_to.simps)
    ultimately show ?thesis using ep_inv_later [OF less.prems(1,3)] by simp
  next
    case False
    have ids: "ep_epochs ep = [] \<or> length (ep_grants_issued ep) \<le> length (ep_grant_ids ep)"
      by (rule budget_ids [OF less.prems(4) False])
    from settle_spec [OF less.prems(1,2) False less.prems(3) ids] obtain e1 where
      e1: "settle target ep = Some e1" "ep_inv e1" "progress ep e1" "work e1 < work ep" "ep_now e1 \<le> target"
        "length (ep_grant_ids ep) \<le> length (ep_grants_issued ep) + length (ep_grant_ids e1)"
        "ep_keys_on e1 = ep_keys_on ep" by blast
    have "keys_inv e1" "set (ep_timers e1) \<subseteq> set (ep_timers ep)" "length (ep_epochs e1) = length (ep_epochs ep)"
      using e1(3) by (simp_all add: progress_def)
    moreover have "advance_to target ep = advance_to target e1"
      by (subst advance_to.simps) (simp add: False e1(1))
    moreover note less.hyps [OF e1(4,2) _ e1(5) budget_turn [OF e1(3,4) less.prems(4) e1(6)]]
    ultimately show ?thesis using e1(7) by force
  qed
qed

lemma advance_spec:
  assumes "ep_inv ep" "keys_inv ep" "0 \<le> n" "budget ep"
  shows "\<exists>ep'. advance n ep = Some ep' \<and> ep_inv ep' \<and> keys_inv ep' \<and> ep_now ep' = ep_now ep + n
    \<and> set (ep_timers ep') \<subseteq> set (ep_timers ep) \<and> (\<forall>t \<in> set (ep_timers ep'). ep_now ep + n < tm_deadline t)
    \<and> length (ep_epochs ep') = length (ep_epochs ep) \<and> ep_keys_on ep' = ep_keys_on ep"
  using advance_to_spec [of ep "ep_now ep + n"] assms by (simp add: advance_def)

end
