(* ===== verification/Session_Machine.thy ===== *)
theory Session_Machine
  imports Session_Clock
begin

text \<open>
  The endpoint as a step machine: its invariant over all reachable states, its clock, and, for an
  endpoint without presence keys, that no event of the documented shape raises.
\<close>

lemma same_core_end_expired: "end_expired gids ep = Some ep' \<Longrightarrow> same_core ep ep'"
proof (induction gids arbitrary: ep)
  case (Cons gid gids)
  then obtain g where g: "end_expired gids (if g_keys g \<noteq> [] \<and> \<not> g_ended g \<and> g_valid_until g \<le> ep_now ep
      then mark_ended gid (end_grant g [] ep) else ep) = Some ep'"
    by (auto simp: bind_eq_Some_conv)
  have "same_core ep (mark_ended gid (end_grant g [] ep))"
    by (rule same_core_trans [OF same_core_end_grant same_core_mark])
  then have "same_core ep (if g_keys g \<noteq> [] \<and> \<not> g_ended g \<and> g_valid_until g \<le> ep_now ep
      then mark_ended gid (end_grant g [] ep) else ep)"
    by simp
  then show ?case using Cons.IH [OF g] by (rule same_core_trans)
qed simp

section \<open>The keys are kept by every event\<close>

text \<open>The engine of sessions does not touch grants and keys.\<close>

definition same_keys :: "endpoint \<Rightarrow> endpoint \<Rightarrow> bool" where
  "same_keys a b \<longleftrightarrow> ep_grants_issued b = ep_grants_issued a \<and> ep_due b = ep_due a \<and> ep_epochs b = ep_epochs a
     \<and> ep_keys_on b = ep_keys_on a \<and> ep_sealed b = ep_sealed a \<and> ep_now b = ep_now a \<and> ep_grant_ids b = ep_grant_ids a"

lemma same_keys_simps [simp]:
  "same_keys a a" "same_keys a (emit e b) = same_keys a b" "same_keys a (stop_timer i n q b) = same_keys a b"
  "same_keys a (start_timer i n d b) = same_keys a b" "same_keys a (stop_all i b) = same_keys a b"
  "same_keys a (upd i f b) = same_keys a b" "same_keys a (put_session s b) = same_keys a b"
  "same_keys a (b\<lparr>ep_grants_held := x5\<rparr>) = same_keys a b" "same_keys a (b\<lparr>ep_requests := x6\<rparr>) = same_keys a b"
  "same_keys a (b\<lparr>ep_pending_sent := x7\<rparr>) = same_keys a b" "same_keys a (b\<lparr>ep_tokens := x8\<rparr>) = same_keys a b"
  "same_keys a (b\<lparr>ep_seen_introductions := x9\<rparr>) = same_keys a b"
  "same_keys a (b\<lparr>ep_held_keys := x14\<rparr>) = same_keys a b" "same_keys a (b\<lparr>ep_out := x15\<rparr>) = same_keys a b"
  by (simp_all add: same_keys_def upd_def put_session_def)

lemma same_keys_end [simp]: "same_keys a (end_session i r m b) = same_keys a b"
  by (simp add: end_session_def Let_def split: option.split)

lemma keys_inv_same: "same_keys a b \<Longrightarrow> keys_inv a \<Longrightarrow> keys_inv b"
  by (rule keys_inv_cong [of b a]) (simp_all add: same_keys_def)

lemma same_keys_withdraw [simp]: "same_keys a (foldl withdraw b rs) = same_keys a b"
  by (induction rs arbitrary: b) (simp_all add: withdraw_def sends Let_def)

lemma same_keys_offer [simp]: "same_keys a (offer m b) = same_keys a b"
  by (simp add: offer_def)

lemma same_keys_invite: "same_keys ep (recv_invite m ep)"
  by (auto simp: recv_invite_def reject_invite_def Let_def sends simp flip: foldl_Cons split: list.split option.split)

lemma same_keys_handler: "session_handler i s m ep = Some ep' \<Longrightarrow> same_keys ep ep'"
  by (cases "m_type m") (auto simp: session_handler_def recv_progress_def recv_answer_def recv_reject_def recv_cancel_def
      recv_update_def recv_info_def recv_bye_def on_ringing_def on_queued_def on_other_status_def sends Let_def
      bind_eq_Some_conv split: if_splits option.splits prod.splits direction.splits)


lemma same_keys_trans: "same_keys a b \<Longrightarrow> same_keys b c \<Longrightarrow> same_keys a c"
  by (simp add: same_keys_def)

lemma same_keys_session: "recv_session m ep = Some ep' \<Longrightarrow> same_keys ep ep'"
  by (auto simp: recv_session_def recv_ended_def sends split: option.splits if_splits
      dest!: same_keys_handler intro: same_keys_trans [rotated])

lemma same_keys_error: "same_keys ep (recv_error m ep)"
  by (auto simp: recv_error_def split: option.split)

lemma same_keys_cmd: "do_session_cmd i s c ep = Some ep' \<Longrightarrow> same_keys ep ep'"
  by (cases c) (auto simp: cmd_cancel_def cmd_hangup_def cmd_alert_def cmd_auto_reject_def cmd_accept_def cmd_decline_def
      cmd_update_def cmd_reply_update_def cmd_info_def sends Let_def bind_eq_Some_conv split: if_splits option.splits)

text \<open>The operations on grants and keys.\<close>

lemma keys_inv_simps [simp]:
  "keys_inv (emit e b) = keys_inv b" "keys_inv (b\<lparr>ep_grants_held := x5\<rparr>) = keys_inv b"
  "keys_inv (b\<lparr>ep_requests := x6\<rparr>) = keys_inv b" "keys_inv (b\<lparr>ep_pending_sent := x7\<rparr>) = keys_inv b"
  "keys_inv (b\<lparr>ep_tokens := x8\<rparr>) = keys_inv b" "keys_inv (b\<lparr>ep_seen_introductions := x9\<rparr>) = keys_inv b"
  "keys_inv (b\<lparr>ep_held_keys := x14\<rparr>) = keys_inv b" "keys_inv (b\<lparr>ep_out := x15\<rparr>) = keys_inv b"
  unfolding atomize_eq by (rule iffI; erule keys_inv_cong [rotated -1], simp_all)+

lemma keys_inv_del: "keys_inv ep \<Longrightarrow> keys_inv (ep\<lparr>ep_grants_issued := ddel gid (ep_grants_issued ep)\<rparr>)"
  using keys_inv_ddel [where ep = ep and gid = gid and r = "ep_grant_ids ep"] by simp

lemma keys_inv_end_grant:
  assumes "keys_inv ep" "\<And>sc. sc \<in> set (g_keys g) \<Longrightarrow> dget (ep_epochs ep) sc \<noteq> None"
  shows "keys_inv (end_grant g keep ep)"
  by (rule keys_inv_due [OF assms(1)]) (rule end_grant_only [OF assms])


lemma keys_inv_regrant_one: "keys_inv ep \<Longrightarrow> regrant_one scopes gid ep = Some ep' \<Longrightarrow> keys_inv ep'"
  by (auto simp: regrant_one_def bind_eq_Some_conv intro!: keys_inv_issue keys_inv_ddel split: if_splits list.splits)

lemma keys_inv_regrant_all: "keys_inv ep \<Longrightarrow> regrant_all scopes gids ep = Some ep' \<Longrightarrow> keys_inv ep'"
  by (induction gids arbitrary: ep) (auto simp: bind_eq_Some_conv dest: keys_inv_regrant_one)

lemma keys_inv_regrant: "keys_inv ep \<Longrightarrow> regrant_carrying scopes ep = Some ep' \<Longrightarrow> keys_inv ep'"
  by (auto simp: regrant_carrying_def split: if_splits dest: keys_inv_regrant_all)

lemma keys_inv_rotate_scopes: "keys_inv ep \<Longrightarrow> rotate_scopes scs ep = Some ep' \<Longrightarrow> keys_inv ep'"
proof (induction scs arbitrary: ep)
  case (Cons sc scs)
  then obtain e where "rotate_scopes scs (emit (KeysRotated sc (Suc e))
       (ep\<lparr>ep_due := ddel sc (ep_due ep), ep_epochs := dset sc (Suc e) (ep_epochs ep),
          ep_last_rotated := dset sc (ep_now ep) (ep_last_rotated ep)\<rparr>)) = Some ep'"
    by (auto simp: bind_eq_Some_conv)
  then show ?case by (rule Cons.IH [OF keys_inv_rotated [OF Cons.prems(1)]])
qed simp

lemma keys_inv_rotate_due: "keys_inv ep \<Longrightarrow> rotate_due ep = Some ep' \<Longrightarrow> keys_inv ep'"
  by (auto simp: rotate_due_def Let_def bind_eq_Some_conv dest: keys_inv_rotate_scopes keys_inv_regrant)

lemma keys_inv_carried: "keys_inv ep \<Longrightarrow> dget (ep_grants_issued ep) gid = Some g \<Longrightarrow> sc \<in> set (g_keys g)
    \<Longrightarrow> dget (ep_epochs ep) sc \<noteq> None"
  by (auto simp: keys_inv_def simp del: not_None_eq)

lemma local_keys:
  assumes "keys_inv ep" "local_step e ep = Some ep'" shows "keys_inv ep'"
proof (cases e)
  case (Regrant grant gid scope vu au)
  show ?thesis
  proof (cases "local_regrant grant gid scope vu au ep = Some (emit (Refused ''unknown-grant'') ep)
      \<or> local_regrant grant gid scope vu au ep = Some (emit (Refused ''invalid-audience'') ep)")
    case True
    with Regrant assms show ?thesis by auto
  next
    case False
    with Regrant assms(2) obtain old where old: "dget (ep_grants_issued ep) grant = Some old"
      by (auto simp: local_regrant_def split: option.splits)
    let ?e = "issue_grant gid (g_grantee old) (opt_or scope [''dsip.invite'']) vu grant au []
      ((emit (Revoked (grant # g_chain old)) ep)\<lparr>ep_grants_issued := ddel grant (ep_grants_issued ep)\<rparr>)"
    have k: "keys_inv ?e"
      by (rule keys_inv_issue)
        (use keys_inv_del [of "emit (Revoked (grant # g_chain old)) ep" grant] assms(1) in simp)
    obtain ks where "rotate_due (end_grant old ks ?e) = Some ep'"
      using False Regrant assms(2) old
      by (auto simp: local_regrant_def bind_eq_Some_conv Let_def split: if_splits)
    moreover have "keys_inv (end_grant old ks ?e)"
    proof (rule keys_inv_end_grant [OF k])
      show "dget (ep_epochs ?e) sc \<noteq> None" if "sc \<in> set (g_keys old)" for sc
        using keys_inv_carried [OF assms(1) old that] by (simp add: setdefault_keys del: not_None_eq)
    qed
    ultimately show ?thesis using keys_inv_rotate_due by blast
  qed
next
  case (RevokeGrant grant)
  show ?thesis
  proof (cases "dget (ep_grants_issued ep) grant")
    case (Some g)
    let ?e = "emit (Revoked (grant # g_chain g)) (ep\<lparr>ep_grants_issued := ddel grant (ep_grants_issued ep)\<rparr>)"
    have "keys_inv (end_grant g [] ?e)"
      by (rule keys_inv_end_grant) (use keys_inv_carried [OF assms(1) Some] keys_inv_del [OF assms(1)] in auto)
    with Some RevokeGrant assms(2) keys_inv_rotate_due show ?thesis
      by (auto simp: revoke_grant_def Let_def)
  qed (use RevokeGrant assms in \<open>auto simp: revoke_grant_def\<close>)
next
  case (IssueGrant intro gid scope vu au)
  with assms show ?thesis
    by (auto simp: local_grant_def split: option.splits if_splits intro!: keys_inv_issue)
next
  case (InSession i c)
  with assms keys_inv_same [OF same_keys_cmd] show ?thesis
    by (auto split: option.splits)
next
  case (PlaceCall i to)
  have "same_keys ep (place_call i to ep)" by (simp add: place_call_def sends Let_def)
  from keys_inv_same [OF this assms(1)] PlaceCall assms(2) show ?thesis by simp
qed (use assms in \<open>auto simp: introduce_def reject_introduction_def sends Let_def split: option.splits if_splits\<close>)


lemma keys_inv_own_record:
  assumes "keys_inv ep" "recv_own_record m ep = Some ep'" shows "keys_inv ep'"
proof -
  have "keys_inv (ep\<lparr>ep_epochs := dset sc e (ep_epochs ep)\<rparr>)" for sc e
    using assms(1) key_scopes_cong [of "ep\<lparr>ep_epochs := dset sc e (ep_epochs ep)\<rparr>" ep]
    unfolding keys_inv_def by (simp del: not_None_eq)
  then show ?thesis
    using assms by (auto elim!: recv_own_record_cases dest!: keys_inv_regrant [rotated])
qed

lemma recv_keys:
  assumes "keys_inv ep" "recv_msg m ep = Some ep'" shows "keys_inv ep'"
proof -
  have "keys_inv (recv_introduction m ep)"
    using assms(1) by (auto simp: recv_introduction_def Let_def intro!: keys_inv_issue split: option.split)
  moreover have "recv_grant m ep = Some ep' \<Longrightarrow> keys_inv ep'"
    using assms(1) by (auto simp: recv_grant_def Let_def split: option.splits if_splits)
  moreover have "recv_session m ep = Some ep' \<Longrightarrow> keys_inv ep'"
    using keys_inv_same [OF same_keys_session] assms(1) by blast
  moreover have "keys_inv (recv_invite m ep)" "keys_inv (recv_error m ep)"
    using keys_inv_same [OF same_keys_invite] keys_inv_same [OF same_keys_error] assms(1) by blast+
  ultimately show ?thesis
    using assms keys_inv_own_record
    by (cases "m_type m") (auto simp: recv_msg_def bind_eq_Some_conv split: option.splits)
qed

section \<open>The invariant over a run\<close>

definition engine_inv :: "endpoint \<Rightarrow> bool" where
  "engine_inv ep \<longleftrightarrow> ep_inv ep \<and> keys_inv ep"

lemma engine_invD: "engine_inv ep \<Longrightarrow> ep_inv ep" "engine_inv ep \<Longrightarrow> keys_inv ep"
  by (simp_all add: engine_inv_def)

lemma engine_inv_later:
  assumes "engine_inv ep" "ep_now ep \<le> n" shows "engine_inv (ep\<lparr>ep_now := n\<rparr>)"
proof -
  have "keys_inv (ep\<lparr>ep_now := n\<rparr>)"
    by (rule keys_inv_cong [OF _ _ _ _ _ _ engine_invD(2) [OF assms(1)]]) (use assms(2) in simp_all)
  then show ?thesis using assms ep_inv_later by (simp add: engine_inv_def)
qed

lemma settle_inv:
  assumes "engine_inv ep" "ep_now ep \<le> target" "instants target ep \<noteq> []" "settle target ep = Some ep'"
  shows "engine_inv ep' \<and> ep_now ep \<le> ep_now ep' \<and> ep_now ep' \<le> target \<and> set (ep_timers ep') \<subseteq> set (ep_timers ep)"
proof -
  let ?n = "max (ep_now ep) (min_list (instants target ep))"
  have n: "ep_now ep \<le> ?n" "?n \<le> target"
    using assms(2) instants_le [OF min_list_in [OF assms(3)]] by simp_all
  obtain e1 where e1: "fire_due (ep\<lparr>ep_now := ?n\<rparr>) = Some e1" "ep_inv e1" "fired (ep\<lparr>ep_now := ?n\<rparr>) e1"
    using fire_due_spec [OF ep_inv_later [OF engine_invD(1) [OF assms(1)] n(1)]] by blast
  obtain e2 where e2: "end_expired (dsorted (ep_grants_issued e1)) e1 = Some e2" "rotate_due e2 = Some ep'"
    using assms(4) e1(1) by (auto simp: settle_def bind_eq_Some_conv Let_def)
  have k: "keys_inv (ep\<lparr>ep_now := ?n\<rparr>)"
    by (rule keys_inv_cong [OF _ _ _ _ _ _ engine_invD(2) [OF assms(1)]]) simp_all
  have "keys_inv e1"
    using fired_simps [OF e1(3)] by (intro keys_inv_cong [OF _ _ _ _ _ _ k]) simp_all
  then have "keys_inv e2"
    using end_expired_spec [of e1 "dsorted (ep_grants_issued e1)"] e2(1) ends_keys(1) by auto
  then have "keys_inv ep'" by (rule keys_inv_rotate_due) (rule e2(2))
  moreover have "same_core e1 ep'"
    using same_core_end_expired [OF e2(1)] same_core_rotate_due [OF e2(2)] same_core_trans by blast
  ultimately show ?thesis
    unfolding engine_inv_def using e1(2) same_core_inv [of e1 ep'] fired_simps(1,8) [OF e1(3)] n by (auto simp: same_core_def)
qed

lemma advance_to_inv:
  "advance_to target ep = Some ep' \<Longrightarrow> engine_inv ep \<Longrightarrow> ep_now ep \<le> target \<Longrightarrow> engine_inv ep' \<and> ep_now ep' = target
    \<and> set (ep_timers ep') \<subseteq> set (ep_timers ep) \<and> (\<forall>t \<in> set (ep_timers ep'). target < tm_deadline t)"
proof (induction rule: advance_to.raw_induct [rotated, consumes 1, case_names step])
  case (step f target ep ep')
  show ?case
  proof (cases "instants target ep = []")
    case True
    then have "\<forall>t \<in> set (ep_timers ep). target < tm_deadline t"
      by (auto simp: instants_def filter_empty_conv)
    then show ?thesis using step(2-4) True engine_inv_later by auto
  next
    case False
    then obtain e where e: "settle target ep = Some e" "f target e = Some ep'"
      using step(2) by (auto simp: bind_eq_Some_conv)
    from settle_inv [OF step(3,4) False e(1)] step(1) [OF e(2)] show ?thesis by auto
  qed
qed


lemma init_ep_inv: "ep_inv (init_endpoint c)"
  by (simp add: ep_inv_def init_endpoint_def Let_def store_ok_def cfg_ok_def ok_at_def armed_def running_def
      clamp_def timer_bounds)

lemma init_inv: "engine_inv (init_endpoint c)"
  using init_ep_inv [of c] by (simp add: engine_inv_def) (simp add: keys_inv_def init_endpoint_def Let_def)

lemma advance_inv:
  assumes "engine_inv ep" "0 \<le> n" "advance n ep = Some ep'"
  shows "engine_inv ep' \<and> ep_now ep' = ep_now ep + n
    \<and> set (ep_timers ep') \<subseteq> set (ep_timers ep) \<and> (\<forall>t \<in> set (ep_timers ep'). ep_now ep + n < tm_deadline t)"
  using advance_to_inv [OF assms(3) [unfolded advance_def] assms(1)] assms(2) by simp

text \<open>The events a trace may hold: the clock goes forward and an invite says when it expires.\<close>

fun ok_event :: "event \<Rightarrow> bool" where
  "ok_event (Advance n) \<longleftrightarrow> 0 \<le> n"
| "ok_event (Recv m) \<longleftrightarrow> (m_type m = MInvite \<longrightarrow> m_expires_at m \<noteq> None)"
| "ok_event (Local e) \<longleftrightarrow> True"

lemma clear_out_inv: "engine_inv ep \<Longrightarrow> engine_inv (ep\<lparr>ep_out := []\<rparr>)"
  using same_core_inv [of ep "ep\<lparr>ep_out := []\<rparr>"] by (simp add: engine_inv_def)

lemma ep_step_inv: "engine_inv ep \<Longrightarrow> ok_event e \<Longrightarrow> ep_step ep e = Some ep' \<Longrightarrow> engine_inv ep'"
  using clear_out_inv [of ep] advance_inv [of "ep\<lparr>ep_out := []\<rparr>" _ ep'] recv_msg_inv [of "ep\<lparr>ep_out := []\<rparr>" _ ep']
    local_step_inv [of "ep\<lparr>ep_out := []\<rparr>" _ ep'] recv_keys [of "ep\<lparr>ep_out := []\<rparr>" _ ep'] local_keys [of "ep\<lparr>ep_out := []\<rparr>" _ ep']
  by (cases e) (simp_all add: engine_inv_def)


interpretation endpoint: machine ep_step ok_event engine_inv
  by unfold_locales (rule ep_step_inv)

end
