(* ===== verification/Session_Total.thy ===== *)
theory Session_Total
  imports Session_Machine
begin

text \<open>
  No event of the documented shape raises at an endpoint without presence keys, and no event turns the
  clock of an endpoint back.
\<close>

section \<open>Well-formed events\<close>

text \<open>The keys a message type is required to have (the schemas of the protocol). The schemas do not bound the length of the epochs of
  a grant's presence keys; here they are short enough for \<open>int\<close>.\<close>

definition short_epoch :: "string \<Rightarrow> bool" where
  "short_epoch kid \<longleftrightarrow> length (snd (rpartition CHR ''.'' kid)) \<le> INT_MAX_STR_DIGITS"

definition wf_msg :: "msg \<Rightarrow> bool" where
  "wf_msg m \<longleftrightarrow> (case m_type m of
       MInvite \<Rightarrow> m_expires_at m \<noteq> None
     | MProgress \<Rightarrow> m_status m \<noteq> None \<and> (m_status m = Some ''queued'' \<longrightarrow> m_queue_timeout m \<noteq> None)
     | MAnswer \<Rightarrow> m_answered_by m \<noteq> None
     | MReject \<Rightarrow> m_reason m \<noteq> None
     | MCancel \<Rightarrow> m_reason m \<noteq> None
     | MBye \<Rightarrow> m_reason m \<noteq> None
     | MGrant \<Rightarrow> list_all short_epoch (opt_or (m_presence_keys m) [])
     | MOther _ \<Rightarrow> False
     | _ \<Rightarrow> True)"

fun wf_event :: "event \<Rightarrow> bool" where
  "wf_event (Advance n) \<longleftrightarrow> 0 \<le> n"
| "wf_event (Recv m) \<longleftrightarrow> wf_msg m"
| "wf_event (Local e) \<longleftrightarrow> True"

lemma wf_ok: "wf_event e \<Longrightarrow> ok_event e"
  by (cases e) (auto simp: wf_msg_def split: mtype.splits)

definition keyless :: "endpoint \<Rightarrow> bool" where
  "keyless ep \<longleftrightarrow> engine_inv ep \<and> ep_epochs ep = [] \<and> \<not> ep_keys_on ep"

section \<open>Each handler returns\<close>

lemma effective_queued: "effective_progress_status s = ''queued'' \<Longrightarrow> s = ''queued''"
  by (auto simp: effective_progress_status_def PROGRESS_STATUS_FALLBACK_def split: if_splits)

lemma session_handler_total:
  assumes "wf_msg m" "m_type m \<notin> {MInvite, MError, MIntroduction, MGrant, MPresence}"
  shows "\<exists>ep'. session_handler i s m ep = Some ep'"
  using assms effective_queued [of "the (m_status m)"]
  by (cases "m_type m") (auto simp: wf_msg_def session_handler_def recv_progress_def recv_answer_def recv_reject_def
      recv_cancel_def recv_bye_def on_queued_def Let_def)

lemma recv_session_total:
  assumes "wf_msg m" "m_type m \<notin> {MInvite, MError, MIntroduction, MGrant, MPresence}"
  shows "\<exists>ep'. recv_session m ep = Some ep'"
  using session_handler_total [OF assms] by (auto simp: recv_session_def split: option.split)

lemma keyless_rotate:
  assumes "keys_inv ep" "ep_epochs ep = []" shows "rotate_due ep = Some ep"
proof -
  have "ep_due ep = []" using length_due [OF assms(1)] assms(2) by simp
  then show ?thesis by (simp add: rotate_due_def due_now_def regrant_carrying_def)
qed

lemma hold_keys_total: "list_all short_epoch kids \<Longrightarrow> \<exists>held'. hold_keys by_id kids held = Some held'"
proof (induction kids arbitrary: held)
  case (Cons kid kids)
  then have "\<exists>h. hold_key by_id kid held = Some h"
    by (auto simp: hold_key_def short_epoch_def int_of_digits_def split: prod.split)
  with Cons show ?case by auto
qed simp

lemma recv_grant_total:
  assumes "list_all short_epoch (opt_or (m_presence_keys m) [])" shows "\<exists>ep'. recv_grant m ep = Some ep'"
  using hold_keys_total [OF assms] by (auto simp: recv_grant_def Let_def split: option.split)

lemma recv_total: assumes "keyless ep" "wf_msg m" shows "\<exists>ep'. recv_msg m ep = Some ep'"
proof (cases "m_type m \<in> {MInvite, MError, MIntroduction, MGrant, MPresence}")
  case True
  then show ?thesis
    using assms recv_grant_total [of m ep] by (auto simp: recv_msg_def recv_own_record_def keyless_def wf_msg_def split: option.split)
next
  case False
  with recv_session_total [OF assms(2)] show ?thesis
    using assms(2) by (cases "m_type m") (auto simp: recv_msg_def wf_msg_def split: option.split)
qed

lemma cmd_total:
  assumes "ep_inv ep" "dget (ep_sessions ep) i = Some s" shows "\<exists>ep'. do_session_cmd (s_id s) s c ep = Some ep'"
  using ep_inv_session [OF assms] by (cases c) (auto simp: session_ok_def cmd_alert_def Let_def)

lemma keyless_grant_keys:
  assumes "keyless ep" "dget (ep_grants_issued ep) gid = Some g" shows "end_grant g keep e = e"
proof -
  have "g_keys g = []"
    using assms keys_inv_carried [of ep gid g "hd (g_keys g)"] by (cases "g_keys g") (auto simp: keyless_def engine_inv_def)
  then show ?thesis by (simp add: end_grant_def)
qed

lemma local_total: assumes "keyless ep" shows "\<exists>ep'. local_step e ep = Some ep'"
proof (cases e)
  case (InSession i c)
  with assms cmd_total show ?thesis by (auto simp: keyless_def engine_inv_def split: option.split)
next
  case (RevokeGrant grant)
  show ?thesis
  proof (cases "dget (ep_grants_issued ep) grant")
    case (Some g)
    let ?e = "emit (Revoked (grant # g_chain g)) (ep\<lparr>ep_grants_issued := ddel grant (ep_grants_issued ep)\<rparr>)"
    have "rotate_due ?e = Some ?e"
      by (rule keyless_rotate) (use assms keys_inv_del [of ep grant] in \<open>simp_all add: keyless_def engine_inv_def\<close>)
    with Some RevokeGrant show ?thesis
      by (simp add: revoke_grant_def Let_def keyless_grant_keys [OF assms Some])
  qed (simp add: RevokeGrant revoke_grant_def)
next
  case (Regrant grant gid scope vu au)
  show ?thesis
  proof (cases "dget (ep_grants_issued ep) grant")
    case (Some old)
    let ?d = "(emit (Revoked (grant # g_chain old)) ep)\<lparr>ep_grants_issued := ddel grant (ep_grants_issued ep)\<rparr>"
    let ?e = "issue_grant gid (g_grantee old) (opt_or scope [''dsip.invite'']) vu grant au [] ?d"
    have "key_scopes ?d sc a = []" for sc a using assms by (simp add: key_scopes_def keyless_def)
    then have "rotate_due ?e = Some ?e"
      by (intro keyless_rotate keys_inv_issue)
        (use assms keys_inv_del [of "emit (Revoked (grant # g_chain old)) ep" grant] in \<open>simp_all add: keyless_def engine_inv_def\<close>)
    with Some Regrant show ?thesis
      by (simp add: local_regrant_def Let_def keyless_grant_keys [OF assms Some])
  qed (simp add: Regrant local_regrant_def)
qed simp_all

lemma step_returns: assumes "keyless ep" "wf_event e" shows "\<exists>ep'. ep_step ep e = Some ep'"
proof -
  have k: "keyless (ep\<lparr>ep_out := []\<rparr>)" using assms(1) clear_out_inv by (simp add: keyless_def)
  have "budget (ep\<lparr>ep_out := []\<rparr>)" using k by (simp add: budget_def keyless_def)
  with k have "0 \<le> n \<Longrightarrow> \<exists>ep'. advance n (ep\<lparr>ep_out := []\<rparr>) = Some ep'" for n
    using advance_spec [of "ep\<lparr>ep_out := []\<rparr>" n] by (auto simp: keyless_def engine_inv_def)
  with recv_total [OF k] local_total [OF k] assms(2) show ?thesis
    by (cases e) simp_all
qed


section \<open>An endpoint without keys stays one, and the clock goes forward\<close>

definition plain_at :: "int \<Rightarrow> endpoint \<Rightarrow> bool" where
  "plain_at n ep \<longleftrightarrow> ep_epochs ep = [] \<and> \<not> ep_keys_on ep \<and> ep_now ep = n"

lemma plain_simps [simp]:
  "plain_at n (emit e b) = plain_at n b" "plain_at n (b\<lparr>ep_grants_held := x5\<rparr>) = plain_at n b"
  "plain_at n (b\<lparr>ep_requests := x6\<rparr>) = plain_at n b" "plain_at n (b\<lparr>ep_pending_sent := x7\<rparr>) = plain_at n b"
  "plain_at n (b\<lparr>ep_tokens := x8\<rparr>) = plain_at n b" "plain_at n (b\<lparr>ep_seen_introductions := x9\<rparr>) = plain_at n b"
  "plain_at n (b\<lparr>ep_held_keys := x14\<rparr>) = plain_at n b" "plain_at n (b\<lparr>ep_out := x15\<rparr>) = plain_at n b"
  "plain_at n (b\<lparr>ep_grants_issued := x16\<rparr>) = plain_at n b"
  by (simp_all add: plain_at_def)

lemma plain_issue [simp]: "plain_at n b \<Longrightarrow> plain_at n (issue_grant gid w sc vu i au ch b)"
  by (simp add: plain_at_def key_scopes_def)

lemma plain_same: "same_keys a b \<Longrightarrow> plain_at n b = plain_at n a"
  by (simp add: plain_at_def same_keys_def)

lemma keyless_plain: "keyless ep \<longleftrightarrow> engine_inv ep \<and> plain_at (ep_now ep) ep"
  by (auto simp: keyless_def plain_at_def)

lemma plain_rotate:
  assumes "keys_inv ep" "plain_at n ep" "rotate_due ep = Some ep'" shows "plain_at n ep'"
  using keyless_rotate [OF assms(1)] assms(2,3) by (simp add: plain_at_def)

lemma plain_local:
  assumes k: "keyless ep" and "local_step e ep = Some ep'" shows "plain_at (ep_now ep) ep'"
proof (cases e)
  case (Regrant grant gid scope vu au)
  show ?thesis
  proof (cases "local_regrant grant gid scope vu au ep = Some (emit (Refused ''unknown-grant'') ep)
      \<or> local_regrant grant gid scope vu au ep = Some (emit (Refused ''invalid-audience'') ep)")
    case True
    with Regrant assms show ?thesis by (auto simp: keyless_plain)
  next
    case False
    with Regrant assms(2) obtain old where old: "dget (ep_grants_issued ep) grant = Some old"
      by (auto simp: local_regrant_def split: option.splits)
    let ?e = "issue_grant gid (g_grantee old) (opt_or scope [''dsip.invite'']) vu grant au []
      ((emit (Revoked (grant # g_chain old)) ep)\<lparr>ep_grants_issued := ddel grant (ep_grants_issued ep)\<rparr>)"
    have "rotate_due ?e = Some ep'"
      using False Regrant assms(2) old
      by (auto simp: local_regrant_def bind_eq_Some_conv Let_def keyless_grant_keys [OF k old] split: if_splits)
    moreover have "keys_inv ?e"
      by (rule keys_inv_issue)
        (use keys_inv_del [of "emit (Revoked (grant # g_chain old)) ep" grant] k in \<open>simp add: keyless_def engine_inv_def\<close>)
    ultimately show ?thesis
      by (elim plain_rotate [rotated 2]) (use k in \<open>simp_all add: keyless_plain\<close>)
  qed
next
  case (RevokeGrant grant)
  show ?thesis
  proof (cases "dget (ep_grants_issued ep) grant")
    case (Some g)
    let ?e = "emit (Revoked (grant # g_chain g)) (ep\<lparr>ep_grants_issued := ddel grant (ep_grants_issued ep)\<rparr>)"
    have "rotate_due ?e = Some ep'"
      using Some RevokeGrant assms(2) by (auto simp: revoke_grant_def Let_def keyless_grant_keys [OF k Some])
    then show ?thesis
      by (rule plain_rotate [rotated 2]) (use k keys_inv_del [of ep grant] in \<open>simp_all add: keyless_plain engine_inv_def\<close>)
  qed (use RevokeGrant assms in \<open>auto simp: revoke_grant_def keyless_plain\<close>)
next
  case (InSession i c)
  with assms plain_same [OF same_keys_cmd] show ?thesis
    by (auto simp: keyless_plain split: option.splits)
next
  case (PlaceCall i to)
  have "same_keys ep (place_call i to ep)" by (simp add: place_call_def sends Let_def)
  from plain_same [OF this] PlaceCall assms show ?thesis by (simp add: keyless_plain)
qed (use assms in \<open>auto simp: keyless_plain introduce_def reject_introduction_def local_grant_def sends Let_def
      split: option.splits if_splits\<close>)

lemma plain_recv:
  assumes k: "keyless ep" and r: "recv_msg m ep = Some ep'" shows "plain_at (ep_now ep) ep'"
proof -
  have p: "plain_at (ep_now ep) ep" "\<not> ep_keys_on ep" using k by (simp_all add: keyless_def plain_at_def)
  have "plain_at (ep_now ep) (recv_introduction m ep)"
    using p by (auto simp: recv_introduction_def Let_def intro!: plain_issue split: option.split)
  moreover have "recv_grant m ep = Some ep' \<Longrightarrow> plain_at (ep_now ep) ep'"
    using p by (auto simp: recv_grant_def Let_def split: option.splits if_splits)
  moreover have "recv_session m ep = Some ep' \<Longrightarrow> plain_at (ep_now ep) ep'"
    using plain_same [OF same_keys_session] p(1) by blast
  moreover have "plain_at (ep_now ep) (recv_invite m ep)" "plain_at (ep_now ep) (recv_error m ep)"
    using plain_same [OF same_keys_invite] plain_same [OF same_keys_error] p(1) by blast+
  moreover have "recv_own_record m ep = Some ep' \<Longrightarrow> ep' = ep"
    using p(2) by (auto simp: recv_own_record_def split: option.splits)
  ultimately show ?thesis
    using r p(1) by (cases "m_type m") (auto simp: recv_msg_def bind_eq_Some_conv split: option.splits)
qed

lemma keyless_step:
  assumes "keyless ep" "ok_event e" "ep_step ep e = Some ep'" shows "keyless ep'"
proof -
  have k: "keyless (ep\<lparr>ep_out := []\<rparr>)" using assms(1) clear_out_inv by (simp add: keyless_def)
  have inv: "engine_inv ep'"
    using ep_step_inv [OF _ assms(2,3)] assms(1) by (simp add: keyless_def)
  show ?thesis
  proof (cases e)
    case (Advance n)
    have "budget (ep\<lparr>ep_out := []\<rparr>)" using k by (simp add: budget_def keyless_def)
    then show ?thesis
      using advance_spec [of "ep\<lparr>ep_out := []\<rparr>" n] k assms(2,3) Advance inv by (auto simp: keyless_def engine_inv_def)
  next
    case (Recv m)
    with plain_recv [OF k, of m ep'] assms(3) inv show ?thesis by (simp add: keyless_plain plain_at_def)
  next
    case (Local l)
    with plain_local [OF k, of l ep'] assms(3) inv show ?thesis by (simp add: keyless_plain plain_at_def)
  qed
qed

interpretation endpoint_keyless: machine ep_step ok_event keyless
  by unfold_locales (rule keyless_step)

interpretation endpoint_plain: total_machine ep_step wf_event keyless
  by unfold_locales (auto intro: keyless_step wf_ok step_returns)

interpretation endpoint_clock: monotone_machine ep_step wf_event keyless ep_now
proof unfold_locales
  show "ep_now ep \<le> ep_now ep'" if "keyless ep" "wf_event e" "ep_step ep e = Some ep'" for ep e ep'
  proof -
    have k: "keyless (ep\<lparr>ep_out := []\<rparr>)" using that(1) clear_out_inv by (simp add: keyless_def)
    with that show ?thesis
      using advance_inv [of "ep\<lparr>ep_out := []\<rparr>" _ ep'] plain_recv [OF k, of _ ep'] plain_local [OF k, of _ ep']
      by (cases e) (auto simp: keyless_def plain_at_def)
  qed
qed

lemma init_keyless: "cx_keys c = None \<Longrightarrow> keyless (init_endpoint c)"
  using init_inv [of c] by (simp add: keyless_def) (simp add: init_endpoint_def Let_def)

end
