(* ===== verification/Session_Moves.thy ===== *)
theory Session_Moves
  imports Session_Total
begin

text \<open>
  The state diagram of a session (sections 6 and 7 of the protocol), and that every step of the engine moves
  each session along one of its edges. The one exception is an invite that carries the id of a held session.
\<close>

section \<open>The diagram\<close>

abbreviation st :: "endpoint \<Rightarrow> string \<Rightarrow> sstate option" where
  "st ep i \<equiv> map_option s_state (sess ep i)"

inductive edge :: "sstate option \<Rightarrow> sstate option \<Rightarrow> bool" where
  edge_stay: "edge a a"
| edge_place: "edge None (Some INVITING)"
| edge_offer: "edge None (Some OFFERED)"
| edge_refuse: "edge None (Some ENDED)"
| edge_proceed: "edge (Some INVITING) (Some PROCEEDING)"
| edge_answered: "a \<in> {INVITING, PROCEEDING, ALERTING} \<Longrightarrow> edge (Some a) (Some ACTIVE)"
| edge_alert: "edge (Some OFFERED) (Some ALERTING)"
| edge_end: "edge (Some a) (Some ENDED)"

inductive_simps edge_simps: "edge a b"
inductive_cases edge_ENDED: "edge (Some ENDED) b"
inductive_cases edge_to_OFFERED: "edge a (Some OFFERED)"

lemma edge_intros [simp]:
  "edge a a" "edge None (Some INVITING)" "edge None (Some OFFERED)" "edge None (Some ENDED)"
  "edge (Some INVITING) (Some PROCEEDING)" "edge (Some INVITING) (Some ACTIVE)" "edge (Some PROCEEDING) (Some ACTIVE)"
  "edge (Some ALERTING) (Some ACTIVE)" "edge (Some OFFERED) (Some ALERTING)" "edge (Some b) (Some ENDED)"
  by (auto intro: edge.intros)

text \<open>Only the session \<open>i\<close> moves.\<close>

definition moves :: "string \<Rightarrow> endpoint \<Rightarrow> endpoint \<Rightarrow> bool" where
  "moves i ep ep' \<longleftrightarrow> edge (st ep i) (st ep' i) \<and> (st ep i = None \<longrightarrow> st ep' i = None) \<and> (\<forall>j. j \<noteq> i \<longrightarrow> st ep' j = st ep j)"

lemma movesD: "moves i ep ep' \<Longrightarrow> edge (st ep j) (st ep' j)"
  by (cases "j = i") (auto simp: moves_def)

lemma moves_offered: "moves i ep ep' \<Longrightarrow> st ep' j = Some OFFERED \<Longrightarrow> st ep j = Some OFFERED"
  by (cases "j = i") (auto simp: moves_def elim: edge.cases)

lemma moves_core: "ep_sessions ep' = ep_sessions ep \<Longrightarrow> moves i ep ep'"
  by (simp add: moves_def)

section \<open>Handlers\<close>

lemma moves_progress: "sess ep i = Some s \<Longrightarrow> recv_progress i s m ep = Some ep' \<Longrightarrow> moves i ep ep'"
  by (auto simp: moves_def recv_progress_def on_ringing_def on_queued_def on_other_status_def sends Let_def
      bind_eq_Some_conv split: if_splits option.splits)

lemma moves_answer: "sess ep i = Some s \<Longrightarrow> recv_answer i s m ep = Some ep' \<Longrightarrow> moves i ep ep'"
  by (auto simp: moves_def recv_answer_def sends Let_def bind_eq_Some_conv split: if_splits option.splits)

lemma moves_reject: "sess ep i = Some s \<Longrightarrow> recv_reject i s m ep = Some ep' \<Longrightarrow> moves i ep ep'"
  by (auto simp: moves_def recv_reject_def sends Let_def bind_eq_Some_conv split: if_splits option.splits)

lemma moves_cancel: "sess ep i = Some s \<Longrightarrow> recv_cancel i s m ep = Some ep' \<Longrightarrow> moves i ep ep'"
  by (auto simp: moves_def recv_cancel_def sends Let_def bind_eq_Some_conv split: if_splits)

lemma moves_update: "sess ep i = Some s \<Longrightarrow> moves i ep (recv_update i s m ep)"
  by (auto simp: moves_def recv_update_def sends Let_def split: option.split prod.split direction.split)

lemma moves_info: "sess ep i = Some s \<Longrightarrow> moves i ep (recv_info i s m ep)"
  by (auto simp: moves_def recv_info_def sends split: option.split)

lemma moves_bye: "sess ep i = Some s \<Longrightarrow> recv_bye i s m ep = Some ep' \<Longrightarrow> moves i ep ep'"
  by (auto simp: moves_def recv_bye_def sends bind_eq_Some_conv split: if_splits)

lemma moves_handler: "sess ep i = Some s \<Longrightarrow> session_handler i s m ep = Some ep' \<Longrightarrow> moves i ep ep'"
  by (cases "m_type m") (auto simp: session_handler_def moves_core moves_progress moves_answer moves_reject moves_cancel
      moves_update moves_info moves_bye sends)

lemma moves_cmd: "sess ep i = Some s \<Longrightarrow> do_session_cmd i s c ep = Some ep' \<Longrightarrow> moves i ep ep'"
  by (cases c) (auto simp: moves_def cmd_cancel_def cmd_hangup_def cmd_alert_def cmd_auto_reject_def cmd_accept_def
      cmd_decline_def cmd_update_def cmd_reply_update_def cmd_info_def sends Let_def bind_eq_Some_conv
      split: if_splits option.splits)

text \<open>Received messages.\<close>

lemma moves_session:
  assumes "ep_inv ep" "recv_session m ep = Some ep'" shows "\<exists>i. moves i ep ep'"
proof (cases "find_session ep (m_session m)")
  case None
  with assms(2) show ?thesis by (auto simp: recv_session_def sends moves_core)
next
  case (Some s)
  then obtain i where i: "sess ep i = Some s" by (auto simp: find_session_def bind_eq_Some_conv)
  then have id: "s_id s = i" using sessD(1) assms(1) by blast
  let ?f = "\<lambda>s. s\<lparr>s_post_answer_seen := True\<rparr>"
  have "sess (upd i ?f ep) i = Some (?f s)" using i by simp
  from moves_handler [OF this] have "moves i ep ep'" if "session_handler i (?f s) m (upd i ?f ep) = Some ep'"
    using that i by (fastforce simp: moves_def)
  then show ?thesis
    using assms(2) Some id moves_handler [OF i]
    by (auto simp: recv_session_def recv_ended_def sends moves_core split: if_splits)
qed

lemma moves_error: "ep_inv ep \<Longrightarrow> \<exists>i. moves i ep (recv_error m ep)"
  by (auto simp: recv_error_def moves_def find_session_def bind_eq_Some_conv dest: sessD(1) split: option.split)

lemma moves_others [simp]:
  "ep_sessions (recv_introduction m ep) = ep_sessions ep"
  using same_core_contacts(4) [of ep m] by (simp add: same_core_def)

text \<open>An invite withdraws the attempts that lose to it, and adds a session under its id. Where a session is held under that id, an
  invite that wins over every rival attempt takes its place.\<close>

definition overwrites :: "msg \<Rightarrow> endpoint \<Rightarrow> string \<Rightarrow> endpoint \<Rightarrow> bool" where
  "overwrites m ep j ep' \<longleftrightarrow> m_type m = MInvite \<and> j = m_id m \<and> dget (ep_sessions ep) j \<noteq> None
     \<and> (\<exists>r rs. rivals ep (identity_of ep (m_from m)) = r # rs \<and> m_id m < s_id r)
     \<and> dget (ep_sessions ep') j = Some (new_session j Responder OFFERED (m_from m) (m_to m) (m_expires_at m))"

definition withdrawn :: "endpoint \<Rightarrow> endpoint \<Rightarrow> bool" where
  "withdrawn ep ep' \<longleftrightarrow> (\<forall>j. st ep' j = st ep j \<or> st ep j \<noteq> None \<and> st ep' j = Some ENDED)"

lemma withdrawn_foldl: "withdrawn ep (foldl withdraw ep rs)"
proof (induction rs arbitrary: ep)
  case (Cons r rs)
  have "withdrawn ep (withdraw ep r)"
    by (cases "sess ep (s_id r)") (auto simp: withdrawn_def withdraw_sess)
  then show ?case
    using Cons.IH [of "withdraw ep r"] unfolding withdrawn_def foldl_Cons by metis
qed (simp add: withdrawn_def)

lemma edge_withdrawn: "withdrawn ep ep' \<Longrightarrow> edge (st ep j) (st ep' j)"
  unfolding withdrawn_def by (metis edge_stay edge_end option.exhaust)

lemma invite_edges:
  assumes "m_type m = MInvite" shows "edge (st ep j) (st (recv_invite m ep) j) \<or> overwrites m ep j (recv_invite m ep)"
proof (cases "j = m_id m \<and> sess ep j \<noteq> None")
  case False
  have "sess (foldl withdraw ep rs) j = None \<longleftrightarrow> sess ep j = None" for rs
    using spec [OF withdrawn_foldl [of ep rs, unfolded withdrawn_def], of j]
    by (cases "sess ep j"; cases "sess (foldl withdraw ep rs) j") auto
  with False show ?thesis
    using edge_withdrawn [OF withdrawn_foldl, of ep j]
    by (auto simp: recv_invite_def reject_invite_def offer_def sends Let_def simp flip: foldl_Cons split: list.split option.split)
next
  case True
  then obtain s where s: "sess ep (m_id m) = Some s" "j = m_id m" by auto
  show ?thesis
  proof (cases "\<exists>r rs. rivals ep (identity_of ep (m_from m)) = r # rs \<and> m_id m < s_id r")
    case False
    have "edge (st ep j) (st (foldl withdraw ep rs) j)" for rs by (rule edge_withdrawn [OF withdrawn_foldl])
    with False s show ?thesis
      by (auto simp: recv_invite_def reject_invite_def sends Let_def simp flip: foldl_Cons split: list.split option.split)
  next
    case True
    then obtain r rs where r: "rivals ep (identity_of ep (m_from m)) = r # rs" "m_id m < s_id r" by blast
    then have "\<not> s_id r < m_id m" "s_id r \<noteq> m_id m" by auto
    with r s assms show ?thesis
      by (auto simp: recv_invite_def reject_invite_def offer_def overwrites_def sends Let_def simp flip: foldl_Cons)
  qed
qed

lemma recv_edges:
  assumes "ep_inv ep" "recv_msg m ep = Some ep'"
  shows "edge (st ep j) (st ep' j) \<or> overwrites m ep j ep'"
proof -
  have "recv_session m ep = Some ep' \<Longrightarrow> edge (st ep j) (st ep' j)"
    using moves_session [OF assms(1)] movesD by blast
  moreover have "edge (st ep j) (st (recv_error m ep) j)"
    using moves_error [OF assms(1)] movesD by blast
  moreover have "recv_own_record m ep = Some ep' \<or> recv_grant m ep = Some ep' \<Longrightarrow> ep_sessions ep' = ep_sessions ep"
    using same_core_own_record same_core_grant by (auto simp: same_core_def)
  ultimately show ?thesis
    using assms(2) invite_edges
    by (cases "m_type m") (auto simp: recv_msg_def bind_eq_Some_conv split: option.splits)
qed

lemma local_edges:
  assumes "ep_inv ep" "local_step e ep = Some ep'" shows "edge (st ep j) (st ep' j)"
proof (cases e)
  case (InSession i c)
  show ?thesis
  proof (cases "sess ep i")
    case (Some s)
    with InSession assms(2) sessD(1) [OF assms(1) Some] movesD [OF moves_cmd [OF Some]] show ?thesis by auto
  qed (use InSession assms(2) in auto)
next
  case (Regrant grant gid scope vu au)
  with same_core_local_regrant assms(2) have "ep_sessions ep' = ep_sessions ep" by (auto simp: same_core_def)
  then show ?thesis by simp
next
  case (RevokeGrant grant)
  with same_core_revoke assms(2) have "ep_sessions ep' = ep_sessions ep" by (auto simp: same_core_def)
  then show ?thesis by simp
next
  case (PlaceCall i to)
  with assms(2) show ?thesis
    by (auto simp: place_call_def sends Let_def)
next
  case (IssueGrant intro gid scope vu au)
  with assms(2) same_core_contacts(2) [of ep intro gid scope vu au] show ?thesis by (auto simp: same_core_def)
next
  case (RejectIntroduction intro r)
  with assms(2) same_core_contacts(3) [of ep intro r] show ?thesis by (auto simp: same_core_def)
qed (use assms(2) in \<open>auto simp: introduce_def sends\<close>)


section \<open>The clock\<close>

text \<open>Time only ends attempts and ringing sessions.\<close>

definition closes :: "endpoint \<Rightarrow> endpoint \<Rightarrow> bool" where
  "closes ep ep' \<longleftrightarrow> (\<forall>j. st ep' j = st ep j
     \<or> st ep j \<in> Some ` {INVITING, PROCEEDING, ALERTING} \<and> st ep' j = Some ENDED)"

lemma closes_same: "ep_sessions ep' = ep_sessions ep \<Longrightarrow> closes ep ep'"
  by (simp add: closes_def)

lemma closes_trans: "closes a b \<Longrightarrow> closes b c \<Longrightarrow> closes a c"
  unfolding closes_def by (metis (no_types, lifting) imageE option.inject insertE singletonD sstate.distinct)

lemma closes_edge: "closes ep ep' \<Longrightarrow> edge (st ep j) (st ep' j)"
  unfolding closes_def by (metis edge_stay edge_end imageE)

lemma closes_fire:
  assumes "ep_inv ep" "fire t (ep\<lparr>ep_timers := ts\<rparr>) = Some ep'" shows "closes ep ep'"
proof -
  obtain s where s: "sess ep (tm_session t) = Some s" using assms(2) by (auto simp: fire_def bind_eq_Some_conv)
  note id = sessD(1) [OF assms(1) s]
  have "(ep\<lparr>ep_timers := ts\<rparr>) = ep\<lparr>ep_timers := ts\<rparr>" by simp
  with assms(2) s id show ?thesis
    by (auto simp: closes_def fire_def sends Let_def bind_eq_Some_conv split: if_splits)
qed

lemma closes_fire_due:
  "fire_due ep = Some ep' \<Longrightarrow> ep_inv ep \<Longrightarrow> closes ep ep'"
proof (induction rule: fire_due.raw_induct [rotated, consumes 1, case_names step])
  case (step f ep ep')
  show ?case
  proof (cases "due_timers ep = []")
    case True
    with step(2) show ?thesis by (simp add: closes_same)
  next
    case False
    then obtain e where e: "fire_next ep = Some e" "f e = Some ep'"
      using step(2) by (auto simp: bind_eq_Some_conv)
    from next_timer_in [OF False] have t: "next_timer ep \<in> set (ep_timers ep)"
      by (simp add: due_timers_def)
    have "ep_inv e" using fire_spec [OF step(3) t] e(1) by (auto simp: fire_next_def)
    with step(1) [OF e(2)] closes_fire [OF step(3) e(1) [unfolded fire_next_def]] closes_trans show ?thesis by blast
  qed
qed

lemma closes_settle:
  assumes "ep_inv ep" "settle target ep = Some ep'" shows "closes ep ep'"
proof -
  let ?e0 = "ep\<lparr>ep_now := max (ep_now ep) (min_list (instants target ep))\<rparr>"
  obtain e1 e2 where e: "fire_due ?e0 = Some e1" "end_expired (dsorted (ep_grants_issued e1)) e1 = Some e2"
      "rotate_due e2 = Some ep'"
    using assms(2) by (auto simp: settle_def bind_eq_Some_conv Let_def)
  have "closes ?e0 e1" by (rule closes_fire_due [OF e(1) ep_inv_later]) (use assms(1) in simp_all)
  moreover have "ep_sessions ep' = ep_sessions e1"
    using same_core_end_expired [OF e(2)] same_core_rotate_due [OF e(3)] by (simp add: same_core_def)
  ultimately show ?thesis by (simp add: closes_def)
qed

lemma closes_advance_to:
  "advance_to target ep = Some ep' \<Longrightarrow> engine_inv ep \<Longrightarrow> ep_now ep \<le> target \<Longrightarrow> closes ep ep'"
proof (induction rule: advance_to.raw_induct [rotated, consumes 1, case_names step])
  case (step f target ep ep')
  show ?case
  proof (cases "instants target ep = []")
    case True
    with step(2) show ?thesis by (auto simp: closes_def)
  next
    case False
    then obtain e where e: "settle target ep = Some e" "f target e = Some ep'"
      using step(2) by (auto simp: bind_eq_Some_conv)
    from settle_inv [OF step(3,4) False e(1)] step(1) [OF e(2)] have "closes e ep'" by blast
    with closes_settle [OF engine_invD(1) [OF step(3)] e(1)] show ?thesis by (rule closes_trans)
  qed
qed

section \<open>Every step\<close>

lemma overwrites_out: "overwrites m (ep\<lparr>ep_out := []\<rparr>) j ep' \<Longrightarrow> overwrites m ep j ep'"
  by (auto simp: overwrites_def identity_of_def rivals_def)

lemma step_edges:
  assumes "engine_inv ep" "ok_event e" "ep_step ep e = Some ep'"
  shows "edge (st ep j) (st ep' j) \<or> (\<exists>m. e = Recv m \<and> overwrites m ep j ep')"
proof -
  let ?e = "ep\<lparr>ep_out := []\<rparr>"
  note inv = engine_invD(1) [OF clear_out_inv [OF assms(1)]]
  show ?thesis
  proof (cases e)
    case (Advance n)
    with assms(2,3) have "closes ?e ep'"
      using closes_advance_to [OF _ clear_out_inv [OF assms(1)]] by (simp add: advance_def)
    then show ?thesis using closes_edge [of ?e ep' j] by simp
  next
    case (Recv m)
    with assms(3) recv_edges [OF inv, of m ep' j] overwrites_out [of m ep j ep'] show ?thesis by auto
  next
    case (Local l)
    with assms(3) local_edges [OF inv, of l ep' j] show ?thesis by simp
  qed
qed

text \<open>Which events offer a call to the user.\<close>

definition admitted :: "endpoint \<Rightarrow> msg \<Rightarrow> bool" where
  "admitted ep m \<longleftrightarrow> \<not> ep_first_contact ep \<or> identity_of ep (m_from m) \<in> ep_allow ep
     \<or> has_grant ep (identity_of ep (m_from m))"

lemma offered_local:
  assumes "ep_inv ep" "local_step e ep = Some ep'" "st ep' j = Some OFFERED" shows "st ep j = Some OFFERED"
proof (cases e)
  case (PlaceCall i to)
  with assms(2,3) show ?thesis by (auto simp: place_call_def sends Let_def split: if_splits)
next
  case (InSession i c)
  show ?thesis
  proof (cases "sess ep i")
    case (Some s)
    have "moves i ep ep'" using moves_cmd [OF Some] InSession assms(2) Some sessD(1) [OF assms(1) Some] by auto
    then show ?thesis using moves_offered assms(3) by blast
  qed (use InSession assms in auto)
next
  case (Regrant grant gid scope vu au)
  with same_core_local_regrant assms(2,3) show ?thesis by (auto simp: same_core_def)
next
  case (RevokeGrant grant)
  with same_core_revoke assms(2,3) show ?thesis by (auto simp: same_core_def)
next
  case (IssueGrant intro gid scope vu au)
  with assms(2,3) same_core_contacts(2) [of ep intro gid scope vu au] show ?thesis by (auto simp: same_core_def)
next
  case (RejectIntroduction intro r)
  with assms(2,3) same_core_contacts(3) [of ep intro r] show ?thesis by (auto simp: same_core_def)
qed (use assms(2,3) in \<open>auto simp: introduce_def sends\<close>)

lemma withdrawn_offered: "withdrawn ep ep' \<Longrightarrow> st ep' j = Some OFFERED \<Longrightarrow> st ep j = Some OFFERED"
  unfolding withdrawn_def by (drule spec [of _ j]) (elim disjE, simp only:, simp)

lemma not_admitted_invite: "\<not> admitted ep m \<Longrightarrow> st (recv_invite m ep) j = (if j = m_id m then Some ENDED else st ep j)"
  by (simp add: recv_invite_def admitted_def reject_invite_def sends Let_def)

text \<open>The endpoint after the attempts that lose to an admitted invite are withdrawn.\<close>

definition after_glare :: "endpoint \<Rightarrow> msg \<Rightarrow> endpoint" where
  "after_glare ep m = (case rivals ep (identity_of ep (m_from m)) of
     [] \<Rightarrow> ep | r # rs \<Rightarrow> if s_id r < m_id m then ep else foldl withdraw ep (r # rs))"

lemma withdrawn_glare: "withdrawn ep (after_glare ep m)"
  using withdrawn_foldl [of ep] by (simp add: after_glare_def withdrawn_def del: foldl_Cons split: list.split)

lemma admitted_invite:
  "admitted ep m \<Longrightarrow> j \<noteq> m_id m \<Longrightarrow> sess (recv_invite m ep) j = sess (after_glare ep m) j"
  by (auto simp: recv_invite_def admitted_def after_glare_def reject_invite_def offer_def sends Let_def
      simp del: foldl_Cons split: list.split option.split)

lemma offered_invite:
  assumes "st (recv_invite m ep) j = Some OFFERED" "st ep j \<noteq> Some OFFERED"
  shows "j = m_id m \<and> admitted ep m"
proof (rule ccontr)
  assume n: "\<not> (j = m_id m \<and> admitted ep m)"
  show False
  proof (cases "admitted ep m")
    case True
    with n have "st (recv_invite m ep) j = st (after_glare ep m) j" using admitted_invite by metis
    with assms withdrawn_offered [OF withdrawn_glare] show False by metis
  next
    case False
    from not_admitted_invite [OF this, of j] assms show False by (cases "j = m_id m") auto
  qed
qed

lemma offered_recv:
  assumes "ep_inv ep" "recv_msg m ep = Some ep'" "st ep' j = Some OFFERED" "st ep j \<noteq> Some OFFERED"
  shows "m_type m = MInvite \<and> j = m_id m \<and> admitted ep m"
proof (cases "m_type m = MInvite")
  case True
  then have "ep' = recv_invite m ep" using assms(2) by (simp add: recv_msg_def)
  with offered_invite [of m ep j] assms(3,4) True show ?thesis by blast
next
  case False
  have "recv_session m ep = Some ep' \<Longrightarrow> st ep j = Some OFFERED"
    using moves_session [OF assms(1)] moves_offered assms(3) by blast
  moreover have "ep' = recv_error m ep \<Longrightarrow> st ep j = Some OFFERED"
    using moves_error [OF assms(1), of m] moves_offered assms(3) by blast
  moreover have "recv_own_record m ep = Some ep' \<or> recv_grant m ep = Some ep' \<Longrightarrow> ep_sessions ep' = ep_sessions ep"
    using same_core_own_record same_core_grant by (auto simp: same_core_def)
  ultimately have "st ep j = Some OFFERED"
    using assms(2,3) False
    by (cases "m_type m") (auto simp: recv_msg_def bind_eq_Some_conv split: option.splits)
  with assms(4) show ?thesis by simp
qed

lemma step_offered:
  assumes "engine_inv ep" "ok_event e" "ep_step ep e = Some ep'" "st ep' j = Some OFFERED" "st ep j \<noteq> Some OFFERED"
  shows "\<exists>m. e = Recv m \<and> m_type m = MInvite \<and> m_id m = j \<and> admitted ep m"
proof -
  let ?e = "ep\<lparr>ep_out := []\<rparr>"
  note inv = engine_invD(1) [OF clear_out_inv [OF assms(1)]]
  show ?thesis
  proof (cases e)
    case (Advance n)
    with assms(2,3) have "closes ?e ep'"
      using closes_advance_to [OF _ clear_out_inv [OF assms(1)]] by (simp add: advance_def)
    then have "st ep' j = st ep j \<or> st ep' j = Some ENDED" by (auto simp: closes_def)
    then show ?thesis using assms(4,5) by auto
  next
    case (Recv m)
    with offered_recv [OF inv, of m ep' j] assms(3-5) show ?thesis
      by (auto simp: admitted_def identity_of_def has_grant_def)
  next
    case (Local l)
    then have "st ep j = Some OFFERED" using offered_local [OF inv _ assms(4)] assms(3) by simp
    with assms(5) show ?thesis by blast
  qed
qed

end
