(* ===== verification/Session.thy ===== *)
theory Session
  imports Session_Moves
begin

text \<open>
  The properties of the session engine, each over the states that \<open>ep_step\<close> reaches from a fresh endpoint,
  with an instance at a concrete endpoint.
\<close>

section \<open>Endpoints of the instances\<close>

definition alice_ctx :: ctx where
  "alice_ctx = \<lparr>cx_device = ''a1'', cx_identity = ''alice'', cx_identities = [(''a1'', ''alice''), (''b1'', ''bob'')],
     cx_start = 1000, cx_t_establish = None, cx_t_ring = None, cx_t_ring_local = None, cx_first_contact = False,
     cx_allow = [], cx_keys = None\<rparr>"

definition bob_ctx :: ctx where
  "bob_ctx = alice_ctx\<lparr>cx_device := ''b1'', cx_identity := ''bob''\<rparr>"

definition msg_of :: "mtype \<Rightarrow> string \<Rightarrow> string \<Rightarrow> msg" where
  "msg_of t i from = \<lparr>m_type = t, m_id = i, m_from = from, m_to = None, m_session = None, m_reason = None,
     m_in_reply_to = None, m_status = None, m_ring_timeout = None, m_queue_timeout = None, m_answered_by = None,
     m_about = None, m_expires_at = Some 2000, m_contact_token = None, m_scope = None, m_valid_until = None,
     m_presence_keys = None, m_subject = None, m_kid = None\<rparr>"

definition alice_calls :: endpoint where
  "alice_calls = the (ep_step (init_endpoint alice_ctx) (Local (PlaceCall ''s1'' ''b1'')))"

lemma alice_calls_step: "ep_step (init_endpoint alice_ctx) (Local (PlaceCall ''s1'' ''b1'')) = Some alice_calls"
  by (simp add: alice_calls_def)

lemma alice_calls_reached: "reaches ep_step ok (init_endpoint alice_ctx) alice_calls" if "ok (Local (PlaceCall ''s1'' ''b1''))"
  by (rule reaches_step [of ep_step ok "init_endpoint alice_ctx" "init_endpoint alice_ctx", OF reaches_refl that alice_calls_step])

section \<open>Properties\<close>

text \<open>A pending attempt is an outgoing call and always has a running timer that will end it within
  \<open>T_QUEUE_CAP\<close> = 1800 s; a ringing session is an incoming call with its local ring timer running; only an
  active session has an outstanding update. This holds in every state an endpoint can reach.\<close>

theorem pending_sessions_timed:
  assumes "reaches ep_step ok_event (init_endpoint c) ep" "dget (ep_sessions ep) i = Some s"
  shows "(s_state s \<in> {INVITING, PROCEEDING} \<longrightarrow> s_role s = Initiator
      \<and> (\<exists>n \<in> {T_Establish, T_Ring, T_Queue}. \<exists>d. armed ep i n = Some d \<and> d \<le> ep_now ep + 1800))
    \<and> (s_state s \<in> {OFFERED, ALERTING} \<longrightarrow> s_role s = Responder)
    \<and> (s_state s = ALERTING \<longrightarrow> (\<exists>d. armed ep i T_Ring_Local = Some d \<and> d \<le> ep_now ep + 1800))
    \<and> (s_outstanding s \<noteq> None \<longrightarrow> s_state s = ACTIVE)"
proof -
  have inv: "ep_inv ep"
    using endpoint.reaches_inv [OF assms(1) init_inv] by (simp add: engine_inv_def)
  have "\<And>n d. armed ep i n = Some d \<Longrightarrow> d \<le> ep_now ep + 1800"
    using deadline_bound [OF inv] by (simp add: T_QUEUE_CAP_def)
  then show ?thesis
    using ep_inv_session [OF inv assms(2)] unfolding session_ok_def attempt_timers_def by fast
qed

theorem pending_sessions_timed_witness:
  "armed alice_calls ''s1'' T_Establish = Some 1015
    \<and> (\<exists>n \<in> {T_Establish, T_Ring, T_Queue}. \<exists>d. armed alice_calls ''s1'' n = Some d \<and> d \<le> ep_now alice_calls + 1800)"
proof -
  have s: "dget (ep_sessions alice_calls) ''s1'' = Some (new_session ''s1'' Initiator INVITING ''b1'' (Some ''b1'') None)"
    by code_simp
  have "armed alice_calls ''s1'' T_Establish = Some 1015" by code_simp
  then show ?thesis
    using pending_sessions_timed [OF alice_calls_reached s] by simp
qed

text \<open>C2: Liveness. In any state an endpoint reaches, letting at least 1800 s pass leaves no attempt pending and no session
  ringing: everybody's call is answered, rejected, or ended by a timer. The passing of time succeeds at an endpoint without
  presence keys, and at one with them while its supply of grant ids covers the regrants that rotation may need.\<close>

theorem attempts_end:
  assumes "reaches ep_step ok_event (init_endpoint c) ep" "1800 \<le> n"
  shows "(cx_keys c = None \<or> length (ep_grants_issued ep) * work ep \<le> length (ep_grant_ids ep) \<longrightarrow> ep_step ep (Advance n) \<noteq> None)
    \<and> (\<forall>ep'. ep_step ep (Advance n) = Some ep' \<longrightarrow> ep_now ep' = ep_now ep + n
      \<and> (\<forall>i s. dget (ep_sessions ep') i = Some s \<longrightarrow> s_state s \<notin> {INVITING, PROCEEDING, ALERTING}))"
proof (intro conjI impI allI)
  have inv: "engine_inv ep" by (rule endpoint.reaches_inv [OF assms(1) init_inv])
  assume "cx_keys c = None \<or> length (ep_grants_issued ep) * work ep \<le> length (ep_grant_ids ep)"
  then have "budget ep" using endpoint_keyless.reaches_inv [OF assms(1) init_keyless] by (auto simp: budget_def keyless_def)
  then have "budget (ep\<lparr>ep_out := []\<rparr>)" by (simp add: budget_def work_def unended_def)
  then show "ep_step ep (Advance n) \<noteq> None"
    using advance_spec [of "ep\<lparr>ep_out := []\<rparr>" n] clear_out_inv [OF inv] assms(2) by (auto simp: engine_inv_def)
next
  have inv: "engine_inv ep" by (rule endpoint.reaches_inv [OF assms(1) init_inv])
  let ?e = "ep\<lparr>ep_out := []\<rparr>"
  fix ep' assume ep': "ep_step ep (Advance n) = Some ep'"
  have e: "engine_inv ?e" using inv by (rule clear_out_inv)
  then have a: "engine_inv ep'" "ep_now ep' = ep_now ep + n" "set (ep_timers ep') \<subseteq> set (ep_timers ?e)"
      "\<forall>t \<in> set (ep_timers ep'). ep_now ep + n < tm_deadline t"
    using advance_inv [of ?e n ep'] ep' assms(2) by auto
  note old = engine_invD(1) [OF e] and new = engine_invD(1) [OF a(1)]
  have "armed ep' i m = None" for i m
  proof (rule ccontr)
    assume "armed ep' i m \<noteq> None"
    then obtain t where t: "t \<in> set (ep_timers ep')" using armed_Some_in [of ep' i m] by blast
    with a(3) have "armed ?e (tm_session t) (tm_name t) = Some (tm_deadline t)"
      using armed_in [OF ep_invD(1) [OF old]] by blast
    from deadline_bound [OF old this] have "tm_deadline t \<le> ep_now ep + 1800" by (simp add: T_QUEUE_CAP_def)
    with a(4) t assms(2) show False by fastforce
  qed
  then show "s_state s \<notin> {INVITING, PROCEEDING, ALERTING}" if "dget (ep_sessions ep') i = Some s" for i s
    using ep_inv_session [OF new that] by (auto simp: session_ok_def)
  show "ep_now ep' = ep_now ep + n" by (rule a(2))
qed

theorem attempts_end_witness:
  "st alice_calls ''s1'' = Some INVITING \<and> (\<exists>ep'. ep_step alice_calls (Advance 1800) = Some ep'
    \<and> ep_now ep' = ep_now alice_calls + 1800
    \<and> (\<forall>i s. dget (ep_sessions ep') i = Some s \<longrightarrow> s_state s \<notin> {INVITING, PROCEEDING, ALERTING}))"
proof -
  have "st alice_calls ''s1'' = Some INVITING" by code_simp
  moreover have "cx_keys alice_ctx = None" by (simp add: alice_ctx_def)
  ultimately show ?thesis using attempts_end [OF alice_calls_reached, of 1800] by auto
qed

text \<open>C6: No event of the documented shape raises: from a fresh endpoint without presence keys, every trace of received messages
  of the documented shape, local commands and forward clock steps runs to its end. The shape is that of the schemas, and the
  epoch of a presence key that a grant lists has at most 4300 digits, the most that \<open>int\<close> reads; one more digit raises.\<close>

theorem no_event_raises:
  assumes "cx_keys c = None" "list_all wf_event es"
  shows "\<exists>ep. runs ep_step (init_endpoint c) es = Some ep"
  using endpoint_plain.runs_total [OF init_keyless [OF assms(1)] assms(2)] by blast

theorem no_event_raises_witness:
  "\<exists>ep. runs ep_step (init_endpoint alice_ctx) [Local (PlaceCall ''s1'' ''b1''), Recv (msg_of MInvite ''s2'' ''b1''),
     Advance 20, Local (InSession ''s2'' (Alert None))] = Some ep"
  by (rule no_event_raises) (simp_all add: alice_ctx_def wf_msg_def msg_of_def)

text \<open>C7: With presence keys, \<open>advance\<close> returns at exactly the target time in every reachable state in which the
  supply of grant ids covers the regrants that rotation may need (\<open>work\<close> bounds the turns of the clock loop), and
  no timer is overdue afterwards.\<close>

theorem advance_returns:
  assumes "reaches ep_step ok_event (init_endpoint c) ep" "0 \<le> n"
    and "length (ep_grants_issued ep) * work ep \<le> length (ep_grant_ids ep)"
  shows "\<exists>ep'. advance n ep = Some ep' \<and> ep_now ep' = ep_now ep + n
    \<and> (\<forall>t \<in> set (ep_timers ep'). t \<in> set (ep_timers ep) \<and> ep_now ep' < tm_deadline t)"
  using advance_spec [of ep n] endpoint.reaches_inv [OF assms(1) init_inv] assms(2,3)
  by (fastforce simp: engine_inv_def budget_def)

theorem advance_returns_witness: "\<exists>ep'. advance 60 alice_calls = Some ep' \<and> ep_now ep' = 1060"
proof -
  have "length (ep_grants_issued alice_calls) * work alice_calls \<le> length (ep_grant_ids alice_calls)" by code_simp
  moreover have "ep_now alice_calls = 1000" by code_simp
  ultimately show ?thesis using advance_returns [OF alice_calls_reached, of 60] by auto
qed


text \<open>C3: Every step of a reachable endpoint moves each session along an edge of the state diagram, so an ended session stays ended,
  an active one can only end, and no session is answered that was not pending or ringing. The steps are all local commands,
  received messages and clock steps, with one exception, which the theorem states as the alternative: an invite whose id is
  that of a held session and smaller than that of every attempt it meets in glare takes the held session's place, whatever
  its state, and is offered.\<close>

theorem session_state_diagram:
  assumes "reaches ep_step ok_event (init_endpoint c) ep" "ok_event e" "ep_step ep e = Some ep'"
  shows "edge (map_option s_state (dget (ep_sessions ep) i)) (map_option s_state (dget (ep_sessions ep') i))
    \<or> (\<exists>m r rs. e = Recv m \<and> m_type m = MInvite \<and> m_id m = i \<and> dget (ep_sessions ep) i \<noteq> None
        \<and> rivals ep (identity_of ep (m_from m)) = r # rs \<and> m_id m < s_id r
        \<and> dget (ep_sessions ep') i = Some (new_session i Responder OFFERED (m_from m) (m_to m) (m_expires_at m)))"
  using step_edges [OF endpoint.reaches_inv [OF assms(1) init_inv] assms(2,3), of i] by (auto simp: overwrites_def)

theorem session_state_diagram_witness:
  "\<exists>ep'. ep_step alice_calls (Local (InSession ''s1'' Cancel)) = Some ep'
     \<and> edge (Some INVITING) (map_option s_state (dget (ep_sessions ep') ''s1''))"
proof -
  obtain ep' where ep': "ep_step alice_calls (Local (InSession ''s1'' Cancel)) = Some ep'"
    using step_returns [of alice_calls "Local (InSession ''s1'' Cancel)"]
      endpoint_plain.reaches_inv [OF alice_calls_reached init_keyless] by (auto simp: alice_ctx_def)
  have "st alice_calls ''s1'' = Some INVITING" by code_simp
  with session_state_diagram [OF alice_calls_reached _ ep', of "''s1''"] ep' show ?thesis
    by auto
qed

text \<open>C4: First contact. A session is offered to the user only by a received invite whose sender is admitted:
  the policy is off, the sender's identity is allowed, or it holds a live grant with \<open>dsip.invite\<close>. No other
  event of a reachable endpoint offers a session.\<close>

theorem offered_only_if_admitted:
  assumes "reaches ep_step ok_event (init_endpoint c) ep" "ok_event e" "ep_step ep e = Some ep'"
    and "map_option s_state (dget (ep_sessions ep') i) = Some OFFERED"
    and "map_option s_state (dget (ep_sessions ep) i) \<noteq> Some OFFERED"
  shows "\<exists>m. e = Recv m \<and> m_type m = MInvite \<and> m_id m = i
    \<and> (ep_first_contact ep \<longrightarrow> identity_of ep (m_from m) \<in> ep_allow ep \<or> has_grant ep (identity_of ep (m_from m)))"
  using step_offered [OF endpoint.reaches_inv [OF assms(1) init_inv] assms(2-5)] by (auto simp: admitted_def)

theorem offered_only_if_admitted_witness:
  "\<exists>m. Recv (msg_of MInvite ''s2'' ''c1'') = Recv m \<and> m_type m = MInvite \<and> m_id m = ''s2''
     \<and> (ep_first_contact (init_endpoint alice_ctx) \<longrightarrow> identity_of (init_endpoint alice_ctx) (m_from m) \<in> ep_allow (init_endpoint alice_ctx)
        \<or> has_grant (init_endpoint alice_ctx) (identity_of (init_endpoint alice_ctx) (m_from m)))"
proof (rule offered_only_if_admitted [OF reaches_refl])
  show "ok_event (Recv (msg_of MInvite ''s2'' ''c1''))" by (simp add: msg_of_def)
  show "ep_step (init_endpoint alice_ctx) (Recv (msg_of MInvite ''s2'' ''c1''))
      = Some (recv_invite (msg_of MInvite ''s2'' ''c1'') ((init_endpoint alice_ctx)\<lparr>ep_out := []\<rparr>))"
    by (simp add: recv_msg_def msg_of_def)
  show "st (recv_invite (msg_of MInvite ''s2'' ''c1'') ((init_endpoint alice_ctx)\<lparr>ep_out := []\<rparr>)) ''s2'' = Some OFFERED"
    by code_simp
  show "st (init_endpoint alice_ctx) ''s2'' \<noteq> Some OFFERED" by code_simp
qed

text \<open>An invite from a sender that is not admitted is answered by exactly one message, the rejection
  \<open>policy.first-contact-required\<close>; the user sees nothing and no timer starts or stops.\<close>

theorem stranger_is_rejected:
  assumes "ep_first_contact ep" "identity_of ep (m_from m) \<notin> ep_allow ep" "\<not> has_grant ep (identity_of ep (m_from m))"
    and "m_type m = MInvite" "ep_step ep (Recv m) = Some ep'"
  shows "ep_out ep' = [Send ((msg0 ''reject'')\<lparr>o_to := Some (m_from m), o_session := Some (m_id m),
      o_reason := Some ''policy.first-contact-required''\<rparr>)]
    \<and> ep_timers ep' = ep_timers ep \<and> map_option s_state (dget (ep_sessions ep') (m_id m)) = Some ENDED"
proof -
  have "ep' = recv_invite m (ep\<lparr>ep_out := []\<rparr>)" using assms(4,5) by (simp add: recv_msg_def)
  moreover have "\<not> admitted (ep\<lparr>ep_out := []\<rparr>) m"
    using assms(1-3) by (simp add: admitted_def identity_of_def has_grant_def)
  ultimately show ?thesis
    by (simp add: recv_invite_def admitted_def reject_invite_def sends Let_def)
qed

definition cautious :: endpoint where
  "cautious = init_endpoint (alice_ctx\<lparr>cx_first_contact := True, cx_allow := [''carol'']\<rparr>)"

theorem stranger_is_rejected_witness:
  "\<exists>ep'. ep_step cautious (Recv (msg_of MInvite ''s2'' ''b1'')) = Some ep' \<and> length (ep_out ep') = 1"
proof -
  obtain ep' where ep': "ep_step cautious (Recv (msg_of MInvite ''s2'' ''b1'')) = Some ep'"
    by (simp add: recv_msg_def msg_of_def)
  have "ep_first_contact cautious" "identity_of cautious (m_from (msg_of MInvite ''s2'' ''b1'')) \<notin> ep_allow cautious"
    "\<not> has_grant cautious (identity_of cautious (m_from (msg_of MInvite ''s2'' ''b1'')))"
    "m_type (msg_of MInvite ''s2'' ''b1'') = MInvite" by code_simp+
  from stranger_is_rejected [OF this ep'] ep' show ?thesis by simp
qed


section \<open>Glare\<close>

lemma rivals_sess: "rivals ep who = [r] \<Longrightarrow> r \<in> set (dvals (ep_sessions ep)) \<and> s_state r \<in> {INVITING, PROCEEDING}"
  using set_sort [of s_id "filter (\<lambda>s. s_role s = Initiator \<and> s_state s \<in> {INVITING, PROCEEDING}
     \<and> map_option (identity_of ep) (s_invite_to s) = Some who) (dvals (ep_sessions ep))"]
  by (simp only: flip: rivals_def) auto

text \<open>One side of glare: what an admitted invite does to an endpoint with one rival attempt.\<close>

lemma glare_side:
  assumes "admitted ep m" "rivals ep (identity_of ep (m_from m)) = [r]" "sess ep (s_id r) = Some r"
  shows "s_id r < m_id m \<Longrightarrow> sess (recv_invite m ep) (s_id r) = Some r \<and> st (recv_invite m ep) (m_id m) = Some ENDED"
    "m_id m < s_id r \<Longrightarrow> st (recv_invite m ep) (s_id r) = Some ENDED \<and> st (recv_invite m ep) (m_id m) = Some OFFERED"
    "m_id m = s_id r \<Longrightarrow> st (recv_invite m ep) (s_id r) = Some ENDED
       \<and> Ui UiGlareRetry \<in> set (ep_out (recv_invite m ep))"
  using assms by (auto simp: recv_invite_def admitted_def reject_invite_def offer_def withdraw_sess sends Let_def)

text \<open>C5: Glare. When two endpoints call each other at once, and each has exactly one pending attempt to the other and admits the
  other's invite by its first-contact policy, both keep the same call: the attempt with the smaller id goes on at its initiator
  and is offered at the other side, and the attempt with the larger id is ended at both. With equal ids no call is kept: both
  end, and both users are told to retry.\<close>

theorem glare_agreement:
  assumes "admitted A mB" "rivals A (identity_of A (m_from mB)) = [sa]" "dget (ep_sessions A) (s_id sa) = Some sa"
    and "admitted B mA" "rivals B (identity_of B (m_from mA)) = [sb]" "dget (ep_sessions B) (s_id sb) = Some sb"
    and "m_id mA = s_id sa" "m_id mB = s_id sb"
  defines "stA \<equiv> \<lambda>i. map_option s_state (dget (ep_sessions (recv_invite mB A)) i)"
    and "stB \<equiv> \<lambda>i. map_option s_state (dget (ep_sessions (recv_invite mA B)) i)"
  shows "(s_id sa < s_id sb \<longrightarrow> stA (s_id sa) = Some (s_state sa) \<and> stB (s_id sa) = Some OFFERED
        \<and> stA (s_id sb) = Some ENDED \<and> stB (s_id sb) = Some ENDED)
    \<and> (s_id sb < s_id sa \<longrightarrow> stB (s_id sb) = Some (s_state sb) \<and> stA (s_id sb) = Some OFFERED
        \<and> stA (s_id sa) = Some ENDED \<and> stB (s_id sa) = Some ENDED)
    \<and> (s_id sa = s_id sb \<longrightarrow> stA (s_id sa) = Some ENDED \<and> stB (s_id sb) = Some ENDED
        \<and> Ui UiGlareRetry \<in> set (ep_out (recv_invite mB A)) \<and> Ui UiGlareRetry \<in> set (ep_out (recv_invite mA B)))"
  using glare_side [OF assms(1-3)] glare_side [OF assms(4-6)] assms(7,8) unfolding stA_def stB_def by auto

definition bob_calls :: endpoint where
  "bob_calls = the (ep_step (init_endpoint bob_ctx) (Local (PlaceCall ''s2'' ''a1'')))"

theorem glare_agreement_witness:
  "map_option s_state (dget (ep_sessions (recv_invite (msg_of MInvite ''s2'' ''b1'') alice_calls)) ''s1'') = Some INVITING
   \<and> map_option s_state (dget (ep_sessions (recv_invite (msg_of MInvite ''s1'' ''a1'') bob_calls)) ''s1'') = Some OFFERED"
proof -
  define sa where "sa = new_session ''s1'' Initiator INVITING ''b1'' (Some ''b1'') None"
  define sb where "sb = new_session ''s2'' Initiator INVITING ''a1'' (Some ''a1'') None"
  have 1: "admitted alice_calls (msg_of MInvite ''s2'' ''b1'')" "admitted bob_calls (msg_of MInvite ''s1'' ''a1'')" by code_simp+
  have 2: "rivals alice_calls (identity_of alice_calls (m_from (msg_of MInvite ''s2'' ''b1''))) = [sa]"
      "rivals bob_calls (identity_of bob_calls (m_from (msg_of MInvite ''s1'' ''a1''))) = [sb]"
      "dget (ep_sessions alice_calls) (s_id sa) = Some sa" "dget (ep_sessions bob_calls) (s_id sb) = Some sb"
      "m_id (msg_of MInvite ''s1'' ''a1'') = s_id sa" "m_id (msg_of MInvite ''s2'' ''b1'') = s_id sb" "s_id sa < s_id sb"
    unfolding sa_def sb_def by code_simp+
  have 3: "s_id sa = ''s1''" "s_state sa = INVITING" by (simp_all add: sa_def)
  show ?thesis
    using glare_agreement [OF 1(1) 2(1,3) 1(2) 2(2,4,5,6)] 2(7) unfolding 3 by blast
qed

text \<open>Glare of updates. When both sides of an active session have sent an update and receive the other's, both
  keep the same update: the one with the smaller id stays outstanding at its sender and becomes the inbound one at
  the other side, whose own update is withdrawn (\<open>session.glare\<close>).\<close>

theorem update_glare_agreement:
  assumes "dget (ep_sessions A) i = Some sa" "dget (ep_sessions B) i = Some sb"
    and "s_state sa = ACTIVE" "s_state sb = ACTIVE"
    and "s_outstanding sa = Some (ua, Outbound)" "s_outstanding sb = Some (ub, Outbound)"
    and "m_id mA = ua" "m_id mB = ub" "ua < ub"
  defines "outA \<equiv> Option.bind (dget (ep_sessions (recv_update i sa mB A)) i) s_outstanding"
    and "outB \<equiv> Option.bind (dget (ep_sessions (recv_update i sb mA B)) i) s_outstanding"
  shows "outA = Some (ua, Outbound) \<and> outB = Some (ua, Inbound)
    \<and> Ui (UiUpdateRejected ''session.glare'') \<in> set (ep_out (recv_update i sb mA B))"
  using assms(1-9) unfolding outA_def outB_def
  by (auto simp: recv_update_def sends Let_def split: option.split)

definition alice_updates :: "string \<Rightarrow> endpoint" where
  "alice_updates u = put_session ((new_session ''s1'' Initiator ACTIVE ''b1'' (Some ''b1'') None)\<lparr>s_outstanding := Some (u, Outbound)\<rparr>)
     (init_endpoint alice_ctx)"

theorem update_glare_agreement_witness:
  "Option.bind (dget (ep_sessions (recv_update ''s1'' (the (dget (ep_sessions (alice_updates ''u1'')) ''s1''))
      (msg_of MUpdate ''u2'' ''b1'') (alice_updates ''u1''))) ''s1'') s_outstanding = Some (''u1'', Outbound)"
proof -
  define s where "s u = (new_session ''s1'' Initiator ACTIVE ''b1'' (Some ''b1'') None)\<lparr>s_outstanding := Some (u, Outbound)\<rparr>" for u
  have s: "dget (ep_sessions (alice_updates u)) ''s1'' = Some (s u)" for u
    by (simp add: alice_updates_def s_def)
  have "s_state (s u) = ACTIVE" "s_outstanding (s u) = Some (u, Outbound)" for u by (simp_all add: s_def)
  moreover have "m_id (msg_of t u d) = u" for t u d by (simp add: msg_of_def)
  moreover have "''u1'' < (''u2'' :: string)" by code_simp
  ultimately show ?thesis
    using update_glare_agreement [OF s s, of "''u1''" "''u2''" "''u1''" "''u2''" "msg_of MUpdate ''u1'' ''a1''" "msg_of MUpdate ''u2'' ''b1''"] s
    by simp
qed

section \<open>Late answers\<close>

text \<open>An answer that comes too late is answered by exactly one \<open>bye\<close> whose reason tells why: the attempt was
  cancelled, was answered by another device, or failed; the session and its media are left alone.\<close>

theorem late_answer:
  assumes "m_type m = MAnswer" "m_in_reply_to m = None" "m_session m = Some i"
    and "dget (ep_sessions ep) i = Some s" "s_id s = i" "s_role s = Initiator"
    and "s_state s = ENDED \<or> s_state s = ACTIVE \<and> s_answered_device s \<noteq> Some (m_from m)"
  shows "recv_msg m ep = Some (ep\<lparr>ep_out := ep_out ep @ [Send ((msg0 ''bye'')\<lparr>o_to := Some (m_from m), o_session := Some i,
      o_reason := Some (if s_state s = ACTIVE then ''session.already-answered''
                        else if s_cancelled s then ''session.cancelled''
                        else if s_was_active s then ''session.already-answered'' else ''session.failed'')\<rparr>)]\<rparr>)"
  using assms
  by (auto simp: recv_msg_def recv_session_def find_session_def recv_ended_def session_handler_def recv_answer_def
      send_def emit_def)

definition alice_cancelled :: endpoint where
  "alice_cancelled = the (ep_step alice_calls (Local (InSession ''s1'' Cancel)))"

theorem late_answer_witness:
  "recv_msg ((msg_of MAnswer ''m1'' ''b1'')\<lparr>m_session := Some ''s1''\<rparr>) alice_cancelled
   = Some (alice_cancelled\<lparr>ep_out := ep_out alice_cancelled @ [Send ((msg0 ''bye'')\<lparr>o_to := Some ''b1'', o_session := Some ''s1'',
       o_reason := Some ''session.cancelled''\<rparr>)]\<rparr>)"
proof -
  define s where "s = (new_session ''s1'' Initiator ENDED ''b1'' (Some ''b1'') None)\<lparr>s_cancelled := True\<rparr>"
  have "dget (ep_sessions alice_cancelled) ''s1'' = Some s" unfolding s_def by code_simp
  moreover have "s_id s = ''s1''" "s_role s = Initiator" "s_state s = ENDED" "s_cancelled s" by (simp_all add: s_def)
  ultimately show ?thesis
    using late_answer [of "(msg_of MAnswer ''m1'' ''b1'')\<lparr>m_session := Some ''s1''\<rparr>" "''s1''" alice_cancelled s]
    by (simp add: msg_of_def)
qed


section \<open>Presence keys\<close>

lemma above_nth:
  assumes "sorted_wrt (<) xs" "k < length xs"
  shows "card {y \<in> set xs. xs ! k < (y :: nat)} = length xs - Suc k"
proof -
  have e: "xs = take k xs @ xs ! k # drop (Suc k) xs" using assms(2) by (rule id_take_nth_drop)
  have "sorted_wrt (<) (take k xs @ xs ! k # drop (Suc k) xs)" using assms(1) by (simp only: e [symmetric])
  then have lt: "\<forall>y \<in> set (take k xs). y < xs ! k" "\<forall>y \<in> set (drop (Suc k) xs). xs ! k < y"
    by (simp_all add: sorted_wrt_append)
  have "set xs = set (take k xs @ xs ! k # drop (Suc k) xs)" using e by (rule arg_cong)
  then have "set xs = set (take k xs) \<union> {xs ! k} \<union> set (drop (Suc k) xs)" by simp
  note sx = this
  have "{y \<in> set xs. xs ! k < y} = set (drop (Suc k) xs)"
  proof (intro equalityI subsetI)
    fix y assume "y \<in> {y \<in> set xs. xs ! k < y}"
    then have y: "y \<in> set (take k xs) \<union> {xs ! k} \<union> set (drop (Suc k) xs)" "xs ! k < y" unfolding sx by blast+
    then have "y \<notin> set (take k xs)" "y \<noteq> xs ! k" using bspec [OF lt(1), of y] by (meson less_asym, simp)
    with y(1) show "y \<in> set (drop (Suc k) xs)" by blast
  next
    fix y assume "y \<in> set (drop (Suc k) xs)"
    with lt(2) show "y \<in> {y \<in> set xs. xs ! k < y}" unfolding sx by blast
  qed
  moreover have "distinct (drop (Suc k) xs)" using assms(1) by (simp add: strict_sorted_iff)
  ultimately show ?thesis by (simp add: distinct_card)
qed

lemma in_drop_nth: "x \<in> set (drop n xs) \<longleftrightarrow> (\<exists>k. n \<le> k \<and> k < length xs \<and> x = xs ! k)"
proof
  assume "x \<in> set (drop n xs)"
  then obtain j where "j < length xs - n" "x = drop n xs ! j" by (auto simp: in_set_conv_nth)
  then show "\<exists>k. n \<le> k \<and> k < length xs \<and> x = xs ! k" by (intro exI [of _ "n + j"]) auto
next
  assume "\<exists>k. n \<le> k \<and> k < length xs \<and> x = xs ! k"
  then obtain k where "n \<le> k" "k < length xs" "x = xs ! k" by blast
  then have "drop n xs ! (k - n) = x" "k - n < length (drop n xs)" by simp_all
  then show "x \<in> set (drop n xs)" by (metis nth_mem)
qed

lemma in_keep_two: assumes "finite S" shows "x \<in> keep_two S \<longleftrightarrow> x \<in> S \<and> card {y \<in> S. x < y} < 2"
proof -
  let ?xs = "sorted_list_of_set S"
  have xs: "set ?xs = S" "sorted_wrt (<) ?xs" using assms by simp_all
  have "x \<in> keep_two S \<longleftrightarrow> (\<exists>k. length ?xs - 2 \<le> k \<and> k < length ?xs \<and> x = ?xs ! k)"
    unfolding keep_two_def Let_def by (rule in_drop_nth)
  moreover have "x \<in> S \<longleftrightarrow> (\<exists>k. k < length ?xs \<and> x = ?xs ! k)"
    using in_set_conv_nth [of x ?xs] xs(1) by auto
  moreover have "length ?xs - 2 \<le> k \<longleftrightarrow> card {y \<in> S. ?xs ! k < y} < 2" if "k < length ?xs" for k
    using above_nth [OF xs(2) that] that unfolding xs(1) by linarith
  ultimately show ?thesis by blast
qed

lemma two_above:
  assumes "finite S" "z \<in> S" "z \<notin> keep_two S"
  shows "\<exists>a b. a \<in> keep_two S \<and> b \<in> keep_two S \<and> a \<noteq> b \<and> z < a \<and> z < b"
proof -
  let ?xs = "sorted_list_of_set S"
  have xs: "set ?xs = S" "sorted_wrt (<) ?xs" using assms by simp_all
  have "z \<in> set ?xs" using assms(2) xs(1) by simp
  then obtain k where k: "k < length ?xs" "z = ?xs ! k" unfolding in_set_conv_nth by blast
  have kn: "k < length ?xs - 2"
  proof (rule ccontr)
    assume "\<not> k < length ?xs - 2"
    then have "z \<in> keep_two S" unfolding keep_two_def Let_def in_drop_nth using k by (intro exI [of _ k]) simp
    with assms(3) show False by blast
  qed
  let ?p = "length ?xs - 2" and ?q = "length ?xs - 1"
  have l: "?p < length ?xs" "?q < length ?xs" "?p < ?q" "?p \<le> ?q" using kn by linarith+
  have "?xs ! ?p \<in> keep_two S" "?xs ! ?q \<in> keep_two S"
    unfolding keep_two_def Let_def in_drop_nth using l by blast+
  moreover have "z < ?xs ! ?p" "z < ?xs ! ?q" "?xs ! ?p < ?xs ! ?q"
    unfolding k(2) using sorted_wrt_nth_less [OF xs(2)] kn l by (meson less_trans)+
  ultimately show ?thesis by (intro exI [of _ "?xs ! ?p"] exI [of _ "?xs ! ?q"]) simp
qed

lemma keep_two_insert: assumes "finite S" shows "keep_two (insert e (keep_two S)) = keep_two (insert e S)"
proof -
  have fin: "finite (keep_two S)" and sub: "keep_two S \<subseteq> S"
    using in_keep_two [OF assms] by (auto intro: finite_subset [OF _ assms])
  show ?thesis
  proof (rule set_eqI)
    fix x
    let ?A = "{y \<in> insert e (keep_two S). x < y}" and ?B = "{y \<in> insert e S. x < y}"
    have AB: "?A \<subseteq> ?B" using sub by auto
    have fB: "finite ?B" using assms by simp
    show "x \<in> keep_two (insert e (keep_two S)) \<longleftrightarrow> x \<in> keep_two (insert e S)"
    proof (cases "\<exists>z \<in> S - keep_two S. x \<le> z")
      case True
      then obtain z where z: "z \<in> S" "z \<notin> keep_two S" "x \<le> z" by blast
      have "2 \<le> card {y \<in> S. z < y}" using z in_keep_two [OF assms, of z] by auto
      obtain a b where ab: "a \<in> keep_two S" "b \<in> keep_two S" "a \<noteq> b" "z < a" "z < b"
        using two_above [OF assms z(1,2)] by blast
      have "{a, b} \<subseteq> ?A" "{a, b} \<subseteq> ?B" using ab z(3) sub by auto
      then have "card {a, b} \<le> card ?A" "card {a, b} \<le> card ?B"
        using card_mono fB finite_subset [OF AB fB] by blast+
      moreover have "x \<noteq> e \<or> x = e" by simp
      ultimately show ?thesis using ab(3) in_keep_two [of "insert e S" x] in_keep_two [of "insert e (keep_two S)" x] assms fin
        by auto
    next
      case False
      then have "?A = ?B" "x \<in> insert e (keep_two S) \<longleftrightarrow> x \<in> insert e S" using sub by (auto dest: less_imp_le)
      then show ?thesis using in_keep_two [of "insert e S" x] in_keep_two [of "insert e (keep_two S)" x] assms fin by simp
    qed
  qed
qed


lemma finite_keep_two: "finite S \<Longrightarrow> finite (keep_two S)"
  using in_keep_two [of S] by (auto intro: finite_subset [of _ S])

lemma hold_kid: "short_epoch (kid_of sc e) \<Longrightarrow> hold_key by (kid_of sc e) held = Some (let scopes = dget_or held by [] in
    dset by (dset sc (keep_two (insert e (dget_or scopes sc {}))) scopes) held)"
  using numeral_no_dot [OF show_nat_digits]
  by (simp add: hold_key_def kid_of_def rpartition_dot show_nat_digits parse_show_nat Let_def short_epoch_def int_of_digits_def)

definition held_epochs :: "(string, (string, nat set) dict) dict \<Rightarrow> string \<Rightarrow> string \<Rightarrow> nat set" where
  "held_epochs held by sc = dget_or (dget_or held by []) sc {}"

lemma held_hold_kid: "hold_key by (kid_of sc e) held = Some held' \<Longrightarrow> short_epoch (kid_of sc e) \<Longrightarrow> held_epochs held' by' sc'
    = (if by' = by \<and> sc' = sc then keep_two (insert e (held_epochs held by sc)) else held_epochs held by' sc')"
proof -
  assume "hold_key by (kid_of sc e) held = Some held'" "short_epoch (kid_of sc e)"
  then have "held' = (let scopes = dget_or held by [] in dset by (dset sc (keep_two (insert e (dget_or scopes sc {}))) scopes) held)"
    by (simp add: hold_kid)
  then show ?thesis by (simp add: held_epochs_def Let_def dget_or_def)
qed

lemma hold_keys_append: "hold_keys by (xs @ ys) held = Option.bind (hold_keys by xs held) (hold_keys by ys)"
proof (induction xs arbitrary: held)
  case (Cons x xs)
  then show ?case by (cases "hold_key by x held") simp_all
qed simp

text \<open>Presence keys travel by name: the wire name \<open>scope.epoch\<close> that a grant lists is read back by the grantee as
  exactly that scope and epoch, and of each scope of each grantor the grantee holds the two highest epochs it was
  ever sent, whatever the order in which they arrived; nothing else. The epochs are short enough for \<open>int\<close>.\<close>

theorem held_keys_are_two_highest:
  assumes "list_all short_epoch (map (\<lambda>(sc, e). kid_of sc e) ks)"
  shows "\<exists>held. hold_keys by (map (\<lambda>(sc, e). kid_of sc e) ks) [] = Some held
    \<and> held_epochs held by sc = {e. (sc, e) \<in> set ks \<and> card {e'. (sc, e') \<in> set ks \<and> e < e'} < 2}"
proof -
  have fin: "finite {e. (sc, e) \<in> set xs}" for xs :: "(string \<times> nat) list"
    by (rule finite_subset [of _ "snd ` set xs"]) force+
  have "\<exists>held. hold_keys by (map (\<lambda>(sc, e). kid_of sc e) ks) [] = Some held \<and> held_epochs held by sc = keep_two {e. (sc, e) \<in> set ks}"
    using assms
  proof (induction ks rule: rev_induct)
    case Nil
    then show ?case by (simp add: held_epochs_def dget_or_def keep_two_def)
  next
    case (snoc k ks)
    then obtain held where held: "hold_keys by (map (\<lambda>(sc, e). kid_of sc e) ks) [] = Some held" "held_epochs held by sc = keep_two {e. (sc, e) \<in> set ks}"
      by auto
    obtain sc' e where k: "k = (sc', e)" by (cases k)
    have short: "short_epoch (kid_of sc' e)" using snoc.prems by (simp add: k)
    then obtain held' where held': "hold_key by (kid_of sc' e) held = Some held'" by (simp add: hold_kid)
    have "{e'. (sc, e') \<in> set (ks @ [k])} = (if sc' = sc then insert e {e'. (sc, e') \<in> set ks} else {e'. (sc, e') \<in> set ks})"
      by (auto simp: k)
    with held held_hold_kid [OF held' short, where by' = "by" and sc' = sc] held' keep_two_insert [OF fin [of ks], of e] show ?case
      by (cases "sc' = sc") (simp_all add: k hold_keys_append)
  qed
  then show ?thesis using in_keep_two [OF fin [of ks]] by auto
qed

text \<open>A grant that lists a key with a longer epoch raises.\<close>

lemma long_epoch_raises:
  assumes "is_numeral e" "INT_MAX_STR_DIGITS < length e" "dget (ep_pending_sent ep) i = Some who"
    and "m_type m = MGrant" "m_session m = Some i" "m_presence_keys m = Some [sc @ CHR ''.'' # e]"
  shows "ep_step ep (Recv m) = None"
  using assms numeral_no_dot [OF assms(1)]
  by (simp add: recv_msg_def recv_grant_def hold_key_def rpartition_dot int_of_digits_def opt_or_def Let_def)

subsection \<open>Rotation\<close>

lemma regrant_one_keys: "keys_inv ep \<Longrightarrow> regrant_one scopes gid ep = Some ep'
    \<Longrightarrow> ep_epochs ep' = ep_epochs ep \<and> ep_due ep' = ep_due ep \<and> ep_last_rotated ep' = ep_last_rotated ep"
proof -
  assume k: "keys_inv ep" and r: "regrant_one scopes gid ep = Some ep'"
  then obtain g where g: "dget (ep_grants_issued ep) gid = Some g" by (auto simp: regrant_one_def bind_eq_Some_conv)
  have "key_scopes (ep\<lparr>ep_grants_issued := d, ep_grant_ids := ids\<rparr>) (g_scope g) (g_audience g) = g_keys g" for d ids
    using k g key_scopes_cong [of "ep\<lparr>ep_grants_issued := d, ep_grant_ids := ids\<rparr>" ep] by (auto simp: keys_inv_def)
  with r g show ?thesis
    using setdefault_present [of "g_keys g" "ep_epochs ep"] keys_inv_carried [OF k g]
    by (auto simp: regrant_one_def split: if_splits list.splits simp del: not_None_eq)
qed

lemma regrant_keys: "keys_inv ep \<Longrightarrow> regrant_all scopes gids ep = Some ep'
    \<Longrightarrow> ep_epochs ep' = ep_epochs ep \<and> ep_due ep' = ep_due ep \<and> ep_last_rotated ep' = ep_last_rotated ep"
proof (induction gids arbitrary: ep)
  case (Cons gid gids)
  then obtain e where e: "regrant_one scopes gid ep = Some e" "regrant_all scopes gids e = Some ep'"
    by (auto simp: bind_eq_Some_conv)
  from Cons.IH [OF keys_inv_regrant_one [OF Cons.prems(1) e(1)] e(2)] regrant_one_keys [OF Cons.prems(1) e(1)]
  show ?case by simp
qed simp

lemma rotate_scopes_keys: "distinct scs \<Longrightarrow> rotate_scopes scs ep = Some ep' \<Longrightarrow>
    dget (ep_epochs ep') sc = (if sc \<in> set scs then map_option Suc (dget (ep_epochs ep) sc) else dget (ep_epochs ep) sc)
    \<and> dget (ep_due ep') sc = (if sc \<in> set scs then None else dget (ep_due ep) sc)
    \<and> dget (ep_last_rotated ep') sc = (if sc \<in> set scs then Some (ep_now ep) else dget (ep_last_rotated ep) sc)"
proof (induction scs arbitrary: ep)
  case (Cons sc' scs)
  then obtain e where e: "dget (ep_epochs ep) sc' = Some e" "rotate_scopes scs (emit (KeysRotated sc' (Suc e))
       (ep\<lparr>ep_due := ddel sc' (ep_due ep), ep_epochs := dset sc' (Suc e) (ep_epochs ep),
          ep_last_rotated := dset sc' (ep_now ep) (ep_last_rotated ep)\<rparr>)) = Some ep'"
    by (auto simp: bind_eq_Some_conv)
  from Cons.IH [OF _ e(2)] Cons.prems(1) e(1) show ?case by simp
qed simp

lemma rotate_due_scope:
  assumes "keys_inv ep" "rotate_due ep = Some ep'" "dget (ep_due ep) sc = Some t" "dget (ep_epochs ep) sc = Some e"
  shows "if t \<le> ep_now ep then dget (ep_epochs ep') sc = Some (Suc e) \<and> dget (ep_last_rotated ep') sc = Some (ep_now ep)
    else dget (ep_epochs ep') sc = Some e \<and> dget (ep_due ep') sc = Some t"
proof -
  obtain e1 where e1: "rotate_scopes (due_now ep) ep = Some e1" "regrant_carrying (set (due_now ep)) e1 = Some ep'"
    using assms(2) by (auto simp: rotate_due_def Let_def bind_eq_Some_conv)
  have k: "keys_inv e1" by (rule keys_inv_rotate_scopes [OF assms(1) e1(1)])
  have same: "ep_epochs ep' = ep_epochs e1" "ep_due ep' = ep_due e1" "ep_last_rotated ep' = ep_last_rotated e1"
    using e1(2) regrant_keys [OF k] by (auto simp: regrant_carrying_def split: if_splits)
  have dk: "distinct (dkeys (ep_due ep))" using assms(1) by (simp add: keys_inv_def)
  have "sc \<in> set (due_now ep) \<Longrightarrow> t \<le> ep_now ep"
    using assms(3) dk by (auto simp: due_now_def) (metis map_of_eq_Some_iff option.inject)
  with rotate_scopes_keys [OF due_now_spec(1) [OF assms(1)] e1(1), of sc] due_now_spec(3) [OF assms(1,3)] assms(3,4)
  show ?thesis by (auto simp: same)
qed

lemma due_scopes_due:
  "sc \<in> set scs \<Longrightarrow> sc \<notin> set keep \<Longrightarrow> dget (ep_due (foldl (due_scope keep) ep scs)) sc \<noteq> None"
proof (induction scs arbitrary: ep)
  case (Cons sc' scs)
  have stays: "dget (ep_due e) sc \<noteq> None \<Longrightarrow> dget (ep_due (foldl (due_scope keep) e xs)) sc \<noteq> None" for e xs
    by (induction xs arbitrary: e) (auto simp: due_scope_def)
  have "dget (ep_due (due_scope keep ep sc)) sc \<noteq> None" using Cons.prems(2) by (auto simp: due_scope_def)
  with stays Cons show ?case by auto
qed simp

text \<open>Revoking a grant takes its keys out of use: each scope it carried is rotated to the next epoch at once, or,
  when the scope was rotated less than \<open>t_rotate\<close> ago, is due for rotation at an instant still to come.\<close>

theorem revoked_keys_rotate:
  assumes "reaches ep_step ok_event (init_endpoint c) ep" "dget (ep_grants_issued ep) gid = Some g" "\<not> g_ended g"
    and "revoke_grant gid ep = Some ep'" "sc \<in> set (g_keys g)" "dget (ep_epochs ep) sc = Some e"
  shows "dget (ep_epochs ep') sc = Some (Suc e) \<and> dget (ep_last_rotated ep') sc = Some (ep_now ep)
    \<or> dget (ep_epochs ep') sc = Some e \<and> (\<exists>t > ep_now ep. dget (ep_due ep') sc = Some t)"
proof -
  have k: "keys_inv ep" using endpoint.reaches_inv [OF assms(1) init_inv] by (simp add: engine_inv_def)
  let ?e = "emit (Revoked (gid # g_chain g)) (ep\<lparr>ep_grants_issued := ddel gid (ep_grants_issued ep)\<rparr>)"
  have r: "rotate_due (end_grant g [] ?e) = Some ep'" using assms(2,4) by (simp add: revoke_grant_def Let_def)
  have only: "due_only ?e (end_grant g [] ?e)"
    by (rule end_grant_only) (use keys_inv_del [OF k] keys_inv_carried [OF k assms(2)] in simp_all)
  then have "keys_inv (end_grant g [] ?e)" by (rule keys_inv_due [rotated]) (simp add: keys_inv_del [OF k])
  moreover obtain t where "dget (ep_due (end_grant g [] ?e)) sc = Some t"
    using due_scopes_due [OF assms(5), of "[]" ?e] assms(3) by (auto simp: end_grant_def)
  ultimately show ?thesis
    using rotate_due_scope [OF _ r, of sc t e] due_only_simps [OF only] assms(6) by (auto split: if_splits)
qed

definition keys_demo :: ctx where
  "keys_demo = alice_ctx\<lparr>cx_keys := Some \<lparr>kc_sealed = [''main''], kc_t_rotate = None, kc_grant_ids = [''g2'']\<rparr>\<rparr>"

definition introduced :: endpoint where
  "introduced = the (ep_step (init_endpoint keys_demo) (Recv (msg_of MIntroduction ''i1'' ''b1'')))"

definition granted :: endpoint where
  "granted = the (ep_step introduced (Local (IssueGrant ''i1'' ''g1'' (Some [''dsip.subscribe'']) 5000 None)))"

lemma granted_reached: "reaches ep_step ok_event (init_endpoint keys_demo) granted"
proof -
  have "reaches ep_step ok_event (init_endpoint keys_demo) introduced"
    by (rule reaches_step [of ep_step ok_event _ "init_endpoint keys_demo" "Recv (msg_of MIntroduction ''i1'' ''b1'')", OF reaches_refl])
      (simp_all add: introduced_def msg_of_def recv_msg_def)
  then show ?thesis
    by (rule reaches_step [of ep_step ok_event _ introduced "Local (IssueGrant ''i1'' ''g1'' (Some [''dsip.subscribe'']) 5000 None)"])
      (simp_all add: granted_def)
qed

theorem revoked_keys_rotate_witness:
  "\<exists>ep'. revoke_grant ''g1'' granted = Some ep' \<and> dget (ep_epochs ep') ''main'' = Some 1"
proof -
  define g where "g = the (dget (ep_grants_issued granted) ''g1'')"
  have "dget (ep_grants_issued granted) ''g1'' \<noteq> None" "\<not> g_ended g" "''main'' \<in> set (g_keys g)"
    "dget (ep_epochs granted) ''main'' = Some 0" "revoke_grant ''g1'' granted \<noteq> None"
    "dget (ep_epochs (the (revoke_grant ''g1'' granted))) ''main'' \<noteq> Some 0"
    unfolding g_def by code_simp+
  then obtain ep' where "revoke_grant ''g1'' granted = Some ep'" "dget (ep_epochs ep') ''main'' \<noteq> Some 0"
    and g: "dget (ep_grants_issued granted) ''g1'' = Some g" "\<not> g_ended g" "''main'' \<in> set (g_keys g)"
      "dget (ep_epochs granted) ''main'' = Some 0"
    unfolding g_def by auto
  with revoked_keys_rotate [OF granted_reached g(1,2) _ g(3,4)] show ?thesis by fastforce
qed

section \<open>An invite under the id of a held session\<close>

text \<open>C8: An invite under the id of a held session does not leave that session alone: when its sender is not admitted,
  the rejected invite replaces the session by an ended one, even an active call with another peer, whose media is
  not stopped and of whose end the user is not told.\<close>

theorem rejected_invite_replaces_session:
  assumes "dget (ep_sessions ep) (m_id m) = Some s" "s_state s = ACTIVE" "m_type m = MInvite"
    and "ep_first_contact ep" "identity_of ep (m_from m) \<notin> ep_allow ep" "\<not> has_grant ep (identity_of ep (m_from m))"
    and "ep_step ep (Recv m) = Some ep'"
  shows "dget (ep_sessions ep') (m_id m) = Some (new_session (m_id m) Responder ENDED (m_from m) None None)
    \<and> Media MediaStop \<notin> set (ep_out ep') \<and> (\<forall>r. Ui (UiEnded r) \<notin> set (ep_out ep'))"
proof -
  have "ep' = recv_invite m (ep\<lparr>ep_out := []\<rparr>)" using assms(3,7) by (simp add: recv_msg_def)
  moreover have "\<not> admitted (ep\<lparr>ep_out := []\<rparr>) m"
    using assms(4-6) by (simp add: admitted_def identity_of_def has_grant_def)
  ultimately show ?thesis
    by (simp add: recv_invite_def admitted_def reject_invite_def sends Let_def)
qed

text \<open>A winning invite takes the place of whatever session is held under its id.\<close>

lemma winning_invite_overwrites:
  assumes "m_type m = MInvite" "admitted ep m" "rivals ep (identity_of ep (m_from m)) = r # rs" "m_id m < s_id r"
    and "ep_step ep (Recv m) = Some ep'"
  shows "dget (ep_sessions ep') (m_id m) = Some (new_session (m_id m) Responder OFFERED (m_from m) (m_to m) (m_expires_at m))"
proof -
  have "rivals (ep\<lparr>ep_out := []\<rparr>) (identity_of (ep\<lparr>ep_out := []\<rparr>) (m_from m)) = r # rs" using assms(3) by (simp add: rivals_def identity_of_def)
  moreover have "\<not> s_id r < m_id m" "s_id r \<noteq> m_id m" using assms(4) by auto
  moreover have "admitted (ep\<lparr>ep_out := []\<rparr>) m" using assms(2) by (simp add: admitted_def identity_of_def has_grant_def)
  ultimately show ?thesis
    using assms(1,5) by (auto simp: recv_msg_def recv_invite_def admitted_def offer_def Let_def)
qed

definition in_call :: endpoint where
  "in_call = put_session (new_session ''s1'' Initiator ACTIVE ''carol'' (Some ''carol'') None) cautious"

theorem rejected_invite_replaces_session_witness:
  "\<exists>ep'. ep_step in_call (Recv (msg_of MInvite ''s1'' ''b1'')) = Some ep' \<and> Media MediaStop \<notin> set (ep_out ep')
     \<and> st in_call ''s1'' = Some ACTIVE \<and> st ep' ''s1'' = Some ENDED"
proof -
  obtain ep' where ep': "ep_step in_call (Recv (msg_of MInvite ''s1'' ''b1'')) = Some ep'"
    by (simp add: recv_msg_def msg_of_def)
  define s where "s = new_session ''s1'' Initiator ACTIVE ''carol'' (Some ''carol'') None"
  have "dget (ep_sessions in_call) (m_id (msg_of MInvite ''s1'' ''b1'')) = Some s" "s_state s = ACTIVE"
    "m_type (msg_of MInvite ''s1'' ''b1'') = MInvite" "ep_first_contact in_call"
    "identity_of in_call (m_from (msg_of MInvite ''s1'' ''b1'')) \<notin> ep_allow in_call"
    "\<not> has_grant in_call (identity_of in_call (m_from (msg_of MInvite ''s1'' ''b1'')))"
    unfolding s_def by code_simp+
  from rejected_invite_replaces_session [OF this ep'] ep' this(1,2) show ?thesis by (auto simp: msg_of_def)
qed

end
