(* ===== verification/Relay_Model.thy ===== *)
theory Relay_Model
  imports Prelude
begin

text \<open>
  The forking relay of \<^verbatim>\<open>dsipvec/relay.py\<close>: the attempts with their legs, the bindings of devices to
  identities, and the store-and-forward queues. An \<open>Attempt\<close> object is reached by its session id in
  \<open>rl_attempts\<close>; mutation of the object is \<open>put_attempt\<close>. The field \<open>order\<close> of the code is never read and is
  left out.
\<close>

section \<open>Data\<close>

datatype leg_state = Delivered | Answered | Rejected | Expired | Cancelled

datatype outcome = OAnswered | ORejected | OCancelled | ONoResponse

record attempt =
  at_session :: string
  at_initiator :: string
  at_identity :: string
  at_legs :: "(string, leg_state) dict"
  at_reasons :: "(string, string) dict"
  at_outcome :: "outcome option"
  at_last :: int
  at_heard :: "string set"

text \<open>A message: \<open>type\<close>, \<open>id\<close> and \<open>from\<close> are always there, the other keys may be absent.\<close>

record rmsg =
  rm_type :: string
  rm_id :: string
  rm_from :: string
  rm_to :: "string option"
  rm_session :: "string option"
  rm_reason :: "string option"
  rm_in_reply_to :: "string option"
  rm_expires_at :: "int option"
  rm_status :: "string option"

record queued =
  q_msg :: rmsg
  q_arrival :: nat
  q_deadline :: int

text \<open>What the relay does: \<open>deliver\<close> to a leg (leg, type, id, reason), \<open>queue\<close>, \<open>dequeue\<close>, \<open>send\<close> of its own error
  (to, session, reason, in reply to), \<open>forward\<close> to the initiator and \<open>drop\<close>.\<close>

datatype relay_out =
    Deliver string string "string option" "string option"
  | Queue string string
  | Dequeue string string string
  | RelayError string "string option" string string
  | ForwardProgress "string option" string
  | ForwardAnswer string
  | ForwardReject string string
  | RelayDrop string

record relay =
  rl_now :: int
  rl_attempts :: "(string, attempt) dict"
  rl_out :: "relay_out list"
  rl_bindings :: "(string, string set) dict"
  rl_devices :: "(string, string) dict"
  rl_inbox :: "(string, queued list) dict"
  rl_arrivals :: nat
  rl_retention :: int
  rl_invites :: "(string, rmsg) dict"
  rl_last_bound :: "(string, int) dict"

datatype relay_event =
    RAdvance int
  | RInvite string string string "string list"
  | Bind string string
  | Unbind string string
  | LegExpired string string
  | RRecv rmsg

definition REASON_RANK :: "string list" where
  "REASON_RANK = [''user.declined'', ''user.no-answer'', ''endpoint.busy'', ''endpoint.unavailable'']"

definition T_QUEUE_CAP_S :: int where "T_QUEUE_CAP_S = 1800"

definition init_relay :: "int option \<Rightarrow> int option \<Rightarrow> relay" where
  "init_relay start retention = \<lparr>rl_now = (case start of Some n \<Rightarrow> n | None \<Rightarrow> 0), rl_attempts = [], rl_out = [],
     rl_bindings = [], rl_devices = [], rl_inbox = [], rl_arrivals = 0,
     rl_retention = (case retention of Some n \<Rightarrow> n | None \<Rightarrow> 86400), rl_invites = [], rl_last_bound = []\<rparr>"

definition new_attempt :: "string \<Rightarrow> string \<Rightarrow> string \<Rightarrow> int \<Rightarrow> attempt" where
  "new_attempt s i t n = \<lparr>at_session = s, at_initiator = i, at_identity = t, at_legs = [], at_reasons = [],
     at_outcome = None, at_last = n, at_heard = {}\<rparr>"

section \<open>Helpers\<close>

definition remit :: "relay_out \<Rightarrow> relay \<Rightarrow> relay" where
  "remit e r = r\<lparr>rl_out := rl_out r @ [e]\<rparr>"

definition put_attempt :: "string \<Rightarrow> attempt \<Rightarrow> relay \<Rightarrow> relay" where
  "put_attempt sid a r = r\<lparr>rl_attempts := dset sid a (rl_attempts r)\<rparr>"

definition bound :: "relay \<Rightarrow> string \<Rightarrow> string set" where
  "bound r who = dget_or (rl_bindings r) who {}"

definition legs_for :: "relay \<Rightarrow> string \<Rightarrow> string list" where
  "legs_for r to = (case dget (rl_devices r) to of
       Some identity \<Rightarrow> if to \<in> bound r identity then [to] else []
     | None \<Rightarrow> sorted_list_of_set (bound r to))"

definition known_recipient :: "relay \<Rightarrow> string \<Rightarrow> bool" where
  "known_recipient r to \<longleftrightarrow> dget (rl_bindings r) to \<noteq> None \<or> dget (rl_devices r) to \<noteq> None"

definition has_delivered :: "attempt \<Rightarrow> bool" where
  "has_delivered a \<longleftrightarrow> Delivered \<in> set (dvals (at_legs a))"

text \<open>The most informative reason: the first of \<open>REASON_RANK\<close> that occurs, else the first given; and its leg.\<close>

definition best_reason :: "string list \<Rightarrow> string" where
  "best_reason rs = (case find (\<lambda>r. r \<in> set rs) REASON_RANK of Some r \<Rightarrow> r | None \<Rightarrow> hd rs)"

definition check_complete :: "string \<Rightarrow> attempt \<Rightarrow> relay \<Rightarrow> relay" where
  "check_complete sid a r =
    (if at_outcome a \<noteq> None \<or> has_delivered a then put_attempt sid a r
     else if at_reasons a = [] then
       remit (RelayError (at_initiator a) (Some (at_session a)) ''transport.no-response'' (at_session a))
         (put_attempt sid (a\<lparr>at_outcome := Some ONoResponse\<rparr>) r)
     else
       (let best = best_reason (dvals (at_reasons a));
            src = fst (the (find (\<lambda>(_, x). x = best) (at_reasons a)))
        in remit (ForwardReject best src) (put_attempt sid (a\<lparr>at_outcome := Some ORejected\<rparr>) r)))"

definition enqueue :: "string \<Rightarrow> rmsg \<Rightarrow> relay \<Rightarrow> relay" where
  "enqueue to m r =
    (let n = Suc (rl_arrivals r);
         limit = rl_now r + rl_retention r;
         q = \<lparr>q_msg = m, q_arrival = n, q_deadline = min (case rm_expires_at m of Some t \<Rightarrow> t | None \<Rightarrow> limit) limit\<rparr>
     in remit (Queue to (rm_type m))
          (r\<lparr>rl_arrivals := n, rl_inbox := dset to (dget_or (rl_inbox r) to [] @ [q]) (rl_inbox r)\<rparr>))"

definition unknown_recipient :: "rmsg \<Rightarrow> relay \<Rightarrow> relay" where
  "unknown_recipient m r = remit (RelayError (rm_from m) None ''transport.unknown-recipient'' (rm_id m)) r"

definition deliver_all :: "string list \<Rightarrow> string \<Rightarrow> string option \<Rightarrow> relay \<Rightarrow> relay" where
  "deliver_all legs t i r = foldl (\<lambda>r d. remit (Deliver d t i None) r) r legs"

definition route_plain :: "rmsg \<Rightarrow> relay \<Rightarrow> relay option" where
  "route_plain m r =
    (let to = (case rm_to m of Some t \<Rightarrow> t | None \<Rightarrow> []);
         legs = legs_for r to
     in if legs \<noteq> [] then Some (deliver_all legs (rm_type m) (Some (rm_id m)) r)
        else if known_recipient r to then map_option (\<lambda>to. enqueue to m r) (rm_to m)
        else Some (unknown_recipient m r))"

section \<open>Time\<close>

definition expire_queue :: "relay \<Rightarrow> string \<Rightarrow> relay" where
  "expire_queue r to =
    (let q = dget_or (rl_inbox r) to [];
         late = filter (\<lambda>m. q_deadline m \<le> rl_now r) q;
         keep = filter (\<lambda>m. \<not> q_deadline m \<le> rl_now r) q;
         r = foldl (\<lambda>r m. remit (Dequeue to (rm_type (q_msg m)) ''expired'') r) r late
     in r\<lparr>rl_inbox := (if keep \<noteq> [] then dset to keep (rl_inbox r) else ddel to (rl_inbox r))\<rparr>)"

definition expire_queues :: "relay \<Rightarrow> relay" where
  "expire_queues r = foldl expire_queue r (dsorted (rl_inbox r))"

definition invite_expired :: "relay \<Rightarrow> string \<Rightarrow> bool" where
  "invite_expired r sid = (case Option.bind (dget (rl_invites r) sid) rm_expires_at of
     Some t \<Rightarrow> t \<le> rl_now r | None \<Rightarrow> False)"

definition silent_legs :: "attempt \<Rightarrow> string list" where
  "silent_legs a = filter (\<lambda>leg. dget (at_legs a) leg = Some Delivered \<and> leg \<notin> at_heard a) (dsorted (at_legs a))"

definition silence :: "relay \<Rightarrow> string \<Rightarrow> relay" where
  "silence r sid = (case dget (rl_attempts r) sid of
       None \<Rightarrow> r
     | Some a \<Rightarrow>
         if \<not> invite_expired r sid \<or> silent_legs a = [] then r
         else check_complete sid (a\<lparr>at_legs := foldl (\<lambda>d leg. dset leg Expired d) (at_legs a) (silent_legs a)\<rparr>) r)"

definition expire_silent_legs :: "relay \<Rightarrow> relay" where
  "expire_silent_legs r = foldl silence r (dsorted (rl_attempts r))"

definition forget_attempts :: "relay \<Rightarrow> relay" where
  "forget_attempts r =
    (let old = dkeys (filter (\<lambda>(_, a). at_last a + T_QUEUE_CAP_S < rl_now r) (rl_attempts r))
     in foldl (\<lambda>r sid. r\<lparr>rl_attempts := ddel sid (rl_attempts r), rl_invites := ddel sid (rl_invites r)\<rparr>) r old)"

definition forget_one :: "relay \<Rightarrow> string \<Rightarrow> relay" where
  "forget_one r who =
    (let r = r\<lparr>rl_last_bound := ddel who (rl_last_bound r)\<rparr>
     in case dget (rl_devices r) who of
          Some identity \<Rightarrow> if who \<notin> bound r identity then r\<lparr>rl_devices := ddel who (rl_devices r)\<rparr> else r
        | None \<Rightarrow> if bound r who = {} then r\<lparr>rl_bindings := ddel who (rl_bindings r)\<rparr> else r)"

definition forget :: "relay \<Rightarrow> relay" where
  "forget r =
    (let r = forget_attempts r;
         old = dkeys (filter (\<lambda>(w, t). t + rl_retention r < rl_now r \<and> dget (rl_inbox r) w = None) (rl_last_bound r))
     in foldl forget_one r old)"

section \<open>Relay events\<close>

definition fork :: "string \<Rightarrow> string \<Rightarrow> string \<Rightarrow> string list \<Rightarrow> relay \<Rightarrow> relay" where
  "fork sid from to legs r =
    (let a = (new_attempt sid from to (rl_now r))\<lparr>at_legs := foldl (\<lambda>d leg. dset leg Delivered d) [] legs\<rparr>
     in put_attempt sid a (deliver_all legs ''invite'' None r))"

definition flush_to :: "string \<Rightarrow> relay \<Rightarrow> queued \<Rightarrow> relay" where
  "flush_to device r q =
    (let m = q_msg q in
     if rm_type m = ''invite'' then
       (let sid = rm_id m;
            to = (case rm_to m of Some t \<Rightarrow> t | None \<Rightarrow> []);
            (a, r) = (case dget (rl_attempts r) sid of
                Some a \<Rightarrow> (a, r)
              | None \<Rightarrow> (new_attempt sid (rm_from m) to 0, r\<lparr>rl_invites := dset sid m (rl_invites r)\<rparr>))
        in remit (Deliver device ''invite'' (Some sid) None)
             (put_attempt sid (a\<lparr>at_legs := dset device Delivered (at_legs a), at_last := rl_now r\<rparr>) r))
     else remit (Deliver device (rm_type m) (Some (rm_id m)) None) r)"

definition late_leg :: "string \<Rightarrow> string \<Rightarrow> relay \<Rightarrow> string \<Rightarrow> relay" where
  "late_leg device identity r sid = (case dget (rl_attempts r) sid of
       None \<Rightarrow> r
     | Some a \<Rightarrow>
         if at_identity a = identity \<and> at_outcome a = None \<and> dget (at_legs a) device = None then
           (case dget (rl_invites r) sid of
              None \<Rightarrow> r
            | Some invite \<Rightarrow>
                if rl_now r < (case rm_expires_at invite of Some t \<Rightarrow> t | None \<Rightarrow> rl_now r + 1)
                then remit (Deliver device ''invite'' (Some sid) None)
                       (put_attempt sid (a\<lparr>at_legs := dset device Delivered (at_legs a), at_last := rl_now r\<rparr>) r)
                else r)
         else r)"

definition bind_device :: "string \<Rightarrow> string \<Rightarrow> relay \<Rightarrow> relay" where
  "bind_device device identity r =
    (let r = r\<lparr>rl_bindings := dset identity (insert device (bound r identity)) (rl_bindings r),
               rl_devices := dset device identity (rl_devices r),
               rl_last_bound := ddel device (ddel identity (rl_last_bound r))\<rparr>;
         q1 = dget_or (rl_inbox r) identity [];
         r = r\<lparr>rl_inbox := ddel identity (rl_inbox r)\<rparr>;
         q2 = dget_or (rl_inbox r) device [];
         r = r\<lparr>rl_inbox := ddel device (rl_inbox r)\<rparr>;
         r = foldl (flush_to device) r (sort_key q_arrival (q1 @ q2))
     in foldl (late_leg device identity) r (dsorted (rl_attempts r)))"

definition unbind_device :: "string \<Rightarrow> string \<Rightarrow> relay \<Rightarrow> relay" where
  "unbind_device device identity r =
    (let r = r\<lparr>rl_bindings := dmodify identity (\<lambda>ds. ds - {device}) (rl_bindings r),
               rl_last_bound := dset device (rl_now r) (rl_last_bound r)\<rparr>
     in if bound r identity = {} then r\<lparr>rl_last_bound := dset identity (rl_now r) (rl_last_bound r)\<rparr> else r)"

definition leg_expired :: "string \<Rightarrow> string \<Rightarrow> relay \<Rightarrow> relay" where
  "leg_expired sid leg r = (case dget (rl_attempts r) sid of
       Some a \<Rightarrow> if dget (at_legs a) leg = Some Delivered
                 then check_complete sid (a\<lparr>at_legs := dset leg Expired (at_legs a)\<rparr>) r else r
     | None \<Rightarrow> r)"

section \<open>Received messages\<close>

definition recv_rel_introduction :: "rmsg \<Rightarrow> relay \<Rightarrow> relay option" where
  "recv_rel_introduction m r = do {
     to \<leftarrow> rm_to m;
     let devices = legs_for r to;
     Some (if devices \<noteq> [] then deliver_all devices ''introduction'' None r else enqueue to m r)
   }"

definition recv_rel_invite :: "rmsg \<Rightarrow> relay \<Rightarrow> relay option" where
  "recv_rel_invite m r = do {
     to \<leftarrow> rm_to m;
     let legs = legs_for r to;
     Some (if legs = [] then
             if known_recipient r to then enqueue to m r else unknown_recipient m r
           else fork (rm_id m) (rm_from m) to legs (r\<lparr>rl_invites := dset (rm_id m) m (rl_invites r)\<rparr>))
   }"

text \<open>A message of a session the relay holds no attempt for: a cancel drops the queued invite.\<close>

definition queued_invite :: "string \<Rightarrow> queued \<Rightarrow> bool" where
  "queued_invite sid q \<longleftrightarrow> rm_type (q_msg q) = ''invite'' \<and> rm_id (q_msg q) = sid"

definition cancel_queued :: "string option \<Rightarrow> queued list \<Rightarrow> queued list option" where
  "cancel_queued sess q = (case sess of
       Some sid \<Rightarrow> Some (filter (\<lambda>x. \<not> queued_invite sid x) q)
     | None \<Rightarrow> if list_ex (\<lambda>x. rm_type (q_msg x) = ''invite'') q then None else Some q)"

definition recv_unheld :: "rmsg \<Rightarrow> relay \<Rightarrow> relay option" where
  "recv_unheld m r =
    (if rm_type m = ''cancel'' then do {
       to \<leftarrow> rm_to m;
       let q = dget_or (rl_inbox r) to [];
       rest \<leftarrow> cancel_queued (rm_session m) q;
       if length rest \<noteq> length q then
         Some (remit (Dequeue to ''invite'' ''cancelled'')
           (r\<lparr>rl_inbox := (if rest = [] then ddel to (rl_inbox r) else dset to rest (rl_inbox r))\<rparr>))
       else route_plain m r
     } else route_plain m r)"

text \<open>The initiator's cancel: every outstanding leg, or the leg it is addressed to.\<close>

definition cancel_legs :: "string option \<Rightarrow> attempt \<Rightarrow> string list" where
  "cancel_legs only a = filter (\<lambda>leg. dget (at_legs a) leg = Some Delivered \<and> (only = None \<or> only = Some leg))
     (dsorted (at_legs a))"

definition cancel_attempt :: "string list \<Rightarrow> attempt \<Rightarrow> attempt" where
  "cancel_attempt legs a =
    (let a = a\<lparr>at_legs := foldl (\<lambda>d leg. dset leg Cancelled d) (at_legs a) legs\<rparr>
     in if at_outcome a = None \<and> \<not> has_delivered a then a\<lparr>at_outcome := Some OCancelled\<rparr> else a)"

definition recv_rel_cancel :: "string \<Rightarrow> attempt \<Rightarrow> rmsg \<Rightarrow> relay \<Rightarrow> relay option" where
  "recv_rel_cancel sid a m r =
    (let a = a\<lparr>at_last := rl_now r\<rparr>;
         only = Option.bind (rm_to m) (\<lambda>t. if dget (at_legs a) t \<noteq> None then Some t else None)
     in if only = None \<and> rm_to m \<noteq> None \<and> rm_to m \<noteq> Some (at_identity a) then route_plain m (put_attempt sid a r)
        else if cancel_legs only a \<noteq> [] \<and> rm_reason m = None then None
        else
          (let legs = cancel_legs only a;
               r = foldl (\<lambda>r leg. remit (Deliver leg ''cancel'' None (rm_reason m)) r) r legs
           in Some (put_attempt sid (cancel_attempt legs a) r)))"

text \<open>A message from a leg, \<open>st\<close> the state of the leg.\<close>

definition recv_leg :: "string \<Rightarrow> attempt \<Rightarrow> leg_state \<Rightarrow> rmsg \<Rightarrow> relay \<Rightarrow> relay option" where
  "recv_leg sid a st m r =
    (let leg = rm_from m;
         a = a\<lparr>at_last := rl_now r, at_heard := insert leg (at_heard a)\<rparr>
     in if rm_type m = ''answer'' then
          (let a = (if st = Delivered
                    then a\<lparr>at_legs := dset leg Answered (at_legs a),
                           at_outcome := (if at_outcome a = None then Some OAnswered else at_outcome a)\<rparr>
                    else a)
           in Some (remit (ForwardAnswer leg) (put_attempt sid a r)))
        else if st \<noteq> Delivered then Some (remit (RelayDrop ''leg-terminated'') (put_attempt sid a r))
        else if rm_type m = ''progress'' then Some (remit (ForwardProgress (rm_status m) leg) (put_attempt sid a r))
        else if rm_type m = ''reject'' then do {
          reason \<leftarrow> rm_reason m;
          Some (check_complete sid (a\<lparr>at_legs := dset leg Rejected (at_legs a),
                                      at_reasons := dset leg reason (at_reasons a)\<rparr>) r)
        }
        else Some (remit (RelayDrop ''not-attempt-scoped'') (put_attempt sid a r)))"

definition relay_recv :: "rmsg \<Rightarrow> relay \<Rightarrow> relay option" where
  "relay_recv m r =
    (if rm_type m = ''introduction'' then recv_rel_introduction m r
     else if rm_type m = ''invite'' then recv_rel_invite m r
     else case Option.bind (rm_session m) (\<lambda>s. map_option (Pair s) (dget (rl_attempts r) s)) of
       None \<Rightarrow> recv_unheld m r
     | Some (sid, a) \<Rightarrow>
         if rm_type m \<notin> {''progress'', ''answer'', ''reject'', ''cancel''} \<or> rm_in_reply_to m \<noteq> None
         then route_plain m r
         else if rm_type m = ''cancel'' \<and> rm_from m = at_initiator a then recv_rel_cancel sid a m r
         else case dget (at_legs a) (rm_from m) of
           None \<Rightarrow> route_plain m r
         | Some st \<Rightarrow> recv_leg sid a st m r)"

fun relay_step :: "relay \<Rightarrow> relay_event \<Rightarrow> relay option" where
  "relay_step r (RAdvance n) =
     Some (forget (expire_silent_legs (expire_queues (r\<lparr>rl_out := [], rl_now := rl_now r + n\<rparr>))))"
| "relay_step r (RInvite sid from to legs) = Some (fork sid from to legs (r\<lparr>rl_out := []\<rparr>))"
| "relay_step r (Bind device identity) = Some (bind_device device identity (r\<lparr>rl_out := []\<rparr>))"
| "relay_step r (Unbind device identity) = Some (unbind_device device identity (r\<lparr>rl_out := []\<rparr>))"
| "relay_step r (LegExpired sid leg) = Some (leg_expired sid leg (r\<lparr>rl_out := []\<rparr>))"
| "relay_step r (RRecv m) = relay_recv m (r\<lparr>rl_out := []\<rparr>)"

end
