(* ===== verification/Relay.thy ===== *)
theory Relay
  imports Relay_Model
begin

text \<open>
  The forking relay as a step machine: its invariant (no attempt hangs without an outstanding leg, every queued
  envelope has a deadline within the retention window), that an outcome is final, which reason is forwarded, and
  what the queues deliver.
\<close>

declare map_of_eq_Some_iff [simp del] Some_eq_map_of_iff [simp del]

lemma new_attempt_simps [simp]: "at_legs (new_attempt s i t n) = []" "at_reasons (new_attempt s i t n) = []"
  "at_outcome (new_attempt s i t n) = None"
  by (simp_all add: new_attempt_def)

section \<open>Frames\<close>

lemma remit_simps [simp]:
  "rl_now (remit e r) = rl_now r" "rl_attempts (remit e r) = rl_attempts r" "rl_out (remit e r) = rl_out r @ [e]"
  "rl_bindings (remit e r) = rl_bindings r" "rl_devices (remit e r) = rl_devices r" "rl_inbox (remit e r) = rl_inbox r"
  "rl_arrivals (remit e r) = rl_arrivals r" "rl_retention (remit e r) = rl_retention r"
  "rl_invites (remit e r) = rl_invites r" "rl_last_bound (remit e r) = rl_last_bound r"
  by (simp_all add: remit_def)

lemma remits: "foldl (\<lambda>r x. remit (f x) r) r xs = r\<lparr>rl_out := rl_out r @ map f xs\<rparr>"
  by (induction xs arbitrary: r) (simp_all add: remit_def)

lemma put_attempt_simps [simp]:
  "rl_now (put_attempt s a r) = rl_now r" "rl_attempts (put_attempt s a r) = dset s a (rl_attempts r)"
  "rl_out (put_attempt s a r) = rl_out r" "rl_bindings (put_attempt s a r) = rl_bindings r"
  "rl_inbox (put_attempt s a r) = rl_inbox r" "rl_arrivals (put_attempt s a r) = rl_arrivals r"
  "rl_retention (put_attempt s a r) = rl_retention r" "rl_devices (put_attempt s a r) = rl_devices r"
  "rl_invites (put_attempt s a r) = rl_invites r"
  by (simp_all add: put_attempt_def)

lemma deliver_all_eq: "deliver_all legs t i r = r\<lparr>rl_out := rl_out r @ map (\<lambda>d. Deliver d t i None) legs\<rparr>"
  by (simp add: deliver_all_def remits)

section \<open>The invariant\<close>

definition attempt_ok :: "int \<Rightarrow> attempt \<Rightarrow> bool" where
  "attempt_ok now a \<longleftrightarrow> distinct (dkeys (at_legs a)) \<and> (at_outcome a = None \<longrightarrow> has_delivered a)
     \<and> (\<forall>leg. dget (at_reasons a) leg \<noteq> None \<longrightarrow> dget (at_legs a) leg \<noteq> None)"

definition queue_ok :: "relay \<Rightarrow> queued list \<Rightarrow> bool" where
  "queue_ok r qs \<longleftrightarrow> qs \<noteq> [] \<and> (\<forall>q \<in> set qs. q_deadline q \<le> rl_now r + rl_retention r)"

definition relay_ok :: "relay \<Rightarrow> bool" where
  "relay_ok r \<longleftrightarrow> distinct (dkeys (rl_attempts r)) \<and> distinct (dkeys (rl_inbox r))
     \<and> (\<forall>sid a. dget (rl_attempts r) sid = Some a \<longrightarrow> attempt_ok (rl_now r) a)
     \<and> (\<forall>to qs. dget (rl_inbox r) to = Some qs \<longrightarrow> queue_ok r qs) \<and> (\<forall>who. finite (bound r who))"

fun relay_event_ok :: "relay_event \<Rightarrow> bool" where
  "relay_event_ok (RAdvance n) \<longleftrightarrow> 0 \<le> n"
| "relay_event_ok (RInvite sid from to legs) \<longleftrightarrow> legs \<noteq> []"
| "relay_event_ok _ \<longleftrightarrow> True"

lemma has_delivered_get: "distinct (dkeys (at_legs a)) \<Longrightarrow> has_delivered a \<longleftrightarrow> (\<exists>leg. dget (at_legs a) leg = Some Delivered)"
  by (auto simp: has_delivered_def map_of_eq_Some_iff image_iff) force

text \<open>The three parts of the invariant, and the operations that leave two of them alone.\<close>

definition attempts_ok :: "relay \<Rightarrow> bool" where
  "attempts_ok r \<longleftrightarrow> distinct (dkeys (rl_attempts r))
     \<and> (\<forall>sid a. dget (rl_attempts r) sid = Some a \<longrightarrow> attempt_ok (rl_now r) a)"

definition inbox_ok :: "relay \<Rightarrow> bool" where
  "inbox_ok r \<longleftrightarrow> distinct (dkeys (rl_inbox r)) \<and> (\<forall>to qs. dget (rl_inbox r) to = Some qs \<longrightarrow> queue_ok r qs)"

definition bindings_ok :: "relay \<Rightarrow> bool" where
  "bindings_ok r \<longleftrightarrow> (\<forall>who. finite (bound r who))"

lemma relay_ok_parts: "relay_ok r \<longleftrightarrow> attempts_ok r \<and> inbox_ok r \<and> bindings_ok r"
  by (auto simp: relay_ok_def attempts_ok_def inbox_ok_def bindings_ok_def)

lemma attempts_ok_cong: "rl_attempts r' = rl_attempts r \<Longrightarrow> attempts_ok r' = attempts_ok r"
  by (simp add: attempts_ok_def attempt_ok_def)

lemma inbox_ok_cong: "rl_inbox r' = rl_inbox r \<Longrightarrow> rl_now r' = rl_now r \<Longrightarrow> rl_retention r' = rl_retention r
    \<Longrightarrow> inbox_ok r' = inbox_ok r"
  by (simp add: inbox_ok_def queue_ok_def)

lemma bindings_ok_cong: "rl_bindings r' = rl_bindings r \<Longrightarrow> bindings_ok r' = bindings_ok r"
  by (simp add: bindings_ok_def bound_def)

lemma relay_ok_emit [simp]: "attempts_ok (remit e r) = attempts_ok r" "inbox_ok (remit e r) = inbox_ok r"
  "bindings_ok (remit e r) = bindings_ok r" "attempts_ok (r\<lparr>rl_out := x\<rparr>) = attempts_ok r"
  "inbox_ok (r\<lparr>rl_out := x\<rparr>) = inbox_ok r" "bindings_ok (r\<lparr>rl_out := x\<rparr>) = bindings_ok r"
  "inbox_ok (put_attempt s a r) = inbox_ok r" "bindings_ok (put_attempt s a r) = bindings_ok r"
  "attempts_ok (r\<lparr>rl_inbox := i\<rparr>) = attempts_ok r" "bindings_ok (r\<lparr>rl_inbox := i\<rparr>) = bindings_ok r"
  "attempts_ok (r\<lparr>rl_invites := v\<rparr>) = attempts_ok r" "inbox_ok (r\<lparr>rl_invites := v\<rparr>) = inbox_ok r"
  "bindings_ok (r\<lparr>rl_invites := v\<rparr>) = bindings_ok r"
  by (simp_all add: attempts_ok_def inbox_ok_def bindings_ok_def attempt_ok_def queue_ok_def bound_def)

lemma put_attempt_ok: "attempts_ok r \<Longrightarrow> attempt_ok (rl_now r) a \<Longrightarrow> attempts_ok (put_attempt s a r)"
  by (simp add: attempts_ok_def dict.distinct_keys_put)

lemma attemptD: "attempts_ok r \<Longrightarrow> dget (rl_attempts r) s = Some a \<Longrightarrow> attempt_ok (rl_now r) a"
  by (simp add: attempts_ok_def)

text \<open>\<open>check_complete\<close> establishes the invariant of an attempt from its weaker half.\<close>

lemma check_complete_ok:
  assumes "attempts_ok r" "distinct (dkeys (at_legs a))"
    "\<And>leg. dget (at_reasons a) leg \<noteq> None \<Longrightarrow> dget (at_legs a) leg \<noteq> None"
  shows "attempts_ok (check_complete s a r)"
  using assms by (auto simp: check_complete_def Let_def attempt_ok_def intro!: put_attempt_ok)

lemma check_complete_simps [simp]:
  "inbox_ok (check_complete s a r) = inbox_ok r" "bindings_ok (check_complete s a r) = bindings_ok r"
  "rl_now (check_complete s a r) = rl_now r" "rl_invites (check_complete s a r) = rl_invites r"
  by (simp_all add: check_complete_def Let_def)

lemma distinct_foldl_dset: "distinct (dkeys d) \<Longrightarrow> distinct (dkeys (foldl (\<lambda>d k. dset k v d) d ks))"
  by (induction ks arbitrary: d) (simp_all add: dict.distinct_keys_put)

lemma dget_foldl_dset: "dget (foldl (\<lambda>d k. dset k v d) d ks) k = (if k \<in> set ks then Some v else dget d k)"
  by (induction ks arbitrary: d) auto

section \<open>Every operation keeps it\<close>

lemma deliver_all_ok [simp]: "attempts_ok (deliver_all l t i r) = attempts_ok r" "inbox_ok (deliver_all l t i r) = inbox_ok r"
  "bindings_ok (deliver_all l t i r) = bindings_ok r" "rl_now (deliver_all l t i r) = rl_now r"
  by (simp_all add: deliver_all_eq)

lemma fork_ok: "legs \<noteq> [] \<Longrightarrow> relay_ok r \<Longrightarrow> relay_ok (fork sid from to legs r)"
  by (cases legs rule: rev_cases) (auto simp: fork_def Let_def relay_ok_parts attempt_ok_def new_attempt_def has_delivered_get
      distinct_foldl_dset dget_foldl_dset dict.distinct_keys_put intro!: put_attempt_ok)

lemma relay_ok_out [simp]: "relay_ok (r\<lparr>rl_out := x\<rparr>) = relay_ok r" "relay_ok (remit e r) = relay_ok r"
  by (simp_all add: relay_ok_parts)

lemma put_attempt_out: "put_attempt s a (r\<lparr>rl_out := x\<rparr>) = (put_attempt s a r)\<lparr>rl_out := x\<rparr>"
  by (simp add: put_attempt_def)

lemma set_inbox_ok:
  assumes "relay_ok r" "queue_ok r q" shows "relay_ok (r\<lparr>rl_inbox := dset to q (rl_inbox r)\<rparr>)"
  using assms by (simp add: relay_ok_def queue_ok_def bound_def dict.distinct_keys_put)

lemma arrivals_ok [simp]: "relay_ok (r\<lparr>rl_arrivals := n\<rparr>) = relay_ok r"
  by (simp add: relay_ok_def queue_ok_def bound_def)

lemma queue_get_ok: "relay_ok r \<Longrightarrow> q \<in> set (dget_or (rl_inbox r) to []) \<Longrightarrow> q_deadline q \<le> rl_now r + rl_retention r"
  by (cases "dget (rl_inbox r) to") (auto simp: dget_or_def relay_ok_def queue_ok_def)

lemma enqueue_ok: assumes "relay_ok r" shows "relay_ok (enqueue to m r)"
proof -
  have "queue_ok (r\<lparr>rl_arrivals := Suc (rl_arrivals r)\<rparr>) (dget_or (rl_inbox r) to [] @ [\<lparr>q_msg = m, q_arrival = n,
      q_deadline = min d (rl_now r + rl_retention r)\<rparr>])" for d n
    using queue_get_ok [OF assms] by (auto simp: queue_ok_def)
  then show ?thesis
    using set_inbox_ok [of "r\<lparr>rl_arrivals := Suc (rl_arrivals r)\<rparr>"] assms by (simp add: enqueue_def Let_def)
qed

lemma enqueue_inbox: "rl_attempts (enqueue to m r) = rl_attempts r" "rl_now (enqueue to m r) = rl_now r"
  by (simp_all add: enqueue_def Let_def)

lemma unknown_recipient_ok: "relay_ok r \<Longrightarrow> relay_ok (unknown_recipient m r)"
  by (simp add: unknown_recipient_def relay_ok_parts)

lemma route_plain_ok: "relay_ok r \<Longrightarrow> route_plain m r = Some r' \<Longrightarrow> relay_ok r'"
  by (auto simp: route_plain_def Let_def enqueue_ok unknown_recipient_ok split: if_splits option.splits)
    (simp_all add: relay_ok_parts)

lemma touch_ok: "attempts_ok r \<Longrightarrow> dget (rl_attempts r) s = Some a \<Longrightarrow> at_legs a' = at_legs a \<Longrightarrow> at_reasons a' = at_reasons a
    \<Longrightarrow> at_outcome a' = at_outcome a \<Longrightarrow> attempts_ok (put_attempt s a' r)"
  by (rule put_attempt_ok) (use attemptD [of r s a] in \<open>auto simp: attempt_ok_def has_delivered_def\<close>)

lemma del_inbox_ok: "relay_ok r \<Longrightarrow> relay_ok (r\<lparr>rl_inbox := ddel to (rl_inbox r)\<rparr>)"
  by (simp add: relay_ok_def queue_ok_def bound_def dict.distinct_keys_del)

lemma keep_inbox_ok:
  assumes "relay_ok r" "set keep \<subseteq> set (dget_or (rl_inbox r) to [])"
  shows "relay_ok (r\<lparr>rl_inbox := (if keep \<noteq> [] then dset to keep (rl_inbox r) else ddel to (rl_inbox r))\<rparr>)"
proof (cases "keep = []")
  case False
  then have "queue_ok r keep" using queue_get_ok [OF assms(1)] assms(2) by (auto simp: queue_ok_def)
  with False set_inbox_ok [OF assms(1)] show ?thesis by simp
qed (simp add: del_inbox_ok assms(1))

lemma expire_queue_ok: assumes "relay_ok r" shows "relay_ok (expire_queue r to)"
proof -
  have *: "relay_ok (r\<lparr>rl_out := os\<rparr>)" for os using assms by simp
  show ?thesis
    unfolding expire_queue_def Let_def remits
    using keep_inbox_ok [OF *, of "filter (\<lambda>m. \<not> q_deadline m \<le> rl_now r) (dget_or (rl_inbox r) to [])" _ to] by (simp del: relay_ok_out)
qed

lemma silence_ok: assumes "relay_ok r" shows "relay_ok (silence r sid)"
proof (cases "dget (rl_attempts r) sid")
  case (Some a)
  have "attempt_ok (rl_now r) a" using assms Some attemptD by (simp add: relay_ok_parts)
  then have "attempts_ok (check_complete sid (a\<lparr>at_legs := foldl (\<lambda>d leg. dset leg Expired d) (at_legs a) ls\<rparr>) r)" for ls
    using assms
    by (intro check_complete_ok) (auto simp: relay_ok_parts attempt_ok_def distinct_foldl_dset dget_foldl_dset)
  with Some assms show ?thesis by (auto simp: silence_def relay_ok_parts)
qed (simp add: silence_def assms)

lemma forget_attempts_ok: assumes "relay_ok r" shows "relay_ok (forget_attempts r)"
  unfolding forget_attempts_def Let_def
  by (rule foldl_inv [where P = relay_ok, OF assms]) (auto simp: relay_ok_def queue_ok_def bound_def dict.distinct_keys_del)

lemma forget_one_ok: "relay_ok r \<Longrightarrow> relay_ok (forget_one r who)"
  by (auto simp: forget_one_def Let_def relay_ok_def queue_ok_def bound_def dget_or_def split: option.splits)

lemma forget_ok: "relay_ok r \<Longrightarrow> relay_ok (forget r)"
  unfolding forget_def Let_def by (rule foldl_inv [where P = relay_ok, OF forget_attempts_ok]) (auto intro: forget_one_ok)

lemma add_leg_ok:
  assumes "attempts_ok r" "dget (rl_attempts r) sid = Some a \<or> at_legs a = [] \<and> at_reasons a = []"
  shows "attempts_ok (put_attempt sid (a\<lparr>at_legs := dset d Delivered (at_legs a), at_last := t\<rparr>) r)"
proof -
  have "distinct (dkeys (at_legs a))" "\<forall>leg. dget (at_reasons a) leg \<noteq> None \<longrightarrow> dget (at_legs a) leg \<noteq> None"
    using assms attemptD [of r sid a] by (auto simp: attempt_ok_def)
  then show ?thesis
    using assms(1) by (intro put_attempt_ok) (auto simp: attempt_ok_def has_delivered_get dict.distinct_keys_put)
qed

lemma add_new_leg_ok:
  "attempts_ok r \<Longrightarrow> attempts_ok (put_attempt sid ((new_attempt s i to n)\<lparr>at_legs := [(d, Delivered)], at_last := t\<rparr>) r)"
  using add_leg_ok [where r = r and sid = sid and a = "new_attempt s i to n" and d = d and t = t] by simp

lemma flush_ok: "relay_ok r \<Longrightarrow> relay_ok (flush_to device r q)"
  by (auto simp: flush_to_def Let_def relay_ok_parts intro!: add_leg_ok add_new_leg_ok split: option.split)

lemma late_leg_ok: "relay_ok r \<Longrightarrow> relay_ok (late_leg device identity r sid)"
  by (auto simp: late_leg_def relay_ok_parts intro!: add_leg_ok split: option.split)

lemma bind_ok: assumes "relay_ok r" shows "relay_ok (bind_device device identity r)"
proof -
  have "relay_ok (r\<lparr>rl_bindings := dset identity (insert device (bound r identity)) (rl_bindings r),
               rl_devices := x, rl_last_bound := y, rl_inbox := ddel device (ddel identity (rl_inbox r))\<rparr>)" for x y
    using assms by (auto simp: relay_ok_def bound_def dget_or_def queue_ok_def dict.distinct_keys_del split: option.splits)
  then show ?thesis
    unfolding bind_device_def Let_def
    by (intro foldl_inv [where P = relay_ok]) (auto intro: flush_ok late_leg_ok)
qed

lemma unbind_ok: "relay_ok r \<Longrightarrow> relay_ok (unbind_device device identity r)"
  by (auto simp: unbind_device_def Let_def relay_ok_def bound_def dget_or_def queue_ok_def split: option.splits)

lemma leg_expired_ok: assumes "relay_ok r" shows "relay_ok (leg_expired sid leg r)"
proof (cases "dget (rl_attempts r) sid")
  case (Some a)
  have "attempt_ok (rl_now r) a" using assms Some attemptD by (simp add: relay_ok_parts)
  with Some assms show ?thesis
    by (auto simp: leg_expired_def relay_ok_parts attempt_ok_def dict.distinct_keys_put intro!: check_complete_ok)
qed (simp add: leg_expired_def assms)

lemma cancel_queued_subset: "cancel_queued s q = Some rest \<Longrightarrow> set rest \<subseteq> set q"
  by (auto simp: cancel_queued_def split: option.splits if_splits)

lemma recv_unheld_ok: assumes "relay_ok r" "recv_unheld m r = Some r'" shows "relay_ok r'"
proof (cases "route_plain m r = Some r'")
  case False
  then have c: "rm_type m = ''cancel''" using assms(2) by (cases "rm_type m = ''cancel''") (auto simp: recv_unheld_def)
  then obtain to where to: "rm_to m = Some to" using assms(2) by (cases "rm_to m") (auto simp: recv_unheld_def)
  with c obtain rest where rest: "cancel_queued (rm_session m) (dget_or (rl_inbox r) to []) = Some rest"
    using assms(2) by (cases "cancel_queued (rm_session m) (dget_or (rl_inbox r) to [])") (auto simp: recv_unheld_def Let_def)
  have "r' = remit (Dequeue to ''invite'' ''cancelled'')
           (r\<lparr>rl_inbox := (if rest = [] then ddel to (rl_inbox r) else dset to rest (rl_inbox r))\<rparr>)"
    using assms(2) False c to rest by (cases "length rest = length (dget_or (rl_inbox r) to [])") (simp_all add: recv_unheld_def Let_def)
  note q = rest this
  show ?thesis
    unfolding q(2) using keep_inbox_ok [OF assms(1) cancel_queued_subset [OF q(1)]] by (cases "rest = []") simp_all
qed (use route_plain_ok assms(1) in blast)

lemma cancel_attempt_ok: "attempt_ok n a \<Longrightarrow> attempt_ok n (cancel_attempt legs (a\<lparr>at_last := t\<rparr>))"
  by (auto simp: cancel_attempt_def Let_def attempt_ok_def distinct_foldl_dset dget_foldl_dset)

lemma recv_cancel_ok:
  assumes "relay_ok r" "dget (rl_attempts r) sid = Some a" "recv_rel_cancel sid a m r = Some r'" shows "relay_ok r'"
proof -
  let ?a = "a\<lparr>at_last := rl_now r\<rparr>"
  have a: "attempt_ok (rl_now r) a" using assms attemptD by (simp add: relay_ok_parts)
  have t: "relay_ok (put_attempt sid ?a r)" using assms touch_ok [of r sid a ?a] by (simp add: relay_ok_parts)
  have "relay_ok (put_attempt sid (cancel_attempt ls ?a) r)" for ls
    using assms(1) put_attempt_ok cancel_attempt_ok [OF a] by (simp add: relay_ok_parts)
  then have "relay_ok (put_attempt sid (cancel_attempt ls ?a) (r\<lparr>rl_out := os\<rparr>))" for ls os
    by (simp add: put_attempt_out)
  with assms(3) route_plain_ok [OF t] show ?thesis
    by (auto simp: recv_rel_cancel_def Let_def remits split: if_splits)
qed

lemma recv_leg_ok:
  assumes "relay_ok r" "dget (rl_attempts r) sid = Some a" "dget (at_legs a) (rm_from m) = Some st" "recv_leg sid a st m r = Some r'"
  shows "relay_ok r'"
proof -
  have a: "attempt_ok (rl_now r) a" using assms attemptD by (simp add: relay_ok_parts)
  have t: "attempts_ok (put_attempt sid (a\<lparr>at_last := rl_now r, at_heard := h\<rparr>) r)" for h
    using assms touch_ok [of r sid a "a\<lparr>at_last := rl_now r, at_heard := h\<rparr>"] by (simp add: relay_ok_parts)
  have an: "attempts_ok (put_attempt sid (a\<lparr>at_last := rl_now r, at_heard := h, at_legs := dset (rm_from m) Answered (at_legs a),
      at_outcome := (if at_outcome a = None then Some OAnswered else at_outcome a)\<rparr>) r)" for h
    using assms(1) a by (intro put_attempt_ok) (auto simp: relay_ok_parts attempt_ok_def dict.distinct_keys_put)
  have rj: "attempts_ok (check_complete sid (a\<lparr>at_last := rl_now r, at_heard := h, at_legs := dset (rm_from m) Rejected (at_legs a),
      at_reasons := rs\<rparr>) r)" if "rs = dset (rm_from m) x (at_reasons a)" for h rs x
    using assms(1) a that by (intro check_complete_ok) (auto simp: relay_ok_parts attempt_ok_def dict.distinct_keys_put)
  show ?thesis
    using assms(1,4) t an rj
    by (auto simp: recv_leg_def Let_def relay_ok_parts bind_eq_Some_conv split: if_splits)
qed

lemma invites_ok: "relay_ok r \<Longrightarrow> relay_ok (r\<lparr>rl_invites := x\<rparr>)"
  by (simp add: relay_ok_parts)

lemma relay_recv_ok: assumes "relay_ok r" "relay_recv m r = Some r'" shows "relay_ok r'"
proof -
  have "recv_rel_introduction m r = Some r' \<Longrightarrow> relay_ok r'"
    using assms(1) by (auto simp: recv_rel_introduction_def bind_eq_Some_conv Let_def enqueue_ok deliver_all_eq split: if_splits)
  moreover have "relay_ok r'" if "recv_rel_invite m r = Some r'"
  proof -
    note i = that
    obtain to where to: "rm_to m = Some to" using i by (auto simp: recv_rel_invite_def bind_eq_Some_conv)
    show ?thesis
      using i assms(1) to fork_ok [OF _ invites_ok [OF assms(1)]] enqueue_ok [of r to m] unknown_recipient_ok [of r m]
      by (cases "legs_for r to = []"; cases "known_recipient r to") (auto simp: recv_rel_invite_def Let_def)
  qed
  ultimately show ?thesis
    using assms
    by (auto simp: relay_recv_def bind_eq_Some_conv split: if_splits option.splits
        intro: route_plain_ok recv_unheld_ok recv_cancel_ok recv_leg_ok)
qed

lemma later_ok: assumes "relay_ok r" "0 \<le> n" shows "relay_ok (r\<lparr>rl_out := [], rl_now := rl_now r + n\<rparr>)"
proof -
  have "queue_ok r qs \<Longrightarrow> queue_ok (r\<lparr>rl_out := [], rl_now := rl_now r + n\<rparr>) qs" for qs
    using assms(2) by (force simp: queue_ok_def)
  with assms(1) show ?thesis by (simp add: relay_ok_def attempt_ok_def bound_def)
qed

lemma advance_ok: "relay_ok r \<Longrightarrow> 0 \<le> n \<Longrightarrow> relay_step r (RAdvance n) = Some r' \<Longrightarrow> relay_ok r'"
  unfolding relay_step.simps expire_silent_legs_def expire_queues_def option.inject
  by (erule subst) (intro forget_ok foldl_inv [where P = relay_ok] silence_ok expire_queue_ok later_ok)

lemma relay_step_ok:
  assumes "relay_ok r" "relay_event_ok e" "relay_step r e = Some r'" shows "relay_ok r'"
proof -
  have c: "relay_ok (r\<lparr>rl_out := []\<rparr>)" using assms(1) by simp
  show ?thesis
  proof (cases e)
    case (RAdvance n)
    with advance_ok assms show ?thesis by simp
  next
    case (RInvite sid who to legs)
    with fork_ok [OF _ c] assms show ?thesis by auto
  next
    case (Bind d i)
    with bind_ok [OF c] assms show ?thesis by auto
  next
    case (Unbind d i)
    with unbind_ok [OF c] assms show ?thesis by auto
  next
    case (LegExpired s l)
    with leg_expired_ok [OF c] assms show ?thesis by auto
  next
    case (RRecv m)
    with relay_recv_ok [OF c] assms show ?thesis by auto
  qed
qed

lemma init_relay_ok: "relay_ok (init_relay start retention)"
  by (simp add: relay_ok_def init_relay_def bound_def dget_or_def)

interpretation relay: machine relay_step relay_event_ok relay_ok
  by unfold_locales (rule relay_step_ok)


section \<open>An outcome is final\<close>

definition final :: "string \<Rightarrow> outcome \<Rightarrow> relay \<Rightarrow> bool" where
  "final sid oc r \<longleftrightarrow> (\<exists>a. dget (rl_attempts r) sid = Some a \<and> at_outcome a = Some oc)"

lemma final_simps [simp]:
  "final sid oc (remit e r) = final sid oc r" "final sid oc (r\<lparr>rl_out := x\<rparr>) = final sid oc r"
  "final sid oc (r\<lparr>rl_inbox := ib\<rparr>) = final sid oc r" "final sid oc (r\<lparr>rl_invites := v\<rparr>) = final sid oc r"
  "final sid oc (deliver_all l t i r) = final sid oc r" "final sid oc (enqueue to m r) = final sid oc r"
  "final sid oc (unknown_recipient m r) = final sid oc r" "final sid oc (r\<lparr>rl_now := n\<rparr>) = final sid oc r"
  "final sid oc (put_attempt s a r) = (if sid = s then at_outcome a = Some oc else final sid oc r)"
  by (simp_all add: final_def deliver_all_eq enqueue_def Let_def unknown_recipient_def)

lemma final_get: "final sid oc r \<Longrightarrow> dget (rl_attempts r) sid = Some a \<Longrightarrow> at_outcome a = Some oc"
  by (simp add: final_def)

lemma final_check: "final sid oc r \<Longrightarrow> (s = sid \<Longrightarrow> at_outcome a = Some oc) \<Longrightarrow> final sid oc (check_complete s a r)"
  by (auto simp: check_complete_def Let_def)

lemma final_route: "final sid oc r \<Longrightarrow> route_plain m r = Some r' \<Longrightarrow> final sid oc r'"
  by (auto simp: route_plain_def Let_def split: if_splits)

lemma final_silence: "final sid oc r \<Longrightarrow> final sid oc (silence r s)"
  by (auto simp: silence_def dest: final_get intro!: final_check split: option.split)

lemma final_expire: "final sid oc r \<Longrightarrow> final sid oc (expire_queue r to)"
  by (simp add: expire_queue_def Let_def remits)

lemma final_flush: "final sid oc r \<Longrightarrow> final sid oc (flush_to d r q)"
  by (auto simp: flush_to_def Let_def dest: final_get split: option.split) (auto simp: final_def)

lemma final_late: "final sid oc r \<Longrightarrow> final sid oc (late_leg d i r s)"
  by (auto simp: late_leg_def dest: final_get split: option.split)

lemma final_bind: "final sid oc r \<Longrightarrow> final sid oc (bind_device d i r)"
  unfolding bind_device_def Let_def
  by (intro foldl_inv [where P = "final sid oc"] final_flush final_late) (simp_all add: final_def)

lemma final_cancel_attempt: "at_outcome a = Some oc \<Longrightarrow> at_outcome (cancel_attempt legs a) = Some oc"
  by (simp add: cancel_attempt_def Let_def)

lemma final_recv_cancel:
  assumes "final sid oc r" "dget (rl_attempts r) s = Some a" "recv_rel_cancel s a m r = Some r'" shows "final sid oc r'"
proof -
  have o: "sid = s \<Longrightarrow> at_outcome a = Some oc" using assms(1,2) final_get by blast
  then have "final sid oc (put_attempt s (a\<lparr>at_last := rl_now r\<rparr>) r)" using assms(1) by simp
  from final_route [OF this, of m r'] show ?thesis
    using assms(1,3) o
    by (auto simp: recv_rel_cancel_def Let_def remits put_attempt_out final_cancel_attempt split: if_splits)
qed

lemma final_recv_leg:
  assumes "final sid oc r" "dget (rl_attempts r) s = Some a" "recv_leg s a st m r = Some r'" shows "final sid oc r'"
proof -
  have "sid = s \<Longrightarrow> at_outcome a = Some oc" using assms(1,2) final_get by blast
  then show ?thesis
    using assms(1,3) by (auto simp: recv_leg_def Let_def bind_eq_Some_conv intro!: final_check split: if_splits)
qed

lemma final_unheld:
  assumes "final sid oc r" "recv_unheld m r = Some r'" shows "final sid oc r'"
proof (cases "route_plain m r = Some r'")
  case False
  have "recv_unheld m r = Some r' \<Longrightarrow> \<exists>e i. r' = remit e (r\<lparr>rl_inbox := i\<rparr>)"
    using False by (cases "rm_to m"; cases "rm_type m = ''cancel''")
      (auto simp: recv_unheld_def Let_def bind_eq_Some_conv split: if_splits)
  with assms show ?thesis by auto
qed (use assms(1) final_route in blast)

lemma final_forget: "dget (rl_attempts (forget r)) sid \<in> {None, dget (rl_attempts r) sid}"
proof -
  have 1: "dget (rl_attempts (foldl forget_one r ws)) sid = dget (rl_attempts r) sid" for r ws
    by (induction ws arbitrary: r) (auto simp: forget_one_def Let_def split: option.split)
  have 2: "dget (rl_attempts (foldl (\<lambda>r sid. r\<lparr>rl_attempts := ddel sid (rl_attempts r), rl_invites := ddel sid (rl_invites r)\<rparr>) r ss)) sid
      \<in> {None, dget (rl_attempts r) sid}" for r ss
  proof (induction ss arbitrary: r)
    case (Cons x ss)
    from Cons [of "r\<lparr>rl_attempts := ddel x (rl_attempts r), rl_invites := ddel x (rl_invites r)\<rparr>"]
    show ?case by (auto split: if_splits)
  qed simp
  from 1 2 show ?thesis by (simp add: forget_def forget_attempts_def Let_def)
qed

text \<open>The events that fork an attempt anew under an id.\<close>

fun forks :: "string \<Rightarrow> relay_event \<Rightarrow> bool" where
  "forks sid (RInvite s f t l) \<longleftrightarrow> s = sid"
| "forks sid (RRecv m) \<longleftrightarrow> rm_type m = ''invite'' \<and> rm_id m = sid"
| "forks sid _ \<longleftrightarrow> False"

lemma final_recv: assumes "final sid oc r" "\<not> forks sid (RRecv m)" "relay_recv m r = Some r'" shows "final sid oc r'"
proof -
  have "recv_rel_introduction m r = Some r' \<Longrightarrow> final sid oc r'"
    using assms(1) by (auto simp: recv_rel_introduction_def bind_eq_Some_conv Let_def split: if_splits)
  moreover have "rm_type m = ''invite'' \<Longrightarrow> recv_rel_invite m r = Some r' \<Longrightarrow> final sid oc r'"
    using assms(1,2) by (auto simp: recv_rel_invite_def fork_def bind_eq_Some_conv Let_def split: if_splits)
  ultimately show ?thesis
    using assms(1,3)
    by (auto simp: relay_recv_def bind_eq_Some_conv split: if_splits option.splits
        intro: final_route final_unheld final_recv_cancel final_recv_leg)
qed

lemma final_step:
  assumes "final sid oc r" "\<not> forks sid e" "relay_step r e = Some r'" "dget (rl_attempts r') sid = Some a"
  shows "at_outcome a = Some oc"
proof -
  let ?r = "r\<lparr>rl_out := []\<rparr>"
  have f: "final sid oc ?r" using assms(1) by simp
  have "final sid oc r' \<or> dget (rl_attempts r') sid = None"
  proof (cases e)
    case (RAdvance n)
    let ?s = "expire_silent_legs (expire_queues (r\<lparr>rl_out := [], rl_now := rl_now r + n\<rparr>))"
    have "final sid oc ?s"
      unfolding expire_silent_legs_def expire_queues_def
      by (intro foldl_inv [where P = "final sid oc"] final_silence final_expire) (use assms(1) in simp)
    moreover have "r' = forget ?s" using assms(3) RAdvance by simp
    ultimately show ?thesis using final_forget [of ?s sid] by (auto simp: final_def)
  next
    case (RInvite s f t l)
    with assms f show ?thesis by (auto simp: fork_def Let_def)
  next
    case (Bind d i)
    with final_bind [OF f] assms(3) show ?thesis by auto
  next
    case (Unbind d i)
    with assms(1,3) show ?thesis by (auto simp: unbind_device_def Let_def final_def split: if_splits)
  next
    case (LegExpired s l)
    have "final sid oc (leg_expired s l ?r)"
      using f final_get [OF f] by (auto simp: leg_expired_def intro!: final_check split: option.split)
    with LegExpired assms(3) show ?thesis by simp
  next
    case (RRecv m)
    with final_recv [OF f, of m r'] assms(2,3) show ?thesis by auto
  qed
  with assms(4) show ?thesis by (auto simp: final_def)
qed


section \<open>Properties\<close>

definition invite_msg :: "string \<Rightarrow> string \<Rightarrow> string \<Rightarrow> string \<Rightarrow> rmsg" where
  "invite_msg t i from to = \<lparr>rm_type = t, rm_id = i, rm_from = from, rm_to = Some to, rm_session = None, rm_reason = None,
     rm_in_reply_to = None, rm_expires_at = None, rm_status = None\<rparr>"

definition forked :: relay where
  "forked = fork ''s1'' ''alice'' ''bob'' [''b1'', ''b2''] (init_relay None None)"

lemma forked_reached: "reaches relay_step relay_event_ok (init_relay None None) forked"
  by (rule reaches_step [of relay_step relay_event_ok _ "init_relay None None" "RInvite ''s1'' ''alice'' ''bob'' [''b1'', ''b2'']",
        OF reaches_refl]) (simp_all add: forked_def init_relay_def)

text \<open>C9: No attempt hangs: in every reachable state of the relay, an attempt without an outcome still has a leg
  outstanding, so the message or the expiry of that leg can complete it.\<close>

theorem relay_no_attempt_hangs:
  assumes "reaches relay_step relay_event_ok (init_relay start retention) r"
    and "dget (rl_attempts r) sid = Some a" "at_outcome a = None"
  shows "\<exists>leg. dget (at_legs a) leg = Some Delivered"
  using attemptD [of r sid a] relay.reaches_inv [OF assms(1) init_relay_ok] assms(2,3)
  by (auto simp: relay_ok_parts attempt_ok_def has_delivered_get)

theorem relay_no_attempt_hangs_witness:
  "\<exists>leg. dget (at_legs (the (dget (rl_attempts forked) ''s1''))) leg = Some Delivered"
proof -
  obtain a where a: "dget (rl_attempts forked) ''s1'' = Some a" "at_outcome a = None"
    by (simp add: forked_def fork_def Let_def)
  from relay_no_attempt_hangs [OF forked_reached a] a(1) show ?thesis by simp
qed

text \<open>An attempt's outcome is final: no event changes it, except an invite that forks the attempt anew under the
  same id.\<close>

theorem relay_outcome_final:
  assumes "dget (rl_attempts r) sid = Some a" "at_outcome a = Some oc"
    and "\<not> forks sid e" "relay_step r e = Some r'" "dget (rl_attempts r') sid = Some a'"
  shows "at_outcome a' = Some oc"
  using final_step [of sid oc r e r' a'] assms by (auto simp: final_def)

definition answered :: relay where
  "answered = put_attempt ''s1'' (the (dget (rl_attempts forked) ''s1'')\<lparr>at_outcome := Some OAnswered\<rparr>) forked"

theorem relay_outcome_final_witness:
  "\<exists>a'. dget (rl_attempts (leg_expired ''s1'' ''b2'' (answered\<lparr>rl_out := []\<rparr>))) ''s1'' = Some a' \<and> at_outcome a' = Some OAnswered"
proof -
  let ?r = "leg_expired ''s1'' ''b2'' (answered\<lparr>rl_out := []\<rparr>)"
  obtain a where a: "dget (rl_attempts answered) ''s1'' = Some a" "at_outcome a = Some OAnswered"
    by (simp add: answered_def)
  have "dget (rl_attempts ?r) ''s1'' \<noteq> None" by code_simp
  then obtain a' where a': "dget (rl_attempts ?r) ''s1'' = Some a'" by blast
  have "relay_step answered (LegExpired ''s1'' ''b2'') = Some ?r" by simp
  from relay_outcome_final [OF a _ this a'] a' show ?thesis by simp
qed

text \<open>The place of a reason in the order of preference.\<close>

definition reason_rank :: "string \<Rightarrow> nat" where
  "reason_rank x = length (takeWhile (\<lambda>y. y \<noteq> x) REASON_RANK)"

lemma find_takeWhile: "find P xs = Some y \<Longrightarrow> P x \<Longrightarrow> x \<noteq> y
    \<Longrightarrow> length (takeWhile (\<lambda>z. z \<noteq> y) xs) \<le> length (takeWhile (\<lambda>z. z \<noteq> x) xs)"
  by (induction xs) (auto split: if_splits)

lemma find_SomeD: "find P xs = Some y \<Longrightarrow> y \<in> set xs \<and> P y"
  by (induction xs) (auto split: if_splits)

lemma best_reason_in: "rs \<noteq> [] \<Longrightarrow> best_reason rs \<in> set rs"
  by (auto simp: best_reason_def find_Some_iff split: option.split)

lemma best_reason_least: assumes "x \<in> set rs" shows "reason_rank (best_reason rs) \<le> reason_rank x"
proof (cases "find (\<lambda>r. r \<in> set rs) REASON_RANK")
  case None
  then have "\<forall>y \<in> set REASON_RANK. y \<noteq> x" using assms by (metis find_None_iff)
  then have "takeWhile (\<lambda>y. y \<noteq> x) REASON_RANK = REASON_RANK" by (simp only: takeWhile_eq_all_conv)
  then have "reason_rank x = length REASON_RANK" by (simp only: reason_rank_def)
  then show ?thesis by (simp add: reason_rank_def length_takeWhile_le)
next
  case (Some y)
  then have "best_reason rs = y" by (simp add: best_reason_def)
  then show ?thesis
    using find_takeWhile [OF Some assms] by (cases "x = y") (simp_all add: reason_rank_def)
qed

text \<open>When the last outstanding leg of an attempt rejects, the attempt ends as rejected and exactly one reject is
  forwarded to the initiator: that of a leg that gave the most informative of all the reasons the legs gave.\<close>

theorem relay_forwards_best_reason:
  assumes "dget (rl_attempts r) sid = Some a" "at_outcome a = None" "distinct (dkeys (at_legs a))"
    and "dget (at_legs a) (rm_from m) = Some Delivered"
    and "\<And>leg. leg \<noteq> rm_from m \<Longrightarrow> dget (at_legs a) leg \<noteq> Some Delivered"
    and "rm_type m = ''reject''" "rm_session m = Some sid" "rm_in_reply_to m = None" "rm_reason m = Some x"
  defines "reasons \<equiv> dset (rm_from m) x (at_reasons a)"
  shows "\<exists>r' best src. relay_recv m r = Some r' \<and> rl_out r' = rl_out r @ [ForwardReject best src] \<and> (src, best) \<in> set reasons
    \<and> (\<forall>y \<in> set (dvals reasons). reason_rank best \<le> reason_rank y)
    \<and> map_option at_outcome (dget (rl_attempts r') sid) = Some (Some ORejected)"
proof -
  let ?a = "a\<lparr>at_last := rl_now r, at_heard := insert (rm_from m) (at_heard a), at_legs := dset (rm_from m) Rejected (at_legs a),
    at_reasons := reasons\<rparr>"
  let ?best = "best_reason (dvals reasons)"
  have ne: "reasons \<noteq> []" by (simp add: reasons_def update_nonempty)
  have "\<not> has_delivered ?a"
    using assms(3,5) by (subst has_delivered_get) (auto simp: dict.distinct_keys_put)
  then have c: "check_complete sid ?a r = remit (ForwardReject ?best (fst (the (find (\<lambda>(_, x). x = ?best) reasons))))
      (put_attempt sid (?a\<lparr>at_outcome := Some ORejected\<rparr>) r)"
    using ne assms(2) by (simp add: check_complete_def Let_def)
  have "relay_recv m r = Some (check_complete sid ?a r)"
    using assms(1,4,6-9) by (simp add: relay_recv_def recv_leg_def Let_def reasons_def)
  moreover obtain p where "find (\<lambda>(_, x). x = ?best) reasons = Some p" "p \<in> set reasons" "snd p = ?best"
  proof -
    have "?best \<in> snd ` set reasons" using best_reason_in [of "dvals reasons"] ne by simp
    then have "find (\<lambda>(_, x). x = ?best) reasons \<noteq> None" by (auto simp: find_None_iff)
    then obtain p where "find (\<lambda>(_, x). x = ?best) reasons = Some p" by blast
    with find_SomeD [OF this] that show ?thesis by auto
  qed
  moreover from this have "(fst p, ?best) \<in> set reasons" by (metis prod.collapse)
  ultimately show ?thesis
    using best_reason_least [of _ "dvals reasons"] by (intro exI) (auto simp: c)
qed

definition last_leg :: relay where
  "last_leg = put_attempt ''s1'' ((new_attempt ''s1'' ''alice'' ''bob'' 0)\<lparr>at_legs := [(''b1'', Rejected), (''b2'', Delivered)],
     at_reasons := [(''b1'', ''endpoint.busy'')]\<rparr>) (init_relay None None)"

theorem relay_forwards_best_reason_witness:
  "\<exists>r' best src. relay_recv ((invite_msg ''reject'' ''m1'' ''b2'' ''alice'')\<lparr>rm_session := Some ''s1'', rm_reason := Some ''user.declined''\<rparr>) last_leg
     = Some r' \<and> rl_out r' = [ForwardReject best src]"
proof -
  define m where "m = (invite_msg ''reject'' ''m1'' ''b2'' ''alice'')\<lparr>rm_session := Some ''s1'', rm_reason := Some ''user.declined''\<rparr>"
  define a where "a = (new_attempt ''s1'' ''alice'' ''bob'' 0)\<lparr>at_legs := [(''b1'', Rejected), (''b2'', Delivered)], at_reasons := [(''b1'', ''endpoint.busy'')]\<rparr>"
  have "dget (rl_attempts last_leg) ''s1'' = Some a" "at_outcome a = None" "distinct (dkeys (at_legs a))"
    "dget (at_legs a) (rm_from m) = Some Delivered" "rm_type m = ''reject''" "rm_session m = Some ''s1''"
    "rm_in_reply_to m = None" "rm_reason m = Some ''user.declined''" "rl_out last_leg = []"
    by (simp_all add: a_def m_def invite_msg_def last_leg_def init_relay_def)
  moreover have "dget (at_legs a) leg \<noteq> Some Delivered" if "leg \<noteq> rm_from m" for leg
    using that by (simp add: a_def m_def invite_msg_def)
  ultimately have "\<exists>r' best src. relay_recv m last_leg = Some r' \<and> rl_out r' = [ForwardReject best src]"
    using relay_forwards_best_reason [of last_leg "''s1''" a m "''user.declined''"] by fastforce
  then show ?thesis by (simp only: m_def)
qed


text \<open>The queues.\<close>

lemma expire_late:
  assumes "\<And>q. q \<in> set (dget_or (rl_inbox r) to []) \<Longrightarrow> q_deadline q \<le> rl_now r"
  shows "rl_inbox (expire_queue r to) = ddel to (rl_inbox r)" "rl_now (expire_queue r to) = rl_now r"
  using assms by (auto simp: expire_queue_def Let_def remits filter_empty_conv)

lemma expire_all_late:
  assumes "\<And>to q. q \<in> set (dget_or (rl_inbox r) to []) \<Longrightarrow> q_deadline q \<le> rl_now r"
  shows "dget (rl_inbox (foldl expire_queue r ks)) to = (if to \<in> set ks then None else dget (rl_inbox r) to)"
  using assms
proof (induction ks arbitrary: r)
  case (Cons k ks)
  have e: "rl_inbox (expire_queue r k) = ddel k (rl_inbox r)" "rl_now (expire_queue r k) = rl_now r"
    using expire_late [of r k] Cons.prems by blast+
  have "q \<in> set (dget_or (rl_inbox (expire_queue r k)) to []) \<Longrightarrow> q_deadline q \<le> rl_now (expire_queue r k)" for to q
    using Cons.prems [of q to] by (auto simp: e dget_or_def split: if_splits)
  from Cons.IH [OF this] show ?case by (simp add: e)
qed simp

lemma inbox_later [simp]: "rl_inbox (check_complete s a r) = rl_inbox r" "rl_inbox (silence r s) = rl_inbox r"
  "rl_inbox (forget_one r w) = rl_inbox r"
  by (simp_all add: check_complete_def silence_def forget_one_def Let_def split: option.split)

lemma inbox_foldl: "(\<And>r x. rl_inbox (f r x) = rl_inbox r) \<Longrightarrow> rl_inbox (foldl f r xs) = rl_inbox r"
  by (induction xs arbitrary: r) simp_all

text \<open>What the relay stores is bounded in time: once the retention window has passed, nothing that was queued in a
  reachable state is still held.\<close>

theorem relay_queues_expire:
  assumes "reaches relay_step relay_event_ok (init_relay start retention) r" "0 \<le> n" "rl_retention r \<le> n"
  shows "\<exists>r'. relay_step r (RAdvance n) = Some r' \<and> rl_inbox r' = []"
proof -
  let ?r = "r\<lparr>rl_out := [], rl_now := rl_now r + n\<rparr>"
  have ok: "relay_ok r" by (rule relay.reaches_inv [OF assms(1) init_relay_ok])
  have late: "q_deadline q \<le> rl_now ?r" if "q \<in> set (dget_or (rl_inbox ?r) to [])" for to q
    using queue_get_ok [OF ok, of q to] that assms(3) by simp
  have "dget (rl_inbox (expire_queues ?r)) to = None" for to
    unfolding expire_queues_def using expire_all_late [OF late, where ks = "dsorted (rl_inbox ?r)" and to = to] dget_None_keys [of "rl_inbox ?r" to]
    by (simp add: set_dsorted)
  then have "rl_inbox (expire_queues ?r) = []" by (metis dget_None_keys list.set_intros(1) list.simps(9) neq_Nil_conv)
  then have "rl_inbox (forget (expire_silent_legs (expire_queues ?r))) = []"
    by (simp add: forget_def forget_attempts_def expire_silent_legs_def inbox_foldl Let_def)
  then show ?thesis by simp
qed

theorem relay_queues_expire_witness: "\<exists>r'. relay_step forked (RAdvance 86400) = Some r' \<and> rl_inbox r' = []"
  by (rule relay_queues_expire [OF forked_reached]) (simp_all add: forked_def fork_def init_relay_def deliver_all_eq Let_def)

text \<open>Introductions do not reveal who exists: an introduction for a recipient with no device bound is queued and
  answered by nothing, whether the relay knows the recipient or has never seen it.\<close>

theorem relay_introduction_uniform:
  assumes "rm_type m = ''introduction''" "rm_to m = Some to" "legs_for r to = []"
  shows "\<exists>r'. relay_step r (RRecv m) = Some r' \<and> rl_out r' = [Queue to ''introduction'']"
proof -
  have "legs_for (r\<lparr>rl_out := []\<rparr>) to = legs_for r to" by (simp add: legs_for_def bound_def split: option.split)
  with assms show ?thesis by (simp add: relay_recv_def recv_rel_introduction_def enqueue_def Let_def)
qed

theorem relay_introduction_uniform_witness:
  "\<exists>r'. relay_step forked (RRecv (invite_msg ''introduction'' ''i1'' ''carol'' ''dave'')) = Some r'
     \<and> rl_out r' = [Queue ''dave'' ''introduction'']"
proof (rule relay_introduction_uniform)
  show "legs_for forked ''dave'' = []" by code_simp
qed (simp_all add: invite_msg_def)

text \<open>An answer of a leg is never withheld: whatever the state of the leg or of the attempt, it is forwarded to the
  initiator.\<close>

theorem relay_answer_forwarded:
  assumes "rm_type m = ''answer''" "rm_session m = Some sid" "rm_in_reply_to m = None"
    and "dget (rl_attempts r) sid = Some a" "dget (at_legs a) (rm_from m) = Some st"
  shows "\<exists>r'. relay_step r (RRecv m) = Some r' \<and> rl_out r' = [ForwardAnswer (rm_from m)]"
  using assms by (simp add: relay_recv_def recv_leg_def Let_def)

theorem relay_answer_forwarded_witness:
  "\<exists>r'. relay_step answered (RRecv ((invite_msg ''answer'' ''m1'' ''b2'' ''alice'')\<lparr>rm_session := Some ''s1''\<rparr>)) = Some r'
     \<and> rl_out r' = [ForwardAnswer ''b2'']"
proof -
  define m where "m = (invite_msg ''answer'' ''m1'' ''b2'' ''alice'')\<lparr>rm_session := Some ''s1''\<rparr>"
  define a where "a = the (dget (rl_attempts answered) ''s1'')"
  have "rm_type m = ''answer''" "rm_session m = Some ''s1''" "rm_in_reply_to m = None" "rm_from m = ''b2''"
    by (simp_all add: m_def invite_msg_def)
  moreover have "dget (rl_attempts answered) ''s1'' = Some a" "dget (at_legs a) ''b2'' = Some Delivered"
    unfolding a_def by code_simp+
  ultimately show ?thesis using relay_answer_forwarded [of m "''s1''" answered a Delivered] by (simp add: m_def)
qed

end
