(* ===== verification/Broadcast_Model.thy ===== *)
theory Broadcast_Model
  imports Registry
begin

text \<open>
  Verified broadcast and the subscription protocol, \<^verbatim>\<open>dsipvec/broadcast.py\<close>: the authority with its publications,
  provenance statements, presence records and subscriptions; the subscriber; the receiver's stateless checks. The
  objects the code mutates in place (a subscription, a publication) live in one dictionary each, and mutating one is
  updating its entry. A message constructor has the keys its schema requires; an optional key is an option.
\<close>

section \<open>Data\<close>

record prec =
  pr_id :: string
  pr_device :: string
  pr_seq :: int
  pr_expires_at :: int
  pr_state :: "string option"
  pr_kid :: "string option"
  pr_sealed :: "string option"
  pr_audience :: "string option"

record variant =
  va_id :: string
  va_codec :: "string option"
  va_transport :: "string option"

record bpub =
  bp_publication :: string
  bp_publisher :: string
  bp_state :: string
  bp_expires_at :: int
  bp_variants :: "variant list"
  bp_policy :: "(string, string) dict"

record bstmt =
  st_processor :: string
  st_operation :: string
  st_input :: string
  st_output :: string

record bpolicy =
  po_mode :: string
  po_allow :: "string list"
  po_audience :: "string option"

text \<open>The body of a notify; a key that is absent when empty is the empty list.\<close>

datatype body =
    PubBody string "string option" "string list"
  | PresBody string "prec list"

text \<open>What admitted a presence subscriber: \<open>own\<close>, the grant with its end, the audience.\<close>

record admission =
  ad_own :: bool
  ad_grant :: "string option"
  ad_until :: "int option"
  ad_audience :: "string option"

record bsub =
  bs_subscriber :: string
  bs_device :: string
  bs_target :: string
  bs_events :: "string list"
  bs_expires_at :: int
  bs_seq :: int
  bs_admission :: admission
  bs_sealed :: bool
  bs_body :: "body option"

record bgrant =
  bg_verified :: "bool option"
  bg_identity :: string
  bg_to :: string
  bg_scope :: "string list"
  bg_until :: int
  bg_id :: string
  bg_audience :: "string option"

record bclaim =
  bc_type :: "string option"
  bc_grant :: "bgrant option"

record presence_msg =
  pm_id :: string
  pm_from :: string
  pm_device :: "string option"
  pm_subject :: string
  pm_seq :: int
  pm_issued_at :: int
  pm_expires_at :: int
  pm_audience :: "string option"
  pm_state :: "string option"
  pm_kid :: "string option"
  pm_sealed :: "string option"

record subscribe_msg =
  sm_id :: string
  sm_from :: string
  sm_target :: string
  sm_events :: "string list"
  sm_expires_in :: int
  sm_claims :: "bclaim list"
  sm_capability :: "string option"
  sm_profiles :: "string list"

record publish_msg =
  pu_id :: string
  pu_from :: string
  pu_publisher :: string
  pu_stream :: string
  pu_state :: string
  pu_expires_at :: int
  pu_variants :: "variant list"
  pu_policy :: "(string, string) dict"

datatype bmsg =
    Publish publish_msg
  | Unpublish string string string
  | Provenance string string string bstmt
  | Subscribe subscribe_msg
  | Presence presence_msg
  | GrantRevocation string string int
  | OtherBroadcast

datatype bout =
    BDrop string
  | BPublication string string
  | BProvenance string string
  | BSubscription string string
  | BReject string string string
  | BError string string string "int option"
  | BNotify string string int string "string option" body

datatype bevent =
    BAdvance int
  | BRecv bmsg
  | BSetPolicy string bpolicy
  | BIssueCapability string string
  | BRelay string string string

record auth =
  au_now :: int
  au_identities :: "(string, string) dict"
  au_publications :: "(string, bpub) dict"
  au_provenance :: "(string, bstmt list) dict"
  au_subs :: "(string, bsub) dict"
  au_policy :: "(string, bpolicy) dict"
  au_capabilities :: "(string, string) dict"
  au_bound :: "(string, string set) dict"
  au_records :: "(string \<times> string \<times> string, prec) dict"
  au_grace_until :: "(string, int) dict"
  au_last_accepted :: "(string \<times> string, int) dict"
  au_revoked :: "(string \<times> string, int) dict"
  au_grace :: int
  au_out :: "bout list"

definition RECORD_MIN_LIFETIME_S :: int where "RECORD_MIN_LIFETIME_S = 60"
definition RECORD_MAX_LIFETIME_S :: int where "RECORD_MAX_LIFETIME_S = 3600"
definition PRESENCE_GRACE_S :: int where "PRESENCE_GRACE_S = 60"
definition PUBLISH_INTERVAL_S :: int where "PUBLISH_INTERVAL_S = 5"

definition init_auth :: "int option \<Rightarrow> (string, string) dict \<Rightarrow> int option \<Rightarrow> auth" where
  "init_auth start ids grace = \<lparr>au_now = (case start of Some n \<Rightarrow> n | None \<Rightarrow> 0), au_identities = ids,
     au_publications = [], au_provenance = [], au_subs = [], au_policy = [], au_capabilities = [], au_bound = [],
     au_records = [], au_grace_until = [], au_last_accepted = [], au_revoked = [],
     au_grace = (case grace of Some g \<Rightarrow> g | None \<Rightarrow> PRESENCE_GRACE_S), au_out = []\<rparr>"

definition stream_in_namespace :: "string \<Rightarrow> string \<Rightarrow> bool" where
  "stream_in_namespace stream publisher \<longleftrightarrow> stream = publisher \<or> startswith stream (publisher @ '':'')"

definition identity_of :: "auth \<Rightarrow> string \<Rightarrow> string" where
  "identity_of a did = dget_or (au_identities a) did did"

definition bemit :: "bout \<Rightarrow> auth \<Rightarrow> auth" where
  "bemit e a = a\<lparr>au_out := au_out a @ [e]\<rparr>"

definition bbound :: "auth \<Rightarrow> string \<Rightarrow> string set" where
  "bbound a who = dget_or (au_bound a) who {}"

section \<open>The body of a subscription\<close>

definition sees :: "bsub option \<Rightarrow> prec \<Rightarrow> bool" where
  "sees sub r = (case sub of None \<Rightarrow> True
     | Some s \<Rightarrow> \<not> (pr_sealed r \<noteq> None \<and> \<not> bs_sealed s)
         \<and> (ad_own (bs_admission s) \<or> pr_audience r = None \<or> pr_audience r = ad_audience (bs_admission s)))"

definition records_of :: "(string \<times> string \<times> string, prec) dict \<Rightarrow> string \<Rightarrow> prec list" where
  "records_of recs subject = List.map_filter (dget recs) (filter (\<lambda>k. fst k = subject) (dsorted recs))"

definition presence_body :: "auth \<Rightarrow> string \<Rightarrow> bsub option \<Rightarrow> body" where
  "presence_body a subject sub =
     (let recs = filter (sees sub) (records_of (au_records a) subject)
      in PresBody (if \<exists>d \<in> bbound a subject. \<forall>r \<in> set recs. pr_device r \<noteq> d then ''available'' else ''offline'') recs)"

definition body_for :: "auth \<Rightarrow> bsub \<Rightarrow> body" where
  "body_for a s =
    (if ''publication'' \<in> set (bs_events s) then
       (case dget (au_publications a) (bs_target s) of
          None \<Rightarrow> PubBody ''unknown'' None []
        | Some p \<Rightarrow> PubBody (bp_state p) (Some (bp_publication p))
                     (map st_processor (dget_or (au_provenance a) (bs_target s) [])))
     else presence_body a (bs_target s) (Some s))"

section \<open>Notification\<close>

definition bnotify :: "string \<Rightarrow> string \<Rightarrow> string option \<Rightarrow> auth \<Rightarrow> auth" where
  "bnotify sid state reason a = (case dget (au_subs a) sid of
       None \<Rightarrow> a
     | Some s \<Rightarrow>
         let s1 = s\<lparr>bs_seq := bs_seq s + 1\<rparr>;
             b = body_for a s1;
             s2 = s1\<lparr>bs_body := Some b\<rparr>;
             a1 = bemit (BNotify (bs_device s) sid (bs_seq s2) state reason b) (a\<lparr>au_subs := dset sid s2 (au_subs a)\<rparr>)
         in if state = ''terminated'' then a1\<lparr>au_subs := ddel sid (au_subs a1)\<rparr> else a1)"

definition sids_where :: "(bsub \<Rightarrow> bool) \<Rightarrow> auth \<Rightarrow> string list" where
  "sids_where P a = sort [sid. (sid, s) \<leftarrow> au_subs a, P s]"

definition notify_all :: "string \<Rightarrow> string \<Rightarrow> auth \<Rightarrow> auth" where
  "notify_all event target a =
     foldl (\<lambda>a sid. bnotify sid ''active'' None a) a
       (sids_where (\<lambda>s. bs_target s = target \<and> event \<in> set (bs_events s)) a)"

definition notify_if_changed :: "auth \<Rightarrow> string \<Rightarrow> auth" where
  "notify_if_changed a sid = (case dget (au_subs a) sid of
       None \<Rightarrow> a
     | Some s \<Rightarrow> if Some (body_for a s) \<noteq> bs_body s then bnotify sid ''active'' None a else a)"

definition presence_changed :: "string \<Rightarrow> auth \<Rightarrow> auth" where
  "presence_changed identity a = foldl notify_if_changed a
     (sids_where (\<lambda>s. bs_target s = identity \<and> ''presence'' \<in> set (bs_events s)) a)"

section \<open>Presence records\<close>

definition holds_record :: "auth \<Rightarrow> string \<Rightarrow> string \<Rightarrow> bool" where
  "holds_record a subject device \<longleftrightarrow> (\<exists>(s, d, _) \<in> set (dkeys (au_records a)). s = subject \<and> d = device)"

definition drop_device :: "string \<Rightarrow> string \<Rightarrow> auth \<Rightarrow> auth" where
  "drop_device subject device a =
     a\<lparr>au_records := filter (\<lambda>(k, _). \<not> (fst k = subject \<and> fst (snd k) = device)) (au_records a),
       au_grace_until := ddel device (au_grace_until a)\<rparr>"

definition refuse :: "presence_msg \<Rightarrow> string \<Rightarrow> int option \<Rightarrow> auth \<Rightarrow> auth" where
  "refuse m reason retry_after a = bemit (BError (pm_from m) (pm_id m) reason retry_after) a"

definition accept_presence :: "presence_msg \<Rightarrow> string \<Rightarrow> string \<Rightarrow> string \<Rightarrow> auth \<Rightarrow> auth" where
  "accept_presence m identity device audience a =
    (let r = \<lparr>pr_id = pm_id m, pr_device = device, pr_seq = pm_seq m, pr_expires_at = pm_expires_at m,
              pr_state = pm_state m, pr_kid = pm_kid m, pr_sealed = pm_sealed m,
              pr_audience = (if audience = '''' then None else Some audience)\<rparr>
     in presence_changed identity
          (a\<lparr>au_records := dset (identity, device, audience) r (au_records a),
             au_last_accepted := dset (device, audience) (au_now a) (au_last_accepted a)\<rparr>))"

definition recv_presence :: "presence_msg \<Rightarrow> string \<Rightarrow> auth \<Rightarrow> auth" where
  "recv_presence m identity a = (case pm_device m of
     None \<Rightarrow> refuse m ''presence.signer-mismatch'' None a
   | Some device \<Rightarrow>
     if device \<noteq> pm_from m \<or> pm_subject m \<noteq> identity then refuse m ''presence.signer-mismatch'' None a
     else if \<not> (RECORD_MIN_LIFETIME_S \<le> pm_expires_at m - pm_issued_at m
                \<and> pm_expires_at m - pm_issued_at m \<le> RECORD_MAX_LIFETIME_S) then refuse m ''presence.lifetime'' None a
     else
       (let audience = (case pm_audience m of None \<Rightarrow> '''' | Some x \<Rightarrow> x);
            key = (identity, device, audience)
        in if (case dget (au_records a) key of None \<Rightarrow> False | Some held \<Rightarrow> pm_seq m \<le> pr_seq held)
           then refuse m ''presence.stale'' None a
           else case dget (au_last_accepted a) (device, audience) of
             Some prev \<Rightarrow>
               if au_now a - prev < PUBLISH_INTERVAL_S
               then refuse m ''policy.rate-limited'' (Some (PUBLISH_INTERVAL_S - (au_now a - prev))) a
               else accept_presence m identity device audience a
           | None \<Rightarrow> accept_presence m identity device audience a))"

definition recv_revocation :: "string \<Rightarrow> int \<Rightarrow> string \<Rightarrow> auth \<Rightarrow> auth" where
  "recv_revocation grant until identity a =
    (let a1 = a\<lparr>au_revoked := dset (identity, grant) until (au_revoked a)\<rparr>
     in foldl (\<lambda>a sid. case dget (au_subs a) sid of
            None \<Rightarrow> a
          | Some s \<Rightarrow> if ad_grant (bs_admission s) = Some grant \<and> bs_target s = identity
                      then bnotify sid ''terminated'' (Some ''policy.terminated'') a else a) a1 (dsorted (au_subs a1)))"

section \<open>Subscriptions\<close>

definition authorized :: "auth \<Rightarrow> string \<Rightarrow> string \<Rightarrow> string option \<Rightarrow> bool" where
  "authorized a target identity token \<longleftrightarrow>
     (case token of None \<Rightarrow> False | Some t \<Rightarrow> dget (au_capabilities a) t = Some target)
     \<or> (case dget (au_policy a) target of None \<Rightarrow> True
        | Some pol \<Rightarrow> po_mode pol = ''public'' \<or> identity \<in> set (po_allow pol))"

definition no_admission :: admission where
  "no_admission = \<lparr>ad_own = False, ad_grant = None, ad_until = None, ad_audience = None\<rparr>"

definition claim_grant :: "bclaim \<Rightarrow> bgrant option" where
  "claim_grant c = (if bc_type c = Some ''dsip-grant'' then bc_grant c else None)"

definition grant_admits :: "auth \<Rightarrow> string \<Rightarrow> string \<Rightarrow> bgrant \<Rightarrow> bool" where
  "grant_admits a target identity g \<longleftrightarrow>
     bg_verified g \<noteq> Some False \<and> bg_identity g = target \<and> bg_to g = identity \<and> ''dsip.subscribe'' \<in> set (bg_scope g)
     \<and> bg_until g > au_now a \<and> dget (au_revoked a) (target, bg_id g) = None"

definition admit_presence :: "auth \<Rightarrow> string \<Rightarrow> string \<Rightarrow> subscribe_msg \<Rightarrow> admission option" where
  "admit_presence a target identity m =
    (if identity = target then Some (no_admission\<lparr>ad_own := True\<rparr>)
     else case find (grant_admits a target identity) (List.map_filter claim_grant (sm_claims m)) of
       Some g \<Rightarrow> Some \<lparr>ad_own = False, ad_grant = Some (bg_id g), ad_until = Some (bg_until g), ad_audience = bg_audience g\<rparr>
     | None \<Rightarrow>
         if (case sm_capability m of None \<Rightarrow> False | Some t \<Rightarrow> dget (au_capabilities a) t = Some target)
         then Some no_admission
         else case dget (au_policy a) target of
           None \<Rightarrow> None
         | Some pol \<Rightarrow> if po_mode pol = ''public'' \<or> identity \<in> set (po_allow pol)
                        then Some (no_admission\<lparr>ad_audience := po_audience pol\<rparr>) else None)"

definition target_exists :: "auth \<Rightarrow> string \<Rightarrow> string list \<Rightarrow> bool" where
  "target_exists a target events \<longleftrightarrow>
    (if ''publication'' \<in> set events then dget (au_publications a) target \<noteq> None
     else target \<in> set (dvals (au_identities a)) \<or> bbound a target \<noteq> {} \<or> dget (au_policy a) target \<noteq> None
          \<or> target \<in> set (dvals (au_capabilities a)))"

definition existing_sub :: "auth \<Rightarrow> subscribe_msg \<Rightarrow> string option" where
  "existing_sub a m = map_option fst (find (\<lambda>(_, s). bs_device s = sm_from m \<and> bs_target s = sm_target m
     \<and> bs_events s = sm_events m) (au_subs a))"

definition end_existing :: "string option \<Rightarrow> string \<Rightarrow> auth \<Rightarrow> auth" where
  "end_existing existing state a = (case existing of None \<Rightarrow> a
     | Some sid \<Rightarrow> bemit (BSubscription sid state) (a\<lparr>au_subs := ddel sid (au_subs a)\<rparr>))"

definition admitted :: "auth \<Rightarrow> string \<Rightarrow> subscribe_msg \<Rightarrow> admission option" where
  "admitted a identity m =
    (let adm = (if ''presence'' \<notin> set (sm_events m) then Some no_admission
                else admit_presence a (sm_target m) identity m)
     in if \<not> target_exists a (sm_target m) (sm_events m) \<or> adm = None
           \<or> (''presence'' \<notin> set (sm_events m) \<and> \<not> authorized a (sm_target m) identity (sm_capability m))
        then None else adm)"

definition new_sub :: "auth \<Rightarrow> string \<Rightarrow> subscribe_msg \<Rightarrow> int \<Rightarrow> admission \<Rightarrow> bsub" where
  "new_sub a identity m lifetime adm =
     \<lparr>bs_subscriber = identity, bs_device = sm_from m, bs_target = sm_target m, bs_events = sm_events m,
      bs_expires_at = au_now a + lifetime, bs_seq = 0, bs_admission = adm,
      bs_sealed = (''presence/0.2'' \<in> set (sm_profiles m)), bs_body = None\<rparr>"

definition recv_subscribe :: "subscribe_msg \<Rightarrow> string \<Rightarrow> auth \<Rightarrow> auth option" where
  "recv_subscribe m identity a =
    (let existing = existing_sub a m
     in if sm_expires_in m = 0 then
          Some (if existing = None then bemit (BDrop ''no-matching-subscription'') a
                else end_existing existing ''terminated'' a)
        else case admitted a identity m of
          None \<Rightarrow> Some (bemit (BReject (sm_from m) (sm_id m) ''policy.blocked'') a)
        | Some adm \<Rightarrow>
            if sm_events m = [] then None
            else
              (let cap = Min (set (map (\<lambda>e. dget_or SUBSCRIPTION_EVENTS e 86400) (sm_events m)));
                   lifetime = min (sm_expires_in m) cap;
                   a1 = end_existing existing ''replaced'' a;
                   sub = new_sub a1 identity m lifetime adm
               in Some (bnotify (sm_id m) ''active'' None (a1\<lparr>au_subs := dset (sm_id m) sub (au_subs a1)\<rparr>))))"

section \<open>Publications\<close>

definition recv_publish :: "publish_msg \<Rightarrow> string \<Rightarrow> auth \<Rightarrow> auth" where
  "recv_publish m identity a =
    (if pu_publisher m \<noteq> identity then bemit (BDrop ''publisher-mismatch'') a
     else if \<not> stream_in_namespace (pu_stream m) (pu_publisher m) then bemit (BDrop ''stream-id-namespace'') a
     else if (case dget (au_publications a) (pu_stream m) of None \<Rightarrow> False | Some cur \<Rightarrow> pu_id m \<le> bp_publication cur)
     then bemit (BDrop ''stale-publication'') a
     else notify_all ''publication'' (pu_stream m)
       (bemit (BPublication (pu_stream m) (pu_state m))
         (a\<lparr>au_publications := dset (pu_stream m)
              \<lparr>bp_publication = pu_id m, bp_publisher = pu_publisher m, bp_state = pu_state m,
               bp_expires_at = pu_expires_at m, bp_variants = pu_variants m, bp_policy = pu_policy m\<rparr>
              (au_publications a),
            au_provenance := ddel (pu_stream m) (au_provenance a)\<rparr>)))"

definition recv_unpublish :: "string \<Rightarrow> string \<Rightarrow> string \<Rightarrow> auth \<Rightarrow> auth" where
  "recv_unpublish stream publication identity a = (case dget (au_publications a) stream of
     None \<Rightarrow> bemit (BDrop ''unknown-publication'') a
   | Some cur \<Rightarrow>
     if bp_publication cur \<noteq> publication then bemit (BDrop ''unknown-publication'') a
     else if bp_publisher cur \<noteq> identity then bemit (BDrop ''publisher-mismatch'') a
     else notify_all ''publication'' stream
       (bemit (BPublication stream ''withdrawn'')
         (a\<lparr>au_publications := dset stream (cur\<lparr>bp_state := ''withdrawn''\<rparr>) (au_publications a)\<rparr>)))"

definition recv_provenance :: "string \<Rightarrow> string \<Rightarrow> bstmt \<Rightarrow> string \<Rightarrow> auth \<Rightarrow> auth" where
  "recv_provenance stream publication stm identity a = (case dget (au_publications a) stream of
     None \<Rightarrow> bemit (BDrop ''provenance-unknown-publication'') a
   | Some cur \<Rightarrow>
     if bp_publication cur \<noteq> publication then bemit (BDrop ''provenance-unknown-publication'') a
     else if st_processor stm \<noteq> identity then bemit (BDrop ''provenance-processor-mismatch'') a
     else if st_input stm \<notin> set (map va_id (bp_variants cur)) then bemit (BDrop ''provenance-variant-unknown'') a
     else notify_all ''publication'' stream
       (bemit (BProvenance stream (st_processor stm))
         (a\<lparr>au_provenance := dset stream (dget_or (au_provenance a) stream [] @ [stm]) (au_provenance a)\<rparr>)))"

fun brecv :: "bmsg \<Rightarrow> auth \<Rightarrow> auth option" where
  "brecv (Publish m) a = Some (recv_publish m (identity_of a (pu_from m)) a)"
| "brecv (Unpublish sender stream publication) a = Some (recv_unpublish stream publication (identity_of a sender) a)"
| "brecv (Provenance sender stream publication stm) a = Some (recv_provenance stream publication stm (identity_of a sender) a)"
| "brecv (Subscribe m) a = recv_subscribe m (identity_of a (sm_from m)) a"
| "brecv (Presence m) a = Some (recv_presence m (identity_of a (pm_from m)) a)"
| "brecv (GrantRevocation sender grant until) a = Some (recv_revocation grant until (identity_of a sender) a)"
| "brecv OtherBroadcast a = Some (bemit (BDrop ''not-broadcast'') a)"

section \<open>Time\<close>

definition expire_sub :: "auth \<Rightarrow> string \<Rightarrow> auth" where
  "expire_sub a sid = (case dget (au_subs a) sid of
     None \<Rightarrow> a
   | Some s \<Rightarrow>
       if bs_expires_at s \<le> au_now a then bnotify sid ''terminated'' (Some ''session.expired'') a
       else case ad_until (bs_admission s) of
         Some u \<Rightarrow> if u \<le> au_now a then bnotify sid ''terminated'' (Some ''policy.terminated'') a else a
       | None \<Rightarrow> a)"

definition expire_publication :: "auth \<Rightarrow> string \<Rightarrow> auth" where
  "expire_publication a stream = (case dget (au_publications a) stream of
     None \<Rightarrow> a
   | Some p \<Rightarrow>
       if (bp_state p = ''live'' \<or> bp_state p = ''scheduled'') \<and> bp_expires_at p \<le> au_now a
       then notify_all ''publication'' stream
         (bemit (BPublication stream ''expired'')
           (a\<lparr>au_publications := dset stream (p\<lparr>bp_state := ''expired''\<rparr>) (au_publications a)\<rparr>))
       else a)"

definition expire_record :: "auth \<times> string list \<Rightarrow> string \<times> string \<times> string \<Rightarrow> auth \<times> string list" where
  "expire_record acc key = (case acc of (a, changed) \<Rightarrow> case key of (subject, device, audience) \<Rightarrow>
     case dget (au_records a) key of
       None \<Rightarrow> (a, changed)
     | Some r \<Rightarrow>
         if dget_or (au_grace_until a) device (au_now a + 1) \<le> au_now a then (drop_device subject device a, subject # changed)
         else if pr_expires_at r \<le> au_now a then (a\<lparr>au_records := ddel key (au_records a)\<rparr>, subject # changed)
         else (a, changed))"

definition bexpire :: "auth \<Rightarrow> auth" where
  "bexpire a =
    (let a1 = foldl expire_sub a (dsorted (au_subs a));
         a2 = a1\<lparr>au_revoked := filter (\<lambda>(_, until). until > au_now a) (au_revoked a1)\<rparr>;
         a3 = foldl expire_publication a2 (dkeys (au_publications a2));
         (a4, changed) = foldl expire_record (a3, []) (dsorted (au_records a3));
         a5 = a4\<lparr>au_grace_until := filter (\<lambda>(_, until). until > au_now a) (au_grace_until a4)\<rparr>
     in foldl (\<lambda>a subject. presence_changed subject a) a5 (sort (remdups changed)))"

section \<open>The step\<close>

definition rebind :: "string \<Rightarrow> string \<Rightarrow> string \<Rightarrow> auth \<Rightarrow> auth" where
  "rebind kind identity device a =
    (if kind = ''bind'' then
       a\<lparr>au_bound := dset identity (insert device (bbound a identity)) (au_bound a),
         au_grace_until := ddel device (au_grace_until a)\<rparr>
     else if kind = ''unbind'' then
       (let a1 = a\<lparr>au_bound := dmodify identity (\<lambda>ds. ds - {device}) (au_bound a)\<rparr>
        in if holds_record a1 identity device \<and> dget (au_grace_until a1) device = None then
             if au_grace a1 = 0 then drop_device identity device a1
             else a1\<lparr>au_grace_until := dset device (au_now a1 + au_grace a1) (au_grace_until a1)\<rparr>
           else a1)
     else a)"

definition brelay :: "string \<Rightarrow> string \<Rightarrow> string \<Rightarrow> auth \<Rightarrow> auth" where
  "brelay kind identity device a = presence_changed identity (rebind kind identity device a)"

fun bact :: "bevent \<Rightarrow> auth \<Rightarrow> auth option" where
  "bact (BAdvance n) a = Some (bexpire (a\<lparr>au_now := au_now a + n\<rparr>))"
| "bact (BRecv m) a = brecv m a"
| "bact (BSetPolicy target pol) a = Some (a\<lparr>au_policy := dset target pol (au_policy a)\<rparr>)"
| "bact (BIssueCapability token target) a = Some (a\<lparr>au_capabilities := dset token target (au_capabilities a)\<rparr>)"
| "bact (BRelay kind identity device) a = Some (brelay kind identity device a)"

definition auth_step :: "auth \<Rightarrow> bevent \<Rightarrow> auth option" where
  "auth_step a e = bact e (a\<lparr>au_out := []\<rparr>)"

section \<open>The subscriber\<close>

datatype sub_state = SubPending | SubActive | SubLapsed | SubRejected | SubTerminated

record ssub =
  ss_target :: string
  ss_events :: "string list"
  ss_state :: sub_state
  ss_seq :: int
  ss_expires_at :: int

record subscriber =
  su_now :: int
  su_subs :: "(string, ssub) dict"

datatype sout =
    SLapsed string
  | SSend string string string "string list" int
  | SRejected string
  | STerminated "string option"
  | SNotified "string option" "string option"
  | SDrop string

datatype smsg =
    SMReject "string option" string
  | SMNotify string int string "string option" "string option" "string option"
  | SMOther

datatype sevent =
    SAdvance int
  | SSubscribe string string string "string list" int
  | SRecv smsg

definition lapse :: "subscriber \<times> sout list \<Rightarrow> string \<Rightarrow> subscriber \<times> sout list" where
  "lapse acc sid = (case acc of (u, out) \<Rightarrow> case dget (su_subs u) sid of
     None \<Rightarrow> (u, out)
   | Some s \<Rightarrow>
       if ss_state s = SubActive \<and> ss_expires_at s \<le> su_now u
       then (u\<lparr>su_subs := dset sid (s\<lparr>ss_state := SubLapsed\<rparr>) (su_subs u)\<rparr>, out @ [SLapsed sid])
       else (u, out))"

fun srecv :: "smsg \<Rightarrow> subscriber \<Rightarrow> subscriber \<times> sout list" where
  "srecv (SMReject session reason) u =
     (case Option.bind session (dget (su_subs u)) of
        None \<Rightarrow> (u, [SDrop ''unknown-subscription''])
      | Some s \<Rightarrow> (u\<lparr>su_subs := dset (the session) (s\<lparr>ss_state := SubRejected\<rparr>) (su_subs u)\<rparr>,
                   [SRejected (rr_effective (resolve_reason reason ''reject''))]))"
| "srecv (SMNotify sid seq state reason bevent bstate) u =
     (case dget (su_subs u) sid of
        None \<Rightarrow> (u, [SDrop ''unknown-subscription''])
      | Some s \<Rightarrow>
          if ss_state s = SubTerminated \<or> ss_state s = SubRejected then (u, [SDrop ''terminated-subscription''])
          else if seq \<le> ss_seq s then (u, [SDrop ''stale-seq''])
          else if state = ''terminated''
          then (u\<lparr>su_subs := dset sid (s\<lparr>ss_seq := seq, ss_state := SubTerminated\<rparr>) (su_subs u)\<rparr>, [STerminated reason])
          else (u\<lparr>su_subs := dset sid (s\<lparr>ss_seq := seq, ss_state := SubActive\<rparr>) (su_subs u)\<rparr>,
                [SNotified bevent bstate]))"
| "srecv SMOther u = (u, [SDrop ''not-subscription''])"

fun subscriber_step :: "subscriber \<Rightarrow> sevent \<Rightarrow> subscriber \<times> sout list" where
  "subscriber_step u (SAdvance n) =
     (let u1 = u\<lparr>su_now := su_now u + n\<rparr> in foldl lapse (u1, []) (dsorted (su_subs u1)))"
| "subscriber_step u (SSubscribe sid dest target events expires_in) =
     (u\<lparr>su_subs := dset sid \<lparr>ss_target = target, ss_events = events, ss_state = SubPending, ss_seq = 0,
                             ss_expires_at = su_now u + expires_in\<rparr> (su_subs u)\<rparr>,
      [SSend dest sid target events expires_in])"
| "subscriber_step u (SRecv m) = srecv m u"

section \<open>The receiver's stateless checks\<close>

definition select_variant :: "variant list \<Rightarrow> string list \<Rightarrow> string list \<Rightarrow> string option" where
  "select_variant variants codecs transports = map_option va_id
     (find (\<lambda>v. va_codec v \<in> set (map Some codecs) \<and> va_transport v \<in> set (map Some transports)) variants)"

record prov_stmt =
  ps_publication :: "string option"
  ps_stream :: "string option"
  ps_processor :: "string option"
  ps_input :: "string option"
  ps_operation :: string

datatype prov_verdict = ProvReject string | ProvAccept string string "string option"

definition evaluate_provenance ::
  "prov_stmt \<Rightarrow> string \<Rightarrow> string \<Rightarrow> string \<Rightarrow> variant list \<Rightarrow> (string, string) dict \<Rightarrow> prov_verdict" where
  "evaluate_provenance stm identity pub_id stream variants pol =
    (if ps_publication stm \<noteq> Some pub_id then ProvReject ''provenance-unknown-publication''
     else if ps_stream stm \<noteq> Some stream then ProvReject ''provenance-stream-mismatch''
     else if ps_processor stm \<noteq> Some identity then ProvReject ''provenance-processor-mismatch''
     else if ps_input stm \<notin> set (map (Some \<circ> va_id) variants) then ProvReject ''provenance-variant-unknown''
     else ProvAccept identity (ps_operation stm)
       (if dget pol ''redistribution'' = Some ''forbidden'' then Some ''redistribution''
        else if ps_operation stm = ''transcode'' \<and> dget pol ''transcoding'' \<in> {Some ''forbidden'', Some ''denied''}
        then Some ''transcoding'' else None))"

end
