(* ===== verification/Broadcast.thy ===== *)
theory Broadcast
  imports Broadcast_Model
begin

text \<open>
  What the authority and the subscriber promise. \<open>quiet\<close> relates two states between which a subscription only
  counted its notifies; \<open>fresh_but C P\<close> says that every subscription was last notified of its current body, except
  those of the subjects in \<open>C\<close> and the streams in \<open>P\<close>, whose records or publications have changed: every operation
  ends with nothing outstanding.
\<close>

declare map_of_eq_Some_iff [simp del] Some_eq_map_of_iff [simp del]

section \<open>Frames\<close>

lemma bemit_simps [simp]:
  "au_now (bemit e a) = au_now a" "au_identities (bemit e a) = au_identities a"
  "au_publications (bemit e a) = au_publications a" "au_provenance (bemit e a) = au_provenance a"
  "au_subs (bemit e a) = au_subs a" "au_policy (bemit e a) = au_policy a"
  "au_capabilities (bemit e a) = au_capabilities a" "au_bound (bemit e a) = au_bound a"
  "au_records (bemit e a) = au_records a" "au_grace_until (bemit e a) = au_grace_until a"
  "au_last_accepted (bemit e a) = au_last_accepted a" "au_revoked (bemit e a) = au_revoked a"
  "au_grace (bemit e a) = au_grace a" "au_out (bemit e a) = au_out a @ [e]"
  by (simp_all add: bemit_def)

lemma bnotify_frame: "bnotify sid st re a = a\<lparr>au_subs := au_subs (bnotify sid st re a), au_out := au_out (bnotify sid st re a)\<rparr>"
  by (simp add: bnotify_def Let_def bemit_def split: option.split)

lemma bnotify_simps [simp]:
  "au_now (bnotify sid st re a) = au_now a" "au_identities (bnotify sid st re a) = au_identities a"
  "au_publications (bnotify sid st re a) = au_publications a" "au_provenance (bnotify sid st re a) = au_provenance a"
  "au_policy (bnotify sid st re a) = au_policy a" "au_capabilities (bnotify sid st re a) = au_capabilities a"
  "au_bound (bnotify sid st re a) = au_bound a" "au_records (bnotify sid st re a) = au_records a"
  "au_grace_until (bnotify sid st re a) = au_grace_until a" "au_last_accepted (bnotify sid st re a) = au_last_accepted a"
  "au_revoked (bnotify sid st re a) = au_revoked a" "au_grace (bnotify sid st re a) = au_grace a"
  by (simp_all add: bnotify_def Let_def split: option.split)

text \<open>The body depends on the publications, statements, records and bindings, and on what the subscription is for.\<close>

definition same_view :: "auth \<Rightarrow> auth \<Rightarrow> bool" where
  "same_view a a' \<longleftrightarrow> au_publications a' = au_publications a \<and> au_provenance a' = au_provenance a
     \<and> au_records a' = au_records a \<and> au_bound a' = au_bound a"

lemma body_for_view: "same_view a a' \<Longrightarrow> body_for a' s = body_for a s"
  by (simp add: same_view_def body_for_def presence_body_def bbound_def cong: option.case_cong)

lemma sees_cong: "sees (Some (s\<lparr>bs_seq := n\<rparr>)) = sees (Some s)" "sees (Some (s\<lparr>bs_body := b\<rparr>)) = sees (Some s)"
  by (simp_all add: sees_def fun_eq_iff)

lemma body_for_sub [simp]: "body_for a (s\<lparr>bs_seq := n\<rparr>) = body_for a s" "body_for a (s\<lparr>bs_body := b\<rparr>) = body_for a s"
  by (simp_all add: body_for_def presence_body_def sees_cong cong: option.case_cong)

lemma same_view_bnotify [simp]: "same_view a (bnotify sid st re a)"
  by (simp add: same_view_def)

lemma same_view_bemit [simp]: "same_view a (bemit e a)"
  by (simp add: same_view_def)

lemma bnotify_subs: "dget (au_subs (bnotify sid st re a)) k = (case dget (au_subs a) k of
     None \<Rightarrow> None
   | Some s \<Rightarrow> if k \<noteq> sid then Some s else if st = ''terminated'' then None
               else Some (s\<lparr>bs_seq := bs_seq s + 1, bs_body := Some (body_for a s)\<rparr>))"
  by (simp add: bnotify_def Let_def split: option.split)

lemma in_sids_where: "dget (au_subs a) sid = Some s \<Longrightarrow> P s \<Longrightarrow> sid \<in> set (sids_where P a)"
  by (force simp: sids_where_def dest: map_of_SomeD)

section \<open>Only counting\<close>

text \<open>The sequence numbers of the notifies for one subscription among the emissions, and that they continue from \<open>n\<close>.\<close>

definition seqs :: "string \<Rightarrow> bout list \<Rightarrow> int list" where
  "seqs sid out = List.map_filter (\<lambda>e. case e of BNotify _ sid' n _ _ _ \<Rightarrow> if sid' = sid then Some n else None | _ \<Rightarrow> None) out"

definition numbered :: "string \<Rightarrow> int \<Rightarrow> auth \<Rightarrow> bool" where
  "numbered sid n a \<longleftrightarrow> seqs sid (au_out a) = map (\<lambda>i. n + 1 + int i) [0..<length (seqs sid (au_out a))]
     \<and> (\<forall>s. dget (au_subs a) sid = Some s \<longrightarrow> bs_seq s = n + int (length (seqs sid (au_out a))))"

definition kept :: "auth \<Rightarrow> auth \<Rightarrow> bool" where
  "kept a a' \<longleftrightarrow> (\<forall>sid s'. dget (au_subs a') sid = Some s' \<longrightarrow>
     (\<exists>s n b. dget (au_subs a) sid = Some s \<and> s' = s\<lparr>bs_seq := n, bs_body := b\<rparr>))"

definition quiet :: "auth \<Rightarrow> auth \<Rightarrow> bool" where
  "quiet a a' \<longleftrightarrow> au_now a' = au_now a \<and> au_revoked a' = au_revoked a \<and> kept a a'
     \<and> (\<forall>sid n. numbered sid n a \<longrightarrow> numbered sid n a')"

fun is_notify :: "bout \<Rightarrow> bool" where
  "is_notify (BNotify _ _ _ _ _ _) = True"
| "is_notify _ = False"

lemma seqs_snoc: "seqs sid (out @ [e]) = seqs sid out @ (case e of BNotify _ sid' n _ _ _ \<Rightarrow> if sid' = sid then [n] else [] | _ \<Rightarrow> [])"
  by (cases e) (simp_all add: seqs_def List.map_filter_def)

lemma seqs_other [simp]: "\<not> is_notify e \<Longrightarrow> seqs sid (out @ [e]) = seqs sid out"
  by (cases e) (simp_all add: seqs_snoc)

lemma bsub_same: "\<exists>n b. s = s\<lparr>bs_seq := n, bs_body := b\<rparr>" for s :: bsub
  by (intro exI [of _ "bs_seq s"] exI [of _ "bs_body s"]) simp

lemma kept_same: "au_subs a' = au_subs a \<Longrightarrow> kept a a'"
  unfolding kept_def using bsub_same by simp

lemma kept_refl [simp]: "kept a a"
  by (rule kept_same) simp

lemma keptE: assumes "kept a a'" "dget (au_subs a') sid = Some s'"
  obtains s n b where "dget (au_subs a) sid = Some s" "s' = s\<lparr>bs_seq := n, bs_body := b\<rparr>"
  using assms unfolding kept_def by blast

lemma kept_trans: assumes "kept a b" "kept b c" shows "kept a c"
  unfolding kept_def
proof (intro allI impI)
  fix sid s'
  assume "dget (au_subs c) sid = Some s'"
  then obtain s n x where s: "dget (au_subs b) sid = Some s" "s' = s\<lparr>bs_seq := n, bs_body := x\<rparr>"
    by (rule keptE [OF assms(2)])
  obtain s0 n0 x0 where s0: "dget (au_subs a) sid = Some s0" "s = s0\<lparr>bs_seq := n0, bs_body := x0\<rparr>"
    using s(1) by (rule keptE [OF assms(1)])
  have "s' = s0\<lparr>bs_seq := n, bs_body := x\<rparr>"
    by (simp add: s(2) s0(2))
  then show "\<exists>s n b. dget (au_subs a) sid = Some s \<and> s' = s\<lparr>bs_seq := n, bs_body := b\<rparr>"
    using s0(1) by blast
qed

lemma quiet_refl [simp]: "quiet a a"
  by (simp add: quiet_def kept_same)

lemma quiet_trans [trans]: "quiet a b \<Longrightarrow> quiet b c \<Longrightarrow> quiet a c"
  by (auto simp: quiet_def intro: kept_trans)

lemma quiet_foldl: "(\<And>a x. quiet a (f a x)) \<Longrightarrow> quiet a (foldl f a xs)"
  by (rule foldl_inv [where P = "quiet a"]) (auto intro: quiet_trans)

lemma quiet_same: "au_now a' = au_now a \<Longrightarrow> au_revoked a' = au_revoked a \<Longrightarrow> au_subs a' = au_subs a \<Longrightarrow> au_out a' = au_out a
    \<Longrightarrow> quiet a a'"
  by (simp add: quiet_def numbered_def kept_same)

lemma quiet_bemit [simp]: "\<not> is_notify e \<Longrightarrow> quiet a (bemit e a)"
  by (simp add: quiet_def numbered_def kept_same)

lemma numbered_bemit [simp]: "\<not> is_notify e \<Longrightarrow> numbered sid n (bemit e a) = numbered sid n a"
  by (simp add: numbered_def)

lemma numbered_bnotify: assumes "numbered sid n a" shows "numbered sid n (bnotify k st re a)"
proof (cases "dget (au_subs a) k")
  case (Some s)
  have out: "seqs sid (au_out (bnotify k st re a)) = seqs sid (au_out a) @ (if k = sid then [bs_seq s + 1] else [])"
    using Some by (simp add: bnotify_def Let_def seqs_snoc)
  show ?thesis
  proof (cases "k = sid")
    case True
    then have "bs_seq s = n + int (length (seqs sid (au_out a)))"
      using assms Some by (simp add: numbered_def)
    then show ?thesis
      using assms True Some unfolding numbered_def out by (simp add: bnotify_subs)
  qed (use assms in \<open>simp add: numbered_def out bnotify_subs split: option.split\<close>)
qed (use assms in \<open>simp add: bnotify_def\<close>)

lemma kept_bnotify: "kept a (bnotify k st re a)"
  unfolding kept_def
proof (intro allI impI)
  fix sid s'
  assume "dget (au_subs (bnotify k st re a)) sid = Some s'"
  then show "\<exists>s n b. dget (au_subs a) sid = Some s \<and> s' = s\<lparr>bs_seq := n, bs_body := b\<rparr>"
    using bsub_same by (auto simp: bnotify_subs split: option.splits if_splits)
qed

lemma quiet_bnotify [simp]: "quiet a (bnotify k st re a)"
  by (simp add: quiet_def kept_bnotify numbered_bnotify)

lemma quiet_notify_all [simp]: "quiet a (notify_all e t a)"
  by (simp add: notify_all_def quiet_foldl)

lemma quiet_presence_changed [simp]: "quiet a (presence_changed i a)"
  unfolding presence_changed_def by (rule quiet_foldl) (simp add: notify_if_changed_def split: option.split)


lemma quiet_then:
  "quiet a b \<Longrightarrow> quiet a (notify_all e t b)" "quiet a b \<Longrightarrow> quiet a (presence_changed i b)"
  "quiet a b \<Longrightarrow> \<not> is_notify x \<Longrightarrow> quiet a (bemit x b)"
  "quiet a b \<Longrightarrow> quiet a (bnotify k st re b)"
  by (auto intro: quiet_trans)

lemma quiet_drop_device [simp]: "quiet a (drop_device s d a)"
  by (rule quiet_same) (simp_all add: drop_device_def)

lemma quiet_accept: "quiet a (accept_presence m i d au a)"
  unfolding accept_presence_def Let_def by (intro quiet_then quiet_same) simp_all

lemma quiet_recv_presence: "quiet a (recv_presence m i a)"
  by (simp add: recv_presence_def refuse_def Let_def quiet_accept split: option.split)

lemma quiet_recv_publish: "quiet a (recv_publish m i a)"
  by (auto simp: recv_publish_def intro!: quiet_then quiet_same)

lemma quiet_recv_unpublish: "quiet a (recv_unpublish st p i a)"
  by (auto simp: recv_unpublish_def intro!: quiet_then quiet_same split: option.split)

lemma quiet_recv_provenance: "quiet a (recv_provenance st p x i a)"
  by (auto simp: recv_provenance_def intro!: quiet_then quiet_same split: option.split)

lemma quiet_brelay: "quiet a (brelay k i d a)"
  unfolding brelay_def by (rule quiet_then) (auto simp: rebind_def Let_def drop_device_def intro!: quiet_same)

lemma quiet_end_existing: "quiet a (end_existing x st a)"
proof (cases x)
  case (Some sid)
  have "kept a (a\<lparr>au_subs := ddel sid (au_subs a)\<rparr>)"
    unfolding kept_def using bsub_same by (auto split: if_splits)
  then have "quiet a (a\<lparr>au_subs := ddel sid (au_subs a)\<rparr>)"
    by (auto simp: quiet_def numbered_def)
  with Some show ?thesis
    by (simp add: end_existing_def quiet_then)
qed (simp add: end_existing_def)

lemma quiet_expire_sub: "quiet a (expire_sub a k)"
  by (simp add: expire_sub_def split: option.split)

lemma quiet_expire_publication: "quiet a (expire_publication a k)"
  by (auto simp: expire_publication_def intro!: quiet_then quiet_same split: option.split)

lemma quiet_expire_record: "quiet (fst p) (fst (expire_record p k))"
  by (auto simp: expire_record_def drop_device_def intro!: quiet_same split: option.split prod.splits)

lemma quiet_expire_records: "quiet (fst p) (fst (foldl expire_record p ks))"
  by (rule foldl_inv [where P = "\<lambda>q. quiet (fst p) (fst q)"]) (auto intro: quiet_trans quiet_expire_record)

text \<open>The revocations change twice; otherwise a clock tick and a revocation only count, too.\<close>

definition same_subs :: "auth \<Rightarrow> auth \<Rightarrow> bool" where
  "same_subs a a' \<longleftrightarrow> au_subs a' = au_subs a \<and> au_out a' = au_out a"

lemma numbered_same: "same_subs a a' \<Longrightarrow> numbered sid n a' = numbered sid n a"
  by (simp add: same_subs_def numbered_def)

lemma numbered_quiet: "quiet a a' \<Longrightarrow> numbered sid n a \<Longrightarrow> numbered sid n a'"
  by (simp add: quiet_def)

definition after_subs :: "auth \<Rightarrow> auth" where
  "after_subs a = (let a1 = foldl expire_sub a (dsorted (au_subs a))
     in a1\<lparr>au_revoked := filter (\<lambda>(_, until). until > au_now a) (au_revoked a1)\<rparr>)"

lemma bexpire_after: "quiet (after_subs a) (bexpire a)"
proof -
  let ?a3 = "foldl expire_publication (after_subs a) (dkeys (au_publications (after_subs a)))"
  let ?p = "foldl expire_record (?a3, []) (dsorted (au_records ?a3))"
  have "quiet (after_subs a) ?a3"
    by (simp add: quiet_foldl quiet_expire_publication)
  moreover have "quiet ?a3 (fst ?p)"
    using quiet_expire_records [of "(?a3, [])"] by simp
  moreover have "quiet (fst ?p) ((fst ?p)\<lparr>au_grace_until := x\<rparr>)" for x
    by (simp add: quiet_same)
  moreover have "quiet b (foldl (\<lambda>a s. presence_changed s a) b xs)" for b xs
    by (simp add: quiet_foldl)
  ultimately have "quiet (after_subs a) (foldl (\<lambda>a s. presence_changed s a) ((fst ?p)\<lparr>au_grace_until := x\<rparr>) xs)" for x xs
    by (rule quiet_trans [OF quiet_trans [OF quiet_trans]])
  then show ?thesis
    by (simp add: bexpire_def after_subs_def Let_def case_prod_beta')
qed

lemma quiet_expire_subs: "quiet a (foldl expire_sub a ks)"
  by (simp add: quiet_foldl quiet_expire_sub)

lemma kept_after: "kept a (after_subs a)"
  using quiet_expire_subs [of a "dsorted (au_subs a)"]
  by (simp add: after_subs_def Let_def quiet_def kept_def)

lemma now_after [simp]: "au_now (after_subs a) = au_now a"
  using quiet_expire_subs [of a "dsorted (au_subs a)"] by (simp add: after_subs_def Let_def quiet_def)

lemma numbered_bexpire: assumes "numbered sid n a" shows "numbered sid n (bexpire a)"
proof -
  have "numbered sid n (after_subs a)"
    using numbered_quiet [OF quiet_expire_subs assms] numbered_same
    by (simp add: after_subs_def Let_def same_subs_def numbered_def)
  then show ?thesis
    by (rule numbered_quiet [OF bexpire_after])
qed

definition revoke_sub :: "string \<Rightarrow> string \<Rightarrow> auth \<Rightarrow> string \<Rightarrow> auth" where
  "revoke_sub grant identity a sid = (case dget (au_subs a) sid of
      None \<Rightarrow> a
    | Some s \<Rightarrow> if ad_grant (bs_admission s) = Some grant \<and> bs_target s = identity
                then bnotify sid ''terminated'' (Some ''policy.terminated'') a else a)"

lemma quiet_revoke_sub: "quiet a (revoke_sub g i a k)"
  by (simp add: revoke_sub_def split: option.split)

lemma recv_revocation_eq: "recv_revocation g until i a =
    foldl (revoke_sub g i) (a\<lparr>au_revoked := dset (i, g) until (au_revoked a)\<rparr>) (dsorted (au_subs a))"
  by (simp add: recv_revocation_def revoke_sub_def [abs_def] Let_def)

lemma quiet_recv_revocation: "quiet (a\<lparr>au_revoked := dset (i, g) until (au_revoked a)\<rparr>) (recv_revocation g until i a)"
  unfolding recv_revocation_eq by (rule quiet_foldl) (rule quiet_revoke_sub)

lemma numbered_recv_revocation: "numbered sid n a \<Longrightarrow> numbered sid n (recv_revocation g until i a)"
  by (rule numbered_quiet [OF quiet_recv_revocation]) (simp add: numbered_def)

lemma numbered_recv_subscribe:
  assumes "numbered sid n a" "recv_subscribe m i a = Some a'" "sm_id m \<noteq> sid"
  shows "numbered sid n a'"
proof -
  have "numbered sid n (end_existing x st a)" for x st
    by (rule numbered_quiet [OF quiet_end_existing assms(1)])
  moreover have "numbered sid n (bnotify (sm_id m) ''active'' None (b\<lparr>au_subs := dset (sm_id m) s (au_subs b)\<rparr>))"
    if "numbered sid n b" for b s
    using that assms(3) by (intro numbered_bnotify) (auto simp: numbered_def)
  ultimately show ?thesis
    using assms(1,2) by (auto simp: recv_subscribe_def Let_def split: if_splits option.splits)
qed

lemma numbered_step:
  assumes "auth_step a e = Some a'" "numbered sid n (a\<lparr>au_out := []\<rparr>)" "\<And>m. e = BRecv (Subscribe m) \<Longrightarrow> sm_id m \<noteq> sid"
  shows "numbered sid n a'"
proof (cases e)
  case (BAdvance k)
  have "numbered sid n (a\<lparr>au_out := [], au_now := au_now a + k\<rparr>)"
    using assms(2) by (simp add: numbered_def)
  then show ?thesis
    using assms(1) BAdvance numbered_bexpire by (simp add: auth_step_def) blast
next
  case (BRecv m)
  then show ?thesis
    using assms by (cases m) (auto simp: auth_step_def intro: numbered_recv_subscribe numbered_recv_revocation
      numbered_quiet quiet_bemit quiet_recv_publish quiet_recv_unpublish quiet_recv_provenance quiet_recv_presence)
next
  case (BRelay k i d)
  then show ?thesis
    using assms by (auto simp: auth_step_def intro: numbered_quiet quiet_brelay)
qed (use assms in \<open>auto simp: auth_step_def numbered_def\<close>)

section \<open>Every subscription has been notified of its current body\<close>

definition clean :: "string set \<Rightarrow> string set \<Rightarrow> bsub \<Rightarrow> bool" where
  "clean C P s \<longleftrightarrow> (if ''publication'' \<in> set (bs_events s) then bs_target s \<notin> P
                  else ''presence'' \<in> set (bs_events s) \<and> bs_target s \<notin> C)"

definition fresh :: "auth \<Rightarrow> bsub \<Rightarrow> bool" where
  "fresh a s \<longleftrightarrow> bs_body s = Some (body_for a s)"

definition fresh_but :: "string set \<Rightarrow> string set \<Rightarrow> auth \<Rightarrow> bool" where
  "fresh_but C P a \<longleftrightarrow> (\<forall>sid s. dget (au_subs a) sid = Some s \<longrightarrow> clean C P s \<longrightarrow> fresh a s)"

lemma clean_sub [simp]: "clean C P (s\<lparr>bs_seq := n, bs_body := b\<rparr>) = clean C P s"
  by (simp add: clean_def)

lemma fresh_view: "same_view a a' \<Longrightarrow> fresh a' s = fresh a s"
  by (simp add: fresh_def body_for_view)

lemma same_view_refl [simp]: "same_view a a"
  by (simp add: same_view_def)

lemma same_view_trans: "same_view a b \<Longrightarrow> same_view b c \<Longrightarrow> same_view a c"
  by (simp add: same_view_def)

text \<open>One step of a notification loop: it makes one subscription fresh and leaves the others alone.\<close>

definition freshens :: "auth \<Rightarrow> string \<Rightarrow> auth \<Rightarrow> bool" where
  "freshens a k b \<longleftrightarrow> same_view a b \<and> kept a b \<and> (\<forall>s. dget (au_subs b) k = Some s \<longrightarrow> fresh b s)
     \<and> (\<forall>j s. j \<noteq> k \<longrightarrow> dget (au_subs b) j = Some s \<longrightarrow> dget (au_subs a) j = Some s)"

lemma freshens_bnotify: "freshens a k (bnotify k st re a)"
  unfolding freshens_def
proof (intro conjI allI impI)
  show "fresh (bnotify k st re a) s" if "dget (au_subs (bnotify k st re a)) k = Some s" for s
    using that by (auto simp: bnotify_subs fresh_def body_for_view [OF same_view_bnotify] split: option.splits if_splits)
qed (auto simp: kept_bnotify bnotify_subs split: option.splits if_splits)

lemma freshens_if_changed: "freshens a k (notify_if_changed a k)"
proof (cases "dget (au_subs a) k")
  case (Some s)
  then show ?thesis
    using freshens_bnotify [of a k "''active''" None]
    by (auto simp: notify_if_changed_def freshens_def fresh_def)
qed (simp add: notify_if_changed_def freshens_def)

lemma fold_freshens:
  fixes ks :: "string list"
  assumes "\<And>a k. freshens a k (f a k)" "fresh_but C P a"
  defines "b \<equiv> foldl f a ks"
  shows "same_view a b" "kept a b"
    "dget (au_subs b) sid = Some s \<Longrightarrow> sid \<in> set ks \<or> clean C P s \<Longrightarrow> fresh b s"
proof -
  have "same_view a b \<and> kept a b \<and> (\<forall>sid s. dget (au_subs b) sid = Some s \<longrightarrow> sid \<in> set ks \<or> clean C P s \<longrightarrow> fresh b s)"
    unfolding b_def
  proof (rule foldl_inv_done [where P = "\<lambda>X b. same_view a b \<and> kept a b
      \<and> (\<forall>sid s. dget (au_subs b) sid = Some s \<longrightarrow> sid \<in> X \<or> clean C P s \<longrightarrow> fresh b s)"])
    fix X b k
    assume b: "same_view a b \<and> kept a b \<and> (\<forall>sid s. dget (au_subs b) sid = Some s \<longrightarrow> sid \<in> X \<or> clean C P s \<longrightarrow> fresh b s)"
    have f: "freshens b k (f b k)" by (rule assms(1))
    then have v: "same_view b (f b k)" by (simp add: freshens_def)
    show "same_view a (f b k) \<and> kept a (f b k)
        \<and> (\<forall>sid s. dget (au_subs (f b k)) sid = Some s \<longrightarrow> sid \<in> insert k X \<or> clean C P s \<longrightarrow> fresh (f b k) s)"
    proof (intro conjI allI impI)
      show "same_view a (f b k)" using b v same_view_trans by blast
      show "kept a (f b k)" using b f kept_trans by (auto simp: freshens_def)
      fix sid s
      assume "dget (au_subs (f b k)) sid = Some s" "sid \<in> insert k X \<or> clean C P s"
      then show "fresh (f b k) s"
        using b f unfolding freshens_def fresh_view [OF v] by (cases "sid = k") auto
    qed
  qed (use assms(2) in \<open>auto simp: fresh_but_def\<close>)
  then show "same_view a b" "kept a b"
    "dget (au_subs b) sid = Some s \<Longrightarrow> sid \<in> set ks \<or> clean C P s \<Longrightarrow> fresh b s" by auto
qed

lemma fresh_notify_all: assumes "fresh_but C P a" shows "fresh_but C (P - {stream}) (notify_all ''publication'' stream a)"
  unfolding fresh_but_def
proof (intro allI impI)
  fix sid s
  let ?ks = "sids_where (\<lambda>s. bs_target s = stream \<and> ''publication'' \<in> set (bs_events s)) a"
  assume s: "dget (au_subs (notify_all ''publication'' stream a)) sid = Some s" "clean C (P - {stream}) s"
  note f = fold_freshens [of "\<lambda>a k. bnotify k ''active'' None a" C P a ?ks, OF freshens_bnotify assms, folded notify_all_def]
  obtain s0 n b where "dget (au_subs a) sid = Some s0" "s = s0\<lparr>bs_seq := n, bs_body := b\<rparr>"
    using keptE [OF f(2) s(1)] .
  then have "sid \<in> set ?ks \<or> clean C P s"
    using s(2) by (auto simp: clean_def intro: in_sids_where)
  with f(3) [OF s(1)] show "fresh (notify_all ''publication'' stream a) s" .
qed

lemma fresh_presence_changed: assumes "fresh_but C P a" shows "fresh_but (C - {i}) P (presence_changed i a)"
  unfolding fresh_but_def
proof (intro allI impI)
  fix sid s
  let ?ks = "sids_where (\<lambda>s. bs_target s = i \<and> ''presence'' \<in> set (bs_events s)) a"
  assume s: "dget (au_subs (presence_changed i a)) sid = Some s" "clean (C - {i}) P s"
  note f = fold_freshens [of notify_if_changed C P a ?ks, OF freshens_if_changed assms, folded presence_changed_def]
  obtain s0 n b where "dget (au_subs a) sid = Some s0" "s = s0\<lparr>bs_seq := n, bs_body := b\<rparr>"
    using keptE [OF f(2) s(1)] .
  then have "sid \<in> set ?ks \<or> clean C P s"
    using s(2) by (auto simp: clean_def intro: in_sids_where split: if_splits)
  with f(3) [OF s(1)] show "fresh (presence_changed i a) s" .
qed

lemma presence_changed_view: "same_view a (presence_changed i a)"
  unfolding presence_changed_def
  by (rule foldl_inv [where P = "same_view a"]) (auto intro: same_view_trans simp: notify_if_changed_def split: option.split)

text \<open>The changes: of one stream's publication or statements, of one subject's records or bindings.\<close>

lemma fresh_stream:
  assumes "fresh_but C P a" "au_subs a' = au_subs a" "au_records a' = au_records a" "au_bound a' = au_bound a"
    "\<And>x. x \<noteq> stream \<Longrightarrow> dget (au_publications a') x = dget (au_publications a) x"
    "\<And>x. x \<noteq> stream \<Longrightarrow> dget (au_provenance a') x = dget (au_provenance a) x"
  shows "fresh_but C (insert stream P) a'"
proof -
  have "body_for a' s = body_for a s" if "clean C (insert stream P) s" for s
    using that assms(3-6)
    by (simp add: body_for_def presence_body_def bbound_def clean_def dget_or_def split: if_splits cong: option.case_cong)
  moreover have "clean C P s" if "clean C (insert stream P) s" for s
    using that by (simp add: clean_def split: if_splits)
  ultimately show ?thesis
    using assms(1,2) by (auto simp: fresh_but_def fresh_def)
qed

lemma fresh_subject:
  assumes "fresh_but C P a" "au_subs a' = au_subs a" "au_publications a' = au_publications a"
    "au_provenance a' = au_provenance a"
    "\<And>x. x \<noteq> i \<Longrightarrow> records_of (au_records a') x = records_of (au_records a) x \<and> bbound a' x = bbound a x"
  shows "fresh_but (insert i C) P a'"
proof -
  have "body_for a' s = body_for a s" if "clean (insert i C) P s" for s
    using that assms(3,4) assms(5) [of "bs_target s"]
    by (auto simp: body_for_def presence_body_def clean_def split: if_splits cong: option.case_cong)
  moreover have "clean C P s" if "clean (insert i C) P s" for s
    using that by (simp add: clean_def split: if_splits)
  ultimately show ?thesis
    using assms(1,2) by (auto simp: fresh_but_def fresh_def)
qed

lemma fresh_same: "fresh_but C P a \<Longrightarrow> au_subs a' = au_subs a \<Longrightarrow> same_view a a' \<Longrightarrow> fresh_but C P a'"
  by (simp add: fresh_but_def fresh_view)

lemma records_of_cong:
  assumes "filter (\<lambda>k. fst k = x) (dkeys d') = filter (\<lambda>k. fst k = x) (dkeys d)" "\<And>k. fst k = x \<Longrightarrow> dget d' k = dget d k"
  shows "records_of d' x = records_of d x"
proof -
  have "filter (\<lambda>k. fst k = x) (dsorted d') = filter (\<lambda>k. fst k = x) (dsorted d)"
    using assms(1) by (simp add: dsorted_def filter_sort)
  then show ?thesis
    using assms(2) unfolding records_of_def List.map_filter_def
    by (auto intro!: map_cong filter_cong)
qed

lemma records_of_dset: "fst k \<noteq> x \<Longrightarrow> records_of (dset k r d) x = records_of d x"
  by (rule records_of_cong) (auto simp: dict.keys_put)

lemma records_of_ddel: "fst k \<noteq> x \<Longrightarrow> records_of (ddel k d) x = records_of d x"
  by (rule records_of_cong) (auto simp: dict.keys_del intro: filter_cong)

lemma records_of_drop: assumes "s \<noteq> x" shows "records_of (au_records (drop_device s d a)) x = records_of (au_records a) x"
proof (rule records_of_cong)
  have "filter (\<lambda>k. fst k = x) (dkeys (filter (\<lambda>(k, _). \<not> (fst k = s \<and> fst (snd k) = d)) r)) = filter (\<lambda>k. fst k = x) (dkeys r)"
    for r :: "(string \<times> string \<times> string, prec) dict"
    using assms by (induction r) auto
  then show "filter (\<lambda>k. fst k = x) (dkeys (au_records (drop_device s d a))) = filter (\<lambda>k. fst k = x) (dkeys (au_records a))"
    by (simp add: drop_device_def)
qed (use assms in \<open>simp add: drop_device_def dget_filter del: de_Morgan_conj\<close>)

text \<open>A change and its notification leave nothing outstanding.\<close>

lemma fresh_close_stream:
  assumes "fresh_but C {} a" "au_subs a' = au_subs a" "au_records a' = au_records a" "au_bound a' = au_bound a"
    "\<And>x. x \<noteq> stream \<Longrightarrow> dget (au_publications a') x = dget (au_publications a) x"
    "\<And>x. x \<noteq> stream \<Longrightarrow> dget (au_provenance a') x = dget (au_provenance a) x"
  shows "fresh_but C {} (notify_all ''publication'' stream (bemit e a'))"
proof -
  have "fresh_but C {stream} (bemit e a')"
    by (rule fresh_same [OF fresh_stream [OF assms]]) (auto simp: same_view_def)
  from fresh_notify_all [OF this, of stream] show ?thesis
    by simp
qed

lemma fresh_close_subject:
  assumes "fresh_but {} P a" "au_subs a' = au_subs a" "au_publications a' = au_publications a"
    "au_provenance a' = au_provenance a"
    "\<And>x. x \<noteq> i \<Longrightarrow> records_of (au_records a') x = records_of (au_records a) x \<and> bbound a' x = bbound a x"
  shows "fresh_but {} P (presence_changed i a')"
  using fresh_presence_changed [OF fresh_subject [OF assms, of i], of i] by simp

lemma fresh_bemit [simp]: "fresh_but C P (bemit e a) = fresh_but C P a"
  by (simp add: fresh_but_def fresh_view [OF same_view_bemit])

lemma fresh_freshens: "freshens a k b \<Longrightarrow> fresh_but C P a \<Longrightarrow> fresh_but C P b"
  unfolding freshens_def fresh_but_def using fresh_view by metis

lemma fresh_bnotify: "fresh_but C P a \<Longrightarrow> fresh_but C P (bnotify k st re a)"
  by (rule fresh_freshens [OF freshens_bnotify])

lemma fresh_recv_publish: "fresh_but {} {} a \<Longrightarrow> fresh_but {} {} (recv_publish m i a)"
  by (auto simp: recv_publish_def intro!: fresh_close_stream)

lemma fresh_recv_unpublish: "fresh_but {} {} a \<Longrightarrow> fresh_but {} {} (recv_unpublish st p i a)"
  by (auto simp: recv_unpublish_def intro!: fresh_close_stream split: option.split)

lemma fresh_recv_provenance: "fresh_but {} {} a \<Longrightarrow> fresh_but {} {} (recv_provenance st p x i a)"
  by (auto simp: recv_provenance_def intro!: fresh_close_stream split: option.split)

lemma fresh_accept: "fresh_but {} {} a \<Longrightarrow> fresh_but {} {} (accept_presence m i d au a)"
  unfolding accept_presence_def Let_def
  by (rule fresh_close_subject) (auto simp: records_of_dset bbound_def)

lemma fresh_recv_presence: "fresh_but {} {} a \<Longrightarrow> fresh_but {} {} (recv_presence m i a)"
  by (simp add: recv_presence_def refuse_def Let_def fresh_accept split: option.split)

lemma drop_device_simps [simp]:
  "au_subs (drop_device s d a) = au_subs a" "au_publications (drop_device s d a) = au_publications a"
  "au_provenance (drop_device s d a) = au_provenance a" "au_bound (drop_device s d a) = au_bound a"
  "au_now (drop_device s d a) = au_now a"
  by (simp_all add: drop_device_def)

lemma fresh_brelay: assumes "fresh_but {} {} a" shows "fresh_but {} {} (brelay k i d a)"
  unfolding brelay_def
  by (rule fresh_close_subject [OF assms]) (auto simp: rebind_def Let_def records_of_drop bbound_def dget_or_def)

lemma fresh_fold: "fresh_but C P a \<Longrightarrow> (\<And>a k. fresh_but C P a \<Longrightarrow> fresh_but C P (f a k)) \<Longrightarrow> fresh_but C P (foldl f a ks)"
  by (rule foldl_inv)

lemma fresh_expire_sub: "fresh_but C P a \<Longrightarrow> fresh_but C P (expire_sub a k)"
  by (simp add: expire_sub_def fresh_bnotify split: option.split)

lemma fresh_revoke_sub: "fresh_but C P a \<Longrightarrow> fresh_but C P (revoke_sub g i a k)"
  by (simp add: revoke_sub_def fresh_bnotify split: option.split)

lemma fresh_expire_publication: "fresh_but C {} a \<Longrightarrow> fresh_but C {} (expire_publication a k)"
  by (auto simp: expire_publication_def intro!: fresh_close_stream split: option.split)

lemma fresh_expire_record:
  "fresh_but (set (snd p)) {} (fst p) \<Longrightarrow> fresh_but (set (snd (expire_record p k))) {} (fst (expire_record p k))"
proof (cases p; cases k)
  fix a ch subject device au
  assume p: "p = (a, ch)" "k = (subject, device, au)" and "fresh_but (set (snd p)) {} (fst p)"
  then have "fresh_but (insert subject (set ch)) {} a'" if "au_subs a' = au_subs a" "au_publications a' = au_publications a"
      "au_provenance a' = au_provenance a" "au_bound a' = au_bound a"
      "\<And>x. x \<noteq> subject \<Longrightarrow> records_of (au_records a') x = records_of (au_records a) x" for a'
    using that by (intro fresh_subject [where a = a]) (auto simp: bbound_def)
  note this [of "drop_device subject device a"] this [of "a\<lparr>au_records := ddel k (au_records a)\<rparr>"]
  then show ?thesis
    using p \<open>fresh_but (set (snd p)) {} (fst p)\<close>
    by (auto simp: expire_record_def records_of_drop records_of_ddel split: option.split)
qed

lemma fresh_bexpire: assumes "fresh_but {} {} a" shows "fresh_but {} {} (bexpire a)"
proof -
  let ?a3 = "foldl expire_publication (after_subs a) (dkeys (au_publications (after_subs a)))"
  let ?p = "foldl expire_record (?a3, []) (dsorted (au_records ?a3))"
  have "fresh_but {} {} (foldl expire_sub a (dsorted (au_subs a)))"
    using assms by (rule fresh_fold) (rule fresh_expire_sub)
  then have "fresh_but {} {} (after_subs a)"
    by (auto simp: after_subs_def Let_def same_view_def elim!: fresh_same)
  then have "fresh_but {} {} ?a3"
    by (rule fresh_fold) (rule fresh_expire_publication)
  then have "fresh_but (set (snd ?p)) {} (fst ?p)"
    by (intro foldl_inv [where P = "\<lambda>p. fresh_but (set (snd p)) {} (fst p)"] fresh_expire_record) simp
  then have 5: "fresh_but (set (snd ?p)) {} ((fst ?p)\<lparr>au_grace_until := x\<rparr>)" for x
    by (auto simp: same_view_def elim!: fresh_same)
  have "fresh_but (set (snd ?p) - insert i X) {} (presence_changed i b)" if "fresh_but (set (snd ?p) - X) {} b" for X i b
    using fresh_presence_changed [OF that, of i] by (simp only: Diff_insert [symmetric])
  then have "fresh_but (set (snd ?p) - set xs) {} (foldl (\<lambda>a i. presence_changed i a) ((fst ?p)\<lparr>au_grace_until := x\<rparr>) xs)" for x xs
    using 5 by (intro foldl_inv_done [where P = "\<lambda>X b. fresh_but (set (snd ?p) - X) {} b"]) simp_all
  from this [of "sort (remdups (snd ?p))"] show ?thesis
    by (simp add: bexpire_def after_subs_def Let_def case_prod_beta')
qed

lemma fresh_subs [simp]: "fresh (a\<lparr>au_subs := x\<rparr>) s = fresh a s" "fresh (bemit e a) s = fresh a s"
  by (rule fresh_view, simp add: same_view_def)+

lemma fresh_end_existing: "fresh_but C P a \<Longrightarrow> fresh_but C P (end_existing x st a)"
  by (simp add: end_existing_def fresh_but_def split: option.split)

lemma fresh_new: assumes "fresh_but C P a"
  shows "fresh_but C P (bnotify k ''active'' None (a\<lparr>au_subs := dset k s (au_subs a)\<rparr>))" (is "fresh_but C P ?b")
  unfolding fresh_but_def
proof (intro allI impI)
  fix sid t
  assume t: "dget (au_subs ?b) sid = Some t" "clean C P t"
  note f = freshens_bnotify [of "a\<lparr>au_subs := dset k s (au_subs a)\<rparr>" k "''active''" None]
  have "fresh ?b x = fresh (a\<lparr>au_subs := dset k s (au_subs a)\<rparr>) x" for x
    by (rule fresh_view) simp
  then show "fresh ?b t"
    using f t assms by (cases "sid = k") (auto simp: freshens_def fresh_but_def)
qed

lemma fresh_recv_subscribe: "fresh_but {} {} a \<Longrightarrow> recv_subscribe m i a = Some a' \<Longrightarrow> fresh_but {} {} a'"
  by (auto simp: recv_subscribe_def Let_def fresh_end_existing fresh_new split: if_splits option.splits)

lemma fresh_recv_revocation: assumes "fresh_but {} {} a" shows "fresh_but {} {} (recv_revocation g u i a)"
proof -
  have "fresh_but {} {} (a\<lparr>au_revoked := x\<rparr>)" for x
    using assms by (auto simp: same_view_def elim!: fresh_same)
  then show ?thesis
    unfolding recv_revocation_eq by (rule fresh_fold) (rule fresh_revoke_sub)
qed

lemma fresh_step: assumes "fresh_but {} {} a" "auth_step a e = Some a'" shows "fresh_but {} {} a'"
proof -
  let ?b = "a\<lparr>au_out := []\<rparr>"
  have b: "fresh_but {} {} (?b\<lparr>au_now := n\<rparr>)" "fresh_but {} {} ?b" "fresh_but {} {} (?b\<lparr>au_policy := p\<rparr>)"
    "fresh_but {} {} (?b\<lparr>au_capabilities := c\<rparr>)" for n p c
    using assms(1) by (auto simp: same_view_def elim!: fresh_same)
  show ?thesis
  proof (cases e)
    case (BRecv m)
    then show ?thesis
      using assms(2) b(2) by (cases m) (auto simp: auth_step_def intro: fresh_recv_publish fresh_recv_unpublish
        fresh_recv_provenance fresh_recv_presence fresh_recv_subscribe fresh_recv_revocation)
  qed (use assms(2) b fresh_bexpire [OF b(1)] fresh_brelay [OF b(2)] in \<open>auto simp: auth_step_def\<close>)
qed

end
