(* ===== verification/Subscription.thy ===== *)
theory Subscription
  imports Broadcast
begin

text \<open>
  The subscription protocol over whole runs: the invariant of the authority (nothing outlives its cap, nothing is
  admitted by a revoked grant, everybody was last notified of the current body), the numbering of the notifies, and the
  subscriber's ordering and terminal states.
\<close>

section \<open>Lifetimes and grants\<close>

definition sub_ok :: "auth \<Rightarrow> bsub \<Rightarrow> bool" where
  "sub_ok a s \<longleftrightarrow> bs_expires_at s \<le> au_now a + 86400
     \<and> (''presence'' \<in> set (bs_events s) \<longrightarrow> bs_expires_at s \<le> au_now a + 3600)
     \<and> (\<forall>g. ad_grant (bs_admission s) = Some g \<longrightarrow> dget (au_revoked a) (bs_target s, g) = None)"

definition subs_ok :: "auth \<Rightarrow> bool" where
  "subs_ok a \<longleftrightarrow> (\<forall>sid s. dget (au_subs a) sid = Some s \<longrightarrow> sub_ok a s)"

definition auth_ok :: "auth \<Rightarrow> bool" where
  "auth_ok a \<longleftrightarrow> subs_ok a \<and> fresh_but {} {} a"

fun auth_event_ok :: "bevent \<Rightarrow> bool" where
  "auth_event_ok (BAdvance n) \<longleftrightarrow> 0 \<le> n"
| "auth_event_ok _ \<longleftrightarrow> True"

lemma subs_ok_kept:
  assumes "subs_ok a" "kept a a'" "au_now a \<le> au_now a'"
    "\<And>k. dget (au_revoked a) k = None \<Longrightarrow> dget (au_revoked a') k = None"
  shows "subs_ok a'"
  unfolding subs_ok_def
proof (intro allI impI)
  fix sid s' assume "dget (au_subs a') sid = Some s'"
  then obtain s n b where s: "dget (au_subs a) sid = Some s" "s' = s\<lparr>bs_seq := n, bs_body := b\<rparr>"
    using keptE [OF assms(2)] by blast
  then have "sub_ok a s" using assms(1) by (simp add: subs_ok_def)
  then show "sub_ok a' s'" using assms(3,4) by (auto simp: sub_ok_def s(2))
qed

lemma subs_ok_quiet: "subs_ok a \<Longrightarrow> quiet a a' \<Longrightarrow> subs_ok a'"
  by (rule subs_ok_kept [of a a']) (simp_all add: quiet_def)

lemma dget_filter_None: "dget d k = None \<Longrightarrow> dget (filter P d) k = None"
  by (induction d) (auto split: if_splits)

lemma subs_ok_bexpire: assumes "subs_ok a" shows "subs_ok (bexpire a)"
proof -
  have "au_revoked (foldl expire_sub a (dsorted (au_subs a))) = au_revoked a"
    "au_now (foldl expire_sub a (dsorted (au_subs a))) = au_now a"
    using quiet_expire_subs [of a "dsorted (au_subs a)"] by (simp_all add: quiet_def)
  then have "subs_ok (after_subs a)"
    by (intro subs_ok_kept [OF assms kept_after]) (simp_all add: after_subs_def Let_def dget_filter_None)
  then show ?thesis
    by (rule subs_ok_quiet [OF _ bexpire_after])
qed

lemma revoked_gone:
  assumes "dget (au_subs (recv_revocation g u i a)) sid = Some s"
  shows "\<not> (ad_grant (bs_admission s) = Some g \<and> bs_target s = i)"
proof -
  let ?a1 = "a\<lparr>au_revoked := dset (i, g) u (au_revoked a)\<rparr>"
  let ?P = "\<lambda>X b. kept ?a1 b \<and> (\<forall>sid \<in> X. \<forall>s. dget (au_subs b) sid = Some s \<longrightarrow> \<not> (ad_grant (bs_admission s) = Some g \<and> bs_target s = i))"
  have P: "?P (set (dsorted (au_subs a))) (recv_revocation g u i a)"
    unfolding recv_revocation_eq
  proof (rule foldl_inv_done [where P = ?P])
    fix X b k assume b: "?P X b"
    have k: "kept b (revoke_sub g i b k)"
      using quiet_revoke_sub by (simp add: quiet_def)
    show "?P (insert k X) (revoke_sub g i b k)"
    proof (intro conjI ballI allI impI)
      show "kept ?a1 (revoke_sub g i b k)" using b k kept_trans by blast
      fix sid s assume s: "sid \<in> insert k X" "dget (au_subs (revoke_sub g i b k)) sid = Some s"
      show "\<not> (ad_grant (bs_admission s) = Some g \<and> bs_target s = i)"
      proof (cases "sid = k")
        case True
        with s(2) show ?thesis
          by (auto simp: revoke_sub_def bnotify_subs split: option.splits if_splits)
      next
        case False
        obtain s0 n x where "dget (au_subs b) sid = Some s0" "s = s0\<lparr>bs_seq := n, bs_body := x\<rparr>"
          using keptE [OF k s(2)] by blast
        with b s(1) False show ?thesis by simp
      qed
    qed
  qed simp
  obtain s0 n x where "dget (au_subs ?a1) sid = Some s0" "s = s0\<lparr>bs_seq := n, bs_body := x\<rparr>"
    using keptE [OF conjunct1 [OF P] assms] by blast
  then have "sid \<in> set (dsorted (au_subs a))"
    unfolding set_dsorted by (intro dget_in_keys) simp
  with P assms show ?thesis by blast
qed

lemma subs_ok_recv_revocation: assumes "subs_ok a" shows "subs_ok (recv_revocation g u i a)"
  unfolding subs_ok_def
proof (intro allI impI)
  let ?b = "recv_revocation g u i a"
  have q: "quiet (a\<lparr>au_revoked := dset (i, g) u (au_revoked a)\<rparr>) ?b" by (rule quiet_recv_revocation)
  fix sid s' assume s': "dget (au_subs ?b) sid = Some s'"
  have "kept (a\<lparr>au_revoked := dset (i, g) u (au_revoked a)\<rparr>) ?b" using q by (simp add: quiet_def)
  then obtain s n x where "dget (au_subs (a\<lparr>au_revoked := dset (i, g) u (au_revoked a)\<rparr>)) sid = Some s"
      and s2: "s' = s\<lparr>bs_seq := n, bs_body := x\<rparr>"
    using s' by (rule keptE)
  then have s: "dget (au_subs a) sid = Some s" "s' = s\<lparr>bs_seq := n, bs_body := x\<rparr>" by simp_all
  have "sub_ok a s" using assms s(1) by (simp add: subs_ok_def)
  moreover have "au_now ?b = au_now a" "au_revoked ?b = dset (i, g) u (au_revoked a)"
    using q by (simp_all add: quiet_def)
  ultimately show "sub_ok ?b s'"
    using revoked_gone [OF s'] by (auto simp: sub_ok_def s(2))
qed

lemma cap_of_event: "dget_or SUBSCRIPTION_EVENTS e 86400 \<le> 86400"
  by (simp add: dget_or_def SUBSCRIPTION_EVENTS_def)

lemma lifetime_bounds:
  assumes "events \<noteq> []"
  defines "cap \<equiv> Min (set (map (\<lambda>e. dget_or SUBSCRIPTION_EVENTS e 86400) events))"
  shows "cap \<le> 86400" "''presence'' \<in> set events \<Longrightarrow> cap \<le> 3600"
proof -
  have le: "cap \<le> dget_or SUBSCRIPTION_EVENTS e 86400" if "e \<in> set events" for e
    unfolding cap_def using that by (intro Min_le) auto
  show "cap \<le> 86400"
    using le [of "hd events"] assms(1) cap_of_event [of "hd events"] by simp
  show "cap \<le> 3600" if "''presence'' \<in> set events"
    using le [OF that] by (simp add: dget_or_def SUBSCRIPTION_EVENTS_def)
qed

lemma grant_admits_find: "find (grant_admits a t i) xs = Some g \<Longrightarrow> grant_admits a t i g"
  by (auto simp: find_Some_iff)

lemma admitted_grant: "admitted a i m = Some adm \<Longrightarrow> ad_grant adm = Some g \<Longrightarrow> dget (au_revoked a) (sm_target m, g) = None"
  by (auto simp: admitted_def admit_presence_def no_admission_def Let_def grant_admits_def
      dest!: grant_admits_find split: if_splits option.splits)

lemma end_existing_simps [simp]: "au_now (end_existing x st a) = au_now a" "au_revoked (end_existing x st a) = au_revoked a"
  "au_records (end_existing x st a) = au_records a" "au_bound (end_existing x st a) = au_bound a"
  by (simp_all add: end_existing_def split: option.split)

lemma subs_ok_recv_subscribe:
  assumes "subs_ok a" "recv_subscribe m i a = Some a'" shows "subs_ok a'"
proof -
  have e: "subs_ok (end_existing x st a)" for x st
    by (rule subs_ok_quiet [OF assms(1) quiet_end_existing])
  have new: "subs_ok (bnotify (sm_id m) ''active'' None (b\<lparr>au_subs := dset (sm_id m) s (au_subs b)\<rparr>))"
    if "subs_ok b" "sub_ok b s" for b s
    using that by (intro subs_ok_quiet [OF _ quiet_bnotify]) (auto simp: subs_ok_def sub_ok_def)
  have "sub_ok (end_existing x st a) (new_sub (end_existing x st a) i m
      (min (sm_expires_in m) (Min (set (map (\<lambda>e. dget_or SUBSCRIPTION_EVENTS e 86400) (sm_events m))))) adm)"
    if "admitted a i m = Some adm" "sm_events m \<noteq> []" for x st adm
    using lifetime_bounds [OF that(2)] admitted_grant [OF that(1)]
    by (auto simp: sub_ok_def new_sub_def intro: min.coboundedI2)
  then show ?thesis
    using assms e new by (auto simp: recv_subscribe_def Let_def subs_ok_quiet split: if_splits option.splits)
qed

lemma subs_ok_step: assumes "subs_ok a" "auth_event_ok e" "auth_step a e = Some a'" shows "subs_ok a'"
proof -
  let ?b = "a\<lparr>au_out := []\<rparr>"
  have b: "subs_ok ?b" "subs_ok (?b\<lparr>au_policy := p\<rparr>)" "subs_ok (?b\<lparr>au_capabilities := c\<rparr>)"
    "0 \<le> n \<Longrightarrow> subs_ok (?b\<lparr>au_now := au_now a + n\<rparr>)" for p c n
    using assms(1) by (auto intro!: subs_ok_kept [OF assms(1)] kept_same)
  show ?thesis
  proof (cases e)
    case (BRecv m)
    then show ?thesis
      using assms(3) b(1) by (cases m) (auto simp: auth_step_def intro: subs_ok_recv_subscribe subs_ok_recv_revocation
        subs_ok_quiet quiet_recv_publish quiet_recv_unpublish quiet_recv_provenance quiet_recv_presence quiet_bemit)
  qed (use assms(2,3) b subs_ok_quiet [OF b(1) quiet_brelay] subs_ok_bexpire in \<open>auto simp: auth_step_def\<close>)
qed

interpretation authority: machine auth_step auth_event_ok auth_ok
  by unfold_locales (auto simp: auth_ok_def intro: subs_ok_step fresh_step)

lemma init_auth_ok: "auth_ok (init_auth start ids grace)"
  by (simp add: auth_ok_def subs_ok_def fresh_but_def init_auth_def)

section \<open>After a tick\<close>

definition live :: "auth \<Rightarrow> bsub \<Rightarrow> bool" where
  "live a s \<longleftrightarrow> au_now a < bs_expires_at s \<and> (\<forall>u. ad_until (bs_admission s) = Some u \<longrightarrow> au_now a < u)"

lemma expire_sub_live: "dget (au_subs (expire_sub a k)) k = Some s \<Longrightarrow> live a s"
  by (auto simp: expire_sub_def bnotify_subs live_def split: option.splits if_splits)

lemma bexpire_live: assumes "dget (au_subs (bexpire a)) sid = Some s" shows "live a s"
proof -
  let ?P = "\<lambda>X b. quiet a b \<and> (\<forall>sid \<in> X. \<forall>s. dget (au_subs b) sid = Some s \<longrightarrow> live a s)"
  have P: "?P (set (dsorted (au_subs a))) (foldl expire_sub a (dsorted (au_subs a)))"
  proof (rule foldl_inv_done [where P = ?P])
    fix X b k assume b: "?P X b"
    have q: "quiet b (expire_sub b k)" by (rule quiet_expire_sub)
    then have kept: "kept b (expire_sub b k)" by (simp add: quiet_def)
    have now: "au_now b = au_now a" using b by (simp add: quiet_def)
    show "?P (insert k X) (expire_sub b k)"
    proof (intro conjI ballI allI impI)
      show "quiet a (expire_sub b k)" using b q quiet_trans by blast
      fix sid s assume s: "sid \<in> insert k X" "dget (au_subs (expire_sub b k)) sid = Some s"
      obtain s0 n x where s0: "dget (au_subs b) sid = Some s0" "s = s0\<lparr>bs_seq := n, bs_body := x\<rparr>"
        using kept s(2) by (rule keptE)
      show "live a s"
      proof (cases "sid = k")
        case True
        then have "live b s" using s(2) by (intro expire_sub_live) simp
        then show ?thesis using now by (simp add: live_def)
      next
        case False
        then have "live a s0" using b s(1) s0(1) by blast
        then show ?thesis by (simp add: live_def s0(2))
      qed
    qed
  qed simp
  have "kept (after_subs a) (bexpire a)" using bexpire_after by (simp add: quiet_def)
  then obtain s1 n1 x1 where s1: "dget (au_subs (after_subs a)) sid = Some s1" "s = s1\<lparr>bs_seq := n1, bs_body := x1\<rparr>"
    using assms by (rule keptE)
  have "kept a (after_subs a)" by (rule kept_after)
  then obtain s2 n2 x2 where "dget (au_subs a) sid = Some s2" "s1 = s2\<lparr>bs_seq := n2, bs_body := x2\<rparr>"
    using s1(1) by (rule keptE)
  then have "sid \<in> set (dsorted (au_subs a))"
    unfolding set_dsorted by (intro dget_in_keys)
  moreover have "dget (au_subs (foldl expire_sub a (dsorted (au_subs a)))) sid = Some s1"
    using s1(1) by (simp add: after_subs_def Let_def)
  ultimately have "live a s1" using P by blast
  then show ?thesis by (simp add: live_def s1(2))
qed

lemma bexpire_now [simp]: "au_now (bexpire a) = au_now a"
  using bexpire_after [of a] by (simp add: quiet_def)

section \<open>A watched presence\<close>

text \<open>A run the witnesses use: Alice's device comes up and publishes, her other device watches her own presence, and
  Bob's device watches it by a grant.\<close>

definition demo_subscribe :: "string \<Rightarrow> string \<Rightarrow> bclaim list \<Rightarrow> subscribe_msg" where
  "demo_subscribe sid dev claims = \<lparr>sm_id = sid, sm_from = dev, sm_target = ''alice'', sm_events = [''presence''],
     sm_expires_in = 600, sm_claims = claims, sm_capability = None, sm_profiles = []\<rparr>"

definition demo_presence :: "string \<Rightarrow> int \<Rightarrow> string \<Rightarrow> int \<Rightarrow> presence_msg" where
  "demo_presence mid n st issued = \<lparr>pm_id = mid, pm_from = ''alice1'', pm_device = Some ''alice1'', pm_subject = ''alice'',
     pm_seq = n, pm_issued_at = issued, pm_expires_at = issued + 300, pm_audience = None, pm_state = Some st,
     pm_kid = None, pm_sealed = None\<rparr>"

definition demo_claim :: bclaim where
  "demo_claim = \<lparr>bc_type = Some ''dsip-grant'', bc_grant = Some \<lparr>bg_verified = None, bg_identity = ''alice'', bg_to = ''bob'',
     bg_scope = [''dsip.subscribe''], bg_until = 5000, bg_id = ''g1'', bg_audience = None\<rparr>\<rparr>"

definition demo_start :: auth where
  "demo_start = init_auth (Some 1000) [(''alice1'', ''alice''), (''alice2'', ''alice''), (''bob1'', ''bob'')] None"

definition demo_events :: "bevent list" where
  "demo_events = [BRelay ''bind'' ''alice'' ''alice1'', BRecv (Subscribe (demo_subscribe ''s1'' ''alice2'' [])),
     BRecv (Subscribe (demo_subscribe ''s2'' ''bob1'' [demo_claim])), BRecv (Presence (demo_presence ''p1'' 1 ''busy'' 1000))]"

definition watched :: auth where
  "watched = the (runs auth_step demo_start demo_events)"

lemma watched_reached: "reaches auth_step auth_event_ok demo_start watched"
proof (rule reaches_runs [OF _ _ reaches_refl])
  show "list_all auth_event_ok demo_events" by (simp add: demo_events_def)
  have "runs auth_step demo_start demo_events \<noteq> None" by code_simp
  then show "runs auth_step demo_start demo_events = Some watched" by (auto simp: watched_def)
qed

section \<open>Properties\<close>

text \<open>C10: Nobody watches a stale state. In every reachable state of the authority the last body notified to a subscription
  that lists presence or publication among its events is the body it would be notified of now: whatever changed the
  records, the bindings, the publications or the statements has notified exactly the subscriptions concerned.\<close>

theorem last_notified_is_current:
  assumes "reaches auth_step auth_event_ok (init_auth start ids grace) a" "dget (au_subs a) sid = Some s"
    "''presence'' \<in> set (bs_events s) \<or> ''publication'' \<in> set (bs_events s)"
  shows "bs_body s = Some (body_for a s)"
proof -
  have "fresh_but {} {} a"
    using authority.reaches_inv [OF assms(1) init_auth_ok] by (simp add: auth_ok_def)
  moreover have "clean {} {} s"
    using assms(3) by (auto simp: clean_def)
  ultimately show ?thesis
    using assms(2) by (simp add: fresh_but_def fresh_def)
qed

theorem last_notified_is_current_witness:
  "bs_body (the (dget (au_subs watched) ''s2'')) = Some (body_for watched (the (dget (au_subs watched) ''s2'')))"
proof (rule last_notified_is_current)
  show "reaches auth_step auth_event_ok (init_auth (Some 1000) [(''alice1'', ''alice''), (''alice2'', ''alice''), (''bob1'', ''bob'')] None) watched"
    using watched_reached by (simp add: demo_start_def)
  show "dget (au_subs watched) ''s2'' = Some (the (dget (au_subs watched) ''s2''))" by code_simp
  show "''presence'' \<in> set (bs_events (the (dget (au_subs watched) ''s2''))) \<or> ''publication'' \<in> set (bs_events (the (dget (au_subs watched) ''s2'')))"
    by code_simp
qed

text \<open>C11: The notifies of a subscription are numbered without gaps: those that a step sends, any step but a \<open>subscribe\<close> that
  reuses the id and so starts another subscription, continue from the number the subscription had, in order, and if it is
  still there it has the number of the last one.\<close>

theorem notifies_numbered:
  assumes "auth_step a e = Some a'" "dget (au_subs a) sid = Some s" "\<And>m. e = BRecv (Subscribe m) \<Longrightarrow> sm_id m \<noteq> sid"
  shows "seqs sid (au_out a') = map (\<lambda>i. bs_seq s + 1 + int i) [0..<length (seqs sid (au_out a'))]
    \<and> (\<forall>s'. dget (au_subs a') sid = Some s' \<longrightarrow> bs_seq s' = bs_seq s + int (length (seqs sid (au_out a'))))"
proof -
  have "numbered sid (bs_seq s) (a\<lparr>au_out := []\<rparr>)"
    using assms(2) by (simp add: numbered_def seqs_def List.map_filter_def)
  from numbered_step [OF assms(1) this assms(3)] show ?thesis
    by (simp add: numbered_def)
qed

text \<open>A minute later the watched device goes away, and the subscription's third notify says so.\<close>

definition watched_later :: auth where
  "watched_later = the (auth_step watched (BAdvance 60))"

definition gone_away :: bevent where
  "gone_away = BRecv (Presence (demo_presence ''p2'' 2 ''away'' 1060))"

theorem notifies_numbered_witness:
  "seqs ''s2'' (au_out (the (auth_step watched_later gone_away))) = [3]
    \<and> map_option bs_seq (dget (au_subs (the (auth_step watched_later gone_away))) ''s2'') = Some 3"
proof -
  define a' where "a' = the (auth_step watched_later gone_away)"
  have step: "auth_step watched_later gone_away = Some a'" by (simp add: a'_def gone_away_def auth_step_def)
  have "dget (au_subs watched_later) ''s2'' \<noteq> None" "bs_seq (the (dget (au_subs watched_later) ''s2'')) = 2" by code_simp+
  then obtain s where s: "dget (au_subs watched_later) ''s2'' = Some s" "bs_seq s = 2" by auto
  have "length (seqs ''s2'' (au_out a')) = 1" "dget (au_subs a') ''s2'' \<noteq> None" unfolding a'_def by code_simp+
  then show ?thesis
    using notifies_numbered [OF step s(1)] s(2) unfolding a'_def [symmetric] by (auto simp: gone_away_def)
qed

text \<open>C12: A revoked grant admits nobody: in every reachable state, while a revocation is held, no subscription to that
  target rests on the grant, neither one it admitted before nor a new one.\<close>

theorem revoked_grant_admits_nobody:
  assumes "reaches auth_step auth_event_ok (init_auth start ids grace) a" "dget (au_revoked a) (bs_target s, g) = Some u"
    "dget (au_subs a) sid = Some s"
  shows "ad_grant (bs_admission s) \<noteq> Some g"
proof -
  have "subs_ok a"
    using authority.reaches_inv [OF assms(1) init_auth_ok] by (simp add: auth_ok_def)
  then show ?thesis
    using assms(2,3) by (auto simp: subs_ok_def sub_ok_def)
qed

definition revoked_watch :: auth where
  "revoked_watch = the (auth_step watched (BRecv (GrantRevocation ''alice1'' ''g1'' 5000)))"

theorem revoked_grant_admits_nobody_witness:
  "ad_grant (bs_admission (the (dget (au_subs revoked_watch) ''s1''))) \<noteq> Some ''g1''"
proof (rule revoked_grant_admits_nobody)
  have step: "auth_step watched (BRecv (GrantRevocation ''alice1'' ''g1'' 5000)) = Some revoked_watch"
    by (simp add: revoked_watch_def auth_step_def)
  have "reaches auth_step auth_event_ok demo_start revoked_watch"
    by (rule reaches_step [where t = watched and e = "BRecv (GrantRevocation ''alice1'' ''g1'' 5000)"])
      (simp_all add: watched_reached step)
  then show "reaches auth_step auth_event_ok (init_auth (Some 1000) [(''alice1'', ''alice''), (''alice2'', ''alice''), (''bob1'', ''bob'')] None) revoked_watch"
    by (simp add: demo_start_def)
  show "dget (au_revoked revoked_watch) (bs_target (the (dget (au_subs revoked_watch) ''s1'')), ''g1'') = Some 5000"
    by code_simp
  show "dget (au_subs revoked_watch) ''s1'' = Some (the (dget (au_subs revoked_watch) ''s1''))" by code_simp
qed

text \<open>Subscriptions are soft state: after a tick, from any reachable state, every subscription that is left ends
  in the future and within the cap of its event class, and so does the grant that admitted it.\<close>

theorem subscriptions_are_soft_state:
  assumes "reaches auth_step auth_event_ok (init_auth start ids grace) a" "0 \<le> n"
  shows "\<exists>a'. auth_step a (BAdvance n) = Some a' \<and> au_now a' = au_now a + n
    \<and> (\<forall>sid s. dget (au_subs a') sid = Some s \<longrightarrow> au_now a' < bs_expires_at s \<and> bs_expires_at s \<le> au_now a' + 86400
         \<and> (''presence'' \<in> set (bs_events s) \<longrightarrow> bs_expires_at s \<le> au_now a' + 3600)
         \<and> (\<forall>u. ad_until (bs_admission s) = Some u \<longrightarrow> au_now a' < u))"
proof -
  let ?b = "a\<lparr>au_out := [], au_now := au_now a + n\<rparr>"
  have step: "auth_step a (BAdvance n) = Some (bexpire ?b)"
    by (simp add: auth_step_def)
  have "subs_ok a"
    using authority.reaches_inv [OF assms(1) init_auth_ok] by (simp add: auth_ok_def)
  then have "subs_ok (bexpire ?b)"
    using subs_ok_step [OF _ _ step] assms(2) by simp
  then show ?thesis
    unfolding step using bexpire_live [of ?b] by (auto simp: live_def subs_ok_def sub_ok_def)
qed

theorem subscriptions_are_soft_state_witness:
  "\<exists>a'. auth_step watched (BAdvance 100) = Some a' \<and> au_now a' = au_now watched + 100
    \<and> (\<forall>sid s. dget (au_subs a') sid = Some s \<longrightarrow> au_now a' < bs_expires_at s \<and> bs_expires_at s \<le> au_now a' + 86400
         \<and> (''presence'' \<in> set (bs_events s) \<longrightarrow> bs_expires_at s \<le> au_now a' + 3600)
         \<and> (\<forall>u. ad_until (bs_admission s) = Some u \<longrightarrow> au_now a' < u))"
  by (rule subscriptions_are_soft_state [OF watched_reached [unfolded demo_start_def]]) simp

text \<open>C13: Presence is private by default, except to a subscription with an unregistered event class. For a target with
  no policy, a stranger's \<open>subscribe\<close> to \<open>presence\<close> is blocked; the same message naming any class that is neither
  \<open>presence\<close> nor \<open>publication\<close> is accepted, and its first notify carries the target's presence.\<close>

theorem unregistered_event_reads_presence:
  assumes "sm_expires_in m \<noteq> 0" "sm_events m \<noteq> []" "''presence'' \<notin> set (sm_events m)" "''publication'' \<notin> set (sm_events m)"
    "dget (au_policy a) (sm_target m) = None" "bbound a (sm_target m) \<noteq> {}" "identity_of a (sm_from m) \<noteq> sm_target m"
    "sm_claims m = []" "sm_capability m = None"
  shows "\<exists>a' a'' s. auth_step a (BRecv (Subscribe (m\<lparr>sm_events := [''presence'']\<rparr>))) = Some a''
      \<and> au_out a'' = [BReject (sm_from m) (sm_id m) ''policy.blocked'']
      \<and> auth_step a (BRecv (Subscribe m)) = Some a'
      \<and> BNotify (sm_from m) (sm_id m) 1 ''active'' None (presence_body a (sm_target m) (Some s)) \<in> set (au_out a')"
proof -
  let ?b = "a\<lparr>au_out := []\<rparr>"
  let ?i = "identity_of ?b (sm_from m)"
  have same: "identity_of ?b = identity_of a" "bbound ?b = bbound a"
    by (simp_all add: identity_of_def bbound_def fun_eq_iff)
  have blocked: "admitted ?b ?i (m\<lparr>sm_events := [''presence'']\<rparr>) = None"
    using assms same by (simp add: admitted_def admit_presence_def List.map_filter_def)
  have adm: "admitted ?b ?i m = Some no_admission"
    using assms same by (simp add: admitted_def authorized_def target_exists_def)
  let ?a1 = "end_existing (existing_sub ?b m) ''replaced'' ?b"
  have view: "presence_body (?a1\<lparr>au_subs := x\<rparr>) t y = presence_body a t y" for x t y
    by (simp add: presence_body_def bbound_def)
  show ?thesis
    using assms blocked adm
    by (auto simp: auth_step_def recv_subscribe_def Let_def bnotify_def body_for_def new_sub_def view)
qed

theorem unregistered_event_reads_presence_witness:
  "\<exists>a' a'' s. auth_step watched (BRecv (Subscribe ((demo_subscribe ''s9'' ''bob1'' [])\<lparr>sm_events := [''x''], sm_events := [''presence'']\<rparr>))) = Some a''
      \<and> au_out a'' = [BReject ''bob1'' ''s9'' ''policy.blocked'']
      \<and> auth_step watched (BRecv (Subscribe ((demo_subscribe ''s9'' ''bob1'' [])\<lparr>sm_events := [''x'']\<rparr>))) = Some a'
      \<and> BNotify ''bob1'' ''s9'' 1 ''active'' None (presence_body watched ''alice'' (Some s)) \<in> set (au_out a')"
proof -
  let ?m = "(demo_subscribe ''s9'' ''bob1'' [])\<lparr>sm_events := [''x'']\<rparr>"
  have "dget (au_policy watched) ''alice'' = None" "bbound watched ''alice'' \<noteq> {}" "identity_of watched ''bob1'' \<noteq> ''alice''"
    by code_simp+
  then show ?thesis
    using unregistered_event_reads_presence [of ?m watched] by (simp add: demo_subscribe_def)
qed

text \<open>The subscriber follows the numbering and terminal states are final: whatever arrives or passes, unless the id
  is subscribed anew, a subscription's number never goes back, a notify is shown only if its number is above the last one,
  and once terminated or rejected the subscription stays so, its number unchanged and its notifies dropped.\<close>

theorem subscriber_ordering:
  assumes "subscriber_step u e = (u', out)" "dget (su_subs u) sid = Some s" "\<And>d t ev x. e \<noteq> SSubscribe sid d t ev x"
  shows "\<exists>s'. dget (su_subs u') sid = Some s' \<and> ss_seq s \<le> ss_seq s'
    \<and> (ss_state s \<in> {SubTerminated, SubRejected} \<longrightarrow> ss_state s' \<in> {SubTerminated, SubRejected} \<and> ss_seq s' = ss_seq s)
    \<and> (\<forall>n st re ev bs. e = SRecv (SMNotify sid n st re ev bs) \<longrightarrow>
         (if ss_state s \<in> {SubTerminated, SubRejected} \<or> n \<le> ss_seq s then u' = u \<and> (\<exists>why. out = [SDrop why])
          else ss_seq s' = n \<and> (out = [SNotified ev bs] \<or> out = [STerminated re])))"
proof (cases e)
  case (SAdvance n)
  let ?P = "\<lambda>p :: subscriber \<times> sout list. \<exists>s'. dget (su_subs (fst p)) sid = Some s' \<and> ss_seq s' = ss_seq s
     \<and> (ss_state s \<in> {SubTerminated, SubRejected} \<longrightarrow> ss_state s' = ss_state s)"
  have "?P (foldl lapse p ks)" if "?P p" for p ks
    by (rule foldl_inv [where P = ?P, OF that]) (auto simp: lapse_def split: option.split prod.split)
  from this [of "(u\<lparr>su_now := su_now u + n\<rparr>, [])"] show ?thesis
    using assms(1,2) SAdvance by (auto simp: Let_def) (metis fst_conv order_refl)
next
  case (SRecv m)
  show ?thesis
  proof (cases m)
    case (SMReject session reason)
    show ?thesis
    proof (cases "Option.bind session (dget (su_subs u))")
      case None
      with assms(1,2) show ?thesis by (simp add: SRecv SMReject)
    next
      case (Some r)
      with assms(1,2) show ?thesis by (cases session) (auto simp: SRecv SMReject)
    qed
  next
    case (SMNotify k n st re ev bs)
    show ?thesis
    proof (cases "dget (su_subs u) k")
      case None
      with assms(1,2) show ?thesis by (auto simp: SRecv SMNotify)
    next
      case (Some r)
      with assms(1,2) show ?thesis by (cases "k = sid") (auto simp: SRecv SMNotify split: if_split_asm)
    qed
  qed (use assms(1,2) SRecv in simp)
next
  case (SSubscribe k d t ev x)
  then have "k \<noteq> sid" using assms(3) by blast
  with SSubscribe assms(1,2) show ?thesis by auto
qed

definition demo_subscriber :: subscriber where
  "demo_subscriber = \<lparr>su_now = 0, su_subs = [(''s1'', \<lparr>ss_target = ''alice'', ss_events = [''presence''],
     ss_state = SubTerminated, ss_seq = 4, ss_expires_at = 600\<rparr>)]\<rparr>"

theorem subscriber_ordering_witness:
  "\<exists>s'. dget (su_subs (fst (subscriber_step demo_subscriber (SRecv (SMNotify ''s1'' 5 ''active'' None None None))))) ''s1'' = Some s'
    \<and> ss_seq s' = 4"
proof -
  let ?e = "SRecv (SMNotify ''s1'' 5 ''active'' None None None)"
  let ?s = "\<lparr>ss_target = ''alice'', ss_events = [''presence''], ss_state = SubTerminated, ss_seq = 4, ss_expires_at = 600\<rparr>"
  have s: "dget (su_subs demo_subscriber) ''s1'' = Some ?s"
    by (simp add: demo_subscriber_def)
  have ne: "?e \<noteq> SSubscribe ''s1'' d t ev x" for d t ev x
    by simp
  obtain s' where "dget (su_subs (fst (subscriber_step demo_subscriber ?e))) ''s1'' = Some s'"
    "ss_state ?s \<in> {SubTerminated, SubRejected} \<longrightarrow> ss_state s' \<in> {SubTerminated, SubRejected} \<and> ss_seq s' = ss_seq ?s"
    using subscriber_ordering [OF prod.collapse [symmetric] s ne] by (elim exE conjE) (rule that)
  then show ?thesis by (intro exI [of _ s']) simp
qed

end
