(* ===== verification/Gateway_Model.thy ===== *)
theory Gateway_Model
  imports Registry
begin

text \<open>
  The SIP/PSTN gateway of \<^verbatim>\<open>dsipvec/gateway.py\<close>: the mapping tables between SIP statuses, Q.850 causes and DSIP
  reasons, the claim about a PSTN caller, the downgrade rule and the controller of one call (\<open>GatewayCall\<close>). A status
  or a cause is an \<^typ>\<open>int\<close>; an emission is a constructor with the values the code puts in its dictionary. The texts
  of the ignored events are left out. Reading the trunk's SDP is not part of this theory.
\<close>

section \<open>Mapping reasons\<close>

datatype phase = PreAnswer | ActivePhase | TransportPhase

definition Q850_TO_DSIP :: "(int, string) dict" where
  "Q850_TO_DSIP = [
    (1, ''identity.unknown''), (17, ''endpoint.busy''), (18, ''endpoint.unavailable''), (19, ''endpoint.unavailable''),
    (20, ''endpoint.unavailable''), (21, ''user.declined''), (22, ''identity.not-in-service''), (28, ''identity.unknown''),
    (31, ''user.hangup''), (16, ''user.hangup''), (34, ''gateway.unreachable''), (38, ''gateway.unreachable''),
    (41, ''gateway.unreachable''), (42, ''gateway.unreachable''), (43, ''gateway.unreachable''), (44, ''gateway.unreachable''),
    (47, ''media.failed''), (63, ''media.unsupported''), (65, ''media.unsupported''), (79, ''media.unsupported''),
    (102, ''session.timeout'')]"

definition SIP_TO_DSIP :: "(int, string) dict" where
  "SIP_TO_DSIP = [
    (403, ''policy.blocked''), (404, ''identity.unknown''), (408, ''endpoint.unavailable''), (410, ''identity.not-in-service''),
    (415, ''media.unsupported''), (480, ''endpoint.unavailable''), (484, ''identity.unknown''), (486, ''endpoint.busy''),
    (487, ''session.cancelled''), (488, ''media.unsupported''), (502, ''gateway.unreachable''), (503, ''gateway.unreachable''),
    (504, ''gateway.unreachable''), (600, ''endpoint.busy''), (603, ''user.declined''), (604, ''identity.unknown''),
    (606, ''media.unsupported'')]"

definition show_int :: "int \<Rightarrow> string" where
  "show_int i = (if i < 0 then ''-'' @ show_nat (nat (- i)) else show_nat (nat i))"

record mapped_in =
  mi_reason :: string
  mi_carry :: string
  mi_detail :: "string option"

fun carry_of :: "phase \<Rightarrow> string" where
  "carry_of PreAnswer = ''reject''"
| "carry_of ActivePhase = ''bye''"
| "carry_of TransportPhase = ''error''"

definition q850_text :: "int \<Rightarrow> string" where "q850_text c = ''Q.850 '' @ show_int c"
definition sip_text :: "int \<Rightarrow> string" where "sip_text c = ''SIP '' @ show_int c"

text \<open>The token and the detail before the two adjustments: the Q.850 cause first, then the status.\<close>

definition inbound_token :: "int option \<Rightarrow> int option \<Rightarrow> string \<times> string option" where
  "inbound_token sip_status q850 =
    (case Option.bind q850 (dget Q850_TO_DSIP) of
       Some token \<Rightarrow> (token, Some (q850_text (the q850)))
     | None \<Rightarrow>
       (case Option.bind sip_status (dget SIP_TO_DSIP) of
          Some token \<Rightarrow> (token, Some (sip_text (the sip_status)))
        | None \<Rightarrow>
            (case (sip_status, q850) of
               (None, None) \<Rightarrow> (''user.hangup'', None)
             | (Some st, _) \<Rightarrow> (''gateway.mapped'', Some (sip_text st))
             | (None, Some c) \<Rightarrow> (''gateway.mapped'', Some (q850_text c)))))"

definition ATTEMPT_ONLY :: "string list" where
  "ATTEMPT_ONLY = [''endpoint.busy'', ''endpoint.unavailable'', ''identity.unknown'', ''identity.not-in-service'',
     ''identity.moved'', ''session.cancelled'', ''user.declined'', ''policy.blocked'']"

definition truthy :: "string option \<Rightarrow> bool" where
  "truthy s \<longleftrightarrow> s \<noteq> None \<and> s \<noteq> Some ''''"

definition map_inbound :: "int option \<Rightarrow> int option \<Rightarrow> phase \<Rightarrow> string option \<Rightarrow> mapped_in" where
  "map_inbound sip_status q850 phase moved_to =
    (let (token0, detail0) = inbound_token sip_status q850;
         (token1, detail1) = (if token0 = ''identity.not-in-service'' \<and> truthy moved_to
                              then (''identity.moved'', moved_to) else (token0, detail0));
         (token2, detail2) = (if phase = ActivePhase \<and> token1 \<in> set ATTEMPT_ONLY
                              then (''gateway.mapped'', if truthy detail1 then detail1 else Some token1)
                              else (token1, detail1))
     in \<lparr>mi_reason = token2, mi_carry = carry_of phase, mi_detail = detail2\<rparr>)"

definition DSIP_TO_SIP :: "(string, int \<times> int option) dict" where
  "DSIP_TO_SIP = [
    (''user.declined'', (603, Some 21)), (''user.no-answer'', (480, Some 19)), (''user.blocked'', (603, Some 21)),
    (''user.cancelled'', (487, None)),
    (''endpoint.busy'', (486, Some 17)), (''endpoint.unavailable'', (480, Some 18)), (''endpoint.capability'', (488, Some 79)),
    (''identity.not-in-service'', (410, Some 22)), (''identity.moved'', (410, Some 22)), (''identity.suspended'', (403, Some 21)),
    (''identity.unknown'', (404, Some 1)),
    (''session.expired'', (480, Some 102)), (''session.timeout'', (480, Some 102)), (''session.failed'', (500, Some 41)),
    (''media.unsupported'', (488, Some 65)), (''media.offer-required'', (488, Some 65)), (''media.encryption-required'', (488, Some 65)),
    (''policy.blocked'', (403, Some 21)), (''policy.trust-insufficient'', (403, Some 21)),
    (''policy.first-contact-required'', (403, Some 21)),
    (''policy.rate-limited'', (503, Some 42)), (''policy.terminated'', (480, Some 31)),
    (''transport.envelope-too-large'', (503, Some 41)), (''transport.hello-required'', (503, Some 41)),
    (''transport.hello-rejected'', (503, Some 41)),
    (''transport.routing-refused'', (503, Some 41)), (''transport.unknown-recipient'', (404, Some 1)),
    (''transport.rate-limited'', (503, Some 42)),
    (''gateway.unreachable'', (503, Some 38)), (''gateway.mapped'', (500, Some 41))]"

definition BYE_CAUSES :: "(string, int) dict" where
  "BYE_CAUSES = [(''user.hangup'', 16), (''session.already-answered'', 16), (''session.cancelled'', 16), (''media.failed'', 47),
     (''policy.terminated'', 31)]"

definition CATEGORY_TO_SIP :: "(string, int \<times> int option) dict" where
  "CATEGORY_TO_SIP = [(''user'', (603, Some 21)), (''endpoint'', (480, Some 18)), (''identity'', (404, Some 1)),
     (''session'', (500, Some 41)), (''media'', (488, Some 65)), (''policy'', (403, Some 21)), (''transport'', (503, Some 41)),
     (''gateway'', (503, Some 38))]"

text \<open>The token in the \<open>Reason: DSIP\<close> header, the status (before the answer) or \<open>BYE\<close> (\<^term>\<open>None\<close>), the cause.\<close>

record mapped_out =
  mo_status :: "int option"
  mo_q850 :: "int option"
  mo_text :: string
  mo_retry_after :: bool

definition bye_cause :: "string \<Rightarrow> int" where
  "bye_cause token = (case dget BYE_CAUSES token of
     Some c \<Rightarrow> c
   | None \<Rightarrow> (case snd (dget_or DSIP_TO_SIP token (0, Some 16)) of Some c \<Rightarrow> if c = 0 then 16 else c | None \<Rightarrow> 16))"

definition map_outbound :: "string \<Rightarrow> phase \<Rightarrow> mapped_out" where
  "map_outbound token phase =
    (if phase = ActivePhase
     then \<lparr>mo_status = None, mo_q850 = Some (bye_cause token), mo_text = token, mo_retry_after = False\<rparr>
     else
       (let (status, cause) = (case dget DSIP_TO_SIP token of
              Some p \<Rightarrow> p
            | None \<Rightarrow> dget_or CATEGORY_TO_SIP (before_sep CHR ''.'' token) (500, Some 41))
        in \<lparr>mo_status = Some status, mo_q850 = cause, mo_text = token,
            mo_retry_after = (token \<in> {''policy.rate-limited'', ''transport.rate-limited''})\<rparr>))"

section \<open>Descriptors, claims and the downgrade rule\<close>

definition CODEC_ENCODING :: "(string, string) dict" where
  "CODEC_ENCODING = [(''codec:audio/opus'', ''opus''), (''codec:audio/pcmu'', ''PCMU''), (''codec:audio/pcma'', ''PCMA''),
     (''codec:audio/g722'', ''G722''), (''codec:video/h264'', ''H264''), (''codec:video/vp8'', ''VP8''),
     (''codec:video/vp9'', ''VP9''), (''codec:video/av1'', ''AV1'')]"

record descriptor =
  de_type :: string
  de_codecs :: "string option list"
  de_direction :: "string option"

record m_line =
  ml_kind :: string
  ml_encodings :: "string list"
  ml_direction :: string

definition descriptors_to_sip_sdp :: "descriptor list \<Rightarrow> m_line list" where
  "descriptors_to_sip_sdp media = List.map_filter (\<lambda>d.
     let encs = List.map_filter (\<lambda>c. Option.bind c (dget CODEC_ENCODING)) (de_codecs d)
     in if encs = [] then None
        else Some \<lparr>ml_kind = de_type d, ml_encodings = encs,
                   ml_direction = (case de_direction d of Some x \<Rightarrow> x | None \<Rightarrow> ''sendrecv'')\<rparr>) media"

record tn_identity =
  ti_attest :: "string option"
  ti_verified :: bool
  ti_orig_tn :: "string option"

record claim =
  cl_number :: string
  cl_attestation :: string
  cl_verified :: bool
  cl_verifier :: string
  cl_cnam :: "string option"

definition GATEWAY_DID :: string where "GATEWAY_DID = ''did:web:gw.example''"

definition removeprefix :: "string \<Rightarrow> string \<Rightarrow> string" where
  "removeprefix p s = (if startswith s p then drop (length p) s else s)"

definition MIDDLE_DOT :: string where "MIDDLE_DOT = [CHR '' '', CHR 0xC2, CHR 0xB7, CHR '' '']"

definition tn_attested :: "string \<Rightarrow> tn_identity option \<Rightarrow> string \<times> bool" where
  "tn_attested from_tn identity = (case identity of
     None \<Rightarrow> (''none'', False)
   | Some i \<Rightarrow>
       (let attestation = (if truthy (ti_attest i) then the (ti_attest i) else ''none'');
            verified = (ti_verified i \<and> attestation \<noteq> ''none'')
        in if truthy (ti_orig_tn i) \<and> ti_orig_tn i \<noteq> Some from_tn then (''none'', False) else (attestation, verified)))"

definition tel_claim :: "string \<Rightarrow> tn_identity option \<Rightarrow> string option \<Rightarrow> string \<Rightarrow> claim \<times> string" where
  "tel_claim from_tn identity cnam gateway =
    (let (attestation, verified) = tn_attested from_tn identity
     in (\<lparr>cl_number = from_tn, cl_attestation = attestation, cl_verified = verified, cl_verifier = gateway,
          cl_cnam = (if truthy cnam then cnam else None)\<rparr>,
         ''Gateway attested by '' @ removeprefix ''did:web:'' gateway @ MIDDLE_DOT @
           (if verified then ''STIR attestation '' @ attestation @ '' (verified)''
            else if attestation \<noteq> ''none'' then ''STIR attestation '' @ attestation @ '' (unverified)''
            else ''no attestation'')))"

record facts =
  fa_trunk_srtp :: bool
  fa_direction :: "string option"
  fa_identity_assertable :: bool
  fa_attestation :: "string option"
  fa_policy_present :: bool
  fa_recording_declared :: bool

definition downgrade_lost :: "facts \<Rightarrow> string list" where
  "downgrade_lost f =
     (if \<not> fa_trunk_srtp f then [''no-srtp-on-trunk''] else [])
     @ (if fa_direction f = Some ''outbound'' \<and> \<not> fa_identity_assertable f then [''identity-not-assertable''] else [])
     @ (if fa_direction f = Some ''inbound'' \<and> fa_attestation f \<in> {None, Some ''none''} then [''no-attestation''] else [])
     @ (if fa_policy_present f then [''policy-unenforceable''] else [])
     @ (if fa_recording_declared f then [''recording-not-disclosed''] else [])"

definition downgraded :: "facts \<Rightarrow> bool" where
  "downgraded f \<longleftrightarrow> downgrade_lost f \<noteq> []"

section \<open>The controller of one call\<close>

datatype dsip_leg = DIdle | DInviting | DProceeding | DOffered | DAlerting | DActive | DEnded

datatype sip_leg = SIdle | SCalling | SEarly | SConfirmed | STerminatedLeg

record gcall =
  gc_outbound :: bool
  gc_early_media :: string
  gc_dsip :: dsip_leg
  gc_sip :: sip_leg
  gc_answered :: bool
  gc_cancelled :: bool

datatype gout =
    SipInvite | SipCancel | SipAck
  | SipResponse int
  | SipOk string
  | SipFinal int "int option" string
  | SipReinvite string
  | SipInfo "string option" "int option"
  | SipBye int string
  | MediaBridge | MediaRelease
  | LocalAlert
  | LocalAccept string
  | LocalReject string "string option"
  | LocalHangup string
  | LocalPlaceCall claim string
  | LocalCancel
  | LocalInfo string "int option"
  | LocalUpdate string
  | GIgnore

datatype dsip_in =
    InInvite | InCancel | InProgress
  | InAnswer "string option"
  | InReject "string option"
  | InUpdate "string option"
  | InInfo "string option" "string option" "int option"
  | InBye "string option"
  | InOther

record sip_status_msg =
  ssm_status :: int
  ssm_q850 :: "int option"
  ssm_sdp :: bool
  ssm_announcement :: bool
  ssm_moved_to :: "string option"

datatype sip_in =
    InStatus sip_status_msg
  | InSipInvite "string option" "tn_identity option" "string option"
  | InSipCancel | InSipAck
  | InSipBye "int option"
  | InSipInfo "string option" "int option"
  | InDtmf string "int option"
  | InRefer
  | InReinvite "string option"
  | InSipOther

datatype gevent = GDsip dsip_in | GSip sip_in | GTimer string

definition init_gcall :: "bool \<Rightarrow> string option \<Rightarrow> gcall" where
  "init_gcall outbound early = \<lparr>gc_outbound = outbound, gc_early_media = (case early of Some e \<Rightarrow> e | None \<Rightarrow> ''auto''),
     gc_dsip = DIdle, gc_sip = SIdle, gc_answered = False, gc_cancelled = False\<rparr>"

definition or_default :: "string \<Rightarrow> string option \<Rightarrow> string" where
  "or_default d x = (case x of Some v \<Rightarrow> v | None \<Rightarrow> d)"

definition in_call :: "gcall \<Rightarrow> bool" where
  "in_call c \<longleftrightarrow> gc_answered c \<and> gc_dsip c \<noteq> DEnded"

fun dsip_event :: "gcall \<Rightarrow> dsip_in \<Rightarrow> gcall \<times> gout list" where
  "dsip_event c InInvite =
     (if gc_outbound c then (c\<lparr>gc_dsip := DInviting, gc_sip := SCalling\<rparr>, [SipInvite]) else (c, [GIgnore]))"
| "dsip_event c InCancel =
     (if gc_outbound c then (c\<lparr>gc_cancelled := True, gc_dsip := DEnded\<rparr>,
        if gc_sip c \<in> {SCalling, SEarly} then [SipCancel] else []) else (c, [GIgnore]))"
| "dsip_event c InProgress =
     (if gc_outbound c then (c, [GIgnore]) else (c\<lparr>gc_dsip := DAlerting\<rparr>, [SipResponse 180]))"
| "dsip_event c (InAnswer answered_by) =
     (if gc_outbound c then (c, [GIgnore])
      else (c\<lparr>gc_dsip := DActive, gc_sip := SConfirmed, gc_answered := True\<rparr>,
            [SipOk (if answered_by = Some ''screening'' then ''sendonly'' else ''sendrecv''), MediaBridge]))"
| "dsip_event c (InReject reason) =
     (if gc_outbound c then (c, [GIgnore])
      else (let r = map_outbound (or_default ''session.failed'' reason) PreAnswer
            in (c\<lparr>gc_dsip := DEnded, gc_sip := STerminatedLeg\<rparr>, [SipFinal (the (mo_status r)) (mo_q850 r) (mo_text r)])))"
| "dsip_event c (InUpdate direction) = (c, [SipReinvite (or_default ''sendrecv'' direction)])"
| "dsip_event c (InInfo about digits duration) =
     (if about \<noteq> Some ''media:dtmf'' then (c, [GIgnore])
      else if \<not> in_call c then (c, [GIgnore])
      else (c, [SipInfo digits duration]))"
| "dsip_event c (InBye reason) =
     (if gc_sip c \<in> {SCalling, SEarly, SConfirmed}
      then (let r = map_outbound (or_default ''user.hangup'' reason) ActivePhase
            in (c\<lparr>gc_dsip := DEnded, gc_sip := STerminatedLeg\<rparr>, [SipBye (the (mo_q850 r)) (mo_text r), MediaRelease]))
      else (c\<lparr>gc_dsip := DEnded\<rparr>, [MediaRelease]))"
| "dsip_event c InOther = (c, [GIgnore])"

text \<open>\<open>accept\<close> of the DSIP leg by the gateway itself.\<close>

definition gw_accept :: "gcall \<Rightarrow> gcall" where
  "gw_accept c = c\<lparr>gc_answered := True, gc_dsip := DActive\<rparr>"

definition provisional :: "gcall \<Rightarrow> sip_status_msg \<Rightarrow> gcall \<times> gout list" where
  "provisional c m =
    (let (c1, out1) = (if ssm_status m \<ge> 180 then
           (if gc_dsip c = DInviting then (c\<lparr>gc_sip := SEarly, gc_dsip := DProceeding\<rparr>, [LocalAlert])
            else (c\<lparr>gc_sip := SEarly\<rparr>, [])) else (c, []))
     in if ssm_sdp m \<and> ssm_status m = 183 \<and> \<not> gc_answered c1 \<and> \<not> ssm_announcement m
           \<and> gc_early_media c1 \<in> {''auto'', ''always''}
        then (gw_accept c1, out1 @ [LocalAccept ''gateway'', MediaBridge])
        else (c1, out1))"

definition sip_final :: "gcall \<Rightarrow> sip_status_msg \<Rightarrow> gcall \<times> gout list" where
  "sip_final c m =
    (if gc_dsip c = DEnded then (c\<lparr>gc_sip := STerminatedLeg\<rparr>, [])
     else
       (let r = map_inbound (Some (ssm_status m)) (ssm_q850 m) (if gc_answered c then ActivePhase else PreAnswer) (ssm_moved_to m)
        in (c\<lparr>gc_sip := STerminatedLeg, gc_dsip := DEnded\<rparr>,
            if mi_carry r = ''reject'' then [LocalReject (mi_reason r) (mi_detail r)]
            else [LocalHangup (mi_reason r), MediaRelease])))"

definition sip_status :: "gcall \<Rightarrow> sip_status_msg \<Rightarrow> gcall \<times> gout list" where
  "sip_status c m =
    (let st = ssm_status m
     in if gc_cancelled c then
          (c\<lparr>gc_sip := STerminatedLeg\<rparr>, if 200 \<le> st \<and> st < 300 then [SipAck, SipBye 16 ''session.cancelled''] else [])
        else if 100 \<le> st \<and> st < 200 then provisional c m
        else if 200 \<le> st \<and> st < 300 then
          (if gc_answered c then (c\<lparr>gc_sip := SConfirmed\<rparr>, [SipAck])
           else (gw_accept (c\<lparr>gc_sip := SConfirmed\<rparr>), [SipAck, LocalAccept ''gateway'', MediaBridge]))
        else if st \<ge> 300 then sip_final c m
        else (c, []))"

fun sip_event :: "gcall \<Rightarrow> sip_in \<Rightarrow> gcall \<times> gout list" where
  "sip_event c (InStatus m) = (if gc_outbound c then sip_status c m else (c, [GIgnore]))"
| "sip_event c (InSipInvite from_tn identity cnam) =
     (if gc_outbound c then (c, [GIgnore])
      else (let (cl, basis) = tel_claim (or_default '''' from_tn) identity cnam GATEWAY_DID
            in (c\<lparr>gc_dsip := DOffered, gc_sip := SEarly\<rparr>, [LocalPlaceCall cl basis, SipResponse 100])))"
| "sip_event c InSipCancel =
     (if gc_outbound c then (c, [GIgnore])
      else if gc_dsip c \<in> {DOffered, DAlerting}
      then (c\<lparr>gc_sip := STerminatedLeg, gc_dsip := DEnded\<rparr>, [SipResponse 200, LocalCancel, SipResponse 487])
      else (c\<lparr>gc_sip := STerminatedLeg\<rparr>, [SipResponse 200]))"
| "sip_event c InSipAck = (c, [])"
| "sip_event c (InSipBye q850) =
     (if gc_dsip c = DEnded then (c\<lparr>gc_sip := STerminatedLeg\<rparr>, [SipResponse 200])
      else (c\<lparr>gc_sip := STerminatedLeg, gc_dsip := DEnded\<rparr>,
            [SipResponse 200, LocalHangup (mi_reason (map_inbound None q850 ActivePhase None)), MediaRelease]))"
| "sip_event c (InSipInfo dtmf duration) = (c, SipResponse 200 # (case dtmf of
     Some digits \<Rightarrow> if in_call c then [LocalInfo digits duration] else [GIgnore]
   | None \<Rightarrow> []))"
| "sip_event c (InDtmf digits duration) = (c, if in_call c then [LocalInfo digits duration] else [GIgnore])"
| "sip_event c InRefer = (c, [SipResponse 603])"
| "sip_event c (InReinvite direction) = (c, [LocalUpdate (or_default ''sendrecv'' direction)])"
| "sip_event c InSipOther = (c, [GIgnore])"

definition sip_timer :: "gcall \<Rightarrow> string \<Rightarrow> gcall \<times> gout list" where
  "sip_timer c t =
    (if t = ''C'' \<and> gc_sip c \<in> {SCalling, SEarly} \<and> \<not> gc_answered c
     then (c\<lparr>gc_sip := STerminatedLeg, gc_dsip := DEnded\<rparr>,
           [SipCancel, LocalReject ''gateway.unreachable'' (Some ''SIP Timer C'')])
     else (c, []))"

fun gateway_step :: "gcall \<Rightarrow> gevent \<Rightarrow> gcall \<times> gout list" where
  "gateway_step c (GDsip m) = dsip_event c m"
| "gateway_step c (GSip m) = sip_event c m"
| "gateway_step c (GTimer t) = sip_timer c t"

fun gateway_run :: "gcall \<Rightarrow> gevent list \<Rightarrow> gcall \<times> gout list" where
  "gateway_run c [] = (c, [])"
| "gateway_run c (e # es) = (let (c1, out1) = gateway_step c e; (c2, out2) = gateway_run c1 es in (c2, out1 @ out2))"

end
