(* ===== verification/Gateway.thy ===== *)
theory Gateway
  imports Gateway_Model
begin

text \<open>
  What the gateway's tables and its call controller promise: which mapped reasons are valid on the message that carries
  them, that a call is bridged once and a cancelled call never, and what an answer that crosses Timer C does.
\<close>

section \<open>The reasons a mapping gives\<close>

definition GIVEN_REASONS :: "string list" where
  "GIVEN_REASONS = [''identity.unknown'', ''endpoint.busy'', ''endpoint.unavailable'', ''user.declined'', ''identity.not-in-service'',
     ''identity.moved'', ''user.hangup'', ''gateway.unreachable'', ''media.failed'', ''media.unsupported'', ''session.timeout'',
     ''policy.blocked'', ''session.cancelled'', ''gateway.mapped'']"

definition BYE_ONLY :: "string list" where
  "BYE_ONLY = [''session.cancelled'', ''user.hangup'', ''media.failed'', ''session.timeout'']"

lemma dget_in_vals: "dget d k = Some v \<Longrightarrow> v \<in> set (dvals d)"
  by (force dest: map_of_SomeD)

lemma table_reasons: "set (dvals Q850_TO_DSIP) \<subseteq> set GIVEN_REASONS" "set (dvals SIP_TO_DSIP) \<subseteq> set GIVEN_REASONS"
  by code_simp+

lemma inbound_token_given: "fst (inbound_token st q) \<in> set GIVEN_REASONS"
proof -
  have "''user.hangup'' \<in> set GIVEN_REASONS" "''gateway.mapped'' \<in> set GIVEN_REASONS" by code_simp+
  moreover have "dget Q850_TO_DSIP x = Some t \<Longrightarrow> t \<in> set GIVEN_REASONS" "dget SIP_TO_DSIP x = Some t \<Longrightarrow> t \<in> set GIVEN_REASONS" for x t
    using table_reasons dget_in_vals [of Q850_TO_DSIP x t] dget_in_vals [of SIP_TO_DSIP x t] by auto
  ultimately show ?thesis
    by (auto simp: inbound_token_def split: option.split)
qed

lemma map_inbound_given:
  "mi_reason (map_inbound st q ph mv) \<in> set GIVEN_REASONS
   \<and> (ph = ActivePhase \<longrightarrow> mi_reason (map_inbound st q ph mv) \<notin> set ATTEMPT_ONLY)"
proof -
  have "''identity.moved'' \<in> set GIVEN_REASONS" "''gateway.mapped'' \<in> set GIVEN_REASONS" "''gateway.mapped'' \<notin> set ATTEMPT_ONLY"
    by code_simp+
  then show ?thesis
    using inbound_token_given [of st q] by (auto simp: map_inbound_def Let_def case_prod_beta')
qed

lemma given_on_reject:
  "list_all (\<lambda>t. rr_valid_on_type (resolve_reason t ''reject'') \<longleftrightarrow> t \<notin> set BYE_ONLY) GIVEN_REASONS"
  by code_simp

lemma given_on_bye:
  "list_all (\<lambda>t. t \<notin> set ATTEMPT_ONLY \<longrightarrow> rr_valid_on_type (resolve_reason t ''bye'')) GIVEN_REASONS"
  by code_simp

section \<open>The controller\<close>

lemma in_call_accept: "gc_answered (gw_accept c)" "gc_cancelled (gw_accept c) = gc_cancelled c" "gc_outbound (gw_accept c) = gc_outbound c"
  by (simp_all add: gw_accept_def)

text \<open>One step of an outbound call: the two flags never go back, and a bridge needs an unanswered, uncancelled call.\<close>

definition bridges :: "gout list \<Rightarrow> nat" where
  "bridges out = length (filter (\<lambda>e. e = MediaBridge) out)"

definition outbound_step :: "gcall \<Rightarrow> gcall \<Rightarrow> gout list \<Rightarrow> bool" where
  "outbound_step c c' out \<longleftrightarrow> gc_outbound c' \<and> (gc_answered c \<longrightarrow> gc_answered c') \<and> (gc_cancelled c \<longrightarrow> gc_cancelled c')
     \<and> (bridges out = 0 \<and> (\<forall>who. LocalAccept who \<notin> set out) \<or> bridges out = 1 \<and> \<not> gc_answered c \<and> \<not> gc_cancelled c \<and> gc_answered c')"

lemma outbound_dsip: "gc_outbound c \<Longrightarrow> dsip_event c m = (c', out) \<Longrightarrow> outbound_step c c' out"
  by (cases m) (auto simp: outbound_step_def bridges_def Let_def split: if_splits)

lemma outbound_status: "gc_outbound c \<Longrightarrow> sip_status c m = (c', out) \<Longrightarrow> outbound_step c c' out"
  by (auto simp: outbound_step_def bridges_def sip_status_def provisional_def sip_final_def gw_accept_def Let_def split: if_splits)

lemma outbound_sip: "gc_outbound c \<Longrightarrow> sip_event c m = (c', out) \<Longrightarrow> outbound_step c c' out"
  by (cases m) (auto simp: outbound_status, auto simp: outbound_step_def bridges_def Let_def split: if_splits option.splits)

lemma outbound_steps: "gc_outbound c \<Longrightarrow> gateway_step c e = (c', out) \<Longrightarrow> outbound_step c c' out"
  by (cases e) (auto simp: outbound_dsip outbound_sip, auto simp: sip_timer_def outbound_step_def bridges_def split: if_splits)

lemma bridges_append [simp]: "bridges (a @ b) = bridges a + bridges b"
  by (simp add: bridges_def)

lemma outbound_run:
  "gc_outbound c \<Longrightarrow> gateway_run c es = (c', out) \<Longrightarrow>
     bridges out \<le> (if gc_answered c \<or> gc_cancelled c then 0 else 1)
     \<and> (gc_answered c \<or> gc_cancelled c \<longrightarrow> (\<forall>who. LocalAccept who \<notin> set out)) \<and> (gc_cancelled c \<longrightarrow> gc_cancelled c')"
proof (induction es arbitrary: c out)
  case (Cons e es)
  obtain c1 out1 where 1: "gateway_step c e = (c1, out1)" by (cases "gateway_step c e")
  obtain out2 where 2: "gateway_run c1 es = (c', out2)" "out = out1 @ out2"
    using Cons.prems(2) 1 by (auto split: prod.splits)
  have s: "outbound_step c c1 out1" using outbound_steps [OF Cons.prems(1) 1] .
  then have "gc_outbound c1" by (simp add: outbound_step_def)
  from Cons.IH [OF this 2(1)] s show ?case
    unfolding 2(2) by (auto simp: outbound_step_def split: if_splits)
qed (simp add: bridges_def)

lemma run_outbound: "gc_outbound c0 \<Longrightarrow> gateway_run c0 es = (c1, o1) \<Longrightarrow> gc_outbound c1"
proof (induction es arbitrary: c0 o1)
  case (Cons e es)
  obtain c' out1 where 1: "gateway_step c0 e = (c', out1)" by (cases "gateway_step c0 e")
  obtain out2 where "gateway_run c' es = (c1, out2)"
    using Cons.prems(2) 1 by (auto split: prod.splits)
  moreover have "gc_outbound c'"
    using outbound_steps [OF Cons.prems(1) 1] by (simp add: outbound_step_def)
  ultimately show ?case
    using Cons.IH by blast
qed simp

section \<open>Properties\<close>

text \<open>What the gateway tells the DSIP leg about a SIP teardown, exactly. Of an active call every mapped reason is valid
  on the \<open>bye\<close> that carries it, whatever the status, the cause and the moved-to target. Before the answer the reason
  on the \<open>reject\<close> is valid unless it is one of four that the reason registry allows on other messages only
  (SIP 487, Q.850 16, 31, 47 and 102).\<close>

theorem mapped_reason_validity:
  fixes st q850 :: "int option" and moved_to :: "string option"
  assumes "phase \<noteq> TransportPhase"
  defines "r \<equiv> map_inbound st q850 phase moved_to"
  shows "rr_valid_on_type (resolve_reason (mi_reason r) (mi_carry r))
    \<longleftrightarrow> \<not> (phase = PreAnswer \<and> mi_reason r \<in> set BYE_ONLY)"
proof -
  have c: "mi_carry r = carry_of phase"
    by (simp add: r_def map_inbound_def Let_def case_prod_beta')
  have g: "mi_reason r \<in> set GIVEN_REASONS" "phase = ActivePhase \<longrightarrow> mi_reason r \<notin> set ATTEMPT_ONLY"
    using map_inbound_given [of st q850 phase moved_to] by (simp_all add: r_def)
  show ?thesis
    using assms(1) g given_on_reject given_on_bye by (cases phase) (auto simp: c list_all_iff)
qed

theorem mapped_reason_validity_witness:
  "\<not> rr_valid_on_type (resolve_reason (mi_reason (map_inbound (Some 487) None PreAnswer None)) (mi_carry (map_inbound (Some 487) None PreAnswer None)))"
proof -
  have "mi_reason (map_inbound (Some 487) None PreAnswer None) \<in> set BYE_ONLY" by code_simp
  then show ?thesis by (simp add: mapped_reason_validity)
qed

text \<open>A call is bridged at most once, and a cancelled call never: in every run of an outbound call at most one
  emission bridges the media, and from the moment the DSIP side has cancelled no event makes the gateway accept or bridge,
  while an answer that crosses the CANCEL is acknowledged and torn down with \<open>session.cancelled\<close>.\<close>

theorem bridged_at_most_once:
  assumes "gateway_run (init_gcall True early) es = (c, out)"
  shows "bridges out \<le> 1 \<and> (gc_cancelled c \<longrightarrow>
      (\<forall>more. bridges (snd (gateway_run c more)) = 0 \<and> (\<forall>who. LocalAccept who \<notin> set (snd (gateway_run c more))))
    \<and> (\<forall>m. 200 \<le> ssm_status m \<and> ssm_status m < 300 \<longrightarrow>
         snd (gateway_step c (GSip (InStatus m))) = [SipAck, SipBye 16 ''session.cancelled'']))"
proof (intro conjI impI allI)
  have o: "gc_outbound (init_gcall True early)" by (simp add: init_gcall_def)
  have oc: "gc_outbound c" using run_outbound [OF o assms] .
  show "bridges out \<le> 1"
    using outbound_run [OF o assms] by (simp split: if_splits)
  fix more
  assume c: "gc_cancelled c"
  show "bridges (snd (gateway_run c more)) = 0"
    using outbound_run [OF oc prod.collapse [symmetric], of more] c by simp
  show "LocalAccept who \<notin> set (snd (gateway_run c more))" for who
    using outbound_run [OF oc prod.collapse [symmetric], of more] c by simp
  show "snd (gateway_step c (GSip (InStatus m))) = [SipAck, SipBye 16 ''session.cancelled'']"
    if "200 \<le> ssm_status m \<and> ssm_status m < 300" for m
    using oc c that by (simp add: sip_status_def)
qed

definition answer_200 :: sip_status_msg where
  "answer_200 = \<lparr>ssm_status = 200, ssm_q850 = None, ssm_sdp = True, ssm_announcement = False, ssm_moved_to = None\<rparr>"

definition cancelled_run :: "gevent list" where
  "cancelled_run = [GDsip InInvite, GDsip InCancel]"

theorem bridged_at_most_once_witness:
  "snd (gateway_step (fst (gateway_run (init_gcall True None) cancelled_run)) (GSip (InStatus answer_200)))
     = [SipAck, SipBye 16 ''session.cancelled'']"
proof -
  have "gc_cancelled (fst (gateway_run (init_gcall True None) cancelled_run))" by code_simp
  then show ?thesis
    using bridged_at_most_once [OF prod.collapse [symmetric], of None cancelled_run] by (simp add: answer_200_def)
qed

text \<open>C15: The crossing that is not covered: when Timer C has ended an unanswered outbound call (CANCEL on the SIP leg,
  \<open>reject\<close> on the DSIP leg), an answer that crosses that CANCEL is accepted on the ended DSIP leg and its media bridged,
  instead of being torn down as after the DSIP side's own cancel.\<close>

theorem answer_crossing_timer_c_is_bridged:
  assumes "gc_outbound c" "gc_sip c \<in> {SCalling, SEarly}" "\<not> gc_answered c" "\<not> gc_cancelled c" "ssm_status m = 200"
  shows "\<exists>c'. gateway_run c [GTimer ''C'', GSip (InStatus m)]
      = (c', [SipCancel, LocalReject ''gateway.unreachable'' (Some ''SIP Timer C''), SipAck, LocalAccept ''gateway'', MediaBridge])
    \<and> gc_dsip c' = DActive \<and> gc_sip c' = SConfirmed"
  using assms by (auto simp: sip_timer_def sip_status_def gw_accept_def Let_def)

theorem answer_crossing_timer_c_is_bridged_witness:
  "\<exists>c'. gateway_run (fst (gateway_step (init_gcall True None) (GDsip InInvite))) [GTimer ''C'', GSip (InStatus answer_200)]
      = (c', [SipCancel, LocalReject ''gateway.unreachable'' (Some ''SIP Timer C''), SipAck, LocalAccept ''gateway'', MediaBridge])
    \<and> gc_dsip c' = DActive \<and> gc_sip c' = SConfirmed"
  by (rule answer_crossing_timer_c_is_bridged) (simp_all add: init_gcall_def answer_200_def)

end
