(* ===== verification/Recording.thy ===== *)
theory Recording
  imports Prelude
begin

text \<open>
  The recording profile of \<^verbatim>\<open>dsipvec/recording.py\<close>: a counterparty's consent in one call (\<open>Consent\<close>), the checks on a
  recorded conversation and on the leg to a recorder, the devices to add to a group, and how a call record is classified.
  A missing key that the code reads (a \<open>recorder\<close>) makes the step \<^term>\<open>None\<close>.
\<close>

section \<open>Consent\<close>

definition DECLINED :: string where "DECLINED = ''policy.recording-declined''"

datatype call_role = Caller | Callee

record recording_block =
  rb_state :: string
  rb_recorder :: "string option"
  rb_purpose :: "string option"

record disclosure =
  di_state :: string
  di_recorder :: string
  di_purpose :: "string option"

record consent =
  co_role :: call_role
  co_policy :: string
  co_disclosure :: "disclosure option"
  co_pending :: bool
  co_accepted :: "string set"
  co_answered :: bool
  co_ended :: "string option"

datatype consent_event =
    Received string "recording_block option"
  | ConsentAccept | ConsentDecline | ConsentAnswer

datatype consent_out =
    Render disclosure
  | RenderOff string
  | Accepted string string
  | SendDecline string string
  | SendAnswer
  | BlockedAnswer

definition init_consent :: "call_role \<Rightarrow> string option \<Rightarrow> consent" where
  "init_consent role accept = \<lparr>co_role = role, co_policy = (case accept of Some a \<Rightarrow> a | None \<Rightarrow> ''ask''),
     co_disclosure = None, co_pending = False, co_accepted = {}, co_answered = False, co_ended = None\<rparr>"

definition decline :: "consent \<Rightarrow> consent \<times> consent_out list" where
  "decline c = (c\<lparr>co_ended := Some DECLINED, co_pending := False\<rparr>,
     [SendDecline (if co_role c = Callee \<and> \<not> co_answered c then ''reject'' else ''bye'') DECLINED])"

definition disclosed_off :: "consent \<Rightarrow> consent \<times> consent_out list" where
  "disclosed_off c = (case co_disclosure c of
     None \<Rightarrow> (c, [])
   | Some d \<Rightarrow> (c\<lparr>co_disclosure := None, co_pending := False\<rparr>, [RenderOff (di_recorder d)]))"

text \<open>A declaration that the recorder is on, paused or in another state.\<close>

definition disclosed_on :: "disclosure \<Rightarrow> consent \<Rightarrow> consent \<times> consent_out list" where
  "disclosed_on d c =
    (let (c1, out) = (if co_disclosure c \<noteq> Some d then (c\<lparr>co_disclosure := Some d\<rparr>, [Render d]) else (c, []))
     in if di_state d = ''paused'' \<or> di_recorder d \<in> co_accepted c1 then (c1\<lparr>co_pending := False\<rparr>, out)
        else if co_policy c1 = ''always''
        then (c1\<lparr>co_accepted := insert (di_recorder d) (co_accepted c1)\<rparr>, out @ [Accepted (di_recorder d) ''policy''])
        else if co_policy c1 = ''never'' then (let (c2, o2) = decline c1 in (c2, out @ o2))
        else (c1\<lparr>co_pending := True\<rparr>, out))"

definition received :: "string \<Rightarrow> recording_block option \<Rightarrow> consent \<Rightarrow> (consent \<times> consent_out list) option" where
  "received t rb c =
    (if co_ended c \<noteq> None then Some (c, [])
     else
       (let c1 = (if t = ''answer'' then c\<lparr>co_answered := True\<rparr> else c)
        in case rb of
             None \<Rightarrow> Some (disclosed_off c1)
           | Some r \<Rightarrow>
               if rb_state r = ''off'' then Some (disclosed_off c1)
               else do {
                 recorder \<leftarrow> rb_recorder r;
                 Some (disclosed_on \<lparr>di_state = rb_state r, di_recorder = recorder, di_purpose = rb_purpose r\<rparr> c1)
               }))"

fun consent_step :: "consent \<Rightarrow> consent_event \<Rightarrow> (consent \<times> consent_out list) option" where
  "consent_step c (Received t rb) = received t rb c"
| "consent_step c ConsentAccept =
     (if \<not> co_pending c then Some (c, [])
      else do {
        d \<leftarrow> co_disclosure c;
        Some (c\<lparr>co_accepted := insert (di_recorder d) (co_accepted c), co_pending := False\<rparr>, [Accepted (di_recorder d) ''user''])
      })"
| "consent_step c ConsentDecline =
     Some (if co_ended c = None \<and> co_disclosure c \<noteq> None then decline c else (c, []))"
| "consent_step c ConsentAnswer =
     Some (if co_ended c \<noteq> None \<or> co_role c \<noteq> Callee then (c, [])
           else if co_pending c then (c, [BlockedAnswer])
           else (c\<lparr>co_answered := True\<rparr>, [SendAnswer]))"

definition hold_media :: "consent \<Rightarrow> bool" where
  "hold_media c \<longleftrightarrow> co_pending c \<and> co_ended c = None"

section \<open>Conversations and recorder legs\<close>

record leaf =
  le_device :: string
  le_subject :: string
  le_capabilities :: "string list"

record conversation_view =
  cv_recorded :: bool
  cv_recorders :: "(string \<times> string) list"
  cv_may_send :: bool
  cv_render_sender :: "bool option"

definition RECORD :: string where "RECORD = ''dsip.record''"

definition conversation :: "leaf list \<Rightarrow> string list \<Rightarrow> string option \<Rightarrow> conversation_view" where
  "conversation leaves accepted sender =
    (let rec_leaves = sort_key fst (map (\<lambda>x. (le_device x, le_subject x)) (filter (\<lambda>x. RECORD \<in> set (le_capabilities x)) leaves))
     in \<lparr>cv_recorded = (rec_leaves \<noteq> []), cv_recorders = rec_leaves, cv_may_send = list_all (\<lambda>x. fst x \<in> set accepted) rec_leaves,
         cv_render_sender = map_option (\<lambda>s. case find (\<lambda>x. le_device x = s) leaves of
            None \<Rightarrow> False | Some l \<Rightarrow> RECORD \<notin> set (le_capabilities l)) sender\<rparr>)"

text \<open>The recorder leg: the declaration, the recorder, the offer with its stream map. A stream's \<open>media\<close> that is not an
  integer is \<^term>\<open>None\<close>.\<close>

record leg_declared =
  ld_state :: "string option"
  ld_recorder :: "string option"
  ld_session :: string

record leg_stream =
  ls_media :: "int option"
  ls_participant :: string

record leg_offer =
  lo_of :: string
  lo_participants :: "string list"
  lo_streams :: "leg_stream list"
  lo_directions :: "string option list"

fun stream_map_ok :: "int \<Rightarrow> string list \<Rightarrow> int set \<Rightarrow> leg_stream list \<Rightarrow> bool" where
  "stream_map_ok n who seen [] = True"
| "stream_map_ok n who seen (s # ss) = (case ls_media s of
     None \<Rightarrow> False
   | Some m \<Rightarrow> 0 \<le> m \<and> m < n \<and> m \<notin> seen \<and> ls_participant s \<in> set who \<and> stream_map_ok n who (insert m seen) ss)"

definition recording_session :: "leg_declared \<Rightarrow> string \<Rightarrow> string list \<Rightarrow> leg_offer \<Rightarrow> string option" where
  "recording_session d identity capabilities off =
    (if (case ld_state d of Some s \<Rightarrow> s | None \<Rightarrow> ''off'') = ''off'' then Some ''not-declared''
     else if Some identity \<noteq> ld_recorder d then Some ''recorder-mismatch''
     else if RECORD \<notin> set capabilities then Some ''missing-capability''
     else if lo_of off \<noteq> ld_session d then Some ''wrong-session''
     else if lo_streams off = [] then Some ''bad-stream-map''
     else if \<not> stream_map_ok (int (length (lo_directions off))) (lo_participants off) {} (lo_streams off) then Some ''bad-stream-map''
     else if list_ex (\<lambda>s. lo_directions off ! nat (the (ls_media s)) \<noteq> Some ''sendonly'') (lo_streams off) then Some ''direction''
     else None)"

section \<open>Adding devices and call records\<close>

record key_package =
  kp_identity :: string
  kp_device :: string
  kp_capabilities :: "string list"

fun candidates :: "string \<Rightarrow> string option \<Rightarrow> string set \<Rightarrow> key_package list \<Rightarrow> key_package list" where
  "candidates target self seen [] = []"
| "candidates target self seen (k # ks) =
     (if kp_identity k \<noteq> target \<or> Some (kp_device k) = self \<or> kp_device k \<in> seen then candidates target self seen ks
      else k # candidates target self (insert (kp_device k) seen) ks)"

definition is_recorder :: "key_package \<Rightarrow> bool" where
  "is_recorder k \<longleftrightarrow> RECORD \<in> set (kp_capabilities k)"

definition add_devices :: "key_package list \<Rightarrow> string \<Rightarrow> string \<Rightarrow> string option \<Rightarrow> string option \<Rightarrow> string + string list" where
  "add_devices kps target purpose self_device self_identity =
    (let cs = candidates target self_device {} kps;
         cands = (if purpose = ''personal'' then filter (\<lambda>k. \<not> is_recorder k) cs else cs)
     in if cands = [] then Inl ''no-key-packages''
        else if list_all is_recorder cands \<and> Some target \<noteq> self_identity then Inl ''recorder-only''
        else Inr (map kp_device cands))"

record call_leg =
  cr_reason :: string
  cr_inbound :: bool
  cr_answered :: bool
  cr_ended_by :: string

definition call_record_outcome :: "call_leg \<Rightarrow> string" where
  "call_record_outcome i =
    (if cr_answered i then ''answered''
     else if cr_reason i = ''session.answered-elsewhere'' then ''answered-elsewhere''
     else if cr_ended_by i = ''transport'' \<or> before_sep CHR ''.'' (cr_reason i) = ''transport'' then ''failed''
     else if cr_reason i = ''user.declined'' \<and> cr_ended_by i = (if cr_inbound i then ''local'' else ''remote'') then ''declined''
     else if cr_inbound i then ''missed''
     else if cr_ended_by i = ''local'' then ''cancelled'' else ''rejected'')"

text \<open>The hash of a kept frame is a parameter.\<close>

definition call_record_evidence :: "(string \<Rightarrow> string) \<Rightarrow> string list \<Rightarrow> string list \<Rightarrow> string list \<times> string list" where
  "call_record_evidence sha256_hex frames evidence =
    (let kept = set (map sha256_hex frames) in (filter (\<lambda>e. e \<in> kept) evidence, filter (\<lambda>e. e \<notin> kept) evidence))"

section \<open>The invariant of a call\<close>

text \<open>While the call is on, what is pending is exactly a disclosed recorder that is neither paused nor accepted.\<close>

definition consent_ok :: "consent \<Rightarrow> bool" where
  "consent_ok c \<longleftrightarrow> (co_ended c = None \<longrightarrow> co_pending c =
       (case co_disclosure c of None \<Rightarrow> False | Some d \<Rightarrow> di_state d \<noteq> ''paused'' \<and> di_recorder d \<notin> co_accepted c))
     \<and> (co_ended c \<noteq> None \<or> co_policy c = ''always'' \<longrightarrow> \<not> co_pending c)"

definition consent_next :: "consent \<Rightarrow> consent_event \<Rightarrow> consent option" where
  "consent_next c e = map_option fst (consent_step c e)"

fun consent_event_ok :: "consent_event \<Rightarrow> bool" where
  "consent_event_ok (Received t (Some r)) \<longleftrightarrow> rb_state r = ''off'' \<or> rb_recorder r \<noteq> None"
| "consent_event_ok _ \<longleftrightarrow> True"

lemma decline_ok: "consent_ok (fst (decline c))"
  by (simp add: decline_def consent_ok_def)

lemma disclosed_off_ok: "consent_ok c \<Longrightarrow> consent_ok (fst (disclosed_off c))"
  by (auto simp: disclosed_off_def consent_ok_def split: option.split)

lemma disclosed_on_ok: "co_ended c = None \<Longrightarrow> consent_ok c \<Longrightarrow> consent_ok (fst (disclosed_on d c))"
  by (auto simp: disclosed_on_def consent_ok_def decline_def Let_def split: option.splits)

lemma consent_answered_ok: "consent_ok (c\<lparr>co_answered := x\<rparr>) = consent_ok c"
  by (simp add: consent_ok_def cong: option.case_cong)

lemma received_ok: assumes "consent_ok c" "received t rb c = Some (c', out)" shows "consent_ok c'"
proof (cases "co_ended c")
  case None
  let ?c = "if t = ''answer'' then c\<lparr>co_answered := True\<rparr> else c"
  have c: "consent_ok ?c" "co_ended ?c = None" using assms(1) None by (simp_all add: consent_answered_ok)
  have "consent_ok (fst (disclosed_off ?c))" "consent_ok (fst (disclosed_on d ?c))" for d
    using disclosed_off_ok [OF c(1)] disclosed_on_ok [OF c(2,1)] by simp_all
  moreover have "disclosed_off ?c = (c', out) \<or> (\<exists>d. disclosed_on d ?c = (c', out))"
    using assms(2) None by (auto simp: received_def Let_def split: option.splits if_splits bind_splits)
  ultimately show ?thesis by (metis fst_conv)
qed (use assms in \<open>auto simp: received_def\<close>)

lemma consent_step_ok: assumes "consent_ok c" "consent_step c e = Some (c', out)" shows "consent_ok c'"
proof (cases e)
  case ConsentAccept
  then show ?thesis
    using assms by (auto simp: consent_ok_def split: if_splits option.splits bind_splits)
next
  case ConsentDecline
  then show ?thesis
    using assms by (auto simp: consent_ok_def decline_def split: if_splits)
next
  case ConsentAnswer
  then show ?thesis
    using assms by (auto simp: consent_answered_ok split: if_splits)
qed (use assms received_ok in simp)

lemma consent_step_total: "consent_ok c \<Longrightarrow> consent_event_ok e \<Longrightarrow> consent_step c e \<noteq> None"
  by (cases e rule: consent_event_ok.cases)
    (auto simp: received_def Let_def consent_ok_def split: option.splits)

lemma consent_ended: "co_ended c \<noteq> None \<Longrightarrow> consent_ok c \<Longrightarrow> consent_step c e = Some (c', out) \<Longrightarrow> c' = c \<and> out = []"
  by (cases e) (auto simp: received_def consent_ok_def split: if_splits)

interpretation consent: total_machine consent_next consent_event_ok consent_ok
proof unfold_locales
  show "\<exists>s'. consent_next s e = Some s'" if "consent_ok s" "consent_event_ok e" for s e
    using consent_step_total [OF that] by (auto simp: consent_next_def)
qed (auto simp: consent_next_def dest: consent_step_ok)

lemma init_consent_ok: "consent_ok (init_consent role accept)"
  by (simp add: consent_ok_def init_consent_def)

section \<open>The stream map of a recorder leg\<close>

lemma stream_map_spec: "stream_map_ok n who seen ss \<longleftrightarrow>
    (\<forall>s \<in> set ss. \<exists>m. ls_media s = Some m \<and> 0 \<le> m \<and> m < n \<and> m \<notin> seen \<and> ls_participant s \<in> set who)
    \<and> distinct (map ls_media ss)"
proof (induction ss arbitrary: seen)
  case (Cons s ss)
  show ?case
  proof (cases "ls_media s")
    case (Some m)
    then show ?thesis by (auto simp: Cons.IH) force+
  qed simp
qed simp

section \<open>Properties\<close>

text \<open>C14: No recording without consent. In every reachable state of a counterparty's client, media is held exactly while
  the call is on and a recorder is disclosed that is neither paused nor accepted; while it is held the user's answer is
  blocked; and once the recording has been declined the call is over, and nothing that arrives or is pressed does anything.\<close>

theorem no_recording_without_consent:
  assumes "reaches consent_next consent_event_ok (init_consent role accept) c"
  shows "(hold_media c \<longleftrightarrow> co_ended c = None \<and> (\<exists>d. co_disclosure c = Some d \<and> di_state d \<noteq> ''paused'' \<and> di_recorder d \<notin> co_accepted c))
    \<and> (hold_media c \<longrightarrow> (\<forall>out. map_option snd (consent_step c ConsentAnswer) = Some out \<longrightarrow> SendAnswer \<notin> set out))
    \<and> (co_ended c \<noteq> None \<longrightarrow> (\<forall>e c' out. consent_step c e = Some (c', out) \<longrightarrow> c' = c \<and> out = []))"
proof -
  have ok: "consent_ok c"
    by (rule consent.reaches_inv [OF assms init_consent_ok])
  have "hold_media c \<longleftrightarrow> co_ended c = None \<and> (\<exists>d. co_disclosure c = Some d \<and> di_state d \<noteq> ''paused'' \<and> di_recorder d \<notin> co_accepted c)"
    using ok by (auto simp: hold_media_def consent_ok_def split: option.splits)
  moreover have "SendAnswer \<notin> set out" if "hold_media c" "map_option snd (consent_step c ConsentAnswer) = Some out" for out
    using that by (auto simp: hold_media_def split: if_splits)
  ultimately show ?thesis
    using consent_ended [OF _ ok] by blast
qed

definition disclosed_call :: consent where
  "disclosed_call = fst (the (consent_step (init_consent Callee None)
     (Received ''invite'' (Some \<lparr>rb_state = ''on'', rb_recorder = Some ''did:web:rec'', rb_purpose = None\<rparr>))))"

theorem no_recording_without_consent_witness:
  "hold_media disclosed_call \<and> SendAnswer \<notin> set (snd (the (consent_step disclosed_call ConsentAnswer)))"
proof -
  let ?e = "Received ''invite'' (Some \<lparr>rb_state = ''on'', rb_recorder = Some ''did:web:rec'', rb_purpose = None\<rparr>)"
  have "reaches consent_next consent_event_ok (init_consent Callee None) disclosed_call"
    by (rule reaches_step [OF reaches_refl, where e = ?e])
      (simp_all add: disclosed_call_def consent_next_def received_def init_consent_def Let_def)
  moreover have "hold_media disclosed_call" "consent_step disclosed_call ConsentAnswer \<noteq> None" by code_simp+
  ultimately show ?thesis
    using no_recording_without_consent by fastforce
qed

text \<open>What the checks before a recorder leg accept, exactly: a declared recording, by the recorder that was declared,
  which has the capability, for this session, with a stream map that is not empty, whose media indices are distinct and
  all within the offer, whose participants are all listed, and whose media are all send-only.\<close>

theorem recorder_leg_accepted:
  "recording_session d identity capabilities off = None \<longleftrightarrow>
     ld_state d \<noteq> None \<and> ld_state d \<noteq> Some ''off'' \<and> ld_recorder d = Some identity \<and> RECORD \<in> set capabilities
     \<and> lo_of off = ld_session d \<and> lo_streams off \<noteq> [] \<and> distinct (map ls_media (lo_streams off))
     \<and> (\<forall>s \<in> set (lo_streams off). ls_participant s \<in> set (lo_participants off)
          \<and> (\<exists>m. ls_media s = Some (int m) \<and> m < length (lo_directions off) \<and> lo_directions off ! m = Some ''sendonly''))"
proof -
  have media: "(\<exists>m. ls_media s = Some m \<and> 0 \<le> m \<and> m < int (length (lo_directions off)) \<and> m \<notin> {} \<and> ls_participant s \<in> set (lo_participants off))
      \<and> lo_directions off ! nat (the (ls_media s)) = Some ''sendonly''
    \<longleftrightarrow> ls_participant s \<in> set (lo_participants off)
      \<and> (\<exists>m. ls_media s = Some (int m) \<and> m < length (lo_directions off) \<and> lo_directions off ! m = Some ''sendonly'')" for s
    by (cases "ls_media s") (auto simp: nat_less_iff intro: exI [of _ "nat x" for x])
  have "recording_session d identity capabilities off = None \<longleftrightarrow>
     ld_state d \<noteq> None \<and> ld_state d \<noteq> Some ''off'' \<and> ld_recorder d = Some identity \<and> RECORD \<in> set capabilities
     \<and> lo_of off = ld_session d \<and> lo_streams off \<noteq> []
     \<and> stream_map_ok (int (length (lo_directions off))) (lo_participants off) {} (lo_streams off)
     \<and> (\<forall>s \<in> set (lo_streams off). lo_directions off ! nat (the (ls_media s)) = Some ''sendonly'')"
    by (auto simp: recording_session_def list_ex_iff split: option.split)
  then show ?thesis
    unfolding stream_map_spec using media by blast
qed

definition demo_leg :: leg_offer where
  "demo_leg = \<lparr>lo_of = ''s1'', lo_participants = [''alice'', ''bob''],
     lo_streams = [\<lparr>ls_media = Some 1, ls_participant = ''bob''\<rparr>, \<lparr>ls_media = Some 0, ls_participant = ''alice''\<rparr>],
     lo_directions = [Some ''sendonly'', Some ''sendonly'']\<rparr>"

theorem recorder_leg_accepted_witness:
  "ls_participant ` set (lo_streams demo_leg) \<subseteq> set (lo_participants demo_leg)"
proof -
  have "recording_session \<lparr>ld_state = Some ''on'', ld_recorder = Some ''rec'', ld_session = ''s1''\<rparr> ''rec'' [RECORD] demo_leg = None"
    by code_simp
  then show ?thesis
    by (auto simp: recorder_leg_accepted)
qed

end
