(* ===== verification/Wake.thy ===== *)
theory Wake
  imports Prelude
begin

text \<open>
  The waker of \<^verbatim>\<open>dsipvec/wake.py\<close>: the registrations of devices, what is held for them, the wakes it sends, and the
  checks of the waker on a registration and of the gateway on an enrolment and a wake. Every event carries its instant,
  and what has expired by then is settled first. The schema validation and the signature check of a registration are
  parameters (\<open>Validator\<close> and \<open>verify_raw\<close> of other modules): they return what the code reads of the verified payload. An
  \<open>assert\<close> that fails makes the step \<^term>\<open>None\<close>.
\<close>

section \<open>Data\<close>

definition W_REGISTRATION_S :: int where "W_REGISTRATION_S = 2592000"
definition W_COALESCE_S :: int where "W_COALESCE_S = 60"
definition W_CALL_ENDED_S :: int where "W_CALL_ENDED_S = 60"
definition FUTURE_S :: int where "FUTURE_S = 300"

record wreg =
  wr_identity :: string
  wr_expires_at :: int
  wr_kinds :: "string list option"

record wheld =
  wh_expires_at :: int
  wh_devices :: "string set"
  wh_woken :: "string set"

record waker =
  wk_component :: string
  wk_regs :: "(string, wreg) dict"
  wk_bound :: "string set"
  wk_held :: "(string, wheld) dict"
  wk_last :: "(string, int) dict"

datatype wout =
    WEnded string string
  | Wake string string "string option" int

datatype wact =
    WRegister string wreg
  | WRemove string
  | WRevoke string
  | WForget string
  | WBind string
  | WUnbind string
  | WHold string int "string list"
  | WDrop string
  | WStore string "string option"
  | WAnswer string string
  | WTick

definition init_waker :: "string \<Rightarrow> waker" where
  "init_waker component = \<lparr>wk_component = component, wk_regs = [], wk_bound = {}, wk_held = [], wk_last = []\<rparr>"

section \<open>The waker\<close>

definition wlive :: "waker \<Rightarrow> string \<Rightarrow> int \<Rightarrow> bool" where
  "wlive w d now \<longleftrightarrow> (case dget (wk_regs w) d of None \<Rightarrow> False | Some r \<Rightarrow> wr_expires_at r > now)"

definition wants :: "waker \<Rightarrow> string \<Rightarrow> string \<Rightarrow> bool" where
  "wants w d kind \<longleftrightarrow> (case dget (wk_regs w) d of None \<Rightarrow> False
     | Some r \<Rightarrow> (case wr_kinds r of None \<Rightarrow> True | Some ks \<Rightarrow> kind \<in> set ks))"

definition wend :: "string \<Rightarrow> string \<Rightarrow> waker \<Rightarrow> waker \<times> wout list" where
  "wend d cause w = (if dget (wk_regs w) d = None then (w, [])
     else (w\<lparr>wk_regs := ddel d (wk_regs w)\<rparr>, [WEnded d cause]))"

definition call_ended :: "string \<Rightarrow> int \<Rightarrow> waker \<Rightarrow> waker \<times> wout list" where
  "call_ended sid now w = (case dget (wk_held w) sid of
     None \<Rightarrow> (w, [])
   | Some h \<Rightarrow> (w\<lparr>wk_held := ddel sid (wk_held w)\<rparr>,
       map (\<lambda>d. Wake d ''call-ended'' (Some sid) (now + W_CALL_ENDED_S))
         (filter (\<lambda>d. wlive w d now \<and> wants w d ''call-ended'') (sorted_list_of_set (wh_woken h \<inter> wh_devices h)))))"

definition settle_held :: "int \<Rightarrow> waker \<times> wout list \<Rightarrow> string \<Rightarrow> waker \<times> wout list" where
  "settle_held now acc sid = (case acc of (w, out) \<Rightarrow> case dget (wk_held w) sid of
     None \<Rightarrow> (w, out)
   | Some h \<Rightarrow> if wh_expires_at h \<le> now then (let (w', o') = call_ended sid (wh_expires_at h) w in (w', out @ o'))
               else (w, out))"

definition settle_reg :: "int \<Rightarrow> waker \<times> wout list \<Rightarrow> string \<Rightarrow> waker \<times> wout list" where
  "settle_reg now acc d = (case acc of (w, out) \<Rightarrow> case dget (wk_regs w) d of
     None \<Rightarrow> (w, out)
   | Some r \<Rightarrow> if wr_expires_at r \<le> now then (let (w', o') = wend d ''expired'' w in (w', out @ o')) else (w, out))"

definition wsettle :: "int \<Rightarrow> waker \<Rightarrow> waker \<times> wout list" where
  "wsettle now w =
    (let (w1, out1) = foldl (settle_held now) (w, []) (dsorted (wk_held w))
     in foldl (settle_reg now) (w1, out1) (dsorted (wk_regs w1)))"

definition hold_for :: "string \<Rightarrow> int \<Rightarrow> int \<Rightarrow> waker \<times> wout list \<Rightarrow> string \<Rightarrow> waker \<times> wout list" where
  "hold_for sid until now acc d = (case acc of (w, out) \<Rightarrow> case dget (wk_held w) sid of
     None \<Rightarrow> (w, out)
   | Some h \<Rightarrow>
       if d \<in> wk_bound w then (w, out)
       else if d \<notin> wh_woken h \<and> wlive w d now \<and> wants w d ''call''
       then (w\<lparr>wk_held := dset sid (h\<lparr>wh_devices := insert d (wh_devices h), wh_woken := insert d (wh_woken h)\<rparr>) (wk_held w)\<rparr>,
             out @ [Wake d ''call'' (Some sid) until])
       else (w\<lparr>wk_held := dset sid (h\<lparr>wh_devices := insert d (wh_devices h)\<rparr>) (wk_held w)\<rparr>, out))"

definition whold :: "string \<Rightarrow> int \<Rightarrow> string list \<Rightarrow> int \<Rightarrow> waker \<Rightarrow> waker \<times> wout list" where
  "whold sid until devices now w =
    (if until > now
     then foldl (hold_for sid until now)
            (w\<lparr>wk_held := dsetdefault sid \<lparr>wh_expires_at = until, wh_devices = {}, wh_woken = {}\<rparr> (wk_held w)\<rparr>, [])
            (sort (remdups devices))
     else (w, []))"

definition wake_stored :: "string \<Rightarrow> int \<Rightarrow> waker \<times> wout list \<Rightarrow> string \<Rightarrow> waker \<times> wout list" where
  "wake_stored identity now acc d = (case acc of (w, out) \<Rightarrow> case dget (wk_regs w) d of
     None \<Rightarrow> (w, out)
   | Some r \<Rightarrow>
       if wr_identity r \<noteq> identity \<or> d \<in> wk_bound w \<or> \<not> wlive w d now \<or> \<not> wants w d ''message'' then (w, out)
       else if (case dget (wk_last w) d of None \<Rightarrow> False | Some t \<Rightarrow> now - t < W_COALESCE_S) then (w, out)
       else (w\<lparr>wk_last := dset d now (wk_last w)\<rparr>, out @ [Wake d ''message'' None (now + W_COALESCE_S)]))"

definition wbind :: "string \<Rightarrow> waker \<Rightarrow> waker" where
  "wbind d w = w\<lparr>wk_bound := insert d (wk_bound w),
     wk_held := map (\<lambda>(sid, h). (sid, h\<lparr>wh_devices := wh_devices h - {d}, wh_woken := wh_woken h - {d}\<rparr>)) (wk_held w),
     wk_last := ddel d (wk_last w)\<rparr>"

text \<open>The event itself, after the settling.\<close>

fun wact_step :: "int \<Rightarrow> wact \<Rightarrow> waker \<Rightarrow> (waker \<times> wout list) option" where
  "wact_step now (WRegister d r) w = Some (w\<lparr>wk_regs := dset d r (wk_regs w)\<rparr>, [])"
| "wact_step now (WRemove d) w = Some (wend d ''removed'' w)"
| "wact_step now (WRevoke d) w = Some (wend d ''revoked'' w)"
| "wact_step now (WForget d) w = Some (wend d ''forgotten'' w)"
| "wact_step now (WBind d) w = Some (wbind d w, [])"
| "wact_step now (WUnbind d) w = Some (w\<lparr>wk_bound := wk_bound w - {d}\<rparr>, [])"
| "wact_step now (WHold sid until devices) w =
     (if wk_component w \<noteq> ''relay'' then None else Some (whold sid until devices now w))"
| "wact_step now (WDrop sid) w = (if wk_component w \<noteq> ''relay'' then None else Some (call_ended sid now w))"
| "wact_step now (WStore identity class) w =
     (if wk_component w \<noteq> ''mailbox'' then None
      else if class = Some ''ephemeral'' then Some (w, [])
      else Some (foldl (wake_stored identity now) (w, []) (dsorted (wk_regs w))))"
| "wact_step now (WAnswer d reason) w =
     Some (if startswith reason ''wake.'' then wend d ''gateway'' w else (w, []))"
| "wact_step now WTick w = Some (w, [])"

definition waker_step :: "waker \<Rightarrow> int \<times> wact \<Rightarrow> (waker \<times> wout list) option" where
  "waker_step w e =
    (let (w1, out1) = wsettle (fst e) w
     in map_option (\<lambda>(w2, out2). (w2, out1 @ out2)) (wact_step (fst e) (snd e) w1))"

section \<open>Enrolment, registration and the gateway\<close>

datatype 'a wverdict = WReject string "string option" | WAccept 'a

text \<open>\<open>refuse\<close>: the code is what follows the first dot of the token.\<close>

definition wrefuse :: "string \<Rightarrow> 'a wverdict" where
  "wrefuse token = WReject (drop (Suc (length (before_sep CHR ''.'' token))) token) (Some token)"

record enrol_msg =
  em_from :: string
  em_provider :: string
  em_app :: string
  em_token :: string
  em_environment :: "string option"

record enrolment =
  en_key :: string
  en_provider :: string
  en_app :: string
  en_token :: string
  en_environment :: "string option"

definition enrol :: "bool \<Rightarrow> enrol_msg \<Rightarrow> (string \<times> string) list \<Rightarrow> enrolment wverdict" where
  "enrol schema_ok p apps =
    (if \<not> schema_ok then WReject ''schema-invalid'' None
     else if (em_provider p, em_app p) \<notin> set apps then wrefuse ''wake.unsupported-app''
     else WAccept \<lparr>en_key = em_from p, en_provider = em_provider p, en_app = em_app p, en_token = em_token p,
       en_environment = (if em_provider p = ''apns''
         then Some (case em_environment p of Some e \<Rightarrow> e | None \<Rightarrow> ''production'') else None)\<rparr>)"

text \<open>The payload of a registration credential whose signature and schema have been checked.\<close>

record registration =
  rg_key :: string
  rg_waker :: string
  rg_gateway :: string
  rg_handle :: string
  rg_issued_at :: int
  rg_expires_at :: int

definition verified_registration :: "(string \<times> registration) option \<Rightarrow> (registration \<Rightarrow> bool) \<Rightarrow> registration option" where
  "verified_registration signed schema_ok = (case signed of
     None \<Rightarrow> None
   | Some (signer, p) \<Rightarrow> if \<not> schema_ok p \<or> signer \<noteq> rg_key p then None else Some p)"

record register_msg =
  rm_remove :: bool
  rm_signed :: "(string \<times> registration) option"
  rm_kinds :: "string list option"
  rm_seal_key :: "string option"

record registered =
  re_device :: string
  re_key :: string
  re_gateway :: string
  re_handle :: string
  re_expires_at :: int
  re_kinds :: "string list option"
  re_seal_key :: "string option"

definition wregister ::
  "bool \<Rightarrow> (registration \<Rightarrow> bool) \<Rightarrow> register_msg \<Rightarrow> string \<Rightarrow> int \<Rightarrow> string \<Rightarrow> string list option \<Rightarrow> registered option wverdict" where
  "wregister schema_ok reg_schema_ok p device now waker gateways =
    (if \<not> schema_ok then WReject ''schema-invalid'' None
     else if rm_remove p then WAccept None
     else case verified_registration (rm_signed p) reg_schema_ok of
       None \<Rightarrow> wrefuse ''wake.registration-invalid''
     | Some r \<Rightarrow>
         if rg_waker r \<noteq> waker then wrefuse ''wake.waker-mismatch''
         else if \<not> (rg_issued_at r < rg_expires_at r \<and> rg_expires_at r \<le> rg_issued_at r + W_REGISTRATION_S)
              \<or> rg_expires_at r \<le> now \<or> rg_issued_at r > now + FUTURE_S then wrefuse ''wake.registration-invalid''
         else if (case gateways of None \<Rightarrow> False | Some gs \<Rightarrow> rg_gateway r \<notin> set gs) then wrefuse ''wake.gateway-unknown''
         else WAccept (Some \<lparr>re_device = device, re_key = rg_key r, re_gateway = rg_gateway r, re_handle = rg_handle r,
           re_expires_at = rg_expires_at r, re_kinds = map_option (\<lambda>ks. sort (remdups ks)) (rm_kinds p),
           re_seal_key = rm_seal_key p\<rparr>))"

record wake_msg =
  wm_signed :: "(string \<times> registration) option"
  wm_kind :: string
  wm_deliver_by :: int
  wm_session :: "string option"
  wm_sealed :: "string option"

record forward =
  fw_enrolment :: enrolment
  fw_class :: string
  fw_deliver_by :: int
  fw_kind :: string
  fw_waker :: string
  fw_session :: "string option"
  fw_sealed :: "string option"

definition CALL_KINDS :: "string list" where "CALL_KINDS = [''call'', ''call-ended'']"

definition gateway_wake ::
  "bool \<Rightarrow> (registration \<Rightarrow> bool) \<Rightarrow> wake_msg \<Rightarrow> string \<Rightarrow> int \<Rightarrow> string \<Rightarrow> (string, enrolment) dict \<Rightarrow> forward wverdict" where
  "gateway_wake schema_ok reg_schema_ok p signer now gateway handles =
    (if \<not> schema_ok then WReject ''schema-invalid'' None
     else
       (let r = verified_registration (wm_signed p) reg_schema_ok;
            h = Option.bind r (\<lambda>r. dget handles (rg_handle r))
        in case (r, h) of
          (Some r, Some h) \<Rightarrow>
            if rg_key r \<noteq> en_key h \<or> rg_waker r \<noteq> signer \<or> rg_gateway r \<noteq> gateway \<or> rg_expires_at r \<le> now
            then wrefuse ''wake.not-authorized''
            else if wm_deliver_by p \<le> now then wrefuse ''wake.expired''
            else WAccept \<lparr>fw_enrolment = h\<lparr>en_environment := (if en_provider h = ''apns''
                    then Some (case en_environment h of Some e \<Rightarrow> e | None \<Rightarrow> ''production'') else None)\<rparr>,
                  fw_class = (if wm_kind p \<in> set CALL_KINDS then ''call'' else ''message''),
                  fw_deliver_by = wm_deliver_by p, fw_kind = wm_kind p, fw_waker = signer,
                  fw_session = wm_session p, fw_sealed = wm_sealed p\<rparr>
        | _ \<Rightarrow> wrefuse ''wake.not-authorized''))"

section \<open>Which wakes are sent\<close>

text \<open>A wake for a call or a message, seen from the state \<open>w\<close>: to a device that is registered and alive at that instant,
  wants this kind and is not bound.\<close>

definition due_wake :: "waker \<Rightarrow> int \<Rightarrow> string \<Rightarrow> string \<Rightarrow> bool" where
  "due_wake w now d kind \<longleftrightarrow> wlive w d now \<and> wants w d kind \<and> d \<notin> wk_bound w"

fun wake_of :: "wout \<Rightarrow> (string \<times> string) option" where
  "wake_of (Wake d kind s t) = (if kind = ''call-ended'' then None else Some (d, kind))"
| "wake_of (WEnded d c) = None"

definition same_regs :: "waker \<Rightarrow> waker \<Rightarrow> bool" where
  "same_regs w w' \<longleftrightarrow> wk_regs w' = wk_regs w \<and> wk_bound w' = wk_bound w"

lemma due_same: "same_regs w w' \<Longrightarrow> due_wake w' now d k = due_wake w now d k"
  by (simp add: same_regs_def due_wake_def wlive_def wants_def)

text \<open>The settling sends no such wake and only takes registrations and held calls away.\<close>

definition settled :: "waker \<Rightarrow> waker \<times> wout list \<Rightarrow> bool" where
  "settled w p \<longleftrightarrow> wk_bound (fst p) = wk_bound w \<and> wk_last (fst p) = wk_last w \<and> wk_component (fst p) = wk_component w
     \<and> (\<forall>d r. dget (wk_regs (fst p)) d = Some r \<longrightarrow> dget (wk_regs w) d = Some r)
     \<and> (\<forall>sid h. dget (wk_held (fst p)) sid = Some h \<longrightarrow> dget (wk_held w) sid = Some h)
     \<and> (\<forall>e \<in> set (snd p). wake_of e = None)"

lemma settled_held: "settled w p \<Longrightarrow> settled w (settle_held now p sid)"
  by (auto simp: settle_held_def settled_def call_ended_def Let_def split: prod.splits option.splits if_splits)

lemma settled_reg: "settled w p \<Longrightarrow> settled w (settle_reg now p d)"
  by (auto simp: settle_reg_def settled_def wend_def Let_def split: prod.splits option.splits if_splits)

lemma settled_wsettle: "settled w (wsettle now w)"
proof -
  have "settled w (w, [])" by (simp add: settled_def)
  then have "settled w (foldl (settle_held now) (w, []) ks)" for ks
    by (rule foldl_inv [where P = "settled w"]) (rule settled_held)
  then have "settled w (foldl (settle_reg now) (foldl (settle_held now) (w, []) ks) ds)" for ks ds
    by (rule foldl_inv [where P = "settled w"]) (rule settled_reg)
  then show ?thesis by (simp add: wsettle_def case_prod_beta' Let_def)
qed

lemma settle_held_other:
  assumes "dget (wk_held (fst p)) sid = Some h" "now < wh_expires_at h"
  shows "dget (wk_held (fst (settle_held now p k))) sid = Some h"
  using assms by (cases p) (auto simp: settle_held_def call_ended_def split: option.splits)

lemma settle_reg_held: "wk_held (fst (settle_reg now p d)) = wk_held (fst p)"
  by (cases p) (auto simp: settle_reg_def wend_def split: option.splits)

lemma wsettle_held:
  assumes "dget (wk_held w) sid = Some h" "now < wh_expires_at h"
  shows "dget (wk_held (fst (wsettle now w))) sid = Some h"
proof -
  let ?P = "\<lambda>p :: waker \<times> wout list. dget (wk_held (fst p)) sid = Some h"
  have "?P (foldl (settle_held now) (w, []) ks)" for ks
    by (rule foldl_inv [where P = ?P]) (use assms settle_held_other in auto)
  then have "?P (foldl (settle_reg now) (foldl (settle_held now) (w, []) ks) ds)" for ks ds
    by (rule foldl_inv [where P = ?P]) (simp add: settle_reg_held)
  then show ?thesis by (simp add: wsettle_def case_prod_beta' Let_def)
qed

lemma settled_due: assumes "settled w p" "due_wake (fst p) now d k" shows "due_wake w now d k"
proof -
  obtain r where r: "dget (wk_regs (fst p)) d = Some r"
    using assms(2) by (auto simp: due_wake_def wlive_def split: option.splits)
  then have "dget (wk_regs w) d = Some r" using assms(1) by (simp add: settled_def)
  then show ?thesis using assms r by (simp add: due_wake_def wlive_def wants_def settled_def)
qed

text \<open>The loop over the registrations of a mailbox, and the loop over the devices of a held call.\<close>

definition storing :: "waker \<Rightarrow> int \<Rightarrow> waker \<times> wout list \<Rightarrow> bool" where
  "storing w now p \<longleftrightarrow> same_regs w (fst p)
     \<and> (\<forall>d. dget (wk_last (fst p)) d = dget (wk_last w) d \<or> dget (wk_last (fst p)) d = Some now)
     \<and> (\<forall>e \<in> set (snd p). \<forall>d k. wake_of e = Some (d, k) \<longrightarrow> k = ''message'' \<and> due_wake w now d k
          \<and> (\<forall>t. dget (wk_last w) d = Some t \<longrightarrow> W_COALESCE_S \<le> now - t) \<and> dget (wk_last (fst p)) d = Some now)"

lemma storing_step: assumes "storing w now p" shows "storing w now (wake_stored i now p d)"
proof (cases "dget (wk_regs (fst p)) d")
  case (Some r)
  have due: "due_wake w now d ''message''" if "\<not> (d \<in> wk_bound (fst p) \<or> \<not> wlive (fst p) d now \<or> \<not> wants (fst p) d ''message'')"
    using that assms due_same [of w "fst p" now d "''message''"] by (auto simp: storing_def due_wake_def)
  have l: "dget (wk_last (fst p)) d = dget (wk_last w) d \<or> dget (wk_last (fst p)) d = Some now"
    using assms by (simp add: storing_def)
  have old: "W_COALESCE_S \<le> now - t" if "dget (wk_last w) d = Some t"
      "\<not> (case dget (wk_last (fst p)) d of None \<Rightarrow> False | Some t \<Rightarrow> now - t < W_COALESCE_S)" for t
    using l that by (auto simp: W_COALESCE_S_def)
  show ?thesis
    using assms Some due old
    by (cases p) (auto simp: storing_def wake_stored_def same_regs_def)
qed (use assms in \<open>cases p; simp add: wake_stored_def\<close>)

definition holding :: "waker \<Rightarrow> string \<Rightarrow> int \<Rightarrow> waker \<times> wout list \<Rightarrow> bool" where
  "holding w sid now p \<longleftrightarrow> same_regs w (fst p)
     \<and> (\<forall>h. dget (wk_held w) sid = Some h \<longrightarrow> (\<exists>h'. dget (wk_held (fst p)) sid = Some h' \<and> wh_woken h \<subseteq> wh_woken h'))
     \<and> (\<forall>e \<in> set (snd p). \<forall>d k. wake_of e = Some (d, k) \<longrightarrow> k = ''call'' \<and> due_wake w now d k
          \<and> (\<forall>h. dget (wk_held w) sid = Some h \<longrightarrow> d \<notin> wh_woken h)
          \<and> (\<exists>h'. dget (wk_held (fst p)) sid = Some h' \<and> d \<in> wh_woken h'))"

lemma holding_step: assumes "holding w sid now p" shows "holding w sid now (hold_for sid until now p d)"
proof (cases "dget (wk_held (fst p)) sid")
  case (Some h)
  have due: "due_wake w now d ''call''" if "d \<notin> wk_bound (fst p)" "wlive (fst p) d now" "wants (fst p) d ''call''"
    using that assms due_same [of w "fst p" now d "''call''"] by (auto simp: holding_def due_wake_def)
  show ?thesis
    using assms Some due
    by (cases p) (auto simp: holding_def hold_for_def same_regs_def split: if_splits)
qed (use assms in \<open>cases p; simp add: hold_for_def\<close>)

lemma wake_stored_all: "storing w now (foldl (wake_stored i now) (w, []) ds)"
  by (rule foldl_inv [where P = "storing w now"]) (auto simp: storing_step, simp add: storing_def same_regs_def)

lemma hold_for_all: "holding w sid now (foldl (hold_for sid until now) (w, []) ds)"
  by (rule foldl_inv [where P = "holding w sid now"]) (auto simp: holding_step, simp add: holding_def same_regs_def)

lemma whold_holding:
  assumes "whold sid until ds now w = (w', out)" "e \<in> set out" "wake_of e = Some (d, k)"
  shows "k = ''call'' \<and> due_wake w now d k \<and> (\<forall>h. dget (wk_held w) sid = Some h \<longrightarrow> d \<notin> wh_woken h)
     \<and> (\<exists>h'. dget (wk_held w') sid = Some h' \<and> d \<in> wh_woken h')"
proof -
  let ?h = "\<lparr>wh_expires_at = until, wh_devices = {}, wh_woken = {}\<rparr>"
  let ?w = "w\<lparr>wk_held := dsetdefault sid ?h (wk_held w)\<rparr>"
  have "out \<noteq> []" using assms(2) by auto
  then have "foldl (hold_for sid until now) (?w, []) (sort (remdups ds)) = (w', out)"
    using assms(1) by (simp add: whold_def split: if_splits)
  then have "holding ?w sid now (w', out)"
    using hold_for_all [of ?w sid now until] by metis
  moreover have "due_wake ?w now d k = due_wake w now d k"
    by (rule due_same) (simp add: same_regs_def)
  ultimately show ?thesis
    using assms(2,3) unfolding holding_def by (cases "dget (wk_held w) sid") fastforce+
qed

text \<open>One event, after the settling.\<close>

lemma act_wakes:
  assumes "wact_step now a w = Some (w', out)" "e \<in> set out" "wake_of e = Some (d, k)"
  shows "due_wake w now d k
    \<and> (k = ''message'' \<and> (\<forall>t. dget (wk_last w) d = Some t \<longrightarrow> W_COALESCE_S \<le> now - t) \<and> dget (wk_last w') d = Some now
       \<or> k = ''call'' \<and> (\<exists>sid until ds. a = WHold sid until ds \<and> (\<forall>h. dget (wk_held w) sid = Some h \<longrightarrow> d \<notin> wh_woken h)
            \<and> (\<exists>h'. dget (wk_held w') sid = Some h' \<and> d \<in> wh_woken h')))"
proof (cases a)
  case (WHold sid until ds)
  then show ?thesis
    using assms whold_holding [of sid until ds now w w' out] by (auto split: if_splits)
next
  case (WStore i cl)
  then have "storing w now (w', out)"
    using assms wake_stored_all [of w now i "dsorted (wk_regs w)"] by (auto split: if_splits)
  then show ?thesis
    using assms(2,3) by (auto simp: storing_def)
qed (use assms in \<open>auto simp: wend_def call_ended_def split: if_splits option.splits\<close>)

section \<open>Properties\<close>

text \<open>Whom a waker wakes. A wake for a call or a message goes only to a device whose registration is alive at that
  instant, that wants this kind and is not bound. A message wake is at least \<open>W_COALESCE_S\<close> after the device's last one
  and is recorded as its last; a call wake goes to a device not yet woken for that held call, and is recorded in it.\<close>

theorem wakes_are_due:
  assumes "waker_step w (now, a) = Some (w', out)" "Wake d kind session t \<in> set out" "kind \<noteq> ''call-ended''"
  shows "wlive w d now \<and> wants w d kind \<and> d \<notin> wk_bound w
    \<and> (kind = ''message'' \<and> (\<forall>u. dget (wk_last w) d = Some u \<longrightarrow> W_COALESCE_S \<le> now - u) \<and> dget (wk_last w') d = Some now
       \<or> kind = ''call'' \<and> (\<exists>sid until ds. a = WHold sid until ds
            \<and> (\<forall>h. dget (wk_held w) sid = Some h \<longrightarrow> now < wh_expires_at h \<longrightarrow> d \<notin> wh_woken h)
            \<and> (\<exists>h'. dget (wk_held w') sid = Some h' \<and> d \<in> wh_woken h')))"
proof -
  obtain w1 out1 where 1: "wsettle now w = (w1, out1)" by (cases "wsettle now w")
  have s: "settled w (w1, out1)" using settled_wsettle [of w now] by (simp add: 1)
  obtain out2 where 2: "wact_step now a w1 = Some (w', out2)" "out = out1 @ out2"
    using assms(1) by (auto simp: waker_step_def 1)
  have "wake_of (Wake d kind session t) = Some (d, kind)" using assms(3) by simp
  moreover from this have "Wake d kind session t \<notin> set out1"
    using s by (metis option.distinct(1) settled_def snd_conv)
  ultimately have a: "due_wake w1 now d kind
    \<and> (kind = ''message'' \<and> (\<forall>t. dget (wk_last w1) d = Some t \<longrightarrow> W_COALESCE_S \<le> now - t) \<and> dget (wk_last w') d = Some now
       \<or> kind = ''call'' \<and> (\<exists>sid until ds. a = WHold sid until ds \<and> (\<forall>h. dget (wk_held w1) sid = Some h \<longrightarrow> d \<notin> wh_woken h)
            \<and> (\<exists>h'. dget (wk_held w') sid = Some h' \<and> d \<in> wh_woken h')))"
    using assms(2) 2(2) by (intro act_wakes [OF 2(1)]) auto
  have due: "due_wake w now d kind" using settled_due [OF s] a by simp
  have f: "wk_last w1 = wk_last w" "dget (wk_held w) sid = Some h \<Longrightarrow> now < wh_expires_at h \<Longrightarrow> dget (wk_held w1) sid = Some h" for sid h
    using s wsettle_held [of w sid h now] by (simp_all add: settled_def 1)
  show ?thesis
  proof (cases "kind = ''message''")
    case True
    then show ?thesis using due a f(1) by (simp add: due_wake_def)
  next
    case False
    then obtain sid until ds where "kind = ''call''" "a = WHold sid until ds" "\<forall>h. dget (wk_held w1) sid = Some h \<longrightarrow> d \<notin> wh_woken h"
        "\<exists>h'. dget (wk_held w') sid = Some h' \<and> d \<in> wh_woken h'"
      using a by blast
    then show ?thesis using due f(2) by (simp add: due_wake_def)
  qed
qed

definition mailbox_waker :: waker where
  "mailbox_waker = fst (the (waker_step (init_waker ''mailbox'')
     (100, WRegister ''d1'' \<lparr>wr_identity = ''alice'', wr_expires_at = 5000, wr_kinds = Some [''message'']\<rparr>)))"

theorem wakes_are_due_witness:
  "wlive mailbox_waker ''d1'' 200 \<and> wants mailbox_waker ''d1'' ''message'' \<and> ''d1'' \<notin> wk_bound mailbox_waker"
proof -
  let ?e = "(200, WStore ''alice'' None)"
  have "waker_step mailbox_waker ?e = Some (the (waker_step mailbox_waker ?e))" by code_simp
  then have 1: "waker_step mailbox_waker ?e = Some (fst (the (waker_step mailbox_waker ?e)), snd (the (waker_step mailbox_waker ?e)))"
    by simp
  have 2: "Wake ''d1'' ''message'' None 260 \<in> set (snd (the (waker_step mailbox_waker ?e)))" by code_simp
  show ?thesis
    using wakes_are_due [OF 1 2] by simp
qed

end
