(* ===== verification/Hub_Model.thy ===== *)
theory Hub_Model
  imports Prelude
begin

text \<open>
  The hub of a group, \<^verbatim>\<open>dsipvec/messaging.py\<close> (M\<section>6.5 to M\<section>6.8, M\<section>7.3): it orders the deposits of the members, keeps one
  queue per member identity and one of welcomes, and sends the next item of a queue when the last is acknowledged. An
  identity or device is a string, an MLS commit is what the code reads of it. The deposit's \<open>digest\<close>, \<open>epoch\<close> and
  \<open>expires_at\<close> are required keys. A restart writes the state to JSON and reads it back, which is the identity on it.
\<close>

section \<open>The rules on a commit\<close>

record leaf_ref =
  lr_identity :: string
  lr_device :: string

record removal =
  re_leaf :: leaf_ref
  re_delegation_valid :: bool

text \<open>\<^term>\<open>None\<close> is \<open>accept\<close>, otherwise the code of the reject.\<close>

definition removal_ok :: "leaf_ref list \<Rightarrow> removal list \<Rightarrow> string \<Rightarrow> bool" where
  "removal_ok roster removes who =
    (let rs = filter (\<lambda>r. lr_identity (re_leaf r) = who) removes;
         leaves = map lr_device (filter (\<lambda>l. lr_identity l = who) roster)
     in set leaves \<subseteq> set (map (\<lambda>r. lr_device (re_leaf r)) rs) \<or> list_all (\<lambda>r. \<not> re_delegation_valid r) rs)"

definition check_roster_change :: "string \<Rightarrow> leaf_ref list \<Rightarrow> leaf_ref list \<Rightarrow> removal list \<Rightarrow> string option" where
  "check_roster_change me roster adds removes =
    (let members = set (map lr_identity roster)
     in if list_ex (\<lambda>a. lr_identity a \<in> members \<and> lr_identity a \<noteq> me) adds then Some ''roster-adds-other-devices''
        else if list_ex (\<lambda>who. who \<noteq> me \<and> \<not> removal_ok roster removes who) (map (\<lambda>r. lr_identity (re_leaf r)) removes)
        then Some ''roster-removes-part-of-identity''
        else None)"

definition check_external_join ::
  "string \<Rightarrow> string option \<Rightarrow> string list \<Rightarrow> leaf_ref \<Rightarrow> leaf_ref list \<Rightarrow> removal list \<Rightarrow> string option" where
  "check_external_join kind owner roster j adds removes =
    (if adds \<noteq> [j] then Some ''external-join-adds''
     else if \<not> (lr_identity j \<in> set roster \<or> (kind = ''personal'' \<and> owner = Some (lr_identity j)))
     then Some ''external-join-not-member''
     else if list_ex (\<lambda>r. lr_identity (re_leaf r) \<noteq> lr_identity j) removes then Some ''external-join-removes-other''
     else None)"

text \<open>What a member's device does about an identity's pending Remove proposals (\<open>leave_proposals\<close>).\<close>

datatype leave_action = LeaveIgnore string | LeaveWait | Left | LeaveCommit

fun own_removes :: "string \<Rightarrow> string list \<Rightarrow> leaf_ref list \<Rightarrow> string set \<Rightarrow> string set option" where
  "own_removes who leaves [] removed = Some removed"
| "own_removes who leaves (r # rs) removed =
     (if lr_identity r \<noteq> who \<or> lr_device r \<notin> set leaves then None
      else own_removes who leaves rs (insert (lr_device r) removed))"

definition leave_proposals :: "int \<Rightarrow> string \<Rightarrow> leaf_ref list \<Rightarrow> leaf_ref list \<Rightarrow> string \<Rightarrow> leave_action" where
  "leave_proposals others who roster removes me =
    (if others > 0 then LeaveIgnore ''not-a-leave''
     else
       (let leaves = map lr_device (filter (\<lambda>l. lr_identity l = who) roster)
        in case own_removes who leaves removes {} of
             None \<Rightarrow> LeaveIgnore ''not-own-leaves''
           | Some removed \<Rightarrow>
               if removed \<noteq> set leaves then LeaveWait
               else if who = me then Left else LeaveCommit))"

section \<open>The hub\<close>

record commit =
  cm_external :: bool
  cm_valid :: bool
  cm_adds :: "leaf_ref list"
  cm_removes :: "removal list"
  cm_moves_to :: "string option"

record deposit =
  hd_id :: string
  hd_device :: string
  hd_identity :: string
  hd_class :: string
  hd_digest :: string
  hd_epoch :: int
  hd_expires_at :: int
  hd_commit :: "commit option"
  hd_handover_seq :: "int option"
  hd_view :: "(int \<times> (string, string list) dict) option"

record hub =
  hb_now :: int
  hb_kind :: string
  hb_owner :: "string option"
  hb_epoch :: int
  hb_next_seq :: int
  hb_roster :: "(string, string set) dict"
  hb_digests :: "(string, int) dict"
  hb_seq_class :: "(int, string) dict"
  hb_pending :: "(string, int list) dict"
  hb_group_info :: bool
  hb_moved_to :: "string option"
  hb_welcomes :: "(string, int list) dict"
  hb_unregistered :: "string set"
  hb_retention :: int
  hb_waiting :: "(string, int) dict"

datatype hout =
    HError string string string
  | HAccepted string string "int option" bool
  | HFanout string "int option" string
  | HForward string
  | HDropped string "int list" "int list"

datatype hevent =
    HAdvance int
  | HAck string int string
  | HRestart
  | HDeposit deposit

definition MLS_RETENTION_S :: int where "MLS_RETENTION_S = 2592000"

definition init_hub :: "int \<Rightarrow> string option \<Rightarrow> string option \<Rightarrow> int \<Rightarrow> int option \<Rightarrow> (string, string list) dict \<Rightarrow> int option \<Rightarrow> hub" where
  "init_hub now kind owner epoch next_seq roster retention =
     \<lparr>hb_now = now, hb_kind = (case kind of Some k \<Rightarrow> k | None \<Rightarrow> ''direct''), hb_owner = owner, hb_epoch = epoch,
      hb_next_seq = (case next_seq of Some n \<Rightarrow> n | None \<Rightarrow> 1), hb_roster = map (\<lambda>(i, ds). (i, set ds)) roster,
      hb_digests = [], hb_seq_class = [], hb_pending = [], hb_group_info = False, hb_moved_to = None, hb_welcomes = [],
      hb_unregistered = {}, hb_retention = (case retention of Some r \<Rightarrow> r | None \<Rightarrow> MLS_RETENTION_S), hb_waiting = []\<rparr>"

definition herror :: "deposit \<Rightarrow> string \<Rightarrow> hout list" where
  "herror d reason = [HError (hd_device d) (hd_id d) reason]"

definition members :: "hub \<Rightarrow> string list" where
  "members h = dsorted (hb_roster h)"

definition start_clock :: "string \<Rightarrow> hub \<Rightarrow> hub" where
  "start_clock i h = h\<lparr>hb_waiting := dsetdefault i (hb_now h) (hb_waiting h)\<rparr>"

text \<open>One target of \<open>_sequence\<close>, and the items it queues.\<close>

definition queue_item :: "int \<Rightarrow> string \<Rightarrow> hub \<times> hout list \<Rightarrow> string \<Rightarrow> hub \<times> hout list" where
  "queue_item seq cls acc i = (case acc of (h, out) \<Rightarrow>
     let h1 = start_clock i h;
         q = dget_or (hb_pending h1) i [] @ [seq];
         h2 = h1\<lparr>hb_pending := dset i q (hb_pending h1)\<rparr>
     in (h2, if length q = 1 \<and> i \<notin> hb_unregistered h2 then out @ [HFanout i (Some seq) cls] else out))"

definition hsequence :: "deposit \<Rightarrow> string list \<Rightarrow> hub \<Rightarrow> hub \<times> hout list" where
  "hsequence d targets h =
    (let seq = hb_next_seq h;
         h1 = h\<lparr>hb_next_seq := seq + 1, hb_digests := dset (hd_digest d) seq (hb_digests h),
                hb_seq_class := dset seq (hd_class d) (hb_seq_class h)\<rparr>
     in foldl (queue_item seq (hd_class d)) (h1, [HAccepted (hd_device d) (hd_id d) (Some seq) False]) targets)"

text \<open>What an applied commit does to the roster, and to the queues of the identities that gained a device.\<close>

definition remove_leaf :: "(string, string set) dict \<Rightarrow> removal \<Rightarrow> (string, string set) dict" where
  "remove_leaf roster r =
    (let i = lr_identity (re_leaf r)
     in case dget roster i of
          None \<Rightarrow> roster
        | Some devs \<Rightarrow> if devs - {lr_device (re_leaf r)} = {} then ddel i roster
                       else dset i (devs - {lr_device (re_leaf r)}) roster)"

definition add_leaf :: "(string, string set) dict \<Rightarrow> leaf_ref \<Rightarrow> (string, string set) dict" where
  "add_leaf roster a = dset (lr_identity a) (insert (lr_device a) (dget_or roster (lr_identity a) {})) roster"

definition gained :: "(string, string set) dict \<Rightarrow> commit \<Rightarrow> string list" where
  "gained before cm = sort (remdups (map lr_identity
     (filter (\<lambda>a. lr_device a \<notin> dget_or before (lr_identity a) {}) (cm_adds cm))))"

definition queue_welcome :: "int \<Rightarrow> hub \<times> hout list \<Rightarrow> string \<Rightarrow> hub \<times> hout list" where
  "queue_welcome seq acc i = (case acc of (h, out) \<Rightarrow>
     let h1 = start_clock i h;
         q = dget_or (hb_welcomes h1) i [] @ [seq];
         h2 = h1\<lparr>hb_welcomes := dset i q (hb_welcomes h1)\<rparr>
     in (h2, if length q = 1 then out @ [HFanout i (Some seq) ''welcome''] else out))"

definition apply_commit :: "deposit \<Rightarrow> commit \<Rightarrow> hub \<Rightarrow> hub \<times> hout list" where
  "apply_commit d cm h =
    (let seq = hb_next_seq h;
         before = hb_roster h;
         (h1, out) = hsequence d (members h) h;
         h2 = h1\<lparr>hb_roster := foldl add_leaf (foldl remove_leaf (hb_roster h1) (cm_removes cm)) (cm_adds cm),
                 hb_epoch := hb_epoch h1 + 1,
                 hb_moved_to := (case cm_moves_to cm of Some m \<Rightarrow> if m = '''' then hb_moved_to h1 else Some m | None \<Rightarrow> hb_moved_to h1)\<rparr>
     in if cm_external cm then (h2, out)
        else foldl (queue_welcome seq)
          (h2\<lparr>hb_unregistered := hb_unregistered h2 \<union> (set (gained before cm) - set (dkeys before))\<rparr>, out)
          (gained before cm))"

definition hreturned :: "deposit \<Rightarrow> int \<Rightarrow> hub \<Rightarrow> hub \<times> hout list" where
  "hreturned d handover_seq h =
    (case hd_view d of
       None \<Rightarrow> (h, herror d ''policy.blocked'')
     | Some (epoch, roster) \<Rightarrow>
         if hd_identity d \<notin> set (dkeys roster) then (h, herror d ''policy.blocked'')
         else if handover_seq < hb_next_seq h then (h, herror d ''policy.blocked'')
         else
           (let h1 = h\<lparr>hb_moved_to := None, hb_epoch := epoch, hb_roster := map (\<lambda>(i, ds). (i, set ds)) roster,
                       hb_next_seq := handover_seq + 1, hb_group_info := True\<rparr>
            in (h1, HAccepted (hd_device d) (hd_id d) None False # map (\<lambda>i. HFanout i None ''group-info'') (members h1))))"

text \<open>A handshake or an application item that is not a duplicate, from a sender that may deposit.\<close>

definition hordered :: "deposit \<Rightarrow> hub \<Rightarrow> hub \<times> hout list" where
  "hordered d h =
    (if hd_class d = ''application'' then
       (if hd_epoch d \<noteq> hb_epoch h \<and> hd_epoch d \<noteq> hb_epoch h - 1 then (h, herror d ''mailbox.stale-epoch'')
        else hsequence d (members h) h)
     else if hd_epoch d \<noteq> hb_epoch h then
       (h, herror d (if hd_commit d \<noteq> None \<and> hd_epoch d = hb_epoch h - 1 then ''mailbox.commit-conflict'' else ''mailbox.stale-epoch''))
     else case hd_commit d of
       None \<Rightarrow> hsequence d (members h) h
     | Some cm \<Rightarrow>
         if \<not> cm_valid cm then (h, herror d ''policy.blocked'')
         else if check_roster_change (hd_identity d)
                   [\<lparr>lr_identity = i, lr_device = dev\<rparr>. (i, devs) \<leftarrow> hb_roster h, dev \<leftarrow> sorted_list_of_set devs]
                   (cm_adds cm) (cm_removes cm) \<noteq> None
         then (h, herror d ''policy.blocked'')
         else apply_commit d cm h)"

definition sender_ok :: "deposit \<Rightarrow> hub \<Rightarrow> bool" where
  "sender_ok d h = (case hd_commit d of
     Some cm \<Rightarrow> if cm_external cm
       then check_external_join (hb_kind h) (hb_owner h) (members h) \<lparr>lr_identity = hd_identity d, lr_device = hd_device d\<rparr>
              (cm_adds cm) (cm_removes cm) = None
       else hd_identity d \<in> set (dkeys (hb_roster h))
   | None \<Rightarrow> hd_identity d \<in> set (dkeys (hb_roster h)))"

definition hdeposit :: "deposit \<Rightarrow> hub \<Rightarrow> hub \<times> hout list" where
  "hdeposit d h =
    (if hb_moved_to h \<noteq> None \<and> hd_class d = ''group-info'' \<and> hd_handover_seq d \<noteq> None
     then hreturned d (the (hd_handover_seq d)) h
     else if hb_moved_to h \<noteq> None then (h, herror d ''mailbox.unknown-group'')
     else if hd_class d \<notin> {''handshake'', ''application'', ''ephemeral'', ''group-info''}
     then (h, herror d ''mailbox.unsupported-class'')
     else if hd_class d = ''group-info'' then
       (if hd_identity d \<notin> set (dkeys (hb_roster h)) then (h, herror d ''policy.blocked'')
        else (h\<lparr>hb_group_info := True\<rparr>,
              HAccepted (hd_device d) (hd_id d) None False # map (\<lambda>i. HFanout i None ''group-info'') (members h)))
     else if hd_class d = ''ephemeral'' then
       (if hd_expires_at d \<le> hb_now h then (h, [])
        else if hd_identity d \<notin> set (dkeys (hb_roster h)) then (h, herror d ''policy.blocked'')
        else (h, map HForward (filter (\<lambda>i. i \<noteq> hd_identity d) (members h))))
     else case dget (hb_digests h) (hd_digest d) of
       Some seq \<Rightarrow> (h, [HAccepted (hd_device d) (hd_id d) (Some seq) True])
     | None \<Rightarrow> if \<not> sender_ok d h then (h, herror d ''policy.blocked'') else hordered d h)"

section \<open>Acknowledgements, time, restart\<close>

definition class_of :: "hub \<Rightarrow> int \<Rightarrow> string" where
  "class_of h seq = dget_or (hb_seq_class h) seq ''''"

definition hqueued :: "hub \<Rightarrow> string \<Rightarrow> bool" where
  "hqueued h i \<longleftrightarrow> dget_or (hb_pending h) i [] \<noteq> [] \<or> dget_or (hb_welcomes h) i [] \<noteq> []"

definition touch_clock :: "string \<Rightarrow> hub \<Rightarrow> hub" where
  "touch_clock i h = h\<lparr>hb_waiting := (if hqueued h i then dset i (hb_now h) (hb_waiting h) else ddel i (hb_waiting h))\<rparr>"

text \<open>What is sent once the head of a queue has been acknowledged and taken off.\<close>

definition send_next :: "string \<Rightarrow> string \<Rightarrow> hub \<Rightarrow> hub \<times> hout list" where
  "send_next ident cls h =
    (let qs = dget_or (if cls = ''welcome'' then hb_welcomes h else hb_pending h) ident []
     in if qs \<noteq> [] \<and> (cls = ''welcome'' \<or> ident \<notin> hb_unregistered h)
        then (h, [HFanout ident (Some (hd qs)) (if cls = '''' then class_of h (hd qs) else cls)])
        else if cls = ''welcome'' \<and> ident \<in> hb_unregistered h
        then (h\<lparr>hb_unregistered := hb_unregistered h - {ident}\<rparr>,
              case dget_or (hb_pending h) ident [] of
                [] \<Rightarrow> []
              | w # _ \<Rightarrow> [HFanout ident (Some w) (class_of h w)])
        else (h, []))"

definition hack :: "string \<Rightarrow> int \<Rightarrow> string \<Rightarrow> hub \<Rightarrow> hub \<times> hout list" where
  "hack ident seq cls h =
    (case dget_or (if cls = ''welcome'' then hb_welcomes h else hb_pending h) ident [] of
       [] \<Rightarrow> (h, [])
     | q # qs \<Rightarrow>
         if q \<noteq> seq then (h, [])
         else send_next ident cls (touch_clock ident
                (if cls = ''welcome'' then h\<lparr>hb_welcomes := dset ident qs (hb_welcomes h)\<rparr>
                 else h\<lparr>hb_pending := dset ident qs (hb_pending h)\<rparr>)))"

definition drop_queues :: "hub \<times> hout list \<Rightarrow> string \<Rightarrow> hub \<times> hout list" where
  "drop_queues acc i = (case acc of (h, out) \<Rightarrow>
     (h\<lparr>hb_pending := ddel i (hb_pending h), hb_welcomes := ddel i (hb_welcomes h),
        hb_unregistered := hb_unregistered h - {i}, hb_waiting := ddel i (hb_waiting h)\<rparr>,
      out @ [HDropped i (dget_or (hb_pending h) i []) (dget_or (hb_welcomes h) i [])]))"

definition hadvance :: "int \<Rightarrow> hub \<Rightarrow> hub \<times> hout list" where
  "hadvance n h =
    (let h1 = h\<lparr>hb_now := hb_now h + n\<rparr>
     in foldl drop_queues (h1, [])
          (sort (dkeys (filter (\<lambda>(_, t). hb_now h1 - t \<ge> hb_retention h1) (hb_waiting h1)))))"

definition heads :: "(string, int list) dict \<Rightarrow> (string \<times> int) list" where
  "heads qs = List.map_filter (\<lambda>i. case dget_or qs i [] of [] \<Rightarrow> None | q # _ \<Rightarrow> Some (i, q)) (dsorted qs)"

definition hrestart :: "hub \<Rightarrow> hub \<times> hout list" where
  "hrestart h = (h,
     map (\<lambda>(i, q). HFanout i (Some q) (class_of h q)) (filter (\<lambda>(i, _). i \<notin> hb_unregistered h) (heads (hb_pending h)))
     @ map (\<lambda>(i, q). HFanout i (Some q) ''welcome'') (heads (hb_welcomes h)))"

fun hub_step :: "hub \<Rightarrow> hevent \<Rightarrow> hub \<times> hout list" where
  "hub_step h (HAdvance n) = hadvance n h"
| "hub_step h (HAck ident seq cls) = hack ident seq cls h"
| "hub_step h HRestart = hrestart h"
| "hub_step h (HDeposit d) = hdeposit d h"

end
