(* ===== verification/Hub.thy ===== *)
theory Hub
  imports Hub_Model
begin

text \<open>
  The hub orders: every queue is strictly increasing and only its head is ever sent, a commit takes its epoch, a number is
  given once. \<open>hsequence\<close> and the welcome loop are first described exactly, then the invariant \<open>hub_ok\<close> and what may
  be sent (\<open>sends_heads\<close>) are shown for every event.
\<close>

lemma foldl_inv_distinct:
  assumes "distinct xs" "P {} s" "\<And>X s x. P X s \<Longrightarrow> x \<notin> X \<Longrightarrow> P (insert x X) (f s x)"
  shows "P (set xs) (foldl f s xs)"
  using assms by (induction xs rule: rev_induct) auto

section \<open>What the two loops do\<close>

abbreviation pq :: "hub \<Rightarrow> string \<Rightarrow> int list" where "pq h i \<equiv> dget_or (hb_pending h) i []"
abbreviation wq :: "hub \<Rightarrow> string \<Rightarrow> int list" where "wq h i \<equiv> dget_or (hb_welcomes h) i []"

lemma dget_or_dset [simp]: "dget_or (dset k v d) k' x = (if k' = k then v else dget_or d k' x)"
  by (simp add: dget_or_def)

lemma dget_or_ddel [simp]: "dget_or (ddel k d) k' x = (if k' = k then x else dget_or d k' x)"
  by (simp add: dget_or_def)

lemma start_clock_simps [simp]: "hb_pending (start_clock i h) = hb_pending h" "hb_welcomes (start_clock i h) = hb_welcomes h"
  "hb_unregistered (start_clock i h) = hb_unregistered h" "hb_next_seq (start_clock i h) = hb_next_seq h"
  "hb_digests (start_clock i h) = hb_digests h" "hb_seq_class (start_clock i h) = hb_seq_class h"
  "hb_roster (start_clock i h) = hb_roster h" "hb_epoch (start_clock i h) = hb_epoch h"
  "hb_moved_to (start_clock i h) = hb_moved_to h"
  by (simp_all add: start_clock_def)

definition same_hub :: "hub \<Rightarrow> hub \<Rightarrow> bool" where
  "same_hub h h' \<longleftrightarrow> hb_next_seq h' = hb_next_seq h \<and> hb_digests h' = hb_digests h \<and> hb_seq_class h' = hb_seq_class h
     \<and> hb_roster h' = hb_roster h \<and> hb_unregistered h' = hb_unregistered h \<and> hb_epoch h' = hb_epoch h \<and> hb_moved_to h' = hb_moved_to h"

text \<open>After the loop over \<open>xs\<close> the item is at the end of their queues, and was sent where the queue was empty.\<close>

definition queued_to :: "hub \<Rightarrow> int \<Rightarrow> string \<Rightarrow> string set \<Rightarrow> hub \<times> hout list \<Rightarrow> bool" where
  "queued_to h seq cls X p \<longleftrightarrow> same_hub h (fst p) \<and> hb_welcomes (fst p) = hb_welcomes h
     \<and> (\<forall>i. pq (fst p) i = (if i \<in> X then pq h i @ [seq] else pq h i))
     \<and> (\<forall>e \<in> set (snd p). \<exists>i \<in> X. e = HFanout i (Some seq) cls \<and> pq h i = [] \<and> i \<notin> hb_unregistered h)"

lemma queue_item_step: "queued_to h seq cls X p \<Longrightarrow> i \<notin> X \<Longrightarrow> queued_to h seq cls (insert i X) (queue_item seq cls p i)"
  by (cases p) (auto simp: queued_to_def same_hub_def queue_item_def Let_def)

definition welcomed_to :: "hub \<Rightarrow> int \<Rightarrow> string set \<Rightarrow> hub \<times> hout list \<Rightarrow> bool" where
  "welcomed_to h seq X p \<longleftrightarrow> same_hub h (fst p) \<and> hb_pending (fst p) = hb_pending h
     \<and> (\<forall>i. wq (fst p) i = (if i \<in> X then wq h i @ [seq] else wq h i))
     \<and> (\<forall>e \<in> set (snd p). \<exists>i \<in> X. e = HFanout i (Some seq) ''welcome'' \<and> wq h i = [])"

lemma queue_welcome_step: "welcomed_to h seq X p \<Longrightarrow> i \<notin> X \<Longrightarrow> welcomed_to h seq (insert i X) (queue_welcome seq p i)"
  by (cases p) (auto simp: welcomed_to_def same_hub_def queue_welcome_def Let_def)

text \<open>The emissions so far are kept in front.\<close>

lemma queue_item_out: "queue_item seq cls (h, o1 @ o2) i = (let (h', o') = queue_item seq cls (h, o2) i in (h', o1 @ o'))"
  by (simp add: queue_item_def Let_def)

lemma foldl_out:
  assumes "\<And>h o2 x. f (h, o1 @ o2) x = (let (h', o') = f (h, o2) x in (h', o1 @ o'))"
  shows "foldl f (h, o1 @ o2) xs = (let (h', o') = foldl f (h, o2) xs in (h', o1 @ o'))"
proof (induction xs arbitrary: h o2)
  case (Cons x xs)
  obtain h1 o3 where f: "f (h, o2) x = (h1, o3)" by (cases "f (h, o2) x")
  then have "f (h, o1 @ o2) x = (h1, o1 @ o3)" by (simp add: assms)
  then show ?case using Cons.IH f by simp
qed simp

lemmas queue_items_out = foldl_out [of "queue_item seq cls" for seq cls, OF queue_item_out]

lemma queue_welcome_out: "queue_welcome seq (h, o1 @ o2) i = (let (h', o') = queue_welcome seq (h, o2) i in (h', o1 @ o'))"
  by (simp add: queue_welcome_def Let_def)

lemmas queue_welcomes_out = foldl_out [of "queue_welcome seq" for seq, OF queue_welcome_out]

definition numbered_hub :: "deposit \<Rightarrow> hub \<Rightarrow> hub" where
  "numbered_hub d h = h\<lparr>hb_next_seq := hb_next_seq h + 1, hb_digests := dset (hd_digest d) (hb_next_seq h) (hb_digests h),
     hb_seq_class := dset (hb_next_seq h) (hd_class d) (hb_seq_class h)\<rparr>"

lemma hsequence_spec:
  assumes "distinct targets"
  obtains h' out where
    "hsequence d targets h = (h', HAccepted (hd_device d) (hd_id d) (Some (hb_next_seq h)) False # out)"
    "queued_to (numbered_hub d h) (hb_next_seq h) (hd_class d) (set targets) (h', out)"
proof -
  let ?h1 = "numbered_hub d h"
  let ?p = "foldl (queue_item (hb_next_seq h) (hd_class d)) (?h1, []) targets"
  have "queued_to ?h1 (hb_next_seq h) (hd_class d) (set targets) ?p"
    using assms by (rule foldl_inv_distinct) (simp_all add: queue_item_step, simp add: queued_to_def same_hub_def)
  moreover have "hsequence d targets h = (fst ?p, HAccepted (hd_device d) (hd_id d) (Some (hb_next_seq h)) False # snd ?p)"
    using queue_items_out [of "hb_next_seq h" "hd_class d" ?h1 "[HAccepted (hd_device d) (hd_id d) (Some (hb_next_seq h)) False]" "[]" targets]
    by (simp add: hsequence_def numbered_hub_def Let_def case_prod_beta')
  ultimately show ?thesis
    using that [of "fst ?p" "snd ?p"] by simp
qed

section \<open>The invariant\<close>

definition queue_good :: "int \<Rightarrow> int list \<Rightarrow> bool" where
  "queue_good n q \<longleftrightarrow> sorted_wrt (<) q \<and> (\<forall>s \<in> set q. s < n)"

definition hub_ok :: "hub \<Rightarrow> bool" where
  "hub_ok h \<longleftrightarrow> (\<forall>i. queue_good (hb_next_seq h) (pq h i) \<and> queue_good (hb_next_seq h) (wq h i))
     \<and> (\<forall>dg s. dget (hb_digests h) dg = Some s \<longrightarrow> s < hb_next_seq h)
     \<and> (\<forall>s c. dget (hb_seq_class h) s = Some c \<longrightarrow> c \<noteq> ''welcome'') \<and> distinct (dkeys (hb_roster h))"

text \<open>A numbered item is sent only as the head of its queue, never to an identity whose welcome is unacknowledged.\<close>

fun head_sent :: "hub \<Rightarrow> hout \<Rightarrow> bool" where
  "head_sent h (HFanout i (Some s) cls) \<longleftrightarrow>
     (if cls = ''welcome'' then \<exists>qs. wq h i = s # qs else i \<notin> hb_unregistered h \<and> (\<exists>qs. pq h i = s # qs))"
| "head_sent h _ \<longleftrightarrow> True"

definition sends_heads :: "hub \<times> hout list \<Rightarrow> bool" where
  "sends_heads p \<longleftrightarrow> hub_ok (fst p) \<and> list_all (head_sent (fst p)) (snd p)"

fun hevent_ok :: "hevent \<Rightarrow> bool" where
  "hevent_ok (HDeposit d) \<longleftrightarrow> (\<forall>e roster. hd_view d = Some (e, roster) \<longrightarrow> distinct (dkeys roster))"
| "hevent_ok _ \<longleftrightarrow> True"

lemma queue_good_Nil [simp]: "queue_good n []"
  by (simp add: queue_good_def)

lemma queue_good_snoc [simp]: "queue_good n q \<Longrightarrow> queue_good (n + 1) (q @ [n])"
  by (auto simp: queue_good_def sorted_wrt_append)

lemma queue_good_later: "queue_good n q \<Longrightarrow> n \<le> m \<Longrightarrow> queue_good m q"
  by (auto simp: queue_good_def)

lemma queue_good_next [intro]: "queue_good n q \<Longrightarrow> queue_good (n + 1) q"
  by (erule queue_good_later) simp

lemma queue_good_tl: "queue_good n (s # q) \<Longrightarrow> queue_good n q"
  by (auto simp: queue_good_def)

lemma hub_ok_queues: "hub_ok h \<Longrightarrow> same_hub h h' \<Longrightarrow> (\<And>i. queue_good (hb_next_seq h) (pq h' i))
    \<Longrightarrow> (\<And>i. queue_good (hb_next_seq h) (wq h' i)) \<Longrightarrow> hub_ok h'"
  by (simp add: hub_ok_def same_hub_def)

lemma distinct_members: "hub_ok h \<Longrightarrow> distinct (members h)"
  by (simp add: hub_ok_def members_def dsorted_def)

lemma hub_ok_numbered: "hub_ok h \<Longrightarrow> hd_class d \<noteq> ''welcome'' \<Longrightarrow> hub_ok (numbered_hub d h)"
  by (auto simp: hub_ok_def numbered_hub_def intro: less_imp_le)

lemma hsequence_heads:
  assumes "hub_ok h" "hd_class d \<noteq> ''welcome''" "distinct targets"
  shows "sends_heads (hsequence d targets h)"
proof -
  let ?n = "hb_next_seq h" and ?h1 = "numbered_hub d h"
  obtain h' out where seq: "hsequence d targets h = (h', HAccepted (hd_device d) (hd_id d) (Some ?n) False # out)"
    and q: "queued_to ?h1 ?n (hd_class d) (set targets) (h', out)"
    using hsequence_spec [OF assms(3)] by blast
  have same: "same_hub ?h1 h'" "hb_welcomes h' = hb_welcomes h" "hb_unregistered h' = hb_unregistered h"
    "\<And>i. pq h' i = (if i \<in> set targets then pq h i @ [?n] else pq h i)"
    using q by (auto simp: queued_to_def same_hub_def numbered_hub_def)
  have old: "queue_good ?n (pq h i)" "queue_good ?n (wq h i)" for i
    using assms(1) by (simp_all add: hub_ok_def)
  have "hub_ok h'"
  proof (rule hub_ok_queues [OF hub_ok_numbered [OF assms(1,2)] same(1)])
    show "queue_good (hb_next_seq ?h1) (pq h' i)" "queue_good (hb_next_seq ?h1) (wq h' i)" for i
      using old by (auto simp: same(2,4) numbered_hub_def)
  qed
  moreover have "head_sent h' e" if "e \<in> set out" for e
    using q that assms(2) same(3,4) by (auto simp: queued_to_def numbered_hub_def)
  ultimately show ?thesis
    by (simp add: seq sends_heads_def list_all_iff)
qed

section \<open>Every event\<close>

lemma sends_nothing [simp]: "sends_heads (h, herror d r) = hub_ok h" "sends_heads (h, []) = hub_ok h"
  by (simp_all add: sends_heads_def herror_def)

lemma distinct_remove_leaf: "distinct (dkeys r) \<Longrightarrow> distinct (dkeys (remove_leaf r x))"
  by (simp add: remove_leaf_def Let_def dict.distinct_keys_put dict.distinct_keys_del split: option.split)

lemma distinct_add_leaf: "distinct (dkeys r) \<Longrightarrow> distinct (dkeys (add_leaf r x))"
  by (simp add: add_leaf_def dict.distinct_keys_put)

lemma distinct_applied: "distinct (dkeys r) \<Longrightarrow> distinct (dkeys (foldl add_leaf (foldl remove_leaf r rs) xs))"
  by (intro foldl_inv [where P = "\<lambda>r. distinct (dkeys r)"] distinct_add_leaf distinct_remove_leaf)

text \<open>The numbered items a commit sends go to identities of the roster before it, which are not held back by it.\<close>

lemma apply_commit_heads:
  assumes "hub_ok h" "hd_class d \<noteq> ''welcome''"
  shows "sends_heads (apply_commit d cm h)"
proof -
  let ?n = "hb_next_seq h" and ?h1 = "numbered_hub d h"
  let ?new = "set (gained (hb_roster h) cm) - set (dkeys (hb_roster h))"
  obtain h1 out where seq: "hsequence d (members h) h = (h1, HAccepted (hd_device d) (hd_id d) (Some ?n) False # out)"
    and q: "queued_to ?h1 ?n (hd_class d) (set (members h)) (h1, out)"
    using hsequence_spec [OF distinct_members [OF assms(1)]] by blast
  have ok1: "sends_heads (h1, HAccepted (hd_device d) (hd_id d) (Some ?n) False # out)"
    using hsequence_heads [OF assms distinct_members [OF assms(1)]] by (simp add: seq)
  define h2 where "h2 = h1\<lparr>hb_roster := foldl add_leaf (foldl remove_leaf (hb_roster h1) (cm_removes cm)) (cm_adds cm),
      hb_epoch := hb_epoch h1 + 1,
      hb_moved_to := (case cm_moves_to cm of Some m \<Rightarrow> if m = '''' then hb_moved_to h1 else Some m | None \<Rightarrow> hb_moved_to h1)\<rparr>"
  define h3 where "h3 = (if cm_external cm then h2 else h2\<lparr>hb_unregistered := hb_unregistered h2 \<union> ?new\<rparr>)"
  have fan: "\<exists>i \<in> set (dkeys (hb_roster h)). e = HFanout i (Some ?n) (hd_class d)" if "e \<in> set out" for e
    using q that by (auto simp: queued_to_def members_def)
  have n: "hb_next_seq h3 = ?n + 1" "hb_welcomes h3 = hb_welcomes h"
    using q by (auto simp: h3_def h2_def queued_to_def same_hub_def numbered_hub_def)
  have ok3: "hub_ok h3"
    using ok1 distinct_applied [of "hb_roster h1"] by (auto simp: sends_heads_def hub_ok_def h3_def h2_def)
  have sent3: "head_sent h3 e" if e: "e \<in> set out" for e
  proof -
    obtain i where i: "i \<in> set (dkeys (hb_roster h))" "e = HFanout i (Some ?n) (hd_class d)" using fan [OF e] by blast
    moreover have "head_sent h1 e" using ok1 e by (simp add: sends_heads_def list_all_iff)
    ultimately show ?thesis using assms(2) by (simp add: h3_def h2_def)
  qed
  let ?acc = "HAccepted (hd_device d) (hd_id d) (Some ?n) False # out"
  show ?thesis
  proof (cases "cm_external cm")
    case True
    then have "apply_commit d cm h = (h3, ?acc)"
      by (simp add: apply_commit_def seq h3_def h2_def Let_def)
    then show ?thesis
      using ok3 sent3 by (simp add: sends_heads_def list_all_iff)
  next
    case False
    let ?p = "foldl (queue_welcome ?n) (h3, []) (gained (hb_roster h) cm)"
    have "apply_commit d cm h = foldl (queue_welcome ?n) (h3, ?acc) (gained (hb_roster h) cm)"
      using False unfolding apply_commit_def seq h3_def h2_def Let_def by simp
    then have eq: "apply_commit d cm h = (fst ?p, ?acc @ snd ?p)"
      using queue_welcomes_out [of ?n h3 ?acc "[]" "gained (hb_roster h) cm"]
      by (simp add: case_prod_beta' Let_def)
    have "welcomed_to h3 ?n (set (gained (hb_roster h) cm)) ?p"
      by (rule foldl_inv_distinct) (simp_all add: queue_welcome_step gained_def, simp add: welcomed_to_def same_hub_def)
    then have w: "same_hub h3 (fst ?p)" "hb_pending (fst ?p) = hb_pending h3"
        "\<And>i. wq (fst ?p) i = (if i \<in> set (gained (hb_roster h) cm) then wq h3 i @ [?n] else wq h3 i)"
        "\<And>e. e \<in> set (snd ?p) \<Longrightarrow> \<exists>i \<in> set (gained (hb_roster h) cm). e = HFanout i (Some ?n) ''welcome'' \<and> wq h3 i = []"
      by (auto simp: welcomed_to_def)
    have "hub_ok (fst ?p)"
    proof (rule hub_ok_queues [OF ok3 w(1)])
      show "queue_good (hb_next_seq h3) (pq (fst ?p) i)" for i
        using ok3 by (simp add: w(2) hub_ok_def)
      have "queue_good ?n (wq h i)" for i using assms(1) by (simp add: hub_ok_def)
      then show "queue_good (hb_next_seq h3) (wq (fst ?p) i)" for i
        by (auto simp: w(3) n)
    qed
    moreover have "head_sent (fst ?p) e" if "e \<in> set out" for e
      using sent3 [OF that] fan [OF that] w(1,2) assms(2) by (auto simp: same_hub_def)
    moreover have "head_sent (fst ?p) e" if "e \<in> set (snd ?p)" for e
      using w(3,4) that by force
    ultimately show ?thesis
      unfolding eq by (simp add: sends_heads_def list_all_iff ball_Un)
  qed
qed

lemma group_info_sends: "hub_ok h \<Longrightarrow> sends_heads (h, HAccepted a b None False # map (\<lambda>i. HFanout i None ''group-info'') xs)"
  by (simp add: sends_heads_def list_all_iff)

lemma hub_ok_info [simp]: "hub_ok (h\<lparr>hb_group_info := b\<rparr>) = hub_ok h"
  by (simp add: hub_ok_def)

lemma hreturned_heads:
  assumes "hub_ok h" "hevent_ok (HDeposit d)" shows "sends_heads (hreturned d n h)"
proof (cases "hd_view d")
  case (Some v)
  obtain e roster where v: "v = (e, roster)" by (cases v)
  let ?h = "h\<lparr>hb_moved_to := None, hb_epoch := e, hb_roster := map (\<lambda>(i, ds). (i, set ds)) roster, hb_next_seq := n + 1, hb_group_info := True\<rparr>"
  have "hub_ok ?h" if "hb_next_seq h \<le> n"
  proof -
    have "queue_good (n + 1) q" if "queue_good (hb_next_seq h) q" for q
      using that \<open>hb_next_seq h \<le> n\<close> by (intro queue_good_later [OF that]) simp
    then show ?thesis
      using assms Some v that by (auto simp: hub_ok_def comp_def case_prod_beta') (meson less_imp_le order.trans)
  qed
  then show ?thesis
    using assms(1) by (auto simp: hreturned_def Some v Let_def group_info_sends)
qed (use assms in \<open>simp add: hreturned_def\<close>)

lemma hordered_heads: "hub_ok h \<Longrightarrow> hd_class d \<noteq> ''welcome'' \<Longrightarrow> sends_heads (hordered d h)"
  by (simp add: hordered_def hsequence_heads distinct_members apply_commit_heads split: option.split)

lemma hdeposit_heads:
  assumes "hub_ok h" "hevent_ok (HDeposit d)" shows "sends_heads (hdeposit d h)"
proof -
  have "sends_heads (h, map HForward xs)" "sends_heads (h, [HAccepted a b c True])" for xs a b c
    using assms(1) by (simp_all add: sends_heads_def list_all_iff)
  then show ?thesis
    using assms hreturned_heads hordered_heads group_info_sends
    by (simp add: hdeposit_def split: option.split)
qed

lemma touch_clock_simps [simp]: "hb_pending (touch_clock i h) = hb_pending h" "hb_welcomes (touch_clock i h) = hb_welcomes h"
  "hb_unregistered (touch_clock i h) = hb_unregistered h" "hb_seq_class (touch_clock i h) = hb_seq_class h"
  "hub_ok (touch_clock i h) = hub_ok h" "class_of (touch_clock i h) = class_of h"
  by (simp_all add: touch_clock_def hub_ok_def class_of_def fun_eq_iff)

lemma class_not_welcome: "hub_ok h \<Longrightarrow> class_of h s \<noteq> ''welcome''"
  by (simp add: hub_ok_def class_of_def dget_or_def split: option.split)

lemma send_next_heads: assumes "hub_ok h" shows "sends_heads (send_next i cls h)"
proof (cases "cls = ''welcome''")
  case True
  have ok: "hub_ok (h\<lparr>hb_unregistered := u\<rparr>)" for u using assms by (simp add: hub_ok_def)
  show ?thesis
  proof (cases "wq h i")
    case Nil
    then show ?thesis
      using True assms ok class_not_welcome [OF assms]
      by (cases "pq h i") (simp_all add: send_next_def sends_heads_def Let_def)
  next
    case (Cons s qs)
    then show ?thesis using True assms by (simp add: send_next_def sends_heads_def)
  qed
next
  case False
  then show ?thesis
    using assms class_not_welcome [OF assms] by (cases "pq h i") (simp_all add: send_next_def sends_heads_def Let_def)
qed

lemma hack_heads: assumes "hub_ok h" shows "sends_heads (hack i seq cls h)"
proof (cases "if cls = ''welcome'' then wq h i else pq h i")
  case Nil
  then show ?thesis using assms by (cases "cls = ''welcome''") (simp_all add: hack_def)
next
  case (Cons q qs)
  have "queue_good (hb_next_seq h) (if cls = ''welcome'' then wq h i else pq h i)"
    using assms by (simp add: hub_ok_def)
  then have "queue_good (hb_next_seq h) qs" unfolding Cons by (rule queue_good_tl)
  then have "hub_ok (if cls = ''welcome'' then h\<lparr>hb_welcomes := dset i qs (hb_welcomes h)\<rparr>
      else h\<lparr>hb_pending := dset i qs (hb_pending h)\<rparr>)"
    using assms by (simp add: hub_ok_def)
  then show ?thesis
    using assms Cons by (cases "cls = ''welcome''") (simp_all add: hack_def send_next_heads)
qed

lemma drop_queues_ok: "hub_ok (fst p) \<Longrightarrow> list_all (\<lambda>e. \<not> (\<exists>i s c. e = HFanout i s c)) (snd p) \<Longrightarrow>
    hub_ok (fst (drop_queues p i)) \<and> list_all (\<lambda>e. \<not> (\<exists>i s c. e = HFanout i s c)) (snd (drop_queues p i))"
  by (cases p) (simp add: drop_queues_def hub_ok_def)

lemma hadvance_heads: assumes "hub_ok h" shows "sends_heads (hadvance n h)"
proof -
  let ?P = "\<lambda>p :: hub \<times> hout list. hub_ok (fst p) \<and> list_all (\<lambda>e. \<not> (\<exists>i s c. e = HFanout i s c)) (snd p)"
  have "?P (h\<lparr>hb_now := m\<rparr>, [])" for m
    using assms by (simp add: hub_ok_def)
  then have "?P (foldl drop_queues (h\<lparr>hb_now := m\<rparr>, []) xs)" for m xs
    by (rule foldl_inv [where P = ?P]) (rule drop_queues_ok, simp_all only:)
  moreover have "head_sent h' e" if "\<not> (\<exists>i s c. e = HFanout i s c)" for h' e
    using that by (cases e) auto
  ultimately show ?thesis
    by (auto simp: hadvance_def Let_def sends_heads_def list_all_iff)
qed

lemma heads_in: "(i, q) \<in> set (heads qs) \<Longrightarrow> \<exists>r. dget_or qs i [] = q # r"
  by (auto simp: heads_def List.map_filter_def split: list.splits)

lemma hrestart_heads: assumes "hub_ok h" shows "sends_heads (hrestart h)"
  using assms class_not_welcome [OF assms] heads_in
  by (fastforce simp: hrestart_def sends_heads_def list_all_iff)

lemma hub_step_heads: "hub_ok h \<Longrightarrow> hevent_ok e \<Longrightarrow> sends_heads (hub_step h e)"
  by (cases e) (simp_all add: hadvance_heads hack_heads hrestart_heads hdeposit_heads del: hevent_ok.simps)

definition hub_next :: "hub \<Rightarrow> hevent \<Rightarrow> hub option" where
  "hub_next h e = Some (fst (hub_step h e))"

lemma init_hub_ok: "distinct (dkeys roster) \<Longrightarrow> hub_ok (init_hub now kind owner epoch n roster r)"
  by (simp add: hub_ok_def init_hub_def dget_or_def comp_def case_prod_beta')

interpretation hub: total_machine hub_next hevent_ok hub_ok
proof unfold_locales
  show "hub_ok s'" if "hub_ok s" "hevent_ok e" "hub_next s e = Some s'" for s e s'
    using hub_step_heads [OF that(1,2)] that(3) by (auto simp: hub_next_def sends_heads_def)
qed (simp add: hub_next_def)

section \<open>What a numbered deposit does\<close>

definition numbers :: "deposit \<Rightarrow> hub \<Rightarrow> hub \<times> hout list \<Rightarrow> bool" where
  "numbers d h p \<longleftrightarrow> hb_next_seq (fst p) = hb_next_seq h + 1 \<and> hb_digests (fst p) = dset (hd_digest d) (hb_next_seq h) (hb_digests h)
     \<and> HAccepted (hd_device d) (hd_id d) (Some (hb_next_seq h)) False \<in> set (snd p)
     \<and> (\<forall>e \<in> set (snd p). e = HAccepted (hd_device d) (hd_id d) (Some (hb_next_seq h)) False
          \<or> (\<exists>i c. e = HFanout i (Some (hb_next_seq h)) c))"

lemma hsequence_numbers:
  assumes "distinct targets" shows "numbers d h (hsequence d targets h)" "hb_epoch (fst (hsequence d targets h)) = hb_epoch h"
proof -
  obtain h' out where "hsequence d targets h = (h', HAccepted (hd_device d) (hd_id d) (Some (hb_next_seq h)) False # out)"
    "queued_to (numbered_hub d h) (hb_next_seq h) (hd_class d) (set targets) (h', out)"
    using hsequence_spec [OF assms] by blast
  then show "numbers d h (hsequence d targets h)" "hb_epoch (fst (hsequence d targets h)) = hb_epoch h"
    by (auto simp: numbers_def queued_to_def same_hub_def numbered_hub_def)
qed

lemma queue_welcome_numbers:
  "numbers d h p \<Longrightarrow> numbers d h (queue_welcome (hb_next_seq h) p i)"
  "hb_epoch (fst (queue_welcome n p i)) = hb_epoch (fst p)"
  by (cases p, auto simp: numbers_def queue_welcome_def Let_def)+

lemma apply_commit_numbers:
  assumes "hub_ok h" shows "numbers d h (apply_commit d cm h)" "hb_epoch (fst (apply_commit d cm h)) = hb_epoch h + 1"
proof -
  note s = hsequence_numbers [OF distinct_members [OF assms], of d h]
  obtain h1 out where h1: "hsequence d (members h) h = (h1, out)" by (cases "hsequence d (members h) h")
  let ?Q = "\<lambda>p. numbers d h p \<and> hb_epoch (fst p) = hb_epoch h + 1"
  define h2 where "h2 = h1\<lparr>hb_roster := foldl add_leaf (foldl remove_leaf (hb_roster h1) (cm_removes cm)) (cm_adds cm),
      hb_epoch := hb_epoch h1 + 1,
      hb_moved_to := (case cm_moves_to cm of Some m \<Rightarrow> if m = '''' then hb_moved_to h1 else Some m | None \<Rightarrow> hb_moved_to h1)\<rparr>"
  define h3 where "h3 = h2\<lparr>hb_unregistered := hb_unregistered h2 \<union> (set (gained (hb_roster h) cm) - set (dkeys (hb_roster h)))\<rparr>"
  have 2: "?Q (h2, out)" "?Q (h3, out)"
    using s by (simp_all add: h1 numbers_def h2_def h3_def)
  have "apply_commit d cm h = (if cm_external cm then (h2, out) else foldl (queue_welcome (hb_next_seq h)) (h3, out) (gained (hb_roster h) cm))"
    by (simp add: apply_commit_def h1 h2_def h3_def Let_def)
  moreover have "?Q (foldl (queue_welcome (hb_next_seq h)) (h3, out) xs)" for xs
    by (rule foldl_inv [where P = ?Q, OF 2(2)]) (simp add: queue_welcome_numbers)
  ultimately have "?Q (apply_commit d cm h)" using 2(1) by simp
  then show "numbers d h (apply_commit d cm h)" "hb_epoch (fst (apply_commit d cm h)) = hb_epoch h + 1" by simp_all
qed

text \<open>A deposit is refused with the state as it was, answered with the number it has, given a number, or unnumbered.\<close>

definition unnumbered :: "hout list \<Rightarrow> bool" where
  "unnumbered out \<longleftrightarrow> (\<forall>a b s dup. HAccepted a b (Some s) dup \<notin> set out)"

lemma unnumbered_simps [simp]: "unnumbered (herror d r)" "unnumbered []" "unnumbered (map HForward xs)"
  "unnumbered (HAccepted a b None dup # map (\<lambda>i. HFanout i None c) xs)"
  by (auto simp: unnumbered_def herror_def)

lemma hordered_numbers: assumes "hub_ok h" shows "unnumbered (snd (hordered d h)) \<or> numbers d h (hordered d h)"
  using hsequence_numbers(1) [OF distinct_members [OF assms], of d h] apply_commit_numbers(1) [OF assms]
  by (simp add: hordered_def split: option.split)

lemma hreturned_unnumbered: "unnumbered (snd (hreturned d n h))"
  by (simp add: hreturned_def Let_def split: option.split)

lemma hdeposit_cases: assumes "hub_ok h"
  shows "unnumbered (snd (hdeposit d h)) \<or> numbers d h (hdeposit d h)
    \<or> (\<exists>s. dget (hb_digests h) (hd_digest d) = Some s \<and> hdeposit d h = (h, [HAccepted (hd_device d) (hd_id d) (Some s) True]))"
  using hordered_numbers [OF assms, of d] by (simp add: hdeposit_def hreturned_unnumbered split: option.split)

lemma accepted_deposit:
  assumes "hub_ok h" "HAccepted dev i (Some s) dup \<in> set (snd (hdeposit d h))"
  shows "if dup then fst (hdeposit d h) = h \<and> dget (hb_digests h) (hd_digest d) = Some s
    else numbers d h (hdeposit d h) \<and> s = hb_next_seq h"
  using hdeposit_cases [OF assms(1), of d]
proof (elim disjE exE conjE)
  assume "unnumbered (snd (hdeposit d h))"
  then show ?thesis using assms(2) by (simp add: unnumbered_def)
next
  assume "numbers d h (hdeposit d h)"
  then show ?thesis using assms(2) by (auto simp: numbers_def)
qed (use assms(2) in auto)

section \<open>A group\<close>

text \<open>A run the witnesses use: in a group of Alice's and Bob's devices both commit in the same epoch.\<close>

definition demo_hub :: hub where
  "demo_hub = init_hub 1000 None None 5 None [(''alice'', [''a1'']), (''bob'', [''b1''])] None"

definition demo_commit :: "string \<Rightarrow> string \<Rightarrow> string \<Rightarrow> string \<Rightarrow> deposit" where
  "demo_commit i who dev digest = \<lparr>hd_id = i, hd_device = dev, hd_identity = who, hd_class = ''handshake'', hd_digest = digest,
     hd_epoch = 5, hd_expires_at = 2000,
     hd_commit = Some \<lparr>cm_external = False, cm_valid = True, cm_adds = [\<lparr>lr_identity = who, lr_device = dev @ ''x''\<rparr>], cm_removes = [],
       cm_moves_to = None\<rparr>, hd_handover_seq = None, hd_view = None\<rparr>"

text \<open>The epoch does not go back while no group comes back to the hub with an old one.\<close>

fun returns_after :: "int \<Rightarrow> hevent \<Rightarrow> bool" where
  "returns_after n (HDeposit d) \<longleftrightarrow> (\<forall>e roster. hd_view d = Some (e, roster) \<longrightarrow> n < e)"
| "returns_after n _ \<longleftrightarrow> True"

lemma hordered_epoch: "hub_ok h \<Longrightarrow> hb_epoch h \<le> hb_epoch (fst (hordered d h))"
  using hsequence_numbers(2) [OF distinct_members, of h d h] apply_commit_numbers(2) [of h d]
  by (simp add: hordered_def split: option.split)

lemma hack_epoch: "hb_epoch (fst (hack i seq cls h)) = hb_epoch h"
  by (simp add: hack_def send_next_def touch_clock_def Let_def split: list.split)

lemma hadvance_epoch: "hb_epoch (fst (hadvance n h)) = hb_epoch h"
proof -
  have "hb_epoch (fst (foldl drop_queues p xs)) = hb_epoch (fst p)" for p xs
    by (induction xs arbitrary: p) (auto simp: drop_queues_def split: prod.splits)
  then show ?thesis by (simp add: hadvance_def Let_def)
qed

lemma hub_step_epoch:
  assumes "hub_ok h" "returns_after n e" "n < hb_epoch h" shows "n < hb_epoch (fst (hub_step h e))"
proof (cases e)
  case (HDeposit d)
  show ?thesis
    using hordered_epoch [OF assms(1), of d] assms(2,3) HDeposit
    by (auto simp: hdeposit_def hreturned_def Let_def split: option.split)
qed (use assms in \<open>simp_all add: hack_epoch hadvance_epoch hrestart_def\<close>)

interpretation past_epoch: machine hub_next "\<lambda>e. hevent_ok e \<and> returns_after n e" "\<lambda>h. hub_ok h \<and> n < hb_epoch h" for n
proof unfold_locales
  show "hub_ok s' \<and> n < hb_epoch s'" if "hub_ok s \<and> n < hb_epoch s" "hevent_ok e \<and> returns_after n e" "hub_next s e = Some s'" for s e s'
    using hub.step_inv [of s e s'] hub_step_epoch [of s n e] that by (auto simp: hub_next_def)
qed

section \<open>Properties\<close>

text \<open>C21: The hub delivers in order, one item at a time. In every reachable state each member's queue is strictly increasing,
  and whatever event comes next, each numbered item it sends is the head of the queue it is sent from: of the welcomes, or
  of the identity's items, and then the identity has acknowledged the welcome that brought it in.\<close>

theorem hub_delivers_in_order:
  assumes "reaches hub_next hevent_ok (init_hub now kind owner epoch n roster r) h" "distinct (dkeys roster)" "hevent_ok e"
    "hub_step h e = (h', out)"
  shows "(\<forall>i. sorted_wrt (<) (pq h' i) \<and> sorted_wrt (<) (wq h' i))
    \<and> (\<forall>i s cls. HFanout i (Some s) cls \<in> set out \<longrightarrow>
         (if cls = ''welcome'' then \<exists>qs. wq h' i = s # qs else i \<notin> hb_unregistered h' \<and> (\<exists>qs. pq h' i = s # qs)))"
proof -
  have "hub_ok h" by (rule hub.reaches_inv [OF assms(1) init_hub_ok [OF assms(2)]])
  then have s: "sends_heads (h', out)" using hub_step_heads [OF _ assms(3)] assms(4) by metis
  then have "sorted_wrt (<) (pq h' i) \<and> sorted_wrt (<) (wq h' i)" for i
    by (simp add: sends_heads_def hub_ok_def queue_good_def)
  moreover have "head_sent h' (HFanout i (Some m) cls)" if "HFanout i (Some m) cls \<in> set out" for i m cls
    using s that by (auto simp: sends_heads_def list_all_iff)
  ultimately show ?thesis by simp
qed

theorem hub_delivers_in_order_witness:
  "\<forall>i. sorted_wrt (<) (pq (fst (hub_step demo_hub (HDeposit (demo_commit ''d1'' ''alice'' ''a1'' ''x1'')))) i)"
proof -
  have "reaches hub_next hevent_ok (init_hub 1000 None None 5 None [(''alice'', [''a1'']), (''bob'', [''b1''])] None) demo_hub"
    by (simp add: demo_hub_def reaches_refl)
  then show ?thesis
    using hub_delivers_in_order [of 1000 None None 5 None "[(''alice'', [''a1'']), (''bob'', [''b1''])]" None demo_hub
        "HDeposit (demo_commit ''d1'' ''alice'' ''a1'' ''x1'')", OF _ _ _ prod.collapse [symmetric]]
    by (simp add: demo_commit_def)
qed

text \<open>C22: One commit per epoch, for good. A commit that is accepted as new has the group's epoch and moves the group to the next.
  From then on, whatever happens (the group may leave the hub and come back, as long as the GroupInfo that brings it back
  is of a later epoch), no other handshake of that epoch or an earlier one is taken, and it changes nothing: it is answered
  \<open>mailbox.unknown-group\<close> while the group is elsewhere; as the duplicate it is, if its digest was deposited before;
  \<open>policy.blocked\<close> where its sender may not deposit; \<open>mailbox.commit-conflict\<close> if it is a commit and the group is just one
  epoch further; and \<open>mailbox.stale-epoch\<close> otherwise.\<close>

theorem one_commit_per_epoch:
  assumes "reaches hub_next hevent_ok (init_hub now kind owner epoch n roster r) h" "distinct (dkeys roster)"
    "hub_step h (HDeposit d) = (h', out)" "HAccepted dev i (Some s) False \<in> set out" "hd_class d = ''handshake''" "hd_commit d \<noteq> None"
  shows "hd_epoch d = hb_epoch h \<and> hb_epoch h' = hb_epoch h + 1
    \<and> (\<forall>t d2. reaches hub_next (\<lambda>e. hevent_ok e \<and> returns_after (hd_epoch d) e) h' t \<and> hd_class d2 = ''handshake'' \<and> hd_epoch d2 \<le> hd_epoch d
        \<longrightarrow> hub_step t (HDeposit d2) = (t, [
          if hb_moved_to t \<noteq> None then HError (hd_device d2) (hd_id d2) ''mailbox.unknown-group''
          else case dget (hb_digests t) (hd_digest d2) of
            Some seq \<Rightarrow> HAccepted (hd_device d2) (hd_id d2) (Some seq) True
          | None \<Rightarrow> HError (hd_device d2) (hd_id d2)
              (if \<not> sender_ok d2 t then ''policy.blocked''
               else if hd_commit d2 \<noteq> None \<and> hd_epoch d2 = hb_epoch t - 1 then ''mailbox.commit-conflict''
               else ''mailbox.stale-epoch'')]))"
proof -
  have ok: "hub_ok h" by (rule hub.reaches_inv [OF assms(1) init_hub_ok [OF assms(2)]])
  obtain cm where cm: "hd_commit d = Some cm" using assms(6) by blast
  have out: "\<not> unnumbered out" using assms(4) by (auto simp: unnumbered_def)
  have nd: "out \<noteq> [HAccepted (hd_device d) (hd_id d) (Some t) True]" for t using assms(4) by auto
  have ord: "hordered d h = (h', out)"
    using assms(3,5) out nd by (auto simp: hdeposit_def split: if_splits option.splits)
  then have "hd_epoch d = hb_epoch h \<and> apply_commit d cm h = (h', out)"
    using assms(5) cm out by (auto simp: hordered_def split: if_splits)
  then have next_epoch: "hd_epoch d = hb_epoch h \<and> hb_epoch h' = hb_epoch h + 1"
    using apply_commit_numbers(2) [OF ok, of d cm] by simp
  have "hub_ok h'" using hordered_heads [OF ok, of d] assms(5) ord by (simp add: sends_heads_def)
  then have "hd_epoch d < hb_epoch t" if "reaches hub_next (\<lambda>e. hevent_ok e \<and> returns_after (hd_epoch d) e) h' t" for t
    using past_epoch.reaches_inv [OF that] next_epoch by simp
  then show ?thesis
    using next_epoch by (fastforce simp: hdeposit_def hordered_def herror_def split: option.split)
qed

text \<open>Bob commits in the same epoch as Alice, a minute later.\<close>

theorem one_commit_per_epoch_witness:
  "hub_step (fst (hadvance 60 (fst (hub_step demo_hub (HDeposit (demo_commit ''d1'' ''alice'' ''a1'' ''x1''))))))
      (HDeposit (demo_commit ''d2'' ''bob'' ''b1'' ''x2''))
     = (fst (hadvance 60 (fst (hub_step demo_hub (HDeposit (demo_commit ''d1'' ''alice'' ''a1'' ''x1''))))),
        [HError ''b1'' ''d2'' ''mailbox.commit-conflict''])"
proof -
  let ?d = "demo_commit ''d1'' ''alice'' ''a1'' ''x1''" and ?d2 = "demo_commit ''d2'' ''bob'' ''b1'' ''x2''"
  let ?h = "fst (hub_step demo_hub (HDeposit ?d))"
  define t where "t = fst (hadvance 60 ?h)"
  have r: "reaches hub_next hevent_ok (init_hub 1000 None None 5 None [(''alice'', [''a1'']), (''bob'', [''b1''])] None) demo_hub"
    by (simp add: demo_hub_def reaches_refl)
  have "HAccepted ''a1'' ''d1'' (Some 1) False \<in> set (snd (hub_step demo_hub (HDeposit ?d)))" by code_simp
  note p = one_commit_per_epoch [OF r _ prod.collapse [symmetric] this]
  have "reaches hub_next (\<lambda>e. hevent_ok e \<and> returns_after (hd_epoch ?d) e) ?h t"
    by (rule reaches_step [OF reaches_refl, where e = "HAdvance 60"]) (simp_all add: hub_next_def t_def)
  moreover have "hb_moved_to t = None \<and> dget (hb_digests t) (hd_digest ?d2) = None \<and> sender_ok ?d2 t \<and> hb_epoch t = 6" unfolding t_def by code_simp
  ultimately show ?thesis
    unfolding t_def [symmetric] using p by (simp add: demo_commit_def del: hub_step.simps)
qed

text \<open>A number is given once. When a deposit is accepted with a number, either it is new, its number is the next one,
  no item had it before and the digest is recorded under it; or it is marked a duplicate, it gets the number recorded for
  the digest, and the state does not change at all.\<close>

theorem deposit_numbered_once:
  assumes "reaches hub_next hevent_ok (init_hub now kind owner epoch n roster r) h" "distinct (dkeys roster)"
    "hub_step h (HDeposit d) = (h', out)" "HAccepted dev i (Some s) dup \<in> set out"
  shows "if dup then h' = h \<and> dget (hb_digests h) (hd_digest d) = Some s
    else s = hb_next_seq h \<and> hb_next_seq h' = s + 1 \<and> dget (hb_digests h') (hd_digest d) = Some s
      \<and> (\<forall>digest t. dget (hb_digests h) digest = Some t \<longrightarrow> t < s)"
proof -
  have ok: "hub_ok h" by (rule hub.reaches_inv [OF assms(1) init_hub_ok [OF assms(2)]])
  have eq: "hdeposit d h = (h', out)" using assms(3) by simp
  show ?thesis
    using accepted_deposit [OF ok, of dev i s dup d] assms(4) ok unfolding eq
    by (auto simp: numbers_def hub_ok_def)
qed

theorem deposit_numbered_once_witness:
  "hb_next_seq (fst (hub_step demo_hub (HDeposit (demo_commit ''d1'' ''alice'' ''a1'' ''x1'')))) = 2"
proof -
  let ?d = "demo_commit ''d1'' ''alice'' ''a1'' ''x1''"
  have r: "reaches hub_next hevent_ok (init_hub 1000 None None 5 None [(''alice'', [''a1'']), (''bob'', [''b1''])] None) demo_hub"
    by (simp add: demo_hub_def reaches_refl)
  have "HAccepted ''a1'' ''d1'' (Some 1) False \<in> set (snd (hub_step demo_hub (HDeposit ?d)))" by code_simp
  from deposit_numbered_once [OF r _ prod.collapse [symmetric] this] show ?thesis by simp
qed

end
