(* ===== verification/Mailbox_Model.thy ===== *)
theory Mailbox_Model
  imports Prelude
begin

text \<open>
  The mailbox of an owner, class \<open>Mailbox\<close> of \<^verbatim>\<open>dsipvec/messaging.py\<close>: the items it stores under cursors, the groups it
  is registered for with their hubs, first contact, sync and acknowledgement, KeyPackages, the archive and the quota. A
  call that raises (an empty page of limit 0, no device registered in queue mode) is \<^term>\<open>None\<close>. A cursor is an ASCII
  string; \<open>py_hex\<close> is \<open>int(s, 16)\<close> on it, with the spaces, sign, prefix and underscores Python takes.
\<close>

section \<open>Cursors\<close>

definition hex_digit :: "nat \<Rightarrow> char" where
  "hex_digit d = (if d < 10 then char_of (48 + d) else char_of (87 + d))"

fun show_hex :: "nat \<Rightarrow> nat \<Rightarrow> string" where
  "show_hex 0 n = (if n = 0 then '''' else show_hex 0 (n div 16) @ [hex_digit (n mod 16)])"
| "show_hex (Suc w) n = show_hex w (n div 16) @ [hex_digit (n mod 16)]"

declare show_hex.simps(1) [simp del]

definition cursor :: "int \<Rightarrow> string" where
  "cursor n = ''c:'' @ show_hex 16 (nat n)"

definition hex_value :: "char \<Rightarrow> int option" where
  "hex_value c = (let k = (of_char c :: nat) in
     if k \<in> {48..57} then Some (int k - 48)
     else if k \<in> {97..102} then Some (int k - 87)
     else if k \<in> {65..70} then Some (int k - 55) else None)"

fun py_digits :: "bool \<Rightarrow> int \<Rightarrow> string \<Rightarrow> int option" where
  "py_digits digit acc [] = (if digit then Some acc else None)"
| "py_digits digit acc (c # cs) =
     (if c = CHR ''_'' then (if digit then py_digits False acc cs else None)
      else case hex_value c of Some v \<Rightarrow> py_digits True (16 * acc + v) cs | None \<Rightarrow> None)"

definition py_space :: "char \<Rightarrow> bool" where
  "py_space c \<longleftrightarrow> (of_char c :: nat) \<in> {9..13} \<union> {28..32}"

definition py_strip :: "string \<Rightarrow> string" where
  "py_strip s = rev (dropWhile py_space (rev (dropWhile py_space s)))"

definition py_unsigned :: "string \<Rightarrow> int option" where
  "py_unsigned s = (case s of
     z # x # r \<Rightarrow> if z = CHR ''0'' \<and> (x = CHR ''x'' \<or> x = CHR ''X'')
       then (case r of u # r' \<Rightarrow> if u = CHR ''_'' then py_digits False 0 r' else py_digits False 0 r | [] \<Rightarrow> None)
       else py_digits False 0 s
   | _ \<Rightarrow> py_digits False 0 s)"

definition py_hex :: "string \<Rightarrow> int option" where
  "py_hex s = (case py_strip s of
     c # r \<Rightarrow> if c = CHR ''-'' then map_option uminus (py_unsigned r)
              else if c = CHR ''+'' then py_unsigned r else py_unsigned (c # r)
   | [] \<Rightarrow> None)"

definition cursor_num :: "string \<Rightarrow> int option" where
  "cursor_num c = (if \<not> startswith c ''c:'' \<or> length c \<noteq> 18 then None else py_hex (drop 2 c))"

section \<open>Data\<close>

definition KEY_PACKAGES_PER_DEVICE :: int where "KEY_PACKAGES_PER_DEVICE = 100"
definition ORIGIN_SKEW_S :: int where "ORIGIN_SKEW_S = 300"
definition HANDOVER_WAIT_S :: int where "HANDOVER_WAIT_S = 300"
definition MAILBOX_MODES :: "string list" where "MAILBOX_MODES = [''sync'', ''queue'']"
definition MESSAGE_GRANT_SCOPES :: "string list" where "MESSAGE_GRANT_SCOPES = [''dsip.message'', ''dsip.invite'']"

record mitem =
  mt_cursor :: string
  mt_n :: int
  mt_class :: string
  mt_group :: string
  mt_depositor :: "string option"
  mt_expires_at :: "int option"
  mt_digest :: "string option"
  mt_seq :: "int option"
  mt_size :: int

record previous =
  pv_hub :: string
  pv_through :: int
  pv_since :: int
  pv_released :: "int option"
  pv_late :: "int list"

record mgroup =
  mg_hub :: string
  mg_state :: string
  mg_since :: int
  mg_items :: int
  mg_high_seq :: int
  mg_previous :: "previous option"

record kpstore =
  kp_one_time :: int
  kp_last_resort :: bool

record mgrant =
  gr_from :: "string option"
  gr_to :: "string option"
  gr_scope :: "string list"
  gr_valid_until :: int
  gr_id :: "string option"

record mailbox =
  mb_now :: int
  mb_owner :: string
  mb_serves :: "string set"
  mb_devices :: "string list"
  mb_mode :: string
  mb_admit :: string
  mb_pending_ttl :: int
  mb_pending_max :: int
  mb_quota :: "int option"
  mb_handover_wait :: int
  mb_groups :: "(string, mgroup) dict"
  mb_kp :: "(string, kpstore) dict"
  mb_revoked :: "string set"
  mb_items :: "mitem list"
  mb_counter :: int
  mb_acks :: "(string, int) dict"
  mb_bound :: "string set"
  mb_archived :: "(string \<times> int, string) dict"
  mb_intro_limit :: int
  mb_intro_window :: int
  mb_inbox_cap :: int
  mb_intro_log :: "(string, int list) dict"
  mb_introductions :: "string list"

datatype mout =
    MError string string string "int option"
  | MAccepted string string "string option" bool
  | MPush string "string option"
  | MHandoverExpired string string "int list"
  | MForward string string
  | MItems string string "string list" "string option"
  | MClose string
  | MKeyPackages string string "(string \<times> string) list"

section \<open>Helpers\<close>

definition merror :: "string \<Rightarrow> string \<Rightarrow> string \<Rightarrow> mout list" where
  "merror to eid reason = [MError to eid reason None]"

definition grant_ok :: "mailbox \<Rightarrow> mgrant option \<Rightarrow> string option \<Rightarrow> string \<Rightarrow> bool" where
  "grant_ok m grant grantee target = (case grant of
     None \<Rightarrow> False
   | Some g \<Rightarrow> gr_from g = Some target \<and> gr_to g = grantee \<and> set MESSAGE_GRANT_SCOPES \<inter> set (gr_scope g) \<noteq> {}
       \<and> gr_valid_until g > mb_now m \<and> (case gr_id g of None \<Rightarrow> True | Some i \<Rightarrow> i \<notin> mb_revoked m))"

definition used :: "mailbox \<Rightarrow> int" where
  "used m = sum_list (map mt_size (mb_items m))"

definition over_quota :: "mailbox \<Rightarrow> int \<Rightarrow> bool" where
  "over_quota m sz = (case mb_quota m of None \<Rightarrow> False | Some q \<Rightarrow> used m + sz > q)"

text \<open>\<open>_store\<close>: the item is given without its cursor and number; the cursor is the new counter's.\<close>

definition store :: "mitem \<Rightarrow> mailbox \<Rightarrow> mailbox \<times> mout list" where
  "store it m =
    (let kept = (if mt_class it = ''group-info''
                 then filter (\<lambda>x. \<not> (mt_group x = mt_group it \<and> mt_class x = ''group-info'')) (mb_items m) else mb_items m);
         n = mb_counter m + 1
     in (m\<lparr>mb_items := kept @ [it\<lparr>mt_cursor := cursor n, mt_n := n\<rparr>], mb_counter := n\<rparr>,
         map (\<lambda>dv. MPush dv (Some (cursor n)))
           (filter (\<lambda>dv. Some dv \<noteq> mt_depositor it) (sorted_list_of_set (mb_bound m)))))"

definition new_item :: "string \<Rightarrow> string \<Rightarrow> mitem" where
  "new_item cls grp = \<lparr>mt_cursor = '''', mt_n = 0, mt_class = cls, mt_group = grp, mt_depositor = None,
     mt_expires_at = None, mt_digest = None, mt_seq = None, mt_size = 0\<rparr>"

definition new_group :: "string \<Rightarrow> string \<Rightarrow> int \<Rightarrow> mgroup" where
  "new_group hub state now = \<lparr>mg_hub = hub, mg_state = state, mg_since = now, mg_items = 0, mg_high_seq = 0, mg_previous = None\<rparr>"

section \<open>First contact\<close>

record contact_msg =
  fc_from :: string
  fc_id :: string
  fc_kind :: string
  fc_sender :: string
  fc_recipient :: string
  fc_session :: "string option"
  fc_expires_at :: int

text \<open>The budget: each log is pruned and tested in turn; the first that is full gives its retry time.\<close>

fun spend :: "string list \<Rightarrow> mailbox \<Rightarrow> (mailbox \<times> int option) option" where
  "spend [] m = Some (m, None)"
| "spend (k # ks) m =
    (let log = filter (\<lambda>t. t > mb_now m - mb_intro_window m) (dget_or (mb_intro_log m) k []);
         m1 = m\<lparr>mb_intro_log := dset k log (mb_intro_log m)\<rparr>
     in if int (length log) \<ge> mb_intro_limit m
        then (case log of [] \<Rightarrow> None | t # _ \<Rightarrow> Some (m1, Some (t + mb_intro_window m - mb_now m)))
        else spend ks m1)"

definition log_now :: "mailbox \<Rightarrow> string \<Rightarrow> mailbox" where
  "log_now m k = m\<lparr>mb_intro_log := dset k (dget_or (mb_intro_log m) k [] @ [mb_now m]) (mb_intro_log m)\<rparr>"

definition first_contact :: "contact_msg \<Rightarrow> mailbox \<Rightarrow> (mailbox \<times> mout list) option" where
  "first_contact e m =
    (let answers = fc_kind e = ''grant'' \<and> (case fc_session e of None \<Rightarrow> False | Some s \<Rightarrow> s \<in> set (mb_introductions m));
         m0 = (if answers then m\<lparr>mb_introductions := remove1 (the (fc_session e)) (mb_introductions m)\<rparr> else m);
         keys = (if answers then [] else [''sender:'' @ fc_sender e, ''inbox:'' @ fc_recipient e])
     in map_option (\<lambda>(m1, full). case full of
          Some retry \<Rightarrow> (m1, [MError (fc_from e) (fc_id e) ''policy.rate-limited'' (Some retry)])
        | None \<Rightarrow>
            (let m2 = foldl log_now m1 keys;
                 accepted = [MAccepted (fc_from e) (fc_id e) None False]
             in if fc_recipient e \<notin> mb_serves m2 then (m2, accepted)
                else if fc_kind e = ''introduction''
                        \<and> int (length (filter (\<lambda>it. mt_class it = fc_kind e) (mb_items m2))) \<ge> mb_inbox_cap m2
                then (m2, accepted)
                else (let (m3, pushes) = store ((new_item (fc_kind e) '''')\<lparr>mt_expires_at := Some (fc_expires_at e)\<rparr>) m2
                      in (m3, MAccepted (fc_from e) (fc_id e) (Some (cursor (mb_counter m3))) False # pushes)))) (spend keys m0))"

definition madvance :: "int \<Rightarrow> mailbox \<Rightarrow> mailbox" where
  "madvance n m =
    (let now = mb_now m + n;
         fresh = filter (\<lambda>it. case mt_expires_at it of None \<Rightarrow> True | Some t \<Rightarrow> t > now) (mb_items m);
         gone = dkeys (filter (\<lambda>(_, r). mg_state r = ''pending'' \<and> mg_since r + mb_pending_ttl m < now) (mb_groups m))
     in m\<lparr>mb_now := now, mb_groups := filter (\<lambda>(g, _). g \<notin> set gone) (mb_groups m),
          mb_items := filter (\<lambda>it. \<not> (mt_group it \<in> set gone \<and> mt_class it \<noteq> ''archive'')) fresh\<rparr>)"

section \<open>Welcomes and hub deposits\<close>

record origin =
  or_group :: string
  or_issued_at :: int
  or_identity :: string

record welcome_msg =
  we_from :: string
  we_id :: string
  we_recipient :: string
  we_group :: string
  we_hub :: string
  we_adder :: "string option"
  we_via_hub :: bool
  we_origin :: "origin option"
  we_issued_at :: int
  we_successor_of :: "string option"
  we_grant :: "mgrant option"
  we_digest :: "string option"
  we_size :: int

text \<open>Who added the recipient: the connection says so, or for a welcome through the hub its \<open>origin\<close>; \<^term>\<open>None\<close> refuses.\<close>

definition adder_of :: "welcome_msg \<Rightarrow> mailbox \<Rightarrow> string option option" where
  "adder_of e m =
    (if \<not> we_via_hub e then Some (we_adder e)
     else case we_origin e of
       None \<Rightarrow> None
     | Some og \<Rightarrow>
         if or_group og \<noteq> we_group e then None
         else if we_issued_at e - or_issued_at og < - ORIGIN_SKEW_S \<or> we_issued_at e - or_issued_at og > mb_pending_ttl m then None
         else Some (Some (or_identity og)))"

definition held_welcome :: "welcome_msg \<Rightarrow> mailbox \<Rightarrow> mitem option" where
  "held_welcome e m = (if we_digest e = None then None
     else find (\<lambda>it. mt_class it = ''welcome'' \<and> mt_group it = we_group e \<and> mt_digest it = we_digest e) (mb_items m))"

definition mwelcome :: "welcome_msg \<Rightarrow> mailbox \<Rightarrow> mailbox \<times> mout list" where
  "mwelcome e m =
    (if we_recipient e \<notin> mb_serves m then (m, merror (we_from e) (we_id e) ''transport.unknown-recipient'')
     else case adder_of e m of
       None \<Rightarrow> (m, merror (we_from e) (we_id e) ''policy.blocked'')
     | Some adder \<Rightarrow>
         if \<not> (mb_admit m = ''open'' \<or> adder = Some (mb_owner m) \<or> grant_ok m (we_grant e) adder (we_recipient e)
               \<or> (case we_successor_of e of None \<Rightarrow> False | Some g \<Rightarrow> g \<in> set (dkeys (mb_groups m))))
         then (m, merror (we_from e) (we_id e) ''policy.first-contact-required'')
         else case held_welcome e m of
           Some it \<Rightarrow> (m, [MAccepted (we_from e) (we_id e) (Some (mt_cursor it)) True])
         | None \<Rightarrow>
             if over_quota m (we_size e) then (m, merror (we_from e) (we_id e) ''mailbox.quota-exceeded'')
             else
               (let m1 = m\<lparr>mb_groups := dsetdefault (we_group e) (new_group (we_hub e) ''pending'' (mb_now m)) (mb_groups m)\<rparr>;
                    (m2, pushes) = store ((new_item ''welcome'' (we_group e))\<lparr>mt_digest := we_digest e, mt_size := we_size e\<rparr>) m1
                in (m2, MAccepted (we_from e) (we_id e) (Some (cursor (mb_counter m2))) False # pushes)))"

record hubdep_msg =
  hm_from :: string
  hm_id :: string
  hm_recipient :: string
  hm_group :: string
  hm_class :: string
  hm_seq :: "int option"
  hm_expires_at :: "int option"
  hm_size :: int

text \<open>What the handover rules say of a deposit: refused with a reason, or admitted. They may change the registration (the
  wait for the previous hub expired) and announce it; \<open>late\<close> marks an item of the previous hub after the wait.\<close>

datatype admission_result = Refused string | Admitted bool

definition handover :: "hubdep_msg \<Rightarrow> mailbox \<Rightarrow> mgroup option \<times> mout list \<times> admission_result" where
  "handover e m =
    (case dget (mb_groups m) (hm_group e) of
       None \<Rightarrow> (None, [], Refused ''mailbox.unknown-group'')
     | Some reg \<Rightarrow>
       (case mg_previous reg of
          None \<Rightarrow> (Some reg, [], if mg_hub reg \<noteq> hm_from e then Refused ''mailbox.unknown-group'' else Admitted False)
        | Some prev \<Rightarrow>
            if hm_from e = pv_hub prev \<and> mg_hub reg \<noteq> hm_from e then
              (Some reg, [],
               case hm_seq e of
                 None \<Rightarrow> Refused ''mailbox.unknown-group''
               | Some seq \<Rightarrow>
                   if seq > pv_through prev then Refused ''mailbox.unknown-group''
                   else Admitted (case pv_released prev of None \<Rightarrow> False | Some rel \<Rightarrow> seq > rel \<and> seq \<notin> set (pv_late prev)))
            else if mg_hub reg \<noteq> hm_from e then (Some reg, [], Refused ''mailbox.unknown-group'')
            else
              (let waiting = mg_high_seq reg < pv_through prev \<and> pv_released prev = None
               in if waiting \<and> mb_now m - pv_since prev < mb_handover_wait m
                  then (Some reg, [], Refused ''mailbox.unknown-group'')
                  else
                    (let rel = mg_high_seq reg;
                         prev1 = (if waiting then prev\<lparr>pv_released := Some rel, pv_late := []\<rparr> else prev);
                         out = (if waiting then [MHandoverExpired (hm_group e) (pv_hub prev) [rel + 1..pv_through prev]] else [])
                     in (Some (reg\<lparr>mg_previous := Some prev1\<rparr>), out,
                         case hm_seq e of
                           None \<Rightarrow> Admitted False
                         | Some seq \<Rightarrow> if seq \<le> pv_through prev then Refused ''policy.blocked'' else Admitted False)))))"

definition held_seq :: "hubdep_msg \<Rightarrow> int \<Rightarrow> mailbox \<Rightarrow> string option" where
  "held_seq e seq m = map_option mt_cursor
     (find (\<lambda>it. mt_group it = hm_group e \<and> mt_seq it = Some seq \<and> mt_class it \<noteq> ''archive'') (mb_items m))"

text \<open>An admitted item that is not ephemeral: redelivered, refused for room, or stored.\<close>

definition store_hub_item :: "hubdep_msg \<Rightarrow> mgroup \<Rightarrow> bool \<Rightarrow> mout list \<Rightarrow> mailbox \<Rightarrow> mailbox \<times> mout list" where
  "store_hub_item e reg late out m =
    (if (case hm_seq e of None \<Rightarrow> False | Some seq \<Rightarrow> seq \<le> mg_high_seq reg) \<and> \<not> late
     then (m, [MAccepted (hm_from e) (hm_id e) (held_seq e (the (hm_seq e)) m) True])
     else if mg_state reg = ''pending'' \<and> mg_items reg \<ge> mb_pending_max m
     then (m, merror (hm_from e) (hm_id e) ''mailbox.quota-exceeded'')
     else if over_quota m (hm_size e) then (m, out @ merror (hm_from e) (hm_id e) ''mailbox.quota-exceeded'')
     else
       (let reg1 = reg\<lparr>mg_items := mg_items reg + 1\<rparr>;
            reg2 = (case hm_seq e of
                None \<Rightarrow> reg1
              | Some seq \<Rightarrow>
                  if late then reg1\<lparr>mg_previous := map_option (\<lambda>p. p\<lparr>pv_late := pv_late p @ [seq]\<rparr>) (mg_previous reg1)\<rparr>
                  else reg1\<lparr>mg_high_seq := seq\<rparr>);
            (m1, pushes) = store ((new_item (hm_class e) (hm_group e))\<lparr>mt_seq := hm_seq e, mt_size := hm_size e\<rparr>)
              (m\<lparr>mb_groups := dset (hm_group e) reg2 (mb_groups m)\<rparr>)
        in (m1, out @ MAccepted (hm_from e) (hm_id e) (Some (cursor (mb_counter m1))) False # pushes)))"

definition hub_deposit :: "hubdep_msg \<Rightarrow> mailbox \<Rightarrow> mailbox \<times> mout list" where
  "hub_deposit e m =
    (if hm_recipient e \<notin> mb_serves m then (m, merror (hm_from e) (hm_id e) ''transport.unknown-recipient'')
     else
       (case handover e m of
          (None, out, _) \<Rightarrow> (m, merror (hm_from e) (hm_id e) ''mailbox.unknown-group'')
        | (Some reg, out, Refused reason) \<Rightarrow>
            (m\<lparr>mb_groups := dset (hm_group e) reg (mb_groups m)\<rparr>, out @ merror (hm_from e) (hm_id e) reason)
        | (Some reg, out, Admitted late) \<Rightarrow>
            (let m1 = m\<lparr>mb_groups := dset (hm_group e) reg (mb_groups m)\<rparr>
             in if hm_class e = ''ephemeral'' then
                  (m1, if (case hm_expires_at e of None \<Rightarrow> False | Some t \<Rightarrow> t \<le> mb_now m) then out
                       else out @ map (\<lambda>dv. MPush dv None) (sorted_list_of_set (mb_bound m)))
                else store_hub_item e reg late out m1)))"

definition mforward :: "string \<Rightarrow> string \<Rightarrow> string \<Rightarrow> string \<Rightarrow> string \<Rightarrow> mailbox \<Rightarrow> mout list" where
  "mforward device eid identity grp to m =
    (if identity \<noteq> mb_owner m then merror device eid ''policy.blocked''
     else case dget (mb_groups m) grp of
       None \<Rightarrow> merror device eid ''mailbox.unknown-group''
     | Some reg \<Rightarrow> if mg_hub reg \<noteq> to then merror device eid ''mailbox.unknown-group'' else [MForward to eid])"

section \<open>Sync, configuration, archive, KeyPackages\<close>

definition py_take :: "int \<Rightarrow> 'a list \<Rightarrow> 'a list" where
  "py_take n xs = (if n \<ge> 0 then take (nat n) xs else take (length xs - nat (- n)) xs)"

record sync_msg =
  sy_device :: string
  sy_id :: string
  sy_since :: "string option"
  sy_ack_through :: "string option"
  sy_live :: bool
  sy_limit :: "int option"

text \<open>The number a cursor names, unless it is malformed or beyond the counter.\<close>

definition known_cursor :: "mailbox \<Rightarrow> string \<Rightarrow> int option" where
  "known_cursor m c = (case cursor_num c of None \<Rightarrow> None | Some n \<Rightarrow> if n > mb_counter m then None else Some n)"

definition acknowledge :: "string \<Rightarrow> int \<Rightarrow> mailbox \<Rightarrow> mailbox option" where
  "acknowledge dev n m =
    (let m1 = m\<lparr>mb_acks := dset dev (max (dget_or (mb_acks m) dev 0) n) (mb_acks m)\<rparr>
     in if mb_mode m1 \<noteq> ''queue'' then Some m1
        else if mb_devices m1 = [] then None
        else Some (m1\<lparr>mb_items := filter (\<lambda>it. mt_n it > Min (set (map (\<lambda>dv. dget_or (mb_acks m1) dv 0) (mb_devices m1)))) (mb_items m1)\<rparr>))"

definition sync_page :: "sync_msg \<Rightarrow> int \<Rightarrow> mailbox \<Rightarrow> (mailbox \<times> mout list) option" where
  "sync_page e since m =
    (let m1 = (if sy_live e then m\<lparr>mb_bound := insert (sy_device e) (mb_bound m)\<rparr> else m);
         limit = (case sy_limit e of Some l \<Rightarrow> l | None \<Rightarrow> 200);
         avail = filter (\<lambda>it. mt_n it > since) (mb_items m1);
         page = py_take limit avail;
         answer = (\<lambda>nxt. Some (m1, [MItems (sy_device e) (sy_id e) (map mt_cursor page) nxt]))
     in if int (length avail) > limit
        then (if page = [] then None else answer (Some (mt_cursor (last page))))
        else answer None)"

definition msync :: "sync_msg \<Rightarrow> mailbox \<Rightarrow> (mailbox \<times> mout list) option" where
  "msync e m =
    (let bad = Some (m, merror (sy_device e) (sy_id e) ''mailbox.cursor-invalid'')
     in case (case sy_since e of None \<Rightarrow> Some 0 | Some c \<Rightarrow> known_cursor m c) of
          None \<Rightarrow> bad
        | Some since \<Rightarrow>
            (case sy_ack_through e of
               None \<Rightarrow> sync_page e since m
             | Some c \<Rightarrow>
                 (case known_cursor m c of
                    None \<Rightarrow> bad
                  | Some n \<Rightarrow> do { m1 \<leftarrow> acknowledge (sy_device e) n m; sync_page e since m1 })))"

record group_entry =
  ge_group :: string
  ge_state :: string
  ge_hub :: "string option"
  ge_handover_seq :: "int option"

record config_msg =
  cf_device :: string
  cf_id :: string
  cf_mode :: "string option"
  cf_admit :: "string option"
  cf_groups :: "group_entry list"
  cf_revoked_grants :: "string list"
  cf_introductions :: "string list"
  cf_revoked_devices :: "string list"

definition config_group :: "mailbox \<Rightarrow> group_entry \<Rightarrow> mailbox" where
  "config_group m g =
    (if ge_state g = ''left'' then m\<lparr>mb_groups := ddel (ge_group g) (mb_groups m)\<rparr>
     else case dget (mb_groups m) (ge_group g) of
       Some reg \<Rightarrow>
         (let reg1 = reg\<lparr>mg_state := ''joined''\<rparr>;
              reg2 = (case ge_hub g of
                  None \<Rightarrow> reg1
                | Some hub \<Rightarrow>
                    if hub = mg_hub reg1 then reg1
                    else reg1\<lparr>mg_previous := Some \<lparr>pv_hub = mg_hub reg1,
                             pv_through = (case ge_handover_seq g of Some s \<Rightarrow> s | None \<Rightarrow> mg_high_seq reg1),
                             pv_since = mb_now m, pv_released = None, pv_late = []\<rparr>, mg_hub := hub\<rparr>)
          in m\<lparr>mb_groups := dset (ge_group g) reg2 (mb_groups m)\<rparr>)
     | None \<Rightarrow>
         (case ge_hub g of
            None \<Rightarrow> m
          | Some hub \<Rightarrow> m\<lparr>mb_groups := dset (ge_group g) (new_group hub ''joined'' (mb_now m)) (mb_groups m)\<rparr>))"

definition revoke_device :: "mailbox \<times> mout list \<Rightarrow> string \<Rightarrow> mailbox \<times> mout list" where
  "revoke_device acc d = (case acc of (m, out) \<Rightarrow>
     (m\<lparr>mb_bound := mb_bound m - {d}, mb_devices := filter (\<lambda>x. x \<noteq> d) (mb_devices m), mb_kp := ddel d (mb_kp m)\<rparr>,
      if d \<in> mb_bound m then out @ [MClose d] else out))"

definition mconfig :: "config_msg \<Rightarrow> mailbox \<Rightarrow> mailbox \<times> mout list" where
  "mconfig e m =
    (if (case cf_mode e of None \<Rightarrow> False | Some md \<Rightarrow> md \<notin> set MAILBOX_MODES)
     then (m, merror (cf_device e) (cf_id e) ''mailbox.unsupported-mode'')
     else
       (let m1 = m\<lparr>mb_mode := (case cf_mode e of Some md \<Rightarrow> md | None \<Rightarrow> mb_mode m),
                   mb_admit := (case cf_admit e of Some ad \<Rightarrow> ad | None \<Rightarrow> mb_admit m)\<rparr>;
            m2 = foldl config_group m1 (cf_groups e);
            m3 = m2\<lparr>mb_revoked := mb_revoked m2 \<union> set (cf_revoked_grants e),
                    mb_introductions := mb_introductions m2
                      @ filter (\<lambda>i. i \<notin> set (mb_introductions m2)) (cf_introductions e)\<rparr>
        in foldl revoke_device (m3, [MAccepted (cf_device e) (cf_id e) None False]) (cf_revoked_devices e)))"

record archive_msg =
  ar_device :: string
  ar_id :: string
  ar_group :: string
  ar_seq :: int
  ar_size :: int

definition marchive :: "archive_msg \<Rightarrow> mailbox \<Rightarrow> mailbox \<times> mout list" where
  "marchive e m =
    (if mb_mode m = ''queue'' then (m, merror (ar_device e) (ar_id e) ''mailbox.unsupported-class'')
     else case dget (mb_archived m) (ar_group e, ar_seq e) of
       Some c \<Rightarrow> (m, [MAccepted (ar_device e) (ar_id e) (Some c) True])
     | None \<Rightarrow>
         if over_quota m (ar_size e) then (m, merror (ar_device e) (ar_id e) ''mailbox.quota-exceeded'')
         else
           (let (m1, pushes) = store ((new_item ''archive'' (ar_group e))\<lparr>mt_depositor := Some (ar_device e), mt_size := ar_size e\<rparr>) m;
                c = cursor (mb_counter m1)
            in (m1\<lparr>mb_archived := dset (ar_group e, ar_seq e) c (mb_archived m1)\<rparr>,
                MAccepted (ar_device e) (ar_id e) (Some c) False # pushes)))"

definition kp_upload :: "string \<Rightarrow> string \<Rightarrow> int \<Rightarrow> bool \<Rightarrow> mailbox \<Rightarrow> mailbox \<times> mout list" where
  "kp_upload device eid count last_resort m =
    (if device \<notin> set (mb_devices m) then (m, merror device eid ''policy.blocked'')
     else
       (let k = dget_or (mb_kp m) device \<lparr>kp_one_time = 0, kp_last_resort = False\<rparr>
        in (m\<lparr>mb_kp := dset device \<lparr>kp_one_time = min (kp_one_time k + count) KEY_PACKAGES_PER_DEVICE,
                                   kp_last_resort = (kp_last_resort k \<or> last_resort)\<rparr> (mb_kp m)\<rparr>,
            [MAccepted device eid None False])))"

text \<open>One device of a fetch: a one-time KeyPackage is used up, a last-resort one is not.\<close>

definition serve_kp :: "mailbox \<times> (string \<times> string) list \<Rightarrow> string \<Rightarrow> mailbox \<times> (string \<times> string) list" where
  "serve_kp acc dv = (case acc of (m, served) \<Rightarrow>
     case dget (mb_kp m) dv of
       None \<Rightarrow> (m, served)
     | Some k \<Rightarrow>
         if kp_one_time k > 0
         then (m\<lparr>mb_kp := dset dv (k\<lparr>kp_one_time := kp_one_time k - 1\<rparr>) (mb_kp m)\<rparr>, dset dv ''one-time'' served)
         else if kp_last_resort k then (m, dset dv ''last-resort'' served) else (m, served))"

record fetch_msg =
  fe_from :: string
  fe_id :: string
  fe_from_identity :: string
  fe_target :: string
  fe_successor_of :: "string option"
  fe_grant :: "mgrant option"

definition kp_fetch :: "fetch_msg \<Rightarrow> mailbox \<Rightarrow> mailbox \<times> mout list" where
  "kp_fetch e m =
    (if fe_target e \<notin> mb_serves m then (m, merror (fe_from e) (fe_id e) ''transport.unknown-recipient'')
     else if \<not> (mb_admit m = ''open'' \<or> fe_from_identity e = fe_target e
               \<or> (case fe_successor_of e of None \<Rightarrow> False | Some g \<Rightarrow> g \<in> set (dkeys (mb_groups m)))
               \<or> grant_ok m (fe_grant e) (Some (fe_from_identity e)) (fe_target e))
     then (m, merror (fe_from e) (fe_id e) ''policy.first-contact-required'')
     else
       (let (m1, served) = foldl serve_kp (m, []) (mb_devices m)
        in if served = [] then (m1, merror (fe_from e) (fe_id e) ''mailbox.no-key-packages'')
           else (m1, [MKeyPackages (fe_from e) (fe_id e) served])))"

section \<open>The step\<close>

datatype mevent =
    MFirstContact contact_msg
  | MAdvance int
  | MWelcome welcome_msg
  | MHubDeposit hubdep_msg
  | MForwardFailed string string
  | MForwardReq string string string string string
  | MSync sync_msg
  | MUnbind string
  | MConfig config_msg
  | MArchive archive_msg
  | MKpUpload string string int bool
  | MKpFetch fetch_msg
  | MRestart

fun mailbox_step :: "mailbox \<Rightarrow> mevent \<Rightarrow> (mailbox \<times> mout list) option" where
  "mailbox_step m (MFirstContact e) = first_contact e m"
| "mailbox_step m (MAdvance n) = Some (madvance n m, [])"
| "mailbox_step m (MWelcome e) = Some (mwelcome e m)"
| "mailbox_step m (MHubDeposit e) = Some (hub_deposit e m)"
| "mailbox_step m (MForwardFailed device eid) = Some (m, merror device eid ''mailbox.hub-unreachable'')"
| "mailbox_step m (MForwardReq device eid identity grp to) = Some (m, mforward device eid identity grp to m)"
| "mailbox_step m (MSync e) = msync e m"
| "mailbox_step m (MUnbind device) = Some (m\<lparr>mb_bound := mb_bound m - {device}\<rparr>, [])"
| "mailbox_step m (MConfig e) = Some (mconfig e m)"
| "mailbox_step m (MArchive e) = Some (marchive e m)"
| "mailbox_step m (MKpUpload device eid count last_resort) = Some (kp_upload device eid count last_resort m)"
| "mailbox_step m (MKpFetch e) = Some (kp_fetch e m)"
| "mailbox_step m MRestart = Some (m\<lparr>mb_bound := {}\<rparr>, [])"

record mailbox_config =
  mc_now :: int
  mc_owner :: string
  mc_serves :: "string list option"
  mc_devices :: "string list"
  mc_mode :: "string option"
  mc_admit :: "string option"
  mc_pending_ttl :: "int option"
  mc_pending_max :: "int option"
  mc_quota :: "int option"
  mc_handover_wait :: "int option"
  mc_groups :: "(string, string \<times> string) dict"
  mc_key_packages :: "(string, kpstore) dict"
  mc_intro_limit :: "int option"
  mc_intro_window :: "int option"
  mc_inbox_cap :: "int option"

definition or_value :: "'a \<Rightarrow> 'a option \<Rightarrow> 'a" where
  "or_value d x = (case x of Some v \<Rightarrow> v | None \<Rightarrow> d)"

definition init_mailbox :: "mailbox_config \<Rightarrow> mailbox" where
  "init_mailbox c = \<lparr>mb_now = mc_now c, mb_owner = mc_owner c, mb_serves = set (or_value [mc_owner c] (mc_serves c)),
     mb_devices = sort (mc_devices c), mb_mode = or_value ''sync'' (mc_mode c), mb_admit = or_value ''grant'' (mc_admit c),
     mb_pending_ttl = or_value 604800 (mc_pending_ttl c), mb_pending_max = or_value 500 (mc_pending_max c),
     mb_quota = mc_quota c, mb_handover_wait = or_value HANDOVER_WAIT_S (mc_handover_wait c),
     mb_groups = map (\<lambda>(g, hub, state). (g, new_group hub state (mc_now c))) (mc_groups c), mb_kp = mc_key_packages c,
     mb_revoked = {}, mb_items = [], mb_counter = 0, mb_acks = [], mb_bound = {}, mb_archived = [],
     mb_intro_limit = or_value 5 (mc_intro_limit c), mb_intro_window = or_value 3600 (mc_intro_window c),
     mb_inbox_cap = or_value 16 (mc_inbox_cap c), mb_intro_log = [], mb_introductions = []\<rparr>"

end
