(* ===== verification/Mailbox.thy ===== *)
theory Mailbox
  imports Mailbox_Model
begin

text \<open>
  What a mailbox promises: a cursor reads back as the number it was made from, the items are kept in the order of their
  cursors, what is stored stays within the quota, and the pages of a sync split the items after a cursor without loss or
  repetition.
\<close>

section \<open>Cursors read back\<close>

lemma hex_value_digit: "d < 16 \<Longrightarrow> hex_value (hex_digit d) = Some (int d)"
  by (auto simp: hex_value_def hex_digit_def Let_def of_char_of)

lemma hex_digit_plain: "d < 16 \<Longrightarrow> hex_digit d \<noteq> CHR ''_'' \<and> \<not> py_space (hex_digit d) \<and> hex_digit d \<noteq> CHR ''-'' \<and> hex_digit d \<noteq> CHR ''+''
    \<and> hex_digit d \<noteq> CHR ''x'' \<and> hex_digit d \<noteq> CHR ''X''"
proof -
  have "list_all (\<lambda>d. hex_digit d \<noteq> CHR ''_'' \<and> \<not> py_space (hex_digit d) \<and> hex_digit d \<noteq> CHR ''-'' \<and> hex_digit d \<noteq> CHR ''+''
    \<and> hex_digit d \<noteq> CHR ''x'' \<and> hex_digit d \<noteq> CHR ''X'') [0..<16]"
    by code_simp
  then show "d < 16 \<Longrightarrow> ?thesis" by (simp add: list_all_iff)
qed

lemma show_hex_0 [simp]: "show_hex 0 0 = ''''"
  by (simp add: show_hex.simps)

lemma show_hex_length: "n < 16 ^ w \<Longrightarrow> length (show_hex w n) = w"
proof (induction w arbitrary: n)
  case (Suc w)
  then have "n div 16 < 16 ^ w" by (simp add: less_mult_imp_div_less mult.commute)
  with Suc.IH show ?case by simp
qed simp

lemma show_hex_chars: "n < 16 ^ w \<Longrightarrow> c \<in> set (show_hex w n) \<Longrightarrow> \<exists>d < 16. c = hex_digit d"
proof (induction w arbitrary: n)
  case (Suc w)
  then have "n div 16 < 16 ^ w" by (simp add: less_mult_imp_div_less mult.commute)
  then have "c \<in> set (show_hex w (n div 16)) \<Longrightarrow> ?case" by (rule Suc.IH)
  moreover have "c = hex_digit (n mod 16) \<Longrightarrow> ?case" by (rule exI [of _ "n mod 16"]) simp
  ultimately show ?case using Suc.prems(2) by (simp del: ex_simps) blast
qed simp

lemma py_digits_snoc: "py_digits b acc s = Some v \<Longrightarrow> d < 16 \<Longrightarrow> py_digits b acc (s @ [hex_digit d]) = Some (16 * v + int d)"
proof (induction s arbitrary: b acc)
  case Nil
  then show ?case by (simp add: hex_value_digit hex_digit_plain split: if_splits)
next
  case (Cons c s)
  then show ?case by (auto split: if_splits option.splits)
qed

lemma py_digits_show: "n < 16 ^ Suc w \<Longrightarrow> py_digits b 0 (show_hex (Suc w) n) = Some (int n)"
proof (induction w arbitrary: n)
  case 0
  then show ?case by (simp add: hex_value_digit hex_digit_plain)
next
  case (Suc w)
  then have "n div 16 < 16 ^ Suc w" by (simp add: less_mult_imp_div_less mult.commute)
  then have "py_digits b 0 (show_hex (Suc w) (n div 16)) = Some (int (n div 16))" by (rule Suc.IH)
  then have "py_digits b 0 (show_hex (Suc w) (n div 16) @ [hex_digit (n mod 16)]) = Some (16 * int (n div 16) + int (n mod 16))"
    by (rule py_digits_snoc) simp
  also have "16 * int (n div 16) + int (n mod 16) = int (16 * (n div 16) + n mod 16)" by (simp only: of_nat_add of_nat_mult of_nat_numeral)
  also have "\<dots> = int n" by simp
  finally show ?case by (simp only: show_hex.simps(2))
qed

lemma dropWhile_plain: "(\<And>c. c \<in> set s \<Longrightarrow> \<not> P c) \<Longrightarrow> dropWhile P s = s"
  by (cases s) auto

lemma py_hex_show: assumes "n < 16 ^ Suc (Suc w)" shows "py_hex (show_hex (Suc (Suc w)) n) = Some (int n)"
proof -
  define s where "s = show_hex (Suc (Suc w)) n"
  have plain: "c \<noteq> CHR ''-'' \<and> c \<noteq> CHR ''+'' \<and> \<not> py_space c \<and> c \<noteq> CHR ''x'' \<and> c \<noteq> CHR ''X''" if c: "c \<in> set s" for c
  proof -
    obtain d where "d < 16" "c = hex_digit d"
      using show_hex_chars [OF assms c [unfolded s_def]] by (elim exE conjE)
    with hex_digit_plain show ?thesis by simp
  qed
  have "dropWhile py_space s = s" "dropWhile py_space (rev s) = rev s"
    using plain dropWhile_plain [of s py_space] dropWhile_plain [of "rev s" py_space] by simp_all
  then have strip: "py_strip s = s" by (simp add: py_strip_def)
  have "length s = Suc (Suc w)"
    unfolding s_def by (rule show_hex_length [OF assms])
  then obtain c x r where s: "s = c # x # r"
    by (cases s; cases "tl s") auto
  have "py_unsigned s = py_digits False 0 s"
    using plain [of x] by (simp add: s py_unsigned_def)
  moreover have "py_digits False 0 s = Some (int n)"
    unfolding s_def by (rule py_digits_show [OF assms])
  moreover have "py_hex s = py_unsigned s"
    using plain [of c] by (simp add: py_hex_def strip) (simp add: s)
  ultimately show ?thesis
    unfolding s_def by (simp only:)
qed

section \<open>The invariant\<close>

definition item_ok :: "int \<Rightarrow> mitem \<Rightarrow> bool" where
  "item_ok c it \<longleftrightarrow> 0 < mt_n it \<and> mt_n it \<le> c \<and> mt_cursor it = cursor (mt_n it) \<and> 0 \<le> mt_size it"

definition box_ok :: "int \<Rightarrow> mitem list \<Rightarrow> int option \<Rightarrow> bool" where
  "box_ok c items quota \<longleftrightarrow> 0 \<le> c \<and> sorted_wrt (\<lambda>a b. mt_n a < mt_n b) items \<and> (\<forall>it \<in> set items. item_ok c it)
     \<and> (\<forall>q. quota = Some q \<longrightarrow> sum_list (map mt_size items) \<le> q)"

definition mailbox_ok :: "mailbox \<Rightarrow> bool" where
  "mailbox_ok m \<longleftrightarrow> box_ok (mb_counter m) (mb_items m) (mb_quota m)"

fun mevent_ok :: "mevent \<Rightarrow> bool" where
  "mevent_ok (MWelcome e) \<longleftrightarrow> 0 \<le> we_size e"
| "mevent_ok (MHubDeposit e) \<longleftrightarrow> 0 \<le> hm_size e"
| "mevent_ok (MArchive e) \<longleftrightarrow> 0 \<le> ar_size e"
| "mevent_ok _ \<longleftrightarrow> True"

lemma used_filter: "(\<forall>it \<in> set xs. 0 \<le> mt_size it) \<Longrightarrow> sum_list (map mt_size (filter P xs)) \<le> sum_list (map mt_size xs)"
  by (induction xs) auto

lemma used_filter_ok: "box_ok c items q \<Longrightarrow> sum_list (map mt_size (filter P items)) \<le> sum_list (map mt_size items)"
  by (rule used_filter) (simp add: box_ok_def item_ok_def)

lemma box_filter: "box_ok c items q \<Longrightarrow> box_ok c (filter P items) q"
  using used_filter_ok [of c items q P] by (auto simp: box_ok_def sorted_wrt_filter intro: order_trans)

lemma box_append:
  assumes "box_ok c items quota" "0 \<le> mt_size it" "\<And>q. quota = Some q \<Longrightarrow> sum_list (map mt_size items) + mt_size it \<le> q"
  shows "box_ok (c + 1) (items @ [it\<lparr>mt_cursor := cursor (c + 1), mt_n := c + 1\<rparr>]) quota"
  using assms by (fastforce simp: box_ok_def item_ok_def sorted_wrt_append)

lemma store_ok:
  assumes "mailbox_ok m" "0 \<le> mt_size it" "\<not> over_quota m (mt_size it)"
  shows "mailbox_ok (fst (store it m))"
proof -
  define P where "P = (\<lambda>x::mitem. mt_class it = ''group-info'' \<longrightarrow> \<not> (mt_group x = mt_group it \<and> mt_class x = ''group-info''))"
  have "fst (store it m) = m\<lparr>mb_items := filter P (mb_items m) @ [it\<lparr>mt_cursor := cursor (mb_counter m + 1), mt_n := mb_counter m + 1\<rparr>],
      mb_counter := mb_counter m + 1\<rparr>"
    by (simp add: store_def Let_def P_def)
  moreover have "sum_list (map mt_size (filter P (mb_items m))) + mt_size it \<le> q" if "mb_quota m = Some q" for q
    using used_filter_ok [of "mb_counter m" "mb_items m" "mb_quota m" P] assms that by (simp add: mailbox_ok_def over_quota_def used_def)
  ultimately show ?thesis
    using assms(1,2) by (simp add: mailbox_ok_def box_append box_filter)
qed

lemma store_frame [simp]: "fst (store it (m\<lparr>mb_groups := g\<rparr>)) = (fst (store it m))\<lparr>mb_groups := g\<rparr>"
  "over_quota (m\<lparr>mb_groups := g\<rparr>) s = over_quota m s" "mt_size (new_item c k) = 0"
  by (simp_all add: store_def Let_def over_quota_def used_def new_item_def cong: option.case_cong)

lemma mailbox_frame [simp]: "mailbox_ok (m\<lparr>mb_groups := g\<rparr>) = mailbox_ok m" "mailbox_ok (m\<lparr>mb_archived := a\<rparr>) = mailbox_ok m"
  "mailbox_ok (m\<lparr>mb_bound := b\<rparr>) = mailbox_ok m" "mailbox_ok (m\<lparr>mb_kp := k\<rparr>) = mailbox_ok m"
  "mailbox_ok (m\<lparr>mb_introductions := i\<rparr>) = mailbox_ok m" "mailbox_ok (m\<lparr>mb_acks := ac\<rparr>) = mailbox_ok m"
  "mailbox_ok (m\<lparr>mb_devices := d\<rparr>) = mailbox_ok m" "mailbox_ok (m\<lparr>mb_revoked := rv\<rparr>) = mailbox_ok m"
  "mailbox_ok (m\<lparr>mb_mode := md\<rparr>) = mailbox_ok m" "mailbox_ok (m\<lparr>mb_admit := ad\<rparr>) = mailbox_ok m"
  "mailbox_ok (m\<lparr>mb_now := t\<rparr>) = mailbox_ok m" "mailbox_ok (m\<lparr>mb_intro_log := lg\<rparr>) = mailbox_ok m"
  by (simp_all add: mailbox_ok_def)

lemma mailbox_ok_filter: "mailbox_ok m \<Longrightarrow> mailbox_ok (m\<lparr>mb_items := filter P (mb_items m)\<rparr>)"
  by (simp add: mailbox_ok_def box_filter)

section \<open>Every event keeps it\<close>

lemma no_size_fits: "mailbox_ok m \<Longrightarrow> \<not> over_quota m 0"
  by (auto simp: mailbox_ok_def box_ok_def over_quota_def used_def split: option.split)

lemma spend_ok: "spend ks m = Some (m', r) \<Longrightarrow> mailbox_ok m' = mailbox_ok m"
  by (induction ks m rule: spend.induct) (auto simp: Let_def split: if_splits list.splits)

lemma log_now_ok: "mailbox_ok m \<Longrightarrow> mailbox_ok (foldl log_now m ks)"
  by (rule foldl_inv) (simp_all add: log_now_def)

lemma first_contact_ok: assumes "mailbox_ok m" "first_contact e m = Some (m', out)" shows "mailbox_ok m'"
proof -
  define answers where "answers = (fc_kind e = ''grant'' \<and> (case fc_session e of None \<Rightarrow> False | Some s \<Rightarrow> s \<in> set (mb_introductions m)))"
  define m0 where "m0 = (if answers then m\<lparr>mb_introductions := remove1 (the (fc_session e)) (mb_introductions m)\<rparr> else m)"
  define keys where "keys = (if answers then [] else [''sender:'' @ fc_sender e, ''inbox:'' @ fc_recipient e])"
  define it where "it = (new_item (fc_kind e) '''')\<lparr>mt_expires_at := Some (fc_expires_at e)\<rparr>"
  obtain m1 r where s: "spend keys m0 = Some (m1, r)"
    using assms(2) unfolding first_contact_def Let_def answers_def [symmetric] m0_def [symmetric] keys_def [symmetric]
    by (cases "spend keys m0") auto
  have ok1: "mailbox_ok m1"
    using spend_ok [OF s] assms(1) by (simp add: m0_def)
  define m2 where "m2 = foldl log_now m1 keys"
  have ok2: "mailbox_ok m2"
    unfolding m2_def by (rule log_now_ok [OF ok1])
  have "mailbox_ok (fst (store it m2))"
    using no_size_fits [OF ok2] by (intro store_ok [OF ok2]) (simp_all add: it_def)
  moreover have "m' = m1 \<or> m' = m2 \<or> m' = fst (store it m2)"
    using assms(2) s unfolding first_contact_def Let_def answers_def [symmetric] m0_def [symmetric] keys_def [symmetric] it_def [symmetric]
    by (simp add: m2_def [symmetric] case_prod_beta' split: option.splits if_split_asm)
  ultimately show ?thesis
    using ok1 ok2 by blast
qed

lemma madvance_ok: assumes "mailbox_ok m" shows "mailbox_ok (madvance n m)"
proof -
  define now where "now = mb_now m + n"
  define gone where "gone = dkeys (filter (\<lambda>(_, r). mg_state r = ''pending'' \<and> mg_since r + mb_pending_ttl m < now) (mb_groups m))"
  define P where "P = (\<lambda>it::mitem. case mt_expires_at it of None \<Rightarrow> True | Some t \<Rightarrow> t > now)"
  define Q where "Q = (\<lambda>it::mitem. \<not> (mt_group it \<in> set gone \<and> mt_class it \<noteq> ''archive''))"
  have "mailbox_ok (madvance n m) = box_ok (mb_counter m) (filter Q (filter P (mb_items m))) (mb_quota m)"
    unfolding madvance_def Let_def now_def [symmetric] gone_def [symmetric] P_def [symmetric] Q_def [symmetric]
    by (simp add: mailbox_ok_def)
  then show ?thesis
    using assms by (simp add: mailbox_ok_def box_filter del: filter_filter)
qed

lemma mwelcome_ok: assumes "mailbox_ok m" "0 \<le> we_size e" shows "mailbox_ok (fst (mwelcome e m))"
proof -
  define it where "it = (new_item ''welcome'' (we_group e))\<lparr>mt_digest := we_digest e, mt_size := we_size e\<rparr>"
  have "\<not> over_quota m (we_size e) \<Longrightarrow> mailbox_ok (fst (store it m))"
    using assms by (intro store_ok) (simp_all add: it_def)
  moreover have "fst (mwelcome e m) = m \<or> \<not> over_quota m (we_size e) \<and> (\<exists>g. fst (mwelcome e m) = (fst (store it m))\<lparr>mb_groups := g\<rparr>)"
    unfolding mwelcome_def Let_def it_def [symmetric]
    by (auto simp: case_prod_beta' split: option.split)
  ultimately show ?thesis
    using assms(1) by auto
qed

lemma store_hub_item_ok: assumes "mailbox_ok m" "0 \<le> hm_size e" shows "mailbox_ok (fst (store_hub_item e reg late out m))"
proof -
  define it where "it = (new_item (hm_class e) (hm_group e))\<lparr>mt_seq := hm_seq e, mt_size := hm_size e\<rparr>"
  have "\<not> over_quota m (hm_size e) \<Longrightarrow> mailbox_ok (fst (store it m))"
    using assms by (intro store_ok) (simp_all add: it_def)
  then show ?thesis
    unfolding store_hub_item_def Let_def it_def [symmetric] using assms(1) by (simp add: case_prod_beta')
qed

lemma hub_deposit_ok: assumes "mailbox_ok m" "0 \<le> hm_size e" shows "mailbox_ok (fst (hub_deposit e m))"
proof (cases "hm_recipient e \<in> mb_serves m")
  case served: True
  obtain reg out adm where h: "handover e m = (reg, out, adm)"
    by (cases "handover e m") auto
  show ?thesis
  proof (cases reg)
    case None
    with served h assms(1) show ?thesis by (simp add: hub_deposit_def)
  next
    case (Some r)
    with served h assms store_hub_item_ok [of "m\<lparr>mb_groups := g\<rparr>" e for g] show ?thesis
      by (cases adm) (simp_all add: hub_deposit_def Let_def)
  qed
qed (simp add: hub_deposit_def assms)

lemma marchive_ok: assumes "mailbox_ok m" "0 \<le> ar_size e" shows "mailbox_ok (fst (marchive e m))"
proof -
  have "mailbox_ok (fst (store ((new_item ''archive'' (ar_group e))\<lparr>mt_depositor := d, mt_size := ar_size e\<rparr>) m))"
    if "\<not> over_quota m (ar_size e)" for d
    using assms that by (intro store_ok) simp_all
  then show ?thesis
    using assms(1) by (simp add: marchive_def Let_def case_prod_beta' split: option.split)
qed

lemma acknowledge_ok: "mailbox_ok m \<Longrightarrow> acknowledge d n m = Some m' \<Longrightarrow> mailbox_ok m'"
  using mailbox_ok_filter [of "m\<lparr>mb_acks := ac\<rparr>" P for ac P] by (auto simp: acknowledge_def Let_def split: if_splits)

lemma sync_page_ok: "mailbox_ok m \<Longrightarrow> sync_page e s m = Some (m', out) \<Longrightarrow> mailbox_ok m'"
  by (auto simp: sync_page_def Let_def split: if_splits)

lemma msync_ok: "mailbox_ok m \<Longrightarrow> msync e m = Some (m', out) \<Longrightarrow> mailbox_ok m'"
  by (auto simp: msync_def Let_def split: option.splits bind_splits intro: sync_page_ok acknowledge_ok)

lemma config_ok: "mailbox_ok m \<Longrightarrow> mailbox_ok (fst (mconfig e m))"
proof -
  assume ok: "mailbox_ok m"
  have "mailbox_ok (foldl config_group m1 gs)" if "mailbox_ok m1" for m1 gs
    using that by (rule foldl_inv) (simp add: config_group_def Let_def split: option.split)
  moreover have "mailbox_ok (fst (foldl revoke_device p ds))" if "mailbox_ok (fst p)" for p ds
    using that by (rule foldl_inv [where P = "\<lambda>p. mailbox_ok (fst p)"])
      (auto simp: revoke_device_def case_prod_beta')
  ultimately show ?thesis
    using ok by (simp add: mconfig_def Let_def)
qed

lemma kp_fetch_ok: "mailbox_ok m \<Longrightarrow> mailbox_ok (fst (kp_fetch e m))"
proof -
  assume ok: "mailbox_ok m"
  have "mailbox_ok (fst (foldl serve_kp (m, []) ds))" for ds
    by (rule foldl_inv [where P = "\<lambda>p. mailbox_ok (fst p)"])
      (use ok in \<open>auto simp: serve_kp_def case_prod_beta' split: option.split\<close>)
  then show ?thesis
    using ok by (simp add: kp_fetch_def Let_def case_prod_beta')
qed

lemma mailbox_step_ok: assumes "mailbox_ok m" "mevent_ok e" "mailbox_step m e = Some (m', out)" shows "mailbox_ok m'"
proof (cases e)
  case (MFirstContact x) then show ?thesis using assms first_contact_ok by simp
next
  case (MAdvance n) then show ?thesis using assms madvance_ok [OF assms(1)] by auto
next
  case (MWelcome x) then show ?thesis using assms mwelcome_ok [OF assms(1), of x] by simp
next
  case (MHubDeposit x) then show ?thesis using assms hub_deposit_ok [OF assms(1), of x] by simp
next
  case (MSync x) then show ?thesis using assms msync_ok by simp
next
  case (MConfig x) then show ?thesis using assms config_ok [OF assms(1), of x] by simp
next
  case (MArchive x) then show ?thesis using assms marchive_ok [OF assms(1), of x] by simp
next
  case (MKpFetch x) then show ?thesis using assms kp_fetch_ok [OF assms(1), of x] by simp
qed (use assms in \<open>auto simp: kp_upload_def Let_def split: if_splits\<close>)

definition mailbox_next :: "mailbox \<Rightarrow> mevent \<Rightarrow> mailbox option" where
  "mailbox_next m e = map_option fst (mailbox_step m e)"

interpretation mailbox: machine mailbox_next mevent_ok mailbox_ok
  by unfold_locales (auto simp: mailbox_next_def intro: mailbox_step_ok)

lemma init_mailbox_ok: "(\<forall>q. mc_quota c = Some q \<longrightarrow> 0 \<le> q) \<Longrightarrow> mailbox_ok (init_mailbox c)"
  by (simp add: mailbox_ok_def init_mailbox_def box_ok_def)

section \<open>Paging\<close>

text \<open>A device that asks for everything after a cursor, page by page, each time from the cursor the last page ended with.\<close>

fun sync_all :: "nat \<Rightarrow> sync_msg \<Rightarrow> mailbox \<Rightarrow> string list option" where
  "sync_all 0 e m = None"
| "sync_all (Suc k) e m = (case msync e m of
     Some (m', [MItems _ _ page nxt]) \<Rightarrow>
       (case nxt of None \<Rightarrow> Some page | Some c \<Rightarrow> map_option ((@) page) (sync_all k (e\<lparr>sy_since := Some c\<rparr>) m'))
   | _ \<Rightarrow> None)"

lemma filter_after_last:
  assumes "sorted_wrt (\<lambda>a b. f a < f b) (xs @ ys)" "xs \<noteq> []"
  shows "filter (\<lambda>x. f (last xs) < (f x :: int)) (xs @ ys) = ys"
proof -
  obtain zs z where xs: "xs = zs @ [z]" using assms(2) by (meson rev_exhaust)
  have "filter (\<lambda>x. f z < f x) zs = []" "filter (\<lambda>x. f z < f x) ys = ys"
    using assms(1) unfolding xs by (auto simp: sorted_wrt_append filter_empty_conv filter_id_conv intro: less_imp_not_less)
  then show ?thesis by (simp add: xs)
qed

lemma filter_later: "(\<And>x. x \<in> set xs \<Longrightarrow> Q x \<Longrightarrow> P x) \<Longrightarrow> filter Q (filter P xs) = filter Q xs"
  by (induction xs) auto

lemma cursor_num_cursor: assumes "0 \<le> n" "n < 16 ^ 16" shows "cursor_num (cursor n) = Some n"
proof -
  have two: "Suc (Suc 14) = (16::nat)" by simp
  have "nat n < 16 ^ 16"
    using assms by (simp only: nat_less_iff) simp
  then have "py_hex (show_hex 16 (nat n)) = Some (int (nat n))" "length (show_hex 16 (nat n)) = 16"
    using py_hex_show [of "nat n" 14, unfolded two] show_hex_length [of "nat n" 16] by blast+
  then show ?thesis
    using assms(1) by (simp add: cursor_num_def cursor_def startswith_def)
qed

lemma known_item: "mailbox_ok m \<Longrightarrow> mb_counter m < 16 ^ 16 \<Longrightarrow> it \<in> set (mb_items m) \<Longrightarrow> known_cursor m (mt_cursor it) = Some (mt_n it)"
  by (auto simp: mailbox_ok_def box_ok_def item_ok_def known_cursor_def cursor_num_cursor)

lemma sync_all_items:
  assumes "mailbox_ok m" "mb_counter m < 16 ^ 16" "1 \<le> (case sy_limit e of Some l \<Rightarrow> l | None \<Rightarrow> 200)" "sy_ack_through e = None"
    "(case sy_since e of None \<Rightarrow> Some 0 | Some c \<Rightarrow> known_cursor m c) = Some since"
    "length (filter (\<lambda>it. since < mt_n it) (mb_items m)) < k"
  shows "sync_all k e m = Some (map mt_cursor (filter (\<lambda>it. since < mt_n it) (mb_items m)))"
  using assms
proof (induction k arbitrary: e m since)
  case (Suc k)
  define limit where "limit = (case sy_limit e of Some l \<Rightarrow> l | None \<Rightarrow> 200)"
  define avail where "avail = filter (\<lambda>it. since < mt_n it) (mb_items m)"
  define m1 where "m1 = (if sy_live e then m\<lparr>mb_bound := insert (sy_device e) (mb_bound m)\<rparr> else m)"
  define page where "page = take (nat limit) avail"
  have same: "mb_items m1 = mb_items m" "mb_counter m1 = mb_counter m" "mailbox_ok m1" "known_cursor m1 c = known_cursor m c" for c
    using Suc.prems(1) by (simp_all add: m1_def known_cursor_def cong: option.case_cong)
  have limit: "1 \<le> limit" using Suc.prems(3) by (simp add: limit_def)
  have step: "msync e m = sync_page e since m"
    using Suc.prems(4,5) by (simp add: msync_def Let_def)
  show ?case
  proof (cases "int (length avail) > limit")
    case False
    with limit have "page = avail" by (simp add: page_def)
    with False limit show ?thesis
      unfolding sync_all.simps step sync_page_def Let_def limit_def [symmetric] m1_def [symmetric] same avail_def [symmetric]
      by (simp add: py_take_def page_def [symmetric])
  next
    case True
    with limit have ne: "page \<noteq> []" by (auto simp: page_def)
    then have last: "last page \<in> set avail"
      by (metis last_in_set page_def in_set_takeD)
    then have item: "last page \<in> set (mb_items m)" "since < mt_n (last page)" by (auto simp: avail_def)
    define e' where "e' = e\<lparr>sy_since := Some (mt_cursor (last page))\<rparr>"
    have next_page: "sync_all (Suc k) e m = map_option ((@) (map mt_cursor page)) (sync_all k e' m1)"
      using True limit ne
      unfolding sync_all.simps step sync_page_def Let_def limit_def [symmetric] m1_def [symmetric] same avail_def [symmetric]
      by (simp add: py_take_def page_def [symmetric] e'_def)
    have "sorted_wrt (\<lambda>a b. mt_n a < mt_n b) (page @ drop (nat limit) avail)"
      using Suc.prems(1) by (simp add: page_def avail_def mailbox_ok_def box_ok_def sorted_wrt_filter)
    then have "filter (\<lambda>it. mt_n (last page) < mt_n it) avail = drop (nat limit) avail"
      using filter_after_last [OF _ ne, of mt_n "drop (nat limit) avail"] by (simp add: page_def)
    moreover have "filter (\<lambda>it. mt_n (last page) < mt_n it) avail = filter (\<lambda>it. mt_n (last page) < mt_n it) (mb_items m)"
      using item(2) unfolding avail_def by (intro filter_later) simp
    ultimately have rest: "filter (\<lambda>it. mt_n (last page) < mt_n it) (mb_items m) = drop (nat limit) avail" by simp
    have "sync_all k e' m1 = Some (map mt_cursor (filter (\<lambda>it. mt_n (last page) < mt_n it) (mb_items m1)))"
    proof (rule Suc.IH)
      show "(case sy_since e' of None \<Rightarrow> Some 0 | Some c \<Rightarrow> known_cursor m1 c) = Some (mt_n (last page))"
        using known_item [OF Suc.prems(1,2) item(1)] by (simp add: e'_def same)
      show "length (filter (\<lambda>it. mt_n (last page) < mt_n it) (mb_items m1)) < k"
        using Suc.prems(6) limit True unfolding same rest by (simp add: avail_def [symmetric])
    qed (use Suc.prems same in \<open>simp_all add: e'_def\<close>)
    then have "sync_all (Suc k) e m = Some (map mt_cursor (page @ drop (nat limit) avail))"
      unfolding next_page same rest by simp
    then show ?thesis
      by (simp add: page_def avail_def [symmetric])
  qed
qed simp

section \<open>Properties\<close>

text \<open>The witnesses' mailbox: open admission, pages of one item, and room for 100 bytes.\<close>

definition demo_config :: mailbox_config where
  "demo_config = \<lparr>mc_now = 1000, mc_owner = ''alice'', mc_serves = None, mc_devices = [''a1''], mc_mode = None, mc_admit = Some ''open'',
     mc_pending_ttl = None, mc_pending_max = None, mc_quota = Some 100, mc_handover_wait = None, mc_groups = [], mc_key_packages = [],
     mc_intro_limit = None, mc_intro_window = None, mc_inbox_cap = None\<rparr>"

definition demo_welcome :: "string \<Rightarrow> int \<Rightarrow> mevent" where
  "demo_welcome g sz = MWelcome \<lparr>we_from = ''b1'', we_id = g, we_recipient = ''alice'', we_group = g, we_hub = ''hub'', we_adder = None,
     we_via_hub = False, we_origin = None, we_issued_at = 1000, we_successor_of = None, we_grant = None, we_digest = None, we_size = sz\<rparr>"

definition demo_sync :: sync_msg where
  "demo_sync = \<lparr>sy_device = ''a1'', sy_id = ''s'', sy_since = None, sy_ack_through = None, sy_live = False, sy_limit = Some 1\<rparr>"

definition demo_box :: mailbox where
  "demo_box = fst (the (mailbox_step (fst (the (mailbox_step (init_mailbox demo_config) (demo_welcome ''g'' 40)))) (demo_welcome ''h'' 50)))"

lemma demo_welcome_reaches:
  assumes "reaches mailbox_next mevent_ok m0 m" "0 \<le> sz"
  shows "reaches mailbox_next mevent_ok m0 (fst (the (mailbox_step m (demo_welcome g sz))))"
  using assms(1) by (rule reaches_step [where e = "demo_welcome g sz"]) (use assms(2) in \<open>simp_all add: demo_welcome_def mailbox_next_def\<close>)

lemma demo_box_reached: "reaches mailbox_next mevent_ok (init_mailbox demo_config) demo_box"
  unfolding demo_box_def by (intro demo_welcome_reaches reaches_refl) simp_all

text \<open>C28: What is stored fits. In every state a mailbox with a quota of zero or more reaches, the sizes of the stored items add
  up to at most the quota; the items are in the strict order of their numbers, none beyond the counter, and each carries the
  cursor of its number.\<close>

theorem mailbox_within_quota:
  assumes "reaches mailbox_next mevent_ok (init_mailbox c) m" "\<forall>q. mc_quota c = Some q \<longrightarrow> 0 \<le> q"
  shows "(\<forall>q. mb_quota m = Some q \<longrightarrow> used m \<le> q) \<and> sorted_wrt (\<lambda>a b. mt_n a < mt_n b) (mb_items m)
    \<and> (\<forall>it \<in> set (mb_items m). 0 < mt_n it \<and> mt_n it \<le> mb_counter m \<and> mt_cursor it = cursor (mt_n it))"
proof -
  have "mailbox_ok m" by (rule mailbox.reaches_inv [OF assms(1) init_mailbox_ok [OF assms(2)]])
  then show ?thesis by (simp add: mailbox_ok_def box_ok_def item_ok_def used_def)
qed

theorem mailbox_within_quota_witness:
  "map mt_size (mb_items demo_box) = [40, 50] \<and> used demo_box \<le> 100"
proof -
  have "map mt_size (mb_items demo_box) = [40, 50]" "mb_quota demo_box = Some 100" by code_simp+
  then show ?thesis
    using mailbox_within_quota [OF demo_box_reached] by (simp add: demo_config_def)
qed

text \<open>A cursor reads back as the number it was made from, as long as the number fits its sixteen hexadecimal digits.\<close>

theorem cursor_roundtrip: "0 \<le> n \<Longrightarrow> n < 16 ^ 16 \<Longrightarrow> cursor_num (cursor n) = Some n"
  by (rule cursor_num_cursor)

theorem cursor_roundtrip_witness: "cursor_num (cursor 31) = Some 31 \<and> cursor 31 = ''c:000000000000001f''"
proof -
  have "cursor 31 = ''c:000000000000001f''" by code_simp
  then show ?thesis using cursor_roundtrip [of 31] by simp
qed

text \<open>Paging loses and repeats nothing. A device that starts from a cursor the mailbox knows (or from the beginning) and asks
  again from the end of each page gets, after at most one request more than there are items, exactly the items numbered after
  that cursor, in order, whatever page size of one or more it asks for.\<close>

theorem sync_pages_partition:
  assumes "reaches mailbox_next mevent_ok (init_mailbox c) m" "\<forall>q. mc_quota c = Some q \<longrightarrow> 0 \<le> q" "mb_counter m < 16 ^ 16"
    "1 \<le> (case sy_limit e of Some l \<Rightarrow> l | None \<Rightarrow> 200)" "sy_ack_through e = None"
    "(case sy_since e of None \<Rightarrow> Some 0 | Some cur \<Rightarrow> known_cursor m cur) = Some since"
  shows "sync_all (Suc (length (mb_items m))) e m = Some (map mt_cursor (filter (\<lambda>it. since < mt_n it) (mb_items m)))"
proof -
  have "mailbox_ok m" by (rule mailbox.reaches_inv [OF assms(1) init_mailbox_ok [OF assms(2)]])
  then show ?thesis
    using assms(3-6) by (rule sync_all_items) (simp add: le_imp_less_Suc length_filter_le)
qed

theorem sync_pages_partition_witness: "sync_all 3 demo_sync demo_box = Some [cursor 1, cursor 2]"
proof -
  have l: "Suc (length (mb_items demo_box)) = 3" and i: "map mt_cursor (filter (\<lambda>it. 0 < mt_n it) (mb_items demo_box)) = [cursor 1, cursor 2]"
    and c: "mb_counter demo_box = 2" by code_simp+
  show ?thesis
    using sync_pages_partition [OF demo_box_reached, of demo_sync 0] unfolding l i c by (simp add: demo_sync_def demo_config_def)
qed

end
