(* ===== verification/Device_Model.thy ===== *)
theory Device_Model
  imports Registry Hub_Model
begin

text \<open>
  The engines a device keeps for its groups, from \<^verbatim>\<open>dsipvec/messaging.py\<close>: \<open>Resume\<close> (what it holds durably across a restart),
  \<open>GapTracker\<close> (items after a gap), \<open>CommitRetry\<close> (what it does with the hub's answer to a commit), \<open>HubOutage\<close> (its outbox
  while the hub is down), \<open>MoveArrival\<close> (reaching a moved group's hub), \<open>Enrolment\<close> (whom a mailbox serves) and \<open>History\<close>
  (MLS items and archive records). A set of sequence numbers is a list without repetition, which makes its loops structural.
\<close>

section \<open>Positions\<close>

text \<open>\<open>while contiguous + 1 in seen\<close>: the end of the run of numbers seen, and the numbers beyond it.\<close>

function drain :: "int \<Rightarrow> int list \<Rightarrow> int \<times> int list" where
  "drain c seen = (if c + 1 \<in> set seen then drain (c + 1) (removeAll (c + 1) seen) else (c, seen))"
  by pat_completeness auto
termination
  by (relation "measure (\<lambda>(c, seen). length seen)") (auto intro: length_removeAll_less)

declare drain.simps [simp del]

section \<open>Resume\<close>

definition SEQUENCED_CLASSES :: "string list" where "SEQUENCED_CLASSES = [''handshake'', ''application'']"

record position =
  ps_contiguous :: int
  ps_seen :: "int list"

record resume =
  rs_cursor :: "string option"
  rs_groups :: "(string, position) dict"
  rs_joined :: "string set"

record ritem =
  ri_cursor :: string
  ri_class :: string
  ri_group :: string
  ri_seq :: "int option"
  ri_sibling :: bool

datatype rout = RCrash string | RDuplicate string | RProcess string | RSibling string | RSync "string option" "string option"

definition rduplicate :: "ritem \<Rightarrow> resume \<Rightarrow> bool option" where
  "rduplicate it r =
    (if ri_class it \<in> set SEQUENCED_CLASSES then
       (case dget (rs_groups r) (ri_group it) of
          None \<Rightarrow> Some False
        | Some p \<Rightarrow> map_option (\<lambda>s. s \<le> ps_contiguous p \<or> s \<in> set (ps_seen p)) (ri_seq it))
     else Some (ri_class it = ''welcome'' \<and> ri_group it \<in> rs_joined r))"

definition rposition :: "string \<Rightarrow> int \<Rightarrow> resume \<Rightarrow> resume" where
  "rposition grp seq r =
    (case dget (rs_groups r) grp of
       None \<Rightarrow> r\<lparr>rs_groups := dset grp \<lparr>ps_contiguous = seq, ps_seen = []\<rparr> (rs_groups r)\<rparr>
     | Some p \<Rightarrow>
         (let seen = (if seq > ps_contiguous p \<and> seq \<notin> set (ps_seen p) then ps_seen p @ [seq] else ps_seen p);
              (c, s) = drain (ps_contiguous p) seen
          in r\<lparr>rs_groups := dset grp \<lparr>ps_contiguous = c, ps_seen = s\<rparr> (rs_groups r)\<rparr>))"

text \<open>What is committed with a new item.\<close>

definition rcommit :: "ritem \<Rightarrow> resume \<Rightarrow> resume option" where
  "rcommit it r =
    (if ri_class it \<in> set SEQUENCED_CLASSES then map_option (\<lambda>s. rposition (ri_group it) s r) (ri_seq it)
     else if ri_class it = ''welcome'' then
       (let r1 = r\<lparr>rs_joined := insert (ri_group it) (rs_joined r)\<rparr>
        in Some (case ri_seq it of
             None \<Rightarrow> r1
           | Some s \<Rightarrow> r1\<lparr>rs_groups := dset (ri_group it) \<lparr>ps_contiguous = s, ps_seen = []\<rparr> (rs_groups r1)\<rparr>))
     else Some r)"

fun ritems :: "string option \<Rightarrow> ritem list \<Rightarrow> resume \<Rightarrow> (resume \<times> rout list) option" where
  "ritems crash [] r = Some (r, [])"
| "ritems crash (it # its) r =
    (if Some (ri_cursor it) = crash then Some (r, [RCrash (ri_cursor it)])
     else do {
       dup \<leftarrow> rduplicate it r;
       let r1 = r\<lparr>rs_cursor := Some (ri_cursor it)\<rparr>;
       if \<not> dup \<and> ri_sibling it then do {
         (r2, out) \<leftarrow> ritems crash its r1;
         Some (r2, RSibling (ri_cursor it) # out) }
       else do {
         r2 \<leftarrow> (if dup then Some r1 else rcommit it r1);
         (r3, out) \<leftarrow> ritems crash its r2;
         Some (r3, (if dup then RDuplicate (ri_cursor it) else RProcess (ri_cursor it)) # out) } })"

definition rsync :: "resume \<Rightarrow> rout list" where
  "rsync r = [RSync (rs_cursor r) (rs_cursor r)]"

definition rrejoined :: "string \<Rightarrow> int \<Rightarrow> resume \<Rightarrow> resume" where
  "rrejoined grp seq r =
    (let p = dget_or (rs_groups r) grp \<lparr>ps_contiguous = 0, ps_seen = []\<rparr>
     in r\<lparr>rs_groups := dset grp \<lparr>ps_contiguous = foldl max seq (ps_contiguous p # ps_seen p), ps_seen = []\<rparr> (rs_groups r),
          rs_joined := insert grp (rs_joined r)\<rparr>)"

text \<open>A restart reads the state back from its snapshot, where groups and sequence numbers are sorted.\<close>

definition rrestart :: "resume \<Rightarrow> resume" where
  "rrestart r = r\<lparr>rs_groups := map (\<lambda>g. (g, case dget (rs_groups r) g of Some p \<Rightarrow> p\<lparr>ps_seen := sort (ps_seen p)\<rparr>
     | None \<Rightarrow> \<lparr>ps_contiguous = 0, ps_seen = []\<rparr>)) (dsorted (rs_groups r))\<rparr>"

datatype revent =
    RItems "string option" "ritem list"
  | RSent string int
  | RRejoined string int
  | RRemoved string
  | RSyncNow
  | RRestart
  | RCursorInvalid

fun resume_step :: "resume \<Rightarrow> revent \<Rightarrow> (resume \<times> rout list) option" where
  "resume_step r (RItems crash its) = ritems crash its r"
| "resume_step r (RSent grp seq) = Some (rposition grp seq r, [])"
| "resume_step r (RRejoined grp seq) = Some (rrejoined grp seq r, [])"
| "resume_step r (RRemoved grp) = Some (r\<lparr>rs_joined := rs_joined r - {grp}\<rparr>, [])"
| "resume_step r RSyncNow = Some (r, rsync r)"
| "resume_step r RRestart = Some (rrestart r, rsync r)"
| "resume_step r RCursorInvalid = Some (r\<lparr>rs_cursor := None\<rparr>, rsync (r\<lparr>rs_cursor := None\<rparr>))"

section \<open>GapTracker\<close>

definition GAP_TIMEOUT_S :: int where "GAP_TIMEOUT_S = 300"

record gap =
  gp_now :: int
  gp_contiguous :: int
  gp_timeout :: int
  gp_seen :: "int list"
  gp_held :: "int list"
  gp_since :: "int option"

datatype gap_out = GRejoin "int list" | GDuplicate int | GHold int | GProcess int

datatype gap_event = GAdvance int | GItem int string

definition init_gap :: "int \<Rightarrow> int option \<Rightarrow> int option \<Rightarrow> gap" where
  "init_gap now contiguous timeout = \<lparr>gp_now = now, gp_contiguous = (case contiguous of Some c \<Rightarrow> c | None \<Rightarrow> 0),
     gp_timeout = (case timeout of Some t \<Rightarrow> t | None \<Rightarrow> GAP_TIMEOUT_S), gp_seen = [], gp_held = [], gp_since = None\<rparr>"

definition gap_item :: "int \<Rightarrow> string \<Rightarrow> gap \<Rightarrow> gap \<times> gap_out list" where
  "gap_item seq cls g =
    (if seq \<le> gp_contiguous g \<or> seq \<in> set (gp_seen g) then (g, [GDuplicate seq])
     else
       (let blocked = (cls = ''handshake'' \<and> seq > gp_contiguous g + 1);
            waits = (blocked \<or> (case gp_held g of [] \<Rightarrow> False | h # _ \<Rightarrow> seq > h));
            held = (if waits then sort (gp_held g @ [seq]) else gp_held g);
            since = (if waits \<and> gp_since g = None then Some (gp_now g) else gp_since g);
            (c, seen) = drain (gp_contiguous g) (gp_seen g @ [seq]);
            left = dropWhile (\<lambda>s. s \<le> c) held
        in (g\<lparr>gp_contiguous := c, gp_seen := seen, gp_held := left, gp_since := (if left = [] then None else since)\<rparr>,
            (if waits then GHold seq else GProcess seq) # map GProcess (takeWhile (\<lambda>s. s \<le> c) held))))"

definition gap_advance :: "int \<Rightarrow> gap \<Rightarrow> (gap \<times> gap_out list) option" where
  "gap_advance n g =
    (let g1 = g\<lparr>gp_now := gp_now g + n\<rparr>
     in case gp_held g1 of
          [] \<Rightarrow> Some (g1, [])
        | h # hs \<Rightarrow>
            (case gp_since g1 of
               None \<Rightarrow> None
             | Some t \<Rightarrow>
                 if gp_now g1 - t \<ge> gp_timeout g1
                 then Some (g1\<lparr>gp_contiguous := foldl max h (hs @ gp_seen g1), gp_seen := [], gp_held := [], gp_since := None\<rparr>,
                            [GRejoin (h # hs)])
                 else Some (g1, [])))"

fun gap_step :: "gap \<Rightarrow> gap_event \<Rightarrow> (gap \<times> gap_out list) option" where
  "gap_step g (GAdvance n) = gap_advance n g"
| "gap_step g (GItem seq cls) = Some (gap_item seq cls g)"

section \<open>CommitRetry\<close>

definition RETRY_REASONS :: "string list" where
  "RETRY_REASONS = [''mailbox.commit-conflict'', ''mailbox.stale-epoch'', ''mailbox.unknown-group'']"

record retry =
  rt_max_attempts :: int
  rt_attempt :: int
  rt_state :: string
  rt_unknown_used :: bool
  rt_last_reason :: "string option"

datatype retry_out = CDiscard | CSurface string | CMerge | CSync | CDone | CRepropose int

datatype retry_event = CAnswer "string option" | CSynced bool bool

definition init_retry :: "int option \<Rightarrow> retry" where
  "init_retry n = \<lparr>rt_max_attempts = (case n of Some k \<Rightarrow> k | None \<Rightarrow> 3), rt_attempt = 1, rt_state = ''pending'',
     rt_unknown_used = False, rt_last_reason = None\<rparr>"

definition retry_answer :: "string option \<Rightarrow> retry \<Rightarrow> retry \<times> retry_out list" where
  "retry_answer reason t =
    (let t1 = t\<lparr>rt_last_reason := reason\<rparr>
     in case reason of
          None \<Rightarrow> (t1\<lparr>rt_state := ''merged''\<rparr>, [CMerge])
        | Some r \<Rightarrow>
            (let surface = (t1\<lparr>rt_state := ''surfaced''\<rparr>, [CDiscard, CSurface r])
             in if r \<in> set RETRY_REASONS then
                  (if rt_attempt t1 \<ge> rt_max_attempts t1 then surface else (t1\<lparr>rt_state := ''syncing''\<rparr>, [CDiscard, CSync]))
                else if before_sep CHR ''.'' r = ''mailbox'' \<and> dget REASONS r = None \<and> \<not> rt_unknown_used t1
                        \<and> rt_attempt t1 < rt_max_attempts t1
                then (t1\<lparr>rt_unknown_used := True, rt_state := ''syncing''\<rparr>, [CDiscard, CSync])
                else surface))"

definition retry_synced :: "bool \<Rightarrow> bool \<Rightarrow> retry \<Rightarrow> retry \<times> retry_out list" where
  "retry_synced hub_moved still_needed t =
    (if rt_last_reason t = Some ''mailbox.unknown-group'' \<and> \<not> hub_moved
     then (t\<lparr>rt_state := ''surfaced''\<rparr>, [CSurface ''mailbox.unknown-group''])
     else if \<not> still_needed then (t\<lparr>rt_state := ''done''\<rparr>, [CDone])
     else (t\<lparr>rt_attempt := rt_attempt t + 1, rt_state := ''pending''\<rparr>, [CRepropose (rt_attempt t + 1)]))"

fun retry_step :: "retry \<Rightarrow> retry_event \<Rightarrow> retry \<times> retry_out list" where
  "retry_step t (CAnswer reason) = retry_answer reason t"
| "retry_step t (CSynced hub_moved still_needed) = retry_synced hub_moved still_needed t"

section \<open>HubOutage\<close>

definition RETRY_INITIAL_S :: int where "RETRY_INITIAL_S = 1"
definition RETRY_MAX_S :: int where "RETRY_MAX_S = 60"
definition HUB_TIMEOUT_S :: int where "HUB_TIMEOUT_S = 86400"

definition backoff :: "int \<Rightarrow> int" where
  "backoff attempt = min (RETRY_INITIAL_S * 2 ^ nat (attempt - 1)) RETRY_MAX_S"

record outage =
  og_now :: int
  og_hub_timeout :: int
  og_pending :: "string list"
  og_down_since :: "int option"
  og_attempt :: int
  og_retry_at :: "int option"
  og_state :: string
  og_handover_attempt :: int
  og_handover_at :: "int option"

datatype outage_out =
    OgRefuse
  | OgForward string
  | OgQueued string
  | OgRetryIn int
  | OgRefused string string
  | OgSent string
  | OgHandoverRetryIn int
  | OgHandoverRetry
  | OgSuccessor "string list"

datatype outage_event =
    OgDeposit string
  | OgNoAnswer string
  | OgAnswer string "string option"
  | OgHandoverFailed
  | OgAdvance int

definition init_outage :: "int \<Rightarrow> int option \<Rightarrow> string list \<Rightarrow> int option \<Rightarrow> outage" where
  "init_outage now timeout pending down = \<lparr>og_now = now,
     og_hub_timeout = (case timeout of Some t \<Rightarrow> t | None \<Rightarrow> HUB_TIMEOUT_S), og_pending = pending, og_down_since = down, og_attempt = 0,
     og_retry_at = (if down = None then None else Some now), og_state = (if down = None then ''up'' else ''down''),
     og_handover_attempt = 0, og_handover_at = None\<rparr>"

definition og_deposit :: "string \<Rightarrow> outage \<Rightarrow> outage \<times> outage_out list" where
  "og_deposit i g =
    (if og_state g = ''abandoned'' then (g, [OgRefuse])
     else (g\<lparr>og_pending := og_pending g @ [i]\<rparr>, if og_state g = ''up'' then [OgForward i] else [OgQueued i]))"

definition og_unreachable :: "string \<Rightarrow> outage \<Rightarrow> outage \<times> outage_out list" where
  "og_unreachable i g =
    (if i \<notin> set (og_pending g) then (g, [])
     else
       (let g1 = (if og_down_since g = None then g\<lparr>og_down_since := Some (og_now g), og_state := ''down''\<rparr> else g);
            a = og_attempt g1 + 1
        in (g1\<lparr>og_attempt := a, og_retry_at := Some (og_now g1 + backoff a)\<rparr>, [OgRetryIn (backoff a)])))"

definition og_answer :: "string \<Rightarrow> string option \<Rightarrow> outage \<Rightarrow> outage \<times> outage_out list" where
  "og_answer i reason g =
    (if reason \<in> {Some ''mailbox.hub-unreachable'', Some ''mailbox.quota-exceeded''} then og_unreachable i g
     else if i \<notin> set (og_pending g) then (g, [])
     else
       (let g1 = g\<lparr>og_pending := remove1 i (og_pending g)\<rparr>
        in case reason of
             Some r \<Rightarrow> (g1, [OgRefused i r])
           | None \<Rightarrow>
               if og_state g1 = ''down''
               then (g1\<lparr>og_state := ''up'', og_down_since := None, og_attempt := 0, og_retry_at := None\<rparr>,
                     OgSent i # map OgForward (og_pending g1))
               else (g1, [OgSent i])))"

definition og_handover_failed :: "outage \<Rightarrow> outage \<times> outage_out list" where
  "og_handover_failed g =
    (if og_state g \<noteq> ''abandoned'' then (g, [])
     else (let a = og_handover_attempt g + 1
           in (g\<lparr>og_handover_attempt := a, og_handover_at := Some (og_now g + backoff a)\<rparr>, [OgHandoverRetryIn (backoff a)])))"

definition og_advance :: "int \<Rightarrow> outage \<Rightarrow> (outage \<times> outage_out list) option" where
  "og_advance n g0 =
    (let g = g0\<lparr>og_now := og_now g0 + n\<rparr>
     in if og_state g = ''abandoned'' \<and> (case og_handover_at g of None \<Rightarrow> False | Some t \<Rightarrow> og_now g \<ge> t)
        then Some (g\<lparr>og_handover_at := None\<rparr>, [OgHandoverRetry])
        else if og_state g \<noteq> ''down'' then Some (g, [])
        else case og_down_since g of
          None \<Rightarrow> None
        | Some t \<Rightarrow>
            if og_now g - t \<ge> og_hub_timeout g
            then Some (g\<lparr>og_pending := [], og_state := ''abandoned'', og_retry_at := None\<rparr>, [OgSuccessor (og_pending g)])
            else case og_pending g of
              [] \<Rightarrow> Some (g, [])
            | i # _ \<Rightarrow>
                if (case og_retry_at g of None \<Rightarrow> False | Some at \<Rightarrow> og_now g \<ge> at)
                then Some (g\<lparr>og_retry_at := None\<rparr>, [OgForward i]) else Some (g, []))"

fun outage_step :: "outage \<Rightarrow> outage_event \<Rightarrow> (outage \<times> outage_out list) option" where
  "outage_step g (OgDeposit i) = Some (og_deposit i g)"
| "outage_step g (OgNoAnswer i) = Some (og_unreachable i g)"
| "outage_step g (OgAnswer i reason) = Some (og_answer i reason g)"
| "outage_step g OgHandoverFailed = Some (og_handover_failed g)"
| "outage_step g (OgAdvance n) = og_advance n g"

section \<open>MoveArrival\<close>

definition ARRIVAL_WAIT_S :: int where "ARRIVAL_WAIT_S = 300"

record arrival =
  av_now :: int
  av_wait :: int
  av_state :: string
  av_hub :: "string option"
  av_since :: "int option"
  av_attempt :: int

datatype arrival_out = AvExpired | AvRetryIn int

datatype arrival_event = AvMoved string | AvAnswer string "string option" | AvAdvance int

definition init_arrival :: "int \<Rightarrow> int option \<Rightarrow> arrival" where
  "init_arrival now w = \<lparr>av_now = now, av_wait = (case w of Some x \<Rightarrow> x | None \<Rightarrow> ARRIVAL_WAIT_S), av_state = ''none'',
     av_hub = None, av_since = None, av_attempt = 0\<rparr>"

definition av_answer :: "string \<Rightarrow> string option \<Rightarrow> arrival \<Rightarrow> (arrival \<times> arrival_out list) option" where
  "av_answer hub reason a =
    (if av_state a \<noteq> ''arriving'' \<or> Some hub \<noteq> av_hub a then Some (a, [])
     else case reason of
       None \<Rightarrow> Some (a\<lparr>av_state := ''hosted''\<rparr>, [])
     | Some r \<Rightarrow>
         if r \<noteq> ''mailbox.unknown-group'' then Some (a, [])
         else case av_since a of
           None \<Rightarrow> None
         | Some t \<Rightarrow>
             if av_now a - t \<ge> av_wait a then Some (a\<lparr>av_state := ''expired''\<rparr>, [AvExpired])
             else Some (a\<lparr>av_attempt := av_attempt a + 1\<rparr>, [AvRetryIn (backoff (av_attempt a + 1))]))"

fun arrival_step :: "arrival \<Rightarrow> arrival_event \<Rightarrow> (arrival \<times> arrival_out list) option" where
  "arrival_step a (AvMoved hub) = Some (a\<lparr>av_state := ''arriving'', av_hub := Some hub, av_since := Some (av_now a), av_attempt := 0\<rparr>, [])"
| "arrival_step a (AvAnswer hub reason) = av_answer hub reason a"
| "arrival_step a (AvAdvance n) = Some (a\<lparr>av_now := av_now a + n\<rparr>, [])"

section \<open>Enrolment\<close>

record enrolments =
  en_now :: int
  en_configured :: "string set"
  en_serve_any :: int
  en_expire_idle :: bool
  en_retention :: int
  en_enrolled :: "(string, int) dict"

datatype enrol_out = EnError string string string | EnEnrolled string | EnAccepted string string | EnReleased string string

datatype enrol_event =
    EnOwnerOp string string string
  | EnRelease string string string
  | EnOperatorRelease string
  | EnHello string
  | EnAdvance int

definition en_owner_op :: "string \<Rightarrow> string \<Rightarrow> string \<Rightarrow> enrolments \<Rightarrow> enrolments \<times> enrol_out list" where
  "en_owner_op who device eid s =
    (if who \<in> en_configured s \<or> who \<in> set (dkeys (en_enrolled s)) then (s, [])
     else if int (length (en_enrolled s)) \<ge> en_serve_any s then (s, [EnError device eid ''mailbox.not-served''])
     else (s\<lparr>en_enrolled := dset who (en_now s) (en_enrolled s)\<rparr>, [EnEnrolled who]))"

definition en_release :: "string \<Rightarrow> string \<Rightarrow> string \<Rightarrow> enrolments \<Rightarrow> enrolments \<times> enrol_out list" where
  "en_release who device eid s =
    (if who \<in> en_configured s then (s, [EnError device eid ''mailbox.not-enrolled''])
     else if who \<notin> set (dkeys (en_enrolled s)) then (s, [EnError device eid ''mailbox.not-served''])
     else (s\<lparr>en_enrolled := ddel who (en_enrolled s)\<rparr>, [EnAccepted device eid, EnReleased who ''owner'']))"

definition en_operator_release :: "string \<Rightarrow> enrolments \<Rightarrow> enrolments \<times> enrol_out list" where
  "en_operator_release who s =
    (if who \<notin> set (dkeys (en_enrolled s)) then (s, [])
     else (s\<lparr>en_enrolled := ddel who (en_enrolled s)\<rparr>, [EnReleased who ''operator'']))"

definition en_advance :: "int \<Rightarrow> enrolments \<Rightarrow> enrolments \<times> enrol_out list" where
  "en_advance n s0 =
    (let s = s0\<lparr>en_now := en_now s0 + n\<rparr>
     in if \<not> en_expire_idle s then (s, [])
        else (let idle = dkeys (filter (\<lambda>(_, seen). en_now s - seen > en_retention s) (en_enrolled s))
              in (s\<lparr>en_enrolled := foldl (\<lambda>d who. ddel who d) (en_enrolled s) idle\<rparr>, map (\<lambda>who. EnReleased who ''idle'') idle)))"

fun enrol_step :: "enrolments \<Rightarrow> enrol_event \<Rightarrow> enrolments \<times> enrol_out list" where
  "enrol_step s (EnOwnerOp who device eid) = en_owner_op who device eid s"
| "enrol_step s (EnRelease who device eid) = en_release who device eid s"
| "enrol_step s (EnOperatorRelease who) = en_operator_release who s"
| "enrol_step s (EnHello who) =
    (s\<lparr>en_enrolled := (if who \<in> set (dkeys (en_enrolled s)) then dset who (en_now s) (en_enrolled s) else en_enrolled s)\<rparr>, [])"
| "enrol_step s (EnAdvance n) = en_advance n s"

definition init_enrolment :: "int \<Rightarrow> string list \<Rightarrow> int option \<Rightarrow> bool \<Rightarrow> int option \<Rightarrow> enrolments" where
  "init_enrolment now configured serve idle retention = \<lparr>en_now = now, en_configured = set configured,
     en_serve_any = (case serve of Some n \<Rightarrow> n | None \<Rightarrow> 0), en_expire_idle = idle, en_retention = (case retention of Some r \<Rightarrow> r | None \<Rightarrow> MLS_RETENTION_S), en_enrolled = []\<rparr>"

end
