(* ===== verification/Device.thy ===== *)
theory Device
  imports Device_Model "HOL-Library.Multiset"
begin

text \<open>
  What a device's engines promise: its durable positions are sets of processed numbers, so that a redelivered item is
  recognised across restarts; an item behind a gap is processed once and none overtakes a held one; and no item of the
  outbox is lost while the hub is down.
\<close>

section \<open>Positions as sets\<close>

lemma drain_seen: "drain c seen = (c', seen') \<Longrightarrow> {..c'} \<union> set seen' = {..c} \<union> set seen"
proof (induction c seen arbitrary: c' seen' rule: drain.induct)
  case (1 c seen)
  have "{..c + 1} = insert (c + 1) {..c}" by auto
  with 1 show ?case
    by (cases "c + 1 \<in> set seen") (auto simp: drain.simps [of c seen])
qed

lemma drain_next: "drain c seen = (c', seen') \<Longrightarrow> c \<le> c' \<and> c' + 1 \<notin> set seen' \<and> set seen' \<subseteq> set seen"
proof (induction c seen arbitrary: c' seen' rule: drain.induct)
  case (1 c seen)
  then show ?case
    by (cases "c + 1 \<in> set seen") (fastforce simp: drain.simps [of c seen])+
qed

text \<open>The specification: per group the set of the numbers passed, the joined groups and the acknowledged cursor.\<close>

record passed =
  pa_cursor :: "string option"
  pa_done :: "string \<Rightarrow> int set option"
  pa_joined :: "string set"

definition abs_pos :: "position \<Rightarrow> int set" where
  "abs_pos p = {..ps_contiguous p} \<union> set (ps_seen p)"

definition abs_resume :: "resume \<Rightarrow> passed" where
  "abs_resume r = \<lparr>pa_cursor = rs_cursor r, pa_done = (\<lambda>g. map_option abs_pos (dget (rs_groups r) g)), pa_joined = rs_joined r\<rparr>"

definition pass :: "string \<Rightarrow> int \<Rightarrow> passed \<Rightarrow> passed" where
  "pass g s a = a\<lparr>pa_done := (pa_done a)(g \<mapsto> (case pa_done a g of None \<Rightarrow> {..s} | Some A \<Rightarrow> insert s A))\<rparr>"

definition spec_duplicate :: "ritem \<Rightarrow> passed \<Rightarrow> bool option" where
  "spec_duplicate it a =
    (if ri_class it \<in> set SEQUENCED_CLASSES then
       (case pa_done a (ri_group it) of None \<Rightarrow> Some False | Some A \<Rightarrow> map_option (\<lambda>s. s \<in> A) (ri_seq it))
     else Some (ri_class it = ''welcome'' \<and> ri_group it \<in> pa_joined a))"

definition spec_commit :: "ritem \<Rightarrow> passed \<Rightarrow> passed option" where
  "spec_commit it a =
    (if ri_class it \<in> set SEQUENCED_CLASSES then map_option (\<lambda>s. pass (ri_group it) s a) (ri_seq it)
     else if ri_class it = ''welcome'' then
       Some (a\<lparr>pa_joined := insert (ri_group it) (pa_joined a),
               pa_done := (case ri_seq it of None \<Rightarrow> pa_done a | Some s \<Rightarrow> (pa_done a)(ri_group it \<mapsto> {..s}))\<rparr>)
     else Some a)"

fun spec_items :: "string option \<Rightarrow> ritem list \<Rightarrow> passed \<Rightarrow> (passed \<times> rout list) option" where
  "spec_items crash [] a = Some (a, [])"
| "spec_items crash (it # its) a =
    (if Some (ri_cursor it) = crash then Some (a, [RCrash (ri_cursor it)])
     else case spec_duplicate it a of
       None \<Rightarrow> None
     | Some True \<Rightarrow> map_option (\<lambda>(b, out). (b, RDuplicate (ri_cursor it) # out))
         (spec_items crash its (a\<lparr>pa_cursor := Some (ri_cursor it)\<rparr>))
     | Some False \<Rightarrow>
         if ri_sibling it
         then map_option (\<lambda>(b, out). (b, RSibling (ri_cursor it) # out)) (spec_items crash its (a\<lparr>pa_cursor := Some (ri_cursor it)\<rparr>))
         else (case spec_commit it (a\<lparr>pa_cursor := Some (ri_cursor it)\<rparr>) of
             None \<Rightarrow> None
           | Some b \<Rightarrow> map_option (\<lambda>(c, out). (c, RProcess (ri_cursor it) # out)) (spec_items crash its b)))"

text \<open>A re-join passes every number up to the highest known one, a restart changes nothing.\<close>

fun spec_step :: "passed \<Rightarrow> revent \<Rightarrow> (passed \<times> rout list) option" where
  "spec_step a (RItems crash its) = spec_items crash its a"
| "spec_step a (RSent g s) = Some (pass g s a, [])"
| "spec_step a (RRejoined g s) =
    Some (a\<lparr>pa_done := (pa_done a)(g \<mapsto> {n. n \<le> s \<or> (\<exists>k \<in> (case pa_done a g of None \<Rightarrow> {..0} | Some A \<Rightarrow> A). n \<le> k)}),
            pa_joined := insert g (pa_joined a)\<rparr>, [])"
| "spec_step a (RRemoved g) = Some (a\<lparr>pa_joined := pa_joined a - {g}\<rparr>, [])"
| "spec_step a RSyncNow = Some (a, [RSync (pa_cursor a) (pa_cursor a)])"
| "spec_step a RRestart = Some (a, [RSync (pa_cursor a) (pa_cursor a)])"
| "spec_step a RCursorInvalid = Some (a\<lparr>pa_cursor := None\<rparr>, [RSync None None])"

lemma abs_position: "abs_resume (rposition g s r) = pass g s (abs_resume r)"
proof (cases "dget (rs_groups r) g")
  case None
  then show ?thesis
    by (simp add: rposition_def pass_def abs_resume_def abs_pos_def fun_eq_iff)
next
  case (Some p)
  define seen where "seen = (if s > ps_contiguous p \<and> s \<notin> set (ps_seen p) then ps_seen p @ [s] else ps_seen p)"
  obtain c d where dr: "drain (ps_contiguous p) seen = (c, d)" by fastforce
  have "abs_pos \<lparr>ps_contiguous = c, ps_seen = d\<rparr> = {..ps_contiguous p} \<union> set seen"
    using drain_seen [OF dr] by (simp add: abs_pos_def)
  also have "\<dots> = insert s (abs_pos p)"
    by (auto simp: abs_pos_def seen_def)
  finally have pos: "abs_pos \<lparr>ps_contiguous = c, ps_seen = d\<rparr> = insert s (abs_pos p)" .
  have "rposition g s r = r\<lparr>rs_groups := dset g \<lparr>ps_contiguous = c, ps_seen = d\<rparr> (rs_groups r)\<rparr>"
    unfolding rposition_def using Some dr unfolding seen_def by (simp add: Let_def)
  then show ?thesis
    using Some pos by (simp add: pass_def abs_resume_def fun_eq_iff)
qed

lemma abs_cursor: "abs_resume (r\<lparr>rs_cursor := c\<rparr>) = (abs_resume r)\<lparr>pa_cursor := c\<rparr>"
  by (simp add: abs_resume_def)

lemma abs_duplicate: "rduplicate it r = spec_duplicate it (abs_resume r)"
  by (auto simp: rduplicate_def spec_duplicate_def abs_resume_def abs_pos_def split: option.split)

lemma abs_commit: "map_option abs_resume (rcommit it r) = spec_commit it (abs_resume r)"
proof -
  have "map_option abs_resume (map_option (\<lambda>s. rposition (ri_group it) s r) x) = map_option (\<lambda>s. pass (ri_group it) s (abs_resume r)) x" for x
    by (cases x) (simp_all add: abs_position)
  moreover have "(\<lambda>k. map_option abs_pos (if k = g then Some \<lparr>ps_contiguous = s, ps_seen = []\<rparr> else dget (rs_groups r) k))
      = (\<lambda>k. map_option abs_pos (dget (rs_groups r) k))(g \<mapsto> {..s})" for g s
    by (auto simp: abs_pos_def)
  ultimately show ?thesis
    by (simp add: rcommit_def spec_commit_def Let_def) (auto simp: abs_resume_def split: option.split)
qed

lemma abs_items: "map_option (\<lambda>(r', out). (abs_resume r', out)) (ritems crash its r) = spec_items crash its (abs_resume r)"
proof (induction its arbitrary: r)
  case (Cons it its)
  define r1 where "r1 = r\<lparr>rs_cursor := Some (ri_cursor it)\<rparr>"
  have r1: "(abs_resume r)\<lparr>pa_cursor := Some (ri_cursor it)\<rparr> = abs_resume r1"
    by (simp add: r1_def abs_cursor)
  have more: "map_option (\<lambda>(r', out). (abs_resume r', out)) (do { (r2, out) \<leftarrow> ritems crash its s; Some (r2, x # out) })
      = map_option (\<lambda>(b, out). (b, x # out)) (spec_items crash its (abs_resume s))" for s x
    unfolding Cons.IH [symmetric] by (cases "ritems crash its s") auto
  show ?case
  proof (cases "rduplicate it r")
    case None
    then show ?thesis by (simp add: abs_duplicate [symmetric])
  next
    case (Some dup)
    show ?thesis
    proof (cases dup)
      case True
      then show ?thesis
        using Some more [of r1 "RDuplicate (ri_cursor it)"] by (simp add: abs_duplicate [symmetric] r1 r1_def [symmetric])
    next
      case False
      have c: "spec_commit it (abs_resume r1) = map_option abs_resume (rcommit it r1)" by (simp add: abs_commit)
      show ?thesis
        using False Some more [of r1 "RSibling (ri_cursor it)"] more [where x = "RProcess (ri_cursor it)"]
        by (cases "rcommit it r1") (simp_all add: abs_duplicate [symmetric] r1 r1_def [symmetric] c)
    qed
  qed
qed simp

lemma below_foldl_max: "n \<le> foldl max s xs \<longleftrightarrow> n \<le> s \<or> (\<exists>x \<in> set xs. n \<le> (x :: int))"
  by (induction xs arbitrary: s) auto

lemma abs_rejoined: "Some (abs_resume (rrejoined g s r), []) = spec_step (abs_resume r) (RRejoined g s)"
proof -
  define p where "p = dget_or (rs_groups r) g \<lparr>ps_contiguous = 0, ps_seen = []\<rparr>"
  have p: "(case pa_done (abs_resume r) g of None \<Rightarrow> {..0} | Some A \<Rightarrow> A) = abs_pos p"
    by (simp add: abs_resume_def p_def dget_or_def abs_pos_def split: option.split)
  have "abs_pos \<lparr>ps_contiguous = foldl max s (ps_contiguous p # ps_seen p), ps_seen = []\<rparr>
      = {n. n \<le> s \<or> (\<exists>k \<in> abs_pos p. n \<le> k)}"
    unfolding abs_pos_def by (auto simp: below_foldl_max simp del: foldl.simps intro: order_trans)
  then show ?thesis
    unfolding spec_step.simps p by (auto simp: rrejoined_def Let_def p_def [symmetric] abs_resume_def simp del: foldl.simps)
qed

lemma abs_restart: "abs_resume (rrestart r) = abs_resume r"
proof -
  have "map_option abs_pos (dget (rs_groups (rrestart r)) g) = map_option abs_pos (dget (rs_groups r) g)" for g
  proof (cases "dget (rs_groups r) g")
    case None
    then have "g \<notin> set (dsorted (rs_groups r))" by (simp add: dget_None_keys)
    with None show ?thesis by (simp add: rrestart_def map_of_map_restrict)
  next
    case (Some p)
    then have "g \<in> set (dsorted (rs_groups r))" using dget_in_keys by (simp only: set_dsorted)
    with Some show ?thesis by (simp add: rrestart_def map_of_map_restrict abs_pos_def)
  qed
  then show ?thesis by (simp add: abs_resume_def) (simp add: rrestart_def)
qed

text \<open>C29: Resume refines the specification by sets. From every durable state and for every event, a batch of items with a crash in it, a
  restart, a re-join and an item without its number (which raises) included, the device emits exactly what the
  specification emits, and its state afterwards stands for the specification's state: the numbers it has passed are the
  numbers it will call duplicates.\<close>

theorem resume_refines_sets:
  "map_option (\<lambda>(r', out). (abs_resume r', out)) (resume_step r e) = spec_step (abs_resume r) e"
proof (cases e)
  case (RRejoined g s)
  then show ?thesis using abs_rejoined by simp
qed (simp_all add: abs_items abs_position abs_restart rsync_def abs_cursor, simp_all add: abs_resume_def)

section \<open>Items behind a gap\<close>

definition gap_ok :: "gap \<Rightarrow> bool" where
  "gap_ok g \<longleftrightarrow> sorted_wrt (<) (gp_held g) \<and> set (gp_held g) \<subseteq> set (gp_seen g) \<and> (\<forall>h \<in> set (gp_held g). gp_contiguous g < h)
     \<and> gp_contiguous g + 1 \<notin> set (gp_seen g) \<and> (gp_held g = [] \<longleftrightarrow> gp_since g = None)"

text \<open>The numbers dealt with, and the numbers processed by a list of emissions.\<close>

definition dealt :: "gap \<Rightarrow> int set" where
  "dealt g = {..gp_contiguous g} \<union> (set (gp_seen g) - set (gp_held g))"

definition processed :: "gap_out list \<Rightarrow> int list" where
  "processed out = concat (map (\<lambda>x. case x of GProcess s \<Rightarrow> [s] | _ \<Rightarrow> []) out)"

lemma processed_simps [simp]: "processed [] = []" "processed (GProcess s # out) = s # processed out" "processed (GHold s # out) = processed out"
  "processed (GDuplicate s # out) = processed out" "processed (GRejoin ss # out) = processed out" "processed (map GProcess ss) = ss"
  by (simp_all add: processed_def comp_def)

lemma sorted_split_at: "sorted_wrt (<) (xs :: int list) \<Longrightarrow>
    set (takeWhile (\<lambda>s. s \<le> c) xs) = {s \<in> set xs. s \<le> c} \<and> set (dropWhile (\<lambda>s. s \<le> c) xs) = {s \<in> set xs. c < s}"
proof (induction xs)
  case (Cons x xs)
  have "c < y" if "y \<in> set xs" "\<not> x \<le> c" for y
    using Cons.prems that by fastforce
  with Cons show ?case
    by (cases "x \<le> c") auto
qed simp

definition gap_good :: "gap \<Rightarrow> gap \<Rightarrow> int list \<Rightarrow> bool" where
  "gap_good g g' ps \<longleftrightarrow> gap_ok g' \<and> distinct ps \<and> dealt g \<subseteq> dealt g' \<and> set ps \<subseteq> dealt g' - dealt g
     \<and> (\<forall>s \<in> set ps. \<forall>h \<in> set (gp_held g'). s < h)"

lemma gap_item_good:
  assumes ok: "gap_ok g"
  shows "gap_good g (fst (gap_item seq cls g)) (processed (snd (gap_item seq cls g)))"
proof (cases "seq \<le> gp_contiguous g \<or> seq \<in> set (gp_seen g)")
  case True
  then show ?thesis using ok by (simp add: gap_item_def gap_good_def)
next
  case fresh: False
  define waits where "waits = ((cls = ''handshake'' \<and> seq > gp_contiguous g + 1) \<or> (case gp_held g of [] \<Rightarrow> False | h # _ \<Rightarrow> seq > h))"
  define held where "held = (if waits then sort (gp_held g @ [seq]) else gp_held g)"
  define since where "since = (if waits \<and> gp_since g = None then Some (gp_now g) else gp_since g)"
  obtain c d where dr: "drain (gp_contiguous g) (gp_seen g @ [seq]) = (c, d)" by fastforce
  define left where "left = dropWhile (\<lambda>s. s \<le> c) held"
  define go where "go = takeWhile (\<lambda>s. s \<le> c) held"
  define g' where "g' = g\<lparr>gp_contiguous := c, gp_seen := d, gp_held := left, gp_since := (if left = [] then None else since)\<rparr>"
  have item: "gap_item seq cls g = (g', (if waits then GHold seq else GProcess seq) # map GProcess go)"
    using fresh dr unfolding gap_item_def waits_def [symmetric] Let_def held_def [symmetric] since_def [symmetric]
    by (simp add: left_def go_def g'_def)
  have all: "n \<le> c \<or> n \<in> set d \<longleftrightarrow> n = seq \<or> n \<le> gp_contiguous g \<or> n \<in> set (gp_seen g)" for n
    using drain_seen [OF dr] by (auto simp: set_eq_iff)
  have nxt: "gp_contiguous g \<le> c" "c + 1 \<notin> set d" using drain_next [OF dr] by auto
  have old: "sorted_wrt (<) (gp_held g)" "set (gp_held g) \<subseteq> set (gp_seen g)" "\<forall>h \<in> set (gp_held g). gp_contiguous g < h"
      "gp_held g = [] \<longleftrightarrow> gp_since g = None"
    using ok by (simp_all add: gap_ok_def)
  have new: "seq \<notin> set (gp_seen g)" "gp_contiguous g < seq" using fresh by auto
  have sorted_held: "sorted_wrt (<) held"
    using old(1,2) new(1) by (auto simp: held_def strict_sorted_iff)
  have set_held: "set held = set (gp_held g) \<union> (if waits then {seq} else {})"
    by (simp add: held_def)
  have set_left: "set left = {s \<in> set held. c < s}" and set_go: "set go = {s \<in> set held. s \<le> c}"
    using sorted_split_at [OF sorted_held] by (auto simp: left_def go_def)
  have first: "\<forall>h \<in> set (gp_held g). seq < h" if "\<not> waits"
    using that old(1,2) new(1) by (cases "gp_held g") (auto simp: waits_def not_less intro: order.strict_trans1 order.not_eq_order_implies_strict)
  have "gap_ok g'"
  proof -
    have "sorted_wrt (<) left"
      using sorted_held takeWhile_dropWhile_id [of "\<lambda>s. s \<le> c" held] sorted_wrt_append unfolding left_def by metis
    moreover have "set left \<subseteq> set d"
    proof
      fix x assume "x \<in> set left"
      then have "c < x" "x = seq \<or> x \<in> set (gp_seen g)" using set_left set_held old(2) by (auto split: if_splits)
      then show "x \<in> set d" using all [of x] by auto
    qed
    moreover have "left \<noteq> [] \<Longrightarrow> since \<noteq> None"
      using old(4) set_left set_held by (auto simp: since_def split: if_splits)
    ultimately show ?thesis
      using nxt set_left by (auto simp: gap_ok_def g'_def)
  qed
  moreover have "distinct ((if waits then [] else [seq]) @ go)"
    using sorted_held set_held set_go old(2) new(1) by (auto simp: go_def strict_sorted_iff)
  moreover have "dealt g \<subseteq> dealt g'"
  proof
    fix n assume "n \<in> dealt g"
    then have n: "n \<le> gp_contiguous g \<or> n \<in> set (gp_seen g) \<and> n \<notin> set (gp_held g)" "n \<noteq> seq"
      using new by (auto simp: dealt_def)
    then have "n \<le> c \<or> n \<in> set d" "n \<notin> set left"
      using all [of n] nxt(1) set_left set_held by (auto split: if_splits)
    then show "n \<in> dealt g'" by (auto simp: dealt_def g'_def)
  qed
  moreover have "set ((if waits then [] else [seq]) @ go) \<subseteq> dealt g' - dealt g"
  proof
    fix n assume n: "n \<in> set ((if waits then [] else [seq]) @ go)"
    then have "n = seq \<or> n \<in> set (gp_held g)" "n \<notin> set left"
      using set_go set_left set_held old(2) new(1) by (auto split: if_splits)
    moreover have "n \<le> c \<or> n \<in> set d" using all [of n] calculation(1) old(2) by auto
    ultimately show "n \<in> dealt g' - dealt g"
      using new old(3) by (fastforce simp: dealt_def g'_def)
  qed
  moreover have "\<forall>s \<in> set ((if waits then [] else [seq]) @ go). \<forall>h \<in> set left. s < h"
    using first set_left set_go set_held by (auto split: if_splits)
  moreover have "gp_held g' = left" by (simp add: g'_def)
  ultimately show ?thesis
    unfolding item gap_good_def by (cases waits) simp_all
qed

lemma gap_advance_good:
  assumes ok: "gap_ok g"
  shows "\<exists>g' out. gap_advance n g = Some (g', out) \<and> gap_good g g' (processed out)"
proof (cases "gp_held g")
  case Nil
  with ok show ?thesis by (simp add: gap_advance_def gap_good_def gap_ok_def dealt_def)
next
  case (Cons h hs)
  with ok obtain t where t: "gp_since g = Some t" by (auto simp: gap_ok_def)
  define top where "top = foldl max h (hs @ gp_seen g)"
  define g' where "g' = g\<lparr>gp_now := gp_now g + n, gp_contiguous := top, gp_seen := [], gp_held := [], gp_since := None\<rparr>"
  have below: "n \<le> top" if "n = h \<or> n \<in> set hs \<or> n \<in> set (gp_seen g)" for n
    using that unfolding top_def below_foldl_max by auto
  moreover have "gp_contiguous g < h" using ok Cons by (simp add: gap_ok_def)
  ultimately have "dealt g \<subseteq> dealt g'"
    by (fastforce simp: dealt_def g'_def)
  then have "gap_good g g' []"
    by (simp add: gap_good_def gap_ok_def g'_def)
  moreover have "gap_good g (g\<lparr>gp_now := gp_now g + n\<rparr>) []"
    using ok by (simp add: gap_good_def gap_ok_def dealt_def)
  ultimately show ?thesis
    using Cons t unfolding gap_advance_def Let_def by (simp add: top_def [symmetric] g'_def [symmetric] del: foldl_append)
qed

lemma gap_step_good: assumes "gap_ok g" shows "\<exists>g' out. gap_step g e = Some (g', out) \<and> gap_good g g' (processed out)"
proof (cases e)
  case (GAdvance n)
  with gap_advance_good [OF assms] show ?thesis by simp
next
  case (GItem seq cls)
  with gap_item_good [OF assms, of seq cls] show ?thesis by (cases "gap_item seq cls g") simp
qed

text \<open>A run, and what it processes.\<close>

fun gap_run :: "gap \<Rightarrow> gap_event list \<Rightarrow> (gap \<times> int list) option" where
  "gap_run g [] = Some (g, [])"
| "gap_run g (e # es) = (case gap_step g e of None \<Rightarrow> None
    | Some (g1, out) \<Rightarrow> map_option (\<lambda>(g2, ps). (g2, processed out @ ps)) (gap_run g1 es))"

lemma gap_run_good: "gap_ok g \<Longrightarrow> \<exists>g' ps. gap_run g es = Some (g', ps) \<and> gap_ok g' \<and> distinct ps \<and> set ps \<inter> dealt g = {}"
proof (induction es arbitrary: g)
  case (Cons e es)
  obtain g1 out where s: "gap_step g e = Some (g1, out)" and good: "gap_good g g1 (processed out)"
    using gap_step_good [OF Cons.prems] by blast
  then obtain g2 ps where r: "gap_run g1 es = Some (g2, ps)" "gap_ok g2" "distinct ps" "set ps \<inter> dealt g1 = {}"
    using Cons.IH [of g1] by (auto simp: gap_good_def)
  with s good show ?case by (auto simp: gap_good_def)
qed simp

lemma init_gap_ok: "gap_ok (init_gap now c t)"
  by (simp add: gap_ok_def init_gap_def)

section \<open>The outbox\<close>

definition taken :: "outage_event \<Rightarrow> outage_out list \<Rightarrow> string list" where
  "taken e out = (case e of OgDeposit i \<Rightarrow> if out = [OgRefuse] then [] else [i] | _ \<Rightarrow> [])"

definition settled_items :: "outage_out list \<Rightarrow> string list" where
  "settled_items out = concat (map (\<lambda>x. case x of OgSent i \<Rightarrow> [i] | OgRefused i _ \<Rightarrow> [i] | OgSuccessor ids \<Rightarrow> ids | _ \<Rightarrow> []) out)"

definition outage_ok :: "outage \<Rightarrow> bool" where
  "outage_ok g \<longleftrightarrow> (og_state g = ''down'' \<longrightarrow> og_down_since g \<noteq> None)"

lemma settled_forwards [simp]: "settled_items (map OgForward ids) = []"
  by (simp add: settled_items_def comp_def)

definition balanced :: "outage \<Rightarrow> outage_event \<Rightarrow> outage \<Rightarrow> outage_out list \<Rightarrow> bool" where
  "balanced g e g' out \<longleftrightarrow> outage_ok g' \<and> mset (og_pending g) + mset (taken e out) = mset (og_pending g') + mset (settled_items out)"

lemma unreachable_balanced: "outage_ok g \<Longrightarrow> taken e (snd (og_unreachable i g)) = [] \<Longrightarrow> balanced g e (fst (og_unreachable i g)) (snd (og_unreachable i g))"
  by (auto simp: og_unreachable_def Let_def balanced_def outage_ok_def settled_items_def)

lemma answer_balanced: assumes "outage_ok g" shows "balanced g (OgAnswer i reason) (fst (og_answer i reason g)) (snd (og_answer i reason g))"
proof -
  consider "reason \<in> {Some ''mailbox.hub-unreachable'', Some ''mailbox.quota-exceeded''}"
    | "reason \<notin> {Some ''mailbox.hub-unreachable'', Some ''mailbox.quota-exceeded''}" "i \<notin> set (og_pending g)"
    | "reason \<notin> {Some ''mailbox.hub-unreachable'', Some ''mailbox.quota-exceeded''}" "i \<in> set (og_pending g)" by blast
  then show ?thesis
  proof cases
    case 1
    then show ?thesis using unreachable_balanced [OF assms, of "OgAnswer i reason" i] by (simp add: og_answer_def taken_def)
  next
    case 2
    then show ?thesis using assms by (simp add: og_answer_def balanced_def taken_def settled_items_def)
  next
    case 3
    have one: "settled_items (OgSent i # map OgForward ids) = [i]" "settled_items [OgSent i] = [i]" "settled_items [OgRefused i r] = [i]" for ids r
      by (simp_all add: settled_items_def comp_def)
    from 3 assms show ?thesis
      by (cases reason) (simp_all add: og_answer_def Let_def balanced_def outage_ok_def taken_def one)
  qed
qed

lemma advance_balanced: "outage_ok g \<Longrightarrow> \<exists>g' out. og_advance n g = Some (g', out) \<and> balanced g (OgAdvance n) g' out"
  by (cases "og_pending g"; cases "og_down_since g")
    (auto simp: og_advance_def Let_def balanced_def outage_ok_def taken_def settled_items_def)

lemma outage_step_balanced: assumes "outage_ok g" shows "\<exists>g' out. outage_step g e = Some (g', out) \<and> balanced g e g' out"
proof (cases e)
  case (OgDeposit i)
  with assms show ?thesis by (auto simp: og_deposit_def balanced_def outage_ok_def taken_def settled_items_def)
next
  case (OgNoAnswer i)
  with unreachable_balanced [OF assms, of e i] show ?thesis by (cases "og_unreachable i g") (simp add: taken_def)
next
  case (OgAnswer i reason)
  with answer_balanced [OF assms, of i reason] show ?thesis by (cases "og_answer i reason g") simp
next
  case OgHandoverFailed
  with assms show ?thesis by (auto simp: og_handover_failed_def Let_def balanced_def outage_ok_def taken_def settled_items_def)
next
  case (OgAdvance n)
  with advance_balanced [OF assms] show ?thesis by simp
qed

fun outage_run :: "outage \<Rightarrow> outage_event list \<Rightarrow> (outage \<times> string list \<times> string list) option" where
  "outage_run g [] = Some (g, [], [])"
| "outage_run g (e # es) = (case outage_step g e of None \<Rightarrow> None
    | Some (g1, out) \<Rightarrow> map_option (\<lambda>(g2, ins, outs). (g2, taken e out @ ins, settled_items out @ outs)) (outage_run g1 es))"

lemma outage_run_balanced: "outage_ok g \<Longrightarrow> \<exists>g' ins outs. outage_run g es = Some (g', ins, outs)
    \<and> mset (og_pending g) + mset ins = mset (og_pending g') + mset outs"
proof (induction es arbitrary: g)
  case (Cons e es)
  obtain g1 out where s: "outage_step g e = Some (g1, out)" and b: "balanced g e g1 out"
    using outage_step_balanced [OF Cons.prems] by blast
  then obtain g2 ins outs where r: "outage_run g1 es = Some (g2, ins, outs)" "mset (og_pending g1) + mset ins = mset (og_pending g2) + mset outs"
    using Cons.IH [of g1] by (auto simp: balanced_def)
  have "mset (og_pending g) + mset (taken e out @ ins) = mset (og_pending g2) + mset (settled_items out @ outs)"
    using b r(2) unfolding balanced_def mset_append by (metis add.assoc add.commute)
  with s r(1) show ?case by simp
qed simp

section \<open>Properties of the gap tracker and the outbox\<close>

text \<open>C30: An item behind a gap is processed once and in its turn. Whatever items arrive in whatever order and however time passes,
  no event raises and no number is processed twice in the whole run; and whatever item comes next, what it releases is
  processed before every item that stays held, a numerically later one never overtaking it.\<close>

theorem gap_processes_once:
  "\<exists>g ps. gap_run (init_gap now c t) es = Some (g, ps) \<and> distinct ps
     \<and> (\<forall>s \<in> set (processed (snd (gap_item seq cls g))). s \<notin> set ps \<and> (\<forall>h \<in> set (gp_held (fst (gap_item seq cls g))). s < h))"
proof -
  obtain g ps where r: "gap_run (init_gap now c t) es = Some (g, ps)" "gap_ok g" "distinct ps"
    using gap_run_good [OF init_gap_ok] by blast
  obtain h qs where "gap_run (init_gap now c t) (es @ [GItem seq cls]) = Some (h, qs)" "distinct qs"
    using gap_run_good [OF init_gap_ok] by blast
  moreover have "gap_run g0 es = Some (g, ps) \<Longrightarrow> gap_run g0 (es @ [GItem seq cls])
      = Some (fst (gap_item seq cls g), ps @ processed (snd (gap_item seq cls g)))" for g0
  proof (induction es arbitrary: g0 ps)
    case (Cons e es)
    then show ?case by (auto split: option.splits)
  qed (simp add: case_prod_beta')
  ultimately have "distinct (ps @ processed (snd (gap_item seq cls g)))" using r(1) by simp
  then show ?thesis
    using r gap_item_good [OF r(2), of seq cls] by (auto simp: gap_good_def)
qed

theorem gap_processes_once_witness:
  "map_option snd (gap_run (init_gap 0 None None) [GItem 3 ''handshake'', GItem 1 ''handshake'', GItem 2 ''application'']) = Some [1, 2, 3]
     \<and> (\<exists>g ps. gap_run (init_gap 0 None None) [GItem 3 ''handshake'', GItem 1 ''handshake'', GItem 2 ''application''] = Some (g, ps)
       \<and> distinct ps \<and> (\<forall>s \<in> set (processed (snd (gap_item 4 ''handshake'' g))). s \<notin> set ps))"
proof -
  let ?es = "[GItem 3 ''handshake'', GItem 1 ''handshake'', GItem 2 ''application'']"
  have "map_option snd (gap_run (init_gap 0 None None) ?es) = Some [1, 2, 3]" by code_simp
  then show ?thesis
    using gap_processes_once [of 0 None None ?es 4 "''handshake''"] by blast
qed

text \<open>The outbox loses nothing and repeats nothing. Over any run the items pending at the start and the deposits taken are
  exactly, with multiplicity, the items still pending and the items settled: sent, refused by the hub, or handed to the
  successor group; and no event raises.\<close>

theorem outage_loses_nothing:
  "\<exists>g ins outs. outage_run (init_outage now timeout pending down) es = Some (g, ins, outs)
     \<and> mset pending + mset ins = mset (og_pending g) + mset outs"
proof -
  have "outage_ok (init_outage now timeout pending down)" "og_pending (init_outage now timeout pending down) = pending"
    by (simp_all add: outage_ok_def init_outage_def)
  then show ?thesis using outage_run_balanced by metis
qed

end
