(* ===== verification/Client_Model.thy ===== *)
theory Client_Model
  imports Registry
begin

text \<open>
  A device's view of one conversation (class \<open>Client\<close> of \<^verbatim>\<open>dsipvec/messaging.py\<close>): the timeline, receipts and read
  watermarks, activities and what it sends; its history from MLS items and archive records (class \<open>History\<close>); and the
  decisions about calls that were not answered.
\<close>

definition MEDIA_KINDS :: "string list" where "MEDIA_KINDS = [''audio'', ''video'']"
definition DELIVERED_MAX_GROUP :: int where "DELIVERED_MAX_GROUP = 32"
definition RECEIPT_MAX_TARGETS :: nat where "RECEIPT_MAX_TARGETS = 256"
definition READ_MIN_INTERVAL_S :: int where "READ_MIN_INTERVAL_S = 5"
definition ACTIVITY_REFRESH_S :: int where "ACTIVITY_REFRESH_S = 5"

section \<open>Client\<close>

record ccontent =
  cc_sender :: string
  cc_seq :: int
  cc_kind :: string

record creceipt =
  cr_kind :: string
  cr_sender :: string
  cr_sent_at :: int
  cr_targets :: "string list"
  cr_through :: "string option"

text \<open>An object of a batch: content with its id, a receipt, or another object, with its sequence number beside it.\<close>

datatype cobject = CoContent string string string | CoReceipt creceipt | CoOther

record client =
  cl_now :: int
  cl_me :: string
  cl_policy :: "string set"
  cl_members :: int
  cl_content :: "(string, ccontent) dict"
  cl_timeline :: "string list"
  cl_delivered :: "(string, (string, int) dict) dict"
  cl_played :: "(string, (string, int) dict) dict"
  cl_read_seq :: "(string, int) dict"
  cl_read_through :: "(string, string) dict"
  cl_sent_delivered :: "string set"
  cl_sent_played :: "string set"
  cl_last_read_sent :: "int option"
  cl_pending_read :: bool
  cl_last_activity :: "(string, int) dict"
  cl_shown :: "(string, (string, int) dict) dict"

datatype cout =
    ClArchive int
  | ClSendDelivered "string list"
  | ClSendRead bool string
  | ClSendPlayed string
  | ClSendActivity string string

text \<open>The policy is the set of the receipts and signals that are turned on; without a member count there are two.\<close>

definition init_client :: "int \<Rightarrow> string \<Rightarrow> string set \<Rightarrow> int option \<Rightarrow> client" where
  "init_client now me policy members = \<lparr>cl_now = now, cl_me = me, cl_policy = policy,
     cl_members = (case members of Some n \<Rightarrow> n | None \<Rightarrow> 2), cl_content = [], cl_timeline = [], cl_delivered = [], cl_played = [],
     cl_read_seq = [], cl_read_through = [], cl_sent_delivered = {}, cl_sent_played = {}, cl_last_read_sent = None,
     cl_pending_read = False, cl_last_activity = [], cl_shown = []\<rparr>"

definition has_receipt :: "(string, (string, int) dict) dict \<Rightarrow> string \<Rightarrow> string \<Rightarrow> bool" where
  "has_receipt book i who \<longleftrightarrow> who \<in> set (dkeys (dget_or book i []))"

text \<open>One target of a delivered or played receipt: the first receipt by sequence number stays.\<close>

definition receipt_target :: "creceipt \<Rightarrow> client \<times> bool \<Rightarrow> string \<Rightarrow> client \<times> bool" where
  "receipt_target ob acc t = (case acc of (c, changed) \<Rightarrow>
     (let book = (if cr_kind ob = ''delivered'' then cl_delivered c else cl_played c)
      in case dget (cl_content c) t of
           None \<Rightarrow> acc
         | Some k \<Rightarrow>
             if cc_sender k = cr_sender ob then acc
             else if cr_kind ob = ''played'' \<and> cc_kind k \<notin> set MEDIA_KINDS then acc
             else if has_receipt book t (cr_sender ob) then acc
             else
               (let book1 = dset t (dset (cr_sender ob) (cr_sent_at ob) (dget_or book t [])) book
                in (if cr_kind ob = ''delivered'' then c\<lparr>cl_delivered := book1\<rparr> else c\<lparr>cl_played := book1\<rparr>, True))))"

definition creceive :: "creceipt \<Rightarrow> client \<Rightarrow> client \<times> bool" where
  "creceive ob c =
    (if cr_kind ob \<in> {''delivered'', ''played''} then foldl (receipt_target ob) (c, False) (cr_targets ob)
     else if cr_kind ob = ''read'' then
       (case cr_through ob of
          None \<Rightarrow> (c, False)
        | Some thr \<Rightarrow>
            (case dget (cl_content c) thr of
               None \<Rightarrow> (c, False)
             | Some k \<Rightarrow>
                 if cc_seq k > dget_or (cl_read_seq c) (cr_sender ob) 0
                 then (c\<lparr>cl_read_seq := dset (cr_sender ob) (cc_seq k) (cl_read_seq c),
                        cl_read_through := dset (cr_sender ob) thr (cl_read_through c)\<rparr>, True)
                 else (c, False)))
     else (c, False))"

definition add_content :: "string \<Rightarrow> string \<Rightarrow> string \<Rightarrow> int \<Rightarrow> client \<Rightarrow> client" where
  "add_content i sender kind seq c =
    c\<lparr>cl_content := dset i \<lparr>cc_sender = sender, cc_seq = seq, cc_kind = kind\<rparr> (cl_content c), cl_timeline := cl_timeline c @ [i]\<rparr>"

text \<open>One item of a batch; the accumulator holds the new content and the receipts to archive.\<close>

definition sync_item :: "client \<times> string list \<times> cout list \<Rightarrow> cobject \<times> int \<Rightarrow> client \<times> string list \<times> cout list" where
  "sync_item acc item = (case acc of (c, fresh, archive) \<Rightarrow>
     (case item of
        (CoContent i sender kind, seq) \<Rightarrow>
          if dget (cl_content c) i \<noteq> None then acc else (add_content i sender kind seq c, fresh @ [i], archive)
      | (CoReceipt ob, seq) \<Rightarrow>
          (let (c1, changed) = creceive ob c in (c1, fresh, if changed then archive @ [ClArchive seq] else archive))
      | (CoOther, seq) \<Rightarrow> acc))"

function chunks :: "nat \<Rightarrow> 'a list \<Rightarrow> 'a list list" where
  "chunks n xs = (if xs = [] then [] else if n = 0 then [xs] else take n xs # chunks n (drop n xs))"
  by pat_completeness auto
termination
  by (relation "measure (\<lambda>(n, xs). length xs)") auto

declare chunks.simps [simp del]

definition csync :: "(cobject \<times> int) list \<Rightarrow> client \<Rightarrow> client \<times> cout list" where
  "csync items c =
    (let (c1, fresh, archive) = foldl sync_item (c, [], []) items
     in if ''delivered'' \<in> cl_policy c1 \<and> cl_members c1 \<le> DELIVERED_MAX_GROUP
        then (let targets = filter (\<lambda>i. (case dget (cl_content c1) i of None \<Rightarrow> False | Some k \<Rightarrow> cc_sender k \<noteq> cl_me c1)
                    \<and> \<not> has_receipt (cl_delivered c1) i (cl_me c1) \<and> i \<notin> cl_sent_delivered c1) fresh
              in (c1\<lparr>cl_sent_delivered := cl_sent_delivered c1 \<union> set targets\<rparr>,
                  archive @ map ClSendDelivered (chunks RECEIPT_MAX_TARGETS targets)))
        else (c1, archive))"

definition restore_item :: "client \<Rightarrow> cobject \<times> int \<Rightarrow> client" where
  "restore_item c item =
    (case item of
       (CoContent i sender kind, seq) \<Rightarrow> if dget (cl_content c) i = None then add_content i sender kind seq c else c
     | (CoReceipt ob, seq) \<Rightarrow> fst (creceive ob c)
     | (CoOther, seq) \<Rightarrow> c)"

definition read_send :: "client \<Rightarrow> (client \<times> cout list) option" where
  "read_send c = map_option (\<lambda>thr. (c\<lparr>cl_last_read_sent := Some (cl_now c), cl_pending_read := False\<rparr>,
     [ClSendRead (''read'' \<in> cl_policy c) thr])) (dget (cl_read_through c) (cl_me c))"

definition cread :: "string \<Rightarrow> client \<Rightarrow> (client \<times> cout list) option" where
  "cread thr c =
    (case dget (cl_content c) thr of
       None \<Rightarrow> Some (c, [])
     | Some k \<Rightarrow>
         if cc_seq k \<le> dget_or (cl_read_seq c) (cl_me c) 0 then Some (c, [])
         else
           (let c1 = c\<lparr>cl_read_seq := dset (cl_me c) (cc_seq k) (cl_read_seq c), cl_read_through := dset (cl_me c) thr (cl_read_through c)\<rparr>
            in if (case cl_last_read_sent c1 of None \<Rightarrow> False | Some t \<Rightarrow> cl_now c1 - t < READ_MIN_INTERVAL_S)
               then Some (c1\<lparr>cl_pending_read := True\<rparr>, []) else read_send c1))"

definition activity_in :: "string \<Rightarrow> string \<Rightarrow> string \<Rightarrow> int \<Rightarrow> client \<Rightarrow> client" where
  "activity_in sender activity state expires c =
    (let acts = dget_or (cl_shown c) sender [];
         acts1 = (if state = ''stopped'' then ddel activity acts
                  else if expires > cl_now c then dset activity expires acts else acts)
     in c\<lparr>cl_shown := (if acts1 = [] then ddel sender (cl_shown c) else dset sender acts1 (cl_shown c))\<rparr>)"

definition cadvance :: "int \<Rightarrow> client \<Rightarrow> (client \<times> cout list) option" where
  "cadvance n c0 =
    (let c = c0\<lparr>cl_now := cl_now c0 + n\<rparr>;
         c1 = c\<lparr>cl_shown := filter (\<lambda>(_, acts). acts \<noteq> []) (map (\<lambda>(who, acts). (who, filter (\<lambda>(_, t). t > cl_now c) acts)) (cl_shown c))\<rparr>
     in if cl_pending_read c1
        then (case cl_last_read_sent c1 of
                None \<Rightarrow> None
              | Some t \<Rightarrow> if cl_now c1 - t \<ge> READ_MIN_INTERVAL_S then read_send c1 else Some (c1, []))
        else Some (c1, []))"

definition cplay :: "string \<Rightarrow> client \<Rightarrow> client \<times> cout list" where
  "cplay i c =
    (if (case dget (cl_content c) i of None \<Rightarrow> True | Some k \<Rightarrow> cc_kind k \<notin> set MEDIA_KINDS)
        \<or> ''played'' \<notin> cl_policy c \<or> has_receipt (cl_played c) i (cl_me c) \<or> i \<in> cl_sent_played c
     then (c, []) else (c\<lparr>cl_sent_played := insert i (cl_sent_played c)\<rparr>, [ClSendPlayed i]))"

definition cactivity :: "string \<Rightarrow> string \<Rightarrow> client \<Rightarrow> client \<times> cout list" where
  "cactivity a state c =
    (if ''activity'' \<notin> cl_policy c then (c, [])
     else if state = ''active'' then
       (if (case dget (cl_last_activity c) a of None \<Rightarrow> False | Some t \<Rightarrow> cl_now c - t < ACTIVITY_REFRESH_S) then (c, [])
        else (c\<lparr>cl_last_activity := dset a (cl_now c) (cl_last_activity c)\<rparr>, [ClSendActivity a state]))
     else (c\<lparr>cl_last_activity := ddel a (cl_last_activity c)\<rparr>, [ClSendActivity a state]))"

datatype cevent =
    ClSync "(cobject \<times> int) list"
  | ClRestore "(cobject \<times> int) list"
  | ClRead string
  | ClActivityIn string string string int
  | ClAdvance int
  | ClPlay string
  | ClActivity string string

fun client_step :: "client \<Rightarrow> cevent \<Rightarrow> (client \<times> cout list) option" where
  "client_step c (ClSync items) = Some (csync items c)"
| "client_step c (ClRestore items) = Some (foldl restore_item c items, [])"
| "client_step c (ClRead thr) = cread thr c"
| "client_step c (ClActivityIn sender activity state expires) = Some (activity_in sender activity state expires c, [])"
| "client_step c (ClAdvance n) = cadvance n c"
| "client_step c (ClPlay i) = Some (cplay i c)"
| "client_step c (ClActivity a state) = Some (cactivity a state c)"

section \<open>Calls that were not answered\<close>

definition VOICEMAIL_REJECT_REASONS :: "string list" where
  "VOICEMAIL_REJECT_REASONS = [''user.no-answer'', ''user.declined'', ''endpoint.busy'', ''endpoint.unavailable'']"

text \<open>The outcome to send as a call event, if one is sent; a missing reason is the empty string.\<close>

definition call_event_decision :: "bool \<Rightarrow> bool \<Rightarrow> string option \<Rightarrow> string option \<Rightarrow> string option" where
  "call_event_decision alerted answered_here reason ended_by =
    (let r = (case reason of Some x \<Rightarrow> x | None \<Rightarrow> '''')
     in if \<not> alerted \<or> answered_here then None
        else if r = ''session.answered-elsewhere'' then None
        else if ended_by = Some ''local'' \<and> r = ''user.declined'' then Some ''declined'' else Some ''missed'')"

text \<open>May the caller be offered a voicemail, and of what length at most: \<open>vm\<close> is the callee's voicemail object, with its limit.\<close>

definition voicemail_offer :: "int option option \<Rightarrow> bool \<Rightarrow> string option \<Rightarrow> string option \<Rightarrow> int option option" where
  "voicemail_offer vm can_send typ reason =
    (let r = (case reason of Some x \<Rightarrow> x | None \<Rightarrow> '''');
         ok = (if typ = Some ''reject''
               then r \<in> set VOICEMAIL_REJECT_REASONS \<or> dget REASONS r = None \<and> before_sep CHR ''.'' r = ''endpoint''
               else typ = Some ''cancel'' \<and> r = ''session.timeout'')
     in if can_send \<and> ok then vm else None)"

fun place_calls :: "(string \<times> int) list \<Rightarrow> (string \<times> int) list \<Rightarrow> string list" where
  "place_calls calls [] = map (\<lambda>(s, _). ''call:'' @ s) calls"
| "place_calls calls ((i, at) # content) =
     map (\<lambda>(s, _). ''call:'' @ s) (takeWhile (\<lambda>(_, t). t < at) calls)
       @ (''content:'' @ i) # place_calls (dropWhile (\<lambda>(_, t). t < at) calls) content"

fun first_calls :: "string set \<Rightarrow> (string \<times> int) list \<Rightarrow> (string \<times> int) list \<times> string list" where
  "first_calls seen [] = ([], [])"
| "first_calls seen ((s, t) # calls) =
    (let (kept, collapsed) = first_calls (insert s seen) calls
     in if s \<in> seen then (kept, s # collapsed) else ((s, t) # kept, collapsed))"

text \<open>Calls are pairs of session and time, content of id and time; the result is the timeline and the collapsed sessions.\<close>

definition peer_timeline :: "(string \<times> int) list \<Rightarrow> (string \<times> int) list \<Rightarrow> string list \<times> string list" where
  "peer_timeline calls content =
    (let (kept, collapsed) = first_calls {} calls in (place_calls (sort_key snd kept) content, collapsed))"

section \<open>History\<close>

record hrec =
  hr_akid :: string
  hr_cursor :: string
  hr_id :: string
  hr_object :: "string option"
  hr_group :: string
  hr_seq :: int

record hmls =
  ml_id :: string
  ml_object :: "string option"
  ml_group :: string
  ml_epoch :: int
  ml_seq :: int

record history =
  hs_keys :: "(string, int) dict"
  hs_joined :: "(string, int) dict"
  hs_held :: "hrec list"
  hs_shown :: "(string, string \<times> int) dict"
  hs_applied :: "string set"

datatype hsout =
    HsDuplicate string
  | HsShow string
  | HsHold string
  | HsApply string
  | HsPrejoin int
  | HsArchive string int string

definition current_key :: "history \<Rightarrow> string option" where
  "current_key h = (if hs_keys h = [] then None else Some (snd (Max (set (map (\<lambda>(k, t). (t, k)) (hs_keys h))))))"

definition hs_show :: "string \<Rightarrow> string \<Rightarrow> int \<Rightarrow> history \<Rightarrow> history \<times> hsout" where
  "hs_show i grp seq h =
    (if dget (hs_shown h) i \<noteq> None then (h, HsDuplicate i) else (h\<lparr>hs_shown := dset i (grp, seq) (hs_shown h)\<rparr>, HsShow i))"

text \<open>Receipts and call events restore state and have no place in the timeline.\<close>

definition is_state :: "string option \<Rightarrow> bool" where
  "is_state ob \<longleftrightarrow> ob = Some ''receipt'' \<or> ob = Some ''call-event''"

definition hs_open :: "hrec \<Rightarrow> history \<Rightarrow> history \<times> hsout" where
  "hs_open e h =
    (if is_state (hr_object e)
     then (if hr_id e \<in> hs_applied h then (h, HsDuplicate (hr_id e))
           else (h\<lparr>hs_applied := insert (hr_id e) (hs_applied h)\<rparr>, HsApply (hr_cursor e)))
     else hs_show (hr_id e) (hr_group e) (hr_seq e) h)"

definition hs_archive :: "hrec \<Rightarrow> history \<Rightarrow> history \<times> hsout list" where
  "hs_archive e h =
    (if dget (hs_keys h) (hr_akid e) = None then (h\<lparr>hs_held := hs_held h @ [e]\<rparr>, [HsHold (hr_cursor e)])
     else (let (h1, out) = hs_open e h in (h1, [out])))"

definition hs_release :: "string \<Rightarrow> history \<times> hsout list \<times> hrec list \<Rightarrow> hrec \<Rightarrow> history \<times> hsout list \<times> hrec list" where
  "hs_release akid acc e = (case acc of (h, out, keep) \<Rightarrow>
     if hr_akid e = akid then (let (h1, o1) = hs_open e h in (h1, out @ [o1], keep)) else (h, out, keep @ [e]))"

definition hs_archive_key :: "string \<Rightarrow> int \<Rightarrow> history \<Rightarrow> history \<times> hsout list" where
  "hs_archive_key akid created h =
    (let (h1, out, keep) = foldl (hs_release akid) (h\<lparr>hs_keys := dset akid created (hs_keys h)\<rparr>, [], []) (hs_held h)
     in (h1\<lparr>hs_held := keep\<rparr>, out))"

text \<open>What the device sends itself, and what it gets from MLS after its join, is shown and archived under the current key.\<close>

definition hs_sent :: "hmls \<Rightarrow> history \<Rightarrow> history \<times> hsout list" where
  "hs_sent e h =
    (let archive = (case current_key h of None \<Rightarrow> [] | Some k \<Rightarrow> [HsArchive (ml_group e) (ml_seq e) k])
     in if is_state (ml_object e)
        then (if ml_id e \<in> hs_applied h then (h, [HsDuplicate (ml_id e)])
              else (h\<lparr>hs_applied := insert (ml_id e) (hs_applied h)\<rparr>, archive))
        else (case hs_show (ml_id e) (ml_group e) (ml_seq e) h of
                (h1, HsShow i) \<Rightarrow> (h1, HsShow i # archive)
              | (h1, out) \<Rightarrow> (h1, [out])))"

definition hs_mls :: "hmls \<Rightarrow> history \<Rightarrow> history \<times> hsout list" where
  "hs_mls e h =
    (if (case dget (hs_joined h) (ml_group e) of None \<Rightarrow> False | Some joined \<Rightarrow> ml_epoch e < joined) then (h, [HsPrejoin (ml_seq e)])
     else hs_sent e h)"

datatype hsevent = HsJoined string int | HsArchiveKey string int | HsRecord hrec | HsMls hmls | HsSent hmls

fun history_step :: "history \<Rightarrow> hsevent \<Rightarrow> history \<times> hsout list" where
  "history_step h (HsJoined grp epoch) = (h\<lparr>hs_joined := dset grp epoch (hs_joined h)\<rparr>, [])"
| "history_step h (HsArchiveKey akid created) = hs_archive_key akid created h"
| "history_step h (HsRecord e) = hs_archive e h"
| "history_step h (HsMls e) = hs_mls e h"
| "history_step h (HsSent e) = hs_sent e h"

definition init_history :: "(string, int) dict \<Rightarrow> (string, int) dict \<Rightarrow> history" where
  "init_history keys joined = \<lparr>hs_keys = keys, hs_joined = joined, hs_held = [], hs_shown = [], hs_applied = {}\<rparr>"

end
