(* ===== verification/Client.thy ===== *)
theory Client
  imports Client_Model
begin

text \<open>
  What a device shows and sends: the timeline names each content once, in the order of arrival; read watermarks only grow; a
  read receipt that is due has something to name, so that no event raises; and no activity outlives its end.
\<close>

section \<open>The invariant\<close>

definition client_ok :: "client \<Rightarrow> bool" where
  "client_ok c \<longleftrightarrow> cl_timeline c = dkeys (cl_content c) \<and> distinct (dkeys (cl_content c))
     \<and> (\<forall>who. dget (cl_read_through c) who = None \<longleftrightarrow> dget (cl_read_seq c) who = None)
     \<and> (cl_pending_read c \<longrightarrow> cl_last_read_sent c \<noteq> None \<and> dget (cl_read_through c) (cl_me c) \<noteq> None)"

text \<open>The watermark of an identity, and the order in which states may follow each other.\<close>

definition watermark :: "client \<Rightarrow> string \<Rightarrow> int" where
  "watermark c who = dget_or (cl_read_seq c) who 0"

definition later_view :: "client \<Rightarrow> client \<Rightarrow> bool" where
  "later_view c c' \<longleftrightarrow> client_ok c' \<and> cl_me c' = cl_me c \<and> (\<exists>more. cl_timeline c' = cl_timeline c @ more)
     \<and> (\<forall>who. watermark c who \<le> watermark c' who)
     \<and> (\<forall>i k. dget (cl_content c) i = Some k \<longrightarrow> dget (cl_content c') i = Some k)"

lemma later_refl: "client_ok c \<Longrightarrow> later_view c c"
  by (simp add: later_view_def)

lemma later_trans: "later_view c d \<Longrightarrow> later_view d e \<Longrightarrow> later_view c e"
  by (auto simp: later_view_def) (meson order_trans)

lemma add_content_later: assumes "client_ok c" "dget (cl_content c) i = None" shows "later_view c (add_content i sender kind seq c)"
proof -
  have n: "i \<notin> set (dkeys (cl_content c))" using assms(2) by (simp only: dget_None_keys not_False_eq_True)
  then have k: "dkeys (dset i x (cl_content c)) = dkeys (cl_content c) @ [i]" for x
    by (simp only: dict.keys_put if_False)
  have "distinct (dkeys (cl_content c) @ [i])" using assms(1) n by (simp add: client_ok_def)
  moreover have "dget (cl_content c) j = Some d \<Longrightarrow> j \<noteq> i" for j d using assms(2) by force
  ultimately show ?thesis
    using assms(1) k by (simp add: later_view_def client_ok_def add_content_def watermark_def) (metis not_None_eq)
qed

lemma same_view: "client_ok c \<Longrightarrow> cl_content c' = cl_content c \<Longrightarrow> cl_timeline c' = cl_timeline c \<Longrightarrow> cl_read_seq c' = cl_read_seq c
    \<Longrightarrow> cl_read_through c' = cl_read_through c \<Longrightarrow> cl_me c' = cl_me c \<Longrightarrow> cl_pending_read c' = cl_pending_read c
    \<Longrightarrow> cl_last_read_sent c' = cl_last_read_sent c \<Longrightarrow> later_view c c'"
  by (simp add: later_view_def client_ok_def watermark_def) (metis not_None_eq)

lemma receipt_target_later: "client_ok (fst acc) \<Longrightarrow> later_view (fst acc) (fst (receipt_target ob acc t))"
  by (cases acc) (auto simp: receipt_target_def Let_def intro: later_refl same_view split: option.split)

lemma receipt_targets_later: "client_ok (fst acc) \<Longrightarrow> later_view (fst acc) (fst (foldl (receipt_target ob) acc ts))"
proof (induction ts arbitrary: acc)
  case (Cons t ts)
  have "later_view (fst acc) (fst (receipt_target ob acc t))" by (rule receipt_target_later [OF Cons.prems])
  moreover from this have "client_ok (fst (receipt_target ob acc t))" by (simp add: later_view_def)
  ultimately show ?case using Cons.IH later_trans by fastforce
qed (simp add: later_refl)

text \<open>A watermark moves to content with a greater number.\<close>

lemma watermark_later:
  assumes "client_ok c" "seq > watermark c who"
    "c' = c\<lparr>cl_read_seq := dset who seq (cl_read_seq c), cl_read_through := dset who thr (cl_read_through c)\<rparr>"
  shows "later_view c c'"
  using assms by (auto simp: later_view_def client_ok_def watermark_def dget_or_def split: option.splits)

lemma creceive_later: assumes "client_ok c" shows "later_view c (fst (creceive ob c))"
proof (cases "cr_kind ob \<in> {''delivered'', ''played''}")
  case True
  then show ?thesis using receipt_targets_later [of "(c, False)"] assms by (simp add: creceive_def)
next
  case False
  have "later_view c (c\<lparr>cl_read_seq := dset w s (cl_read_seq c), cl_read_through := dset w thr (cl_read_through c)\<rparr>)"
    if "s > dget_or (cl_read_seq c) w 0" for w s thr
    by (rule watermark_later [OF assms _ refl]) (use that in \<open>simp add: watermark_def\<close>)
  with False show ?thesis
    using later_refl [OF assms] by (simp add: creceive_def split: option.split)
qed

lemma restore_item_later: "client_ok c \<Longrightarrow> later_view c (restore_item c item)"
  by (auto simp: restore_item_def intro: add_content_later creceive_later later_refl split: cobject.split prod.split)

lemma sync_item_later: "client_ok (fst acc) \<Longrightarrow> later_view (fst acc) (fst (sync_item acc item))"
  by (cases acc) (auto simp: sync_item_def Let_def case_prod_beta' intro: add_content_later creceive_later later_refl split: cobject.split prod.split)

lemma foldl_later:
  assumes "client_ok (g s)" "\<And>s x. client_ok (g s) \<Longrightarrow> later_view (g s) (g (f s x))"
  shows "later_view (g s) (g (foldl f s xs))"
  using assms(1)
proof (induction xs arbitrary: s)
  case (Cons x xs)
  have l: "later_view (g s) (g (f s x))" by (rule assms(2) [OF Cons.prems])
  then have "client_ok (g (f s x))" by (simp add: later_view_def)
  from Cons.IH [OF this] l show ?case by (auto intro: later_trans)
qed (simp add: later_refl)


section \<open>Every event\<close>

lemma read_send_later: assumes "client_ok c" "dget (cl_read_through c) (cl_me c) \<noteq> None"
  shows "\<exists>c' out. read_send c = Some (c', out) \<and> later_view c c'"
proof -
  have "later_view c (c\<lparr>cl_last_read_sent := Some (cl_now c), cl_pending_read := False\<rparr>)"
    using assms(1) by (simp add: later_view_def client_ok_def watermark_def)
  moreover obtain thr where "dget (cl_read_through c) (cl_me c) = Some thr" using assms(2) by blast
  ultimately show ?thesis by (simp add: read_send_def)
qed

lemma csync_later: assumes "client_ok c" shows "later_view c (fst (csync items c))"
proof -
  obtain c1 fresh archive where f: "foldl sync_item (c, [], []) items = (c1, fresh, archive)"
    by (cases "foldl sync_item (c, [], []) items") auto
  have l: "later_view c c1"
    using foldl_later [of fst "(c, [], [])" sync_item items] assms sync_item_later f by simp
  then have "later_view c1 (c1\<lparr>cl_sent_delivered := x\<rparr>)" for x
    by (intro same_view) (simp_all add: later_view_def)
  with l show ?thesis
    by (auto simp: csync_def f Let_def intro: later_trans)
qed

lemma cread_later: assumes "client_ok c" shows "\<exists>c' out. cread thr c = Some (c', out) \<and> later_view c c'"
proof (cases "dget (cl_content c) thr")
  case (Some k)
  define c1 where "c1 = c\<lparr>cl_read_seq := dset (cl_me c) (cc_seq k) (cl_read_seq c), cl_read_through := dset (cl_me c) thr (cl_read_through c)\<rparr>"
  show ?thesis
  proof (cases "cc_seq k \<le> watermark c (cl_me c)")
    case True
    with Some assms show ?thesis by (simp add: cread_def watermark_def later_refl)
  next
    case False
    then have l: "later_view c c1" using watermark_later [OF assms _ c1_def] by simp
    then have ok1: "client_ok c1" by (simp add: later_view_def)
    have thr: "dget (cl_read_through c1) (cl_me c1) \<noteq> None" by (simp add: c1_def)
    have r: "cread thr c = (if (case cl_last_read_sent c1 of None \<Rightarrow> False | Some t \<Rightarrow> cl_now c1 - t < READ_MIN_INTERVAL_S)
        then Some (c1\<lparr>cl_pending_read := True\<rparr>, []) else read_send c1)"
      using Some False by (simp add: cread_def watermark_def c1_def [symmetric] Let_def)
    show ?thesis
    proof (cases "cl_last_read_sent c1 \<noteq> None \<and> cl_now c1 - the (cl_last_read_sent c1) < READ_MIN_INTERVAL_S")
      case True
      then have "later_view c1 (c1\<lparr>cl_pending_read := True\<rparr>)"
        using ok1 thr by (auto simp: later_view_def client_ok_def watermark_def)
      moreover have "cread thr c = Some (c1\<lparr>cl_pending_read := True\<rparr>, [])"
        using True r by auto
      ultimately show ?thesis using later_trans [OF l] by auto
    next
      case False
      then have "cread thr c = read_send c1" using r by (auto split: option.splits)
      then show ?thesis using read_send_later [OF ok1 thr] later_trans [OF l] by metis
    qed
  qed
qed (simp add: cread_def later_refl assms)

lemma cadvance_later: assumes "client_ok c" shows "\<exists>c' out. cadvance n c = Some (c', out) \<and> later_view c c'"
proof -
  define c0 where "c0 = c\<lparr>cl_now := cl_now c + n\<rparr>"
  define c1 where "c1 = c0\<lparr>cl_shown := filter (\<lambda>(_, acts). acts \<noteq> [])
    (map (\<lambda>(who, acts). (who, filter (\<lambda>(_, t). t > cl_now c0) acts)) (cl_shown c0))\<rparr>"
  have l: "later_view c c1" using assms by (intro same_view) (simp_all add: c1_def c0_def)
  then have ok1: "client_ok c1" by (simp add: later_view_def)
  have a: "cadvance n c = (if cl_pending_read c1
        then (case cl_last_read_sent c1 of None \<Rightarrow> None
              | Some t \<Rightarrow> if cl_now c1 - t \<ge> READ_MIN_INTERVAL_S then read_send c1 else Some (c1, []))
        else Some (c1, []))"
    unfolding cadvance_def Let_def c0_def [symmetric] c1_def [symmetric] ..
  show ?thesis
  proof (cases "cl_pending_read c1")
    case True
    then obtain t where t: "cl_last_read_sent c1 = Some t" and thr: "dget (cl_read_through c1) (cl_me c1) \<noteq> None"
      using ok1 by (auto simp: client_ok_def)
    show ?thesis
      using True t l read_send_later [OF ok1 thr] later_trans [OF l] by (cases "cl_now c1 - t \<ge> READ_MIN_INTERVAL_S") (auto simp: a)
  qed (use a l in simp)
qed

lemma client_step_later: assumes "client_ok c" shows "\<exists>c' out. client_step c e = Some (c', out) \<and> later_view c c'"
proof (cases e)
  case (ClSync items)
  with csync_later [OF assms, of items] show ?thesis by (cases "csync items c") simp
next
  case (ClRestore items)
  with foldl_later [of id c restore_item items] assms restore_item_later show ?thesis by simp
next
  case (ClRead thr)
  with cread_later [OF assms] show ?thesis by simp
next
  case (ClAdvance n)
  with cadvance_later [OF assms] show ?thesis by simp
next
  case (ClActivityIn sender a state t)
  have "later_view c (activity_in sender a state t c)"
    by (rule same_view [OF assms]) (simp_all add: activity_in_def Let_def)
  with ClActivityIn show ?thesis by simp
next
  case (ClPlay i)
  have "later_view c (fst (cplay i c))"
    by (rule same_view [OF assms]) (simp_all add: cplay_def)
  with ClPlay show ?thesis by (cases "cplay i c") simp
next
  case (ClActivity a state)
  have "later_view c (fst (cactivity a state c))"
    by (rule same_view [OF assms]) (simp_all add: cactivity_def)
  with ClActivity show ?thesis by (cases "cactivity a state c") simp
qed

definition client_next :: "client \<Rightarrow> cevent \<Rightarrow> client option" where
  "client_next c e = map_option fst (client_step c e)"

interpretation client: total_machine client_next "\<lambda>_. True" client_ok
  by unfold_locales (metis client_step_later client_next_def later_view_def map_option_eq_Some option.inject prod.collapse prod.inject,
    metis client_step_later client_next_def option.simps(9))


section \<open>Property\<close>

lemma init_client_ok: "client_ok (init_client now me policy members)"
  by (simp add: client_ok_def init_client_def)

text \<open>C31: What a device shows only grows. No batch, archive, read, activity, playback or passing of time raises, after any history of
  such events; the timeline never names an object twice and never loses or moves one, its content never changes, and no
  identity's read watermark ever goes back.\<close>

theorem client_view_grows:
  "\<exists>c c' out. runs client_next (init_client now me policy members) es = Some c \<and> client_step c e = Some (c', out)
     \<and> distinct (cl_timeline c') \<and> (\<exists>more. cl_timeline c' = cl_timeline c @ more) \<and> dget (cl_content c) \<subseteq>\<^sub>m dget (cl_content c')
     \<and> (\<forall>who. watermark c who \<le> watermark c' who)"
proof -
  obtain c where r: "runs client_next (init_client now me policy members) es = Some c" and ok: "client_ok c"
    using client.runs_total [OF init_client_ok [of now me policy members], of es] by (auto simp: list_all_iff)
  obtain c' out where s: "client_step c e = Some (c', out)" and l: "later_view c c'"
    using client_step_later [OF ok] by blast
  have "distinct (cl_timeline c')" using l by (simp add: later_view_def client_ok_def)
  moreover have "dget (cl_content c) \<subseteq>\<^sub>m dget (cl_content c')"
    unfolding map_le_def using l by (auto simp only: later_view_def domIff not_None_eq)
  ultimately show ?thesis
    using r s l by (auto simp only: later_view_def)
qed

end
