(* ===== verification/Ulid.thy ===== *)
theory Ulid
  imports Prelude
begin

text \<open>
  ULIDs, \<^verbatim>\<open>dsipvec/ulid.py\<close>: 48 bits of time and 80 of randomness in 26 characters of Crockford's alphabet. The code's shifts
  and masks are of numbers that are not negative, so \<^verbatim>\<open>n & 31\<close> and \<^verbatim>\<open>n >> 5\<close> are remainder and quotient by 32, and
  \<^verbatim>\<open>(n << 5) | d\<close> is a sum, the lowest five bits being clear. The result: a ULID is valid, its time reads back, and ULIDs order
  as strings by their time, which is what makes the lowest one the oldest.
\<close>

definition CROCKFORD :: string where "CROCKFORD = ''0123456789ABCDEFGHJKMNPQRSTVWXYZ''"

definition bytes_int :: "int list \<Rightarrow> int" where
  "bytes_int bs = foldl (\<lambda>n b. 256 * n + b) 0 bs"

fun ulid_chars :: "nat \<Rightarrow> int \<Rightarrow> string" where
  "ulid_chars 0 n = ''''"
| "ulid_chars (Suc k) n = ulid_chars k (n div 32) @ [CROCKFORD ! nat (n mod 32)]"

definition ulid_encode :: "int \<Rightarrow> int list \<Rightarrow> string option" where
  "ulid_encode ts_ms rand =
    (if length rand \<noteq> 10 then None
     else if \<not> (0 \<le> ts_ms \<and> ts_ms < 2 ^ 48) then None
     else Some (ulid_chars 26 (ts_ms * 2 ^ 80 + bytes_int rand)))"

text \<open>\<^verbatim>\<open>^[0-7][0-9A-HJKMNP-TV-Z]{25}\Z\<close>: the class is the alphabet.\<close>

definition ulid_valid :: "string \<Rightarrow> bool" where
  "ulid_valid s \<longleftrightarrow> (case s of [] \<Rightarrow> False | c # cs \<Rightarrow> c \<in> set ''01234567'' \<and> length cs = 25 \<and> list_all (\<lambda>x. x \<in> set CROCKFORD) cs)"

fun index_of :: "'a \<Rightarrow> 'a list \<Rightarrow> int option" where
  "index_of x [] = None"
| "index_of x (y # ys) = (if x = y then Some 0 else map_option (\<lambda>i. i + 1) (index_of x ys))"

fun ulid_number :: "int \<Rightarrow> string \<Rightarrow> int option" where
  "ulid_number n [] = Some n"
| "ulid_number n (c # cs) = (case index_of c CROCKFORD of None \<Rightarrow> None | Some d \<Rightarrow> ulid_number (32 * n + d) cs)"

definition timestamp_ms :: "string \<Rightarrow> int option" where
  "timestamp_ms s = ulid_number 0 (take 10 s)"

section \<open>The alphabet\<close>

lemma crockford_index: assumes "0 \<le> d" "d < 32" shows "index_of (CROCKFORD ! nat d) CROCKFORD = Some d"
proof -
  have "list_all (\<lambda>k. index_of (CROCKFORD ! k) CROCKFORD = Some (int k)) [0..<32]" by code_simp
  moreover have "nat d \<in> set [0..<32]" using assms by auto
  ultimately have "index_of (CROCKFORD ! nat d) CROCKFORD = Some (int (nat d))" by (simp only: list_all_iff)
  then show ?thesis using assms(1) by simp
qed

lemma crockford_mono: assumes "0 \<le> d" "d < e" "e < 32" shows "CROCKFORD ! nat d < CROCKFORD ! nat e"
proof -
  have "sorted_wrt (<) CROCKFORD" "length CROCKFORD = 32" by code_simp+
  then show ?thesis using assms sorted_wrt_nth_less [of "(<)" CROCKFORD "nat d" "nat e"] by simp
qed

lemma crockford_member: assumes "0 \<le> d" "d < 32" shows "CROCKFORD ! nat d \<in> set CROCKFORD"
proof -
  have "length CROCKFORD = 32" by code_simp
  then show ?thesis using assms by simp
qed

section \<open>Numbers and their characters\<close>

lemma ulid_chars_length [simp]: "length (ulid_chars k n) = k"
  by (induction k arbitrary: n) auto

lemma ulid_chars_split: "ulid_chars (a + b) n = ulid_chars a (n div 32 ^ b) @ ulid_chars b n"
proof (induction b arbitrary: n)
  case (Suc b)
  have "n div 32 div 32 ^ b = n div 32 ^ Suc b" by (simp add: zdiv_zmult2_eq)
  then show ?case using Suc.IH [of "n div 32"] by simp
qed simp

lemma ulid_chars_member: "x \<in> set (ulid_chars k n) \<Longrightarrow> x \<in> set CROCKFORD"
  by (induction k arbitrary: n) (auto intro: crockford_member)

lemma ulid_number_snoc: "ulid_number m (s @ [c]) = (case ulid_number m s of None \<Rightarrow> None
    | Some v \<Rightarrow> map_option (\<lambda>d. 32 * v + d) (index_of c CROCKFORD))"
proof (induction s arbitrary: m)
  case Nil
  then show ?case by (simp split: option.split)
next
  case (Cons x s)
  then show ?case by (cases "index_of x CROCKFORD") simp_all
qed

lemma ulid_number_chars: "0 \<le> n \<Longrightarrow> n < 32 ^ k \<Longrightarrow> ulid_number 0 (ulid_chars k n) = Some n"
proof (induction k arbitrary: n)
  case (Suc k)
  have "n div 32 < 32 ^ k" using Suc.prems(2) by (simp add: div_less_iff_less_mult mult.commute)
  then have "ulid_number 0 (ulid_chars k (n div 32)) = Some (n div 32)" using Suc.IH Suc.prems(1) by simp
  then show ?case by (simp add: ulid_number_snoc crockford_index)
qed simp

lemma ulid_chars_mono: "0 \<le> m \<Longrightarrow> m < n \<Longrightarrow> n < 32 ^ k \<Longrightarrow> ulid_chars k m < ulid_chars k n"
proof (induction k arbitrary: m n)
  case (Suc k)
  have n: "n div 32 < 32 ^ k" using Suc.prems(3) by (simp add: div_less_iff_less_mult mult.commute)
  have le: "m div 32 \<le> n div 32" using Suc.prems(2) by (simp add: zdiv_mono1)
  show ?case
  proof (cases "m div 32 = n div 32")
    case True
    have "m = 32 * (m div 32) + m mod 32" "n = 32 * (n div 32) + n mod 32" by simp_all
    with True Suc.prems(2) have "m mod 32 < n mod 32" by linarith
    then have "CROCKFORD ! nat (m mod 32) < CROCKFORD ! nat (n mod 32)" by (intro crockford_mono) simp_all
    with True show ?thesis by (simp add: list_less_def lexord_append_leftI)
  next
    case False
    with le have "ulid_chars k (m div 32) < ulid_chars k (n div 32)" using Suc.IH [OF _ _ n] Suc.prems(1) by simp
    then show ?thesis by (simp add: list_less_def lexord_sufI)
  qed
qed simp

lemma bytes_int_bound: assumes "\<forall>b \<in> set bs. 0 \<le> b \<and> b < 256" shows "0 \<le> bytes_int bs \<and> bytes_int bs < 256 ^ length bs"
  using assms
proof (induction bs rule: rev_induct)
  case (snoc b bs)
  then have "0 \<le> bytes_int bs" "bytes_int bs < 256 ^ length bs" "0 \<le> b" "b < 256" by auto
  then show ?case by (simp add: bytes_int_def)
qed (simp add: bytes_int_def)

section \<open>Properties\<close>

text \<open>A ULID carries its time. Encoding a time of 48 bits with ten random bytes succeeds with a valid ULID whose time reads back
  exactly; and of two ULIDs the one with the earlier time is the lower string, whatever the random bytes.\<close>

theorem ulid_orders_by_time:
  assumes "0 \<le> t" "t < 2 ^ 48" "length rand = 10" "\<forall>b \<in> set rand. 0 \<le> b \<and> b < 256"
    and "0 \<le> t2" "t2 < 2 ^ 48" "length rand2 = 10" "\<forall>b \<in> set rand2. 0 \<le> b \<and> b < 256"
  shows "\<exists>u v. ulid_encode t rand = Some u \<and> ulid_encode t2 rand2 = Some v \<and> ulid_valid u \<and> timestamp_ms u = Some t \<and> (t < t2 \<longrightarrow> u < v)"
proof -
  define n where "n = t * 2 ^ 80 + bytes_int rand"
  define m where "m = t2 * 2 ^ 80 + bytes_int rand2"
  have r: "0 \<le> bytes_int rand" "bytes_int rand < 2 ^ 80" "0 \<le> bytes_int rand2" "bytes_int rand2 < 2 ^ 80"
    using bytes_int_bound [OF assms(4)] bytes_int_bound [OF assms(8)] assms(3,7) by simp_all
  have n: "0 \<le> n" "n < 2 ^ 128" and m: "m < 2 ^ 128" using assms(1,2,6) r by (simp_all add: n_def m_def)
  have top: "n div 32 ^ 16 = t" using r(1,2) by (simp add: n_def)
  have "take 10 (ulid_chars 26 n) = ulid_chars 10 t"
    using ulid_chars_split [of 10 16 n] unfolding top by simp
  then have time: "timestamp_ms (ulid_chars 26 n) = Some t"
    using ulid_number_chars [of t 10] assms(1,2) by (simp add: timestamp_ms_def)
  have first: "ulid_chars 1 (n div 32 ^ 25) = [CROCKFORD ! nat (n div 32 ^ 25 mod 32)]" by simp
  have "0 \<le> n div 32 ^ 25" "n div 32 ^ 25 < 8"
    using n by (simp_all add: pos_imp_zdiv_nonneg_iff div_less_iff_less_mult)
  moreover have "list_all (\<lambda>k. CROCKFORD ! k \<in> set ''01234567'') [0..<8]" by code_simp
  ultimately have "CROCKFORD ! nat (n div 32 ^ 25 mod 32) \<in> set ''01234567''"
    by (simp only: list_all_iff) (auto simp: nat_less_iff)
  moreover have "ulid_chars 26 n = (CROCKFORD ! nat (n div 32 ^ 25 mod 32)) # ulid_chars 25 n"
    using ulid_chars_split [of 1 25 n] unfolding first by simp
  ultimately have "ulid_valid (ulid_chars 26 n)"
    using ulid_chars_member by (auto simp: ulid_valid_def list_all_iff)
  moreover have "ulid_chars 26 n < ulid_chars 26 m" if "t < t2"
  proof (rule ulid_chars_mono)
    show "n < m" using that r by (simp add: n_def m_def)
  qed (use n m in simp_all)
  moreover have "ulid_encode t rand = Some (ulid_chars 26 n)" "ulid_encode t2 rand2 = Some (ulid_chars 26 m)"
    using assms by (simp_all add: ulid_encode_def n_def m_def)
  ultimately show ?thesis
    using time by blast
qed

theorem ulid_orders_by_time_witness:
  "\<exists>u v. ulid_encode 1469918176385 (replicate 10 255) = Some u \<and> ulid_encode 1469918176386 (replicate 10 0) = Some v \<and> u < v"
proof -
  have "length (replicate 10 (255 :: int)) = 10" "length (replicate 10 (0 :: int)) = 10" by simp_all
  then show ?thesis
    using ulid_orders_by_time [of 1469918176385 "replicate 10 255" 1469918176386 "replicate 10 0"] by auto
qed

end
