(* ===== verification/Successor.thy ===== *)
theory Successor
  imports Ulid
begin

text \<open>
  Converging on one conversation and one successor group: \<open>select_direct\<close>, \<open>check_successor\<close>, \<open>select_successor\<close> and class
  \<open>SuccessorTracker\<close> of \<^verbatim>\<open>dsipvec/messaging.py\<close>. Decoding a group id (base64url to ASCII) is the code of a package, so the
  decoder is an argument \<open>dec\<close>, \<^term>\<open>None\<close> where it fails.
\<close>

definition ULID_TOLERANCE_S :: int where "ULID_TOLERANCE_S = 300"

text \<open>Candidates are pairs of conversation and time of issue; the result is the winner and the discarded ones.\<close>

definition direct_ok :: "string \<times> int \<Rightarrow> bool" where
  "direct_ok c \<longleftrightarrow> ulid_valid (fst c) \<and> (case timestamp_ms (fst c) of None \<Rightarrow> False
     | Some t \<Rightarrow> \<bar>t div 1000 - snd c\<bar> \<le> ULID_TOLERANCE_S)"

definition select_direct :: "(string \<times> int) list \<Rightarrow> string option \<times> string list" where
  "select_direct cands =
    (let kept = map fst (filter direct_ok cands)
     in (if kept = [] then None else Some (Min (set kept)), map fst (filter (\<lambda>c. \<not> direct_ok c) cands)))"

definition check_successor :: "string list \<Rightarrow> string \<Rightarrow> string list \<Rightarrow> bool" where
  "check_successor predecessor creator roster \<longleftrightarrow> creator \<in> set predecessor \<and> set roster \<subseteq> set predecessor"

definition decoded :: "(string \<Rightarrow> string option) \<Rightarrow> string \<Rightarrow> string option" where
  "decoded dec g = (case dec g of None \<Rightarrow> None | Some u \<Rightarrow> if ulid_valid u then Some u else None)"

definition select_successor :: "(string \<Rightarrow> string option) \<Rightarrow> string list \<Rightarrow> string option \<times> string list" where
  "select_successor dec cands =
    (let kept = [(the (decoded dec g), g). g \<leftarrow> cands, decoded dec g \<noteq> None]
     in (if kept = [] then None else Some (snd (Min (set kept))), filter (\<lambda>g. decoded dec g = None) cands))"

record tracker =
  tk_groups :: "(string, string list) dict"
  tk_candidates :: "(string, string list) dict"
  tk_winner :: "(string, string) dict"

datatype tk_out = TkUse string | TkRefuse | TkCreate string "string list" | TkFirstContact string | TkLeave string | TkDecline string | TkJoin string

datatype tk_event = TkCreateReq string | TkCreated string string | TkWelcome string string string "string list"

definition init_tracker :: "(string, string list) dict \<Rightarrow> tracker" where
  "init_tracker groups = \<lparr>tk_groups = map (\<lambda>(g, r). (g, sort r)) groups, tk_candidates = [], tk_winner = []\<rparr>"

definition tk_candidate :: "(string \<Rightarrow> string option) \<Rightarrow> string \<Rightarrow> string \<Rightarrow> string list \<Rightarrow> bool \<Rightarrow> tracker \<Rightarrow> tracker \<times> tk_out list" where
  "tk_candidate dec group_id pred roster mine t =
    (let old = dget_or (tk_candidates t) pred [];
         cands = (if group_id \<in> set old then old else old @ [group_id]);
         t1 = t\<lparr>tk_candidates := dset pred cands (tk_candidates t)\<rparr>;
         best = fst (select_successor dec cands);
         prev = dget (tk_winner t1) pred
     in if best \<noteq> Some group_id then (t1, [if mine then TkLeave group_id else TkDecline group_id])
        else (t1\<lparr>tk_winner := dset pred group_id (tk_winner t1), tk_groups := dset group_id (sort roster) (tk_groups t1)\<rparr>,
              (if mine then [] else [TkJoin group_id])
                @ (case prev of None \<Rightarrow> [] | Some p \<Rightarrow> if p \<noteq> group_id then [TkLeave p] else [])))"

definition tk_create :: "string \<Rightarrow> tracker \<Rightarrow> tk_out list" where
  "tk_create pred t =
    (case dget (tk_winner t) pred of
       Some w \<Rightarrow> [TkUse w]
     | None \<Rightarrow> (case dget (tk_groups t) pred of None \<Rightarrow> [TkRefuse] | Some r \<Rightarrow> [TkCreate pred r]))"

definition tk_welcome :: "(string \<Rightarrow> string option) \<Rightarrow> string \<Rightarrow> string \<Rightarrow> string \<Rightarrow> string list \<Rightarrow> tracker \<Rightarrow> tracker \<times> tk_out list" where
  "tk_welcome dec group_id pred creator roster t =
    (case dget (tk_groups t) pred of
       None \<Rightarrow> (t, [TkFirstContact group_id])
     | Some r \<Rightarrow> if \<not> check_successor r creator roster then (t, [TkFirstContact group_id])
                else tk_candidate dec group_id pred roster False t)"

fun tracker_step :: "(string \<Rightarrow> string option) \<Rightarrow> tracker \<Rightarrow> tk_event \<Rightarrow> tracker \<times> tk_out list" where
  "tracker_step dec t (TkCreateReq pred) = (t, tk_create pred t)"
| "tracker_step dec t (TkCreated group_id pred) = tk_candidate dec group_id pred (dget_or (tk_groups t) pred []) True t"
| "tracker_step dec t (TkWelcome group_id pred creator roster) = tk_welcome dec group_id pred creator roster t"

section \<open>The lowest candidate\<close>

definition lowest :: "(string \<Rightarrow> string option) \<Rightarrow> string set \<Rightarrow> string option" where
  "lowest dec G = (let K = {(u, g). g \<in> G \<and> decoded dec g = Some u} in if K = {} then None else Some (snd (Min K)))"

lemma select_lowest: "fst (select_successor dec cands) = lowest dec (set cands)"
proof -
  have "set [(the (decoded dec g), g). g \<leftarrow> cands, decoded dec g \<noteq> None] = {(u, g). g \<in> set cands \<and> decoded dec g = Some u}"
    by auto
  then show ?thesis
    unfolding select_successor_def lowest_def Let_def by (simp flip: set_empty)
qed

lemma lowest_finite: "finite G \<Longrightarrow> finite {(u, g). g \<in> G \<and> decoded dec g = Some u}"
  by (rule finite_subset [of _ "(\<lambda>g. (the (decoded dec g), g)) ` G"]) force+

lemma lowest_insert: assumes "finite G" shows "lowest dec (insert g G) = Some g \<or> lowest dec (insert g G) = lowest dec G"
proof (cases "decoded dec g")
  case None
  then have "{(u, k). k \<in> insert g G \<and> decoded dec k = Some u} = {(u, k). k \<in> G \<and> decoded dec k = Some u}" by auto
  then show ?thesis by (simp add: lowest_def)
next
  case (Some u)
  define K where "K = {(u, k). k \<in> G \<and> decoded dec k = Some u}"
  have i: "{(u, k). k \<in> insert g G \<and> decoded dec k = Some u} = insert (u, g) K" using Some by (auto simp: K_def)
  have fin: "finite K" unfolding K_def by (rule lowest_finite [OF assms])
  have l: "lowest dec G = (if K = {} then None else Some (snd (Min K)))" by (simp add: lowest_def K_def)
  have "lowest dec (insert g G) = Some (snd (Min (insert (u, g) K)))" unfolding lowest_def Let_def i by simp
  then show ?thesis
    using fin unfolding l by (cases "K = {}") (auto simp: min_def)
qed

definition tracker_ok :: "(string \<Rightarrow> string option) \<Rightarrow> tracker \<Rightarrow> bool" where
  "tracker_ok dec t \<longleftrightarrow> (\<forall>pred. dget (tk_winner t) pred = lowest dec (set (dget_or (tk_candidates t) pred [])))"

lemma candidate_ok: assumes "tracker_ok dec t" shows "tracker_ok dec (fst (tk_candidate dec g pred roster mine t))"
proof -
  define old where "old = dget_or (tk_candidates t) pred []"
  define cands where "cands = (if g \<in> set old then old else old @ [g])"
  have set: "set cands = insert g (set old)" by (auto simp: cands_def)
  have best: "fst (select_successor dec cands) = lowest dec (insert g (set old))" by (simp add: select_lowest set)
  have prev: "dget (tk_winner t) pred = lowest dec (set old)" using assms by (simp add: tracker_ok_def old_def)
  have other: "dget_or (dset pred cands d) p [] = (if p = pred then cands else dget_or d p [])" for d p
    by (simp add: dget_or_def)
  show ?thesis
  proof (cases "lowest dec (insert g (set old)) = Some g")
    case True
    with assms show ?thesis
      unfolding tk_candidate_def Let_def old_def [symmetric] cands_def [symmetric] best
      by (simp add: tracker_ok_def other set)
  next
    case False
    with lowest_insert have "lowest dec (insert g (set old)) = lowest dec (set old)" by blast
    with False assms prev show ?thesis
      unfolding tk_candidate_def Let_def old_def [symmetric] cands_def [symmetric] best
      by (simp add: tracker_ok_def other set)
  qed
qed

lemma tracker_step_ok: "tracker_ok dec t \<Longrightarrow> tracker_ok dec (fst (tracker_step dec t e))"
  by (cases e) (auto simp: tk_welcome_def candidate_ok split: option.split)

definition tracker_next :: "(string \<Rightarrow> string option) \<Rightarrow> tracker \<Rightarrow> tk_event \<Rightarrow> tracker option" where
  "tracker_next dec t e = Some (fst (tracker_step dec t e))"

interpretation tracker: total_machine "tracker_next dec" "\<lambda>_. True" "tracker_ok dec" for dec
  by unfold_locales (auto simp: tracker_next_def tracker_step_ok)

lemma init_tracker_ok: "tracker_ok dec (init_tracker groups)"
  by (simp add: tracker_ok_def init_tracker_def lowest_def dget_or_def)

section \<open>Properties\<close>

text \<open>C36: Devices converge on one successor. After any welcomes and creations, in any order, the successor a device keeps for a dead
  group is the candidate with the lowest decoded ULID among all it has accepted as candidates; so two devices whose
  candidates are the same, in whatever order and however often they came, keep the same successor.\<close>

theorem successors_converge:
  "\<exists>t1 t2. runs (tracker_next dec) (init_tracker groups1) es1 = Some t1 \<and> runs (tracker_next dec) (init_tracker groups2) es2 = Some t2
     \<and> dget (tk_winner t1) pred = lowest dec (set (dget_or (tk_candidates t1) pred []))
     \<and> (set (dget_or (tk_candidates t1) pred []) = set (dget_or (tk_candidates t2) pred [])
         \<longrightarrow> dget (tk_winner t1) pred = dget (tk_winner t2) pred)"
proof -
  have ok: "\<exists>t. runs (tracker_next dec) (init_tracker groups) es = Some t \<and> tracker_ok dec t" for groups es
    using tracker.runs_total [OF init_tracker_ok [of dec groups], of es] by (simp add: list_all_iff)
  obtain t1 where 1: "runs (tracker_next dec) (init_tracker groups1) es1 = Some t1" "tracker_ok dec t1" using ok by blast
  obtain t2 where 2: "runs (tracker_next dec) (init_tracker groups2) es2 = Some t2" "tracker_ok dec t2" using ok by blast
  show ?thesis
    using 1 2 by (simp add: tracker_ok_def)
qed

text \<open>The witness: two welcomes for the dead group p, which two devices get in opposite orders.\<close>

definition demo_successor :: "string \<Rightarrow> tk_event" where
  "demo_successor g = TkWelcome g ''p'' ''alice'' [''alice'', ''bob'']"

theorem successors_converge_witness:
  "dget (tk_winner (the (runs (tracker_next Some) (init_tracker [(''p'', [''bob'', ''alice''])])
       [demo_successor ''01ARZ3NDEKTSV4RRFFQ69G5FAV'', demo_successor ''01ARZ3NDEKTSV4RRFFQ69G5FAA'']))) ''p''
   = dget (tk_winner (the (runs (tracker_next Some) (init_tracker [(''p'', [''bob'', ''alice''])])
       [demo_successor ''01ARZ3NDEKTSV4RRFFQ69G5FAA'', demo_successor ''01ARZ3NDEKTSV4RRFFQ69G5FAV'']))) ''p''"
proof -
  let ?g = "[(''p'', [''bob'', ''alice''])]" and ?u = "demo_successor ''01ARZ3NDEKTSV4RRFFQ69G5FAV''"
    and ?v = "demo_successor ''01ARZ3NDEKTSV4RRFFQ69G5FAA''"
  have "set (dget_or (tk_candidates (the (runs (tracker_next Some) (init_tracker ?g) [?u, ?v]))) ''p'' [])
      = set (dget_or (tk_candidates (the (runs (tracker_next Some) (init_tracker ?g) [?v, ?u]))) ''p'' [])"
    by code_simp
  then show ?thesis
    using successors_converge [of Some ?g "[?u, ?v]" ?g "[?v, ?u]" "''p''"] by (elim exE conjE) (simp only: option.sel)
qed

end
