(* ===== verification/Alarm_Model.thy ===== *)
theory Alarm_Model
  imports Prelude
begin

text \<open>
  The alarms of the device events profile, \<^verbatim>\<open>dsipvec/events.py\<close>: the alarm list each member computes from a group's ordered
  content, with the operator's state and the escalation timer (class \<open>AlarmList\<close>), the gateway's clear hold-down (class
  \<open>HoldDown\<close>) and its answers to SNMP informs (class \<open>InformTracker\<close>). A severity is \<^term>\<open>None\<close> where a report has none.
\<close>

definition SEVERITIES :: "string list" where
  "SEVERITIES = [''indeterminate'', ''warning'', ''minor'', ''major'', ''critical'']"

fun position_of :: "'a \<Rightarrow> 'a list \<Rightarrow> nat" where
  "position_of x [] = 0"
| "position_of x (y # ys) = (if x = y then 0 else Suc (position_of x ys))"

definition sev_rank :: "string option \<Rightarrow> nat" where
  "sev_rank sev = (case sev of None \<Rightarrow> 0 | Some s \<Rightarrow> if s \<in> set SEVERITIES then position_of s SEVERITIES else 0)"

text \<open>The table of syslog severities, with the entries of a gateway's own table over it: \<^term>\<open>None\<close> is an event, not an alarm.\<close>

definition SYSLOG_DEFAULT :: "(int, string option) dict" where
  "SYSLOG_DEFAULT = [(0, Some ''critical''), (1, Some ''critical''), (2, Some ''critical''), (3, Some ''major''),
     (4, Some ''warning''), (5, None), (6, None), (7, None)]"

definition syslog_severity :: "int \<Rightarrow> (int, string option) dict \<Rightarrow> string option" where
  "syslog_severity sev table = Option.bind (dget (foldl (\<lambda>d (k, v). dset k v d) SYSLOG_DEFAULT table) sev) (\<lambda>x. x)"

section \<open>The alarm list\<close>

type_synonym akey = "string \<times> string \<times> string"

definition SILENT :: string where "SILENT = ''dsip-gateway-silent''"
definition OPERATOR_STATES :: "string list" where "OPERATOR_STATES = [''ack'', ''closed'']"

record report =
  rp_resource :: string
  rp_type :: string
  rp_qualifier :: "string option"
  rp_severity :: "string option"
  rp_cleared :: bool
  rp_inform :: bool

definition key_of :: "report \<Rightarrow> akey" where
  "key_of r = (rp_resource r, rp_type r, case rp_qualifier r of Some q \<Rightarrow> q | None \<Rightarrow> '''')"

record alarm =
  am_severity :: "string option"
  am_cleared :: bool
  am_operator :: string
  am_count :: int
  am_due :: "int option"
  am_escalated :: bool

record alarms =
  al_now :: int
  al_policy :: "(string option \<times> int) option"
  al_alarms :: "(akey, alarm) dict"
  al_gateways :: "(string, int \<times> int) dict"

datatype aout =
    ARaised akey "string option" bool
  | ACleared akey
  | AChanged akey "string option"
  | AOperator akey string "string option"
  | AEscalate akey "string option"

text \<open>Whether an alarm waits for an operator under the policy, and \<open>_arm\<close>.\<close>

definition needs_escalation :: "(string option \<times> int) option \<Rightarrow> alarm \<Rightarrow> bool" where
  "needs_escalation policy a = (case policy of None \<Rightarrow> False
     | Some (least, _) \<Rightarrow> \<not> am_cleared a \<and> am_operator a = ''none'' \<and> \<not> am_escalated a \<and> sev_rank (am_severity a) \<ge> sev_rank least)"

definition arm_alarm :: "int \<Rightarrow> (string option \<times> int) option \<Rightarrow> alarm \<Rightarrow> alarm" where
  "arm_alarm now policy a =
    (if \<not> needs_escalation policy a then a\<lparr>am_due := None\<rparr>
     else if am_due a = None then a\<lparr>am_due := map_option (\<lambda>(_, after). now + after) policy\<rparr> else a)"

definition put_armed :: "akey \<Rightarrow> alarm \<Rightarrow> alarms \<Rightarrow> alarms" where
  "put_armed k a s = s\<lparr>al_alarms := dset k (arm_alarm (al_now s) (al_policy s) a) (al_alarms s)\<rparr>"

definition al_report :: "report \<Rightarrow> alarms \<Rightarrow> alarms \<times> aout list" where
  "al_report r s =
    (let k = key_of r in
     case dget (al_alarms s) k of
       None \<Rightarrow>
         if rp_cleared r then (s, [])
         else (put_armed k \<lparr>am_severity = rp_severity r, am_cleared = False, am_operator = ''none'', am_count = 1,
                            am_due = None, am_escalated = False\<rparr> s, [ARaised k (rp_severity r) False])
     | Some a0 \<Rightarrow>
         (let a = a0\<lparr>am_count := am_count a0 + 1\<rparr>;
              counted = s\<lparr>al_alarms := dset k a (al_alarms s)\<rparr>
          in if rp_cleared r then
               (if am_cleared a then (counted, []) else (put_armed k (a\<lparr>am_cleared := True\<rparr>) s, [ACleared k]))
             else if am_cleared a then
               (put_armed k (a\<lparr>am_cleared := False, am_severity := rp_severity r, am_operator := ''none'', am_escalated := False,
                               am_due := None\<rparr>) s, [ARaised k (rp_severity r) True])
             else if rp_severity r = am_severity a then (counted, [])
             else (put_armed k (a\<lparr>am_severity := rp_severity r\<rparr>) s, [AChanged k (rp_severity r)])))"

definition al_ack :: "akey \<Rightarrow> string \<Rightarrow> string option \<Rightarrow> alarms \<Rightarrow> alarms \<times> aout list" where
  "al_ack k state by s =
    (case dget (al_alarms s) k of
       None \<Rightarrow> (s, [])
     | Some a \<Rightarrow>
         if state \<notin> set OPERATOR_STATES \<or> am_operator a = ''closed'' \<or> am_operator a = state then (s, [])
         else (put_armed k (a\<lparr>am_operator := state\<rparr>) s, [AOperator k state by]))"

definition active_at :: "akey \<Rightarrow> alarms \<Rightarrow> bool" where
  "active_at k s = (case dget (al_alarms s) k of None \<Rightarrow> False | Some a \<Rightarrow> \<not> am_cleared a)"

definition silent_report :: "string \<Rightarrow> string option \<Rightarrow> bool \<Rightarrow> report" where
  "silent_report g sev cleared = \<lparr>rp_resource = g, rp_type = SILENT, rp_qualifier = Some '''', rp_severity = sev,
     rp_cleared = cleared, rp_inform = False\<rparr>"

definition al_heartbeat :: "string \<Rightarrow> int \<Rightarrow> alarms \<Rightarrow> alarms \<times> aout list" where
  "al_heartbeat g interval s0 =
    (let s = s0\<lparr>al_gateways := dset g (interval, al_now s0) (al_gateways s0)\<rparr>
     in if active_at (g, SILENT, '''') s then al_report (silent_report g None True) s else (s, []))"

text \<open>One gateway of an \<open>advance\<close>, and one alarm whose escalation is due.\<close>

definition check_silent :: "alarms \<times> aout list \<Rightarrow> string \<Rightarrow> alarms \<times> aout list" where
  "check_silent acc g = (case acc of (s, out) \<Rightarrow>
     (case dget (al_gateways s) g of
        None \<Rightarrow> acc
      | Some (interval, seen) \<Rightarrow>
          if \<not> active_at (g, SILENT, '''') s \<and> al_now s - seen > 2 * interval
          then (let (s1, o1) = al_report (silent_report g (Some ''major'') False) s in (s1, out @ o1)) else acc))"

definition escalate :: "alarms \<times> aout list \<Rightarrow> akey \<Rightarrow> alarms \<times> aout list" where
  "escalate acc k = (case acc of (s, out) \<Rightarrow>
     (case dget (al_alarms s) k of
        None \<Rightarrow> acc
      | Some a \<Rightarrow> (s\<lparr>al_alarms := dset k (a\<lparr>am_due := None, am_escalated := True\<rparr>) (al_alarms s)\<rparr>,
                   out @ [AEscalate k (am_severity a)])))"

definition due_alarms :: "alarms \<Rightarrow> (int \<times> akey) list" where
  "due_alarms s = sort (map (\<lambda>(k, a). (the (am_due a), k))
     (filter (\<lambda>(_, a). case am_due a of None \<Rightarrow> False | Some d \<Rightarrow> d \<le> al_now s) (al_alarms s)))"

definition al_advance :: "int \<Rightarrow> alarms \<Rightarrow> alarms \<times> aout list" where
  "al_advance n s0 =
    (let (s1, out1) = foldl check_silent (s0\<lparr>al_now := al_now s0 + n\<rparr>, []) (dsorted (al_gateways s0))
     in foldl escalate (s1, out1) (map snd (due_alarms s1)))"

datatype alevent = AlReport report | AlAck akey string "string option" | AlHeartbeat string int | AlAdvance int

fun alarm_step :: "alarms \<Rightarrow> alevent \<Rightarrow> alarms \<times> aout list" where
  "alarm_step s (AlReport r) = al_report r s"
| "alarm_step s (AlAck k state by) = al_ack k state by s"
| "alarm_step s (AlHeartbeat g interval) = al_heartbeat g interval s"
| "alarm_step s (AlAdvance n) = al_advance n s"

definition init_alarms :: "int option \<Rightarrow> (string option \<times> int) option \<Rightarrow> alarms" where
  "init_alarms now policy = \<lparr>al_now = (case now of Some t \<Rightarrow> t | None \<Rightarrow> 0), al_policy = policy, al_alarms = [], al_gateways = []\<rparr>"

section \<open>Informs\<close>

definition INFORM_MEMORY_S :: int where "INFORM_MEMORY_S = 300"

text \<open>An inform by source and request id: pending, or answered and remembered until a time.\<close>

datatype inform = Pending | Answered int

record informs =
  im_now :: int
  im_informs :: "(string \<times> int, inform) dict"

datatype imout = IDeposit "string \<times> int" | IRespond "string \<times> int"

datatype imevent = IInform string int | IAccepted "string \<times> int" | IRefused "string \<times> int" | IAdvance int

fun inform_step :: "informs \<Rightarrow> imevent \<Rightarrow> informs \<times> imout list" where
  "inform_step s (IInform source rid) =
    (case dget (im_informs s) (source, rid) of
       None \<Rightarrow> (s\<lparr>im_informs := dset (source, rid) Pending (im_informs s)\<rparr>, [IDeposit (source, rid)])
     | Some (Answered _) \<Rightarrow> (s, [IRespond (source, rid)])
     | Some Pending \<Rightarrow> (s, []))"
| "inform_step s (IAccepted k) =
    (if dget (im_informs s) k = Some Pending
     then (s\<lparr>im_informs := dset k (Answered (im_now s + INFORM_MEMORY_S)) (im_informs s)\<rparr>, [IRespond k]) else (s, []))"
| "inform_step s (IRefused k) =
    (if dget (im_informs s) k = Some Pending then (s\<lparr>im_informs := ddel k (im_informs s)\<rparr>, []) else (s, []))"
| "inform_step s (IAdvance n) =
    (s\<lparr>im_now := im_now s + n,
      im_informs := filter (\<lambda>(_, i). case i of Pending \<Rightarrow> True | Answered until \<Rightarrow> until > im_now s + n) (im_informs s)\<rparr>, [])"

section \<open>Clear hold-down\<close>

record holddown =
  hd_now :: int
  hd_hold :: int
  hd_held :: "(akey, int \<times> report) dict"

datatype hdevent = HdReport report | HdEvent string | HdAdvance int

datatype hdout = HdDeposit report | HdDepositEvent string

text \<open>A report is deposited with its qualifier filled in.\<close>

definition filled :: "report \<Rightarrow> report" where
  "filled r = r\<lparr>rp_qualifier := Some (case rp_qualifier r of Some q \<Rightarrow> q | None \<Rightarrow> '''')\<rparr>"

definition due_order :: "(int \<times> report) \<times> akey \<Rightarrow> int \<times> akey" where
  "due_order x = (fst (fst x), snd x)"

fun holddown_step :: "holddown \<Rightarrow> hdevent \<Rightarrow> holddown \<times> hdout list" where
  "holddown_step h (HdReport r0) =
    (let r = filled r0; k = key_of r in
     if rp_inform r then (h\<lparr>hd_held := ddel k (hd_held h)\<rparr>, [HdDeposit r])
     else if rp_cleared r then
       (if hd_hold h = 0 then (h, [HdDeposit r])
        else if dget (hd_held h) k = None then (h\<lparr>hd_held := dset k (hd_now h + hd_hold h, r) (hd_held h)\<rparr>, []) else (h, []))
     else (h\<lparr>hd_held := ddel k (hd_held h)\<rparr>, [HdDeposit r]))"
| "holddown_step h (HdEvent e) = (h, [HdDepositEvent e])"
| "holddown_step h (HdAdvance n) =
    (let now = hd_now h + n;
         due = sort_key due_order (map (\<lambda>(k, d). (d, k)) (filter (\<lambda>(_, d). fst d \<le> now) (hd_held h)))
     in (h\<lparr>hd_now := now, hd_held := foldl (\<lambda>d x. ddel (snd x) d) (hd_held h) due\<rparr>, map (\<lambda>x. HdDeposit (snd (fst x))) due))"

end
