(* ===== verification/Alarm.thy ===== *)
theory Alarm
  imports Alarm_Model "HOL-Library.Multiset"
begin

text \<open>
  What the alarms promise: an alarm's escalation timer runs exactly while it waits for an operator, and one that waits long
  enough is escalated, once; the hold-down never changes which alarms are active in the end; an inform is answered only after
  its event was stored.
\<close>

declare split_paired_All [simp del] split_paired_Ex [simp del] map_of_eq_Some_iff [simp del]

section \<open>The alarm list's invariant\<close>

definition alarm_ok :: "int \<Rightarrow> (string option \<times> int) option \<Rightarrow> alarm \<Rightarrow> bool" where
  "alarm_ok now policy a \<longleftrightarrow> (am_due a \<noteq> None \<longleftrightarrow> needs_escalation policy a)
     \<and> (\<forall>d least after. am_due a = Some d \<and> policy = Some (least, after) \<longrightarrow> d \<le> now + after)"

definition alarms_ok :: "alarms \<Rightarrow> bool" where
  "alarms_ok s \<longleftrightarrow> distinct (dkeys (al_alarms s)) \<and> (\<forall>k a. dget (al_alarms s) k = Some a \<longrightarrow> alarm_ok (al_now s) (al_policy s) a)"

fun alevent_ok :: "alevent \<Rightarrow> bool" where
  "alevent_ok (AlAdvance n) \<longleftrightarrow> 0 \<le> n"
| "alevent_ok _ \<longleftrightarrow> True"

lemma arm_alarm_simps [simp]: "needs_escalation policy (arm_alarm now policy a) = needs_escalation policy a"
  "am_cleared (arm_alarm now policy a) = am_cleared a" "am_severity (arm_alarm now policy a) = am_severity a"
  by (simp_all add: arm_alarm_def needs_escalation_def split: option.split)

lemma arm_alarm_ok: "(\<And>d least after. am_due a = Some d \<Longrightarrow> policy = Some (least, after) \<Longrightarrow> d \<le> now + after) \<Longrightarrow> alarm_ok now policy (arm_alarm now policy a)"
  unfolding alarm_ok_def arm_alarm_simps by (auto simp: arm_alarm_def needs_escalation_def split: option.splits)

lemma put_armed_ok:
  assumes "alarms_ok s" "\<And>d least after. am_due a = Some d \<Longrightarrow> al_policy s = Some (least, after) \<Longrightarrow> d \<le> al_now s + after"
  shows "alarms_ok (put_armed k a s)"
  using assms arm_alarm_ok [of a "al_policy s" "al_now s"] dict.distinct_keys_put by (auto simp: alarms_ok_def put_armed_def)

lemma put_armed_frame [simp]: "al_now (put_armed k a s) = al_now s" "al_policy (put_armed k a s) = al_policy s"
  "al_gateways (put_armed k a s) = al_gateways s"
  "dget (al_alarms (put_armed k a s)) k' = (if k' = k then Some (arm_alarm (al_now s) (al_policy s) a) else dget (al_alarms s) k')"
  by (simp_all add: put_armed_def)

lemma stored_due: "alarms_ok s \<Longrightarrow> dget (al_alarms s) k = Some a \<Longrightarrow> am_due a = Some d \<Longrightarrow> al_policy s = Some (least, after) \<Longrightarrow> d \<le> al_now s + after"
  unfolding alarms_ok_def alarm_ok_def by blast

lemma counted_ok: assumes "alarms_ok s" "dget (al_alarms s) k = Some a"
  shows "alarms_ok (s\<lparr>al_alarms := dset k (a\<lparr>am_count := n\<rparr>) (al_alarms s)\<rparr>)"
proof -
  have "alarm_ok now policy (a\<lparr>am_count := n\<rparr>) = alarm_ok now policy a" for now policy
    by (simp add: alarm_ok_def needs_escalation_def cong: option.case_cong)
  then show ?thesis
    using assms dict.distinct_keys_put [of "al_alarms s"] by (simp add: alarms_ok_def)
qed

lemma al_report_ok: assumes "alarms_ok s" shows "alarms_ok (fst (al_report r s))"
proof (cases "dget (al_alarms s) (key_of r)")
  case None
  with assms show ?thesis by (auto simp: al_report_def Let_def intro!: put_armed_ok)
next
  case (Some a)
  note due = stored_due [OF assms Some]
  with assms Some counted_ok [OF assms Some] show ?thesis
    by (auto simp: al_report_def Let_def intro!: put_armed_ok)
qed

lemma al_report_frame: "al_now (fst (al_report r s)) = al_now s \<and> al_policy (fst (al_report r s)) = al_policy s
    \<and> al_gateways (fst (al_report r s)) = al_gateways s"
  by (auto simp: al_report_def Let_def split: option.split)

lemma al_report_other: "k \<noteq> key_of r \<Longrightarrow> dget (al_alarms (fst (al_report r s))) k = dget (al_alarms s) k"
  by (auto simp: al_report_def Let_def split: option.split)

lemma al_report_no_escalate: "AEscalate k sev \<notin> set (snd (al_report r s))"
  by (auto simp: al_report_def Let_def split: option.split)

section \<open>The passing of time\<close>

text \<open>What checking the gateways keeps: the clock, the policy and every active alarm.\<close>

definition silent_inv :: "alarms \<Rightarrow> alarms \<times> aout list \<Rightarrow> bool" where
  "silent_inv s acc \<longleftrightarrow> alarms_ok (fst acc) \<and> al_now (fst acc) = al_now s \<and> al_policy (fst acc) = al_policy s
     \<and> (\<forall>k a. dget (al_alarms s) k = Some a \<and> \<not> am_cleared a \<longrightarrow> dget (al_alarms (fst acc)) k = Some a)
     \<and> (\<forall>k sev. AEscalate k sev \<notin> set (snd acc))"

lemma check_silent_inv: assumes "silent_inv s acc" shows "silent_inv s (check_silent acc g)"
proof -
  obtain t out where acc: "acc = (t, out)" by fastforce
  let ?r = "silent_report g (Some ''major'') False"
  have k: "key_of ?r = (g, SILENT, '''')" by (simp add: key_of_def silent_report_def)
  have "silent_inv s (fst (al_report ?r t), out @ snd (al_report ?r t))" if inactive: "\<not> active_at (g, SILENT, '''') t"
  proof -
    have "dget (al_alarms (fst (al_report ?r t))) key = Some a" if "dget (al_alarms s) key = Some a" "\<not> am_cleared a" for key a
    proof -
      have "dget (al_alarms t) key = Some a" using assms that acc by (simp add: silent_inv_def)
      moreover from this that inactive k have "key \<noteq> key_of ?r" by (auto simp: active_at_def)
      ultimately show ?thesis by (simp add: al_report_other)
    qed
    then show ?thesis
      using assms acc al_report_frame [of ?r t] al_report_ok [of t ?r] al_report_no_escalate by (auto simp: silent_inv_def)
  qed
  then show ?thesis
    using assms acc by (simp add: check_silent_def case_prod_beta' Let_def split: option.split)
qed

lemma silent_checked: "alarms_ok s \<Longrightarrow> silent_inv s (foldl check_silent (s, []) gs)"
  by (rule foldl_inv) (simp_all add: silent_inv_def [of s "(s, [])"] check_silent_inv)

text \<open>What escalating a list of alarms does to the alarms.\<close>

definition escalated_to :: "alarms \<Rightarrow> akey list \<Rightarrow> alarms \<Rightarrow> bool" where
  "escalated_to s ks s' \<longleftrightarrow> al_now s' = al_now s \<and> al_policy s' = al_policy s \<and> dkeys (al_alarms s') = dkeys (al_alarms s)
    \<and> (\<forall>k. dget (al_alarms s') k = (if k \<in> set ks then map_option (\<lambda>a. a\<lparr>am_due := None, am_escalated := True\<rparr>) (dget (al_alarms s) k)
        else dget (al_alarms s) k))"

definition escalations :: "alarms \<Rightarrow> akey list \<Rightarrow> aout list" where
  "escalations s ks = map (\<lambda>k. AEscalate k (am_severity (the (dget (al_alarms s) k)))) ks"

lemma escalate_all:
  "distinct ks \<Longrightarrow> \<forall>k \<in> set ks. dget (al_alarms s) k \<noteq> None
    \<Longrightarrow> \<exists>s'. foldl escalate (s, out) ks = (s', out @ escalations s ks) \<and> escalated_to s ks s'"
proof (induction ks arbitrary: s out)
  case Nil
  then show ?case by (simp add: escalations_def escalated_to_def)
next
  case (Cons k ks)
  then obtain a where a: "dget (al_alarms s) k = Some a" by auto
  define s1 where "s1 = s\<lparr>al_alarms := dset k (a\<lparr>am_due := None, am_escalated := True\<rparr>) (al_alarms s)\<rparr>"
  have "\<forall>k' \<in> set ks. dget (al_alarms s1) k' \<noteq> None" using Cons.prems by (simp add: s1_def)
  then obtain s' where s': "foldl escalate (s1, out @ [AEscalate k (am_severity a)]) ks = (s', (out @ [AEscalate k (am_severity a)]) @ escalations s1 ks)"
    and e: "escalated_to s1 ks s'"
    using Cons.IH Cons.prems(1) by (meson distinct.simps(2))
  have "escalations s1 ks = escalations s ks"
    unfolding escalations_def using Cons.prems(1) by (intro map_cong) (auto simp: s1_def)
  moreover have "dkeys (al_alarms s1) = dkeys (al_alarms s)"
    using dget_in_keys [OF a] by (simp add: s1_def AList.update_keys)
  moreover have "escalate (s, out) k = (s1, out @ [AEscalate k (am_severity a)])" by (simp add: escalate_def a s1_def)
  moreover have "dget (al_alarms s') key = (if key \<in> set (k # ks) then map_option (\<lambda>a. a\<lparr>am_due := None, am_escalated := True\<rparr>) (dget (al_alarms s) key)
      else dget (al_alarms s) key)" for key
    using e a Cons.prems(1) by (cases "key = k") (simp_all add: escalated_to_def s1_def)
  ultimately show ?case
    using s' e a by (simp add: escalations_def escalated_to_def s1_def)
qed

lemma due_alarms_set: "distinct (dkeys (al_alarms s)) \<Longrightarrow> k \<in> set (map snd (due_alarms s)) \<longleftrightarrow>
    (\<exists>a d. dget (al_alarms s) k = Some a \<and> am_due a = Some d \<and> d \<le> al_now s)"
  by (force simp: due_alarms_def split: option.splits dest: map_of_SomeD)

lemma due_alarms_distinct: assumes "distinct (dkeys (al_alarms s))" shows "distinct (map snd (due_alarms s))"
proof -
  let ?P = "\<lambda>(_ :: akey, a). case am_due a of None \<Rightarrow> False | Some d \<Rightarrow> d \<le> al_now s"
  have "mset (map snd (due_alarms s)) = image_mset snd (mset (map (\<lambda>(k, a). (the (am_due a), k)) (filter ?P (al_alarms s))))"
    unfolding due_alarms_def by (simp only: mset_map mset_sort)
  also have "\<dots> = mset (map fst (filter ?P (al_alarms s)))"
    by (simp add: case_prod_beta' image_mset.compositionality comp_def)
  finally show ?thesis
    using assms by (metis (no_types, lifting) distinct_map_filter mset_eq_imp_distinct_iff)
qed

section \<open>Escalation\<close>

definition checked :: "int \<Rightarrow> alarms \<Rightarrow> alarms \<times> aout list" where
  "checked n s = foldl check_silent (s\<lparr>al_now := al_now s + n\<rparr>, []) (dsorted (al_gateways s))"

lemma alarms_later: "alarms_ok s \<Longrightarrow> 0 \<le> n \<Longrightarrow> alarms_ok (s\<lparr>al_now := al_now s + n\<rparr>)"
  unfolding alarms_ok_def alarm_ok_def by (simp add: split_paired_all) (meson add_increasing2 add_mono order_refl order_trans)

lemma al_advance_spec:
  assumes "alarms_ok s" "0 \<le> n"
  defines "s1 \<equiv> fst (checked n s)"
  shows "silent_inv (s\<lparr>al_now := al_now s + n\<rparr>) (checked n s)
    \<and> escalated_to s1 (map snd (due_alarms s1)) (fst (al_advance n s))
    \<and> snd (al_advance n s) = snd (checked n s) @ escalations s1 (map snd (due_alarms s1))"
proof -
  have inv: "silent_inv (s\<lparr>al_now := al_now s + n\<rparr>) (checked n s)"
    unfolding checked_def by (rule silent_checked [OF alarms_later [OF assms(1,2)]])
  then have d: "distinct (dkeys (al_alarms s1))" by (simp add: silent_inv_def alarms_ok_def s1_def)
  have "\<forall>k \<in> set (map snd (due_alarms s1)). dget (al_alarms s1) k \<noteq> None"
    using due_alarms_set [OF d] by (metis option.distinct(1))
  from escalate_all [OF due_alarms_distinct [OF d] this, of "snd (checked n s)"] inv show ?thesis
    unfolding al_advance_def checked_def [symmetric] s1_def by (auto simp: case_prod_beta' Let_def)
qed

lemma al_advance_ok: assumes "alarms_ok s" "0 \<le> n" shows "alarms_ok (fst (al_advance n s))"
proof -
  define s1 where "s1 = fst (checked n s)"
  have ok: "alarms_ok s1" and e: "escalated_to s1 (map snd (due_alarms s1)) (fst (al_advance n s))"
    using al_advance_spec [OF assms] by (simp_all add: s1_def silent_inv_def)
  have "alarm_ok now policy (a\<lparr>am_due := None, am_escalated := True\<rparr>)" for now policy a
    by (simp add: alarm_ok_def needs_escalation_def split: option.split)
  then show ?thesis
    using ok e unfolding alarms_ok_def escalated_to_def by (auto split: if_splits)
qed

definition alarm_next :: "alarms \<Rightarrow> alevent \<Rightarrow> alarms option" where
  "alarm_next s e = Some (fst (alarm_step s e))"

lemma al_ack_ok: "alarms_ok s \<Longrightarrow> alarms_ok (fst (al_ack k state by_who s))"
  using stored_due [of s k] by (auto simp: al_ack_def intro!: put_armed_ok split: option.split)

lemma al_heartbeat_ok: assumes "alarms_ok s" shows "alarms_ok (fst (al_heartbeat g i s))"
proof -
  have "alarms_ok (s\<lparr>al_gateways := gs\<rparr>)" for gs using assms by (simp add: alarms_ok_def)
  then show ?thesis by (simp add: al_heartbeat_def Let_def al_report_ok)
qed

lemma alarm_step_policy: assumes "alarms_ok s" "alevent_ok e" shows "al_policy (fst (alarm_step s e)) = al_policy s"
proof (cases e)
  case (AlAdvance n)
  with al_advance_spec [OF assms(1), of n] assms(2) show ?thesis by (simp add: escalated_to_def silent_inv_def)
qed (auto simp: al_report_frame al_ack_def al_heartbeat_def Let_def split: option.split)

lemma alarm_step_ok: "alarms_ok s \<Longrightarrow> alevent_ok e \<Longrightarrow> alarms_ok (fst (alarm_step s e))"
  by (cases e) (simp_all add: al_report_ok al_ack_ok al_heartbeat_ok al_advance_ok)

interpretation alarm: total_machine alarm_next alevent_ok "\<lambda>s. alarms_ok s \<and> al_policy s = policy" for policy
  by unfold_locales (auto simp: alarm_next_def alarm_step_ok alarm_step_policy)

lemma init_alarms_ok: "alarms_ok (init_alarms now policy) \<and> al_policy (init_alarms now policy) = policy"
  by (simp add: alarms_ok_def init_alarms_def)

section \<open>How long an alarm waits\<close>

text \<open>
  The time since which an alarm waits for an operator, kept beside a run from what the list shows and emits: an alarm waits
  while it is active, without an operator, severe enough and not escalated since it was raised. The timer is not looked at.
\<close>

fun calls :: "akey \<Rightarrow> bool \<Rightarrow> aout list \<Rightarrow> bool" where
  "calls k c [] = c"
| "calls k c (AEscalate k' sev # out) = calls k (c \<or> k' = k) out"
| "calls k c (ARaised k' sev again # out) = calls k (c \<and> k' \<noteq> k) out"
| "calls k c (ACleared k' # out) = calls k c out"
| "calls k c (AChanged k' sev # out) = calls k c out"
| "calls k c (AOperator k' state by # out) = calls k c out"

definition waits :: "string option \<Rightarrow> akey \<Rightarrow> bool \<Rightarrow> alarms \<Rightarrow> bool" where
  "waits least k called s \<longleftrightarrow> (case dget (al_alarms s) k of None \<Rightarrow> False
     | Some a \<Rightarrow> \<not> am_cleared a \<and> am_operator a = ''none'' \<and> \<not> called \<and> sev_rank least \<le> sev_rank (am_severity a))"

definition watch_step :: "string option \<Rightarrow> akey \<Rightarrow> int option \<times> bool \<Rightarrow> alarms \<Rightarrow> aout list \<Rightarrow> int option \<times> bool" where
  "watch_step least k w s out =
    (let c = calls k (snd w) out
     in (if \<not> waits least k c s then None else if fst w = None then Some (al_now s) else fst w, c))"

fun watch_run :: "string option \<Rightarrow> akey \<Rightarrow> alarms \<Rightarrow> int option \<times> bool \<Rightarrow> alevent list \<Rightarrow> alarms \<times> int option \<times> bool" where
  "watch_run least k s w [] = (s, w)"
| "watch_run least k s w (e # es) =
    (let (s', out) = alarm_step s e in watch_run least k s' (watch_step least k w s' out) es)"

text \<open>The list agrees with the watch on one alarm.\<close>

definition watched :: "string option \<Rightarrow> int \<Rightarrow> akey \<Rightarrow> int option \<times> bool \<Rightarrow> alarms \<Rightarrow> bool" where
  "watched least after k w s \<longleftrightarrow> (case dget (al_alarms s) k of None \<Rightarrow> w = (None, False)
     | Some a \<Rightarrow> am_escalated a = snd w \<and> am_due a = map_option (\<lambda>t. t + after) (fst w)
         \<and> (fst w \<noteq> None \<longleftrightarrow> needs_escalation (Some (least, after)) a))"

lemma watched_waits: "watched least after k w s \<Longrightarrow> fst w \<noteq> None \<longleftrightarrow> waits least k (snd w) s"
  by (auto simp: watched_def waits_def needs_escalation_def split: option.splits)

lemma calls_append [simp]: "calls k c (out @ out') = calls k (calls k c out) out'"
  by (induction k c out rule: calls.induct) auto

text \<open>A step that leaves the alarm alone, and one that stores it armed.\<close>

lemma watched_same:
  assumes "watched least after k w s" "dget (al_alarms s') k = dget (al_alarms s) k" "calls k (snd w) out = snd w"
  shows "watched least after k (watch_step least k w s' out) s'"
proof -
  have "waits least k (snd w) s' = waits least k (snd w) s" using assms(2) by (simp add: waits_def)
  with watched_waits [OF assms(1)] assms(3) have "watch_step least k w s' out = w"
    by (cases w) (auto simp: watch_step_def Let_def)
  with assms(1,2) show ?thesis by (simp add: watched_def)
qed

lemma arm_alarm_due:
  assumes "am_due a = map_option (\<lambda>t. t + after) w"
  shows "am_due (arm_alarm now (Some (least, after)) a) = map_option (\<lambda>t. t + after)
      (if \<not> needs_escalation (Some (least, after)) a then None else if w = None then Some now else w)"
  using assms by (auto simp: arm_alarm_def)

lemma arm_alarm_keeps [simp]: "am_escalated (arm_alarm now policy a) = am_escalated a" "am_operator (arm_alarm now policy a) = am_operator a"
  by (simp_all add: arm_alarm_def)

lemma watched_armed:
  assumes "al_policy s = Some (least, after)" "am_due a = map_option (\<lambda>t. t + after) (fst w)" "am_escalated a = calls k (snd w) out"
  shows "watched least after k (watch_step least k w (put_armed k a s) out) (put_armed k a s)"
proof -
  have "waits least k (calls k (snd w) out) (put_armed k a s) = needs_escalation (Some (least, after)) a"
    using assms(3) by (simp add: waits_def needs_escalation_def)
  then show ?thesis
    using arm_alarm_due [OF assms(2), of "al_now s" least] assms(1,3) by (auto simp: watched_def watch_step_def Let_def)
qed

lemma al_report_watched:
  assumes "watched least after k w s" "al_policy s = Some (least, after)"
  shows "watched least after k (watch_step least k w (fst (al_report r s)) (snd (al_report r s))) (fst (al_report r s))"
proof (cases "k = key_of r")
  case False
  then have "calls k (snd w) (snd (al_report r s)) = snd w" by (auto simp: al_report_def Let_def split: option.split)
  with watched_same [OF assms(1) al_report_other [OF False]] show ?thesis by simp
next
  case True
  show ?thesis
  proof (cases "dget (al_alarms s) k")
    case None
    then have "w = (None, False)" using assms(1) by (simp add: watched_def)
    with None assms(2) True watched_same [OF assms(1), of s "[]"] show ?thesis
      by (auto simp: al_report_def Let_def intro!: watched_armed)
  next
    case (Some a)
    then have a: "am_escalated a = snd w" "am_due a = map_option (\<lambda>t. t + after) (fst w)" "fst w \<noteq> None \<longleftrightarrow> needs_escalation (Some (least, after)) a"
      using assms(1) by (simp_all add: watched_def)
    define counted where "counted = s\<lparr>al_alarms := dset k (a\<lparr>am_count := am_count a + 1\<rparr>) (al_alarms s)\<rparr>"
    have "watched least after k w counted" using assms(1) Some by (simp add: watched_def counted_def needs_escalation_def)
    from watched_same [OF this, of counted "[]"] have counted: "watched least after k (watch_step least k w counted []) counted" by simp
    have quiet: "fst w = None" if "am_cleared a" using a(3) that by (auto simp: needs_escalation_def)
    show ?thesis
      using Some True a counted quiet assms(2)
      by (auto simp: al_report_def Let_def counted_def intro!: watched_armed)
  qed
qed

text \<open>Watching two steps at once.\<close>

lemma watch_step_twice:
  assumes "watched least after k w s" "al_now s2 = al_now s1"
    "waits least k (snd w) s \<Longrightarrow> waits least k (calls k (snd w) out) s1 \<or> \<not> waits least k (calls k (snd w) (out @ out')) s2"
  shows "watch_step least k (watch_step least k w s1 out) s2 out' = watch_step least k w s2 (out @ out')"
  using assms(2,3) watched_waits [OF assms(1)] by (auto simp: watch_step_def Let_def)

definition checked_ok :: "string option \<Rightarrow> int \<Rightarrow> akey \<Rightarrow> int option \<times> bool \<Rightarrow> alarms \<Rightarrow> alarms \<times> aout list \<Rightarrow> bool" where
  "checked_ok least after k w s acc \<longleftrightarrow> silent_inv s acc \<and> watched least after k (watch_step least k w (fst acc) (snd acc)) (fst acc)
     \<and> (active_at k s \<longrightarrow> calls k (snd w) (snd acc) = snd w)"

lemma checked_ok_waits:
  assumes "checked_ok least after k w s (t, out)" "waits least k (snd w) s"
  shows "waits least k (calls k (snd w) out) t"
  using assms by (auto simp: waits_def checked_ok_def silent_inv_def active_at_def split: option.splits)

lemma check_silent_watched:
  assumes "checked_ok least after k w s acc" "watched least after k w s" "al_policy s = Some (least, after)"
  shows "checked_ok least after k w s (check_silent acc g)"
proof -
  obtain t out where acc: "acc = (t, out)" by fastforce
  let ?r = "silent_report g (Some ''major'') False"
  define t' out' where "t' = fst (al_report ?r t)" and "out' = snd (al_report ?r t)"
  have key: "key_of ?r = (g, SILENT, '''')" by (simp add: key_of_def silent_report_def)
  have inv: "silent_inv s acc" and w1: "watched least after k (watch_step least k w t out) t"
    and kept: "active_at k s \<Longrightarrow> calls k (snd w) out = snd w" using assms(1) acc by (simp_all add: checked_ok_def)
  have pol: "al_policy t = Some (least, after)" using inv assms(3) acc by (simp add: silent_inv_def)
  have "checked_ok least after k w s (t', out @ out')" if inactive: "\<not> active_at (g, SILENT, '''') t" and step: "check_silent acc g = (t', out @ out')"
  proof -
    have still: "active_at k s \<Longrightarrow> active_at k t" using inv acc by (auto simp: silent_inv_def active_at_def split: option.splits)
    have calm: "calls k c out' = c" if "active_at k s" for c
    proof -
      have "k \<noteq> key_of ?r" using that still inactive key by auto
      then show ?thesis by (auto simp: out'_def al_report_def Let_def split: option.split)
    qed
    have "watch_step least k (watch_step least k w t out) t' out' = watch_step least k w t' (out @ out')"
      using watch_step_twice [OF assms(2), of t' t out out'] checked_ok_waits [OF assms(1) [unfolded acc]] al_report_frame [of ?r t]
      by (simp add: t'_def)
    moreover have "watched least after k (watch_step least k (watch_step least k w t out) t' out') t'"
      unfolding t'_def out'_def by (rule al_report_watched [OF w1 pol])
    ultimately show ?thesis
      using check_silent_inv [OF inv, of g] step kept calm by (simp add: checked_ok_def)
  qed
  then show ?thesis
    using assms(1) acc by (auto simp: check_silent_def case_prod_beta' Let_def t'_def out'_def split: option.split)
qed

lemma checked_watched:
  assumes "alarms_ok s" "watched least after k w s" "al_policy s = Some (least, after)"
  shows "checked_ok least after k w s (foldl check_silent (s, []) gs)"
proof (rule foldl_inv)
  show "checked_ok least after k w s (s, [])"
    using assms(1) watched_same [OF assms(2), of s "[]"] by (simp add: checked_ok_def silent_inv_def)
qed (rule check_silent_watched [OF _ assms(2,3)])

lemma watched_later [simp]: "watched least after k w (s\<lparr>al_now := t\<rparr>) = watched least after k w s"
  "watched least after k w (s\<lparr>al_gateways := gs\<rparr>) = watched least after k w s"
  by (simp_all add: watched_def)

lemma calls_escalations [simp]: "calls k c (escalations s ks) \<longleftrightarrow> c \<or> k \<in> set ks"
  by (induction ks arbitrary: c) (auto simp: escalations_def)

lemma al_advance_watched:
  assumes "alarms_ok s" "0 \<le> n" "watched least after k w s" "al_policy s = Some (least, after)"
  defines "s1 \<equiv> fst (checked n s)" and "out1 \<equiv> snd (checked n s)"
  shows "checked_ok least after k w (s\<lparr>al_now := al_now s + n\<rparr>) (s1, out1)"
    and "watched least after k (watch_step least k w (fst (al_advance n s)) (snd (al_advance n s))) (fst (al_advance n s))"
proof -
  show ck: "checked_ok least after k w (s\<lparr>al_now := al_now s + n\<rparr>) (s1, out1)"
    unfolding s1_def out1_def prod.collapse unfolding checked_def
    using assms by (intro checked_watched alarms_later) simp_all
  define ks where "ks = map snd (due_alarms s1)"
  have e: "escalated_to s1 ks (fst (al_advance n s))" and out: "snd (al_advance n s) = out1 @ escalations s1 ks"
    using al_advance_spec [OF assms(1,2)] by (simp_all add: s1_def out1_def ks_def)
  have w1: "watched least after k (watch_step least k w s1 out1) s1" and d: "distinct (dkeys (al_alarms s1))"
    using ck by (simp_all add: checked_ok_def silent_inv_def alarms_ok_def)
  have two: "watch_step least k (watch_step least k w s1 out1) (fst (al_advance n s)) (escalations s1 ks)
      = watch_step least k w (fst (al_advance n s)) (snd (al_advance n s))"
    unfolding out
  proof (rule watch_step_twice [where s = "s\<lparr>al_now := al_now s + n\<rparr>" and after = after])
    show "al_now (fst (al_advance n s)) = al_now s1" using e by (simp add: escalated_to_def)
  qed (use assms(3) checked_ok_waits [OF ck] in simp_all)
  show "watched least after k (watch_step least k w (fst (al_advance n s)) (snd (al_advance n s))) (fst (al_advance n s))"
    unfolding two [symmetric]
  proof (cases "k \<in> set ks")
    case True
    then obtain a where a: "dget (al_alarms s1) k = Some a" using due_alarms_set [OF d, of k] by (auto simp: ks_def)
    then have "dget (al_alarms (fst (al_advance n s))) k = Some (a\<lparr>am_due := None, am_escalated := True\<rparr>)"
      using e True by (simp add: escalated_to_def)
    with True show "watched least after k (watch_step least k (watch_step least k w s1 out1) (fst (al_advance n s)) (escalations s1 ks)) (fst (al_advance n s))"
      by (simp add: watched_def watch_step_def waits_def needs_escalation_def)
  next
    case False
    with e watched_same [OF w1, of "fst (al_advance n s)" "escalations s1 ks"]
    show "watched least after k (watch_step least k (watch_step least k w s1 out1) (fst (al_advance n s)) (escalations s1 ks)) (fst (al_advance n s))"
      by (simp add: escalated_to_def)
  qed
qed

lemma alarm_step_watched:
  assumes "alarms_ok s" "alevent_ok e" "watched least after k w s" "al_policy s = Some (least, after)" "alarm_step s e = (s', out)"
  shows "watched least after k (watch_step least k w s' out) s'"
proof (cases e)
  case (AlReport r)
  with al_report_watched [OF assms(3,4), of r] assms(5) show ?thesis by simp
next
  case (AlAck k' state by_who)
  show ?thesis
  proof (cases "s' = s")
    case True
    with AlAck assms(5) watched_same [OF assms(3), of s out] show ?thesis
      by (auto simp: al_ack_def split: option.splits if_splits)
  next
    case False
    then obtain a where a: "dget (al_alarms s) k' = Some a" "s' = put_armed k' (a\<lparr>am_operator := state\<rparr>) s" "out = [AOperator k' state by_who]"
      using AlAck assms(5) by (auto simp: al_ack_def split: option.splits if_splits)
    then show ?thesis
      using watched_same [OF assms(3), of s' out] assms(3) watched_armed [OF assms(4), of "a\<lparr>am_operator := state\<rparr>" w k out]
      by (cases "k = k'") (simp_all add: watched_def)
  qed
next
  case (AlHeartbeat g i)
  define s0 where "s0 = s\<lparr>al_gateways := dset g (i, al_now s) (al_gateways s)\<rparr>"
  have "watched least after k w s0" "al_policy s0 = Some (least, after)" using assms(3,4) by (simp_all add: s0_def)
  with watched_same [of least after k w s0 s0 "[]"] al_report_watched [of least after k w s0] AlHeartbeat assms(5) show ?thesis
    by (auto simp: al_heartbeat_def Let_def s0_def [symmetric] split: if_splits) (metis fst_conv snd_conv)+
next
  case (AlAdvance n)
  with al_advance_watched(2) [OF assms(1) _ assms(3,4), of n] assms(2,5) show ?thesis by simp
qed

lemma watch_run_watched:
  "list_all alevent_ok es \<Longrightarrow> alarms_ok s \<Longrightarrow> watched least after k w s \<Longrightarrow> al_policy s = Some (least, after) \<Longrightarrow> watch_run least k s w es = (s', w')
    \<Longrightarrow> alarms_ok s' \<and> watched least after k w' s' \<and> al_policy s' = Some (least, after)"
proof (induction es arbitrary: s w)
  case (Cons e es)
  obtain t out where t: "alarm_step s e = (t, out)" by fastforce
  have "alarms_ok t" "al_policy t = Some (least, after)"
    using alarm_step_ok [of s e] alarm_step_policy [of s e] Cons.prems t by auto
  with Cons.IH [of t "watch_step least k w t out"] alarm_step_watched [of s e least after k w t out] Cons.prems t show ?case by simp
qed simp

definition escalated_by :: "akey \<Rightarrow> aout list \<Rightarrow> string option list" where
  "escalated_by k out = List.map_filter (\<lambda>x. case x of AEscalate k' sev \<Rightarrow> if k' = k then Some sev else None | _ \<Rightarrow> None) out"

lemma escalated_by_simps [simp]: "escalated_by k [] = []" "escalated_by k (out @ out') = escalated_by k out @ escalated_by k out'"
  by (simp_all add: escalated_by_def List.map_filter_def)

lemma escalated_by_none: "(\<And>sev. AEscalate k sev \<notin> set out) \<Longrightarrow> escalated_by k out = []"
  by (induction out) (auto simp: escalated_by_def List.map_filter_simps split: aout.splits)

lemma escalated_by_escalations:
  "distinct ks \<Longrightarrow> escalated_by k (escalations s ks) = (if k \<in> set ks then [am_severity (the (dget (al_alarms s) k))] else [])"
  by (induction ks) (auto simp: escalations_def escalated_by_def List.map_filter_simps)

lemma other_steps_quiet: "(\<And>n. e \<noteq> AlAdvance n) \<Longrightarrow> escalated_by k (snd (alarm_step s e)) = []"
  by (rule escalated_by_none, cases e) (auto simp: al_report_no_escalate al_ack_def al_heartbeat_def Let_def split: option.split)

section \<open>Informs\<close>

fun inform_run :: "informs \<Rightarrow> imevent list \<Rightarrow> informs \<times> imout list" where
  "inform_run s [] = (s, [])"
| "inform_run s (e # es) = (let (s1, out) = inform_step s e; (s2, outs) = inform_run s1 es in (s2, out @ outs))"

definition answered_ok :: "(string \<times> int) set \<Rightarrow> informs \<Rightarrow> bool" where
  "answered_ok K s \<longleftrightarrow> distinct (dkeys (im_informs s)) \<and> (\<forall>k until. dget (im_informs s) k = Some (Answered until) \<longrightarrow> k \<in> K)"

lemma dget_filter_some: assumes "distinct (dkeys d)" "dget (filter P d) k = Some v" shows "dget d k = Some v"
proof -
  have "(k, v) \<in> set d" using map_of_SomeD [OF assms(2)] by simp
  then show ?thesis using assms(1) by (rule map_of_is_SomeI [rotated])
qed

lemma inform_step_answers:
  fixes e :: imevent
  assumes "answered_ok K s"
  defines "K' \<equiv> K \<union> {k. e = IAccepted k}"
  shows "answered_ok K' (fst (inform_step s e)) \<and> (\<forall>k. IRespond k \<in> set (snd (inform_step s e)) \<longrightarrow> k \<in> K')"
proof (cases e)
  case (IInform src rid)
  then show ?thesis
    using assms(1) dict.distinct_keys_put [of "im_informs s"] by (auto simp: answered_ok_def K'_def split: option.split inform.split)
next
  case (IAccepted k)
  then show ?thesis
    using assms(1) dict.distinct_keys_put [of "im_informs s"] by (auto simp: answered_ok_def K'_def)
next
  case (IRefused k)
  then show ?thesis
    using assms(1) dict.distinct_keys_del [of "im_informs s"] by (auto simp: answered_ok_def K'_def)
next
  case (IAdvance n)
  then show ?thesis
    using assms(1) dget_filter_some [of "im_informs s"] distinct_map_filter [of fst "im_informs s"]
    by (auto simp: answered_ok_def K'_def)
qed

text \<open>An inform is answered only after the hub accepted its event.\<close>

lemma answered_after_accepted: "answered_ok K s \<Longrightarrow> IRespond k \<in> set (snd (inform_run s es)) \<Longrightarrow> k \<in> K \<union> {k. IAccepted k \<in> set es}"
proof (induction es arbitrary: s K)
  case (Cons e es)
  define K' where "K' = K \<union> {k. e = IAccepted k}"
  have "answered_ok K' (fst (inform_step s e))" "IRespond k \<in> set (snd (inform_step s e)) \<Longrightarrow> k \<in> K'"
    using inform_step_answers [OF Cons.prems(1), of e] by (auto simp: K'_def)
  with Cons.IH [of K' "fst (inform_step s e)"] Cons.prems(2) show ?case
    by (auto simp: case_prod_beta' Let_def K'_def)
qed simp

section \<open>The hold-down\<close>

fun hd_run :: "holddown \<Rightarrow> hdevent list \<Rightarrow> holddown \<times> hdout list" where
  "hd_run h [] = (h, [])"
| "hd_run h (e # es) = (let (h1, out) = holddown_step h e; (h2, outs) = hd_run h1 es in (h2, out @ outs))"

definition reports_in :: "hdevent list \<Rightarrow> report list" where
  "reports_in es = concat (map (\<lambda>e. case e of HdReport r \<Rightarrow> [filled r] | _ \<Rightarrow> []) es)"

definition reports_out :: "hdout list \<Rightarrow> report list" where
  "reports_out out = concat (map (\<lambda>x. case x of HdDeposit r \<Rightarrow> [r] | _ \<Rightarrow> []) out)"

text \<open>Whether the last of some reports about an alarm leaves it cleared; an alarm without a report is not active.\<close>

definition left_cleared :: "bool \<Rightarrow> akey \<Rightarrow> report list \<Rightarrow> bool" where
  "left_cleared b k rs = foldl (\<lambda>c r. if key_of r = k then rp_cleared r else c) b rs"

lemma left_cleared_simps [simp]: "left_cleared b k [] = b"
  "left_cleared b k (r # rs) = left_cleared (if key_of r = k then rp_cleared r else b) k rs"
  "left_cleared b k (rs @ rs') = left_cleared (left_cleared b k rs) k rs'"
  by (simp_all add: left_cleared_def)

lemma left_cleared_all: "(\<forall>r \<in> set rs. rp_cleared r) \<Longrightarrow> left_cleared b k rs \<longleftrightarrow> b \<or> k \<in> key_of ` set rs"
  by (induction rs arbitrary: b) auto

definition hd_ok :: "holddown \<Rightarrow> bool" where
  "hd_ok h \<longleftrightarrow> distinct (dkeys (hd_held h)) \<and> 0 \<le> hd_hold h
     \<and> (\<forall>k d r. dget (hd_held h) k = Some (d, r) \<longrightarrow> rp_cleared r \<and> key_of r = k \<and> d \<le> hd_now h + hd_hold h)"

definition held_key :: "holddown \<Rightarrow> akey \<Rightarrow> bool" where
  "held_key h k \<longleftrightarrow> dget (hd_held h) k \<noteq> None"

fun hdevent_ok :: "hdevent \<Rightarrow> bool" where
  "hdevent_ok (HdAdvance n) \<longleftrightarrow> 0 \<le> n"
| "hdevent_ok _ \<longleftrightarrow> True"

lemma foldl_ddel: "dget (foldl (\<lambda>d x. ddel (f x) d) d xs) k = (if k \<in> f ` set xs then None else dget d k)"
  by (induction xs arbitrary: d) auto

lemma foldl_ddel_distinct: "distinct (dkeys d) \<Longrightarrow> distinct (dkeys (foldl (\<lambda>d x. ddel (f x) d) d xs))"
  by (rule foldl_inv) (auto intro: dict.distinct_keys_del)

lemma holddown_report_ok: assumes "hd_ok h" shows "hd_ok (fst (holddown_step h (HdReport r)))"
  using assms dict.distinct_keys_put [of "hd_held h"] dict.distinct_keys_del [of "hd_held h"]
  by (cases "rp_inform (filled r)"; cases "rp_cleared (filled r)"; cases "hd_hold h = 0"; cases "dget (hd_held h) (key_of (filled r))")
    (auto simp: hd_ok_def Let_def)

lemma holddown_report_cleared: assumes "b_in \<longleftrightarrow> held_key h k \<or> b_out"
  shows "left_cleared b_in k (reports_in [HdReport r]) \<longleftrightarrow> held_key (fst (holddown_step h (HdReport r))) k
    \<or> left_cleared b_out k (reports_out (snd (holddown_step h (HdReport r))))"
  using assms by (simp add: reports_in_def reports_out_def held_key_def Let_def)

text \<open>What an \<open>advance\<close> releases.\<close>

definition released :: "int \<Rightarrow> holddown \<Rightarrow> ((int \<times> report) \<times> akey) list" where
  "released now h = sort_key due_order (map (\<lambda>(k, d). (d, k)) (filter (\<lambda>(_, d). fst d \<le> now) (hd_held h)))"

lemma swap_image: "(b, a) \<in> (\<lambda>(k, d). (d, k)) ` S \<longleftrightarrow> (a, b) \<in> S"
  by force

lemma released_set: assumes "distinct (dkeys (hd_held h))"
  shows "((d, r), k) \<in> set (released now h) \<longleftrightarrow> dget (hd_held h) k = Some (d, r) \<and> d \<le> now"
proof -
  have "((d, r), k) \<in> set (released now h) \<longleftrightarrow> (k, (d, r)) \<in> set (hd_held h) \<and> d \<le> now"
    by (simp only: released_def set_sort set_map swap_image set_filter mem_Collect_eq prod.case fst_conv)
  then show ?thesis by (simp only: map_of_eq_Some_iff [OF assms])
qed

lemma snd_image_pairs: "b \<in> snd ` S \<longleftrightarrow> (\<exists>x y. ((x, y), b) \<in> S)"
  by force

lemma holddown_advance: assumes "hd_ok h" "0 \<le> n" "b_in \<longleftrightarrow> held_key h k \<or> b_out"
  defines "h' \<equiv> fst (holddown_step h (HdAdvance n))"
  shows "hd_ok h' \<and> (b_in \<longleftrightarrow> held_key h' k \<or> left_cleared b_out k (reports_out (snd (holddown_step h (HdAdvance n)))))
    \<and> (hd_hold h \<le> n \<longrightarrow> \<not> held_key h' k)"
proof -
  define now where "now = hd_now h + n"
  have d: "distinct (dkeys (hd_held h))" using assms(1) by (simp add: hd_ok_def)
  have h': "h' = h\<lparr>hd_now := now, hd_held := foldl (\<lambda>d x. ddel (snd x) d) (hd_held h) (released now h)\<rparr>"
    and out: "reports_out (snd (holddown_step h (HdAdvance n))) = map (\<lambda>x. snd (fst x)) (released now h)"
    by (simp_all add: h'_def Let_def now_def released_def reports_out_def comp_def)
  have gone: "key \<in> snd ` set (released now h) \<longleftrightarrow> (\<exists>e r. dget (hd_held h) key = Some (e, r) \<and> e \<le> now)" for key
    by (simp only: snd_image_pairs released_set [OF d])
  have get: "dget (hd_held h') key = (if \<exists>e r. dget (hd_held h) key = Some (e, r) \<and> e \<le> now then None else dget (hd_held h) key)" for key
    by (simp add: h' foldl_ddel gone)
  have held: "rp_cleared rep \<and> key_of rep = key \<and> e \<le> hd_now h + hd_hold h" if "dget (hd_held h) key = Some (e, rep)" for key e rep
    using assms(1) that by (simp add: hd_ok_def)
  have "rp_cleared rep \<and> key_of rep = key \<and> e \<le> now + hd_hold h" if "dget (hd_held h') key = Some (e, rep)" for key e rep
    using held [of key e rep] that assms(2) by (simp add: get now_def split: if_splits)
  then have "hd_ok h'"
    using assms(1) foldl_ddel_distinct [OF d] by (simp add: hd_ok_def h')
  moreover have cleared: "\<forall>rep \<in> set (map (\<lambda>x. snd (fst x)) (released now h)). rp_cleared rep"
  proof
    fix rep assume "rep \<in> set (map (\<lambda>x. snd (fst x)) (released now h))"
    then obtain e key where "((e, rep), key) \<in> set (released now h)" by (metis (no_types, lifting) image_iff list.set_map prod.collapse)
    with released_set [OF d] held show "rp_cleared rep" by blast
  qed
  have "key_of (snd (fst x)) = snd x" if "x \<in> set (released now h)" for x
  proof -
    have "((fst (fst x), snd (fst x)), snd x) \<in> set (released now h)" using that by simp
    then show ?thesis using released_set [OF d] held by blast
  qed
  then have "key_of ` set (map (\<lambda>x. snd (fst x)) (released now h)) = snd ` set (released now h)"
    unfolding set_map image_image by (rule image_cong [OF refl])
  then have "left_cleared b_out k (map (\<lambda>x. snd (fst x)) (released now h)) \<longleftrightarrow> b_out \<or> k \<in> snd ` set (released now h)"
    using left_cleared_all [OF cleared] by simp
  then have "b_in \<longleftrightarrow> held_key h' k \<or> left_cleared b_out k (reports_out (snd (holddown_step h (HdAdvance n))))"
    unfolding out gone using assms(3) get [of k] by (auto simp: held_key_def split: if_splits)
  moreover have "\<not> held_key h' k" if "hd_hold h \<le> n"
  proof (cases "dget (hd_held h) k")
    case (Some x)
    with held [of k "fst x" "snd x"] that get [of k] show ?thesis by (cases x) (simp add: held_key_def now_def)
  qed (simp add: held_key_def get)
  ultimately show ?thesis by blast
qed

lemma holddown_step_good: assumes "hd_ok h" "hdevent_ok e" "b_in \<longleftrightarrow> held_key h k \<or> b_out"
  defines "h' \<equiv> fst (holddown_step h e)"
  shows "hd_ok h' \<and> hd_hold h' = hd_hold h \<and> (left_cleared b_in k (reports_in [e]) \<longleftrightarrow> held_key h' k \<or> left_cleared b_out k (reports_out (snd (holddown_step h e))))"
proof (cases e)
  case (HdReport r)
  with holddown_report_ok [OF assms(1)] holddown_report_cleared [OF assms(3)] show ?thesis
    by (simp add: h'_def del: holddown_step.simps) (simp add: Let_def)
next
  case (HdEvent x)
  with assms show ?thesis by (simp add: reports_in_def reports_out_def)
next
  case (HdAdvance n)
  with holddown_advance [OF assms(1) _ assms(3)] assms(2) show ?thesis
    by (simp add: h'_def reports_in_def del: holddown_step.simps) (simp add: Let_def)
qed

lemma hd_run_good: "hd_ok h \<Longrightarrow> list_all hdevent_ok es \<Longrightarrow> (b_in \<longleftrightarrow> held_key h k \<or> b_out)
    \<Longrightarrow> hd_ok (fst (hd_run h es)) \<and> hd_hold (fst (hd_run h es)) = hd_hold h
      \<and> (left_cleared b_in k (reports_in es) \<longleftrightarrow> held_key (fst (hd_run h es)) k \<or> left_cleared b_out k (reports_out (snd (hd_run h es))))"
proof (induction es arbitrary: h b_in b_out)
  case (Cons e es)
  define h1 where "h1 = fst (holddown_step h e)"
  define out where "out = snd (holddown_step h e)"
  have s: "holddown_step h e = (h1, out)" by (simp add: h1_def out_def)
  have split: "reports_in (e # es) = reports_in [e] @ reports_in es" "reports_out (out @ outs) = reports_out out @ reports_out outs" for outs
    by (simp_all add: reports_in_def reports_out_def)
  have "hd_ok h1 \<and> hd_hold h1 = hd_hold h \<and> (left_cleared b_in k (reports_in [e]) \<longleftrightarrow> held_key h1 k \<or> left_cleared b_out k (reports_out out))"
    using holddown_step_good [OF Cons.prems(1) _ Cons.prems(3), of e] Cons.prems(2) by (simp add: h1_def out_def del: holddown_step.simps)
  with Cons.IH [of h1 "left_cleared b_in k (reports_in [e])" "left_cleared b_out k (reports_out out)"] Cons.prems(2) show ?case
    by (simp add: s split case_prod_beta' Let_def del: holddown_step.simps)
qed (simp add: reports_in_def reports_out_def)

lemma hd_run_append: "hd_run h (es @ es') = (let (h1, out) = hd_run h es; (h2, out') = hd_run h1 es' in (h2, out @ out'))"
  by (induction es arbitrary: h) (auto simp: case_prod_beta' Let_def simp del: holddown_step.simps)

text \<open>The time since which a clear of an alarm is held, from the reports and the passing of time only.\<close>

fun held_since :: "akey \<Rightarrow> int \<Rightarrow> int \<times> int option \<Rightarrow> hdevent \<Rightarrow> int \<times> int option" where
  "held_since k hold (now, w) (HdReport r) =
    (now, if key_of (filled r) \<noteq> k then w else if rp_inform r \<or> \<not> rp_cleared r then None
          else if w = None \<and> hold \<noteq> 0 then Some now else w)"
| "held_since k hold (now, w) (HdEvent e) = (now, w)"
| "held_since k hold (now, w) (HdAdvance n) =
    (now + n, case w of Some t \<Rightarrow> if t + hold \<le> now + n then None else Some t | None \<Rightarrow> None)"

lemma holddown_advance_get: assumes "distinct (dkeys (hd_held h))"
  shows "dget (hd_held (fst (holddown_step h (HdAdvance n)))) k
    = (case dget (hd_held h) k of Some (d, r) \<Rightarrow> if d \<le> hd_now h + n then None else Some (d, r) | None \<Rightarrow> None)"
proof -
  have "dget (hd_held (fst (holddown_step h (HdAdvance n)))) k = (if k \<in> snd ` set (released (hd_now h + n) h) then None else dget (hd_held h) k)"
    by (simp add: Let_def released_def [symmetric] foldl_ddel)
  moreover have "k \<in> snd ` set (released (hd_now h + n) h) \<longleftrightarrow> (\<exists>e r. dget (hd_held h) k = Some (e, r) \<and> e \<le> hd_now h + n)"
    by (simp only: snd_image_pairs released_set [OF assms])
  ultimately show ?thesis by (auto split: option.split)
qed

lemma holddown_step_since:
  assumes "hd_ok h" "hdevent_ok e" "map_option fst (dget (hd_held h) k) = map_option (\<lambda>t. t + hd_hold h) w"
  defines "h' \<equiv> fst (holddown_step h e)" and "w' \<equiv> snd (held_since k (hd_hold h) (hd_now h, w) e)"
  shows "map_option fst (dget (hd_held h') k) = map_option (\<lambda>t. t + hd_hold h) w' \<and> hd_now h' = fst (held_since k (hd_hold h) (hd_now h, w) e)"
proof (cases e)
  case (HdReport r)
  have "rp_cleared (filled r) = rp_cleared r" "rp_inform (filled r) = rp_inform r" by (simp_all add: filled_def)
  moreover have "w = None \<longleftrightarrow> dget (hd_held h) k = None" using assms(3) by (metis option.map_disc_iff)
  ultimately show ?thesis using assms(3) HdReport by (auto simp: h'_def w'_def Let_def)
next
  case (HdAdvance n)
  have "distinct (dkeys (hd_held h))" using assms(1) by (simp add: hd_ok_def)
  with assms(3) HdAdvance show ?thesis
    unfolding h'_def w'_def HdAdvance holddown_advance_get [of h, OF \<open>distinct (dkeys (hd_held h))\<close>]
    by (auto simp: Let_def split: option.splits)
qed (use assms(3) in \<open>simp add: h'_def w'_def\<close>)

lemma hd_run_since:
  "hd_ok h \<Longrightarrow> list_all hdevent_ok es \<Longrightarrow> map_option fst (dget (hd_held h) k) = map_option (\<lambda>t. t + hd_hold h) w
    \<Longrightarrow> hd_now (fst (hd_run h es)) = fst (foldl (held_since k (hd_hold h)) (hd_now h, w) es)
      \<and> map_option fst (dget (hd_held (fst (hd_run h es))) k)
        = map_option (\<lambda>t. t + hd_hold h) (snd (foldl (held_since k (hd_hold h)) (hd_now h, w) es))"
proof (induction es arbitrary: h w)
  case (Cons e es)
  define h1 where "h1 = fst (holddown_step h e)"
  obtain w1 where w1: "held_since k (hd_hold h) (hd_now h, w) e = (hd_now h1, w1)"
    "map_option fst (dget (hd_held h1) k) = map_option (\<lambda>t. t + hd_hold h) w1"
    using holddown_step_since [OF Cons.prems(1) _ Cons.prems(3), of e] Cons.prems(2)
    by (metis h1_def list.pred_inject(2) prod.collapse)
  have "hd_ok h1" "hd_hold h1 = hd_hold h"
    using holddown_step_good [OF Cons.prems(1), of e "held_key h k" k False] Cons.prems(2) by (simp_all add: h1_def del: holddown_step.simps)
  with Cons.IH [of h1 w1] Cons.prems(2) w1 show ?case
    by (simp add: case_prod_beta' Let_def h1_def [symmetric] del: holddown_step.simps)
qed simp

lemma released_distinct: assumes "distinct (dkeys (hd_held h))" shows "distinct (map snd (released now h))"
proof -
  have "mset (map snd (released now h)) = mset (map fst (filter (\<lambda>(_, d). fst d \<le> now) (hd_held h)))"
    unfolding released_def mset_map mset_sort by (simp add: case_prod_beta' image_mset.compositionality comp_def)
  then show ?thesis using assms by (metis (no_types, lifting) distinct_map_filter mset_eq_imp_distinct_iff)
qed

lemma released_sorted:
  assumes "\<And>x. x \<in> set (released now h) \<Longrightarrow> fst (fst x) = f (snd x) + hold"
  shows "sorted (map (\<lambda>x. (f (snd x), snd x)) (released now h))"
proof -
  have "sorted (map due_order (released now h))" by (simp add: released_def)
  moreover have "map due_order (released now h) = map (\<lambda>x. (f (snd x) + hold, snd x)) (released now h)"
    using assms by (simp add: due_order_def)
  ultimately show ?thesis by (simp add: sorted_map)
qed

section \<open>Properties\<close>

text \<open>C37: An alarm that waits long enough is escalated, at the time the policy sets and not before. Take any history under a policy,
  and the time since which an alarm has waited without a break (active, no operator state, severe enough, not escalated since
  it was raised): a report of another severity in between does not restart it. When time passes, the alarm is escalated, once
  and with its present severity, if the policy's delay since that time is over, and otherwise it is not; no other event
  escalates it, and whatever is escalated is an active alarm without an operator and severe enough. An escalated alarm waits
  no more until it is raised again.\<close>

theorem escalation_in_time:
  assumes "list_all alevent_ok es" "watch_run least k (init_alarms t0 (Some (least, after))) (None, False) es = (s, since, called)"
    "0 \<le> n" "al_advance n s = (s', out)"
  shows "(case since of
        Some t \<Rightarrow> escalated_by k out = (if t + after \<le> al_now s + n then [am_severity (the (dget (al_alarms s) k))] else [])
      | None \<Rightarrow> 0 < after \<longrightarrow> escalated_by k out = [])
    \<and> (\<forall>sev \<in> set (escalated_by k out). \<exists>a. dget (al_alarms s') k = Some a \<and> am_severity a = sev
         \<and> \<not> am_cleared a \<and> am_operator a = ''none'' \<and> sev_rank least \<le> sev_rank sev)
    \<and> (\<forall>e. (\<nexists>d. e = AlAdvance d) \<longrightarrow> escalated_by k (snd (alarm_step s e)) = [])"
proof -
  have "watched least after k (None, False) (init_alarms t0 (Some (least, after)))" by (simp add: watched_def init_alarms_def)
  with watch_run_watched [OF assms(1) _ _ _ assms(2)] init_alarms_ok
  have inv: "alarms_ok s" "watched least after k (since, called) s" "al_policy s = Some (least, after)" by auto
  define s1 out1 ks where "s1 = fst (checked n s)" and "out1 = snd (checked n s)" and "ks = map snd (due_alarms s1)"
  have ck: "checked_ok least after k (since, called) (s\<lparr>al_now := al_now s + n\<rparr>) (s1, out1)"
    using al_advance_watched(1) [OF inv(1) assms(3) inv(2,3)] by (simp add: s1_def out1_def)
  then have si: "silent_inv (s\<lparr>al_now := al_now s + n\<rparr>) (s1, out1)"
    and w1: "watched least after k (watch_step least k (since, called) s1 out1) s1" by (simp_all add: checked_ok_def)
  then have d: "distinct (dkeys (al_alarms s1))" by (simp add: silent_inv_def alarms_ok_def)
  have e: "escalated_to s1 ks s'" and out: "out = out1 @ escalations s1 ks"
    using al_advance_spec [OF inv(1) assms(3)] assms(4) by (simp_all add: s1_def out1_def ks_def)
  have "escalated_by k out1 = []" by (rule escalated_by_none) (use si in \<open>simp add: silent_inv_def\<close>)
  then have by_k: "escalated_by k out = (if k \<in> set ks then [am_severity (the (dget (al_alarms s1) k))] else [])"
    using escalated_by_escalations [OF due_alarms_distinct [OF d]] by (simp add: out ks_def)
  have now: "al_now s1 = al_now s + n" using si by (simp add: silent_inv_def)
  have in_ks: "k \<in> set ks \<longleftrightarrow> (\<exists>a t. dget (al_alarms s1) k = Some a \<and> fst (watch_step least k (since, called) s1 out1) = Some t \<and> t + after \<le> al_now s + n)"
    using w1 due_alarms_set [OF d, of k] now by (auto simp: watched_def ks_def split: option.splits)
  have "case since of Some t \<Rightarrow> escalated_by k out = (if t + after \<le> al_now s + n then [am_severity (the (dget (al_alarms s) k))] else [])
      | None \<Rightarrow> 0 < after \<longrightarrow> escalated_by k out = []"
  proof (cases since)
    case None
    then show ?thesis using in_ks now by (auto simp: by_k watch_step_def Let_def split: if_splits)
  next
    case (Some t)
    then have waits: "waits least k called s" using watched_waits [OF inv(2)] by simp
    then obtain a where a: "dget (al_alarms s) k = Some a" "\<not> am_cleared a" by (auto simp: waits_def split: option.splits)
    then have "dget (al_alarms s1) k = Some a" using si by (simp add: silent_inv_def)
    moreover have "fst (watch_step least k (since, called) s1 out1) = Some t"
      using checked_ok_waits [OF ck] waits Some by (simp add: watch_step_def waits_def)
    ultimately show ?thesis using in_ks a(1) Some by (simp add: by_k)
  qed
  moreover have "\<exists>a. dget (al_alarms s') k = Some a \<and> am_severity a = sev \<and> \<not> am_cleared a \<and> am_operator a = ''none'' \<and> sev_rank least \<le> sev_rank sev"
    if sev: "sev \<in> set (escalated_by k out)" for sev
  proof -
    from sev have "k \<in> set ks" "sev = am_severity (the (dget (al_alarms s1) k))" by (simp_all add: by_k split: if_splits)
    moreover from this in_ks obtain a where a: "dget (al_alarms s1) k = Some a" "fst (watch_step least k (since, called) s1 out1) \<noteq> None" by blast
    moreover from this w1 have "needs_escalation (Some (least, after)) a" by (simp add: watched_def)
    ultimately show ?thesis using e by (simp add: escalated_to_def needs_escalation_def)
  qed
  ultimately show ?thesis using other_steps_quiet by blast
qed

text \<open>C38: The hold-down delays clears and loses none, and releases them in order. After any history, take the time since which a
  clear of each alarm is held, read off the reports alone: a clear starts it unless one is held, a raise or an inform's
  report ends it, and so does the hold time. When time passes, what is deposited is exactly the clear of each alarm whose
  hold time is over, each once and only clears, the earliest first and by key at the same time. Once the hold time has passed
  nothing is held any more, and for every alarm the reports deposited leave it cleared or active exactly as the reports
  received did, whatever it was before.\<close>

theorem holddown_settles:
  assumes "list_all hdevent_ok es" "0 \<le> hold" "0 \<le> n" "hd_run \<lparr>hd_now = now, hd_hold = hold, hd_held = []\<rparr> es = (h, out)"
    "holddown_step h (HdAdvance n) = (h', freed)"
  defines "since \<equiv> \<lambda>k. snd (foldl (held_since k hold) (now, None) es)"
  shows "set (map key_of (reports_out freed)) = {k. \<exists>t. since k = Some t \<and> t + hold \<le> hd_now h + n}
    \<and> distinct (map key_of (reports_out freed)) \<and> list_all rp_cleared (reports_out freed)
    \<and> sorted (map (\<lambda>r. (the (since (key_of r)), key_of r)) (reports_out freed))
    \<and> (hold \<le> n \<longrightarrow> hd_held h' = []
        \<and> (\<forall>k b. left_cleared b k (reports_out (out @ freed)) = left_cleared b k (reports_in es)))"
proof -
  define h0 where "h0 = \<lparr>hd_now = now, hd_hold = hold, hd_held = []\<rparr>"
  have ok: "hd_ok h0" using assms(2) by (simp add: hd_ok_def h0_def)
  have run: "hd_ok h" "hd_hold h = hold" "left_cleared b key (reports_in es) \<longleftrightarrow> held_key h key \<or> left_cleared b key (reports_out out)" for key b
    using hd_run_good [OF ok assms(1), of b key b] assms(4) by (simp_all add: h0_def held_key_def)
  have dist: "distinct (dkeys (hd_held h))" using run(1) by (simp add: hd_ok_def)
  have since: "hd_now h = fst (foldl (held_since k hold) (now, None) es) \<and> map_option fst (dget (hd_held h) k) = map_option (\<lambda>t. t + hold) (since k)" for k
    using hd_run_since [OF ok assms(1), of k None] assms(4) by (simp add: h0_def since_def)
  have freed: "reports_out freed = map (\<lambda>x. snd (fst x)) (released (hd_now h + n) h)"
    using assms(5) by (auto simp: Let_def released_def reports_out_def comp_def)
  have rel: "fst (fst x) = the (since (snd x)) + hold \<and> key_of (snd (fst x)) = snd x \<and> rp_cleared (snd (fst x))"
    if "x \<in> set (released (hd_now h + n) h)" for x
  proof -
    obtain d r k where x: "x = ((d, r), k)" by (metis prod.collapse)
    with that released_set [OF dist] have "dget (hd_held h) k = Some (d, r)" by blast
    moreover from this run(1) have "rp_cleared r \<and> key_of r = k" by (simp add: hd_ok_def)
    moreover from \<open>dget (hd_held h) k = Some (d, r)\<close> since [of k] have "d = the (since k) + hold" by (cases "since k") simp_all
    ultimately show ?thesis using x by simp
  qed
  then have keys: "map key_of (reports_out freed) = map snd (released (hd_now h + n) h)" by (simp add: freed)
  have "set (map snd (released (hd_now h + n) h)) = {k. \<exists>t. since k = Some t \<and> t + hold \<le> hd_now h + n}"
  proof (intro set_eqI)
    fix k
    have "k \<in> set (map snd (released (hd_now h + n) h)) \<longleftrightarrow> (\<exists>d r. dget (hd_held h) k = Some (d, r) \<and> d \<le> hd_now h + n)"
      by (simp only: set_map snd_image_pairs released_set [OF dist])
    also have "\<dots> \<longleftrightarrow> (\<exists>d. map_option fst (dget (hd_held h) k) = Some d \<and> d \<le> hd_now h + n)" by auto
    finally show "k \<in> set (map snd (released (hd_now h + n) h)) \<longleftrightarrow> k \<in> {k. \<exists>t. since k = Some t \<and> t + hold \<le> hd_now h + n}"
      using since [of k] by auto
  qed
  moreover have "sorted (map (\<lambda>r. (the (since (key_of r)), key_of r)) (reports_out freed))"
    using released_sorted [where f = "\<lambda>k. the (since k)" and hold = hold and now = "hd_now h + n" and h = h] rel by (simp add: freed cong: map_cong)
  moreover have "hd_held h' = [] \<and> (\<forall>k b. left_cleared b k (reports_out (out @ freed)) = left_cleared b k (reports_in es))" if "hold \<le> n"
  proof -
    have gone: "\<not> held_key h' key" for key
      using holddown_advance [OF run(1) assms(3) run(3)] run(2) that assms(5) by auto
    then have "dkeys (hd_held h') = []" unfolding held_key_def dget_None_keys not_not by (metis list.set_intros(1) neq_Nil_conv)
    moreover have "left_cleared b k (reports_in es) = left_cleared (left_cleared b k (reports_out out)) k (reports_out freed)" for b k
      using holddown_advance [OF run(1) assms(3) run(3) [of b k]] gone [of k] assms(5) by auto
    moreover have "reports_out (out @ freed) = reports_out out @ reports_out freed" by (simp add: reports_out_def)
    ultimately show ?thesis by simp
  qed
  ultimately show ?thesis
    using released_distinct [OF dist] rel unfolding keys by (auto simp: freed list_all_iff)
qed

text \<open>The witnesses: a link that goes down, comes up and goes down again, at a policy that escalates after a minute.\<close>

definition demo_report :: "bool \<Rightarrow> report" where
  "demo_report cleared = \<lparr>rp_resource = ''gw/eth0'', rp_type = ''link-down'', rp_qualifier = None, rp_severity = Some ''major'',
     rp_cleared = cleared, rp_inform = False\<rparr>"

lemma singleton_list: "set xs = {x} \<Longrightarrow> distinct xs \<Longrightarrow> xs = [x]"
  by (cases xs; cases "tl xs") auto

theorem holddown_settles_witness:
  "map key_of (reports_out (snd (holddown_step (fst (hd_run \<lparr>hd_now = 0, hd_hold = 30, hd_held = []\<rparr>
     [HdReport (demo_report True \<lparr>rp_resource := ''gw/eth1''\<rparr>), HdAdvance 10, HdReport (demo_report True), HdAdvance 10,
      HdReport (demo_report False), HdReport (demo_report True)])) (HdAdvance 10))))
   = [(''gw/eth1'', ''link-down'', '''')]"
proof -
  let ?es = "[HdReport (demo_report True \<lparr>rp_resource := ''gw/eth1''\<rparr>), HdAdvance 10, HdReport (demo_report True), HdAdvance 10,
      HdReport (demo_report False), HdReport (demo_report True)]" and ?h = "\<lparr>hd_now = 0, hd_hold = 30, hd_held = []\<rparr>"
  define h where "h = fst (hd_run ?h ?es)"
  define since where "since k = snd (foldl (held_since k 30) (0, None) ?es)" for k
  have "since k = (if k = (''gw/eth1'', ''link-down'', '''') then Some 0 else if k = (''gw/eth0'', ''link-down'', '''') then Some 20 else None)" for k
    by (simp add: since_def demo_report_def key_of_def filled_def)
  moreover have "hd_now h = 20" unfolding h_def by code_simp
  ultimately have keys: "{k. \<exists>t. since k = Some t \<and> t + 30 \<le> hd_now h + 10} = {(''gw/eth1'', ''link-down'', '''')}" by auto
  have ok: "list_all hdevent_ok ?es" by simp
  from holddown_settles [OF ok _ _ prod.collapse [symmetric] prod.collapse [symmetric], of 30 10 0]
  have "set (map key_of (reports_out (snd (holddown_step h (HdAdvance 10))))) = {(''gw/eth1'', ''link-down'', '''')}"
    and "distinct (map key_of (reports_out (snd (holddown_step h (HdAdvance 10)))))"
    unfolding h_def [symmetric] since_def [symmetric] keys [symmetric] by simp_all
  from singleton_list [OF this] show ?thesis unfolding h_def .
qed

text \<open>A link goes down with a minor alarm; half a minute later it is reported as major, and after another half minute it is escalated.\<close>

theorem escalation_in_time_witness:
  "escalated_by (''gw/eth0'', ''link-down'', '''') (snd (al_advance 30 (fst (watch_run (Some ''minor'') (''gw/eth0'', ''link-down'', '''')
      (init_alarms None (Some (Some ''minor'', 60))) (None, False)
      [AlReport (demo_report False \<lparr>rp_severity := Some ''minor''\<rparr>), AlAdvance 30, AlReport (demo_report False)])))) = [Some ''major'']"
proof -
  let ?k = "(''gw/eth0'', ''link-down'', '''')" and ?es = "[AlReport (demo_report False \<lparr>rp_severity := Some ''minor''\<rparr>), AlAdvance 30, AlReport (demo_report False)]"
  define r where "r = watch_run (Some ''minor'') ?k (init_alarms None (Some (Some ''minor'', 60))) (None, False) ?es"
  have vals: "fst (snd r) = Some 0" "al_now (fst r) = 30" "map_option am_severity (dget (al_alarms (fst r)) ?k) = Some (Some ''major'')"
    unfolding r_def by code_simp+
  have run: "watch_run (Some ''minor'') ?k (init_alarms None (Some (Some ''minor'', 60))) (None, False) ?es = (fst r, fst (snd r), snd (snd r))"
    by (simp only: r_def prod.collapse)
  have ok: "list_all alevent_ok ?es" by simp
  from escalation_in_time [OF ok run _ prod.collapse [symmetric], of 30] vals show ?thesis
    unfolding r_def [symmetric] by auto
qed

end
