(* ===== verification/Bytes.thy ===== *)
theory Bytes
  imports Prelude "HOL-Library.Word"
begin

text \<open>
  Python's \<open>bytes\<close>: lists of 8-bit words, \<open>int.to_bytes(w, "big")\<close> and \<open>int.from_bytes(b, "big")\<close>, and the laws of a codec,
  which the formats of the development satisfy: what is encoded reads back, and nothing else does.
\<close>

type_synonym bytes = "8 word list"

fun to_bytes :: "nat \<Rightarrow> nat \<Rightarrow> bytes" where
  "to_bytes 0 n = []"
| "to_bytes (Suc w) n = to_bytes w (n div 256) @ [word_of_nat (n mod 256)]"

definition from_bytes :: "bytes \<Rightarrow> nat" where
  "from_bytes b = foldl (\<lambda>n x. 256 * n + unat x) 0 b"

lemma to_bytes_length [simp]: "length (to_bytes w n) = w"
  by (induction w arbitrary: n) auto

lemma from_bytes_Nil [simp]: "from_bytes [] = 0"
  by (simp add: from_bytes_def)

lemma from_bytes_snoc [simp]: "from_bytes (b @ [x]) = 256 * from_bytes b + unat x"
  by (simp add: from_bytes_def)

lemma byte_bound: "unat (x :: 8 word) < 256"
  using unsigned_less [of x] by simp

lemma from_bytes_bound: "from_bytes b < 256 ^ length b"
proof (induction b rule: rev_induct)
  case (snoc x b)
  then show ?case using byte_bound [of x] by simp
qed simp

lemma from_to_bytes: "n < 256 ^ w \<Longrightarrow> from_bytes (to_bytes w n) = n"
proof (induction w arbitrary: n)
  case (Suc w)
  then have "n div 256 < 256 ^ w" by (simp add: less_mult_imp_div_less mult.commute)
  with Suc.IH show ?case by (simp add: unat_of_nat take_bit_nat_def)
qed simp

lemma to_from_bytes: "to_bytes (length b) (from_bytes b) = b"
proof (induction b rule: rev_induct)
  case (snoc x b)
  then show ?case using byte_bound [of x] by (simp add: div_add1_eq)
qed simp

lemma to_bytes_inject: "m < 256 ^ w \<Longrightarrow> n < 256 ^ w \<Longrightarrow> to_bytes w m = to_bytes w n \<longleftrightarrow> m = n"
  by (metis from_to_bytes)

lemma from_bytes_Cons: "from_bytes (x # b) = unat x * 256 ^ length b + from_bytes b"
proof (induction b rule: rev_induct)
  case Nil
  show ?case by (simp add: from_bytes_def)
next
  case (snoc y b)
  have "from_bytes (x # b @ [y]) = 256 * from_bytes (x # b) + unat y"
    using from_bytes_snoc [of "x # b" y] by simp
  then show ?case by (simp add: snoc.IH algebra_simps)
qed

lemma from_bytes_head: "from_bytes (x # b) div 256 ^ length b = unat x"
  using from_bytes_bound [of b] by (simp add: from_bytes_Cons)

lemma from_bytes_inject: "length a = length b \<Longrightarrow> from_bytes a = from_bytes b \<longleftrightarrow> a = b"
  by (metis to_from_bytes)

text \<open>A codec: a partial encoder of values and a decoder that accepts exactly the encodings.\<close>

locale codec =
  fixes encode :: "'a \<Rightarrow> bytes option"
    and decode :: "bytes \<Rightarrow> 'a option"
  assumes decode_iff: "decode b = Some x \<longleftrightarrow> encode x = Some b"
begin

lemma decode_encode: "encode x = Some b \<Longrightarrow> decode b = Some x"
  by (simp add: decode_iff)

lemma encode_inject: "encode x = Some b \<Longrightarrow> encode y = Some b \<Longrightarrow> x = y"
  by (metis decode_iff option.inject)

lemma decode_inject: "decode b = Some x \<Longrightarrow> decode b' = Some x \<Longrightarrow> b = b'"
  by (simp add: decode_iff)

end

end
