(* ===== verification/Mls.thy ===== *)
theory Mls
  imports Bytes
begin

unbundle bit_operations_syntax

text \<open>
  The bytes of an MLS extension, \<open>vl_len\<close>, \<open>encode_extension\<close> and \<open>decode_extension\<close> of \<^verbatim>\<open>dsipvec/messaging.py\<close>: a type of
  two bytes, a length in one, two or four bytes whose top two bits say how many, and the data. Only the shortest form of a
  length is taken, so an extension has one encoding.
\<close>

definition vl_len :: "nat \<Rightarrow> bytes option" where
  "vl_len n =
    (if n < push_bit 6 1 then Some (to_bytes 1 n)
     else if n < push_bit 14 1 then Some (to_bytes 2 (0x4000 OR n))
     else if n < push_bit 30 1 then Some (to_bytes 4 (0x80000000 OR n))
     else None)"

text \<open>A type that does not fit two bytes raises.\<close>

definition encode_extension :: "nat \<Rightarrow> bytes \<Rightarrow> bytes option" where
  "encode_extension ext_type data =
    (if ext_type \<ge> 256 ^ 2 then None else map_option (\<lambda>l. to_bytes 2 ext_type @ l @ data) (vl_len (length data)))"

definition decode_extension :: "bytes \<Rightarrow> string + nat \<times> bytes" where
  "decode_extension b =
    (if length b < 3 then Inl ''mls-truncated''
     else
       (let prefix = drop_bit 6 (unat (b ! 2))
        in if prefix = 3 then Inl ''mls-length-invalid''
           else
             (let n = (if prefix = 0 then 1 else if prefix = 1 then 2 else 4)
              in if length b < 2 + n then Inl ''mls-truncated''
                 else
                   (let len = from_bytes (take n (drop 2 b)) AND (push_bit (8 * n - 2) 1 - 1)
                    in if n = 2 \<and> len < push_bit 6 1 \<or> n = 4 \<and> len < push_bit 14 1 then Inl ''mls-length-non-minimal''
                       else
                         (let data = take len (drop (2 + n) b)
                          in if length data < len then Inl ''mls-truncated''
                             else if length b > 2 + n + len then Inl ''mls-trailing-bytes''
                             else Inr (from_bytes (take 2 b), data))))))"

section \<open>Lengths\<close>

lemma or_is_plus: assumes "n < 2 ^ k" shows "(2 ^ k * a) OR n = 2 ^ k * a + (n :: nat)"
proof -
  have n: "n = take_bit k n" using assms by (simp add: take_bit_nat_eq_self)
  have "bit ((2 ^ k * a) AND n) i = bit (0 :: nat) i" for i
    by (subst n) (auto simp: bit_simps mult.commute [of "2 ^ k"] simp flip: push_bit_eq_mult)
  then have "(2 ^ k * a) AND n = 0" by (simp add: bit_eq_iff)
  then show ?thesis by (simp add: disjunctive_add_eq_or)
qed

text \<open>The three forms of a length: width, top bits and bound.\<close>

definition length_form :: "nat \<Rightarrow> nat \<Rightarrow> nat \<Rightarrow> bool" where
  "length_form w tag n \<longleftrightarrow> (w = 1 \<and> tag = 0 \<and> n < 2 ^ 6) \<or> (w = 2 \<and> tag = 1 \<and> 2 ^ 6 \<le> n \<and> n < 2 ^ 14)
     \<or> (w = 4 \<and> tag = 2 \<and> 2 ^ 14 \<le> n \<and> n < 2 ^ 30)"

lemma vl_len_iff: "vl_len n = Some l \<longleftrightarrow> (\<exists>w tag. length_form w tag n \<and> l = to_bytes w (2 ^ (8 * w - 2) * tag + n))"
proof -
  have two: "(0x4000 :: nat) OR n = 16384 + n" if "n < 16384" using or_is_plus [of n 14 1] that by simp
  have four: "(0x80000000 :: nat) OR n = 2147483648 + n" if "n < 1073741824" using or_is_plus [of n 30 2] that by simp
  consider "n < 64" | "64 \<le> n" "n < 16384" | "16384 \<le> n" "n < 1073741824" | "1073741824 \<le> n" by linarith
  then show ?thesis
    by cases (auto simp: vl_len_def length_form_def push_bit_eq_mult two four)
qed

text \<open>The top two bits of the first byte and the rest of a length field are the quotient and the remainder of its number.\<close>

lemma length_field:
  assumes "length l = w" "0 < w"
  shows "drop_bit 6 (unat (l ! 0)) = from_bytes l div 2 ^ (8 * w - 2)"
    and "from_bytes l AND (push_bit (8 * w - 2) 1 - 1) = from_bytes l mod 2 ^ (8 * w - 2)"
proof -
  obtain x b where l: "l = x # b" using assms by (cases l) auto
  have w: "w = Suc (length b)" using assms(1) l by simp
  have e: "8 * w - 2 = 8 * length b + 6" by (simp add: w)
  have p: "(2 :: nat) ^ (8 * w - 2) = 256 ^ length b * 64"
    unfolding e by (simp add: power_add power_mult)
  show "drop_bit 6 (unat (l ! 0)) = from_bytes l div 2 ^ (8 * w - 2)"
    unfolding p l by (simp add: div_mult2_eq from_bytes_head drop_bit_eq_div)
  show "from_bytes l AND (push_bit (8 * w - 2) 1 - 1) = from_bytes l mod 2 ^ (8 * w - 2)"
    by (simp add: push_bit_eq_mult take_bit_eq_mask [symmetric] take_bit_eq_mod [symmetric] mask_eq_exp_minus_1 [symmetric] del: One_nat_def)
qed

section \<open>The codec\<close>

lemma field_of_form:
  assumes "length_form w tag n" "l = to_bytes w (2 ^ (8 * w - 2) * tag + n)"
  shows "length l = w" "drop_bit 6 (unat (l ! 0)) = tag" "from_bytes l AND (push_bit (8 * w - 2) 1 - 1) = n"
proof -
  have b: "2 ^ (8 * w - 2) * tag + n < 256 ^ w" "n < 2 ^ (8 * w - 2)" "0 < w"
    using assms(1) by (auto simp: length_form_def)
  show len: "length l = w" by (simp add: assms(2))
  have v: "from_bytes l = 2 ^ (8 * w - 2) * tag + n" by (simp add: assms(2) from_to_bytes b(1))
  show "drop_bit 6 (unat (l ! 0)) = tag" unfolding length_field(1) [OF len b(3)] unfolding v using b(2) by simp
  show "from_bytes l AND (push_bit (8 * w - 2) 1 - 1) = n" unfolding length_field(2) [OF len b(3)] unfolding v using b(2) by simp
qed

lemma form_of_field:
  assumes "length l = w" "0 < w" "tag = drop_bit 6 (unat (l ! 0))" "n = from_bytes l AND (push_bit (8 * w - 2) 1 - 1)"
  shows "l = to_bytes w (2 ^ (8 * w - 2) * tag + n)" "n < 2 ^ (8 * w - 2)"
proof -
  have "from_bytes l = 2 ^ (8 * w - 2) * tag + n"
    unfolding assms(3,4) length_field [OF assms(1,2)] by simp
  then show "l = to_bytes w (2 ^ (8 * w - 2) * tag + n)" using to_from_bytes [of l] assms(1) by simp
  show "n < 2 ^ (8 * w - 2)" unfolding assms(4) length_field(2) [OF assms(1,2)] by simp
qed

lemma decode_encoded:
  assumes "encode_extension t d = Some b"
  shows "decode_extension b = Inr (t, d)"
proof -
  from assms obtain l where t: "t < 256 ^ 2" and l: "vl_len (length d) = Some l" and b: "b = to_bytes 2 t @ l @ d"
    by (auto simp: encode_extension_def split: if_splits)
  from l obtain w tag where f: "length_form w tag (length d)" and lw: "l = to_bytes w (2 ^ (8 * w - 2) * tag + length d)"
    by (auto simp: vl_len_iff)
  note field = field_of_form [OF f lw]
  have w: "w = (if tag = 0 then 1 else if tag = 1 then 2 else 4)" "tag \<noteq> 3" "w > 0"
    "\<not> (w = 2 \<and> length d < push_bit 6 1 \<or> w = 4 \<and> length d < push_bit 14 1)"
    using f by (auto simp: length_form_def push_bit_eq_mult)
  have part: "b ! 2 = l ! 0" "take w (drop 2 b) = l" "drop (2 + w) b = d" "take 2 b = to_bytes 2 t" "length b = 2 + w + length d"
    using w(3) field(1) by (auto simp: b nth_append)
  have "\<not> length b < 3" "\<not> length b < 2 + w" "\<not> 2 + w + length d < length b" using part(5) w(3) by auto
  moreover have "decode_extension b =
     (if length b < 3 then Inl ''mls-truncated'' else if tag = 3 then Inl ''mls-length-invalid''
      else if length b < 2 + w then Inl ''mls-truncated''
      else if w = 2 \<and> length d < push_bit 6 1 \<or> w = 4 \<and> length d < push_bit 14 1 then Inl ''mls-length-non-minimal''
      else if length (take (length d) d) < length d then Inl ''mls-truncated''
      else if 2 + w + length d < length b then Inl ''mls-trailing-bytes'' else Inr (from_bytes (to_bytes 2 t), take (length d) d))"
    unfolding decode_extension_def Let_def unfolding part(1) unfolding field(2) unfolding w(1) [symmetric]
    unfolding part(2-4) unfolding field(3) ..
  ultimately show ?thesis by (simp only: w(2,4) from_to_bytes [OF t] if_False take_all [OF order_refl] less_irrefl)
qed

lemma encode_decoded:
  assumes "decode_extension b = Inr (t, d)"
  shows "encode_extension t d = Some b"
proof -
  define tag where "tag = drop_bit 6 (unat (b ! 2))"
  define w :: nat where "w = (if tag = 0 then 1 else if tag = 1 then 2 else 4)"
  define l where "l = take w (drop 2 b)"
  define n where "n = from_bytes l AND (push_bit (8 * w - 2) 1 - 1)"
  have ok: "\<not> length b < 3" "tag \<noteq> 3" "\<not> length b < 2 + w" "\<not> (w = 2 \<and> n < push_bit 6 1 \<or> w = 4 \<and> n < push_bit 14 1)"
      "\<not> length d < n" "\<not> 2 + w + n < length b" "t = from_bytes (take 2 b)" "d = take n (drop (2 + w) b)"
    using assms unfolding decode_extension_def Let_def tag_def [symmetric] w_def [symmetric] l_def [symmetric] n_def [symmetric]
    by (auto split: if_splits)
  have w: "0 < w" by (simp add: w_def)
  have len: "length l = w" using ok(3) by (simp add: l_def)
  have d: "length d = n" "drop (2 + w) b = d" using ok(5,6,8) by auto
  have "tag = drop_bit 6 (unat (l ! 0))" using w ok(1) by (simp add: l_def tag_def)
  note form = form_of_field [OF len w this n_def]
  have "tag < 4" unfolding tag_def drop_bit_eq_div using byte_bound [of "b ! 2"] by simp
  then have "length_form w tag n" using ok(2,4) form(2) by (auto simp: length_form_def w_def push_bit_eq_mult)
  then have "vl_len (length d) = Some l" using form(1) d(1) by (auto simp: vl_len_iff)
  moreover have "b = take 2 b @ l @ d"
    unfolding d(2) [symmetric] l_def by (metis add.commute append_take_drop_id drop_drop)
  moreover have "take 2 b = to_bytes 2 t" "t < 256 ^ 2"
    using ok(1) to_from_bytes [of "take 2 b"] from_bytes_bound [of "take 2 b"] by (auto simp: ok(7))
  ultimately show ?thesis by (simp add: encode_extension_def)
qed

text \<open>An MLS extension decodes, to a type and data, exactly when it is their encoding: what is encoded reads back, and no other
  bytes (a longer length form, a truncated or trailing vector) are accepted.
\<close>

theorem mls_extension_codec: "decode_extension b = Inr (t, d) \<longleftrightarrow> encode_extension t d = Some b"
  using decode_encoded encode_decoded by blast

lemma decode_option: "(case decode_extension b of Inl e \<Rightarrow> None | Inr x \<Rightarrow> Some x) = Some (t, d) \<longleftrightarrow> decode_extension b = Inr (t, d)"
  by (simp split: sum.splits)

interpretation extension: codec "\<lambda>(t, d). encode_extension t d" "\<lambda>b. case decode_extension b of Inl e \<Rightarrow> None | Inr x \<Rightarrow> Some x"
proof unfold_locales
  fix b x
  show "(case decode_extension b of Inl e \<Rightarrow> None | Inr x \<Rightarrow> Some x) = Some x \<longleftrightarrow> (case x of (t, d) \<Rightarrow> encode_extension t d) = Some b"
    by (cases x) (auto simp: decode_option intro: decode_encoded encode_decoded)
qed

end
