(* ===== verification/Kt_Tree.thy ===== *)
theory Kt_Tree
  imports Prelude "HOL-Library.Word"
begin

unbundle bit_operations_syntax

text \<open>
  The implicit search tree of the log of \<^verbatim>\<open>dsipvec/kt.py\<close>: \<open>_level\<close>, \<open>bst_root\<close>, \<open>frontier\<close> and \<open>base_ladder\<close>. The entries of
  a log of \<open>n\<close> entries are the numbers below \<open>n\<close>; an entry's level is the number of ones its binary form ends in, and the
  frontier is the way from the root to the last entry. Python's shift by a negative amount raises, which the frontier's steps
  report as None; the lemmas show that it does not happen.
\<close>

section \<open>Definitions\<close>

text \<open>The loop of \<open>_level\<close>: the first bit that is zero, counted from \<open>k\<close>.\<close>

lemma odd_shift_bound: "odd (drop_bit k x) \<Longrightarrow> k < (x :: nat)"
proof -
  assume "odd (drop_bit k x)"
  then have "drop_bit k x \<noteq> 0" by (metis even_zero)
  then have "2 ^ k \<le> x" by (auto simp: drop_bit_eq_div div_eq_0_iff not_less)
  then show ?thesis by (rule less_le_trans [OF less_exp])
qed

function level_from :: "nat \<Rightarrow> nat \<Rightarrow> nat" where
  "level_from x k = (if odd (drop_bit k x) then level_from x (Suc k) else k)"
  by auto
termination
  by (relation "measure (\<lambda>(x, k). x - k)") (auto dest: odd_shift_bound simp: diff_less_mono2)

declare level_from.simps [simp del]

definition level :: "nat \<Rightarrow> nat" where
  "level x = level_from x 0"

text \<open>Python's \<open>n.bit_length()\<close>.\<close>

fun bit_length :: "nat \<Rightarrow> nat" where
  "bit_length n = (if n = 0 then 0 else Suc (bit_length (n div 2)))"

declare bit_length.simps [simp del]

text \<open>\<open>a << (k - 1)\<close>, which raises when \<open>k\<close> is zero.\<close>

definition shift_pred :: "nat \<Rightarrow> nat \<Rightarrow> nat option" where
  "shift_pred a k = (if k = 0 then None else Some (push_bit (k - 1) a))"

definition bst_root :: "nat \<Rightarrow> nat option" where
  "bst_root n = map_option (\<lambda>p. p - 1) (shift_pred 1 (bit_length n))"

definition left_child :: "nat \<Rightarrow> nat option" where
  "left_child x = map_option (\<lambda>m. x XOR m) (shift_pred 1 (level x))"

section \<open>Levels\<close>

lemma level_from_ge: "k \<le> level_from x k"
proof (induction x k rule: level_from.induct)
  case (1 x k)
  then show ?case by (subst level_from.simps) (auto dest: Suc_leD)
qed

lemma level_from_eq:
  assumes "k \<le> j" "\<And>i. k \<le> i \<Longrightarrow> i < j \<Longrightarrow> bit x i" "\<not> bit x j"
  shows "level_from x k = j"
  using assms
proof (induction "j - k" arbitrary: k)
  case 0
  then show ?case by (subst level_from.simps) (auto simp: bit_iff_odd drop_bit_eq_div)
next
  case (Suc d)
  then have "k < j" "odd (drop_bit k x)" by (auto simp: bit_iff_odd drop_bit_eq_div)
  then show ?case using Suc by (subst level_from.simps) auto
qed

text \<open>A node of level \<open>k\<close>: \<open>a\<close> blocks of \<open>2 ^ (k + 1)\<close> entries before its own, then \<open>k\<close> ones.\<close>

definition node :: "nat \<Rightarrow> nat \<Rightarrow> nat" where
  "node a k = 2 ^ Suc k * a + (2 ^ k - 1)"

lemma bit_node: "bit (node a k) i \<longleftrightarrow> i < k \<or> (Suc k \<le> i \<and> bit a (i - Suc k))"
proof -
  have m: "(2 :: nat) ^ k - 1 = mask k" by (simp add: mask_eq_exp_minus_1)
  have "(push_bit (Suc k) a) AND (mask k) = 0" by (auto simp: bit_eq_iff bit_simps)
  then have "node a k = push_bit (Suc k) a OR mask k"
    unfolding node_def m by (simp add: push_bit_eq_mult mult.commute flip: disjunctive_add_eq_or del: push_bit_Suc)
  then show ?thesis by (auto simp: bit_simps simp del: push_bit_Suc)
qed

lemma level_node [simp]: "level (node a k) = k"
  unfolding level_def by (rule level_from_eq) (auto simp: bit_node)

lemma node_of_level: "\<exists>a. x = node a (level x)"
proof -
  have ones: "bit x i" if "i < level_from x k" "k \<le> i" for i k
    using that
  proof (induction x k rule: level_from.induct)
    case (1 x k)
    then show ?case
      by (cases "i = k") (auto simp: level_from.simps [of x k] bit_iff_odd drop_bit_eq_div split: if_splits)
  qed
  have zero: "\<not> bit x (level_from x k)" for k
  proof (induction x k rule: level_from.induct)
    case (1 x k)
    then show ?case by (cases "odd (drop_bit k x)") (simp_all add: level_from.simps [of x k] bit_iff_odd drop_bit_eq_div)
  qed
  have "x = node (drop_bit (Suc (level x)) x) (level x)"
  proof (rule bit_eqI)
    fix i
    show "bit x i = bit (node (drop_bit (Suc (level x)) x) (level x)) i"
      using ones [of i 0] zero [of 0] unfolding bit_node level_def [symmetric]
      by (cases i "level x" rule: linorder_cases) (auto simp: bit_simps)
  qed
  then show ?thesis by blast
qed

lemma node_left: "node a (Suc k) XOR push_bit k 1 = node (2 * a) k"
proof (rule bit_eqI)
  fix i
  show "bit (node a (Suc k) XOR push_bit k 1) i = bit (node (2 * a) k) i"
    unfolding bit_xor_iff bit_node by (auto simp: bit_simps bit_double_iff less_Suc_eq Suc_diff_Suc)
qed

lemma node_right: "node a (Suc k) XOR push_bit k 3 = node (2 * a + 1) k"
proof (rule bit_eqI)
  fix i
  have three: "bit (3 :: nat) j \<longleftrightarrow> j = 0 \<or> j = 1" for j
    by (cases j; cases "j - 1") (auto simp: bit_Suc bit_1_iff bit_Suc_0_iff)
  have odd: "bit (2 * a + 1) j \<longleftrightarrow> j = 0 \<or> (0 < j \<and> bit a (j - 1))" for j
    by (cases j) (auto simp: bit_Suc bit_0)
  have eq: "bit (push_bit k 3 :: nat) i \<longleftrightarrow> i = k \<or> i = Suc k"
    unfolding bit_push_bit_iff_nat three by auto
  show "bit (node a (Suc k) XOR push_bit k 3) i = bit (node (2 * a + 1) k) i"
    unfolding bit_xor_iff bit_node eq odd by auto
qed

lemma node_value: "Suc (node a k) = 2 ^ Suc k * a + 2 ^ k"
  by (simp add: node_def)

lemma left_child_node: "left_child (node a k) = (if k = 0 then None else Some (node (2 * a) (k - 1)))"
  using node_left [of a "k - 1"] by (cases k) (auto simp: left_child_def shift_pred_def)

lemma left_child_level: "left_child x = Some y \<Longrightarrow> level y < level x"
  using node_of_level [of x] by (metis left_child_node level_node option.distinct(1) option.inject diff_less zero_less_one not_gr_zero)

section \<open>The frontier\<close>

text \<open>The loop of \<open>right\<close>, and \<open>right\<close>.\<close>

function descend :: "nat \<Rightarrow> nat \<Rightarrow> nat option" where
  "descend n x = (if n \<le> x then (case left_child x of None \<Rightarrow> None | Some y \<Rightarrow> descend n y) else Some x)"
  by auto
termination by (relation "measure (\<lambda>(n, x). level x)") (auto dest: left_child_level)

declare descend.simps [simp del]

definition right_child :: "nat \<Rightarrow> nat \<Rightarrow> nat option" where
  "right_child n x = (case shift_pred 3 (level x) of None \<Rightarrow> None | Some m \<Rightarrow> descend n (x XOR m))"

lemma descend_bounds: "descend n x = Some y \<Longrightarrow> y < n \<and> x \<le> y + (2 ^ level x - 1)"
proof (induction n x rule: descend.induct)
  case (1 n x)
  show ?case
  proof (cases "n \<le> x")
    case True
    then obtain z where z: "left_child x = Some z" "descend n z = Some y"
      using "1.prems" by (auto simp: descend.simps [of n x] split: option.splits)
    obtain a where x: "x = node a (level x)" using node_of_level by blast
    then obtain k where k: "level x = Suc k" "z = node (2 * a) k"
      using z(1) left_child_node [of a "level x"] by (cases "level x") (auto split: if_splits)
    have "Suc x = Suc z + 2 ^ k" using node_value [of a "Suc k"] node_value [of "2 * a" k] x k by simp
    moreover have "y < n \<and> z \<le> y + (2 ^ k - 1)" using "1.IH" [OF True z(1) z(2)] k(2) by simp
    moreover have "(1 :: nat) \<le> 2 ^ k" "(2 :: nat) ^ Suc k = 2 * 2 ^ k" by simp_all
    ultimately show ?thesis unfolding k(1) by arith
  next
    case False
    then have "x = y" "x < n" using "1.prems" by (auto simp: descend.simps [of n x])
    moreover have "(1 :: nat) \<le> 2 ^ level x" by simp
    ultimately show ?thesis by arith
  qed
qed

lemma right_child_bounds: "right_child n x = Some y \<Longrightarrow> x < y \<and> y < n"
proof -
  assume r: "right_child n x = Some y"
  then obtain k where k: "level x = Suc k" and d: "descend n (x XOR push_bit k 3) = Some y"
    by (cases "level x") (auto simp: right_child_def shift_pred_def)
  obtain a where x: "x = node a (Suc k)" using node_of_level k by metis
  have "Suc (node (2 * a + 1) k) = Suc x + 2 ^ k"
    unfolding node_value x by (simp add: algebra_simps)
  moreover have "(1 :: nat) \<le> 2 ^ k" by simp
  ultimately show ?thesis using descend_bounds [OF d] unfolding x node_right by (simp only: level_node) arith
qed

function frontier_from :: "nat \<Rightarrow> nat \<Rightarrow> nat list option" where
  "frontier_from n x =
    (if x = n - 1 then Some [x]
     else (case right_child n x of None \<Rightarrow> None | Some y \<Rightarrow> map_option (Cons x) (frontier_from n y)))"
  by auto
termination by (relation "measure (\<lambda>(n, x). n - x)") (auto dest!: right_child_bounds)

declare frontier_from.simps [simp del]

definition frontier :: "nat \<Rightarrow> nat list option" where
  "frontier n = (case bst_root n of None \<Rightarrow> None | Some r \<Rightarrow> frontier_from n r)"

section \<open>The frontier is the right spine of the left-balanced tree\<close>

text \<open>
  The tree over \<open>m\<close> consecutive entries starting at \<open>lo\<close>: its root has the largest full tree to the left that fits, and the
  rest to the right. The spine takes the right subtree until none is left.
\<close>

function spine :: "nat \<Rightarrow> nat \<Rightarrow> nat list" where
  "spine lo m =
    (let half = 2 ^ (bit_length m - 1)
     in (lo + half - 1) # (if m \<le> half then [] else spine (lo + half) (m - half)))"
  by auto
termination by (relation "measure (\<lambda>(lo, m). m)") auto

declare spine.simps [simp del]

lemma bit_length_bounds: "0 < n \<Longrightarrow> 2 ^ (bit_length n - 1) \<le> n \<and> n < 2 ^ bit_length n \<and> 0 < bit_length n"
proof (induction n rule: bit_length.induct)
  case (1 n)
  show ?case
  proof (cases "n div 2 = 0")
    case True
    then have "n = 1" using "1.prems" by auto
    then show ?thesis by (simp add: bit_length.simps [of "Suc 0"] bit_length.simps [of 0])
  next
    case False
    then have "2 ^ (bit_length (n div 2) - 1) \<le> n div 2 \<and> n div 2 < 2 ^ bit_length (n div 2) \<and> 0 < bit_length (n div 2)"
      using "1.IH" "1.prems" by auto
    then show ?thesis using "1.prems" by (cases "bit_length (n div 2)") (auto simp: bit_length.simps [of n])
  qed
qed

lemma bit_length_unique: "2 ^ k \<le> n \<Longrightarrow> n < 2 ^ Suc k \<Longrightarrow> bit_length n = Suc k"
proof -
  assume k: "2 ^ k \<le> n" "n < 2 ^ Suc k"
  then have "0 < n" by (metis gr0I not_one_le_zero one_le_numeral one_le_power order_trans)
  note b = bit_length_bounds [OF this]
  have "k < bit_length n" using k(1) b by (meson le_less_trans nat_power_less_imp_less numeral_2_eq_2 zero_less_numeral)
  moreover have "bit_length n - 1 < Suc k" using k(2) b by (meson le_less_trans nat_power_less_imp_less zero_less_numeral)
  ultimately show ?thesis by simp
qed

lemma descend_node:
  assumes "2 ^ Suc j * b < n" "n - 2 ^ Suc j * b < 2 ^ Suc j"
  shows "\<exists>b' j'. descend n (node b j) = Some (node b' j') \<and> 2 ^ Suc j' * b' = 2 ^ Suc j * b
    \<and> bit_length (n - 2 ^ Suc j * b) = Suc j'"
  using assms
proof (induction j arbitrary: b)
  case 0
  then have "n = Suc (2 * b)" by simp
  then show ?case by - (rule exI [of _ b], rule exI [of _ 0],
      simp add: descend.simps [of _ "2 * b"] node_def bit_length.simps [of "Suc 0"] bit_length.simps [of 0])
next
  case (Suc j)
  show ?case
  proof (cases "n \<le> node b (Suc j)")
    case True
    have eq: "2 ^ Suc j * (2 * b) = 2 ^ Suc (Suc j) * b" by simp
    have "n < 2 ^ Suc (Suc j) * b + 2 ^ Suc j" using True node_value [of b "Suc j"] by simp
    then have "n - 2 ^ Suc j * (2 * b) < 2 ^ Suc j" "2 ^ Suc j * (2 * b) < n" unfolding eq using Suc.prems by simp_all
    from Suc.IH [OF this(2,1)] show ?thesis
      using True unfolding eq by (simp add: descend.simps [of n "node b (Suc j)"] left_child_node)
  next
    case False
    then have "2 ^ Suc (Suc j) * b + 2 ^ Suc j \<le> n" using node_value [of b "Suc j"] by simp
    then have "bit_length (n - 2 ^ Suc (Suc j) * b) = Suc (Suc j)" by (intro bit_length_unique) (use Suc.prems in simp_all)
    then show ?thesis using False by (intro exI [of _ b] exI [of _ "Suc j"]) (simp add: descend.simps [of n "node b (Suc j)"])
  qed
qed

lemma frontier_from_node:
  assumes "node a k < n" "n \<le> node a k + 2 ^ k"
  shows "frontier_from n (node a k) =
    Some (node a k # (if Suc (node a k) = n then [] else spine (Suc (node a k)) (n - Suc (node a k))))"
  using assms
proof (induction "n - node a k" arbitrary: a k rule: less_induct)
  case less
  show ?case
  proof (cases "Suc (node a k) = n")
    case True
    then have "node a k = n - 1" by simp
    with True show ?thesis by (subst frontier_from.simps) simp
  next
    case False
    then obtain j where k: "k = Suc j" using less.prems by (cases k) auto
    define lo where "lo = Suc (node a k)"
    have lo: "lo = 2 ^ Suc j * (2 * a + 1)" unfolding lo_def node_value k by simp
    have n: "lo < n" "n - lo < 2 ^ Suc j" using less.prems False unfolding lo_def k by simp_all
    obtain b' j' where d: "descend n (node (2 * a + 1) j) = Some (node b' j')" and b': "2 ^ Suc j' * b' = lo"
      and bl: "bit_length (n - lo) = Suc j'"
      using descend_node [of j "2 * a + 1" n] n unfolding lo by blast
    have right: "right_child n (node a k) = Some (node b' j')"
      using d node_right [of a j] by (simp add: right_child_def shift_pred_def k)
    have y: "Suc (node b' j') = lo + 2 ^ j'" using node_value [of b' j'] b' by simp
    have m: "2 ^ j' \<le> n - lo" "n - lo < 2 ^ Suc j'" using bit_length_bounds [of "n - lo"] n(1) bl by simp_all
    have "(1 :: nat) \<le> 2 ^ j'" by simp
    then have nxt: "n - node b' j' < n - node a k" "node b' j' < n" "n \<le> node b' j' + 2 ^ j'"
      using y m n(1) less.prems unfolding lo_def by simp_all
    have tail: "spine lo (n - lo) = node b' j' # (if Suc (node b' j') = n then [] else spine (Suc (node b' j')) (n - Suc (node b' j')))"
      using y m n(1) bl by (subst spine.simps) (auto simp: Let_def)
    have "frontier_from n (node a k) = map_option (Cons (node a k)) (frontier_from n (node b' j'))"
      using False right less.prems by (subst frontier_from.simps) auto
    then show ?thesis using False tail less.hyps [OF nxt] unfolding lo_def by simp
  qed
qed

text \<open>C34: The frontier of a log with entries is defined (no shift by a negative amount is met and both loops end), and is the right
  spine of the left-balanced tree over the entries, computed by the level arithmetic of the code.
\<close>

theorem frontier_is_spine: "frontier n = (if n = 0 then None else Some (spine 0 n))"
proof (cases "n = 0")
  case True
  then show ?thesis by (simp add: frontier_def bst_root_def shift_pred_def bit_length.simps)
next
  case False
  note b = bit_length_bounds [of n]
  obtain k where k: "bit_length n = Suc k" using b False by (cases "bit_length n") auto
  have n: "2 ^ k \<le> n" "n < 2 ^ Suc k" using b False k by auto
  have r: "Suc (node 0 k) = 2 ^ k" using node_value [of 0 k] by simp
  have "frontier_from n (node 0 k) = Some (spine 0 n)"
    using frontier_from_node [of 0 k n] r n by (subst spine.simps) (auto simp: k Let_def)
  moreover have "bst_root n = Some (node 0 k)" using r by (simp add: bst_root_def shift_pred_def k)
  ultimately show ?thesis using False by (simp add: frontier_def)
qed

section \<open>The binary ladder\<close>

text \<open>The two loops of \<open>base_ladder\<close>: the versions one less than the powers of two up to the first above \<open>t\<close>, then a bisection.\<close>

function doubling :: "nat \<Rightarrow> nat list \<Rightarrow> nat list" where
  "doubling t out =
    (let v = push_bit (length out) 1 - 1; out' = out @ [v] in if t < v then out' else doubling t out')"
  by auto
termination
proof (relation "measure (\<lambda>(t, out). Suc t - length out)")
  fix t :: nat and out :: "nat list" and v out'
  assume v: "v = push_bit (length out) 1 - 1" "out' = out @ [v]" "\<not> t < v"
  have "length out < 2 ^ length out" by (rule less_exp)
  moreover have "\<not> t < 2 ^ length out - 1" using v(1,3) by (simp add: push_bit_eq_mult)
  ultimately have "length out \<le> t" by linarith
  then show "((t, out'), (t, out)) \<in> measure (\<lambda>(t, out). Suc t - length out)"
    using v by (simp add: push_bit_eq_mult)
qed simp

function bisect :: "nat \<Rightarrow> nat \<Rightarrow> nat \<Rightarrow> nat list \<Rightarrow> nat list" where
  "bisect t lo hi out =
    (if lo + 1 < hi
     then (let v = (lo + hi) div 2 in if v \<le> t then bisect t v hi (out @ [v]) else bisect t lo v (out @ [v]))
     else out)"
  by auto
termination by (relation "measure (\<lambda>(t, lo, hi, out). hi - lo)") auto

declare doubling.simps [simp del] bisect.simps [simp del]

definition base_ladder :: "nat \<Rightarrow> nat list" where
  "base_ladder t = (let out = doubling t [] in bisect t (out ! (length out - 2)) (out ! (length out - 1)) out)"

lemma doubling_eq:
  assumes "j \<le> k" "2 ^ k \<le> Suc t" "Suc t < 2 ^ Suc k"
  shows "doubling t (map (\<lambda>i. 2 ^ i - 1) [0..<j]) = map (\<lambda>i. 2 ^ i - 1) [0..<k + 2]"
  using assms(1)
proof (induction "k - j" arbitrary: j)
  case 0
  have "(2 :: nat) ^ j \<le> 2 ^ k" using 0 by (simp add: power_increasing)
  then have "\<not> t < 2 ^ j - 1" "t < 2 ^ Suc k - 1" using assms(2,3) by linarith+
  moreover have "j = k" using 0 by simp
  ultimately show ?case
    by (subst doubling.simps) (simp add: Let_def push_bit_eq_mult, subst doubling.simps, simp add: push_bit_eq_mult)
next
  case (Suc d)
  have "(2 :: nat) ^ j \<le> 2 ^ k" using Suc.prems by (simp add: power_increasing)
  then have "\<not> t < 2 ^ j - 1" using assms(2) by linarith
  then have "doubling t (map (\<lambda>i. 2 ^ i - 1) [0..<j]) = doubling t (map (\<lambda>i. 2 ^ i - 1) [0..<Suc j])"
    by (subst doubling.simps) (simp add: Let_def push_bit_eq_mult)
  then show ?case using Suc.hyps(1) [of "Suc j"] Suc.hyps(2) Suc.prems by simp
qed

lemma bisect_eq:
  assumes "hi = lo + 2 ^ j" "lo \<le> t" "t < hi" "lo \<in> set out" "hi \<in> set out" "distinct out" "\<forall>x\<in>set out. x \<le> lo \<or> hi \<le> x"
  shows "distinct (bisect t lo hi out) \<and> {t, Suc t} \<subseteq> set (bisect t lo hi out) \<and> length (bisect t lo hi out) = length out + j"
  using assms
proof (induction j arbitrary: lo hi out)
  case 0
  then have "t = lo" "hi = Suc t" by auto
  with 0 show ?case by (subst (1 2 3) bisect.simps) simp
next
  case (Suc j)
  define v where "v = (lo + hi) div 2"
  have pos: "(0 :: nat) < 2 ^ j" by simp
  have v: "v = lo + 2 ^ j" "hi = v + 2 ^ j" using Suc.prems(1) by (simp_all add: v_def)
  then have new: "v \<notin> set out" using Suc.prems(7) pos by (metis add_le_same_cancel1 not_less)
  have step: "bisect t lo hi out = (if v \<le> t then bisect t v hi (out @ [v]) else bisect t lo v (out @ [v]))"
  proof -
    have "lo + 1 < hi" using v pos by linarith
    then show ?thesis by (subst bisect.simps) (simp only: v_def [symmetric] Let_def if_True)
  qed
  show ?case
  proof (cases "v \<le> t")
    case True
    have "\<forall>x\<in>set (out @ [v]). x \<le> v \<or> hi \<le> x" using Suc.prems(7) v(1) by auto
    with True show ?thesis using Suc.IH [OF v(2) True Suc.prems(3), of "out @ [v]"] new Suc.prems(5,6) unfolding step by simp
  next
    case False
    have "\<forall>x\<in>set (out @ [v]). x \<le> lo \<or> v \<le> x" using Suc.prems(7) v(2) by auto
    with False show ?thesis using Suc.IH [OF v(1) Suc.prems(2), of "out @ [v]"] new Suc.prems(4,6) unfolding step by simp
  qed
qed

text \<open>The binary ladder of a version looks up that version and the next one, no version twice, and takes exactly twice as many
  lookups as the next version has bits.
\<close>

theorem ladder_finds_version:
  "{t, Suc t} \<subseteq> set (base_ladder t) \<and> distinct (base_ladder t) \<and> length (base_ladder t) = 2 * bit_length (Suc t)"
proof -
  note b = bit_length_bounds [of "Suc t"]
  obtain k where k: "bit_length (Suc t) = Suc k" using b by (cases "bit_length (Suc t)") auto
  have t: "2 ^ k \<le> Suc t" "Suc t < 2 ^ Suc k" using b k by auto
  define out :: "nat list" where "out = map (\<lambda>i. 2 ^ i - 1) [0..<k + 2]"
  have d: "doubling t [] = out" using doubling_eq [OF le0 t] by (simp only: out_def upt_0 list.map(1) diff_self_eq_0)
  have out: "length out = k + 2" "out ! k = 2 ^ k - 1" "out ! Suc k = 2 ^ Suc k - 1"
    by (simp_all add: out_def del: upt_Suc)
  have inj: "inj (\<lambda>i. 2 ^ i - 1 :: nat)"
  proof (rule injI)
    fix i j assume "(2 :: nat) ^ i - 1 = 2 ^ j - 1"
    moreover have "(1 :: nat) \<le> 2 ^ i" "(1 :: nat) \<le> 2 ^ j" by simp_all
    ultimately have "(2 :: nat) ^ i = 2 ^ j" by linarith
    then show "i = j" by (simp only: power_inject_exp one_less_numeral_iff semiring_norm)
  qed
  have gap: "(2 :: nat) ^ i - 1 \<le> 2 ^ k - 1 \<or> 2 ^ Suc k - 1 \<le> 2 ^ i - (1 :: nat)" for i
  proof (cases "i \<le> k")
    case True
    then show ?thesis by (simp add: diff_le_mono power_increasing)
  next
    case False
    then have "(2 :: nat) ^ Suc k \<le> 2 ^ i" by (intro power_increasing) auto
    then show ?thesis by (intro disjI2 diff_le_mono)
  qed
  have "distinct out" unfolding out_def distinct_map by (intro conjI distinct_upt inj_on_subset [OF inj subset_UNIV])
  moreover have "\<forall>x\<in>set out. x \<le> 2 ^ k - 1 \<or> 2 ^ Suc k - 1 \<le> x" unfolding out_def using gap by auto
  moreover have "2 ^ k - 1 \<in> set out" "2 ^ Suc k - 1 \<in> set out" unfolding out(2,3) [symmetric] using out(1) by simp_all
  moreover have "(2 :: nat) ^ Suc k - 1 = (2 ^ k - 1) + 2 ^ k" "2 ^ k - 1 \<le> t" "t < 2 ^ Suc k - 1" using t by auto
  ultimately show ?thesis
    using bisect_eq [of "2 ^ Suc k - 1" "2 ^ k - 1" k t out] unfolding base_ladder_def d k Let_def out(1)
    by (simp add: out(2,3) del: power_Suc)
qed

end
