(* ===== verification/Kt_Hash.thy ===== *)
theory Kt_Hash
  imports Bytes Kt_Tree
begin

text \<open>
  The hash trees of \<^verbatim>\<open>dsipvec/kt.py\<close>: \<open>log_leaf\<close>, \<open>log_root\<close>, \<open>prefix_leaf\<close>, \<open>prefix_parent\<close> and \<open>prefix_root\<close>. The hash
  function is a parameter, of which only the length of its results, 32 bytes, is assumed. A root binds the contents of its tree:
  two trees with the same root are the same, or two different byte strings, both hashed while the roots were computed, have the
  same hash.
\<close>

section \<open>Definitions\<close>

definition log_leaf :: "(bytes \<Rightarrow> bytes) \<Rightarrow> nat \<Rightarrow> bytes \<Rightarrow> bytes option" where
  "log_leaf sha ts_ms prefix = (if ts_ms < 2 ^ 64 then Some (sha (to_bytes 8 ts_ms @ prefix)) else None)"

text \<open>The subtree of a list of leaves, and whether it is a leaf itself; \<open>k\<close> is the largest power of two below its size.\<close>

definition split_point :: "nat \<Rightarrow> nat" where
  "split_point n = push_bit (bit_length (n - 1) - 1) 1"

lemma split_point_bounds: "1 < n \<Longrightarrow> 0 < split_point n \<and> split_point n < n"
proof -
  assume "1 < n"
  then show ?thesis using bit_length_bounds [of "n - 1"] by (auto simp: split_point_def push_bit_eq_mult)
qed

lemma split_point_parts:
  "\<not> length xs \<le> 1 \<Longrightarrow> length (take (split_point (length xs)) xs) < length xs"
  "\<not> length xs \<le> 1 \<Longrightarrow> length (drop (split_point (length xs)) xs) < length xs"
  using split_point_bounds [of "length xs"] by auto

definition parent_input :: "bytes \<times> bool \<Rightarrow> bytes \<times> bool \<Rightarrow> bytes" where
  "parent_input l r = [if snd l then 0 else 1] @ fst l @ [if snd r then 0 else 1] @ fst r"

function log_node :: "(bytes \<Rightarrow> bytes) \<Rightarrow> bytes list \<Rightarrow> bytes \<times> bool" where
  "log_node sha leaves =
    (if length leaves \<le> 1 then (hd leaves, True)
     else
       (let k = split_point (length leaves)
        in (sha (parent_input (log_node sha (take k leaves)) (log_node sha (drop k leaves))), False)))"
  by auto
termination by (relation "measure (\<lambda>(sha, leaves). length leaves)") (auto simp: split_point_parts simp del: length_take length_drop)

declare log_node.simps [simp del]

text \<open>On an empty list the code indexes past its end and raises; its caller refuses one before.\<close>

definition log_root :: "(bytes \<Rightarrow> bytes) \<Rightarrow> bytes list \<Rightarrow> bytes option" where
  "log_root sha leaves = (if leaves = [] then None else Some (fst (log_node sha leaves)))"

section \<open>The log root binds the leaves\<close>

text \<open>The strings hashed for a tree over the leaves.\<close>

function log_inputs :: "(bytes \<Rightarrow> bytes) \<Rightarrow> bytes list \<Rightarrow> bytes set" where
  "log_inputs sha leaves =
    (if length leaves \<le> 1 then {}
     else
       (let k = split_point (length leaves)
        in insert (parent_input (log_node sha (take k leaves)) (log_node sha (drop k leaves)))
             (log_inputs sha (take k leaves) \<union> log_inputs sha (drop k leaves))))"
  by auto
termination by (relation "measure (\<lambda>(sha, leaves). length leaves)") (auto simp: split_point_parts simp del: length_take length_drop)

declare log_inputs.simps [simp del]

definition collision :: "(bytes \<Rightarrow> bytes) \<Rightarrow> bytes set \<Rightarrow> bool" where
  "collision sha A \<longleftrightarrow> (\<exists>a\<in>A. \<exists>b\<in>A. a \<noteq> b \<and> sha a = sha b)"

lemma collision_mono: "collision sha A \<Longrightarrow> A \<subseteq> B \<Longrightarrow> collision sha B"
  by (auto simp: collision_def)

lemma collisionI: "a \<in> A \<Longrightarrow> b \<in> A \<Longrightarrow> sha a = sha b \<Longrightarrow> a \<noteq> b \<Longrightarrow> collision sha A"
  by (auto simp: collision_def)

lemma log_node_length:
  assumes "\<And>b. length (sha b) = 32" "leaves \<noteq> []" "\<forall>l\<in>set leaves. length l = 32"
  shows "length (fst (log_node sha leaves)) = 32"
  using assms by (subst log_node.simps) (auto simp: Let_def)

lemma log_node_flag: "snd (log_node sha leaves) \<longleftrightarrow> length leaves \<le> 1"
  by (subst log_node.simps) (auto simp: Let_def)

lemma log_node_inject:
  assumes sha: "\<And>b. length (sha b) = 32"
    and "length xs = length ys" "xs \<noteq> []" "\<forall>l\<in>set xs \<union> set ys. length l = 32"
    and "fst (log_node sha xs) = fst (log_node sha ys)"
  shows "xs = ys \<or> collision sha (log_inputs sha xs \<union> log_inputs sha ys)"
  using assms(2-5)
proof (induction "length xs" arbitrary: xs ys rule: less_induct)
  case less
  show ?case
  proof (cases "length xs \<le> 1")
    case True
    then obtain x y where "xs = [x]" "ys = [y]"
      using less.prems(1,2) by (cases xs; cases ys) auto
    then show ?thesis using less.prems(4) by (simp add: log_node.simps)
  next
    case False
    define k where "k = split_point (length xs)"
    have k: "0 < k" "k < length xs" "k < length ys" using split_point_bounds [of "length xs"] False less.prems(1) by (auto simp: k_def)
    let ?I = "log_inputs sha xs \<union> log_inputs sha ys"
    define px where "px = parent_input (log_node sha (take k xs)) (log_node sha (drop k xs))"
    define py where "py = parent_input (log_node sha (take k ys)) (log_node sha (drop k ys))"
    have ix: "log_inputs sha xs = insert px (log_inputs sha (take k xs) \<union> log_inputs sha (drop k xs))"
      using False by (subst log_inputs.simps) (simp add: k_def px_def Let_def)
    have iy: "log_inputs sha ys = insert py (log_inputs sha (take k ys) \<union> log_inputs sha (drop k ys))"
      using False less.prems(1) by (subst log_inputs.simps) (simp add: k_def py_def Let_def)
    have "sha px = sha py"
      using less.prems(1,4) False by (simp add: log_node.simps [of sha xs] log_node.simps [of sha ys] Let_def k_def px_def py_def)
    then consider "collision sha ?I" | "px = py" using collisionI [of px ?I py] ix iy by blast
    then show ?thesis
    proof cases
      case 2
      have ne: "take k xs \<noteq> []" "drop k xs \<noteq> []" "take k ys \<noteq> []" "drop k ys \<noteq> []" using k by auto
      have l32: "\<forall>l\<in>set (take k xs) \<union> set (take k ys). length l = 32" "\<forall>l\<in>set (drop k xs) \<union> set (drop k ys). length l = 32"
        using less.prems(3) by (auto dest: in_set_takeD in_set_dropD)
      have len: "length (fst (log_node sha (take k xs))) = 32" "length (fst (log_node sha (take k ys))) = 32"
        using l32 by (auto intro!: log_node_length sha ne)
      have eq: "fst (log_node sha (take k xs)) = fst (log_node sha (take k ys))"
        "fst (log_node sha (drop k xs)) = fst (log_node sha (drop k ys))"
        using 2 len unfolding px_def py_def parent_input_def by (auto simp: log_node_flag)
      have size: "length (take k xs) < length xs" "length (take k xs) = length (take k ys)"
        "length (drop k xs) < length xs" "length (drop k xs) = length (drop k ys)"
        using k less.prems(1) by auto
      have "take k xs = take k ys \<or> collision sha ?I"
        using less.hyps [OF size(1,2) ne(1) l32(1) eq(1)] collision_mono [of sha _ ?I] ix iy by blast
      moreover have "drop k xs = drop k ys \<or> collision sha ?I"
        using less.hyps [OF size(3,4) ne(2) l32(2) eq(2)] collision_mono [of sha _ ?I] ix iy by blast
      ultimately show ?thesis by (metis append_take_drop_id)
    qed simp
  qed
qed

lemma log_root_inject:
  assumes "\<And>b. length (sha b) = 32" "length xs = length ys" "\<forall>l\<in>set xs \<union> set ys. length l = 32"
    and "log_root sha xs = Some r" "log_root sha ys = Some r"
  shows "xs = ys \<or> collision sha (log_inputs sha xs \<union> log_inputs sha ys)"
  using log_node_inject [of sha xs ys] assms by (auto simp: log_root_def split: if_splits)

section \<open>The prefix tree\<close>

type_synonym leaves = "(bytes \<times> bytes) list"

definition ZERO :: bytes where
  "ZERO = replicate 32 0"

definition prefix_leaf :: "(bytes \<Rightarrow> bytes) \<Rightarrow> bytes \<Rightarrow> bytes \<Rightarrow> bytes" where
  "prefix_leaf sha idx comm = sha ([2] @ idx @ comm)"

definition or_zero :: "bytes option \<Rightarrow> bytes" where
  "or_zero x = (case x of None \<Rightarrow> ZERO | Some b \<Rightarrow> if b = [] then ZERO else b)"

definition prefix_parent :: "(bytes \<Rightarrow> bytes) \<Rightarrow> bytes option \<Rightarrow> bytes option \<Rightarrow> bytes" where
  "prefix_parent sha left right = sha ([3] @ or_zero left @ or_zero right)"

text \<open>Bit \<open>i\<close> of a key from its most significant one; indexing past the key raises.\<close>

definition has_bit :: "bytes \<Rightarrow> nat \<Rightarrow> bool" where
  "has_bit key i \<longleftrightarrow> i div 8 < length key"

definition key_bit :: "bytes \<Rightarrow> nat \<Rightarrow> bool" where
  "key_bit key i \<longleftrightarrow> bit (key ! (i div 8)) (7 - i mod 8)"

definition side :: "bool \<Rightarrow> nat \<Rightarrow> leaves \<Rightarrow> leaves" where
  "side v depth leaves = filter (\<lambda>(k, c). key_bit k depth = v) leaves"

lemma has_bit_sum: "(k, c) \<in> set leaves \<Longrightarrow> has_bit k d \<Longrightarrow> d < 8 * sum_list (map (\<lambda>(k, c). length k) leaves)"
proof -
  assume "(k, c) \<in> set leaves" and d: "has_bit k d"
  then have "length k \<le> sum_list (map (\<lambda>(k, c). length k) leaves)" by (induction leaves) auto
  with d show ?thesis by (auto simp: has_bit_def)
qed

lemma side_sum: "sum_list (map (\<lambda>(k, c). length k) (side v d leaves)) \<le> sum_list (map (\<lambda>(k, c). length k) leaves)"
  by (induction leaves) (auto simp: side_def)

lemma side_measure:
  assumes "list_all (\<lambda>(k, c). has_bit k d) leaves" "side v d leaves \<noteq> []"
  shows "8 * sum_list (map (\<lambda>(k, c). length k) (side v d leaves)) - Suc d < 8 * sum_list (map (\<lambda>(k, c). length k) leaves) - d"
proof -
  obtain k c where "(k, c) \<in> set leaves" using assms(2) by (cases leaves) (auto simp: side_def)
  then have "d < 8 * sum_list (map (\<lambda>(k, c). length k) leaves)" using assms(1) has_bit_sum by (fastforce simp: list_all_iff)
  then show ?thesis using side_sum [of v d leaves] by linarith
qed

text \<open>The children of a node: None when one of them raised, the inner None for an empty side.\<close>

function prefix_root :: "(bytes \<Rightarrow> bytes) \<Rightarrow> leaves \<Rightarrow> nat \<Rightarrow> bytes option" where
  "prefix_root sha leaves depth =
    (if length leaves = 1 then Some (prefix_leaf sha (fst (hd leaves)) (snd (hd leaves)))
     else if \<not> list_all (\<lambda>(k, c). has_bit k depth) leaves then None
     else
       (let left = side False depth leaves; right = side True depth leaves;
            l = (if left = [] then Some None else map_option Some (prefix_root sha left (Suc depth)));
            r = (if right = [] then Some None else map_option Some (prefix_root sha right (Suc depth)))
        in (case (l, r) of (Some x, Some y) \<Rightarrow> Some (prefix_parent sha x y) | _ \<Rightarrow> None)))"
  by auto
termination
  by (relation "measure (\<lambda>(sha, leaves, depth). 8 * sum_list (map (\<lambda>(k, c). length k) leaves) - depth)")
    (rule wf_measure, (simp only: in_measure case_prod_conv not_not, rule side_measure, assumption, assumption)+)

declare prefix_root.simps [simp del]

text \<open>What a parent hashes for one side.\<close>

definition child :: "(bytes \<Rightarrow> bytes) \<Rightarrow> leaves \<Rightarrow> nat \<Rightarrow> bool \<Rightarrow> bytes option" where
  "child sha leaves d v = (if side v d leaves = [] then None else prefix_root sha (side v d leaves) (Suc d))"

definition top_input :: "(bytes \<Rightarrow> bytes) \<Rightarrow> leaves \<Rightarrow> nat \<Rightarrow> bytes" where
  "top_input sha leaves d =
    (if length leaves = 1 then [2] @ fst (hd leaves) @ snd (hd leaves)
     else [3] @ or_zero (child sha leaves d False) @ or_zero (child sha leaves d True))"

lemma prefix_root_top: "prefix_root sha leaves d = Some r \<Longrightarrow> r = sha (top_input sha leaves d)"
  by (subst (asm) prefix_root.simps)
    (auto simp: top_input_def child_def prefix_leaf_def prefix_parent_def Let_def split: if_splits option.splits)

lemma prefix_root_side:
  "prefix_root sha leaves d = Some r \<Longrightarrow> length leaves \<noteq> 1 \<Longrightarrow> side v d leaves \<noteq> [] \<Longrightarrow>
    \<exists>s. prefix_root sha (side v d leaves) (Suc d) = Some s"
  by (subst (asm) prefix_root.simps) (cases v; auto simp: Let_def split: if_splits option.splits)

lemma prefix_root_bits: "prefix_root sha leaves d = Some r \<Longrightarrow> length leaves \<noteq> 1 \<Longrightarrow> list_all (\<lambda>(k, c). has_bit k d) leaves"
  by (subst (asm) prefix_root.simps) (auto split: if_splits)

lemma side_set: "set leaves = set (side False d leaves) \<union> set (side True d leaves)"
  by (auto simp: side_def)

text \<open>The strings hashed for a prefix tree.\<close>

inductive hashed :: "(bytes \<Rightarrow> bytes) \<Rightarrow> leaves \<Rightarrow> nat \<Rightarrow> bytes \<Rightarrow> bool" for sha where
  top: "hashed sha leaves d (top_input sha leaves d)"
| side: "length leaves \<noteq> 1 \<Longrightarrow> side v d leaves \<noteq> [] \<Longrightarrow> hashed sha (side v d leaves) (Suc d) a \<Longrightarrow> hashed sha leaves d a"

definition prefix_inputs :: "(bytes \<Rightarrow> bytes) \<Rightarrow> leaves \<Rightarrow> nat \<Rightarrow> bytes set" where
  "prefix_inputs sha leaves d = {a. hashed sha leaves d a}"

lemma top_in_inputs: "top_input sha leaves d \<in> prefix_inputs sha leaves d"
  by (simp add: prefix_inputs_def hashed.top)

lemma side_inputs: "length leaves \<noteq> 1 \<Longrightarrow> side v d leaves \<noteq> [] \<Longrightarrow> prefix_inputs sha (side v d leaves) (Suc d) \<subseteq> prefix_inputs sha leaves d"
  by (auto simp: prefix_inputs_def intro: hashed.side)

lemma or_zero_Some: "length x = 32 \<Longrightarrow> or_zero (Some x) = x"
  by (auto simp: or_zero_def)

lemma or_zero_length: "(\<And>b. length (sha b) = 32) \<Longrightarrow> length (or_zero (child sha leaves d v)) = 32"
  by (auto simp: or_zero_def child_def ZERO_def split: option.splits dest: prefix_root_top)

definition prefix_break :: "(bytes \<Rightarrow> bytes) \<Rightarrow> bytes set \<Rightarrow> bool" where
  "prefix_break sha A \<longleftrightarrow> collision sha A \<or> ZERO \<in> sha ` A"

lemma prefix_break_mono: "prefix_break sha A \<Longrightarrow> A \<subseteq> B \<Longrightarrow> prefix_break sha B"
  using collision_mono by (auto simp: prefix_break_def)

lemma side_child:
  assumes "\<And>b. length (sha b) = 32" "prefix_root sha leaves d = Some r" "length leaves \<noteq> 1" "side v d leaves \<noteq> []"
  shows "prefix_root sha (side v d leaves) (Suc d) = Some (or_zero (child sha leaves d v))"
    and "or_zero (child sha leaves d v) \<in> sha ` prefix_inputs sha leaves d"
proof -
  obtain s where s: "prefix_root sha (side v d leaves) (Suc d) = Some s" using prefix_root_side [OF assms(2-4)] by blast
  have "length s = 32" using prefix_root_top [OF s] assms(1) by simp
  then show top: "prefix_root sha (side v d leaves) (Suc d) = Some (or_zero (child sha leaves d v))"
    using s assms(4) by (simp add: child_def or_zero_Some)
  show "or_zero (child sha leaves d v) \<in> sha ` prefix_inputs sha leaves d"
    using prefix_root_top [OF top] top_in_inputs side_inputs [OF assms(3,4)] by blast
qed

lemma prefix_root_inject:
  assumes sha: "\<And>b. length (sha b) = 32"
    and "xs \<noteq> []" "ys \<noteq> []" "\<forall>(k, c)\<in>set xs \<union> set ys. length k = 32"
    and "prefix_root sha xs d = Some r" "prefix_root sha ys d = Some r"
  shows "set xs = set ys \<or> prefix_break sha (prefix_inputs sha xs d \<union> prefix_inputs sha ys d)"
  using assms(2-6)
proof (induction "256 - d" arbitrary: d xs ys r rule: less_induct)
  case less
  let ?I = "prefix_inputs sha xs d \<union> prefix_inputs sha ys d"
  have tops: "top_input sha xs d \<in> ?I" "top_input sha ys d \<in> ?I" by (auto intro: top_in_inputs)
  have same: "sha (top_input sha xs d) = sha (top_input sha ys d)" using less.prems(4,5) prefix_root_top by metis
  show ?case
  proof (cases "top_input sha xs d = top_input sha ys d")
    case False
    then show ?thesis using collisionI [OF tops same] by (simp add: prefix_break_def)
  next
    case eq: True
    show ?thesis
    proof (cases "length xs = 1 \<or> length ys = 1")
      case True
      then have "length xs = 1" "length ys = 1" using eq by (auto simp: top_input_def split: if_splits)
      then obtain p q where "xs = [p]" "ys = [q]" by (auto simp: length_Suc_conv)
      then show ?thesis using eq less.prems(3) by (cases p; cases q) (simp add: top_input_def)
    next
      case False
      then have one: "length xs \<noteq> 1" "length ys \<noteq> 1" by auto
      obtain k c where "(k, c) \<in> set xs" using less.prems(1) by (cases xs) auto
      then have d: "256 - Suc d < 256 - d"
        using prefix_root_bits [OF less.prems(4) one(1)] less.prems(3) by (force simp: list_all_iff has_bit_def)
      have part: "or_zero (child sha xs d v) = or_zero (child sha ys d v)" for v
        using eq one or_zero_length [of sha, OF sha] by (cases v) (auto simp: top_input_def)
      have "set (side v d xs) = set (side v d ys) \<or> prefix_break sha ?I" for v
      proof -
        note cx = side_child [OF sha less.prems(4) one(1), of v] and cy = side_child [OF sha less.prems(5) one(2), of v]
        have zero: "or_zero (child sha l d v) = ZERO" if "side v d l = []" for l using that by (simp add: child_def or_zero_def)
        consider "side v d xs = []" "side v d ys = []" | "side v d xs = []" "side v d ys \<noteq> []"
          | "side v d xs \<noteq> []" "side v d ys = []" | "side v d xs \<noteq> []" "side v d ys \<noteq> []" by blast
        then show ?thesis
        proof cases
          case 2
          then show ?thesis using cy(2) part [of v] zero [OF 2(1)] by (auto simp: prefix_break_def)
        next
          case 3
          then show ?thesis using cx(2) part [of v] zero [OF 3(2)] by (auto simp: prefix_break_def)
        next
          case 4
          have keys: "\<forall>(k, c)\<in>set (side v d xs) \<union> set (side v d ys). length k = 32"
            using less.prems(3) by (auto simp: side_def)
          show ?thesis
            using less.hyps [OF d 4 keys cx(1) [OF 4(1)]] cy(1) [OF 4(2)] part [of v]
              prefix_break_mono [OF _ Un_mono [OF side_inputs [OF one(1) 4(1)] side_inputs [OF one(2) 4(2)]]] by auto
        qed simp
      qed
      then show ?thesis using side_set [of xs d] side_set [of ys d] by metis
    qed
  qed
qed

section \<open>Distinct keys have a root\<close>

lemma key_bits_inject:
  assumes "length k = 32" "length k' = 32" "\<And>i. i < 256 \<Longrightarrow> key_bit k i = key_bit k' i"
  shows "k = k'"
proof (rule nth_equalityI)
  fix j assume "j < length k"
  then have j: "j < 32" using assms(1) by simp
  show "k ! j = k' ! j"
  proof (rule bit_word_eqI)
    fix n assume "n < LENGTH(8)"
    then have n: "n < 8" by simp
    define m where "m = 7 - n"
    have m: "m < 8" "7 - m = n" using n by (auto simp: m_def)
    then have "(8 * j + m) div 8 = j" "(8 * j + m) mod 8 = m" "8 * j + m < 256" using j by auto
    then show "bit (k ! j) n = bit (k' ! j) n" using assms(3) [of "8 * j + m"] m(2) by (simp add: key_bit_def)
  qed
qed (use assms in simp)

text \<open>The keys of a subtree at depth \<open>d\<close> share their first \<open>d\<close> bits.\<close>

definition agree :: "nat \<Rightarrow> leaves \<Rightarrow> bool" where
  "agree d leaves \<longleftrightarrow> (\<forall>p\<in>set leaves. \<forall>q\<in>set leaves. \<forall>i<d. key_bit (fst p) i = key_bit (fst q) i)"

lemma agree_side: "agree d leaves \<Longrightarrow> agree (Suc d) (side v d leaves)"
  unfolding agree_def side_def less_Suc_eq by (simp add: case_prod_unfold)

lemma side_distinct: "distinct (map fst leaves) \<Longrightarrow> distinct (map fst (side v d leaves))"
  unfolding side_def by (rule distinct_map_filter)

lemma prefix_root_exists:
  assumes "leaves \<noteq> []" "distinct (map fst leaves)" "\<forall>(k, c)\<in>set leaves. length k = 32" "d \<le> 256"
    "agree d leaves"
  shows "\<exists>r. prefix_root sha leaves d = Some r"
  using assms
proof (induction "256 - d" arbitrary: d leaves rule: less_induct)
  case less
  show ?case
  proof (cases "length leaves = 1")
    case True
    then show ?thesis by (subst prefix_root.simps) simp
  next
    case False
    have "d \<noteq> 256"
    proof
      assume d: "d = 256"
      obtain p q ls where l: "leaves = p # q # ls" using False less.prems(1) by (cases leaves; cases "tl leaves") auto
      have "key_bit (fst p) i = key_bit (fst q) i" if "i < 256" for i
        using less.prems(5) that unfolding l agree_def d by (meson list.set_intros)
      then have eq: "\<And>i. i < 256 \<Longrightarrow> key_bit (fst p) i = key_bit (fst q) i" by blast
      have "length (fst p) = 32" "length (fst q) = 32" using less.prems(3) unfolding l by (simp_all add: case_prod_unfold)
      from key_bits_inject [OF this eq] have "fst p = fst q" .
      then show False using less.prems(2) by (simp add: l)
    qed
    then have d: "d < 256" "256 - Suc d < 256 - d" using less.prems(4) by auto
    have bits: "list_all (\<lambda>(k, c). has_bit k d) leaves" using less.prems(3) d(1) by (auto simp: list_all_iff has_bit_def)
    have side: "\<exists>r. prefix_root sha (side v d leaves) (Suc d) = Some r" if "side v d leaves \<noteq> []" for v
    proof (rule less.hyps [OF d(2) that])
      show "distinct (map fst (side v d leaves))" by (rule side_distinct [OF less.prems(2)])
      show "\<forall>(k, c)\<in>set (side v d leaves). length k = 32" using less.prems(3) by (auto simp: side_def)
      show "agree (Suc d) (side v d leaves)" by (rule agree_side [OF less.prems(5)])
    qed (use d in simp)
    show ?thesis
      using False bits side [of False] side [of True] by (subst prefix_root.simps) (auto simp: Let_def)
  qed
qed

text \<open>C33: The prefix tree of entries with distinct 32-byte indexes has a root (no index runs out of bits), and the root binds the
  entries: two sets of entries with one root are the same set, or their hashing shows two strings with one hash or one whose hash
  is the value that stands for an empty subtree.
\<close>

theorem prefix_root_binds:
  assumes "\<And>b. length (sha b) = 32" "xs \<noteq> []" "distinct (map fst xs)" "ys \<noteq> []" "\<forall>(k, c)\<in>set xs \<union> set ys. length k = 32"
  shows "\<exists>r. prefix_root sha xs 0 = Some r \<and>
    (prefix_root sha ys 0 = Some r \<longrightarrow> set xs = set ys \<or> prefix_break sha (prefix_inputs sha xs 0 \<union> prefix_inputs sha ys 0))"
proof -
  have "\<exists>r. prefix_root sha xs 0 = Some r" by (rule prefix_root_exists) (use assms in \<open>auto simp: agree_def\<close>)
  then show ?thesis using prefix_root_inject [of sha xs ys 0] assms(1,2,4,5) by blast
qed

theorem prefix_root_binds_witness:
  "\<exists>r. prefix_root (\<lambda>b. take 32 (b @ ZERO)) [(replicate 32 7, [1]), (replicate 32 200, [2])] 0 = Some r \<and>
    (prefix_root (\<lambda>b. take 32 (b @ ZERO)) [(replicate 32 7, [3])] 0 = Some r \<longrightarrow>
      set [(replicate 32 7, [1]), (replicate 32 200, [2])] = set [(replicate 32 (7 :: 8 word), [3 :: 8 word])]
      \<or> prefix_break (\<lambda>b. take 32 (b @ ZERO))
          (prefix_inputs (\<lambda>b. take 32 (b @ ZERO)) [(replicate 32 7, [1]), (replicate 32 200, [2])] 0
           \<union> prefix_inputs (\<lambda>b. take 32 (b @ ZERO)) [(replicate 32 7, [3])] 0))"
  by (rule prefix_root_binds) (auto simp: ZERO_def replicate_eq_replicate)

end
