(* ===== verification/Text.thy ===== *)
theory Text
  imports Prelude
begin

text \<open>
  Python's operations on ASCII text that the formats of the development use: letter classes, \<open>lower\<close>, \<open>strip\<close>, \<open>split\<close>,
  \<open>partition\<close> and \<open>int\<close>.
\<close>

definition char_in :: "char \<Rightarrow> char \<Rightarrow> char \<Rightarrow> bool" where
  "char_in a b c \<longleftrightarrow> of_char a \<le> (of_char c :: nat) \<and> of_char c \<le> (of_char b :: nat)"

definition uc_letter :: "char \<Rightarrow> bool" where
  "uc_letter c \<longleftrightarrow> char_in CHR ''A'' CHR ''Z'' c"

definition lc_letter :: "char \<Rightarrow> bool" where
  "lc_letter c \<longleftrightarrow> char_in CHR ''a'' CHR ''z'' c"

definition is_alnum :: "char \<Rightarrow> bool" where
  "is_alnum c \<longleftrightarrow> lc_letter c \<or> uc_letter c \<or> char_in CHR ''0'' CHR ''9'' c"

definition lower_char :: "char \<Rightarrow> char" where
  "lower_char c = (if uc_letter c then char_of (of_char c + 32 :: nat) else c)"

definition lower :: "string \<Rightarrow> string" where
  "lower s = map lower_char s"

text \<open>\<open>s.split(sep)\<close>: the parts between the separators.\<close>

fun split :: "char \<Rightarrow> string \<Rightarrow> string list" where
  "split sep [] = [[]]"
| "split sep (c # s) = (if c = sep then [] # split sep s else (case split sep s of p # ps \<Rightarrow> (c # p) # ps | [] \<Rightarrow> [[c]]))"

lemma of_lower_char: "of_char (lower_char c) = (if uc_letter c then of_char c + 32 else (of_char c :: nat))"
  by (auto simp: lower_char_def uc_letter_def char_in_def of_char_of)

lemma lower_char_classes:
  "lc_letter (lower_char c) \<longleftrightarrow> lc_letter c \<or> uc_letter c" "\<not> uc_letter (lower_char c)"
  "char_in CHR ''0'' CHR ''9'' (lower_char c) \<longleftrightarrow> char_in CHR ''0'' CHR ''9'' c"
  by (auto simp: lc_letter_def uc_letter_def char_in_def of_lower_char split: if_splits)

lemma lower_char_idem [simp]: "lower_char (lower_char c) = lower_char c"
  using lower_char_classes(2) [of c] by (simp add: lower_char_def [of "lower_char c"])

lemma lower_idem [simp]: "lower (lower s) = lower s"
  by (simp add: lower_def)

lemma lower_char_eq: "\<not> lc_letter d \<Longrightarrow> \<not> uc_letter d \<Longrightarrow> lower_char c = d \<longleftrightarrow> c = d"
  using lower_char_classes(1) [of c] by (auto simp: lower_char_def)

text \<open>Whitespace, \<open>s.strip()\<close>, \<open>s.split()\<close>.\<close>

definition is_space :: "char \<Rightarrow> bool" where
  "is_space c \<longleftrightarrow> (of_char c :: nat) \<in> {9..13} \<union> {28..32}"

definition strip :: "string \<Rightarrow> string" where
  "strip s = rev (dropWhile is_space (rev (dropWhile is_space s)))"

function words :: "string \<Rightarrow> string list" where
  "words s = (let t = dropWhile is_space s
    in if t = [] then [] else takeWhile (\<lambda>c. \<not> is_space c) t # words (dropWhile (\<lambda>c. \<not> is_space c) t))"
  by auto
termination
proof (relation "measure length", simp, goal_cases)
  case (1 s t)
  then have "\<not> is_space (hd t)" by (metis hd_dropWhile)
  then have "length (dropWhile (\<lambda>c. \<not> is_space c) t) < length t" using 1(2) by (cases t) (auto simp: le_imp_less_Suc length_dropWhile_le)
  also have "\<dots> \<le> length s" unfolding 1(1) by (rule length_dropWhile_le)
  finally show ?case by simp
qed

declare words.simps [simp del]

text \<open>\<open>s.partition(sep)\<close>, the middle part as whether the separator is there; \<open>s.replace("\r\n", "\n")\<close>.\<close>

definition partition_at :: "char \<Rightarrow> string \<Rightarrow> string \<times> string option" where
  "partition_at sep s =
    (takeWhile (\<lambda>c. c \<noteq> sep) s, case dropWhile (\<lambda>c. c \<noteq> sep) s of [] \<Rightarrow> None | _ # r \<Rightarrow> Some r)"

fun unix_lines :: "string \<Rightarrow> string" where
  "unix_lines (a # b # s) = (if of_char a = (13 :: nat) \<and> of_char b = (10 :: nat) then b # unix_lines s else a # unix_lines (b # s))"
| "unix_lines s = s"

text \<open>\<open>int(s)\<close>: blanks around it, a sign, digits with single underscores between them, and no more digits than the interpreter's
  limit. \<^term>\<open>None\<close> is its \<open>ValueError\<close>.\<close>

fun int_digits :: "bool \<Rightarrow> int \<Rightarrow> string \<Rightarrow> int option" where
  "int_digits digit acc [] = (if digit then Some acc else None)"
| "int_digits digit acc (c # cs) =
     (if c = CHR ''_'' then (if digit then int_digits False acc cs else None)
      else if is_digit c then int_digits True (10 * acc + (int (of_char c) - 48)) cs else None)"

definition py_int :: "string \<Rightarrow> int option" where
  "py_int s = (if length (filter is_digit s) > INT_MAX_STR_DIGITS then None else case strip s of
     [] \<Rightarrow> None
   | c # r \<Rightarrow> if c = CHR ''-'' then map_option uminus (int_digits False 0 r)
              else if c = CHR ''+'' then int_digits False 0 r else int_digits False 0 (c # r))"

end
