(* ===== verification/Base64.thy ===== *)
theory Base64
  imports Bytes Text
begin

text \<open>
  The text encodings of bytes: URL-safe base64 without padding (\<open>b64url_decode\<close> of \<^verbatim>\<open>dsipvec/crypto.py\<close>), base58 and the
  \<open>did:key\<close> form of an Ed25519 key (\<open>b58_encode\<close>, \<open>b58_decode\<close>, \<open>did_key_from_public\<close>, \<open>public_from_did_key\<close>), and the pattern
  of a DID.
\<close>

section \<open>Base64\<close>

definition b64_value :: "char \<Rightarrow> nat option" where
  "b64_value c =
    (if uc_letter c then Some (of_char c - 65)
     else if lc_letter c then Some (of_char c - 97 + 26)
     else if is_digit c then Some (of_char c - 48 + 52)
     else if c = CHR ''-'' then Some 62
     else if c = CHR ''_'' then Some 63
     else None)"

definition b64_text :: "string \<Rightarrow> bool" where
  "b64_text x \<longleftrightarrow> list_all (\<lambda>c. b64_value c \<noteq> None) x \<and> length x mod 4 \<noteq> 1"

text \<open>The unused bits of the last character are dropped.\<close>

definition b64_bytes :: "string \<Rightarrow> bytes" where
  "b64_bytes x =
    (let bits = 6 * length x; n = foldl (\<lambda>n c. 64 * n + the (b64_value c)) 0 x
     in to_bytes (bits div 8) (drop_bit (bits mod 8) n))"

definition b64url_decode :: "string \<Rightarrow> bytes option" where
  "b64url_decode s = (if s = [] \<or> \<not> b64_text s then None else Some (b64_bytes s))"

section \<open>Base58\<close>

definition B58_ALPHABET :: string where
  "B58_ALPHABET = ''123456789ABCDEFGHJKLMNPQRSTUVWXYZabcdefghijkmnopqrstuvwxyz''"

text \<open>\<open>n.to_bytes((n.bit_length() + 7) // 8, "big")\<close>: as many bytes as the number needs.\<close>

function number_bytes :: "nat \<Rightarrow> bytes" where
  "number_bytes n = (if n = 0 then [] else number_bytes (n div 256) @ [word_of_nat (n mod 256)])"
  by auto
termination by (relation "measure id") auto

declare number_bytes.simps [simp del]

fun find_index :: "char \<Rightarrow> string \<Rightarrow> nat option" where
  "find_index c [] = None"
| "find_index c (d # ds) = (if c = d then Some 0 else map_option Suc (find_index c ds))"

fun b58_number :: "nat \<Rightarrow> string \<Rightarrow> nat option" where
  "b58_number n [] = Some n"
| "b58_number n (c # cs) = (case find_index c B58_ALPHABET of None \<Rightarrow> None | Some i \<Rightarrow> b58_number (58 * n + i) cs)"

definition b58_decode :: "string \<Rightarrow> bytes option" where
  "b58_decode s = map_option (\<lambda>n. replicate (length (takeWhile (\<lambda>c. c = CHR ''1'') s)) 0 @ number_bytes n) (b58_number 0 s)"

function b58_digits :: "nat \<Rightarrow> string" where
  "b58_digits n = (if n = 0 then [] else b58_digits (n div 58) @ [B58_ALPHABET ! (n mod 58)])"
  by auto
termination by (relation "measure id") auto

declare b58_digits.simps [simp del]

definition b58_encode :: "bytes \<Rightarrow> string" where
  "b58_encode data = replicate (length (takeWhile (\<lambda>b. b = 0) data)) CHR ''1'' @ b58_digits (from_bytes data)"

definition ED25519_PUB_MULTICODEC :: bytes where
  "ED25519_PUB_MULTICODEC = [0xED, 0x01]"

definition did_key_from_public :: "bytes \<Rightarrow> string" where
  "did_key_from_public pub = ''did:key:z'' @ b58_encode (ED25519_PUB_MULTICODEC @ pub)"

definition multicodec_key :: "bytes \<Rightarrow> bytes option" where
  "multicodec_key raw = (if take 2 raw \<noteq> ED25519_PUB_MULTICODEC \<or> length raw \<noteq> 34 then None else Some (drop 2 raw))"

definition public_from_did_key :: "string \<Rightarrow> bytes option" where
  "public_from_did_key did =
    (if \<not> startswith did ''did:key:z'' then None else Option.bind (b58_decode (drop 9 did)) multicodec_key)"

section \<open>DIDs\<close>

definition is_did :: "string \<Rightarrow> bool" where
  "is_did d \<longleftrightarrow> startswith d ''did:'' \<and>
     (let method = takeWhile (\<lambda>c. c \<noteq> CHR '':'') (drop 4 d); rest = dropWhile (\<lambda>c. c \<noteq> CHR '':'') (drop 4 d)
      in method \<noteq> [] \<and> list_all (\<lambda>c. lc_letter c \<or> is_digit c) method
        \<and> rest \<noteq> [] \<and> tl rest \<noteq> [] \<and> list_all (\<lambda>c. is_alnum c \<or> c \<in> set ''.%_:-'') (tl rest))"

section \<open>A key reads back from its did:key\<close>

lemma find_index_nth: "i < 58 \<Longrightarrow> find_index (B58_ALPHABET ! i) B58_ALPHABET = Some i"
proof -
  assume "i < 58"
  moreover have "list_all (\<lambda>i. find_index (B58_ALPHABET ! i) B58_ALPHABET = Some i) [0..<58]" by code_simp
  ultimately show ?thesis by (simp only: list_all_iff set_upt atLeastLessThan_iff) simp
qed

lemma b58_number_append: "b58_number n (s @ t) = Option.bind (b58_number n s) (\<lambda>m. b58_number m t)"
  by (induction s arbitrary: n) (auto split: option.splits)

lemma b58_number_digits: "b58_number 0 (b58_digits n) = Some n"
proof (induction n rule: b58_digits.induct)
  case (1 n)
  show ?case
  proof (cases "n = 0")
    case False
    then have "b58_number 0 (b58_digits n) = b58_number (n div 58) [B58_ALPHABET ! (n mod 58)]"
      using 1 by (simp add: b58_digits.simps [of n] b58_number_append)
    then show ?thesis by (simp add: find_index_nth)
  qed (simp add: b58_digits.simps)
qed

lemma number_bytes_from: "b = [] \<or> hd b \<noteq> 0 \<Longrightarrow> number_bytes (from_bytes b) = b"
proof (induction b rule: rev_induct)
  case Nil
  show ?case by (simp add: number_bytes.simps)
next
  case (snoc x b)
  show ?case
  proof (cases "b = []")
    case True
    have x: "unat x \<noteq> 0" using snoc.prems True by (simp add: unat_eq_0)
    have "from_bytes [x] = unat x" using from_bytes_snoc [of "[]" x] by simp
    moreover have "number_bytes 0 = []" by (subst number_bytes.simps) simp
    then have "number_bytes (unat x) = [x]" using x byte_bound [of x] by (subst number_bytes.simps) simp
    ultimately show ?thesis using True by simp
  next
    case False
    then have hd: "hd b \<noteq> 0" using snoc.prems by simp
    have "from_bytes b \<noteq> 0"
    proof
      assume "from_bytes b = 0"
      then have "number_bytes 0 = b" using snoc.IH hd by simp
      then show False using False by (simp add: number_bytes.simps)
    qed
    then have "number_bytes (from_bytes (b @ [x])) = number_bytes (from_bytes b) @ [x]"
      using byte_bound [of x] by (subst number_bytes.simps) (simp add: div_add1_eq)
    then show ?thesis using snoc.IH hd by simp
  qed
qed

lemma first_digit: "0 < n \<Longrightarrow> hd (b58_digits n) \<noteq> CHR ''1'' \<and> b58_digits n \<noteq> []"
proof (induction n rule: b58_digits.induct)
  case (1 n)
  show ?case
  proof (cases "n div 58 = 0")
    case True
    then have n: "0 < n" "n < 58" using 1 by auto
    have "list_all (\<lambda>i. i = 0 \<or> B58_ALPHABET ! i \<noteq> CHR ''1'') [0..<58]" by code_simp
    then have all: "\<forall>i\<in>{0..<58}. i = 0 \<or> B58_ALPHABET ! i \<noteq> CHR ''1''" by (simp only: list_all_iff set_upt)
    have "n \<in> {0..<58}" using n by simp
    from bspec [OF all this] have "B58_ALPHABET ! n \<noteq> CHR ''1''" using n(1) by (elim disjE) simp_all
    then show ?thesis using n by (simp add: b58_digits.simps [of n] b58_digits.simps [of 0])
  next
    case False
    then show ?thesis using 1 by (auto simp: b58_digits.simps [of n])
  qed
qed

text \<open>
  An Ed25519 key reads back from its \<open>did:key\<close>: base58 encoding of the prefixed key, the code's divisions by 58, is undone by the
  decoder.
\<close>

theorem did_key_roundtrip: "length pub = 32 \<Longrightarrow> public_from_did_key (did_key_from_public pub) = Some pub"
proof -
  assume pub: "length pub = 32"
  define data where "data = ED25519_PUB_MULTICODEC @ pub"
  have data: "hd data = 0xED" "data \<noteq> []" by (simp_all add: data_def ED25519_PUB_MULTICODEC_def)
  then have tw: "takeWhile (\<lambda>b. b = 0) data = []" by (cases data) simp_all
  have nb: "number_bytes (from_bytes data) = data" by (rule number_bytes_from) (simp add: data)
  then have pos: "0 < from_bytes data" using data(2) by (cases "from_bytes data") (simp_all add: number_bytes.simps [of 0])
  note first = first_digit [OF pos]
  then have "takeWhile (\<lambda>c. c = CHR ''1'') (b58_digits (from_bytes data)) = []" by (cases "b58_digits (from_bytes data)") auto
  then have "b58_decode (b58_encode data) = Some data"
    by (simp add: b58_decode_def b58_encode_def tw b58_number_digits nb)
  moreover have "multicodec_key data = Some pub" using pub by (simp add: multicodec_key_def data_def ED25519_PUB_MULTICODEC_def)
  ultimately show ?thesis
    by (simp add: public_from_did_key_def did_key_from_public_def startswith_def flip: data_def)
qed

end
