(* ===== verification/Kt.thy ===== *)
theory Kt
  imports Kt_Hash Base64
begin

text \<open>
  \<^verbatim>\<open>dsipvec/kt.py\<close>: the normal form of an alias, the VRF input, the bytes of a Configuration, the signature of a tree head, and
  the decisions of the alias queries, monitors, heads and lookup results. The signature check and SHA-256 are parameters. Text
  is a list of characters; the code's tests on characters refuse every character outside ASCII. A key that the code writes as
  hexadecimal text is its bytes here.
\<close>

section \<open>Aliases\<close>

text \<open>The label pattern: letters, digits and inner hyphens, at most 63 of them.\<close>

definition is_label :: "string \<Rightarrow> bool" where
  "is_label l \<longleftrightarrow> l \<noteq> [] \<and> length l \<le> 63 \<and> is_alnum (hd l) \<and> is_alnum (last l) \<and> list_all (\<lambda>c. is_alnum c \<or> c = CHR ''-'') l"

definition is_local :: "string \<Rightarrow> bool" where
  "is_local l \<longleftrightarrow> l \<noteq> [] \<and> list_all (\<lambda>c. 0x21 \<le> (of_char c :: nat) \<and> of_char c \<le> (0x7E :: nat) \<and> c \<noteq> CHR ''@'') l"

definition is_domain :: "string \<Rightarrow> bool" where
  "is_domain d \<longleftrightarrow> 2 \<le> length (split CHR ''.'' d) \<and> list_all is_label (split CHR ''.'' d)"

definition normalize_alias :: "string \<Rightarrow> string option" where
  "normalize_alias a =
    (if lower (take 4 a) = ''tel:''
     then
       (let rest = drop 4 a
        in if \<not> startswith rest ''+'' then None
           else
             (let digits = filter (\<lambda>c. c \<notin> set ''-.()'') (tl rest)
              in if digits \<noteq> [] \<and> char_in CHR ''1'' CHR ''9'' (hd digits) \<and> list_all is_digit digits
                   \<and> 2 \<le> length digits \<and> length digits \<le> 15 \<and> list_all (\<lambda>c. c \<in> set ''0123456789-.()'') (tl rest)
                 then Some (''tel:+'' @ digits) else None))
     else if CHR ''@'' \<notin> set a then None
     else
       (let (local, domain) = rpartition CHR ''@'' a
        in if \<not> is_local local then None
           else if \<not> is_domain domain then None
           else
             (let out = local @ ''@'' @ lower domain
              in if length out \<le> 255 then Some out else None)))"

lemma punctuation: "lower_char c = CHR ''.'' \<longleftrightarrow> c = CHR ''.''" "lower_char c = CHR ''-'' \<longleftrightarrow> c = CHR ''-''"
  "lower_char c = CHR ''@'' \<longleftrightarrow> c = CHR ''@''"
  by (rule lower_char_eq; simp add: lc_letter_def uc_letter_def char_in_def)+

lemma is_alnum_lower [simp]: "is_alnum (lower_char c) = is_alnum c"
  by (auto simp: is_alnum_def lower_char_classes)

lemma split_lower: "split CHR ''.'' (lower s) = map lower (split CHR ''.'' s)"
  by (induction s) (auto simp: lower_def punctuation split: list.splits)

lemma is_label_lower [simp]: "is_label (lower l) = is_label l"
  by (auto simp: is_label_def lower_def list_all_iff punctuation hd_map last_map)

lemma split_members: "c \<in> set s \<Longrightarrow> c \<noteq> sep \<Longrightarrow> \<exists>p\<in>set (split sep s). c \<in> set p"
  by (induction s) (auto split: list.splits)

lemma rpartition_sound: "c \<in> set s \<Longrightarrow> rpartition c s = (x, y) \<Longrightarrow> s = x @ c # y"
proof -
  assume c: "c \<in> set s" and r: "rpartition c s = (x, y)"
  then obtain t where d: "dropWhile (\<lambda>x. x \<noteq> c) (rev s) = c # t"
    by (metis (mono_tags, lifting) dropWhile_eq_Nil_conv hd_dropWhile list.exhaust_sel set_rev)
  have "rev s = takeWhile (\<lambda>x. x \<noteq> c) (rev s) @ c # t" by (simp flip: d)
  then have "s = rev t @ c # rev (takeWhile (\<lambda>x. x \<noteq> c) (rev s))" by (metis append_assoc append_Cons append_Nil rev.simps rev_append rev_rev_ident)
  then show ?thesis using r c d by (auto simp: rpartition_def)
qed

lemma tel_form:
  assumes "digits \<noteq> []" "char_in CHR ''1'' CHR ''9'' (hd digits)" "list_all is_digit digits" "2 \<le> length digits" "length digits \<le> 15"
  shows "normalize_alias (''tel:+'' @ digits) = Some (''tel:+'' @ digits)"
proof -
  have d: "c \<notin> set ''-.()'' \<and> c \<in> set ''0123456789-.()''" if "is_digit c" for c
  proof -
    have "of_char c \<in> set [48::nat..<58]" using that unfolding is_digit_def set_upt by simp
    then have "c \<in> set (map char_of [48::nat..<58])"
      unfolding set_map by (rule image_eqI [rotated]) simp
    moreover have "set (map char_of [48::nat..<58]) = set ''0123456789''" by code_simp
    ultimately have "c \<in> set ''0123456789''" by (simp only:)
    then show ?thesis by auto
  qed
  have dig: "is_digit c" if "c \<in> set digits" for c using assms(3) that by (simp add: list_all_iff)
  have "filter (\<lambda>c. c \<notin> set ''-.()'') digits = digits" by (rule filter_True) (use d dig in blast)
  moreover have "list_all (\<lambda>c. c \<in> set ''0123456789-.()'') digits" unfolding list_all_iff using d dig by blast
  moreover have "lower (take 4 (''tel:+'' @ digits)) = ''tel:''" "drop 4 (''tel:+'' @ digits) = CHR ''+'' # digits"
    "startswith (CHR ''+'' # digits) ''+''" by (simp_all add: startswith_def lower_def lower_char_def uc_letter_def char_in_def)
  ultimately show ?thesis using assms unfolding normalize_alias_def Let_def by (simp only: if_True list.sel simp_thms if_False)
qed

lemma normalize_address:
  assumes "lower (take 4 a) \<noteq> ''tel:''" "a = loc @ CHR ''@'' # dm" "CHR ''@'' \<notin> set dm"
  shows "normalize_alias a = (if is_local loc \<and> is_domain dm \<and> length a \<le> 255 then Some (loc @ CHR ''@'' # lower dm) else None)"
proof -
  have "length (lower dm) = length dm" by (simp add: lower_def)
  moreover have "CHR ''@'' \<in> set a" "rpartition CHR ''@'' a = (loc, dm)"
    using rpartition_dot [OF assms(3)] by (auto simp: assms(2))
  ultimately show ?thesis using assms(1) unfolding normalize_alias_def by (simp add: Let_def assms(2))
qed

lemma is_domain_lower [simp]: "is_domain (lower d) = is_domain d"
  by (simp add: is_domain_def split_lower list_all_length)

lemma is_domain_no_at: "is_domain d \<Longrightarrow> CHR ''@'' \<notin> set d"
  using split_members [of "CHR ''@''" d "CHR ''.''"]
  by (fastforce simp: is_domain_def list_all_iff is_label_def is_alnum_def lc_letter_def uc_letter_def char_in_def)

lemma address_form:
  assumes "normalize_alias a = Some n" "lower (take 4 a) \<noteq> ''tel:''"
  shows "normalize_alias n = Some n"
proof -
  obtain loc dm where r: "rpartition CHR ''@'' a = (loc, dm)" by force
  have at: "CHR ''@'' \<in> set a" and dm: "is_domain dm"
    using assms r by (auto simp: normalize_alias_def Let_def split: if_splits)
  have a: "a = loc @ CHR ''@'' # dm" by (rule rpartition_sound [OF at r])
  note na = normalize_address [OF assms(2) a is_domain_no_at [OF dm]]
  have n: "is_local loc" "n = loc @ CHR ''@'' # lower dm" "length a \<le> 255"
    using assms(1) unfolding na by (simp_all split: if_splits)
  have low: "lower (x @ CHR ''@'' # y) = lower x @ CHR ''@'' # lower y" "lower (lower y) = lower y" for x y
    by (simp_all add: lower_def comp_def punctuation(3) [THEN iffD2])
  have "lower (take 4 n) = lower (take 4 a)" using low by (metis a n(2) lower_def take_map)
  then have "lower (take 4 n) \<noteq> ''tel:''" using assms(2) by simp
  note nn = normalize_address [OF this n(2)]
  have "is_domain (lower dm)" "length n \<le> 255" using dm n(3) unfolding n(2) a by (simp_all, simp add: lower_def)
  then show ?thesis using nn n(1,2) is_domain_no_at [of "lower dm"] by (simp only: low(2) if_True simp_thms)
qed

text \<open>Normalizing an alias is idempotent: the normal form of an alias, an address or a telephone number, is its own normal form.\<close>

theorem normal_alias_stands: "normalize_alias a = Some n \<Longrightarrow> normalize_alias n = Some n"
proof (cases "lower (take 4 a) = ''tel:''")
  case True
  assume a: "normalize_alias a = Some n"
  define digits where "digits = filter (\<lambda>c. c \<notin> set ''-.()'') (tl (drop 4 a))"
  have "n = ''tel:+'' @ digits \<and> digits \<noteq> [] \<and> char_in CHR ''1'' CHR ''9'' (hd digits) \<and> list_all is_digit digits
      \<and> 2 \<le> length digits \<and> length digits \<le> 15"
    using a unfolding normalize_alias_def Let_def digits_def [symmetric] if_P [OF True] by (simp only: option.simps split: if_splits) simp_all
  then show ?thesis using tel_form by simp
qed (rule address_form)

theorem normal_alias_stands_witness:
  "normalize_alias ''TEL:+1-(212)5'' = Some ''tel:+12125'' \<and> normalize_alias ''tel:+12125'' = Some ''tel:+12125''"
proof -
  have "normalize_alias ''TEL:+1-(212)5'' = Some ''tel:+12125''" by code_simp
  with normal_alias_stands [OF this] show ?thesis by simp
qed

section \<open>The Configuration\<close>

definition u8 :: "nat \<Rightarrow> bytes option" where
  "u8 n = (if n < 256 then Some (to_bytes 1 n) else None)"

definition u16 :: "nat \<Rightarrow> bytes option" where
  "u16 n = (if n < 256 ^ 2 then Some (to_bytes 2 n) else None)"

definition u32 :: "nat \<Rightarrow> bytes option" where
  "u32 n = (if n < 256 ^ 4 then Some (to_bytes 4 n) else None)"

definition u64 :: "nat \<Rightarrow> bytes option" where
  "u64 n = (if n < 256 ^ 8 then Some (to_bytes 8 n) else None)"

text \<open>The bytes the VRF is evaluated on; a long label or version raises.\<close>

definition vrf_input :: "bytes \<Rightarrow> nat \<Rightarrow> bytes option" where
  "vrf_input label version =
    (if length label > 255 \<or> version > 0xFFFFFFFF then None
     else (case (u8 (length label), u32 version) of (Some l, Some v) \<Rightarrow> Some (l @ label @ v) | _ \<Rightarrow> None))"

definition SUITE :: nat where "SUITE = 2"
definition MODE :: nat where "MODE = 1"

record config =
  signature_public_key :: bytes
  vrf_public_key :: bytes
  max_ahead :: nat
  max_behind :: nat
  reasonable_monitoring_window :: nat
  maximum_lifetime :: "nat option"

text \<open>The fields joined, in the code's order; a field that does not fit its width raises.\<close>

definition join :: "bytes option list \<Rightarrow> bytes option" where
  "join xs = (if None \<in> set xs then None else Some (concat (map the xs)))"

definition configuration :: "nat \<Rightarrow> nat \<Rightarrow> config \<Rightarrow> bytes option" where
  "configuration ciphersuite mode c =
    join [u16 ciphersuite, u8 mode, u16 (length (signature_public_key c)), Some (signature_public_key c),
      u16 (length (vrf_public_key c)), Some (vrf_public_key c),
      u64 (max_ahead c), u64 (max_behind c), u64 (reasonable_monitoring_window c),
      (case maximum_lifetime c of None \<Rightarrow> Some [0] | Some l \<Rightarrow> join [Some [1], u64 l])]"

text \<open>\<open>take\<close>: the next \<open>n\<close> bytes and the rest, or \<open>malformed\<close>.\<close>

definition take_n :: "nat \<Rightarrow> bytes \<Rightarrow> (bytes \<Rightarrow> bytes \<Rightarrow> string + 'a) \<Rightarrow> string + 'a" where
  "take_n n b k = (if length b < n then Inl ''malformed'' else k (take n b) (drop n b))"

text \<open>The last checks, the durations and their flag, the two keys, and the whole parser.\<close>

definition finish :: "bytes \<Rightarrow> bytes \<Rightarrow> bytes list \<Rightarrow> nat option \<Rightarrow> bytes \<Rightarrow> string + config" where
  "finish k1 k2 ds life b =
    (if b \<noteq> [] then Inl ''malformed''
     else if length k1 \<noteq> 32 \<or> length k2 \<noteq> 32 \<or> list_ex (\<lambda>x. x > 2 ^ 53 - 1) (map from_bytes ds @ [case life of None \<Rightarrow> 0 | Some l \<Rightarrow> l])
     then Inl ''malformed''
     else Inr \<lparr>signature_public_key = k1, vrf_public_key = k2, max_ahead = from_bytes (ds ! 0), max_behind = from_bytes (ds ! 1),
       reasonable_monitoring_window = from_bytes (ds ! 2), maximum_lifetime = life\<rparr>)"

definition parse_durations :: "bytes \<Rightarrow> bytes \<Rightarrow> bytes \<Rightarrow> string + config" where
  "parse_durations k1 k2 b =
    take_n 8 b (\<lambda>ahead b. take_n 8 b (\<lambda>behind b. take_n 8 b (\<lambda>rmw b. take_n 1 b (\<lambda>flag b.
      if from_bytes flag \<noteq> 0 \<and> from_bytes flag \<noteq> 1 then Inl ''malformed''
      else if from_bytes flag = 1 then take_n 8 b (\<lambda>life. finish k1 k2 [ahead, behind, rmw] (Some (from_bytes life)))
      else finish k1 k2 [ahead, behind, rmw] None b))))"

definition parse_keys :: "bytes \<Rightarrow> string + config" where
  "parse_keys b =
    take_n 2 b (\<lambda>n b. take_n (from_bytes n) b (\<lambda>k1 b. take_n 2 b (\<lambda>n b. take_n (from_bytes n) b (\<lambda>k2 b. parse_durations k1 k2 b))))"

definition parse_configuration :: "bytes \<Rightarrow> string + config" where
  "parse_configuration b =
    take_n 2 b (\<lambda>suite b. take_n 1 b (\<lambda>mode b.
      if from_bytes suite \<noteq> SUITE then Inl ''unsupported-suite''
      else if from_bytes mode \<noteq> MODE then Inl ''unsupported-mode''
      else parse_keys b))"

text \<open>The Configurations the profile takes: 32-byte keys and durations that JSON numbers carry exactly.\<close>

definition config_ok :: "config \<Rightarrow> bool" where
  "config_ok c \<longleftrightarrow> length (signature_public_key c) = 32 \<and> length (vrf_public_key c) = 32
     \<and> max_ahead c < 2 ^ 53 \<and> max_behind c < 2 ^ 53 \<and> reasonable_monitoring_window c < 2 ^ 53
     \<and> (\<forall>l. maximum_lifetime c = Some l \<longrightarrow> l < 2 ^ 53)"

lemma take_nE: "take_n n b k = Inr x \<Longrightarrow> (\<And>a r. b = a @ r \<Longrightarrow> length a = n \<Longrightarrow> k a r = Inr x \<Longrightarrow> P) \<Longrightarrow> P"
  unfolding take_n_def by (metis append_take_drop_id length_take min.absorb2 not_le sum.distinct(1))

lemma parse_fields:
  assumes "length s = 2" "length m = 1" "length l1 = 2" "length k1 = from_bytes l1" "length l2 = 2" "length k2 = from_bytes l2"
    "length a = 8" "length h = 8" "length w = 8" "length f = 1" "from_bytes s = SUITE" "from_bytes m = MODE"
  shows "parse_configuration (s @ m @ l1 @ k1 @ l2 @ k2 @ a @ h @ w @ f @ r) =
    (if from_bytes f = 0 then finish k1 k2 [a, h, w] None r
     else if from_bytes f = 1 then take_n 8 r (\<lambda>l. finish k1 k2 [a, h, w] (Some (from_bytes l)))
     else Inl ''malformed'')"
  using assms by (auto simp: parse_configuration_def parse_keys_def parse_durations_def take_n_def)

lemma parse_written:
  assumes "config_ok c" "configuration SUITE MODE c = Some b"
  shows "parse_configuration b = Inr c"
proof -
  have big: "(2 :: nat) ^ 53 \<le> 256 ^ 8" by simp
  note ok = assms(1) [unfolded config_ok_def]
  have ft: "n < 2 ^ 53 \<Longrightarrow> from_bytes (to_bytes 8 n) = n" for n using big by (intro from_to_bytes) simp
  have lits: "from_bytes (to_bytes 2 32) = 32" "from_bytes (to_bytes 2 SUITE) = SUITE" "from_bytes (to_bytes 1 MODE) = MODE"
    by (rule from_to_bytes; simp add: SUITE_def MODE_def)+
  define last where "last = (case maximum_lifetime c of None \<Rightarrow> Some [0] | Some l \<Rightarrow> join [Some [1], u64 l])"
  obtain t where t: "last = Some t"
    using assms(2) unfolding configuration_def last_def [symmetric] by (cases last) (auto simp: join_def)
  have b: "b = to_bytes 2 SUITE @ to_bytes 1 MODE @ to_bytes 2 32 @ signature_public_key c @ to_bytes 2 32 @ vrf_public_key c
      @ to_bytes 8 (max_ahead c) @ to_bytes 8 (max_behind c) @ to_bytes 8 (reasonable_monitoring_window c) @ t"
    using assms(2) ok unfolding configuration_def last_def [symmetric] t
    by (auto simp: join_def u8_def u16_def u64_def split: if_splits)
  have fields: "parse_configuration (to_bytes 2 SUITE @ to_bytes 1 MODE @ to_bytes 2 32 @ signature_public_key c @ to_bytes 2 32
      @ vrf_public_key c @ to_bytes 8 (max_ahead c) @ to_bytes 8 (max_behind c) @ to_bytes 8 (reasonable_monitoring_window c) @ [f] @ r) =
    (let ds = [to_bytes 8 (max_ahead c), to_bytes 8 (max_behind c), to_bytes 8 (reasonable_monitoring_window c)] in
     if unat f = 0 then finish (signature_public_key c) (vrf_public_key c) ds None r
     else if unat f = 1 then take_n 8 r (\<lambda>l. finish (signature_public_key c) (vrf_public_key c) ds (Some (from_bytes l)))
     else Inl ''malformed'')" for f r
    unfolding Let_def by (subst parse_fields) (use ok in \<open>simp_all add: lits lits(3) [unfolded One_nat_def] from_bytes_Cons del: to_bytes.simps\<close>)
  show ?thesis
  proof (cases "maximum_lifetime c")
    case None
    then have "t = [0] @ []" using t by (simp add: last_def)
    then have b': "parse_configuration b = finish (signature_public_key c) (vrf_public_key c)
        [to_bytes 8 (max_ahead c), to_bytes 8 (max_behind c), to_bytes 8 (reasonable_monitoring_window c)] None []"
      unfolding b by (simp only: fields Let_def) simp
    show ?thesis unfolding b' finish_def using ok None by (simp add: ft del: to_bytes.simps)
  next
    case (Some l)
    then have "t = [1] @ to_bytes 8 l" using t by (auto simp: last_def join_def u64_def split: if_splits)
    then have b': "parse_configuration b = finish (signature_public_key c) (vrf_public_key c)
        [to_bytes 8 (max_ahead c), to_bytes 8 (max_behind c), to_bytes 8 (reasonable_monitoring_window c)] (Some (from_bytes (to_bytes 8 l))) []"
      unfolding b by (simp only: fields Let_def) (simp add: take_n_def del: to_bytes.simps)
    show ?thesis unfolding b' finish_def using ok Some by (simp add: ft del: to_bytes.simps)
  qed
qed

lemma field: "length a = w \<Longrightarrow> to_bytes w (from_bytes a) = a \<and> from_bytes a < 256 ^ w"
  using to_from_bytes [of a] from_bytes_bound [of a] by auto

lemma finish_ok:
  "finish k1 k2 ds life b = Inr c \<longleftrightarrow> b = [] \<and> config_ok c \<and>
    c = \<lparr>signature_public_key = k1, vrf_public_key = k2, max_ahead = from_bytes (ds ! 0), max_behind = from_bytes (ds ! 1),
       reasonable_monitoring_window = from_bytes (ds ! 2), maximum_lifetime = life\<rparr>" if len: "length ds = 3"
proof -
  obtain x y z where "ds = [x, y, z]" using len by (auto simp: numeral_3_eq_3 length_Suc_conv)
  then show ?thesis by (auto simp: finish_def config_ok_def not_less less_eq_Suc_le split: option.splits)
qed

lemma durations_written:
  assumes "parse_durations k1 k2 b = Inr c"
  shows "config_ok c \<and> signature_public_key c = k1 \<and> vrf_public_key c = k2 \<and>
    join [u64 (max_ahead c), u64 (max_behind c), u64 (reasonable_monitoring_window c),
      (case maximum_lifetime c of None \<Rightarrow> Some [0] | Some l \<Rightarrow> join [Some [1], u64 l])] = Some b"
  using assms unfolding parse_durations_def
proof (elim take_nE)
  fix a r h r2 w r3 f r4
  assume b: "b = a @ r" "length a = 8" "r = h @ r2" "length h = 8" "r2 = w @ r3" "length w = 8" "r3 = f @ r4" "length f = 1"
    and p: "(if from_bytes f \<noteq> 0 \<and> from_bytes f \<noteq> 1 then Inl ''malformed''
      else if from_bytes f = 1 then take_n 8 r4 (\<lambda>life. finish k1 k2 [a, h, w] (Some (from_bytes life)))
      else finish k1 k2 [a, h, w] None r4) = Inr c"
  note fs = field [OF b(2)] field [OF b(4)] field [OF b(6)]
  obtain x where f: "f = [x]" using b(8) by (auto simp: length_Suc_conv)
  have zero: "x = 0 \<longleftrightarrow> unat x = 0" "x = 1 \<longleftrightarrow> unat x = 1" by (simp_all add: word_unat_eq_iff)
  show ?thesis
  proof (cases "from_bytes f = 1")
    case True
    then have "take_n 8 r4 (\<lambda>life. finish k1 k2 [a, h, w] (Some (from_bytes life))) = Inr c" using p by simp
    then obtain l where "r4 = l" "length l = 8" and c: "config_ok c"
        "c = \<lparr>signature_public_key = k1, vrf_public_key = k2, max_ahead = from_bytes a, max_behind = from_bytes h,
          reasonable_monitoring_window = from_bytes w, maximum_lifetime = Some (from_bytes l)\<rparr>"
      by (elim take_nE) (auto simp: finish_ok)
    then show ?thesis using fs field [of l 8] True zero b by (simp add: join_def u64_def f from_bytes_Cons del: to_bytes.simps)
  next
    case False
    then have f0: "from_bytes f = 0" and "finish k1 k2 [a, h, w] None r4 = Inr c" using p by (auto split: if_splits)
    then have c: "r4 = []" "config_ok c" "c = \<lparr>signature_public_key = k1, vrf_public_key = k2, max_ahead = from_bytes a,
          max_behind = from_bytes h, reasonable_monitoring_window = from_bytes w, maximum_lifetime = None\<rparr>"
      by (auto simp: finish_ok)
    then show ?thesis using f0 fs zero b by (simp add: join_def u64_def f from_bytes_Cons del: to_bytes.simps)
  qed
qed

lemma written_parsed:
  assumes "parse_configuration b = Inr c"
  shows "config_ok c \<and> configuration SUITE MODE c = Some b"
  using assms unfolding parse_configuration_def
proof (elim take_nE)
  fix s r m r2
  assume b: "b = s @ r" "length s = 2" "r = m @ r2" "length m = 1"
    and p: "(if from_bytes s \<noteq> SUITE then Inl ''unsupported-suite'' else if from_bytes m \<noteq> MODE then Inl ''unsupported-mode'' else parse_keys r2) = Inr c"
  then have sm: "from_bytes s = SUITE" "from_bytes m = MODE" and "parse_keys r2 = Inr c" by (auto split: if_splits)
  from this(3) show ?thesis unfolding parse_keys_def
  proof (elim take_nE)
    fix n1 r3 k1 r4 n2 r5 k2 r6
    assume k: "r2 = n1 @ r3" "length n1 = 2" "r3 = k1 @ r4" "length k1 = from_bytes n1" "r4 = n2 @ r5" "length n2 = 2"
      "r5 = k2 @ r6" "length k2 = from_bytes n2" and d: "parse_durations k1 k2 r6 = Inr c"
    note d = durations_written [OF d]
    have "to_bytes 2 SUITE = s" "to_bytes 1 MODE = m" "to_bytes 2 (length k1) = n1" "to_bytes 2 (length k2) = n2"
      using field [OF b(2)] field [OF b(4)] field [OF k(2)] field [OF k(6)] by (simp_all only: sm k(4,8))
    moreover have "SUITE < 256 ^ 2" "MODE < 256" "length k1 < 256 ^ 2" "length k2 < 256 ^ 2"
      using field [OF k(2)] field [OF k(6)] by (simp_all add: k(4,8) SUITE_def MODE_def)
    ultimately show ?thesis using d b k
      by (auto simp: configuration_def join_def u8_def u16_def split: if_splits)
  qed
qed

interpretation configuration: codec "\<lambda>c. if config_ok c then configuration SUITE MODE c else None"
  "\<lambda>b. case parse_configuration b of Inl e \<Rightarrow> None | Inr c \<Rightarrow> Some c"
proof unfold_locales
  fix b c
  have "(case parse_configuration b of Inl e \<Rightarrow> None | Inr c \<Rightarrow> Some c) = Some c \<longleftrightarrow> parse_configuration b = Inr c"
    by (simp split: sum.splits)
  also have "\<dots> \<longleftrightarrow> config_ok c \<and> configuration SUITE MODE c = Some b" using parse_written written_parsed by blast
  finally show "(case parse_configuration b of Inl e \<Rightarrow> None | Inr c \<Rightarrow> Some c) = Some c
    \<longleftrightarrow> (if config_ok c then configuration SUITE MODE c else None) = Some b" by simp
qed

text \<open>C35: A Configuration parses exactly when it is the encoding, for the profile's suite and mode, of two 32-byte keys and durations
  below 2^53, and to those values: the parser accepts no second form, no truncation and no trailing byte.
\<close>

theorem configuration_codec:
  "parse_configuration b = Inr c \<longleftrightarrow> config_ok c \<and> configuration SUITE MODE c = Some b"
  using parse_written written_parsed by blast

section \<open>Tree heads\<close>

text \<open>\<open>verify key message signature\<close> is the Ed25519 check. An unparsable Configuration raises its token, a large size struct's error.\<close>

definition tree_head_valid :: "(bytes \<Rightarrow> bytes \<Rightarrow> bytes \<Rightarrow> bool) \<Rightarrow> bytes \<Rightarrow> nat \<Rightarrow> bytes \<Rightarrow> bytes \<Rightarrow> string + bool" where
  "tree_head_valid verify config sz root signature =
    (case parse_configuration config of
       Inl e \<Rightarrow> Inl e
     | Inr cfg \<Rightarrow>
         (case u64 sz of
            None \<Rightarrow> Inl ''struct.error''
          | Some s \<Rightarrow> Inr (verify (signature_public_key cfg) (config @ s @ root) signature)))"

text \<open>URL-safe base64 without padding; unused bits of the last character are dropped.\<close>

definition b64url_strict :: "string \<Rightarrow> bytes option" where
  "b64url_strict x = (if \<not> b64_text x then None else Some (b64_bytes x))"

text \<open>A claim's members: None for one that is absent or not a string.\<close>

record head_claim =
  claim_type :: "string option"
  provider :: "string option"
  tree_head :: "string option"
  claimed_root :: "string option"

record held_head =
  tree_size :: nat
  held_root :: string

datatype head_outcome =
  Malformed
| UnknownLog
| BadSignature
| Fork nat string string
| Consistent nat
| NewHead nat

text \<open>\<open>th[:8]\<close>, \<open>th[8:10]\<close> and the signature; None when the claim's members are malformed.\<close>

definition read_head :: "head_claim \<Rightarrow> (nat \<times> bytes \<times> bytes) option" where
  "read_head c =
    (if claim_type c \<noteq> Some ''alias-log-head'' then None
     else if (case provider c of None \<Rightarrow> True | Some p \<Rightarrow> \<not> is_did p) then None
     else
       (case (Option.bind (tree_head c) b64url_strict, Option.bind (claimed_root c) b64url_strict) of
          (Some th, Some root) \<Rightarrow>
            if length root \<noteq> 32 \<or> length th < 10 then None
            else
              (let sz = from_bytes (take 8 th); n = from_bytes (take 2 (drop 8 th))
               in if length th \<noteq> 10 + n \<or> sz > 2 ^ 53 - 1 then None else Some (sz, root, drop 10 th))
        | _ \<Rightarrow> None))"

definition alias_head ::
  "(bytes \<Rightarrow> bytes \<Rightarrow> bytes \<Rightarrow> bool) \<Rightarrow> head_claim option \<Rightarrow> bytes option \<Rightarrow> held_head list \<Rightarrow> string + head_outcome"
where
  "alias_head verify claim config_bytes held =
    (case claim of
       None \<Rightarrow> Inr Malformed
     | Some c \<Rightarrow>
         (case read_head c of
            None \<Rightarrow> Inr Malformed
          | Some (sz, root, signature) \<Rightarrow>
              (case config_bytes of
                 None \<Rightarrow> Inr UnknownLog
               | Some config \<Rightarrow>
                   (case tree_head_valid verify config sz root signature of
                      Inl e \<Rightarrow> Inl e
                    | Inr False \<Rightarrow> Inr BadSignature
                    | Inr True \<Rightarrow>
                        (case find (\<lambda>h. tree_size h = sz) held of
                           None \<Rightarrow> Inr (NewHead sz)
                         | Some h \<Rightarrow>
                             if b64url_strict (held_root h) \<noteq> Some root then Inr (Fork sz (held_root h) (the (claimed_root c)))
                             else Inr (Consistent sz))))))"

section \<open>The provider's answers\<close>

record query =
  over_limit :: bool
  request :: string
  alias_name :: string
  exists :: bool
  visible :: bool
  authorized :: bool

definition alias_query :: "query \<Rightarrow> nat \<times> string" where
  "alias_query i =
    (if over_limit i then (429, ''rate-limited'')
     else if request i \<noteq> ''search'' \<and> request i \<noteq> ''monitor'' then (400, ''bad-request'')
     else if normalize_alias (alias_name i) = None then (400, ''alias-invalid'')
     else if request i = ''search'' \<and> exists i \<and> visible i then (200, ''search-response'')
     else if request i = ''monitor'' \<and> exists i \<and> authorized i then (200, ''monitor-response'')
     else (404, ''not-found''))"

definition alias_monitor :: "string \<Rightarrow> string list \<Rightarrow> string \<Rightarrow> string \<Rightarrow> string \<Rightarrow> string + string" where
  "alias_monitor prov values sender to al =
    (if to \<noteq> prov then Inl ''wrong-audience''
     else
       (case normalize_alias al of
          None \<Rightarrow> Inl ''alias-invalid''
        | Some label \<Rightarrow> if sender \<notin> set values then Inl ''not-owner'' else Inr label))"

text \<open>What a lookup counts as.\<close>

datatype lookup_result = NotFound | Unaudited string | Audited

definition alias_lookup_result :: "string \<Rightarrow> bool \<Rightarrow> string \<Rightarrow> nat option \<Rightarrow> nat \<Rightarrow> lookup_result" where
  "alias_lookup_result answer fork prf rightmost terminal =
    (if answer = ''not-found'' then NotFound
     else if fork then Unaudited ''fork''
     else if prf = ''unverifiable'' then Unaudited ''unverifiable''
     else
       (case rightmost of
          None \<Rightarrow> Unaudited ''pending''
        | Some rd \<Rightarrow> if terminal > rd then Unaudited ''pending'' else Audited))"

section \<open>What a consistent head means\<close>

lemma consistent_head:
  assumes "alias_head verify claim config_bytes held = Inr (Consistent n)"
  shows "\<exists>c h root sig config. claim = Some c \<and> read_head c = Some (n, root, sig) \<and> config_bytes = Some config
    \<and> tree_head_valid verify config n root sig = Inr True
    \<and> find (\<lambda>h. tree_size h = n) held = Some h \<and> b64url_strict (held_root h) = Some root"
  using assms by (auto simp: alias_head_def split: option.splits sum.splits bool.splits if_splits)

lemma forked_head:
  assumes "alias_head verify claim config_bytes held = Inr (Fork n hr cr)"
  shows "\<exists>c root sig config. claim = Some c \<and> read_head c = Some (n, root, sig) \<and> config_bytes = Some config
    \<and> tree_head_valid verify config n root sig = Inr True
    \<and> (\<exists>h\<in>set held. tree_size h = n \<and> held_root h = hr) \<and> b64url_strict hr \<noteq> Some root"
proof -
  have find: "find (\<lambda>h. tree_size h = n) held = Some h \<Longrightarrow> h \<in> set held \<and> tree_size h = n" for h
    by (metis (mono_tags) find_Some_iff nth_mem)
  show ?thesis
    using assms by (auto simp: alias_head_def dest!: find split: option.splits sum.splits bool.splits if_splits)
qed

lemma read_head_root: "read_head c = Some (n, root, sig) \<Longrightarrow> length root = 32 \<and> Option.bind (claimed_root c) b64url_strict = Some root"
proof -
  assume r: "read_head c = Some (n, root, sig)"
  then obtain th rt where b: "Option.bind (tree_head c) b64url_strict = Some th" "Option.bind (claimed_root c) b64url_strict = Some rt"
    unfolding read_head_def
    by (cases "Option.bind (tree_head c) b64url_strict"; cases "Option.bind (claimed_root c) b64url_strict") (simp_all only: option.case prod.case option.distinct split: if_splits)
  from r have "\<not> (length rt \<noteq> 32 \<or> length th < 10) \<and> root = rt"
    unfolding read_head_def b Let_def prod.case option.case by (simp only: option.inject prod.inject option.distinct simp_thms split: if_splits)
  then show ?thesis using b(2) by simp
qed

text \<open>C32: A head reported as consistent carries the provider's signature over its size and root, and if the log of the head held and
  the log of the claimed head, of that size, have those roots, then they are the same log, entry by entry, or their hashing shows
  two strings with one hash.
\<close>

theorem consistent_head_same_log:
  assumes "alias_head verify (Some c) (Some config) held = Inr (Consistent n)" "\<And>b. length (sha b) = 32"
    and "find (\<lambda>h. tree_size h = n) held = Some h"
    and "b64url_strict (held_root h) = log_root sha xs" "Option.bind (claimed_root c) b64url_strict = log_root sha ys"
    and "length xs = n" "length ys = n" "\<forall>l\<in>set xs \<union> set ys. length l = 32"
  shows "(\<exists>root sig. read_head c = Some (n, root, sig) \<and> tree_head_valid verify config n root sig = Inr True)
    \<and> (xs = ys \<or> collision sha (log_inputs sha xs \<union> log_inputs sha ys))"
proof -
  obtain root sig where r: "read_head c = Some (n, root, sig)" "tree_head_valid verify config n root sig = Inr True"
      "b64url_strict (held_root h) = Some root"
    using consistent_head [OF assms(1)] assms(3) by auto
  have "log_root sha xs = Some root" "log_root sha ys = Some root"
    using r(3) read_head_root [OF r(1)] assms(4,5) by auto
  with log_root_inject [of sha xs ys root] assms(2) r(1,2) assms(6-8) show ?thesis by auto
qed

theorem consistent_head_same_log_witness:
  "\<exists>config root sig.
    read_head \<lparr>claim_type = Some ''alias-log-head'', provider = Some ''did:key:z6Mk'', tree_head = Some ''AAAAAAAAAAEAAA'',
      claimed_root = Some (replicate 43 CHR ''A'')\<rparr> = Some (1, root, sig)
    \<and> tree_head_valid (\<lambda>key m sg. key = ZERO) config 1 root sig = Inr True"
proof -
  let ?verify = "\<lambda>key m sg. key = ZERO"
  let ?sha = "\<lambda>b. take 32 (b @ ZERO)"
  define c where "c = \<lparr>claim_type = Some ''alias-log-head'', provider = Some ''did:key:z6Mk'', tree_head = Some ''AAAAAAAAAAEAAA'',
      claimed_root = Some (replicate 43 CHR ''A'')\<rparr>"
  define cfg where "cfg = \<lparr>signature_public_key = ZERO, vrf_public_key = ZERO, max_ahead = 0, max_behind = 0,
      reasonable_monitoring_window = 0, maximum_lifetime = None\<rparr>"
  define h where "h = \<lparr>tree_size = 1, held_root = replicate 43 CHR ''A''\<rparr>"
  have z: "length ZERO = 32" by (simp add: ZERO_def)
  obtain config where cb: "configuration SUITE MODE cfg = Some config"
    by (simp add: configuration_def join_def u8_def u16_def u64_def SUITE_def MODE_def cfg_def z)
  have "config_ok cfg" by (simp add: config_ok_def cfg_def z)
  note parsed = parse_written [OF this cb]
  have valid: "tree_head_valid ?verify config 1 root sig = Inr True" for root sig
    by (simp add: tree_head_valid_def parsed u64_def cfg_def)
  have val: "b64_value CHR ''A'' = Some 0" "b64_value CHR ''E'' = Some 4"
    by (simp_all add: b64_value_def uc_letter_def char_in_def)
  have zeros: "to_bytes w 0 = replicate w 0" for w by (induction w) (simp_all add: replicate_append_same)
  have fold: "foldl (\<lambda>n c. 64 * n + the (b64_value c)) 0 (replicate k CHR ''A'') = 0" for k by (induction k) (simp_all add: val)
  have root: "b64url_strict (replicate 43 CHR ''A'') = Some ZERO"
    by (simp add: b64url_strict_def b64_text_def b64_bytes_def val fold zeros ZERO_def list_all_length)
  have "from_bytes [0, 0, 0, 0, 0, 0, 0, 1, 0, 0] = 65536" by (simp add: from_bytes_def)
  moreover have "length [0 :: 8 word, 0, 0, 0, 0, 0, 0, 1, 0, 0] = 10" by simp
  ultimately have "to_bytes 10 65536 = [0, 0, 0, 0, 0, 0, 0, 1, 0, 0]" by (metis to_from_bytes)
  then have th: "b64url_strict ''AAAAAAAAAAEAAA'' = Some [0, 0, 0, 0, 0, 0, 0, 1, 0, 0]"
    unfolding b64url_strict_def b64_text_def b64_bytes_def by (simp add: val drop_bit_eq_div del: to_bytes.simps)
  have did: "is_did ''did:key:z6Mk''" by code_simp
  have read: "read_head c = Some (1, ZERO, [])"
    by (simp add: read_head_def c_def root th z did from_bytes_def)
  have head: "alias_head ?verify (Some c) (Some config) [h] = Inr (Consistent 1)"
    by (simp add: alias_head_def read valid valid [unfolded One_nat_def] h_def root)
  have sha: "length (?sha b) = 32" for b by (simp add: z)
  have claims: "claimed_root c = Some (replicate 43 CHR ''A'')" by (simp add: c_def)
  have log: "log_root ?sha [ZERO] = Some ZERO" by (simp add: log_root_def log_node.simps)
  show ?thesis
    using consistent_head_same_log [where sha = ?sha and h = h and xs = "[ZERO]" and ys = "[ZERO]", OF head sha] log root z unfolding c_def [symmetric]
    by (force simp: h_def claims)
qed

end
