(* ===== verification/Json.thy ===== *)
theory Json
  imports Prelude
begin

text \<open>
  JSON values as \<open>json.loads\<close> returns them (of a float only whether it is zero), with Python's view of them: \<open>d.get(k)\<close>, \<open>isinstance(x, int)\<close> (a bool is an int),
  truth, and iteration, which raises on a number.
\<close>

datatype json =
    JNull
  | JBool bool
  | JInt int
  | JFloat bool
  | JStr string
  | JList "json list"
  | JDict "(string \<times> json) list"

definition jget :: "string \<Rightarrow> json \<Rightarrow> json option" where
  "jget k j = (case j of JDict d \<Rightarrow> dget d k | _ \<Rightarrow> None)"

definition is_dict :: "json \<Rightarrow> bool" where
  "is_dict j = (case j of JDict d \<Rightarrow> True | _ \<Rightarrow> False)"

definition jstr :: "json option \<Rightarrow> string option" where
  "jstr j = (case j of Some (JStr s) \<Rightarrow> Some s | _ \<Rightarrow> None)"

text \<open>\<open>isinstance(x, int)\<close> and its value; and an int that is no bool.\<close>

definition jnum :: "json option \<Rightarrow> int option" where
  "jnum j = (case j of Some (JInt n) \<Rightarrow> Some n | Some (JBool b) \<Rightarrow> Some (if b then 1 else 0) | _ \<Rightarrow> None)"

definition jint :: "json option \<Rightarrow> int option" where
  "jint j = (case j of Some (JInt n) \<Rightarrow> Some n | _ \<Rightarrow> None)"

definition jlist :: "json option \<Rightarrow> json list option" where
  "jlist j = (case j of Some (JList xs) \<Rightarrow> Some xs | _ \<Rightarrow> None)"

text \<open>\<open>for x in (j or [])\<close>: a falsy value has no elements, a text and a dict have texts; a true bool or number raises.\<close>

definition jiter :: "json option \<Rightarrow> json list option" where
  "jiter j = (case j of
     None \<Rightarrow> Some []
   | Some JNull \<Rightarrow> Some []
   | Some (JBool b) \<Rightarrow> if b then None else Some []
   | Some (JInt n) \<Rightarrow> if n = 0 then Some [] else None
   | Some (JFloat zero) \<Rightarrow> if zero then Some [] else None
   | Some (JStr s) \<Rightarrow> Some (map (\<lambda>c. JStr [c]) s)
   | Some (JList xs) \<Rightarrow> Some xs
   | Some (JDict d) \<Rightarrow> Some (map (\<lambda>(k, _). JStr k) d))"

lemma jstr_eq: "jstr j = Some s \<longleftrightarrow> j = Some (JStr s)"
  by (auto simp: jstr_def split: option.splits json.splits)

lemma jint_num: "jint j = Some n \<Longrightarrow> jnum j = Some n"
  by (auto simp: jint_def jnum_def split: option.splits json.splits)

lemma jlist_eq: "jlist j = Some xs \<longleftrightarrow> j = Some (JList xs)"
  by (auto simp: jlist_def split: option.splits json.splits)

end
