(* ===== verification/Envelope_Model.thy ===== *)
theory Envelope_Model
  imports Base64 Json Ulid
begin

text \<open>
  The verification of a signed envelope: \<^verbatim>\<open>dsipvec/envelope.py\<close> from \<open>split_kid\<close> to \<open>verify\<close>, with the parser of payloads
  (\<^verbatim>\<open>wire.py\<close>). The JSON decoder and the Ed25519 check are parameters, held in the record \<open>prims\<close>. A stage accepts, rejects
  with a code and a reason, or raises, where Python would iterate over a number or the JSON decoder would nest too deep.
\<close>

definition REPLAY_WINDOW_S :: int where "REPLAY_WINDOW_S = 300"
definition ENVELOPE_ULID_TOLERANCE_S :: int where "ENVELOPE_ULID_TOLERANCE_S = 300"
definition INTRODUCTION_MAX_VALIDITY_S :: int where "INTRODUCTION_MAX_VALIDITY_S = 604800"
definition HINT_MAX_VALIDITY_S :: int where "HINT_MAX_VALIDITY_S = 3600"
definition PRESENCE_MAX_VALIDITY_S :: int where "PRESENCE_MAX_VALIDITY_S = 3600"
definition WS_MAX_ENVELOPE_BYTES :: nat where "WS_MAX_ENVELOPE_BYTES = 65536"
definition SIGNALING_CAPABILITY :: string where "SIGNALING_CAPABILITY = ''dsip.signaling''"

datatype 'a res = Ok 'a | Rej string "string option" | Raises

fun rbind :: "'a res \<Rightarrow> ('a \<Rightarrow> 'b res) \<Rightarrow> 'b res" where
  "rbind (Ok x) f = f x"
| "rbind (Rej c r) f = Rej c r"
| "rbind Raises f = Raises"

text \<open>\<open>loads\<close> decodes UTF-8 and JSON: it fails with \<open>ValueError\<close> (rejected) or, on values nested too deep, with \<open>RecursionError\<close>
  (raised). \<open>loads_int\<close> decodes in a \<open>try\<close> that catches both, with the code of its failure, a float included.\<close>

record prims =
  loads :: "bytes \<Rightarrow> json res"
  loads_int :: "bytes \<Rightarrow> string + json"
  ed25519_verify :: "bytes \<Rightarrow> string \<Rightarrow> bytes \<Rightarrow> bool"

record context_ =
  cx_now :: int
  cx_documents :: "(string, json) dict"
  cx_delegations :: "json list"
  cx_seen :: "string set"
  cx_revocations :: "json list"

section \<open>Payloads\<close>

definition check_core_shape :: "json \<Rightarrow> bool" where
  "check_core_shape p \<longleftrightarrow>
     (case jget ''dsip'' p of None \<Rightarrow> False | Some d \<Rightarrow> is_dict d)
     \<and> jstr (jget ''type'' p) \<noteq> None
     \<and> (case jstr (jget ''id'' p) of None \<Rightarrow> False | Some i \<Rightarrow> ulid_valid i)
     \<and> (case jstr (jget ''from'' p) of None \<Rightarrow> False | Some d \<Rightarrow> is_did d)
     \<and> (case (jint (jget ''issued_at'' p), jint (jget ''expires_at'' p)) of (Some a, Some b) \<Rightarrow> 0 \<le> a \<and> 0 \<le> b | _ \<Rightarrow> False)"

definition parse_payload :: "prims \<Rightarrow> bytes \<Rightarrow> bool \<Rightarrow> json res" where
  "parse_payload P raw core =
    (case loads_int P raw of
       Inl code \<Rightarrow> Rej code None
     | Inr p \<Rightarrow>
         if \<not> is_dict p then Rej ''payload-not-json'' None
         else if core \<and> \<not> check_core_shape p then Rej ''payload-shape'' None
         else Ok p)"

section \<open>Resolution\<close>

definition split_kid :: "string \<Rightarrow> (string \<times> string) option" where
  "split_kid kid =
    (case partition_at CHR ''#'' kid of
       (did, Some frag) \<Rightarrow> if \<not> is_did did \<or> frag = [] then None else Some (did, frag)
     | _ \<Rightarrow> None)"

definition multibase_to_ed25519 :: "json option \<Rightarrow> bytes option" where
  "multibase_to_ed25519 mb =
    (case jstr mb of
       None \<Rightarrow> None
     | Some s \<Rightarrow> if \<not> startswith s ''z'' then None else Option.bind (b58_decode (tl s)) multicodec_key)"

text \<open>The first method that is named by the key id decides.\<close>

fun find_method :: "string \<Rightarrow> string \<Rightarrow> string \<Rightarrow> json list \<Rightarrow> bytes option" where
  "find_method kid did frag [] = None"
| "find_method kid did frag (vm # vms) =
    (if \<not> is_dict vm then find_method kid did frag vms
     else if jget ''id'' vm = Some (JStr kid) \<or> jget ''id'' vm = Some (JStr (CHR ''#'' # frag))
     then (if jget ''controller'' vm \<in> {None, Some JNull, Some (JStr did)} then multibase_to_ed25519 (jget ''publicKeyMultibase'' vm) else None)
     else find_method kid did frag vms)"

definition resolve_kid :: "string \<Rightarrow> context_ \<Rightarrow> bytes option res" where
  "resolve_kid kid ctx =
    (case split_kid kid of
       None \<Rightarrow> Ok None
     | Some (did, frag) \<Rightarrow>
         if startswith did ''did:key:''
         then Ok (if frag \<noteq> drop 8 did then None else public_from_did_key did)
         else
           (case dget (cx_documents ctx) did of
              None \<Rightarrow> Ok None
            | Some doc \<Rightarrow>
                if \<not> is_dict doc then Ok None
                else (case jiter (jget ''verificationMethod'' doc) of
                        None \<Rightarrow> Raises
                      | Some vms \<Rightarrow> Ok (find_method kid did frag vms))))"

section \<open>The signature\<close>

record verified =
  vf_header :: json
  vf_payload :: json
  vf_signer :: string
  vf_kid :: string

definition envelope_parts :: "json \<Rightarrow> (string \<times> string \<times> string) option" where
  "envelope_parts e =
    (case e of
       JDict d \<Rightarrow>
         if set (dkeys d) \<noteq> {''protected'', ''payload'', ''signature''} then None
         else (case (jstr (dget d ''protected''), jstr (dget d ''payload''), jstr (dget d ''signature'')) of
                 (Some a, Some b, Some c) \<Rightarrow> Some (a, b, c)
               | _ \<Rightarrow> None)
     | _ \<Rightarrow> None)"

definition read_header :: "prims \<Rightarrow> bytes \<Rightarrow> (json \<times> string \<times> string) res" where
  "read_header P prot =
    (case loads P prot of
       Raises \<Rightarrow> Raises
     | Rej _ _ \<Rightarrow> Rej ''header-invalid'' None
     | Ok h \<Rightarrow>
         (case (jstr (jget ''alg'' h), jstr (jget ''kid'' h)) of
            (Some alg, Some kid) \<Rightarrow>
              if alg \<noteq> ''EdDSA'' then Rej ''alg-unsupported'' None
              else (case split_kid kid of None \<Rightarrow> Rej ''kid-invalid'' None | Some (did, _) \<Rightarrow> Ok (h, kid, did))
          | _ \<Rightarrow> Rej ''header-invalid'' None))"

definition check_signed :: "prims \<Rightarrow> string \<Rightarrow> bytes \<Rightarrow> bytes \<Rightarrow> bool \<Rightarrow> json \<Rightarrow> string \<Rightarrow> string \<Rightarrow> bytes option \<Rightarrow> verified res" where
  "check_signed P signing_input pay_b sig_b core h kid did key =
    (case key of
       None \<Rightarrow> Rej ''kid-unresolvable'' None
     | Some pub \<Rightarrow>
         if length sig_b \<noteq> 64 \<or> \<not> ed25519_verify P pub signing_input sig_b then Rej ''signature-invalid'' None
         else rbind (parse_payload P pay_b core) (\<lambda>p. Ok \<lparr>vf_header = h, vf_payload = p, vf_signer = did, vf_kid = kid\<rparr>))"

definition verify_raw :: "prims \<Rightarrow> json \<Rightarrow> context_ \<Rightarrow> bool \<Rightarrow> verified res" where
  "verify_raw P env ctx core =
    (case envelope_parts env of
       None \<Rightarrow> Rej ''envelope-shape'' None
     | Some (prot, pay, sg) \<Rightarrow>
         (case (b64url_decode prot, b64url_decode pay, b64url_decode sg) of
            (Some prot_b, Some pay_b, Some sig_b) \<Rightarrow>
              rbind (read_header P prot_b) (\<lambda>(h, kid, did).
              rbind (resolve_kid kid ctx) (check_signed P (prot @ ''.'' @ pay) pay_b sig_b core h kid did))
          | _ \<Rightarrow> Rej ''envelope-shape'' None))"

section \<open>Delegation\<close>

definition as_envelope :: "json \<Rightarrow> json option" where
  "as_envelope r =
    (case r of
       JStr s \<Rightarrow> (case split CHR ''.'' s of
           [a, b, c] \<Rightarrow> Some (JDict [(''protected'', JStr a), (''payload'', JStr b), (''signature'', JStr c)])
         | _ \<Rightarrow> None)
     | JDict d \<Rightarrow> Some r
     | _ \<Rightarrow> None)"

definition revocations_for :: "string \<Rightarrow> context_ \<Rightarrow> json list res" where
  "revocations_for subject ctx =
    (case (case dget (cx_documents ctx) subject of
             None \<Rightarrow> Some []
           | Some doc \<Rightarrow> if is_dict doc then jiter (jget ''dsipDelegationRevocations'' doc) else Some []) of
       None \<Rightarrow> Raises
     | Some published \<Rightarrow> Ok (List.map_filter as_envelope (cx_revocations ctx @ published)))"

definition revokes :: "prims \<Rightarrow> json \<Rightarrow> string \<Rightarrow> string \<Rightarrow> int \<Rightarrow> context_ \<Rightarrow> bool res" where
  "revokes P rv subject device issued ctx =
    (case verify_raw P rv ctx False of
       Raises \<Rightarrow> Raises
     | Rej _ _ \<Rightarrow> Ok False
     | Ok v \<Rightarrow>
         (let p = vf_payload v
          in Ok (jget ''type'' p = Some (JStr ''delegation-revocation'') \<and> jget ''subject'' p = Some (JStr subject)
               \<and> jget ''from'' p = Some (JStr subject) \<and> vf_signer v = subject \<and> jget ''device'' p = Some (JStr device)
               \<and> (case jnum (jget ''revoked_at'' p) of None \<Rightarrow> False | Some t \<Rightarrow> issued \<le> t))))"

text \<open>\<open>any(revokes(r, \<dots>) for r in rs)\<close>: it stops at the first that does.\<close>

fun any_revokes :: "prims \<Rightarrow> json list \<Rightarrow> string \<Rightarrow> string \<Rightarrow> int \<Rightarrow> context_ \<Rightarrow> bool res" where
  "any_revokes P [] subject device issued ctx = Ok False"
| "any_revokes P (r # rs) subject device issued ctx =
    rbind (revokes P r subject device issued ctx) (\<lambda>b. if b then Ok True else any_revokes P rs subject device issued ctx)"

definition verify_delegation :: "prims \<Rightarrow> json \<Rightarrow> string \<Rightarrow> string \<Rightarrow> context_ \<Rightarrow> string \<Rightarrow> unit res" where
  "verify_delegation P deleg subject device ctx capability =
    (case verify_raw P deleg ctx False of
       Raises \<Rightarrow> Raises
     | Rej _ _ \<Rightarrow> Rej ''delegation-invalid'' None
     | Ok v \<Rightarrow>
         (let p = vf_payload v
          in if jget ''type'' p \<noteq> Some (JStr ''DeviceDelegation'') \<or> jget ''subject'' p \<noteq> Some (JStr subject)
               \<or> jget ''device'' p \<noteq> Some (JStr device) \<or> vf_signer v \<noteq> subject
             then Rej ''delegation-invalid'' None
             else if (case jlist (jget ''capabilities'' p) of None \<Rightarrow> True | Some caps \<Rightarrow> JStr capability \<notin> set caps)
             then Rej ''delegation-capability'' None
             else
               (case (jnum (jget ''issued_at'' p), jnum (jget ''expires_at'' p)) of
                  (Some ia, Some ea) \<Rightarrow>
                    if \<not> (ia \<le> cx_now ctx \<and> cx_now ctx < ea) then Rej ''delegation-expired'' None
                    else rbind (revocations_for subject ctx) (\<lambda>rs.
                         rbind (any_revokes P rs subject device ia ctx) (\<lambda>b.
                           if b then Rej ''delegation-revoked'' None else Ok ()))
                | _ \<Rightarrow> Rej ''delegation-expired'' None)))"

text \<open>The subject and device a delegation names, read without any check.\<close>

definition names :: "prims \<Rightarrow> json \<Rightarrow> (json option \<times> json option) option" where
  "names P deleg =
    (case map_option (loads P) (Option.bind (jstr (jget ''payload'' deleg)) b64url_decode) of
       Some (Ok p) \<Rightarrow> if is_dict p then Some (jget ''subject'' p, jget ''device'' p) else None
     | _ \<Rightarrow> None)"

text \<open>The first candidate that verifies, or the first failure.\<close>

fun first_delegation :: "prims \<Rightarrow> json list \<Rightarrow> string \<Rightarrow> string \<Rightarrow> context_ \<Rightarrow> (string \<times> string option) option \<Rightarrow> unit res" where
  "first_delegation P [] subject device ctx failure =
    (case failure of None \<Rightarrow> Ok () | Some (c, r) \<Rightarrow> Rej c r)"
| "first_delegation P (d # ds) subject device ctx failure =
    (case verify_delegation P d subject device ctx SIGNALING_CAPABILITY of
       Ok () \<Rightarrow> Ok ()
     | Raises \<Rightarrow> Raises
     | Rej c r \<Rightarrow> first_delegation P ds subject device ctx (case failure of None \<Rightarrow> Some (c, r) | Some f \<Rightarrow> Some f))"

definition check_binding :: "prims \<Rightarrow> string \<Rightarrow> string \<Rightarrow> json list \<Rightarrow> context_ \<Rightarrow> unit res" where
  "check_binding P subject device presented ctx =
    (if subject = device then Ok ()
     else
       (let candidates = filter (\<lambda>d. is_dict d \<and> names P d = Some (Some (JStr subject), Some (JStr device))) presented
        in if candidates = [] then Rej ''signer-mismatch'' None else first_delegation P candidates subject device ctx None))"

section \<open>The pipeline\<close>

text \<open>Stages 8 and 9.\<close>

definition check_times :: "string \<Rightarrow> int \<Rightarrow> int \<Rightarrow> int \<Rightarrow> unit res" where
  "check_times t ia ea now =
    (let stored = (\<lambda>cap code.
       if ea - ia > cap then Rej code None else if ia > now + REPLAY_WINDOW_S then Rej ''replay-window'' None else Ok ())
     in if ea \<le> ia then Rej ''expiry-order'' None
        else
          rbind
            (if t = ''introduction'' then stored INTRODUCTION_MAX_VALIDITY_S ''introduction-validity''
             else if t = ''reachability-hint'' then stored HINT_MAX_VALIDITY_S ''hint-validity''
             else if t = ''presence'' then stored PRESENCE_MAX_VALIDITY_S ''presence-validity''
             else if ia < now - REPLAY_WINDOW_S \<or> ia > now + REPLAY_WINDOW_S then Rej ''replay-window'' None else Ok ())
            (\<lambda>_. if ea \<le> now then Rej ''expired'' (if t = ''invite'' then Some ''session.expired'' else None) else Ok ()))"

text \<open>A failed binding, with the reason a hello gets.\<close>

definition as_hello :: "string \<Rightarrow> unit res \<Rightarrow> unit res" where
  "as_hello t b = (case b of Rej c r \<Rightarrow> Rej c (if t = ''hello'' then Some ''transport.hello-rejected'' else None) | x \<Rightarrow> x)"

record accepted =
  ac_type :: string
  ac_signer :: string
  ac_identity :: string

text \<open>Stages 10 and 11: the id has not been seen, and is of the time of issue.\<close>

definition check_id :: "string \<Rightarrow> string \<Rightarrow> int \<Rightarrow> context_ \<Rightarrow> unit res" where
  "check_id t mid ia ctx =
    (if t \<notin> {''reachability-hint'', ''presence''} \<and> mid \<in> cx_seen ctx then Rej ''duplicate-id'' None
     else
       (case timestamp_ms mid of
          None \<Rightarrow> Raises
        | Some ms \<Rightarrow> if \<bar>ms div 1000 - ia\<bar> > ENVELOPE_ULID_TOLERANCE_S then Rej ''ulid-issued-at-mismatch'' None else Ok ()))"

text \<open>Stage 7: the signer acts for the sender, and in a hello the sender for the identity it names.\<close>

definition bind_message :: "prims \<Rightarrow> context_ \<Rightarrow> json list \<Rightarrow> string \<Rightarrow> string \<Rightarrow> string option \<Rightarrow> string \<Rightarrow> unit res" where
  "bind_message P ctx presented t sender behalf signer =
    rbind (as_hello t (check_binding P sender signer presented ctx)) (\<lambda>_.
      case behalf of None \<Rightarrow> Ok () | Some b \<Rightarrow> as_hello t (check_binding P b sender presented ctx))"

definition verify_message :: "prims \<Rightarrow> context_ \<Rightarrow> verified \<Rightarrow> accepted res" where
  "verify_message P ctx v =
    (let p = vf_payload v in
     (case (jstr (jget ''type'' p), jstr (jget ''from'' p), jstr (jget ''id'' p), jint (jget ''issued_at'' p), jint (jget ''expires_at'' p)) of
        (Some t, Some sender, Some mid, Some ia, Some ea) \<Rightarrow>
          (case jiter (jget ''delegations'' (vf_header v)) of
             None \<Rightarrow> Raises
           | Some embedded \<Rightarrow>
               (let presented = cx_delegations ctx @ filter is_dict embedded;
                    behalf = (if t = ''hello'' then jstr (jget ''on_behalf_of'' p) else None)
                in rbind (bind_message P ctx presented t sender behalf (vf_signer v)) (\<lambda>_.
                   rbind (check_times t ia ea (cx_now ctx)) (\<lambda>_.
                   rbind (check_id t mid ia ctx) (\<lambda>_.
                     Ok \<lparr>ac_type = t, ac_signer = vf_signer v, ac_identity = (case behalf of None \<Rightarrow> sender | Some b \<Rightarrow> b)\<rparr>)))))
      | _ \<Rightarrow> Raises))"

definition verify :: "prims \<Rightarrow> json \<Rightarrow> context_ \<Rightarrow> nat option \<Rightarrow> (accepted \<times> verified) res" where
  "verify P env ctx frame_len =
    (if (case frame_len of None \<Rightarrow> False | Some n \<Rightarrow> n > WS_MAX_ENVELOPE_BYTES)
     then Rej ''frame-too-large'' (Some ''transport.envelope-too-large'')
     else rbind (verify_raw P env ctx True) (\<lambda>v. rbind (verify_message P ctx v) (\<lambda>a. Ok (a, v))))"

end
