(* ===== verification/Envelope.thy ===== *)
theory Envelope
  imports Envelope_Model
begin

text \<open>What the verification of an envelope establishes, and where it raises.\<close>

lemma rbind_Ok: "rbind m f = Ok y \<longleftrightarrow> (\<exists>x. m = Ok x \<and> f x = Ok y)"
  by (cases m) auto

text \<open>The envelope's signature checks under the key that its key id resolves to.\<close>

definition signed :: "prims \<Rightarrow> context_ \<Rightarrow> json \<Rightarrow> verified \<Rightarrow> bool" where
  "signed P ctx env v \<longleftrightarrow>
    (\<exists>prot pay sg pay_b sig_b pub frag. envelope_parts env = Some (prot, pay, sg)
       \<and> b64url_decode pay = Some pay_b \<and> loads_int P pay_b = Inr (vf_payload v) \<and> b64url_decode sg = Some sig_b
       \<and> split_kid (vf_kid v) = Some (vf_signer v, frag) \<and> resolve_kid (vf_kid v) ctx = Ok (Some pub)
       \<and> length sig_b = 64 \<and> ed25519_verify P pub (prot @ ''.'' @ pay) sig_b)"

lemma read_header_sound: "read_header P b = Ok (h, kid, did) \<Longrightarrow> \<exists>frag. split_kid kid = Some (did, frag)"
  by (auto simp: read_header_def split: option.splits res.splits if_splits)

lemma parse_payload_sound: "parse_payload P raw core = Ok p \<Longrightarrow> loads_int P raw = Inr p \<and> (core \<longrightarrow> check_core_shape p)"
  by (auto simp: parse_payload_def split: sum.splits if_splits)

lemma check_signed_Ok:
  "check_signed P input pay_b sig_b core h kid did key = Ok v \<longleftrightarrow>
    (\<exists>pub p. key = Some pub \<and> length sig_b = 64 \<and> ed25519_verify P pub input sig_b \<and> parse_payload P pay_b core = Ok p
       \<and> v = \<lparr>vf_header = h, vf_payload = p, vf_signer = did, vf_kid = kid\<rparr>)"
  by (cases key) (auto simp: check_signed_def rbind_Ok)

lemma verify_raw_sound:
  assumes "verify_raw P env ctx core = Ok v"
  shows "signed P ctx env v \<and> (core \<longrightarrow> check_core_shape (vf_payload v))"
proof -
  from assms obtain prot pay sg where ep: "envelope_parts env = Some (prot, pay, sg)"
    by (auto simp: verify_raw_def split: option.splits)
  from assms obtain prot_b pay_b sig_b where b: "b64url_decode prot = Some prot_b" "b64url_decode pay = Some pay_b" "b64url_decode sg = Some sig_b"
    unfolding verify_raw_def ep by (auto split: option.splits)
  from assms obtain h kid did key where head: "read_header P prot_b = Ok (h, kid, did)" and key: "resolve_kid kid ctx = Ok key"
      and c: "check_signed P (prot @ ''.'' @ pay) pay_b sig_b core h kid did key = Ok v"
    unfolding verify_raw_def ep by (simp add: b rbind_Ok) blast
  from c obtain pub p where k: "key = Some pub" "length sig_b = 64" "ed25519_verify P pub (prot @ ''.'' @ pay) sig_b"
      and p: "parse_payload P pay_b core = Ok p" and v: "v = \<lparr>vf_header = h, vf_payload = p, vf_signer = did, vf_kid = kid\<rparr>"
    unfolding check_signed_Ok by blast
  show ?thesis
    using ep b key k read_header_sound [OF head] parse_payload_sound [OF p] unfolding signed_def v by auto
qed

text \<open>
  \<open>live_credential\<close>: the credential is signed by the subject, names the subject and the device, carries the capability, is live
  now, and none of the revocations a verifier can see revokes it. \<open>delegated\<close>: one of those presented is such.
\<close>

definition live_credential :: "prims \<Rightarrow> context_ \<Rightarrow> json \<Rightarrow> string \<Rightarrow> string \<Rightarrow> string \<Rightarrow> bool" where
  "live_credential P ctx d capability subject device \<longleftrightarrow>
    (\<exists>v caps ia ea rs. signed P ctx d v \<and> vf_signer v = subject
       \<and> jget ''subject'' (vf_payload v) = Some (JStr subject) \<and> jget ''device'' (vf_payload v) = Some (JStr device)
       \<and> jget ''capabilities'' (vf_payload v) = Some (JList caps) \<and> JStr capability \<in> set caps
       \<and> jnum (jget ''issued_at'' (vf_payload v)) = Some ia \<and> jnum (jget ''expires_at'' (vf_payload v)) = Some ea
       \<and> ia \<le> cx_now ctx \<and> cx_now ctx < ea
       \<and> revocations_for subject ctx = Ok rs \<and> (\<forall>r\<in>set rs. revokes P r subject device ia ctx = Ok False))"

definition delegated :: "prims \<Rightarrow> context_ \<Rightarrow> json list \<Rightarrow> string \<Rightarrow> string \<Rightarrow> bool" where
  "delegated P ctx presented subject device \<longleftrightarrow> (\<exists>d\<in>set presented. live_credential P ctx d ''dsip.signaling'' subject device)"

definition may_sign_for :: "prims \<Rightarrow> context_ \<Rightarrow> json list \<Rightarrow> string \<Rightarrow> string \<Rightarrow> bool" where
  "may_sign_for P ctx presented subject device \<longleftrightarrow> subject = device \<or> delegated P ctx presented subject device"

lemma any_revokes_False: "any_revokes P rs s d ia ctx = Ok False \<Longrightarrow> r \<in> set rs \<Longrightarrow> revokes P r s d ia ctx = Ok False"
  by (induction rs) (auto simp: rbind_Ok split: if_splits)

lemma verify_delegation_sound:
  assumes "verify_delegation P d subject device ctx capability = Ok u"
  shows "live_credential P ctx d capability subject device"
proof -
  from assms obtain v where v: "verify_raw P d ctx False = Ok v"
    by (auto simp: verify_delegation_def split: res.splits)
  define p where "p = vf_payload v"
  have head: "jget ''subject'' p = Some (JStr subject)" "jget ''device'' p = Some (JStr device)" "vf_signer v = subject"
    and "\<not> (case jlist (jget ''capabilities'' p) of None \<Rightarrow> True | Some caps \<Rightarrow> JStr capability \<notin> set caps)"
    using assms unfolding verify_delegation_def v Let_def p_def [symmetric] res.case by (auto split: if_splits)
  then obtain caps where caps: "jget ''capabilities'' p = Some (JList caps)" "JStr capability \<in> set caps"
    by (auto simp: jlist_eq split: option.splits)
  from assms obtain ia ea rs where "jnum (jget ''issued_at'' p) = Some ia" "jnum (jget ''expires_at'' p) = Some ea"
      "ia \<le> cx_now ctx" "cx_now ctx < ea" "revocations_for subject ctx = Ok rs" "any_revokes P rs subject device ia ctx = Ok False"
    unfolding verify_delegation_def v Let_def p_def [symmetric] res.case by (auto simp: rbind_Ok split: if_splits option.splits)
  then show ?thesis
    using head caps verify_raw_sound [OF v] any_revokes_False unfolding live_credential_def p_def by blast
qed

lemma first_delegation_sound:
  "first_delegation P ds subject device ctx failure = Ok () \<Longrightarrow> ds \<noteq> [] \<or> failure \<noteq> None
    \<Longrightarrow> \<exists>d\<in>set ds. verify_delegation P d subject device ctx SIGNALING_CAPABILITY = Ok ()"
  by (induction ds arbitrary: failure) (auto split: res.splits option.splits)

lemma check_binding_sound:
  assumes "check_binding P subject device presented ctx = Ok ()"
  shows "may_sign_for P ctx presented subject device"
proof (cases "subject = device")
  case False
  define cands where "cands = filter (\<lambda>d. is_dict d \<and> names P d = Some (Some (JStr subject), Some (JStr device))) presented"
  have "cands \<noteq> []" "first_delegation P cands subject device ctx None = Ok ()"
    using assms False unfolding check_binding_def Let_def cands_def [symmetric] by (auto split: if_splits)
  then obtain d where "d \<in> set cands" "verify_delegation P d subject device ctx SIGNALING_CAPABILITY = Ok ()"
    using first_delegation_sound by blast
  then show ?thesis using verify_delegation_sound [of P d subject device ctx SIGNALING_CAPABILITY]
    by (auto simp: may_sign_for_def delegated_def cands_def SIGNALING_CAPABILITY_def)
qed (simp add: may_sign_for_def)

lemma as_hello_Ok: "as_hello t b = Ok () \<longleftrightarrow> b = Ok ()"
  by (cases b) (auto simp: as_hello_def)

text \<open>The times of a message: none from the future, none expired, and only the kinds that are stored may be old.\<close>

definition timely :: "string \<Rightarrow> int \<Rightarrow> int \<Rightarrow> int \<Rightarrow> bool" where
  "timely t ia ea now \<longleftrightarrow> ia \<le> now + 300 \<and> now < ea
     \<and> (t \<notin> {''introduction'', ''reachability-hint'', ''presence''} \<longrightarrow> now - 300 \<le> ia)
     \<and> (t = ''introduction'' \<longrightarrow> ea - ia \<le> 604800) \<and> (t \<in> {''reachability-hint'', ''presence''} \<longrightarrow> ea - ia \<le> 3600)"

lemma check_times_fresh: "check_times t ia ea now = Ok () \<Longrightarrow> timely t ia ea now"
  by (auto simp: check_times_def timely_def rbind_Ok REPLAY_WINDOW_S_def INTRODUCTION_MAX_VALIDITY_S_def HINT_MAX_VALIDITY_S_def
      PRESENCE_MAX_VALIDITY_S_def Let_def split: if_splits)

text \<open>C1: What an accepted envelope guarantees. Its signature checks under the key its key id resolves to; the signer is the sender,
  or the sender delegated it, by a credential the sender signed that carries the signaling capability, is live and is revoked by
  no revocation in sight; the identity it is accepted for is the sender, or in a hello one that delegated the sender in the same
  way; and it is fresh: not from the future, not expired, not older than the replay window unless of a stored kind, not seen
  before, and its id is of the time it was issued.
\<close>

theorem accepted_is_authorized:
  assumes "verify P env ctx frame_len = Ok (a, v)"
  shows "signed P ctx env v \<and> ac_signer a = vf_signer v
    \<and> (\<exists>presented sender mid ia ea ms.
         jget ''from'' (vf_payload v) = Some (JStr sender) \<and> may_sign_for P ctx presented sender (vf_signer v)
         \<and> (ac_identity a = sender \<or> ac_type a = ''hello'' \<and> may_sign_for P ctx presented (ac_identity a) sender)
         \<and> jint (jget ''issued_at'' (vf_payload v)) = Some ia \<and> jint (jget ''expires_at'' (vf_payload v)) = Some ea
         \<and> timely (ac_type a) ia ea (cx_now ctx)
         \<and> jget ''id'' (vf_payload v) = Some (JStr mid) \<and> timestamp_ms mid = Some ms \<and> \<bar>ms div 1000 - ia\<bar> \<le> 300
         \<and> (mid \<in> cx_seen ctx \<longrightarrow> ac_type a \<in> {''reachability-hint'', ''presence''}))"
proof -
  have raw: "verify_raw P env ctx True = Ok v" and msg: "verify_message P ctx v = Ok a"
    using assms by (auto simp: verify_def rbind_Ok split: if_splits)
  define p where "p = vf_payload v"
  from msg obtain t sender mid ia ea where f: "jstr (jget ''type'' p) = Some t" "jstr (jget ''from'' p) = Some sender"
      "jstr (jget ''id'' p) = Some mid" "jint (jget ''issued_at'' p) = Some ia" "jint (jget ''expires_at'' p) = Some ea"
    unfolding verify_message_def Let_def p_def [symmetric] by (auto split: option.splits)
  from msg obtain embedded where emb: "jiter (jget ''delegations'' (vf_header v)) = Some embedded"
    unfolding verify_message_def Let_def p_def [symmetric] f option.case prod.case by (auto split: option.splits)
  define presented where "presented = cx_delegations ctx @ filter is_dict embedded"
  define behalf where "behalf = (if t = ''hello'' then jstr (jget ''on_behalf_of'' p) else None)"
  have bind: "bind_message P ctx presented t sender behalf (vf_signer v) = Ok ()" and times: "check_times t ia ea (cx_now ctx) = Ok ()"
    and mid: "check_id t mid ia ctx = Ok ()"
    and a: "a = \<lparr>ac_type = t, ac_signer = vf_signer v, ac_identity = (case behalf of None \<Rightarrow> sender | Some b \<Rightarrow> b)\<rparr>"
    using msg unfolding verify_message_def Let_def p_def [symmetric] f option.case prod.case emb presented_def [symmetric] behalf_def [symmetric]
    by (auto simp: rbind_Ok)
  from mid obtain ms where ulid: "timestamp_ms mid = Some ms" "\<bar>ms div 1000 - ia\<bar> \<le> 300" "mid \<in> cx_seen ctx \<longrightarrow> t \<in> {''reachability-hint'', ''presence''}"
    by (auto simp: check_id_def ENVELOPE_ULID_TOLERANCE_S_def split: if_splits option.splits)
  have signer: "may_sign_for P ctx presented sender (vf_signer v)"
    using bind by (auto simp: bind_message_def rbind_Ok as_hello_Ok check_binding_sound)
  have identity: "ac_identity a = sender \<or> ac_type a = ''hello'' \<and> may_sign_for P ctx presented (ac_identity a) sender"
  proof (cases behalf)
    case (Some b)
    then have "t = ''hello''" by (simp add: behalf_def split: if_splits)
    then show ?thesis using bind Some by (auto simp: bind_message_def rbind_Ok as_hello_Ok a check_binding_sound)
  qed (simp add: a)
  have fields: "jget ''from'' (vf_payload v) = Some (JStr sender)" "jget ''id'' (vf_payload v) = Some (JStr mid)"
    "jint (jget ''issued_at'' (vf_payload v)) = Some ia" "jint (jget ''expires_at'' (vf_payload v)) = Some ea"
    using f by (simp_all add: jstr_eq p_def)
  have "ac_signer a = vf_signer v" "ac_type a = t" by (simp_all add: a)
  with verify_raw_sound [OF raw] signer identity fields check_times_fresh [OF times] ulid show ?thesis by metis
qed

section \<open>A signed message\<close>

lemma b58_members: "c \<in> set (b58_encode data) \<Longrightarrow> is_alnum c"
proof -
  have all: "list_all is_alnum B58_ALPHABET" "length B58_ALPHABET = 58" by code_simp+
  have "c \<in> set (b58_digits n) \<Longrightarrow> is_alnum c" for n
  proof (induction n rule: b58_digits.induct)
    case (1 n)
    have "B58_ALPHABET ! (n mod 58) \<in> set B58_ALPHABET" by (rule nth_mem) (simp add: all(2))
    with 1 show ?case using all(1) by (cases "n = 0") (auto simp: b58_digits.simps [of n] list_all_iff b58_digits.simps [of 0])
  qed
  moreover have "is_alnum CHR ''1''" by code_simp
  ultimately show "c \<in> set (b58_encode data) \<Longrightarrow> is_alnum c" by (auto simp: b58_encode_def)
qed

lemma did_key_is_did: "is_did (did_key_from_public pub)"
proof -
  have "is_alnum c" if "c \<in> set (b58_encode (ED25519_PUB_MULTICODEC @ pub))" for c using b58_members that by blast
  moreover have "lc_letter CHR ''k''" "lc_letter CHR ''e''" "lc_letter CHR ''y''" "is_alnum CHR ''z''" by code_simp+
  ultimately show ?thesis by (simp add: is_did_def did_key_from_public_def startswith_def list_all_iff)
qed

definition demo_did :: string where
  "demo_did = did_key_from_public (replicate 32 7)"

definition demo_env :: json where
  "demo_env = JDict [(''protected'', JStr ''AA''), (''payload'', JStr ''AA''), (''signature'', JStr (replicate 86 CHR ''A''))]"

definition demo_prims :: "(string \<times> json) list \<Rightarrow> prims" where
  "demo_prims extra =
    \<lparr>loads = (\<lambda>b. Ok (JDict ([(''alg'', JStr ''EdDSA''), (''kid'', JStr (demo_did @ CHR ''#'' # drop 8 demo_did))] @ extra))),
     loads_int = (\<lambda>b. Inr (JDict [(''dsip'', JDict []), (''type'', JStr ''info''), (''id'', JStr (replicate 26 CHR ''0'')),
       (''from'', JStr demo_did), (''issued_at'', JInt 0), (''expires_at'', JInt 60)])),
     ed25519_verify = (\<lambda>pub input sg. pub = replicate 32 7)\<rparr>"

definition demo_context :: context_ where
  "demo_context = \<lparr>cx_now = 0, cx_documents = [], cx_delegations = [], cx_seen = {}, cx_revocations = []\<rparr>"

lemma demo_kid: "split_kid (demo_did @ CHR ''#'' # drop 8 demo_did) = Some (demo_did, drop 8 demo_did)"
proof -
  have "CHR ''#'' \<notin> set (b58_encode d)" for d
  proof
    assume "CHR ''#'' \<in> set (b58_encode d)"
    then have "is_alnum CHR ''#''" by (rule b58_members)
    moreover have "\<not> is_alnum CHR ''#''" by code_simp
    ultimately show False by simp
  qed
  then have "CHR ''#'' \<notin> set demo_did" by (simp add: demo_did_def did_key_from_public_def)
  then have "takeWhile (\<lambda>c. c \<noteq> CHR ''#'') (demo_did @ CHR ''#'' # f) = demo_did"
      "dropWhile (\<lambda>c. c \<noteq> CHR ''#'') (demo_did @ CHR ''#'' # f) = CHR ''#'' # f" for f
    by (subst takeWhile_append2 dropWhile_append2; auto)+
  then have "partition_at CHR ''#'' (demo_did @ CHR ''#'' # drop 8 demo_did) = (demo_did, Some (drop 8 demo_did))"
    by (simp add: partition_at_def)
  moreover have "drop 8 demo_did \<noteq> []" by (simp add: demo_did_def did_key_from_public_def)
  ultimately show ?thesis using did_key_is_did by (simp add: split_kid_def demo_did_def)
qed

lemma demo_raw_any:
  assumes "is_dict p" "core \<longrightarrow> check_core_shape p"
  shows "verify_raw ((demo_prims extra)\<lparr>loads_int := (\<lambda>b. Inr p)\<rparr>) demo_env demo_context core = Ok
    \<lparr>vf_header = JDict ([(''alg'', JStr ''EdDSA''), (''kid'', JStr (demo_did @ CHR ''#'' # drop 8 demo_did))] @ extra),
     vf_payload = p, vf_signer = demo_did, vf_kid = demo_did @ CHR ''#'' # drop 8 demo_did\<rparr>"
proof -
  have a: "b64_value CHR ''A'' = Some 0" by code_simp
  have b64: "b64url_decode ''AA'' = Some (b64_bytes ''AA'')" by (simp add: b64url_decode_def b64_text_def a)
  have sig: "\<exists>b. b64url_decode (replicate 86 CHR ''A'') = Some b \<and> length b = 64"
    by (simp add: b64url_decode_def b64_text_def list_all_length a b64_bytes_def Let_def)
  then obtain sig_b where sig: "b64url_decode (replicate 86 CHR ''A'') = Some sig_b" "length sig_b = 64" by blast
  have parts: "envelope_parts demo_env = Some (''AA'', ''AA'', replicate 86 CHR ''A'')"
    by (auto simp: demo_env_def envelope_parts_def jstr_def)
  have header: "read_header ((demo_prims extra)\<lparr>loads_int := f\<rparr>) x = Ok (JDict ([(''alg'', JStr ''EdDSA''),
      (''kid'', JStr (demo_did @ CHR ''#'' # drop 8 demo_did))] @ extra), demo_did @ CHR ''#'' # drop 8 demo_did, demo_did)" for x f
    by (simp add: read_header_def demo_prims_def jget_def jstr_def demo_kid)
  have key: "resolve_kid (demo_did @ CHR ''#'' # drop 8 demo_did) demo_context = Ok (Some (replicate 32 7))"
    using did_key_roundtrip [of "replicate 32 7"]
    by (simp add: resolve_kid_def demo_kid) (simp add: demo_did_def did_key_from_public_def startswith_def)
  show ?thesis
    using assms by (simp add: verify_raw_def parts b64 sig header key check_signed_def parse_payload_def)
      (simp add: demo_prims_def)
qed

lemma demo_raw:
  "verify_raw (demo_prims extra) demo_env demo_context True = Ok
    \<lparr>vf_header = JDict ([(''alg'', JStr ''EdDSA''), (''kid'', JStr (demo_did @ CHR ''#'' # drop 8 demo_did))] @ extra),
     vf_payload = JDict [(''dsip'', JDict []), (''type'', JStr ''info''), (''id'', JStr (replicate 26 CHR ''0'')),
       (''from'', JStr demo_did), (''issued_at'', JInt 0), (''expires_at'', JInt 60)],
     vf_signer = demo_did, vf_kid = demo_did @ CHR ''#'' # drop 8 demo_did\<rparr>"
proof -
  let ?p = "JDict [(''dsip'', JDict []), (''type'', JStr ''info''), (''id'', JStr (replicate 26 CHR ''0'')),
       (''from'', JStr demo_did), (''issued_at'', JInt 0), (''expires_at'', JInt 60)]"
  have ulid: "ulid_valid (replicate 26 CHR ''0'')" by code_simp
  have shape: "check_core_shape ?p"
    using did_key_is_did by (simp add: check_core_shape_def jget_def jstr_def jint_def is_dict_def ulid demo_did_def)
  have "demo_prims extra = (demo_prims extra)\<lparr>loads_int := (\<lambda>b. Inr ?p)\<rparr>" by (simp add: demo_prims_def)
  then show ?thesis using demo_raw_any [of ?p True extra] shape by (simp add: is_dict_def)
qed

theorem accepted_is_authorized_witness:
  "\<exists>a v. verify (demo_prims []) demo_env demo_context None = Ok (a, v) \<and> ac_signer a = demo_did
     \<and> signed (demo_prims []) demo_context demo_env v"
proof -
  have time: "timestamp_ms (replicate 26 CHR ''0'') = Some 0" by code_simp
  define v where "v = \<lparr>vf_header = JDict ([(''alg'', JStr ''EdDSA''), (''kid'', JStr (demo_did @ CHR ''#'' # drop 8 demo_did))] @ []),
     vf_payload = JDict [(''dsip'', JDict []), (''type'', JStr ''info''), (''id'', JStr (replicate 26 CHR ''0'')),
       (''from'', JStr demo_did), (''issued_at'', JInt 0), (''expires_at'', JInt 60)],
     vf_signer = demo_did, vf_kid = demo_did @ CHR ''#'' # drop 8 demo_did\<rparr>"
  have "verify_message (demo_prims []) demo_context v = Ok \<lparr>ac_type = ''info'', ac_signer = demo_did, ac_identity = demo_did\<rparr>"
    by (simp add: v_def verify_message_def jget_def jstr_def jint_def jiter_def bind_message_def check_binding_def
        as_hello_def check_times_def check_id_def REPLAY_WINDOW_S_def demo_context_def time ENVELOPE_ULID_TOLERANCE_S_def del: replicate.simps)
  then have v: "verify (demo_prims []) demo_env demo_context None = Ok (\<lparr>ac_type = ''info'', ac_signer = demo_did, ac_identity = demo_did\<rparr>, v)"
    unfolding verify_def demo_raw v_def by simp
  then show ?thesis using accepted_is_authorized [OF v] by (intro exI [of _ "\<lparr>ac_type = ''info'', ac_signer = demo_did, ac_identity = demo_did\<rparr>"] exI [of _ v]) simp
qed

text \<open>C39: A signed message makes the verifier raise. Whoever holds a key can sign a message whose header carries a number (or
  true) under \<open>delegations\<close>: the verification neither accepts nor rejects it, it raises, since the code iterates over the member
  without looking at its type.
\<close>

theorem header_delegations_raise:
  assumes "verify_raw P env ctx True = Ok v" "jiter (jget ''delegations'' (vf_header v)) = None"
  shows "verify P env ctx None = Raises"
proof -
  have "check_core_shape (vf_payload v)" using verify_raw_sound [OF assms(1)] by simp
  then have "verify_message P ctx v = Raises"
    using assms(2) by (auto simp: check_core_shape_def verify_message_def Let_def split: option.splits)
  then show ?thesis using assms(1) by (simp add: verify_def)
qed

text \<open>So does a header nested deeper than the JSON decoder goes, before any signature is checked.\<close>

lemma deep_header_raises:
  assumes "envelope_parts env = Some (prot, pay, sg)" "b64url_decode prot = Some prot_b" "b64url_decode pay = Some pay_b"
    and "b64url_decode sg = Some sig_b" "loads P prot_b = Raises"
  shows "verify P env ctx None = Raises"
  using assms by (simp add: verify_def verify_raw_def read_header_def)

theorem header_delegations_raise_witness:
  "verify (demo_prims [(''delegations'', JInt 5)]) demo_env demo_context None = Raises"
  by (rule header_delegations_raise [OF demo_raw]) (simp add: jget_def jiter_def)

end
