(* ===== verification/Binding_Model.thy ===== *)
theory Binding_Model
  imports Gateway_Model Text Json
begin

text \<open>
  The WebRTC media binding, \<^verbatim>\<open>dsipvec/binding.py\<close>: the SDP parser, the checks of an offer and an answer against their SDP,
  DTLS roles, the exchange of candidates, renegotiation and the one answer of an offer; and the descriptors a gateway reads
  from a trunk's SDP (\<^verbatim>\<open>gateway.py\<close>), over the same parser. SDP is ASCII text.
\<close>

section \<open>SDP\<close>

definition DIRECTIONS :: "string list" where
  "DIRECTIONS = [''sendrecv'', ''sendonly'', ''recvonly'', ''inactive'']"

definition SECURE_PROTOCOLS :: "string list" where
  "SECURE_PROTOCOLS = [''UDP/TLS/RTP/SAVPF'', ''UDP/TLS/RTP/SAVP'', ''TCP/TLS/RTP/SAVPF'', ''RTP/SAVPF'', ''RTP/SAVP'']"

type_synonym attrs = "(string \<times> string option) list"

record section_ =
  sc_kind :: string
  sc_port :: int
  sc_protocol :: string
  sc_formats :: "string list"
  sc_attrs :: attrs

definition values_of :: "string \<Rightarrow> attrs \<Rightarrow> string list" where
  "values_of name as = List.map_filter (\<lambda>(n, v). if n = name then v else None) as"

definition has_attr :: "string \<Rightarrow> attrs \<Rightarrow> bool" where
  "has_attr name as \<longleftrightarrow> name \<in> fst ` set as"

text \<open>The first direction attribute, for a section and for the session.\<close>

definition direction_of :: "attrs \<Rightarrow> string option" where
  "direction_of as = map_option fst (find (\<lambda>(n, v). n \<in> set DIRECTIONS \<and> v = None) as)"

definition media_direction :: "string option \<Rightarrow> section_ \<Rightarrow> string option" where
  "media_direction dflt s = (case direction_of (sc_attrs s) of Some d \<Rightarrow> Some d | None \<Rightarrow> dflt)"

text \<open>The encoding name of an rtpmap value, lower case; a value without a blank names none.\<close>

definition encoding_of :: "string \<Rightarrow> string option" where
  "encoding_of v = map_option (\<lambda>r. lower (before_sep CHR ''/'' r)) (snd (partition_at CHR '' '' v))"

definition encodings :: "section_ \<Rightarrow> string list" where
  "encodings s = List.map_filter encoding_of (values_of ''rtpmap'' (sc_attrs s))"

record sdp =
  sd_attrs :: attrs
  sd_sections :: "section_ list"

text \<open>The value of the first attribute of that name, absent when it has none.\<close>

definition session_value :: "string \<Rightarrow> sdp \<Rightarrow> string option" where
  "session_value name d = (case find (\<lambda>(n, v). n = name) (sd_attrs d) of None \<Rightarrow> None | Some (n, v) \<Rightarrow> v)"

definition session_direction :: "sdp \<Rightarrow> string option" where
  "session_direction d = direction_of (sd_attrs d)"

text \<open>One line: an \<open>m=\<close> line opens a section or makes the whole unparsable, an \<open>a=\<close> line joins the last section or the session.\<close>

definition open_section :: "string \<Rightarrow> section_ option" where
  "open_section val =
    (let parts = words val
     in if length parts < 3 then None
        else map_option (\<lambda>port. \<lparr>sc_kind = parts ! 0, sc_port = port, sc_protocol = parts ! 2, sc_formats = drop 3 parts, sc_attrs = []\<rparr>)
               (py_int (before_sep CHR ''/'' (parts ! 1))))"

definition add_attr :: "string \<Rightarrow> sdp \<Rightarrow> sdp" where
  "add_attr val d =
    (let attr = partition_at CHR '':'' val
     in if sd_sections d = [] then d\<lparr>sd_attrs := sd_attrs d @ [attr]\<rparr>
        else d\<lparr>sd_sections := butlast (sd_sections d)
                 @ [(last (sd_sections d))\<lparr>sc_attrs := sc_attrs (last (sd_sections d)) @ [attr]\<rparr>]\<rparr>)"

definition sdp_line :: "string \<Rightarrow> sdp \<Rightarrow> sdp option" where
  "sdp_line raw d =
    (let line = strip raw
     in if length line < 2 \<or> line ! 1 \<noteq> CHR ''='' then Some d
        else if hd line = CHR ''m'' then map_option (\<lambda>s. d\<lparr>sd_sections := sd_sections d @ [s]\<rparr>) (open_section (drop 2 line))
        else if hd line = CHR ''a'' then Some (add_attr (drop 2 line) d)
        else Some d)"

fun sdp_lines :: "string list \<Rightarrow> sdp \<Rightarrow> sdp option" where
  "sdp_lines [] d = Some d"
| "sdp_lines (l # ls) d = (case sdp_line l d of None \<Rightarrow> None | Some d' \<Rightarrow> sdp_lines ls d')"

definition parse_sdp :: "string \<Rightarrow> sdp option" where
  "parse_sdp text =
    (if \<not> startswith text ''v=0'' then None
     else sdp_lines (split (char_of (10 :: nat)) (unix_lines text)) \<lparr>sd_attrs = [], sd_sections = []\<rparr>)"

definition attr :: "sdp \<Rightarrow> section_ \<Rightarrow> string \<Rightarrow> string option" where
  "attr d s name = (case values_of name (sc_attrs s) of v # _ \<Rightarrow> Some v | [] \<Rightarrow> session_value name d)"

section \<open>Descriptions\<close>

text \<open>The first transport of a payload: its \<open>sdp\<close> is absent where it is no text; its \<open>ice\<close> may be there and be no text (\<^term>\<open>JNull\<close>
  too). The sender of a description is a text; \<open>a.get("from")\<close> is \<^term>\<open>None\<close> when it is absent or null.\<close>

record transport =
  tp_id :: "string option"
  tp_ice :: "json option"
  tp_sdp :: "string option"

record description =
  ds_from :: "string option"
  ds_transport :: "transport option"
  ds_media :: "descriptor list"

datatype verdict = Accepted | NotWebrtc | Refused string string

definition bad :: "bool \<Rightarrow> string" where
  "bad answer = (if answer then ''media.failed'' else ''media.unsupported'')"

definition codec_missing :: "section_ \<Rightarrow> string option \<Rightarrow> bool" where
  "codec_missing s c = (case Option.bind c (dget CODEC_ENCODING) of None \<Rightarrow> False | Some name \<Rightarrow> lower name \<notin> set (encodings s))"

text \<open>The direction of a section that names none.\<close>

definition session_default :: "sdp \<Rightarrow> string option" where
  "session_default d = Some (case session_direction d of Some x \<Rightarrow> x | None \<Rightarrow> ''sendrecv'')"

text \<open>The checks of one descriptor and its section; None passes.\<close>

definition check_section :: "bool \<Rightarrow> sdp \<Rightarrow> descriptor \<Rightarrow> section_ \<Rightarrow> verdict option" where
  "check_section answer d m s =
    (let fp = attr d s ''fingerprint''; setup = attr d s ''setup''
     in if sc_kind s \<noteq> de_type m then Some (Refused ''binding-kind-mismatch'' (bad answer))
        else if sc_protocol s \<notin> set SECURE_PROTOCOLS
          then Some (Refused ''binding-encryption'' (if answer then bad answer else ''media.encryption-required''))
        else if media_direction (session_default d) s \<noteq> de_direction m
          then Some (Refused ''binding-direction-mismatch'' (bad answer))
        else if list_ex (codec_missing s) (de_codecs m) then Some (Refused ''binding-codec-missing'' (bad answer))
        else if \<not> has_attr ''rtcp-mux'' (sc_attrs s) then Some (Refused ''binding-rtcp-mux-missing'' (bad answer))
        else if (case fp of None \<Rightarrow> True | Some f \<Rightarrow> \<not> startswith (lower f) ''sha-256 '')
          then Some (Refused ''binding-fingerprint-missing'' (bad answer))
        else if attr d s ''ice-ufrag'' = None \<or> attr d s ''ice-pwd'' = None
          then Some (Refused ''binding-ice-credentials-missing'' (bad answer))
        else if answer
          then (if setup \<noteq> Some ''active'' \<and> setup \<noteq> Some ''passive'' then Some (Refused ''binding-setup-invalid'' (bad answer)) else None)
        else if setup \<noteq> Some ''actpass'' then Some (Refused ''binding-setup-invalid'' (bad answer)) else None)"

fun check_sections :: "bool \<Rightarrow> sdp \<Rightarrow> (descriptor \<times> section_) list \<Rightarrow> verdict" where
  "check_sections answer d [] = Accepted"
| "check_sections answer d ((m, s) # ps) = (case check_section answer d m s of Some v \<Rightarrow> v | None \<Rightarrow> check_sections answer d ps)"

definition live_sections :: "sdp \<Rightarrow> section_ list" where
  "live_sections d = filter (\<lambda>s. sc_port s \<noteq> 0) (sd_sections d)"

definition check_sdp :: "bool \<Rightarrow> sdp option \<Rightarrow> sdp \<Rightarrow> descriptor list \<Rightarrow> verdict" where
  "check_sdp answer offer_sdp d media =
    (let live = live_sections d
     in if answer \<and> (case offer_sdp of None \<Rightarrow> False | Some od \<Rightarrow> length (sd_sections d) \<noteq> length (sd_sections od))
          then Refused ''binding-section-count'' (bad answer)
        else if list_ex (\<lambda>s. sc_kind s = ''application'') live then Refused ''binding-extra-section'' (bad answer)
        else if length live \<noteq> length media then Refused ''binding-section-count'' (bad answer)
        else check_sections answer d (zip media live))"

definition check_description :: "bool \<Rightarrow> sdp option \<Rightarrow> description \<Rightarrow> verdict" where
  "check_description answer offer_sdp p =
    (case ds_transport p of
       None \<Rightarrow> NotWebrtc
     | Some t \<Rightarrow>
         if tp_id t \<noteq> Some ''transport:webrtc'' then NotWebrtc
         else if \<not> answer \<and> tp_ice t \<noteq> Some (JStr ''trickle'') then Refused ''binding-ice-mode'' (bad answer)
         else if answer \<and> tp_ice t \<noteq> None \<and> tp_ice t \<noteq> Some (JStr ''trickle'') then Refused ''binding-ice-mode'' (bad answer)
         else
           (case tp_sdp t of
              None \<Rightarrow> Refused ''binding-sdp-missing'' (if answer then ''media.failed'' else ''media.offer-required'')
            | Some text \<Rightarrow>
                if text = [] then Refused ''binding-sdp-missing'' (if answer then ''media.failed'' else ''media.offer-required'')
                else
                  (case parse_sdp text of
                     None \<Rightarrow> Refused ''binding-sdp-invalid'' (bad answer)
                   | Some d \<Rightarrow> check_sdp answer offer_sdp d (ds_media p))))"

definition check_offer :: "description \<Rightarrow> verdict" where
  "check_offer p = check_description False None p"

definition offer_sdp :: "description \<Rightarrow> sdp option" where
  "offer_sdp p = Option.bind (ds_transport p) (\<lambda>t. Option.bind (tp_sdp t) parse_sdp)"

definition check_answer :: "description \<Rightarrow> description \<Rightarrow> verdict" where
  "check_answer offer ans = check_description True (offer_sdp offer) ans"

text \<open>Who is the DTLS client: true for the offerer.\<close>

definition dtls_roles :: "string \<Rightarrow> string \<Rightarrow> verdict + bool" where
  "dtls_roles offer_setup answer_setup =
    (if offer_setup \<noteq> ''actpass'' then Inl (Refused ''binding-setup-invalid'' ''media.unsupported'')
     else if answer_setup = ''active'' then Inr False
     else if answer_setup = ''passive'' then Inr True
     else Inl (Refused ''binding-setup-invalid'' ''media.failed''))"

definition ice_credentials :: "description \<Rightarrow> string option \<times> string option" where
  "ice_credentials p =
    (case offer_sdp p of
       None \<Rightarrow> (None, None)
     | Some d \<Rightarrow>
         (case sd_sections d of
            [] \<Rightarrow> (session_value ''ice-ufrag'' d, session_value ''ice-pwd'' d)
          | s # _ \<Rightarrow> (attr d s ''ice-ufrag'', attr d s ''ice-pwd'')))"

section \<open>Candidates\<close>

record exchange =
  ex_peer :: "string option"
  ex_active :: bool
  ex_remote_applied :: bool
  ex_local_buf :: "string list"
  ex_gathered :: bool
  ex_end_sent :: bool
  ex_remote_buf :: "string list"
  ex_remote_end :: bool
  ex_ended :: bool

definition init_exchange :: "string option \<Rightarrow> exchange" where
  "init_exchange peer = \<lparr>ex_peer = peer, ex_active = False, ex_remote_applied = False, ex_local_buf = [], ex_gathered = False,
     ex_end_sent = False, ex_remote_buf = [], ex_remote_end = False, ex_ended = False\<rparr>"

datatype cx_event =
    CxLocal string
  | CxGathered
  | CxActive
  | CxRemoteDescription
  | CxRemoteInfo "string option" "string list" bool
  | CxSessionEnd

datatype cx_out =
    CxIgnore string
  | CxSendInfo nat bool
  | CxBuffer string nat
  | CxApply nat
  | CxRemoteEnd
  | CxDropBuffered nat

definition remote_info :: "string option \<Rightarrow> string list \<Rightarrow> bool \<Rightarrow> exchange \<Rightarrow> exchange \<times> cx_out list" where
  "remote_info sender cands fin x =
    (if ex_peer x \<noteq> None \<and> sender \<noteq> ex_peer x then (x, [CxIgnore ''not-party''])
     else if ex_remote_end x then (x, [CxIgnore ''after-end''])
     else
       (let (x1, out1) =
          (if cands = [] then (x, [])
           else if ex_remote_applied x then (x, [CxApply (length cands)])
           else (x\<lparr>ex_remote_buf := ex_remote_buf x @ cands\<rparr>, [CxBuffer ''remote'' (length (ex_remote_buf x @ cands))]))
        in if fin then (x1\<lparr>ex_remote_end := True\<rparr>, out1 @ [CxRemoteEnd]) else (x1, out1)))"

definition became_active :: "exchange \<Rightarrow> exchange \<times> cx_out list" where
  "became_active x0 =
    (let x = x0\<lparr>ex_active := True\<rparr>; fin = ex_gathered x \<and> \<not> ex_end_sent x
     in if ex_local_buf x \<noteq> [] \<or> fin
        then (x\<lparr>ex_local_buf := [], ex_end_sent := ex_end_sent x \<or> fin\<rparr>, [CxSendInfo (length (ex_local_buf x)) fin])
        else (x, []))"

fun exchange_event :: "exchange \<Rightarrow> cx_event \<Rightarrow> exchange \<times> cx_out list" where
  "exchange_event x (CxLocal c) =
    (if ex_active x then (x, [CxSendInfo 1 False])
     else (x\<lparr>ex_local_buf := ex_local_buf x @ [c]\<rparr>, [CxBuffer ''local'' (length (ex_local_buf x) + 1)]))"
| "exchange_event x CxGathered =
    (if ex_active x \<and> \<not> ex_end_sent x then (x\<lparr>ex_gathered := True, ex_end_sent := True\<rparr>, [CxSendInfo 0 True])
     else (x\<lparr>ex_gathered := True\<rparr>, []))"
| "exchange_event x CxActive = became_active x"
| "exchange_event x CxRemoteDescription =
    (if ex_remote_buf x \<noteq> [] then (x\<lparr>ex_remote_applied := True, ex_remote_buf := []\<rparr>, [CxApply (length (ex_remote_buf x))])
     else (x\<lparr>ex_remote_applied := True\<rparr>, []))"
| "exchange_event x (CxRemoteInfo sender cands fin) = remote_info sender cands fin x"
| "exchange_event x CxSessionEnd =
    (if ex_remote_buf x \<noteq> [] \<or> ex_local_buf x \<noteq> []
     then (x\<lparr>ex_ended := True, ex_remote_buf := [], ex_local_buf := []\<rparr>, [CxDropBuffered (length (ex_remote_buf x) + length (ex_local_buf x))])
     else (x\<lparr>ex_ended := True\<rparr>, []))"

definition exchange_step :: "exchange \<Rightarrow> cx_event \<Rightarrow> exchange \<times> cx_out list" where
  "exchange_step x e = (if ex_ended x then (x, [CxIgnore ''ended'']) else exchange_event x e)"

section \<open>Renegotiation\<close>

record renegotiation =
  rn_ufrag :: "string option"
  rn_pending :: "string option"

datatype rn_event =
    RnLocalReoffer "string option"
  | RnRemoteAnswer
  | RnRemoteReject
  | RnRemoteReoffer "string option"
  | RnAnswerUpdate

datatype rn_out =
    RnErrorRestart
  | RnDescription string
  | RnIgnore string
  | RnApply string
  | RnRollback
  | RnRejectRestart
  | RnUpdateOffered

fun renegotiation_step :: "renegotiation \<Rightarrow> rn_event \<Rightarrow> renegotiation \<times> rn_out list" where
  "renegotiation_step r (RnLocalReoffer u) =
    (if u \<noteq> rn_ufrag r then (r, [RnErrorRestart]) else (r\<lparr>rn_pending := u\<rparr>, [RnDescription ''pending'']))"
| "renegotiation_step r RnRemoteAnswer =
    (if rn_pending r = None then (r, [RnIgnore ''no-pending-offer''])
     else (r\<lparr>rn_pending := None\<rparr>, [RnApply ''answer'', RnDescription ''current'']))"
| "renegotiation_step r RnRemoteReject =
    (if rn_pending r = None then (r, [RnIgnore ''no-pending-offer''])
     else (r\<lparr>rn_pending := None\<rparr>, [RnRollback, RnDescription ''current'']))"
| "renegotiation_step r (RnRemoteReoffer u) =
    (if u \<noteq> rn_ufrag r then (r, [RnRejectRestart]) else (r, [RnUpdateOffered]))"
| "renegotiation_step r RnAnswerUpdate = (r, [RnApply ''remote-offer+answer''])"

section \<open>One answer\<close>

datatype leg_end = LegBye string | LegApplied | LegFailed string

definition verdict_ok :: "verdict \<Rightarrow> bool" where
  "verdict_ok v \<longleftrightarrow> v = Accepted \<or> v = NotWebrtc"

definition code_of :: "verdict \<Rightarrow> string" where
  "code_of v = (case v of Refused c _ \<Rightarrow> c | _ \<Rightarrow> '''')"

text \<open>\<open>applied\<close> is the sender of the answer applied so far, and the marker that there is one: an answer without a sender leaves it
  \<^term>\<open>None\<close>.\<close>

fun answer_legs :: "description \<Rightarrow> string option \<Rightarrow> description list \<Rightarrow> string option \<times> (string option \<times> leg_end) list" where
  "answer_legs offer applied [] = (applied, [])"
| "answer_legs offer applied (a # as) =
    (if applied \<noteq> None
     then (let (r, ls) = answer_legs offer applied as in (r, (ds_from a, LegBye ''session.already-answered'') # ls))
     else if verdict_ok (check_answer offer a)
     then (let (r, ls) = answer_legs offer (ds_from a) as in (r, (ds_from a, LegApplied) # ls))
     else (let (r, ls) = answer_legs offer None as in (r, (ds_from a, LegFailed (code_of (check_answer offer a))) # ls)))"

definition one_answer :: "description \<Rightarrow> description list \<Rightarrow> string option \<times> (string option \<times> leg_end) list" where
  "one_answer offer answers = answer_legs offer None answers"

section \<open>A trunk's SDP\<close>

definition ENCODING_TO_CODEC :: "(string, string) dict" where
  "ENCODING_TO_CODEC = map (\<lambda>(k, v). (lower v, k)) CODEC_ENCODING"

text \<open>The codecs of a section, each once, in the order of its rtpmap values.\<close>

definition section_codecs :: "section_ \<Rightarrow> string list" where
  "section_codecs s = foldl (\<lambda>cs e. case dget ENCODING_TO_CODEC e of None \<Rightarrow> cs | Some c \<Rightarrow> if c \<in> set cs then cs else cs @ [c])
     [] (encodings s)"

definition section_descriptor :: "sdp \<Rightarrow> section_ \<Rightarrow> descriptor option" where
  "section_descriptor d s =
    (if sc_port s = 0 \<or> sc_kind s \<notin> {''audio'', ''video''} \<or> section_codecs s = [] then None
     else Some \<lparr>de_type = sc_kind s, de_codecs = map Some (section_codecs s), de_direction = media_direction (session_default d) s\<rparr>)"

text \<open>\<open>t in s\<close>\<close>

fun contains :: "string \<Rightarrow> string \<Rightarrow> bool" where
  "contains t [] = (t = [])"
| "contains t (c # s) = (startswith (c # s) t \<or> contains t s)"

definition sip_sdp_to_descriptors :: "string \<Rightarrow> (descriptor list \<times> string) option" where
  "sip_sdp_to_descriptors text =
    (case parse_sdp text of
       None \<Rightarrow> None
     | Some d \<Rightarrow> Some (List.map_filter (section_descriptor d) (sd_sections d),
         if list_ex (\<lambda>s. has_attr ''crypto'' (sc_attrs s)) (sd_sections d) then ''sdes''
         else if list_ex (\<lambda>s. contains ''TLS'' (sc_protocol s)) (sd_sections d) then ''dtls'' else ''none''))"

end
