(* ===== verification/Binding.thy ===== *)
theory Binding
  imports Binding_Model
begin

text \<open>Lemmas and properties of \<open>Binding_Model\<close>.\<close>

section \<open>One answer is applied\<close>

definition valid_answer :: "description \<Rightarrow> description \<Rightarrow> bool" where
  "valid_answer offer a \<longleftrightarrow> verdict_ok (check_answer offer a)"

lemma answer_legs_applied:
  "answer_legs offer (Some r) as = (Some r, map (\<lambda>a. (ds_from a, LegBye ''session.already-answered'')) as)"
  by (induction as) auto

text \<open>C40: When every answer names its sender (as every signed message does), of the answers to one offer exactly the first that passes
  the checks is applied: every leg before it is ended as failed, with the code of its refusal, and every leg after it as
  already answered; no answer is applied if none passes.\<close>

theorem first_valid_answer_applied:
  assumes "\<And>a. a \<in> set answers \<Longrightarrow> ds_from a \<noteq> None"
  shows "one_answer offer answers =
    (Option.bind (find (valid_answer offer) answers) ds_from,
     map (\<lambda>a. (ds_from a, LegFailed (code_of (check_answer offer a)))) (takeWhile (\<lambda>a. \<not> valid_answer offer a) answers)
     @ (case dropWhile (\<lambda>a. \<not> valid_answer offer a) answers of
          [] \<Rightarrow> []
        | a # as \<Rightarrow> (ds_from a, LegApplied) # map (\<lambda>b. (ds_from b, LegBye ''session.already-answered'')) as))"
  using assms unfolding one_answer_def
proof (induction answers)
  case (Cons a as)
  then obtain sender where "ds_from a = Some sender" by fastforce
  then show ?case using Cons by (auto simp: valid_answer_def answer_legs_applied)
qed simp

definition demo_answer :: "string \<Rightarrow> bool \<Rightarrow> description" where
  "demo_answer from good = \<lparr>ds_from = Some from,
     ds_transport = (if good then None else Some \<lparr>tp_id = Some ''transport:webrtc'', tp_ice = Some JNull, tp_sdp = None\<rparr>), ds_media = []\<rparr>"

theorem first_valid_answer_applied_witness:
  "one_answer (demo_answer ''x'' True) [demo_answer ''a'' False, demo_answer ''b'' True, demo_answer ''c'' True] =
    (Some ''b'', [(Some ''a'', LegFailed ''binding-ice-mode''), (Some ''b'', LegApplied), (Some ''c'', LegBye ''session.already-answered'')])"
proof -
  let ?as = "[demo_answer ''a'' False, demo_answer ''b'' True, demo_answer ''c'' True]"
  have "check_answer (demo_answer ''x'' True) (demo_answer f g) = (if g then NotWebrtc else Refused ''binding-ice-mode'' ''media.failed'')" for f g
    by (simp add: check_answer_def check_description_def demo_answer_def bad_def)
  then have "valid_answer (demo_answer ''x'' True) (demo_answer f g) = g" and "code_of (check_answer (demo_answer ''x'' True) (demo_answer f False)) = ''binding-ice-mode''" for f g
    by (simp_all add: valid_answer_def verdict_ok_def code_of_def)
  moreover have sender: "\<And>a. a \<in> set ?as \<Longrightarrow> ds_from a \<noteq> None" by (auto simp: demo_answer_def)
  moreover have "ds_from (demo_answer f g) = Some f" for f g by (simp add: demo_answer_def)
  ultimately show ?thesis
    by (subst first_valid_answer_applied) (use sender in blast, simp)
qed

text \<open>Where an answer has no sender, the marker stays unset: two valid answers without one are both applied.\<close>

lemma senderless_answers_all_applied:
  assumes "ds_from a = None" "ds_from b = None" "valid_answer offer a" "valid_answer offer b"
  shows "one_answer offer [a, b] = (None, [(None, LegApplied), (None, LegApplied)])"
  using assms by (simp add: one_answer_def valid_answer_def)

section \<open>Candidates are sent, applied or dropped\<close>

fun cx_run :: "exchange \<Rightarrow> cx_event list \<Rightarrow> exchange \<times> cx_out list" where
  "cx_run x [] = (x, [])"
| "cx_run x (e # es) = (let (x1, o1) = exchange_step x e; (x2, o2) = cx_run x1 es in (x2, o1 @ o2))"

lemma cx_run_append:
  "cx_run x (es @ fs) = (let (x1, o1) = cx_run x es; (x2, o2) = cx_run x1 fs in (x2, o1 @ o2))"
  by (induction es arbitrary: x) (auto split: prod.splits)

text \<open>What an emission moves on: candidates sent, applied, dropped; end markers.\<close>

fun sent_by :: "cx_out \<Rightarrow> nat" where
  "sent_by (CxSendInfo n _) = n" | "sent_by _ = 0"

fun applied_by :: "cx_out \<Rightarrow> nat" where
  "applied_by (CxApply n) = n" | "applied_by _ = 0"

fun dropped_by :: "cx_out \<Rightarrow> nat" where
  "dropped_by (CxDropBuffered n) = n" | "dropped_by _ = 0"

fun end_marker :: "cx_out \<Rightarrow> bool" where
  "end_marker (CxSendInfo _ fin) = fin" | "end_marker _ = False"

definition moved :: "cx_out list \<Rightarrow> nat" where
  "moved out = sum_list (map (\<lambda>e. sent_by e + applied_by e + dropped_by e) out)"

definition markers :: "cx_out list \<Rightarrow> nat" where
  "markers out = length (filter end_marker out)"

text \<open>The candidates an event brings, unless the exchange ignores it.\<close>

definition brought :: "exchange \<Rightarrow> cx_event \<Rightarrow> nat" where
  "brought x e =
    (if ex_ended x then 0
     else (case e of
         CxLocal c \<Rightarrow> 1
       | CxRemoteInfo sender cands fin \<Rightarrow>
           if ex_peer x \<noteq> None \<and> sender \<noteq> ex_peer x \<or> ex_remote_end x then 0 else length cands
       | _ \<Rightarrow> 0))"

fun brought_in :: "exchange \<Rightarrow> cx_event list \<Rightarrow> nat" where
  "brought_in x [] = 0"
| "brought_in x (e # es) = brought x e + brought_in (fst (exchange_step x e)) es"

definition buffered :: "exchange \<Rightarrow> nat" where
  "buffered x = length (ex_local_buf x) + length (ex_remote_buf x)"

definition exchange_ok :: "exchange \<Rightarrow> bool" where
  "exchange_ok x \<longleftrightarrow> (ex_ended x \<longrightarrow> buffered x = 0)
     \<and> (ex_active x \<longrightarrow> ex_local_buf x = [] \<and> (ex_gathered x \<longrightarrow> ex_end_sent x \<or> ex_ended x))
     \<and> (ex_remote_applied x \<longrightarrow> ex_remote_buf x = [])"

lemma exchange_step_spec:
  assumes "exchange_ok x" "exchange_step x e = (x', out)"
  shows "exchange_ok x' \<and> buffered x + brought x e = moved out + buffered x'
    \<and> markers out + (if ex_end_sent x then 1 else 0) = (if ex_end_sent x' then 1 else 0)"
proof (cases "ex_ended x")
  case True
  then show ?thesis using assms by (auto simp: exchange_step_def moved_def markers_def brought_def)
next
  case False
  then have e: "exchange_event x e = (x', out)" using assms(2) by (simp add: exchange_step_def)
  note defs = exchange_ok_def moved_def markers_def brought_def buffered_def
  show ?thesis
  proof (cases e)
    case (CxRemoteInfo sender cands fin)
    have e': "remote_info sender cands fin x = (x', out)" using e CxRemoteInfo by simp
    show ?thesis
    proof (cases "ex_peer x \<noteq> None \<and> sender \<noteq> ex_peer x \<or> ex_remote_end x")
      case True
      then show ?thesis using assms(1) e' by (auto simp: remote_info_def brought_def CxRemoteInfo moved_def markers_def split: if_splits)
    next
      case taken: False
      have br: "brought x e = length cands" unfolding brought_def CxRemoteInfo using False taken by (simp only: if_False cx_event.case)
      define x1 where "x1 = (if cands = [] \<or> ex_remote_applied x then x else x\<lparr>ex_remote_buf := ex_remote_buf x @ cands\<rparr>)"
      define o1 where "o1 = (if cands = [] then [] else if ex_remote_applied x then [CxApply (length cands)]
        else [CxBuffer ''remote'' (length (ex_remote_buf x @ cands))])"
      have pair: "(if cands = [] then (x, []) else if ex_remote_applied x then (x, [CxApply (length cands)])
          else (x\<lparr>ex_remote_buf := ex_remote_buf x @ cands\<rparr>, [CxBuffer ''remote'' (length (ex_remote_buf x @ cands))])) = (x1, o1)"
        by (simp add: x1_def o1_def)
      have "x' = (if fin then x1\<lparr>ex_remote_end := True\<rparr> else x1) \<and> out = (if fin then o1 @ [CxRemoteEnd] else o1)"
        using e' taken unfolding remote_info_def pair Let_def prod.case by (simp only: de_Morgan_disj if_False simp_thms split: if_splits) simp_all
      then show ?thesis unfolding br using assms(1) False
        by (cases "cands = []"; cases "ex_remote_applied x"; cases fin; simp add: x1_def o1_def defs(1-3,5))
    qed
  next
    case CxActive
    then have "became_active x = (x', out)" using e by simp
    then show ?thesis using assms(1) False CxActive
      by (cases "ex_local_buf x = []"; cases "ex_gathered x"; cases "ex_end_sent x") (auto simp: became_active_def Let_def defs)
  next
    case CxGathered
    then show ?thesis using assms(1) e False by (cases "ex_active x"; cases "ex_end_sent x") (auto simp: defs)
  next
    case (CxLocal c)
    then show ?thesis using assms(1) e False by (cases "ex_active x") (auto simp: defs)
  next
    case CxRemoteDescription
    then show ?thesis using assms(1) e False by (cases "ex_remote_buf x = []") (auto simp: defs)
  next
    case CxSessionEnd
    then show ?thesis using assms(1) e False by (cases "ex_remote_buf x \<noteq> [] \<or> ex_local_buf x \<noteq> []") (auto simp: defs)
  qed
qed

lemma cx_run_spec:
  assumes "exchange_ok x" "cx_run x es = (x', out)"
  shows "exchange_ok x' \<and> buffered x + brought_in x es = moved out + buffered x'
    \<and> markers out + (if ex_end_sent x then 1 else 0) = (if ex_end_sent x' then 1 else 0)"
  using assms
proof (induction es arbitrary: x out)
  case Nil
  then show ?case by (simp add: moved_def markers_def)
next
  case (Cons e es)
  obtain x1 o1 where s: "exchange_step x e = (x1, o1)" by force
  obtain x2 o2 where r: "cx_run x1 es = (x2, o2)" by force
  have x2: "x2 = x'" "out = o1 @ o2" using Cons.prems(2) s r by auto
  note one = exchange_step_spec [OF Cons.prems(1) s]
  note rest = Cons.IH [OF conjunct1 [OF one] r [unfolded x2(1)]]
  have sums: "moved out = moved o1 + moved o2" "markers out = markers o1 + markers o2"
    by (simp_all add: x2(2) moved_def markers_def)
  have "brought_in x (e # es) = brought x e + brought_in x1 es" by (simp add: s)
  then show ?case using one rest unfolding sums by linarith
qed

text \<open>No candidate is lost or used twice. Whatever the order of the events, the candidates the exchange took in, its own and the
  peer's, are those it sent, applied or dropped plus those it still buffers, and none is buffered once the session has ended;
  while the session is active all its own are sent; and the end marker is sent at most once, and has been sent when the
  session is active and gathering is complete.
\<close>

theorem candidates_conserved:
  assumes "cx_run (init_exchange peer) es = (x, out)"
  shows "brought_in (init_exchange peer) es = moved out + buffered x
    \<and> (ex_ended x \<longrightarrow> buffered x = 0) \<and> (ex_active x \<longrightarrow> ex_local_buf x = []) \<and> markers out \<le> 1
    \<and> (ex_active x \<and> ex_gathered x \<and> \<not> ex_ended x \<longrightarrow> markers out = 1)"
proof -
  have "exchange_ok (init_exchange peer)" by (simp add: exchange_ok_def init_exchange_def buffered_def)
  note spec = cx_run_spec [OF this assms]
  have "buffered (init_exchange peer) = 0" "\<not> ex_end_sent (init_exchange peer)" by (simp_all add: init_exchange_def buffered_def)
  with spec show ?thesis by (cases "ex_end_sent x") (simp_all add: exchange_ok_def)
qed

theorem candidates_conserved_witness:
  "\<exists>x out. cx_run (init_exchange None) [CxLocal ''a'', CxGathered, CxActive, CxRemoteInfo None [''b''] False, CxSessionEnd] = (x, out)
    \<and> markers out \<le> 1 \<and> moved out = 2"
proof -
  let ?es = "[CxLocal ''a'', CxGathered, CxActive, CxRemoteInfo None [''b''] False, CxSessionEnd]"
  obtain x out where r: "cx_run (init_exchange None) ?es = (x, out)" by force
  have "brought_in (init_exchange None) ?es = 2" "ex_ended x"
    using r by (auto simp: init_exchange_def exchange_step_def brought_def became_active_def remote_info_def Let_def split: if_splits)
  then show ?thesis using r candidates_conserved [OF r] by auto
qed

section \<open>Media across the gateway\<close>

lemma foldl_collect:
  "set (foldl (\<lambda>cs e. case f e of None \<Rightarrow> cs | Some c \<Rightarrow> if c \<in> set cs then cs else cs @ [c]) cs0 es)
     = set cs0 \<union> {c. \<exists>e\<in>set es. f e = Some c}"
  "distinct cs0 \<Longrightarrow> distinct (foldl (\<lambda>cs e. case f e of None \<Rightarrow> cs | Some c \<Rightarrow> if c \<in> set cs then cs else cs @ [c]) cs0 es)"
  by (induction es arbitrary: cs0) (auto split: option.splits)

lemma section_codecs_set: "set (section_codecs s) = {c. \<exists>e\<in>set (encodings s). dget ENCODING_TO_CODEC e = Some c}"
  "distinct (section_codecs s)"
  by (simp_all add: section_codecs_def foldl_collect)

lemma codec_tables: "dget ENCODING_TO_CODEC e = Some c \<longleftrightarrow> (\<exists>n. dget CODEC_ENCODING c = Some n \<and> lower n = e)"
proof -
  have tab: "ENCODING_TO_CODEC = [(''opus'', ''codec:audio/opus''), (''pcmu'', ''codec:audio/pcmu''), (''pcma'', ''codec:audio/pcma''),
     (''g722'', ''codec:audio/g722''), (''h264'', ''codec:video/h264''), (''vp8'', ''codec:video/vp8''),
     (''vp9'', ''codec:video/vp9''), (''av1'', ''codec:video/av1'')]"
    unfolding ENCODING_TO_CODEC_def CODEC_ENCODING_def by code_simp
  have low: "lower ''opus'' = ''opus''" "lower ''PCMU'' = ''pcmu''" "lower ''PCMA'' = ''pcma''" "lower ''G722'' = ''g722''"
     "lower ''H264'' = ''h264''" "lower ''VP8'' = ''vp8''" "lower ''VP9'' = ''vp9''" "lower ''AV1'' = ''av1''" by code_simp+
  show ?thesis unfolding tab CODEC_ENCODING_def by (auto simp: low split: if_splits)
qed

lemma descriptor_of_section:
  assumes "section_descriptor d s = Some m"
  shows "sc_kind s = de_type m" "media_direction (session_default d) s = de_direction m" "\<not> list_ex (codec_missing s) (de_codecs m)"
    "set (de_codecs m) = Some ` set (section_codecs s)" "distinct (de_codecs m)" "section_codecs s \<noteq> []"
proof -
  have ok: "section_codecs s \<noteq> []" and m: "m = \<lparr>de_type = sc_kind s, de_codecs = map Some (section_codecs s), de_direction = media_direction (session_default d) s\<rparr>"
    using assms by (auto simp: section_descriptor_def split: if_splits)
  then show "sc_kind s = de_type m" "media_direction (session_default d) s = de_direction m" "section_codecs s \<noteq> []"
    "set (de_codecs m) = Some ` set (section_codecs s)" by simp_all
  show "distinct (de_codecs m)" using section_codecs_set(2) by (simp add: m distinct_map)
  show "\<not> list_ex (codec_missing s) (de_codecs m)"
    by (auto simp: m list_ex_iff codec_missing_def section_codecs_set codec_tables)
qed

definition known_encoding :: "string \<Rightarrow> bool" where
  "known_encoding e \<longleftrightarrow> dget ENCODING_TO_CODEC e \<noteq> None"

lemma known_filter:
  "\<forall>c\<in>set cs. \<exists>n. dget t c = Some n \<Longrightarrow> List.map_filter (\<lambda>c. Option.bind c (dget t)) (map Some cs) = map (\<lambda>c. the (dget t c)) cs"
  by (induction cs) (auto simp: List.map_filter_simps)

lemma encodings_back:
  assumes "section_descriptor d s = Some m"
  shows "\<exists>l. descriptors_to_sip_sdp [m] = [l] \<and> ml_kind l = sc_kind s \<and> Some (ml_direction l) = media_direction (session_default d) s
    \<and> lower ` set (ml_encodings l) = {e \<in> set (encodings s). known_encoding e} \<and> distinct (map lower (ml_encodings l))"
proof -
  note ds = descriptor_of_section [OF assms]
  define cs where "cs = section_codecs s"
  have m: "m = \<lparr>de_type = sc_kind s, de_codecs = map Some cs, de_direction = media_direction (session_default d) s\<rparr>"
    using assms by (auto simp: section_descriptor_def cs_def split: if_splits)
  have known: "\<exists>n. dget CODEC_ENCODING c = Some n \<and> lower n \<in> set (encodings s) \<and> dget ENCODING_TO_CODEC (lower n) = Some c" if "c \<in> set cs" for c
    using that unfolding cs_def section_codecs_set codec_tables by auto
  define encs where "encs = map (\<lambda>c. the (dget CODEC_ENCODING c)) cs"
  have mf: "List.map_filter (\<lambda>c. Option.bind c (dget CODEC_ENCODING)) (map Some cs) = encs"
    unfolding encs_def by (rule known_filter) (use known in blast)
  have ne: "encs \<noteq> []" using ds(6) by (simp add: encs_def cs_def)
  have "media_direction (session_default d) s \<noteq> None" by (simp add: media_direction_def session_default_def split: option.split)
  then obtain dir where dir: "media_direction (session_default d) s = Some dir" by blast
  have "lower ` set encs = {e \<in> set (encodings s). known_encoding e}" (is "?L = ?R")
  proof
    show "?L \<subseteq> ?R" using known by (fastforce simp: encs_def known_encoding_def)
    show "?R \<subseteq> ?L"
    proof
      fix e assume "e \<in> ?R"
      then obtain c where "e \<in> set (encodings s)" and c: "dget ENCODING_TO_CODEC e = Some c" by (auto simp: known_encoding_def)
      then have "c \<in> set cs" by (auto simp: cs_def section_codecs_set)
      moreover obtain n where "dget CODEC_ENCODING c = Some n" "lower n = e" using c codec_tables by blast
      ultimately show "e \<in> ?L" by (force simp: encs_def)
    qed
  qed
  moreover have "distinct (map lower encs)"
  proof -
    have "inj_on (\<lambda>c. lower (the (dget CODEC_ENCODING c))) (set cs)"
      by (rule inj_onI) (metis known option.inject option.sel)
    then show ?thesis using section_codecs_set(2) [of s] by (simp add: encs_def distinct_map comp_def cs_def)
  qed
  moreover have "descriptors_to_sip_sdp [m] = [\<lparr>ml_kind = sc_kind s, ml_encodings = encs, ml_direction = dir\<rparr>]"
    using mf ne dir by (simp add: descriptors_to_sip_sdp_def m List.map_filter_simps)
  ultimately show ?thesis using dir by simp
qed

lemma descriptors_Cons:
  "descriptors_to_sip_sdp (m # ms) = descriptors_to_sip_sdp [m] @ descriptors_to_sip_sdp ms"
  by (simp add: descriptors_to_sip_sdp_def List.map_filter_simps Let_def)

definition carried :: "sdp \<Rightarrow> section_ \<Rightarrow> m_line \<Rightarrow> bool" where
  "carried d s l \<longleftrightarrow> ml_kind l = sc_kind s \<and> Some (ml_direction l) = media_direction (session_default d) s
     \<and> lower ` set (ml_encodings l) = {e \<in> set (encodings s). known_encoding e} \<and> distinct (map lower (ml_encodings l))"

definition mappable :: "section_ \<Rightarrow> bool" where
  "mappable s \<longleftrightarrow> sc_port s \<noteq> 0 \<and> sc_kind s \<in> {''audio'', ''video''} \<and> (\<exists>e\<in>set (encodings s). known_encoding e)"

lemma mappable_descriptor: "mappable s \<longleftrightarrow> section_descriptor d s \<noteq> None"
proof -
  have "section_codecs s \<noteq> [] \<longleftrightarrow> (\<exists>e\<in>set (encodings s). known_encoding e)"
    using section_codecs_set(1) [of s] by (auto simp: known_encoding_def simp flip: set_empty)
  then show ?thesis by (auto simp: mappable_def section_descriptor_def)
qed

lemma sections_back:
  "list_all2 (carried d) (filter mappable ss) (descriptors_to_sip_sdp (List.map_filter (section_descriptor d) ss))"
proof (induction ss)
  case Nil
  show ?case by (simp add: descriptors_to_sip_sdp_def List.map_filter_simps)
next
  case (Cons s ss)
  show ?case
  proof (cases "section_descriptor d s")
    case None
    then show ?thesis using Cons mappable_descriptor [of s d] by (simp add: List.map_filter_simps)
  next
    case (Some m)
    obtain l where l: "descriptors_to_sip_sdp [m] = [l]" "carried d s l"
      using encodings_back [OF Some] by (auto simp: carried_def)
    have "mappable s" using mappable_descriptor [of s d] Some by simp
    then show ?thesis
      using Cons l descriptors_Cons [of m "List.map_filter (section_descriptor d) ss"] Some by (simp add: List.map_filter_simps)
  qed
qed

text \<open>Media survives the crossing of the gateway. The descriptors made from a trunk's SDP, turned back into media lines, give one
  line for each live audio or video section with an encoding of the table, in order, with the section's kind and direction and
  with exactly the section's known encodings, each once.
\<close>

theorem trunk_media_roundtrip:
  assumes "sip_sdp_to_descriptors text = Some (media, srtp)"
  shows "\<exists>d. parse_sdp text = Some d \<and> list_all2 (carried d) (filter mappable (sd_sections d)) (descriptors_to_sip_sdp media)"
  using assms sections_back by (auto simp: sip_sdp_to_descriptors_def split: option.splits)

definition demo_sdp :: string where
  "demo_sdp = ''v=0'' @ [char_of (13 :: nat), char_of (10 :: nat)] @ ''m=audio 9 RTP/AVP 0'' @ [char_of (10 :: nat)]
     @ ''a=rtpmap:0 PCMU/8000'' @ [char_of (10 :: nat)] @ ''a=sendonly''"

theorem trunk_media_roundtrip_witness:
  "\<exists>d. parse_sdp demo_sdp = Some d
     \<and> list_all2 (carried d) (filter mappable (sd_sections d))
         (descriptors_to_sip_sdp [\<lparr>de_type = ''audio'', de_codecs = [Some ''codec:audio/pcmu''], de_direction = Some ''sendonly''\<rparr>])"
proof -
  have "sip_sdp_to_descriptors demo_sdp
      = Some ([\<lparr>de_type = ''audio'', de_codecs = [Some ''codec:audio/pcmu''], de_direction = Some ''sendonly''\<rparr>], ''none'')"
    by code_simp
  from trunk_media_roundtrip [OF this] show ?thesis .
qed

end
