(* ===== verification/Presence.thy ===== *)
theory Presence
  imports Registry
begin

text \<open>
  A subscriber's view of one identity's presence, \<^verbatim>\<open>dsipvec/presence.py\<close>: \<open>effective_state\<close>, \<open>aggregate\<close> and \<open>view\<close>. Opening a
  sealed record is cryptography and a parameter.
\<close>

definition RANK :: "(string, int) dict" where
  "RANK = [(''dnd'', 4), (''busy'', 3), (''available'', 2), (''away'', 1), (''offline'', 0)]"

definition effective_state :: "string \<Rightarrow> string" where
  "effective_state token = (if token \<in> set PRESENCE_STATES then token else PRESENCE_STATE_FALLBACK)"

record precord =
  pc_state :: string
  pc_expires_at :: int

record pview =
  pv_state :: string
  pv_token :: string
  pv_source :: string

text \<open>The order of the candidates: rank, records before the assertion, registered states first, then the tokens themselves.\<close>

definition candidate_key :: "string \<times> string \<Rightarrow> int \<times> bool \<times> bool \<times> string" where
  "candidate_key c = (case c of (token, source) \<Rightarrow>
     (- dget_or RANK (effective_state token) 0, source \<noteq> ''record'', token \<notin> set PRESENCE_STATES, token))"

text \<open>Python's \<open>min(xs, key=f)\<close>: the first of the least.\<close>

fun min_by :: "('a \<Rightarrow> 'k::linorder) \<Rightarrow> 'a \<Rightarrow> 'a list \<Rightarrow> 'a" where
  "min_by f x [] = x"
| "min_by f x (y # ys) = min_by f (if f y < f x then y else x) ys"

definition aggregate :: "precord list \<Rightarrow> string option \<Rightarrow> int \<Rightarrow> pview" where
  "aggregate records asserted now =
    (let candidates = map (\<lambda>r. (pc_state r, ''record'')) (filter (\<lambda>r. pc_expires_at r > now) records)
           @ (if asserted = Some ''available'' then [(''available'', ''assertion'')] else [])
     in case candidates of
          [] \<Rightarrow> \<lparr>pv_state = ''offline'', pv_token = ''offline'', pv_source = ''none''\<rparr>
        | c # cs \<Rightarrow> (case min_by candidate_key c cs of (token, source) \<Rightarrow>
            \<lparr>pv_state = effective_state token, pv_token = token, pv_source = source\<rparr>))"

text \<open>A held record, plain or sealed: \<open>open_record\<close> gives the state of a sealed one, or None.\<close>

record 'b held_record =
  hr_device :: string
  hr_state :: "string + 'b"
  hr_expires_at :: int

definition plain :: "('b \<Rightarrow> string option) \<Rightarrow> 'b held_record \<Rightarrow> precord option" where
  "plain open_record r = map_option (\<lambda>s. \<lparr>pc_state = s, pc_expires_at = hr_expires_at r\<rparr>)
     (case hr_state r of Inl s \<Rightarrow> Some s | Inr sealed \<Rightarrow> open_record sealed)"

definition view :: "('b \<Rightarrow> string option) \<Rightarrow> 'b held_record list \<Rightarrow> string option \<Rightarrow> int \<Rightarrow> pview \<times> string list" where
  "view open_record records asserted now =
    (aggregate (List.map_filter (plain open_record) records) asserted now,
     sorted_list_of_set (set (map hr_device (filter (\<lambda>r. plain open_record r = None) records))))"

lemma min_by_least: "\<forall>y\<in>set (x # xs). f (min_by f x xs) \<le> f y"
  by (induction xs arbitrary: x) (fastforce split: if_splits)+

lemma min_by_in: "min_by f x xs \<in> set (x # xs)"
  by (induction xs arbitrary: x) auto

lemma candidate_key_inj: "candidate_key (t, s) = candidate_key (t', s') \<Longrightarrow> t = t' \<and> (s = ''record'' \<longleftrightarrow> s' = ''record'')"
  by (auto simp: candidate_key_def)

text \<open>The candidates of an aggregation.\<close>

definition live_candidates :: "precord list \<Rightarrow> string option \<Rightarrow> int \<Rightarrow> (string \<times> string) list" where
  "live_candidates records asserted now = map (\<lambda>r. (pc_state r, ''record'')) (filter (\<lambda>r. pc_expires_at r > now) records)
     @ (if asserted = Some ''available'' then [(''available'', ''assertion'')] else [])"

lemma live_sources: "(t, s) \<in> set (live_candidates records asserted now) \<Longrightarrow> s = ''record'' \<or> s = ''assertion''"
  by (auto simp: live_candidates_def split: if_splits)

lemma least_unique:
  assumes "set cs = set cs'" "cs = x # xs" "cs' = y # ys" "\<And>t s. (t, s) \<in> set cs \<Longrightarrow> s = ''record'' \<or> s = ''assertion''"
  shows "min_by candidate_key x xs = min_by candidate_key y ys"
proof -
  let ?a = "min_by candidate_key x xs" and ?b = "min_by candidate_key y ys"
  have in_cs: "?a \<in> set cs" "?b \<in> set cs" using min_by_in [of candidate_key x xs] min_by_in [of candidate_key y ys] assms(1) unfolding assms(2,3) by blast+
  have "candidate_key ?a \<le> candidate_key ?b" "candidate_key ?b \<le> candidate_key ?a"
    using bspec [OF min_by_least [of x xs candidate_key], of ?b] bspec [OF min_by_least [of y ys candidate_key], of ?a] in_cs assms(1)
    unfolding assms(2,3) by blast+
  then have "candidate_key ?a = candidate_key ?b" by (rule antisym)
  moreover obtain ta sa tb sb where ab: "?a = (ta, sa)" "?b = (tb, sb)" by fastforce
  ultimately have "ta = tb" "sa = ''record'' \<longleftrightarrow> sb = ''record''" using candidate_key_inj [of ta sa tb sb] by auto
  moreover have "sa = ''record'' \<or> sa = ''assertion''" "sb = ''record'' \<or> sb = ''assertion''"
    using in_cs assms(4) unfolding ab by blast+
  ultimately have "(ta, sa) = (tb, sb)" by auto
  then show ?thesis unfolding ab .
qed

lemma effective_state_registered: "effective_state t \<in> set PRESENCE_STATES"
  by (simp add: effective_state_def PRESENCE_STATES_def PRESENCE_STATE_FALLBACK_def)

lemma aggregate_registered: "pv_state (aggregate records asserted now) \<in> set PRESENCE_STATES"
proof -
  have "''offline'' \<in> set PRESENCE_STATES" by (simp add: PRESENCE_STATES_def)
  then show ?thesis
    by (auto simp: aggregate_def Let_def effective_state_registered split: list.split prod.split)
qed

lemma aggregate_set:
  assumes "set (live_candidates records asserted now) = set (live_candidates records' asserted now)"
  shows "aggregate records asserted now = aggregate records' asserted now"
proof (cases "live_candidates records asserted now")
  case Nil
  then have "live_candidates records' asserted now = []" using assms by simp
  with Nil show ?thesis by (simp add: aggregate_def flip: live_candidates_def)
next
  case (Cons x xs)
  then obtain y ys where c': "live_candidates records' asserted now = y # ys" using assms by (cases "live_candidates records' asserted now") auto
  have "min_by candidate_key x xs = min_by candidate_key y ys"
    by (rule least_unique [OF assms Cons c']) (rule live_sources)
  then show ?thesis unfolding aggregate_def Let_def by (fold live_candidates_def) (simp add: Cons c')
qed

text \<open>An identity's presence does not depend on the order in which its devices' records came, on repetitions, or on records that
  have expired; it is always a registered state; and no record that still runs ranks above it.
\<close>

theorem presence_order_free:
  assumes "pc_state ` {r \<in> set records. now < pc_expires_at r} = pc_state ` {r \<in> set records'. now < pc_expires_at r}"
  shows "aggregate records asserted now = aggregate records' asserted now
    \<and> pv_state (aggregate records asserted now) \<in> set PRESENCE_STATES
    \<and> (\<forall>r\<in>set records. now < pc_expires_at r \<longrightarrow>
         dget_or RANK (effective_state (pc_state r)) 0 \<le> dget_or RANK (pv_state (aggregate records asserted now)) 0)"
proof -
  have set_c: "set (live_candidates rs asserted now) = (\<lambda>t. (t, ''record'')) ` pc_state ` {r \<in> set rs. now < pc_expires_at r}
      \<union> set (if asserted = Some ''available'' then [(''available'', ''assertion'')] else [])" for rs
    by (auto simp: live_candidates_def)
  have "dget_or RANK (effective_state (pc_state r)) 0 \<le> dget_or RANK (pv_state (aggregate records asserted now)) 0"
    if "r \<in> set records" "now < pc_expires_at r" for r
  proof -
    have in_c: "(pc_state r, ''record'') \<in> set (live_candidates records asserted now)" using that by (auto simp: live_candidates_def)
    then obtain x xs where c: "live_candidates records asserted now = x # xs" by (cases "live_candidates records asserted now") auto
    have "candidate_key (min_by candidate_key x xs) \<le> candidate_key (pc_state r, ''record'')"
      using min_by_least [of x xs candidate_key] in_c unfolding c by blast
    then have "dget_or RANK (effective_state (pc_state r)) 0 \<le> dget_or RANK (effective_state (fst (min_by candidate_key x xs))) 0"
      by (cases "min_by candidate_key x xs") (auto simp: candidate_key_def)
    moreover have "pv_state (aggregate records asserted now) = effective_state (fst (min_by candidate_key x xs))"
      unfolding aggregate_def Let_def by (fold live_candidates_def) (simp add: c split: prod.split)
    ultimately show ?thesis by simp
  qed
  moreover have "aggregate records asserted now = aggregate records' asserted now"
    by (rule aggregate_set) (simp only: set_c assms)
  ultimately show ?thesis using aggregate_registered by blast
qed

theorem presence_order_free_witness:
  "pv_state (aggregate [\<lparr>pc_state = ''away'', pc_expires_at = 9\<rparr>, \<lparr>pc_state = ''dnd'', pc_expires_at = 9\<rparr>] None 5)
    = pv_state (aggregate [\<lparr>pc_state = ''dnd'', pc_expires_at = 9\<rparr>, \<lparr>pc_state = ''busy'', pc_expires_at = 3\<rparr>, \<lparr>pc_state = ''away'', pc_expires_at = 9\<rparr>] None 5)"
proof -
  have eq: "pc_state ` {r \<in> set [\<lparr>pc_state = ''away'', pc_expires_at = 9\<rparr>, \<lparr>pc_state = ''dnd'', pc_expires_at = 9\<rparr>]. (5 :: int) < pc_expires_at r}
    = pc_state ` {r \<in> set [\<lparr>pc_state = ''dnd'', pc_expires_at = 9\<rparr>, \<lparr>pc_state = ''busy'', pc_expires_at = 3\<rparr>, \<lparr>pc_state = ''away'', pc_expires_at = 9\<rparr>]. 5 < pc_expires_at r}"
    (is "_ ` ?A = _ ` ?B")
  proof -
    have "?A = ?B" by auto
    then show ?thesis by simp
  qed
  from presence_order_free [OF eq, of None] show ?thesis by simp
qed

end
