(* ===== verification/Semantic.thy ===== *)
theory Semantic
  imports Envelope Presence
begin

text \<open>
  The checks on the meaning of a verified payload, \<^verbatim>\<open>dsipvec/semantic.py\<close>: version negotiation, the subset rule of an answer, the
  stateless checks of the message types and the registry effects. JSON Schema validation and the opening of a
  ciphertext (HPKE) are parameters.
\<close>

definition SEMANTIC_INTRODUCTION_MAX_BYTES :: int where "SEMANTIC_INTRODUCTION_MAX_BYTES = 4096"

definition DIRECTION_ANSWERS :: "(string, string list) dict" where
  "DIRECTION_ANSWERS = [(''sendrecv'', [''sendrecv'', ''sendonly'', ''recvonly'', ''inactive'']), (''sendonly'', [''recvonly'', ''inactive'']),
     (''recvonly'', [''sendonly'', ''inactive'']), (''inactive'', [''inactive''])]"

section \<open>Version\<close>

text \<open>\<open>_ver\<close>: two integers around one dot.\<close>

definition ver :: "json option \<Rightarrow> (int \<times> int) option" where
  "ver s =
    (case jstr s of
       None \<Rightarrow> None
     | Some t \<Rightarrow>
         (case split CHR ''.'' t of
            [a, b] \<Rightarrow> (case (py_int a, py_int b) of (Some m, Some n) \<Rightarrow> Some (m, n) | _ \<Rightarrow> None)
          | _ \<Rightarrow> None))"

text \<open>What the receiver supports. A test for membership in a set raises on a list or a dict.\<close>

record supported =
  su_core :: string
  su_profiles :: "string list"
  su_extensions :: "string list"

definition hashable :: "json \<Rightarrow> bool" where
  "hashable j = (case j of JList _ \<Rightarrow> False | JDict _ \<Rightarrow> False | _ \<Rightarrow> True)"

fun check_critical :: "string list \<Rightarrow> json list \<Rightarrow> unit res" where
  "check_critical known [] = Ok ()"
| "check_critical known (c # cs) =
    (if \<not> hashable c then Raises
     else if c \<notin> JStr ` set known then Rej ''version-unsupported'' (Some ''session.unsupported-critical-extension'')
     else check_critical known cs)"

fun any_known :: "string list \<Rightarrow> json list \<Rightarrow> bool res" where
  "any_known known [] = Ok False"
| "any_known known (p # ps) =
    (if \<not> hashable p then Raises else if p \<in> JStr ` set known then Ok True else any_known known ps)"

definition check_version :: "json \<Rightarrow> supported \<Rightarrow> unit res" where
  "check_version payload su =
    (case jget ''dsip'' payload of
       None \<Rightarrow> Ok ()
     | Some blk \<Rightarrow>
         if \<not> is_dict blk then Ok ()
         else
           (case (ver (jget ''core'' blk), ver (jget ''min_core'' blk), ver (Some (JStr (su_core su)))) of
              (Some core, Some min_core, Some mine) \<Rightarrow>
                if fst core \<noteq> fst mine \<or> min_core > mine then Rej ''version-unsupported'' (Some ''session.unsupported-core-version'')
                else
                  (let known = su_profiles su @ su_extensions su
                   in rbind (case jlist (jget ''critical'' blk) of None \<Rightarrow> Ok () | Some crit \<Rightarrow> check_critical known crit) (\<lambda>_.
                      case jlist (jget ''profiles'' blk) of
                        None \<Rightarrow> Ok ()
                      | Some ps \<Rightarrow>
                          if ps = [] then Ok ()
                          else rbind (any_known known ps) (\<lambda>b.
                            if b then Ok () else Rej ''version-unsupported'' (Some ''session.unsupported-profile-version''))))
            | _ \<Rightarrow> Ok ()))"

section \<open>Selection\<close>

definition jelems :: "string \<Rightarrow> json \<Rightarrow> json list" where
  "jelems k j = (case jlist (jget k j) of None \<Rightarrow> [] | Some xs \<Rightarrow> xs)"

definition direction_answers :: "json option \<Rightarrow> json option \<Rightarrow> bool" where
  "direction_answers offered selected =
    (case (jstr offered, jstr selected) of
       (Some d, Some s) \<Rightarrow> s \<in> set (dget_or DIRECTION_ANSWERS d [])
     | _ \<Rightarrow> False)"

text \<open>One selected description against the first offered one of its type and purpose.\<close>

definition section_selected :: "json list \<Rightarrow> json \<Rightarrow> bool" where
  "section_selected offered sel =
    (case find (\<lambda>off. jget ''type'' off = jget ''type'' sel \<and> jget ''purpose'' off = jget ''purpose'' sel) offered of
       None \<Rightarrow> False
     | Some m \<Rightarrow>
         list_all (\<lambda>c. jget ''id'' c \<in> jget ''id'' ` set (jelems ''codecs'' m)) (jelems ''codecs'' sel)
         \<and> direction_answers (jget ''direction'' m) (jget ''direction'' sel))"

definition selection_is_subset :: "json \<Rightarrow> json \<Rightarrow> bool" where
  "selection_is_subset selection offer \<longleftrightarrow>
     list_all (section_selected (jelems ''media'' offer)) (jelems ''media'' selection)
     \<and> list_all (\<lambda>t. jget ''id'' t \<in> jget ''id'' ` set (jelems ''transports'' offer)) (jelems ''transports'' selection)"

section \<open>The checks of the types\<close>

record sem_context =
  sm_sent_hello :: "json option"
  sm_offer :: "json option"
  sm_size :: "int option"
  sm_signer_kid :: "string option"
  sm_introductions :: "json list option"
  sm_held_grants :: "json list"

definition has :: "string \<Rightarrow> json \<Rightarrow> bool" where
  "has k p \<longleftrightarrow> jget k p \<noteq> None"

definition cap_exceeded :: "int option \<Rightarrow> json \<Rightarrow> bool" where
  "cap_exceeded expires_in ev =
    (case Option.bind (jstr (Some ev)) (dget SUBSCRIPTION_EVENTS) of
       None \<Rightarrow> False
     | Some cap \<Rightarrow> (case expires_in of None \<Rightarrow> False | Some n \<Rightarrow> n > cap))"

definition sealed_presence_ok :: "json \<Rightarrow> bool" where
  "sealed_presence_ok p \<longleftrightarrow>
     (case jlist (Option.bind (jget ''dsip'' p) (jget ''profiles'')) of None \<Rightarrow> False | Some ps \<Rightarrow> JStr ''presence/0.2'' \<in> set ps)
     \<and> jget ''audience'' p \<noteq> Some (JStr ''main'')
     \<and> (case jstr (jget ''kid'' p) of
          None \<Rightarrow> False
        | Some kid \<Rightarrow>
            (if CHR ''.'' \<in> set kid then fst (rpartition CHR ''.'' kid) else kid)
              = (case jstr (jget ''audience'' p) of Some a \<Rightarrow> if a = [] then ''main'' else a | None \<Rightarrow> ''main''))"

text \<open>The first failing check of a type, as its code and reason. The members read were required by the schema.\<close>

definition type_failure :: "string \<Rightarrow> json \<Rightarrow> sem_context \<Rightarrow> (string \<times> string option) option" where
  "type_failure t p ctx =
    (if t = ''hello'' \<and> has ''in_reply_to'' p \<and> sm_sent_hello ctx \<noteq> None \<and> jget ''in_reply_to'' p \<noteq> sm_sent_hello ctx
     then Some (''hello-in-reply-to-mismatch'', None)
     else if t = ''answer'' \<and> (case sm_offer ctx of None \<Rightarrow> False | Some o1 \<Rightarrow> is_dict o1 \<and> \<not> selection_is_subset p o1)
     then Some (''selection-not-subset'', None)
     else if t = ''subscribe'' \<and> list_ex (cap_exceeded (jint (jget ''expires_in'' p))) (jelems ''events'' p)
     then Some (''subscription-lifetime-exceeded'', Some ''policy.subscription-lifetime'')
     else if t = ''introduction'' \<and> (case sm_size ctx of None \<Rightarrow> False | Some n \<Rightarrow> n > SEMANTIC_INTRODUCTION_MAX_BYTES)
     then Some (''introduction-too-large'', None)
     else if t = ''introduction'' \<and> has ''purpose'' p \<and> has ''sealed'' p then Some (''introduction-purpose-and-sealed'', None)
     else if t = ''delegation-revocation'' \<and> jget ''subject'' p \<noteq> jget ''from'' p then Some (''revocation-subject-mismatch'', None)
     else if t = ''delegation-revocation''
       \<and> (case sm_signer_kid ctx of None \<Rightarrow> False | Some k \<Rightarrow> jget ''subject'' p \<noteq> Some (JStr (before_sep CHR ''#'' k)))
     then Some (''revocation-signer-not-subject'', None)
     else if t = ''grant'' \<and> (case sm_introductions ctx of None \<Rightarrow> False
         | Some ks \<Rightarrow> jget ''session'' p \<notin> Some ` set ks \<and> jget ''session'' p \<notin> Some ` set (sm_held_grants ctx))
     then Some (''grant-unknown-introduction'', None)
     else if t = ''presence'' \<and> has ''device'' p \<and> jget ''device'' p \<noteq> jget ''from'' p
     then Some (''presence-signer-mismatch'', Some ''presence.signer-mismatch'')
     else if t = ''presence'' \<and> has ''sealed_state'' p \<and> \<not> sealed_presence_ok p
     then Some (''presence-sealed-invalid'', Some ''presence.sealed-invalid'')
     else if t = ''key-rotation'' \<and> jget ''subject'' p \<noteq> jget ''from'' p then Some (''rotation-subject-mismatch'', None)
     else if t = ''key-rotation'' \<and> jget ''next'' p = jget ''previous'' p then Some (''rotation-next-same-as-previous'', None)
     else if t = ''key-rotation'' \<and> (case sm_signer_kid ctx of None \<Rightarrow> False
         | Some k \<Rightarrow> jget ''recovery'' p \<noteq> Some (JBool True) \<and> jget ''previous'' p \<noteq> Some (JStr k))
     then Some (''rotation-signer-not-previous'', None)
     else None)"

section \<open>Registry effects\<close>

record effects =
  ef_reason :: "(string \<times> fallback) option"
  ef_answered_by :: "string option"
  ef_status :: "string option"
  ef_state :: "string option"
  ef_integrity :: "string option"
  ef_warnings :: "string list"

definition registry_effects :: "string \<Rightarrow> json \<Rightarrow> effects" where
  "registry_effects t p =
    (let reason = (if t \<in> set REASON_BEARING_TYPES \<or> t = ''notify'' then jstr (jget ''reason'' p) else None);
         state = (if t = ''presence'' then jstr (jget ''state'' p) else None);
         integrity = (if t = ''publish'' then jstr (jget ''integrity'' p) else None)
     in \<lparr>ef_reason = map_option (\<lambda>r. (rr_effective (resolve_reason r t), rr_fallback (resolve_reason r t))) reason,
         ef_answered_by = (if t \<in> {''answer'', ''update''} then map_option effective_answered_by (jstr (jget ''answered_by'' p)) else None),
         ef_status = (if t = ''progress'' then map_option effective_progress_status (jstr (jget ''status'' p)) else None),
         ef_state = map_option effective_state state,
         ef_integrity = map_option (\<lambda>m. effective_integrity (Some m)) integrity,
         ef_warnings =
           (case reason of Some r \<Rightarrow> if rr_valid_on_type (resolve_reason r t) then [] else [''reason-not-valid-on-type''] | None \<Rightarrow> [])
           @ (case state of Some s \<Rightarrow> if s \<in> set PRESENCE_STATES then [] else [''presence-state-unknown''] | None \<Rightarrow> [])
           @ (case integrity of Some m \<Rightarrow> if m \<in> set INTEGRITY_MODES then [] else [''integrity-mode-unknown''] | None \<Rightarrow> [])\<rparr>)"

definition check_semantic :: "json \<Rightarrow> sem_context \<Rightarrow> effects res" where
  "check_semantic p ctx =
    (case jstr (jget ''type'' p) of
       None \<Rightarrow> Raises
     | Some t \<Rightarrow> (case type_failure t p ctx of Some (c, r) \<Rightarrow> Rej c r | None \<Rightarrow> Ok (registry_effects t p)))"

section \<open>Sealed bodies\<close>

definition SEALED_BODY_EXT :: string where "SEALED_BODY_EXT = ''sealed-body/1.0''"
definition SEALED_BODY_ALG :: string where "SEALED_BODY_ALG = ''hpke-base-x25519-sha256-aes128gcm''"
definition SEALED_BODY_PAD :: nat where "SEALED_BODY_PAD = 256"

definition SEALABLE :: "(string, string list) dict" where
  "SEALABLE = [(''invite'', [''identity'', ''intent'', ''policy'', ''media'', ''transports'']),
     (''answer'', [''answered_by'', ''media'', ''policy'', ''transports'']), (''update'', [''answered_by'', ''media'', ''policy'', ''transports'']),
     (''info'', [''about'', ''data'']), (''reject'', [''detail'']), (''cancel'', [''detail'']), (''bye'', [''detail''])]"

text \<open>The additional data: the four members with zero bytes between them.\<close>

definition sealed_body_aad :: "string \<Rightarrow> string \<Rightarrow> string \<Rightarrow> string \<Rightarrow> string" where
  "sealed_body_aad t i f r = t @ char_of (0 :: nat) # i @ char_of (0 :: nat) # f @ char_of (0 :: nat) # r"

definition jfields :: "json \<Rightarrow> (string \<times> json) list" where
  "jfields j = (case j of JDict d \<Rightarrow> d | _ \<Rightarrow> [])"

text \<open>\<open>{**clear, **body}\<close> without \<open>sealed\<close>.\<close>

definition merge_body :: "json \<Rightarrow> json \<Rightarrow> json" where
  "merge_body payload body = JDict (foldl (\<lambda>d (k, v). dset k v d) (filter (\<lambda>(k, v). k \<noteq> ''sealed'') (jfields payload)) (jfields body))"

definition check_body :: "string \<Rightarrow> json \<Rightarrow> json \<Rightarrow> (string list option \<times> json) res" where
  "check_body t payload body =
    (if \<not> set (dkeys (jfields body)) \<subseteq> set (dget_or SEALABLE t []) then Rej ''sealed-field-not-sealable'' None
     else if set (dkeys (jfields body)) \<inter> set (dkeys (jfields payload)) \<noteq> {} then Rej ''sealed-field-in-clear'' None
     else Ok (Some (dsorted (jfields body)), merge_body payload body))"

text \<open>\<open>(j or {}).get(k)\<close> raises on a true value that is not a dict.\<close>

definition raises_get :: "json option \<Rightarrow> bool" where
  "raises_get j =
    (case j of
       Some (JBool b) \<Rightarrow> b | Some (JInt n) \<Rightarrow> n \<noteq> 0 | Some (JFloat zero) \<Rightarrow> \<not> zero
     | Some (JStr s) \<Rightarrow> s \<noteq> [] | Some (JList xs) \<Rightarrow> xs \<noteq> [] | _ \<Rightarrow> False)"

text \<open>\<open>hpke enc aad ct\<close> opens the ciphertext. A \<open>sealed\<close> of another shape is left to the schema.\<close>

definition open_sealed_body ::
  "prims \<Rightarrow> (bytes \<Rightarrow> string \<Rightarrow> bytes \<Rightarrow> bytes option) \<Rightarrow> json \<Rightarrow> (string list option \<times> json) res" where
  "open_sealed_body P hpke payload =
    (let sealed = (case jget ''sealed'' payload of None \<Rightarrow> JNull | Some s \<Rightarrow> s) in
     (case (jstr (jget ''alg'' sealed), jstr (jget ''enc'' sealed), jstr (jget ''ct'' sealed),
         jstr (jget ''type'' payload), jstr (jget ''id'' payload), jstr (jget ''from'' payload), jstr (jget ''to'' payload)) of
        (Some alg, Some enc, Some ct, Some t, Some i, Some f, Some r) \<Rightarrow>
          if raises_get (jget ''dsip'' payload) then Raises
          else if (case jlist (Option.bind (jget ''dsip'' payload) (jget ''critical'')) of None \<Rightarrow> True | Some crit \<Rightarrow> JStr SEALED_BODY_EXT \<notin> set crit)
          then Rej ''sealed-not-critical'' None
          else if alg \<noteq> SEALED_BODY_ALG then Rej ''sealed-alg-unsupported'' None
          else
            (case (b64url_decode enc, b64url_decode ct) of
               (Some e, Some c) \<Rightarrow>
                 (case hpke e (sealed_body_aad t i f r) c of
                    None \<Rightarrow> Rej ''body-unseal-failed'' None
                  | Some pt \<Rightarrow>
                      (case parse_payload P pt False of
                         Ok body \<Rightarrow>
                           if jfields body = [] \<or> length pt mod SEALED_BODY_PAD \<noteq> 0 then Rej ''sealed-plaintext-invalid'' None
                           else check_body t payload body
                       | _ \<Rightarrow> Rej ''sealed-plaintext-invalid'' None))
             | _ \<Rightarrow> Rej ''body-unseal-failed'' None)
      | _ \<Rightarrow> Ok (None, payload)))"

section \<open>The stages in order\<close>

definition MESSAGE_TYPES :: "string list" where
  "MESSAGE_TYPES = [''invite'', ''progress'', ''answer'', ''reject'', ''cancel'', ''update'', ''info'', ''bye'', ''introduction'', ''grant'',
     ''publish'', ''subscribe'', ''notify'', ''unpublish'', ''error'', ''hello'', ''provenance'', ''key-rotation'', ''reachability-hint'',
     ''delegation-revocation'', ''alias-monitor'', ''presence'', ''grant-revocation'']"

text \<open>\<open>schema_ok t p\<close> is the validation of the type's schema.\<close>

definition check_schema :: "(string \<Rightarrow> json \<Rightarrow> bool) \<Rightarrow> json \<Rightarrow> unit res" where
  "check_schema schema_ok p =
    (case jstr (jget ''type'' p) of
       None \<Rightarrow> Rej ''unknown-type'' None
     | Some t \<Rightarrow>
         if t \<notin> set MESSAGE_TYPES then Rej ''unknown-type'' None
         else if \<not> schema_ok t p then Rej ''schema-invalid'' None
         else Ok ())"

text \<open>Stages 12 to 14; \<open>hpke\<close> is present when the context holds the addressee's key. A router opens nothing.\<close>

definition check_payload ::
  "prims \<Rightarrow> (string \<Rightarrow> json \<Rightarrow> bool) \<Rightarrow> (bytes \<Rightarrow> string \<Rightarrow> bytes \<Rightarrow> bytes option) option \<Rightarrow> bool \<Rightarrow> sem_context \<Rightarrow> supported \<Rightarrow> json
    \<Rightarrow> (effects \<times> string list option) res" where
  "check_payload P schema_ok hpke router ctx su payload =
    (let su' = (if router \<and> has ''sealed'' payload then su\<lparr>su_extensions := su_extensions su @ [SEALED_BODY_EXT]\<rparr> else su)
     in rbind (check_version payload su') (\<lambda>_.
        rbind (case hpke of
                 None \<Rightarrow> Ok (None, payload)
               | Some h \<Rightarrow> if has ''sealed'' payload \<and> \<not> router then open_sealed_body P h payload else Ok (None, payload)) (\<lambda>(opened, p).
        rbind (check_schema schema_ok p) (\<lambda>_.
        rbind (check_semantic p ctx) (\<lambda>eff. Ok (eff, opened))))))"

section \<open>Effective values are registered\<close>



section \<open>What an accepted payload satisfies\<close>












definition demo_support :: supported where
  "demo_support = \<lparr>su_core = ''1.0'', su_profiles = [''interactive-media/1.0''], su_extensions = []\<rparr>"

definition no_context :: sem_context where
  "no_context = \<lparr>sm_sent_hello = None, sm_offer = None, sm_size = None, sm_signer_kid = None, sm_introductions = None, sm_held_grants = []\<rparr>"


section \<open>A sealed body adds, and overrides nothing\<close>

lemma jget_merge:
  assumes "set (dkeys (jfields body)) \<inter> set (dkeys (jfields payload)) = {}"
    and "jget k payload = Some x" "k \<noteq> ''sealed''"
  shows "jget k (merge_body payload body) = Some x"
proof -
  have keep: "dget (foldl (\<lambda>d (k, v). dset k v d) d es) k = dget d k" if "k \<notin> fst ` set es" for d and es :: "(string \<times> json) list"
    using that by (induction es arbitrary: d) (auto simp: dget_dset)
  have in_p: "dget (jfields payload) k = Some x" using assms(2) by (auto simp: jget_def jfields_def split: json.splits)
  then have "k \<notin> fst ` set (jfields body)" using assms(1) dget_in_keys [OF in_p] by auto
  moreover have "dget (filter (\<lambda>(k, v). k \<noteq> ''sealed'') (jfields payload)) k = Some x"
    using in_p assms(3) by (simp add: dget_filter)
  ultimately show ?thesis unfolding merge_body_def by (simp add: jget_def keep)
qed

text \<open>Opening a sealed body changes no clear member: the routing members a relay saw are the ones the endpoint acts on.\<close>

theorem sealed_body_keeps_clear:
  assumes "open_sealed_body P hpke payload = Ok (opened, merged)" "jget k payload = Some x" "k \<noteq> ''sealed''"
  shows "jget k merged = Some x"
proof -
  have kept: "merged = payload \<or> (\<exists>t body. check_body t payload body = Ok (opened, merged))"
    using assms(1) unfolding open_sealed_body_def Let_def
    by (auto split: option.splits if_splits res.splits)
  show ?thesis
  proof (cases "merged = payload")
    case False
    then obtain t body where "check_body t payload body = Ok (opened, merged)" using kept by blast
    then have "set (dkeys (jfields body)) \<inter> set (dkeys (jfields payload)) = {}" "merged = merge_body payload body"
      by (auto simp: check_body_def split: if_splits)
    then show ?thesis using jget_merge [of body payload k x] assms(2,3) by simp
  qed (use assms(2) in simp)
qed

section \<open>Where the version check raises\<close>

text \<open>
  A verified payload makes the version check raise, before the schema is consulted: for a supported version whose first
  critical extension is a list or an object, the code looks that value up in a set, which Python refuses to hash.
\<close>

theorem unhashable_extension_raises:
  assumes "jget ''dsip'' payload = Some (JDict blk)" "ver (jget ''core'' (JDict blk)) = Some core"
    and "ver (jget ''min_core'' (JDict blk)) = Some min_core" "ver (Some (JStr (su_core su))) = Some mine"
    and "fst core = fst mine" "min_core \<le> mine" "jget ''critical'' (JDict blk) = Some (JList (c # cs))" "\<not> hashable c"
  shows "check_payload P schema_ok hpke router ctx su payload = Raises"
proof -
  have "check_version payload su' = Raises" if "su_core su' = su_core su" for su' :: supported
  proof -
    have crit: "jlist (jget ''critical'' (JDict blk)) = Some (c # cs)" by (simp only: jlist_eq assms(7))
    have "\<not> (fst core \<noteq> fst mine \<or> min_core > mine)" using assms(5,6) by auto
    then show ?thesis
      unfolding check_version_def assms(1) that option.case assms(2-4) prod.case Let_def crit using assms(8) by (simp add: is_dict_def)
  qed
  then show ?thesis unfolding check_payload_def Let_def by (cases "router \<and> has ''sealed'' payload") simp_all
qed

theorem unhashable_extension_raises_witness:
  "check_payload (demo_prims []) (\<lambda>t p. True) None False no_context demo_support
     (JDict [(''dsip'', JDict [(''core'', JStr ''1.0''), (''min_core'', JStr ''1.0''), (''critical'', JList [JList []])])]) = Raises"
proof (rule unhashable_extension_raises)
  have v: "ver (Some (JStr ''1.0'')) = Some (1, 0)" by code_simp
  let ?blk = "[(''core'', JStr ''1.0''), (''min_core'', JStr ''1.0''), (''critical'', JList [JList []])]"
  show "jget ''dsip'' (JDict [(''dsip'', JDict ?blk)]) = Some (JDict ?blk)" by (simp add: jget_def)
  show "ver (jget ''core'' (JDict ?blk)) = Some (1, 0)" "ver (jget ''min_core'' (JDict ?blk)) = Some (1, 0)" by (simp_all add: jget_def v)
  show "ver (Some (JStr (su_core demo_support))) = Some (1, 0)" by (simp add: demo_support_def v)
  show "jget ''critical'' (JDict ?blk) = Some (JList [JList []])" by (simp add: jget_def)
  show "\<not> hashable (JList [])" by (simp add: hashable_def)
qed simp_all

end
