(* ===== verification/Message_Checks.thy ===== *)
theory Message_Checks
  imports Envelope_Model
begin

text \<open>
  The stateless checks of the messaging profile, \<^verbatim>\<open>dsipvec/messaging.py\<close>: messages and deposits (\<open>check_message\<close>), the objects
  members read after decryption (\<open>check_object\<close>), the conversation extension, the credential of an MLS leaf, sealed content,
  and sealed introductions. JSON Schema validation, AEAD, SHA-256 and HPKE are parameters. A member the schema requires is read
  with \<open>need\<close>, which raises without it.
\<close>

definition MAX_MLS_BYTES :: nat where "MAX_MLS_BYTES = 24576"
definition MAX_LIFETIME_S :: int where "MAX_LIFETIME_S = 60"
definition EPHEMERAL_LIFETIME_S :: int where "EPHEMERAL_LIFETIME_S = 10"
definition CONTENT_ULID_TOLERANCE_S :: int where "CONTENT_ULID_TOLERANCE_S = 300"
definition REACTION_MAX_BYTES :: nat where "REACTION_MAX_BYTES = 32"
definition ENVELOPE_MAX_BYTES :: nat where "ENVELOPE_MAX_BYTES = 4096"

definition MESSAGE_SCHEMAS :: "string list" where
  "MESSAGE_SCHEMAS = [''deposit'', ''accepted'', ''sync'', ''items'', ''key-packages'', ''key-package-fetch'', ''blob-put'', ''mailbox-config'']"

definition OBJECT_SCHEMAS :: "string list" where
  "OBJECT_SCHEMAS = [''content'', ''receipt'', ''activity'', ''archive-key'', ''call-event'', ''archive-record'', ''recording-acceptance'',
     ''call-record'']"

definition DEPOSIT_CLASSES :: "string list" where
  "DEPOSIT_CLASSES = [''handshake'', ''application'', ''welcome'', ''group-info'', ''ephemeral'', ''archive'', ''introduction'', ''grant'']"
definition FIRST_CONTACT_CLASSES :: "string list" where "FIRST_CONTACT_CLASSES = [''introduction'', ''grant'']"
definition CONTENT_KINDS :: "string list" where
  "CONTENT_KINDS = [''text'', ''audio'', ''video'', ''image'', ''file'', ''contact'', ''location'', ''device-event'', ''alarm-ack'']"
definition CONTENT_PURPOSES :: "string list" where
  "CONTENT_PURPOSES = [''message'', ''voice-message'', ''video-message'', ''voicemail'', ''attachment'', ''reaction'', ''callback-request'']"
definition RECEIPT_KINDS :: "string list" where "RECEIPT_KINDS = [''delivered'', ''read'', ''played'']"
definition ACTIVITIES :: "string list" where "ACTIVITIES = [''typing'', ''recording-audio'', ''recording-video'', ''uploading'']"
definition MODES :: "string list" where "MODES = [''sync'', ''queue'']"
definition CONVERSATION_KINDS :: "string list" where "CONVERSATION_KINDS = [''personal'', ''direct'', ''group'']"

text \<open>The class table: the fields a class requires, and those it permits besides the base fields.\<close>

definition DEPOSIT_BASE :: "string list" where
  "DEPOSIT_BASE = [''dsip'', ''type'', ''id'', ''from'', ''to'', ''issued_at'', ''expires_at'', ''group'', ''class'', ''recipient'']"

definition DEPOSIT_REQUIRED :: "(string, string list) dict" where
  "DEPOSIT_REQUIRED = [(''handshake'', [''mls'']), (''application'', [''mls'']), (''welcome'', [''mls'', ''hub'']), (''group-info'', [''mls'']),
     (''ephemeral'', [''sealed'']), (''archive'', [''archive'', ''akid'', ''ref_group'', ''ref_seq'']), (''introduction'', [''envelope'']),
     (''grant'', [''envelope''])]"

definition DEPOSIT_ALLOWED :: "(string, string list) dict" where
  "DEPOSIT_ALLOWED = [(''handshake'', [''mls'', ''seq'', ''welcome'', ''group_info'', ''ratchet_tree_blob'', ''grants'']),
     (''application'', [''mls'', ''seq'', ''blobs'']),
     (''welcome'', [''mls'', ''hub'', ''grants'', ''origin'', ''successor_of'', ''ratchet_tree_blob'', ''seq'']),
     (''group-info'', [''mls'', ''ratchet_tree_blob'', ''handover_seq'']), (''ephemeral'', [''sealed'']),
     (''archive'', [''archive'', ''akid'', ''ref_group'', ''ref_seq'']), (''introduction'', [''envelope'']), (''grant'', [''envelope''])]"

definition SIZED_FIELDS :: "string list" where "SIZED_FIELDS = [''mls'', ''welcome'', ''group_info'', ''sealed'', ''archive'']"

section \<open>Reading JSON\<close>

definition jkeys :: "json \<Rightarrow> string list" where
  "jkeys j = (case j of JDict d \<Rightarrow> dkeys d | _ \<Rightarrow> [])"

definition member :: "string \<Rightarrow> json \<Rightarrow> bool" where
  "member k j \<longleftrightarrow> jget k j \<noteq> None"

fun need :: "'a option \<Rightarrow> ('a \<Rightarrow> 'b res) \<Rightarrow> 'b res" where
  "need None f = Raises"
| "need (Some x) f = f x"

fun has_float :: "json \<Rightarrow> bool" where
  "has_float (JFloat z) = True"
| "has_float (JDict d) = list_ex (\<lambda>kv. has_float (snd kv)) d"
| "has_float (JList xs) = list_ex has_float xs"
| "has_float _ = False"

definition decoded_len :: "string \<Rightarrow> nat" where
  "decoded_len b64 = length b64 * 3 div 4"

section \<open>Messages\<close>

definition oversized :: "json \<Rightarrow> string \<Rightarrow> bool" where
  "oversized p f = (case jstr (jget f p) of None \<Rightarrow> False | Some s \<Rightarrow> decoded_len s > MAX_MLS_BYTES)"

definition check_deposit :: "json \<Rightarrow> unit res" where
  "check_deposit p =
    need (jstr (jget ''class'' p)) (\<lambda>cls. need (jint (jget ''issued_at'' p)) (\<lambda>ia. need (jint (jget ''expires_at'' p)) (\<lambda>ea.
      if cls \<notin> set DEPOSIT_CLASSES then Rej ''deposit-class-unsupported'' (Some ''mailbox.unsupported-class'')
      else if cls = ''ephemeral'' \<and> ea - ia > EPHEMERAL_LIFETIME_S then Rej ''lifetime-exceeded'' None
      else
        (let present = filter (\<lambda>k. k \<notin> set DEPOSIT_BASE) (jkeys p)
         in if \<not> set (dget_or DEPOSIT_REQUIRED cls []) \<subseteq> set (jkeys p) \<or> \<not> set present \<subseteq> set (dget_or DEPOSIT_ALLOWED cls [])
            then Rej ''deposit-fields'' None
            else if (cls \<in> set FIRST_CONTACT_CLASSES) \<noteq> (\<not> member ''group'' p) \<or> cls \<in> set FIRST_CONTACT_CLASSES \<and> \<not> member ''recipient'' p
            then Rej ''deposit-fields'' None
            else if cls = ''introduction'' \<and> (case jstr (jget ''envelope'' p) of None \<Rightarrow> False | Some e \<Rightarrow> length e > ENVELOPE_MAX_BYTES)
            then Rej ''introduction-too-large'' (Some ''transport.envelope-too-large'')
            else if list_ex (oversized p) SIZED_FIELDS then Rej ''object-too-large'' (Some ''mailbox.object-too-large'')
            else Ok ()))))"

definition empty_list :: "json option \<Rightarrow> bool" where
  "empty_list j = (case j of None \<Rightarrow> True | Some JNull \<Rightarrow> True | Some (JList xs) \<Rightarrow> xs = [] | _ \<Rightarrow> False)"

definition check_message :: "(string \<Rightarrow> json \<Rightarrow> bool) \<Rightarrow> json \<Rightarrow> unit res" where
  "check_message schema_ok p =
    (case jstr (jget ''type'' p) of
       None \<Rightarrow> Rej ''unknown-type'' None
     | Some t \<Rightarrow>
         if t \<notin> set MESSAGE_SCHEMAS then Rej ''unknown-type'' None
         else if \<not> schema_ok t p then Rej ''schema-invalid'' None
         else need (jint (jget ''issued_at'' p)) (\<lambda>ia. need (jint (jget ''expires_at'' p)) (\<lambda>ea.
           if ea - ia > MAX_LIFETIME_S then Rej ''lifetime-exceeded'' None
           else if t = ''deposit'' then check_deposit p
           else if t = ''mailbox-config'' \<and> member ''mode'' p \<and> jget ''mode'' p \<notin> (Some \<circ> JStr) ` set MODES
           then Rej ''mailbox-mode-unsupported'' (Some ''mailbox.unsupported-mode'')
           else if t = ''key-packages'' \<and> empty_list (jget ''key_packages'' p) \<and> \<not> member ''last_resort'' p
           then Rej ''key-packages-empty'' None
           else Ok ())))"

section \<open>Objects\<close>

record object_context =
  oc_leaf_identity :: "string option"
  oc_leaf_device :: "string option"
  oc_conversation :: "string option"
  oc_conversation_kind :: "string option"
  oc_leaf_capabilities :: "string list"

text \<open>What an accepted object means to the device that reads it.\<close>

datatype effective = Unread | Ignored | StoredCallRecord | EffReceipt string | EffActivity string | EffContent string string

definition KIND_BODY :: "(string, string list) dict" where
  "KIND_BODY = [(''text'', [''text'']), (''audio'', [''blob'', ''duration_ms'']), (''video'', [''blob'', ''duration_ms'']), (''image'', [''blob'']),
     (''file'', [''blob'', ''name'']), (''contact'', [''did'']), (''location'', [''lat_e7'', ''lon_e7'']), (''device-event'', [''event'']),
     (''alarm-ack'', [''alarm'', ''state''])]"

definition is_text :: "json option \<Rightarrow> bool \<Rightarrow> bool" where
  "is_text j nonempty = (case jstr j of None \<Rightarrow> False | Some s \<Rightarrow> s \<noteq> [] \<or> \<not> nonempty)"

definition opt_text :: "json \<Rightarrow> string \<Rightarrow> bool" where
  "opt_text j k \<longleftrightarrow> \<not> member k j \<or> jstr (jget k j) \<noteq> None"

definition heartbeat_ok :: "json \<Rightarrow> bool" where
  "heartbeat_ok h = (case jint (jget ''interval_s'' h) of None \<Rightarrow> False | Some n \<Rightarrow> n \<ge> 1)"

definition source_ok :: "json \<Rightarrow> bool" where
  "source_ok s \<longleftrightarrow> is_text (jget ''address'' s) True \<and> is_text (jget ''basis'' s) False"

definition alarm_body_ok :: "json \<Rightarrow> bool" where
  "alarm_body_ok a \<longleftrightarrow> is_text (jget ''resource'' a) False \<and> is_text (jget ''type'' a) True
     \<and> (jget ''severity'' a = Some JNull \<or> is_text (jget ''severity'' a) False)
     \<and> (case jget ''cleared'' a of Some (JBool b) \<Rightarrow> True | _ \<Rightarrow> False) \<and> opt_text a ''qualifier'' \<and> opt_text a ''text''"

definition opt_dict :: "json \<Rightarrow> string \<Rightarrow> bool" where
  "opt_dict e k = (case jget k e of None \<Rightarrow> True | Some x \<Rightarrow> is_dict x)"

definition device_event_body :: "json \<Rightarrow> bool" where
  "device_event_body e \<longleftrightarrow> is_dict e
     \<and> (case jget ''heartbeat'' e of None \<Rightarrow> True | Some h \<Rightarrow> heartbeat_ok h)
     \<and> (case jget ''source'' e of Some s \<Rightarrow> source_ok s | None \<Rightarrow> member ''heartbeat'' e)
     \<and> (case jget ''alarm'' e of None \<Rightarrow> True | Some a \<Rightarrow> alarm_body_ok a)
     \<and> opt_dict e ''raw'' \<and> opt_dict e ''syslog_gap''"

definition alarm_ack_body :: "json \<Rightarrow> bool" where
  "alarm_ack_body p \<longleftrightarrow>
     (case jget ''alarm'' p of None \<Rightarrow> False | Some a \<Rightarrow> is_text (jget ''resource'' a) False \<and> is_text (jget ''type'' a) True \<and> opt_text a ''qualifier'')
     \<and> is_text (jget ''state'' p) False"

definition reaction_ok :: "json \<Rightarrow> string \<Rightarrow> bool" where
  "reaction_ok p kind \<longleftrightarrow> kind = ''text'' \<and> is_text (jget ''reply_to'' p) True
     \<and> length (case jstr (jget ''text'' p) of Some s \<Rightarrow> s | None \<Rightarrow> '''') \<le> REACTION_MAX_BYTES"

definition check_content :: "json \<Rightarrow> object_context \<Rightarrow> effective res" where
  "check_content p ctx =
    need (jstr (jget ''kind'' p)) (\<lambda>kind. need (jstr (jget ''purpose'' p)) (\<lambda>purpose.
      rbind
        (if kind \<in> set CONTENT_KINDS then
           (if \<not> list_all (\<lambda>f. member f p) (dget_or KIND_BODY kind []) then Rej ''content-body'' None
            else if kind = ''device-event'' \<and> \<not> (case jget ''event'' p of None \<Rightarrow> False | Some e \<Rightarrow> device_event_body e)
              \<or> kind = ''alarm-ack'' \<and> \<not> alarm_ack_body p then Rej ''content-body'' None
            else if kind = ''device-event'' \<and> ''dsip.events'' \<notin> set (oc_leaf_capabilities ctx) then Rej ''delegation-capability'' None
            else Ok kind)
         else Ok (if member ''blob'' p then ''file'' else ''unsupported'')) (\<lambda>eff_kind.
      if purpose = ''reaction'' \<and> \<not> reaction_ok p kind then Rej ''reaction-invalid'' None
      else if purpose = ''voicemail'' \<and> (kind \<notin> {''audio'', ''video''} \<or> \<not> member ''session'' p) then Rej ''content-body'' None
      else Ok (EffContent eff_kind (if purpose \<in> set CONTENT_PURPOSES then purpose else ''message'')))))"

definition check_call_record :: "json \<Rightarrow> object_context \<Rightarrow> effective res" where
  "check_call_record p ctx =
    (if jget ''device'' p \<noteq> map_option JStr (oc_leaf_device ctx) then Rej ''sender-mismatch'' None
     else if oc_conversation_kind ctx \<noteq> Some ''direct'' then Rej ''recorder-conversation-only'' None
     else need (jint (jget ''invited_at'' p)) (\<lambda>i. need (jint (jget ''ended_at'' p)) (\<lambda>e.
       let times = [i] @ (case jint (jget ''answered_at'' p) of Some a \<Rightarrow> [a] | None \<Rightarrow> []) @ [e]
       in if member ''answered_at'' p \<noteq> (jget ''outcome'' p = Some (JStr ''answered'')) \<or> \<not> sorted times
          then Rej ''call-record-invalid'' None else Ok StoredCallRecord)))"

text \<open>Who wrote the object, in which conversation, and when.\<close>

definition check_origin :: "string \<Rightarrow> json \<Rightarrow> object_context \<Rightarrow> unit res" where
  "check_origin name p ctx =
    (let private_read = (name = ''receipt'' \<and> jget ''kind'' p = Some (JStr ''read'') \<and> oc_conversation_kind ctx = Some ''personal'')
     in if name \<in> {''content'', ''receipt'', ''activity''} \<and> jget ''sender'' p \<noteq> map_option JStr (oc_leaf_identity ctx)
        then Rej ''sender-mismatch'' None
        else if name \<in> {''content'', ''receipt'', ''activity''} \<and> jget ''conversation'' p \<noteq> map_option JStr (oc_conversation ctx) \<and> \<not> private_read
        then Rej ''conversation-mismatch'' None
        else if name \<in> {''content'', ''receipt''} then
          need (Option.bind (jstr (jget ''id'' p)) timestamp_ms) (\<lambda>ms. need (jint (jget ''sent_at'' p)) (\<lambda>sent.
            if \<bar>ms div 1000 - sent\<bar> > CONTENT_ULID_TOLERANCE_S then Rej ''ulid-sent-at-mismatch'' None else Ok ()))
        else if name \<in> {''archive-key'', ''call-event'', ''recording-acceptance''} \<and> oc_conversation_kind ctx \<noteq> Some ''personal''
        then Rej ''personal-group-only'' None
        else Ok ())"

definition check_receipt :: "json \<Rightarrow> effective res" where
  "check_receipt p =
    need (jstr (jget ''kind'' p)) (\<lambda>kind.
      if kind \<notin> set RECEIPT_KINDS then Ok Ignored
      else if (if kind = ''read'' then member ''through'' p \<and> \<not> member ''targets'' p else member ''targets'' p \<and> \<not> member ''through'' p)
      then Ok (EffReceipt kind) else Rej ''receipt-shape'' None)"

definition check_object :: "(string \<Rightarrow> json \<Rightarrow> bool) \<Rightarrow> json \<Rightarrow> object_context \<Rightarrow> effective res" where
  "check_object schema_ok p ctx =
    (if has_float p then Rej ''payload-float'' None
     else
       (case jstr (jget ''object'' p) of
          None \<Rightarrow> Ok Ignored
        | Some name \<Rightarrow>
            if name \<notin> set OBJECT_SCHEMAS then Ok Ignored
            else if \<not> schema_ok name p then Rej ''schema-invalid'' None
            else rbind (check_origin name p ctx) (\<lambda>_.
              if name = ''call-record'' then check_call_record p ctx
              else if name = ''content'' then check_content p ctx
              else if name = ''receipt'' then check_receipt p
              else if name = ''activity'' then
                need (jstr (jget ''activity'' p)) (\<lambda>a. Ok (EffActivity (if a \<in> set ACTIVITIES then a else ''active'')))
              else Ok Unread)))"

end
