(* ===== verification/Utf8.thy ===== *)
theory Utf8
  imports Bytes
begin

text \<open>
  \<open>bytes.decode("utf-8")\<close>, strict and with \<open>errors="replace"\<close>: Python replaces each maximal part of an ill-formed sequence by
  U+FFFD. A string stands for the bytes of its UTF-8 form.
\<close>

text \<open>A lead byte: how many bytes follow, and the range of the first of them.\<close>

definition utf8_lead :: "8 word \<Rightarrow> (nat \<times> 8 word \<times> 8 word) option" where
  "utf8_lead b =
    (if 0xC2 \<le> b \<and> b \<le> 0xDF then Some (1, 0x80, 0xBF)
     else if b = 0xE0 then Some (2, 0xA0, 0xBF)
     else if b = 0xED then Some (2, 0x80, 0x9F)
     else if 0xE1 \<le> b \<and> b \<le> 0xEF then Some (2, 0x80, 0xBF)
     else if b = 0xF0 then Some (3, 0x90, 0xBF)
     else if 0xF1 \<le> b \<and> b \<le> 0xF3 then Some (3, 0x80, 0xBF)
     else if b = 0xF4 then Some (3, 0x80, 0x8F)
     else None)"

fun continuation :: "nat \<Rightarrow> 8 word \<Rightarrow> 8 word \<Rightarrow> bytes \<Rightarrow> nat" where
  "continuation 0 lo hi bs = 0"
| "continuation (Suc k) lo hi [] = 0"
| "continuation (Suc k) lo hi (b # bs) = (if lo \<le> b \<and> b \<le> hi then Suc (continuation k 0x80 0xBF bs) else 0)"

text \<open>The bytes the next character takes, after its first, and whether they make one.\<close>

definition utf8_step :: "8 word \<Rightarrow> bytes \<Rightarrow> nat \<times> bool" where
  "utf8_step b bs =
    (if b < 0x80 then (0, True)
     else
       (case utf8_lead b of
          None \<Rightarrow> (0, False)
        | Some (k, lo, hi) \<Rightarrow> (let m = continuation k lo hi bs in (m, m = k))))"

definition REPLACEMENT :: bytes where "REPLACEMENT = [0xEF, 0xBF, 0xBD]"

function utf8_replace :: "bytes \<Rightarrow> bytes" where
  "utf8_replace [] = []"
| "utf8_replace (b # bs) =
    (case utf8_step b bs of (m, ok) \<Rightarrow> (if ok then b # take m bs else REPLACEMENT) @ utf8_replace (drop m bs))"
  by pat_completeness auto
termination by (relation "measure length") auto

function utf8_valid :: "bytes \<Rightarrow> bool" where
  "utf8_valid [] = True"
| "utf8_valid (b # bs) = (case utf8_step b bs of (m, ok) \<Rightarrow> ok \<and> utf8_valid (drop m bs))"
  by pat_completeness auto
termination by (relation "measure length") auto

declare utf8_replace.simps(2) [simp del] utf8_valid.simps(2) [simp del]

definition text_of :: "bytes \<Rightarrow> string" where
  "text_of b = map (\<lambda>x. char_of (unat x)) b"

definition utf8_decode :: "bytes \<Rightarrow> string option" where
  "utf8_decode b = (if utf8_valid b then Some (text_of b) else None)"

definition bytes_of :: "string \<Rightarrow> bytes" where
  "bytes_of s = map (\<lambda>c. word_of_nat (of_char c)) s"

lemma bytes_of_text [simp]: "bytes_of (text_of b) = b"
proof -
  have "word_of_nat (of_char (char_of (unat x) :: char)) = x" for x :: "8 word"
    using byte_bound [of x] by simp
  then show ?thesis by (simp add: bytes_of_def text_of_def comp_def)
qed

lemma text_of_inject [simp]: "text_of a = text_of b \<longleftrightarrow> a = b"
  by (metis bytes_of_text)

lemma text_of_bytes [simp]: "text_of (bytes_of s) = s"
proof -
  have "char_of (unat (word_of_nat (of_char c) :: 8 word)) = c" for c
    by (simp add: unat_of_nat take_bit_nat_def)
  then show ?thesis by (simp add: bytes_of_def text_of_def comp_def)
qed

lemma ascii_bytes: "list_all (\<lambda>x. x < 0x80) (bytes_of s) \<longleftrightarrow> list_all (\<lambda>c. of_char c < (128 :: nat)) s"
proof -
  have "(word_of_nat (of_char c) :: 8 word) < 0x80 \<longleftrightarrow> of_char c < (128 :: nat)" for c
    by (simp add: word_less_nat_alt unat_of_nat take_bit_nat_def)
  then show ?thesis by (simp add: bytes_of_def list.pred_map comp_def)
qed

lemma ascii_valid: "list_all (\<lambda>x. x < 0x80) b \<Longrightarrow> utf8_valid b"
  by (induction b) (auto simp: utf8_valid.simps(2) utf8_step_def)

section \<open>What is decoded is text\<close>

lemma continuation_bound: "continuation k lo hi bs \<le> k \<and> continuation k lo hi bs \<le> length bs"
  by (induction k lo hi bs rule: continuation.induct) auto

lemma continuation_append: "continuation k lo hi bs = k \<Longrightarrow> continuation k lo hi (take k bs @ cs) = k"
  by (induction k lo hi bs rule: continuation.induct) (auto split: if_splits)

text \<open>A whole character is read the same whatever follows it.\<close>

lemma utf8_step_append:
  assumes "utf8_step b bs = (m, True)"
  shows "utf8_step b (take m bs @ cs) = (m, True)" "m \<le> length bs"
proof -
  consider "b < 0x80" "m = 0" | k lo hi where "\<not> b < 0x80" "utf8_lead b = Some (k, lo, hi)" "continuation k lo hi bs = k" "m = k"
    using assms by (auto simp: utf8_step_def Let_def split: if_splits option.splits)
  then show "utf8_step b (take m bs @ cs) = (m, True)"
  proof cases
    case 2
    then have "continuation k lo hi (take k bs @ cs) = k" by (intro continuation_append)
    then show ?thesis using 2 by (simp add: utf8_step_def)
  qed (simp add: utf8_step_def)
  show "m \<le> length bs" using assms continuation_bound by (fastforce simp: utf8_step_def Let_def split: if_splits option.splits)
qed

lemma utf8_valid_append: "utf8_valid a \<Longrightarrow> utf8_valid (a @ c) \<longleftrightarrow> utf8_valid c"
proof (induction a rule: length_induct)
  case (1 a)
  show ?case
  proof (cases a)
    case (Cons b bs)
    obtain m where m: "utf8_step b bs = (m, True)" and v: "utf8_valid (drop m bs)"
      using 1(2) by (auto simp: Cons utf8_valid.simps(2) split: prod.splits)
    have "m \<le> length bs" using utf8_step_append(2) [OF m] .
    moreover have "utf8_step b (bs @ c) = (m, True)"
      using utf8_step_append(1) [OF m, of "drop m bs @ c"] by (simp flip: append_assoc)
    ultimately show ?thesis
      using 1(1) [rule_format, of "drop m bs"] v by (simp add: Cons utf8_valid.simps(2))
  qed simp
qed

lemma utf8_step_take: "utf8_step b bs = (m, True) \<Longrightarrow> utf8_valid (b # take m bs)"
  using utf8_step_append(1) [of b bs m "[]"] utf8_step_append(2) [of b bs m] by (simp add: utf8_valid.simps(2))

lemma replacement_valid: "utf8_valid REPLACEMENT"
  by code_simp

lemma utf8_replace_valid: "utf8_valid (utf8_replace b)"
proof (induction b rule: utf8_replace.induct)
  case (2 b bs)
  obtain m ok where m: "utf8_step b bs = (m, ok)" by fastforce
  then have "utf8_valid (if ok then b # take m bs else REPLACEMENT)"
    using utf8_step_take [of b bs m] replacement_valid by simp
  moreover have "utf8_valid (utf8_replace (drop m bs))" using 2 [OF m [symmetric]] .
  moreover have "utf8_replace (b # bs) = (if ok then b # take m bs else REPLACEMENT) @ utf8_replace (drop m bs)"
    unfolding utf8_replace.simps(2) m prod.case ..
  ultimately show ?case using utf8_valid_append by presburger
qed simp

lemma utf8_replace_id: "utf8_valid b \<Longrightarrow> utf8_replace b = b"
proof (induction b rule: utf8_replace.induct)
  case (2 b bs)
  then show ?case by (auto simp: utf8_replace.simps(2) utf8_valid.simps(2) split: prod.splits)
qed simp

end
