(* ===== verification/Message_Decisions.thy ===== *)
theory Message_Decisions
  imports Message_Checks Utf8
begin

text \<open>
  Decisions of the messaging profile that keep no state, \<^verbatim>\<open>dsipvec/messaging.py\<close>: the conversation extension, the credential of
  an MLS leaf, sealed content and introductions, the blob endpoint, and the choice of a mailbox. AEAD (\<open>aead\<close>), SHA-256
  (\<open>sha\<close>, in hexadecimal) and HPKE (\<open>hpke\<close>) are parameters.
\<close>

section \<open>The conversation extension\<close>

definition conversation_ok :: "(string \<Rightarrow> json \<Rightarrow> bool) \<Rightarrow> json \<Rightarrow> bool" where
  "conversation_ok schema_ok e \<longleftrightarrow> schema_ok ''dsip-conversation'' e"

text \<open>A commit may change the hub and nothing else; a new hub DID is a move.\<close>

definition check_conversation_update :: "(string \<Rightarrow> json \<Rightarrow> bool) \<Rightarrow> json \<Rightarrow> json \<Rightarrow> (json option \<times> json) res" where
  "check_conversation_update schema_ok before after =
    (if \<not> conversation_ok schema_ok before \<or> \<not> conversation_ok schema_ok after then Rej ''schema-invalid'' None
     else if list_ex (\<lambda>k. jget k before \<noteq> jget k after) [''conversation'', ''kind'', ''successor_of''] then Rej ''conversation-immutable'' None
     else need (jget ''hub'' before) (\<lambda>h. need (jget ''hub'' after) (\<lambda>h'.
       need (jget ''did'' h) (\<lambda>d. need (jget ''did'' h') (\<lambda>d'. Ok (if d \<noteq> d' then Some d' else None, h'))))))"

definition check_conversation_ext :: "(string \<Rightarrow> json \<Rightarrow> bool) \<Rightarrow> json \<Rightarrow> string res" where
  "check_conversation_ext schema_ok e =
    (if \<not> conversation_ok schema_ok e then Rej ''schema-invalid'' None
     else need (jstr (jget ''kind'' e)) (\<lambda>k. Ok (if k \<in> set CONVERSATION_KINDS then k else ''group'')))"

definition check_conversation_bytes :: "prims \<Rightarrow> (string \<Rightarrow> json \<Rightarrow> bool) \<Rightarrow> bytes \<Rightarrow> string res" where
  "check_conversation_bytes P schema_ok data =
    (if \<not> utf8_valid data then Rej ''payload-not-utf8'' None
     else
       (case loads P data of
          Raises \<Rightarrow> Raises
        | Rej _ _ \<Rightarrow> Rej ''payload-not-json'' None
        | Ok e \<Rightarrow>
            if \<not> is_dict e then Rej ''payload-not-json'' None
            else if has_float e then Rej ''payload-float'' None
            else check_conversation_ext schema_ok e))"

section \<open>The credential of an MLS leaf\<close>

definition EXT_DSIP_DELEGATION :: nat where "EXT_DSIP_DELEGATION = 0xF0D1"
definition CREDENTIAL_BASIC :: nat where "CREDENTIAL_BASIC = 1"
definition MESSAGING_CAPABILITY :: string where "MESSAGING_CAPABILITY = ''dsip.messaging''"

record mls_leaf =
  lf_type :: nat
  lf_identity :: "bytes option"
  lf_extensions :: "(nat \<times> bytes option) list"
  lf_key :: bytes

text \<open>An identity or an extension is \<^term>\<open>None\<close> where its text is not hexadecimal. \<open>$\<close> lets one newline follow.\<close>

definition device_text :: "bytes option \<Rightarrow> string option" where
  "device_text b =
    (case Option.bind b utf8_decode of
       None \<Rightarrow> None
     | Some d \<Rightarrow> if is_did d \<or> (d \<noteq> [] \<and> last d = char_of (10 :: nat) \<and> is_did (butlast d)) then Some d else None)"

definition delegation_of :: "bytes option \<Rightarrow> json option" where
  "delegation_of b =
    (case b of
       None \<Rightarrow> None
     | Some x \<Rightarrow>
         if \<not> list_all (\<lambda>c. c < 0x80) x then None
         else (case split CHR ''.'' (text_of x) of
                 [a, b, c] \<Rightarrow> Some (JDict [(''protected'', JStr a), (''payload'', JStr b), (''signature'', JStr c)])
               | _ \<Rightarrow> None))"

definition check_mls_credential :: "prims \<Rightarrow> mls_leaf \<Rightarrow> context_ \<Rightarrow> (string \<times> string) res" where
  "check_mls_credential P lf ctx =
    (if lf_type lf \<noteq> CREDENTIAL_BASIC then Rej ''credential-type'' None
     else
       (case device_text (lf_identity lf) of
          None \<Rightarrow> Rej ''credential-identity'' None
        | Some device \<Rightarrow>
            (case filter (\<lambda>(t, d). t = EXT_DSIP_DELEGATION) (lf_extensions lf) of
               [] \<Rightarrow> Rej ''delegation-missing'' None
             | [(t, data)] \<Rightarrow>
                 (case delegation_of data of
                    None \<Rightarrow> Rej ''delegation-invalid'' None
                  | Some deleg \<Rightarrow>
                      (case names P deleg of
                         Some (Some (JStr subject), Some (JStr d)) \<Rightarrow>
                           if d \<noteq> device then Rej ''delegation-invalid'' None
                           else
                             (case verify_delegation P deleg subject device ctx MESSAGING_CAPABILITY of
                                Rej c r \<Rightarrow> Rej c None
                              | Raises \<Rightarrow> Raises
                              | Ok _ \<Rightarrow>
                                  if public_from_did_key device \<noteq> Some (lf_key lf) then Rej ''credential-key-mismatch'' None
                                  else Ok (subject, device))
                       | _ \<Rightarrow> Rej ''delegation-invalid'' None))
             | _ \<Rightarrow> Rej ''delegation-invalid'' None)))"

section \<open>Sealed content\<close>

definition NONCE_LEN :: nat where "NONCE_LEN = 12"
definition TAG_LEN :: nat where "TAG_LEN = 16"

datatype seal_use = SealBlob nat string | SealActivity bytes nat | SealArchive bytes nat

text \<open>The additional data of a use; a counter of more than 8 bytes raises.\<close>

definition seal_aad :: "seal_use \<Rightarrow> bytes option" where
  "seal_aad u =
    (case u of
       SealBlob n h \<Rightarrow> Some []
     | SealActivity g epoch \<Rightarrow> if epoch < 256 ^ 8 then Some (g @ to_bytes 8 epoch) else None
     | SealArchive g sq \<Rightarrow> if sq < 256 ^ 8 then Some (g @ to_bytes 8 sq) else None)"

definition open_sealed :: "(bytes \<Rightarrow> string) \<Rightarrow> (bytes \<Rightarrow> bytes \<Rightarrow> bytes \<Rightarrow> bytes option) \<Rightarrow> seal_use \<Rightarrow> bytes \<Rightarrow> bytes res" where
  "open_sealed sha aead use stored =
    rbind
      (case use of
         SealBlob n h \<Rightarrow>
           if length stored \<noteq> n then Rej ''blob-size-mismatch'' None else if sha stored \<noteq> h then Rej ''blob-hash-mismatch'' None else Ok ()
       | _ \<Rightarrow> Ok ()) (\<lambda>_.
    if length stored < NONCE_LEN + TAG_LEN then Rej ''sealed-too-short'' None
    else need (seal_aad use) (\<lambda>aad.
      (case aead (take NONCE_LEN stored) (drop NONCE_LEN stored) aad of None \<Rightarrow> Rej ''aead-open-failed'' None | Some pt \<Rightarrow> Ok pt)))"

definition registration_on_removal :: "string \<Rightarrow> string list \<Rightarrow> bool" where
  "registration_on_removal me remaining \<longleftrightarrow> me \<notin> set remaining"

section \<open>Introductions\<close>

definition SEALED_ALG :: string where "SEALED_ALG = ''hpke-base-x25519-sha256-aes128gcm''"
definition PURPOSE_MAX_CHARS :: nat where "PURPOSE_MAX_CHARS = 280"

definition check_introduction :: "(string \<Rightarrow> json \<Rightarrow> bool) \<Rightarrow> json \<Rightarrow> bool res" where
  "check_introduction schema_ok p =
    (if \<not> schema_ok ''introduction'' p then Rej ''schema-invalid'' None
     else if member ''purpose'' p \<and> member ''sealed'' p then Rej ''introduction-purpose-and-sealed'' None
     else
       (case jget ''sealed'' p of
          None \<Rightarrow> Ok False
        | Some s \<Rightarrow> if jget ''alg'' s \<noteq> Some (JStr SEALED_ALG) then Rej ''sealed-alg-unsupported'' None else Ok True))"

definition sealed_aad :: "string \<Rightarrow> string \<Rightarrow> string \<Rightarrow> string" where
  "sealed_aad i f t = i @ char_of (0 :: nat) # f @ char_of (0 :: nat) # t"

text \<open>Characters of a text, from its UTF-8 form: the bytes that continue none.\<close>

definition char_count :: "string \<Rightarrow> nat" where
  "char_count s = length (filter (\<lambda>c. \<not> (128 \<le> (of_char c :: nat) \<and> of_char c < (192 :: nat))) s)"

definition read_purpose :: "json \<Rightarrow> string option res" where
  "read_purpose body =
    (case jstr (jget ''purpose'' body) of
       Some s \<Rightarrow> if set (jkeys body) \<noteq> {''purpose''} then Rej ''sealed-plaintext-invalid'' None
                 else if char_count s > PURPOSE_MAX_CHARS then Rej ''purpose-too-long'' None else Ok (Some s)
     | None \<Rightarrow> Rej ''sealed-plaintext-invalid'' None)"

text \<open>\<open>b64url_decode\<close> of the two members stands in no \<open>try\<close> here, so its \<open>ValueError\<close> leaves the function.\<close>

definition open_sealed_introduction ::
  "prims \<Rightarrow> (string \<Rightarrow> json \<Rightarrow> bool) \<Rightarrow> (bytes \<Rightarrow> string \<Rightarrow> bytes \<Rightarrow> bytes option) \<Rightarrow> json \<Rightarrow> string option res" where
  "open_sealed_introduction P schema_ok hpke p =
    rbind (check_introduction schema_ok p) (\<lambda>sealed.
      if \<not> sealed then Ok (jstr (jget ''purpose'' p))
      else need (jget ''sealed'' p) (\<lambda>s.
        need (jstr (jget ''id'' p)) (\<lambda>i. need (jstr (jget ''from'' p)) (\<lambda>f. need (jstr (jget ''to'' p)) (\<lambda>t.
        need (Option.bind (jstr (jget ''enc'' s)) b64url_decode) (\<lambda>enc. need (Option.bind (jstr (jget ''ct'' s)) b64url_decode) (\<lambda>ct.
          (case hpke enc (sealed_aad i f t) ct of
             None \<Rightarrow> Rej ''sealed-open-failed'' None
           | Some pt \<Rightarrow> (case loads P pt of Raises \<Rightarrow> Raises | Rej _ _ \<Rightarrow> Rej ''sealed-plaintext-invalid'' None | Ok body \<Rightarrow> read_purpose body)))))))))"

section \<open>Blobs\<close>

definition BLOB_REPLICATION_ATTEMPTS :: int where "BLOB_REPLICATION_ATTEMPTS = 5"

record blob_request =
  br_identity :: string
  br_id :: string
  br_to :: string
  br_sha256 :: string
  br_size :: int
  br_path :: string
  br_body_size :: int
  br_body_sha256 :: string

record blob_server =
  bv_did :: string
  bv_serves :: "string list"
  bv_max_blob_bytes :: int
  bv_quota_bytes :: "int option"
  bv_used_bytes :: int
  bv_stored :: "string list"

text \<open>The answer: a status, and a reason or the accepted request with whether it repeats one. No request is one without a
  verified authorization.\<close>

definition blob_put :: "blob_server \<Rightarrow> blob_request option \<Rightarrow> nat \<times> (string + string \<times> bool)" where
  "blob_put b request =
    (case request of
       None \<Rightarrow> (401, Inl ''policy.blocked'')
     | Some r \<Rightarrow>
         if br_to r \<noteq> bv_did b then (403, Inl ''policy.blocked'')
         else if br_identity r \<notin> set (bv_serves b) then (403, Inl ''transport.unknown-recipient'')
         else if br_path r \<noteq> br_sha256 r then (400, Inl ''policy.blocked'')
         else if br_size r > bv_max_blob_bytes b then (413, Inl ''mailbox.object-too-large'')
         else if br_sha256 r \<notin> set (bv_stored b)
           \<and> (case bv_quota_bytes b of None \<Rightarrow> False | Some q \<Rightarrow> bv_used_bytes b + br_size r > q)
         then (507, Inl ''mailbox.quota-exceeded'')
         else if br_body_size r \<noteq> br_size r \<or> br_body_sha256 r \<noteq> br_sha256 r then (400, Inl ''mailbox.blob-mismatch'')
         else if br_sha256 r \<in> set (bv_stored b) then (200, Inr (br_id r, True))
         else (201, Inr (br_id r, False)))"

definition blob_get :: "string \<Rightarrow> string list \<Rightarrow> nat" where
  "blob_get path stored = (if path \<in> set stored then 200 else 404)"

text \<open>A blob a content or a manifest names, and what a source served: the status, the hash and the size.\<close>

record blob_ref =
  bl_sha256 :: string
  bl_size :: int
  bl_uri :: string

record served =
  sv_uri :: string
  sv_status :: nat
  sv_sha256 :: "string option"
  sv_size :: "int option"

definition served_right :: "served \<Rightarrow> blob_ref \<Rightarrow> bool" where
  "served_right f e \<longleftrightarrow> sv_sha256 f = Some (bl_sha256 e) \<and> sv_size f = Some (bl_size e)"

datatype replicate_action = Fetch | Skip string | DiscardBlob string bool | StoreBlob

definition blob_replicate ::
  "blob_ref \<Rightarrow> string option \<Rightarrow> string list \<Rightarrow> int \<Rightarrow> served option \<Rightarrow> int \<Rightarrow> int \<Rightarrow> replicate_action" where
  "blob_replicate e mode stored max_bytes fetched attempt max_attempts =
    (case fetched of
       None \<Rightarrow>
         if mode \<noteq> Some ''sync'' then Skip ''mode''
         else if bl_sha256 e \<in> set stored then Skip ''stored''
         else if bl_size e > max_bytes then Skip ''too-large''
         else if \<not> startswith (bl_uri e) ''https://'' then Skip ''not-https''
         else Fetch
     | Some f \<Rightarrow>
         if sv_status f \<noteq> 200 then DiscardBlob ''unavailable'' (attempt < max_attempts)
         else if \<not> served_right f e then DiscardBlob ''mismatch'' False
         else StoreBlob)"

datatype fetch_action = Play string | RetryFetch | GiveUp string

definition blob_fetch :: "blob_ref \<Rightarrow> served list \<Rightarrow> int \<Rightarrow> int \<Rightarrow> fetch_action" where
  "blob_fetch b tried attempt max_attempts =
    (case find (\<lambda>t. sv_status t = 200 \<and> served_right t b) tried of
       Some t \<Rightarrow> Play (sv_uri t)
     | None \<Rightarrow>
         if list_ex (\<lambda>t. sv_status t \<noteq> 200) tried \<or> tried = []
         then (if attempt < max_attempts then RetryFetch else GiveUp ''unavailable'')
         else GiveUp ''mismatch'')"

definition rstrip_slash :: "string \<Rightarrow> string" where
  "rstrip_slash s = rev (dropWhile (\<lambda>c. c = CHR ''/'') (rev s))"

definition items_blobs :: "blob_ref list \<Rightarrow> string list \<Rightarrow> string \<Rightarrow> blob_ref list" where
  "items_blobs manifest stored endpoint =
    map (\<lambda>e. if bl_sha256 e \<in> set stored then e\<lparr>bl_uri := rstrip_slash endpoint @ ''/'' @ bl_sha256 e\<rparr> else e) manifest"

definition blob_sources :: "blob_ref \<Rightarrow> blob_ref list \<Rightarrow> string list" where
  "blob_sources b manifest =
    take 1 (map bl_uri (filter (\<lambda>e. bl_sha256 e = bl_sha256 b \<and> bl_size e = bl_size b \<and> bl_uri e \<noteq> bl_uri b) manifest)) @ [bl_uri b]"

section \<open>The choice of a mailbox\<close>

record selection =
  sl_source :: "string option"
  sl_selected :: "json option"
  sl_order :: "json list"
  sl_discarded :: "json option list"

definition usable_entry :: "(string \<Rightarrow> json \<Rightarrow> bool) \<Rightarrow> json \<Rightarrow> bool" where
  "usable_entry schema_ok e \<longleftrightarrow> schema_ok ''mailbox-service'' e
     \<and> (case jlist (jget ''profiles'' e) of None \<Rightarrow> False | Some ps \<Rightarrow> JStr ''messaging/1.0'' \<in> set ps)"

definition priority_of :: "json \<Rightarrow> int" where
  "priority_of e = (case jint (jget ''priority'' e) of Some n \<Rightarrow> n | None \<Rightarrow> 0)"

definition select_mailbox :: "(string \<Rightarrow> json \<Rightarrow> bool) \<Rightarrow> json list \<Rightarrow> json list \<Rightarrow> json list option \<Rightarrow> selection" where
  "select_mailbox schema_ok doc hints reachable =
    (let entries = (if doc \<noteq> [] then doc else hints);
         order = List.map_filter (jget ''mailbox'') (sort_key priority_of (filter (usable_entry schema_ok) entries))
     in \<lparr>sl_source = (if doc \<noteq> [] then Some ''did-document'' else if hints \<noteq> [] then Some ''hint'' else None),
         sl_selected = find (\<lambda>m. case reachable of None \<Rightarrow> True | Some rs \<Rightarrow> m \<in> set rs) order,
         sl_order = order,
         sl_discarded = map (jget ''uri'') (filter (\<lambda>e. \<not> usable_entry schema_ok e) entries)\<rparr>)"

definition mailbox_switch :: "string \<Rightarrow> string \<Rightarrow> string option \<Rightarrow> bool \<times> string" where
  "mailbox_switch established candidate source =
    (if candidate = established then (False, ''unchanged'')
     else if source \<noteq> Some ''did-document'' then (False, ''hint-sourced'')
     else (True, ''did-document''))"

end
