(* ===== verification/Message.thy ===== *)
theory Message
  imports Message_Decisions Envelope
begin

text \<open>What the stateless checks of the messaging profile establish.\<close>

lemma need_Ok: "need m f = Ok x \<longleftrightarrow> (\<exists>y. m = Some y \<and> f y = Ok x)"
  by (cases m) auto

lemma need_Raises: "need m (\<lambda>x. Raises) = Raises"
  by (cases m) auto

lemma check_mls_credential_Ok:
  assumes "check_mls_credential P lf ctx = Ok (subject, device)"
  obtains data deleg u where "filter (\<lambda>(t, d). t = EXT_DSIP_DELEGATION) (lf_extensions lf) = [(EXT_DSIP_DELEGATION, data)]"
    "delegation_of data = Some deleg" "verify_delegation P deleg subject device ctx MESSAGING_CAPABILITY = Ok u"
    "device_text (lf_identity lf) = Some device" "public_from_did_key device = Some (lf_key lf)"
proof -
  obtain d where d: "device_text (lf_identity lf) = Some d"
    using assms by (auto simp: check_mls_credential_def split: option.splits if_splits)
  define es where "es = filter (\<lambda>(t, d). t = EXT_DSIP_DELEGATION) (lf_extensions lf)"
  have c: "(case es of [] \<Rightarrow> Rej ''delegation-missing'' None | [(t, data)] \<Rightarrow> (case delegation_of data of
        None \<Rightarrow> Rej ''delegation-invalid'' None
      | Some deleg \<Rightarrow> (case names P deleg of Some (Some (JStr sub), Some (JStr d1)) \<Rightarrow>
          if d1 \<noteq> d then Rej ''delegation-invalid'' None
          else (case verify_delegation P deleg sub d ctx MESSAGING_CAPABILITY of Rej c r \<Rightarrow> Rej c None | Raises \<Rightarrow> Raises
            | Ok _ \<Rightarrow> if public_from_did_key d \<noteq> Some (lf_key lf) then Rej ''credential-key-mismatch'' None else Ok (sub, d))
        | _ \<Rightarrow> Rej ''delegation-invalid'' None)) | _ \<Rightarrow> Rej ''delegation-invalid'' None) = Ok (subject, device)"
    using assms unfolding check_mls_credential_def d es_def option.case by (simp split: if_splits)
  then obtain t data where es: "es = [(t, data)]" by (auto split: list.splits)
  then have "(t, data) \<in> set es" by simp
  then have "t = EXT_DSIP_DELEGATION" by (auto simp: es_def)
  moreover obtain deleg where "delegation_of data = Some deleg" using c by (auto simp: es split: option.splits)
  moreover from this c obtain u where "verify_delegation P deleg subject device ctx MESSAGING_CAPABILITY = Ok u" "d = device"
      "public_from_did_key device = Some (lf_key lf)"
    by (auto simp: es split: option.splits json.splits res.splits if_splits)
  ultimately show thesis using that d es unfolding es_def by metis
qed

text \<open>C23: Who a member of a group is. A leaf is accepted for an identity only with exactly one delegation among its extensions, one that
  the identity signed for the leaf's device with the messaging capability, live and unrevoked; and the leaf's signature key is
  the device's own key.\<close>

theorem leaf_is_delegated:
  assumes "check_mls_credential P lf ctx = Ok (subject, device)"
  shows "(\<exists>data deleg. filter (\<lambda>(t, d). t = EXT_DSIP_DELEGATION) (lf_extensions lf) = [(EXT_DSIP_DELEGATION, data)]
      \<and> delegation_of data = Some deleg \<and> live_credential P ctx deleg ''dsip.messaging'' subject device)
    \<and> public_from_did_key device = Some (lf_key lf)"
  using check_mls_credential_Ok [OF assms] verify_delegation_sound unfolding MESSAGING_CAPABILITY_def by metis

definition demo_delegation :: json where
  "demo_delegation = JDict [(''type'', JStr ''DeviceDelegation''), (''subject'', JStr demo_did), (''device'', JStr demo_did),
     (''capabilities'', JList [JStr ''dsip.messaging'']), (''issued_at'', JInt 0), (''expires_at'', JInt 60)]"

definition demo_leaf :: mls_leaf where
  "demo_leaf = \<lparr>lf_type = 1, lf_identity = Some (bytes_of demo_did),
     lf_extensions = [(0xF0D1, Some (bytes_of (''AA.AA.'' @ replicate 86 CHR ''A'')))], lf_key = replicate 32 7\<rparr>"

theorem leaf_is_delegated_witness:
  "\<exists>P. check_mls_credential P demo_leaf demo_context = Ok (demo_did, demo_did)
     \<and> live_credential P demo_context demo_env ''dsip.messaging'' demo_did demo_did"
proof -
  define P where "P = (demo_prims [(''subject'', JStr demo_did), (''device'', JStr demo_did)])\<lparr>loads_int := (\<lambda>b. Inr demo_delegation)\<rparr>"
  have raw: "\<exists>h. verify_raw P demo_env demo_context False
      = Ok \<lparr>vf_header = h, vf_payload = demo_delegation, vf_signer = demo_did, vf_kid = demo_did @ CHR ''#'' # drop 8 demo_did\<rparr>"
    using demo_raw_any [of demo_delegation False] by (simp add: P_def is_dict_def demo_delegation_def)
  then have live: "verify_delegation P demo_env demo_did demo_did demo_context MESSAGING_CAPABILITY = Ok ()"
    by (auto simp: verify_delegation_def demo_delegation_def jget_def jlist_def jnum_def revocations_for_def demo_context_def
        MESSAGING_CAPABILITY_def map_filter_simps)
  have parts: "delegation_of (Some (bytes_of (''AA.AA.'' @ replicate 86 CHR ''A''))) = Some demo_env"
  proof -
    have "list_all (\<lambda>c. of_char c < (128 :: nat)) (''AA.AA.'' @ replicate 86 CHR ''A'')"
      "split CHR ''.'' (''AA.AA.'' @ replicate 86 CHR ''A'') = [''AA'', ''AA'', replicate 86 CHR ''A'']" by code_simp+
    then show ?thesis unfolding delegation_of_def option.case ascii_bytes text_of_bytes demo_env_def by simp
  qed
  have "of_char c < (128 :: nat)" if "c \<in> set demo_did" for c
  proof -
    have "is_alnum c \<or> c \<in> set ''did:key:z''" using that b58_members by (auto simp: demo_did_def did_key_from_public_def)
    then show ?thesis by (auto simp: is_alnum_def lc_letter_def uc_letter_def char_in_def)
  qed
  then have ascii: "device_text (Some (bytes_of demo_did)) = Some demo_did"
    using did_key_is_did ascii_valid ascii_bytes by (auto simp: device_text_def utf8_decode_def demo_did_def list_all_iff)
  have "names P demo_env = Some (Some (JStr demo_did), Some (JStr demo_did))"
    by (simp add: names_def P_def demo_prims_def demo_env_def jget_def jstr_def b64url_decode_def is_dict_def) code_simp
  moreover have "public_from_did_key demo_did = Some (replicate 32 7)"
    using did_key_roundtrip [of "replicate 32 7"] by (simp add: demo_did_def)
  ultimately have ok: "check_mls_credential P demo_leaf demo_context = Ok (demo_did, demo_did)"
    using live parts ascii by (simp add: check_mls_credential_def demo_leaf_def CREDENTIAL_BASIC_def EXT_DSIP_DELEGATION_def)
  then show ?thesis using leaf_is_delegated [OF ok] parts by (auto simp: demo_leaf_def EXT_DSIP_DELEGATION_def)
qed

section \<open>Deposits and objects\<close>

text \<open>The fields of an accepted deposit are those of its class, and no object in it is larger than a mailbox takes.\<close>

theorem deposit_well_formed:
  assumes "check_message schema_ok p = Ok ()" "jget ''type'' p = Some (JStr ''deposit'')"
  shows "\<exists>cls ia ea. jget ''class'' p = Some (JStr cls) \<and> cls \<in> set DEPOSIT_CLASSES
    \<and> set (dget_or DEPOSIT_REQUIRED cls []) \<subseteq> set (jkeys p) \<and> set (jkeys p) \<subseteq> set DEPOSIT_BASE \<union> set (dget_or DEPOSIT_ALLOWED cls [])
    \<and> (cls \<in> set FIRST_CONTACT_CLASSES \<longleftrightarrow> \<not> member ''group'' p) \<and> (cls \<in> set FIRST_CONTACT_CLASSES \<longrightarrow> member ''recipient'' p)
    \<and> jint (jget ''issued_at'' p) = Some ia \<and> jint (jget ''expires_at'' p) = Some ea
    \<and> ea - ia \<le> (if cls = ''ephemeral'' then 10 else 60)
    \<and> (\<forall>f\<in>set SIZED_FIELDS. \<forall>s. jget f p = Some (JStr s) \<longrightarrow> decoded_len s \<le> 24576)"
proof -
  have t: "jstr (jget ''type'' p) = Some ''deposit''" by (simp add: jstr_eq assms(2))
  from assms(1) have d: "check_deposit p = Ok ()" and life: "\<exists>ia ea. jint (jget ''issued_at'' p) = Some ia \<and> jint (jget ''expires_at'' p) = Some ea \<and> ea - ia \<le> 60"
    unfolding check_message_def t by (auto simp: need_Ok MAX_LIFETIME_S_def split: if_splits)
  from d obtain cls ia ea where f: "jget ''class'' p = Some (JStr cls)" "jint (jget ''issued_at'' p) = Some ia" "jint (jget ''expires_at'' p) = Some ea"
    unfolding check_deposit_def by (auto simp: need_Ok jstr_eq)
  then have c: "jstr (jget ''class'' p) = Some cls" by (simp add: jstr_eq)
  define big where "big = list_ex (oversized p) SIZED_FIELDS"
  define required where "required \<longleftrightarrow> set (dget_or DEPOSIT_REQUIRED cls []) \<subseteq> set (jkeys p)"
  define permitted where "permitted \<longleftrightarrow> set (filter (\<lambda>k. k \<notin> set DEPOSIT_BASE) (jkeys p)) \<subseteq> set (dget_or DEPOSIT_ALLOWED cls [])"
  define first where "first \<longleftrightarrow> cls \<in> set FIRST_CONTACT_CLASSES"
  define long where "long = (case jstr (jget ''envelope'' p) of None \<Rightarrow> False | Some e \<Rightarrow> length e > ENVELOPE_MAX_BYTES)"
  have all: "cls \<in> set DEPOSIT_CLASSES \<and> \<not> (cls = ''ephemeral'' \<and> ea - ia > 10) \<and> required \<and> permitted
      \<and> first = (\<not> member ''group'' p) \<and> (first \<longrightarrow> member ''recipient'' p) \<and> \<not> big"
    using d unfolding check_deposit_def c f(2,3) need.simps Let_def EPHEMERAL_LIFETIME_S_def big_def [symmetric] required_def [symmetric]
      permitted_def [symmetric] first_def [symmetric] long_def [symmetric]
    by (simp only: res.distinct split: if_splits) blast+
  have "decoded_len s \<le> 24576" if "x \<in> set SIZED_FIELDS" "jget x p = Some (JStr s)" for x s
    using all that by (auto simp: big_def list_ex_iff oversized_def jstr_def MAX_MLS_BYTES_def not_less)
  then show ?thesis using all f life unfolding required_def permitted_def first_def by auto
qed


section \<open>The choice of a mailbox\<close>

lemma find_sorted:
  assumes "sorted (map f xs)" "find Q (List.map_filter g xs) = Some m"
  shows "\<exists>x\<in>set xs. g x = Some m \<and> Q m \<and> (\<forall>y\<in>set xs. \<forall>m'. g y = Some m' \<longrightarrow> Q m' \<longrightarrow> f x \<le> f y)"
  using assms
proof (induction xs)
  case (Cons x xs)
  show ?case
  proof (cases "\<exists>m'. g x = Some m' \<and> Q m'")
    case True
    then have "g x = Some m" "Q m" using Cons.prems(2) by (auto simp: map_filter_simps)
    then show ?thesis using Cons.prems(1) by auto
  next
    case False
    then have "find Q (List.map_filter g xs) = Some m" using Cons.prems(2) by (auto simp: map_filter_simps split: option.splits)
    then show ?thesis using Cons.IH Cons.prems(1) False by auto
  qed
qed (simp add: map_filter_simps)

text \<open>Messages go to the mailbox the identity names: with a document, hints have no influence; and the mailbox selected is named by a
  usable entry, is reachable, and none that is both has a lower priority.\<close>

theorem mailbox_choice:
  assumes "doc \<noteq> []"
  shows "select_mailbox schema_ok doc hints reachable = select_mailbox schema_ok doc [] reachable
    \<and> (sl_selected (select_mailbox schema_ok doc hints reachable) = Some m \<longrightarrow>
        (\<exists>e\<in>set doc. usable_entry schema_ok e \<and> jget ''mailbox'' e = Some m \<and> (\<forall>rs. reachable = Some rs \<longrightarrow> m \<in> set rs)
           \<and> (\<forall>e'\<in>set doc. \<forall>m'. usable_entry schema_ok e' \<longrightarrow> jget ''mailbox'' e' = Some m' \<longrightarrow> (\<forall>rs. reachable = Some rs \<longrightarrow> m' \<in> set rs)
                \<longrightarrow> priority_of e \<le> priority_of e')))"
proof -
  define es where "es = sort_key priority_of (filter (usable_entry schema_ok) doc)"
  define Q where "Q m \<longleftrightarrow> (case reachable of None \<Rightarrow> True | Some rs \<Rightarrow> m \<in> set rs)" for m
  have Q: "Q m \<longleftrightarrow> (\<forall>rs. reachable = Some rs \<longrightarrow> m \<in> set rs)" for m by (simp add: Q_def split: option.split)
  have sel: "sl_selected (select_mailbox schema_ok doc hints reachable) = find Q (List.map_filter (jget ''mailbox'') es)"
    using assms by (simp add: select_mailbox_def Let_def es_def Q_def [abs_def])
  have "sorted (map priority_of es)" by (simp add: es_def)
  note find_sorted [OF this, of Q "jget ''mailbox''" m]
  then show ?thesis using assms unfolding sel by (auto simp: select_mailbox_def Let_def es_def Q) blast
qed

theorem mailbox_choice_witness:
  "sl_selected (select_mailbox (\<lambda>n e. True)
     [JDict [(''mailbox'', JStr ''m2''), (''profiles'', JList [JStr ''messaging/1.0'']), (''priority'', JInt 2)],
      JDict [(''mailbox'', JStr ''m1''), (''profiles'', JList [JStr ''messaging/1.0''])]] [JDict [(''mailbox'', JStr ''evil'')]] None) = Some (JStr ''m1'')"
proof -
  let ?doc = "[JDict [(''mailbox'', JStr ''m2''), (''profiles'', JList [JStr ''messaging/1.0'']), (''priority'', JInt 2)],
      JDict [(''mailbox'', JStr ''m1''), (''profiles'', JList [JStr ''messaging/1.0''])]]"
  have "?doc \<noteq> []" by simp
  from mailbox_choice [OF this, of "\<lambda>n e. True" "[JDict [(''mailbox'', JStr ''evil'')]]" None "JStr ''m1''"]
  have "select_mailbox (\<lambda>n e. True) ?doc [JDict [(''mailbox'', JStr ''evil'')]] None = select_mailbox (\<lambda>n e. True) ?doc [] None" by blast
  then show ?thesis
    by (simp add: select_mailbox_def usable_entry_def jget_def jlist_def priority_of_def jint_def map_filter_simps Let_def)
qed

section \<open>Where opening an introduction raises\<close>

text \<open>C27: A sealed introduction that the schema and the checks accept makes the recipient raise: a text of the base64url alphabet whose
  length leaves a remainder of 1 is no encoding, and the decoder's error is not caught.\<close>

theorem sealed_introduction_raises:
  assumes "check_introduction schema_ok p = Ok True" "jget ''sealed'' p = Some s" "jget ''enc'' s = Some (JStr enc)" "length enc mod 4 = 1"
  shows "open_sealed_introduction P schema_ok hpke p = Raises"
proof -
  have "jstr (jget ''enc'' s) = Some enc" by (simp add: jstr_eq assms(3))
  moreover have "b64url_decode enc = None" by (simp add: b64url_decode_def b64_text_def assms(4))
  ultimately show ?thesis
    unfolding open_sealed_introduction_def assms(1,2) rbind.simps need.simps by (simp add: need_Raises)
qed

theorem sealed_introduction_raises_witness:
  "open_sealed_introduction (demo_prims []) (\<lambda>t p. True) (\<lambda>e a c. None) (JDict [(''sealed'', JDict [(''alg'', JStr SEALED_ALG), (''enc'', JStr ''A''), (''ct'', JStr ''AA'')])]) = Raises"
proof (rule sealed_introduction_raises [where enc = "''A''" and s = "JDict [(''alg'', JStr SEALED_ALG), (''enc'', JStr ''A''), (''ct'', JStr ''AA'')]"])
  show "check_introduction (\<lambda>t p. True) (JDict [(''sealed'', JDict [(''alg'', JStr SEALED_ALG), (''enc'', JStr ''A''), (''ct'', JStr ''AA'')])]) = Ok True"
    by (simp add: check_introduction_def member_def jget_def)
qed (simp_all add: jget_def)

end
