(* ===== verification/Syslog_Model.thy ===== *)
theory Syslog_Model
  imports Utf8 Text Json Alarm_Model
begin

text \<open>
  What a gateway reads and how it becomes an alarm: syslog messages (RFC 5424 and RFC 3164, \<open>parse_syslog\<close> of
  \<^verbatim>\<open>dsipvec/events_v3.py\<close>), SNMP notifications (\<open>normalize_trap\<close> of \<^verbatim>\<open>dsipvec/events.py\<close>), the rule tables that map them
  (\<open>map_syslog\<close>, \<open>map_alarm\<close>), and the split of a TLS stream into messages (\<open>tls_frames\<close>). A position in the datagram is the
  list of the bytes from there on; a malformed message is \<^term>\<open>None\<close>.
\<close>

section \<open>Fields\<close>

definition in_range :: "8 word \<Rightarrow> 8 word \<Rightarrow> 8 word \<Rightarrow> bool" where
  "in_range lo hi x \<longleftrightarrow> lo \<le> x \<and> x \<le> hi"

definition digit_byte :: "8 word \<Rightarrow> bool" where
  "digit_byte x \<longleftrightarrow> in_range 0x30 0x39 x"

definition number_of_bytes :: "bytes \<Rightarrow> nat" where
  "number_of_bytes b = foldl (\<lambda>n x. 10 * n + (unat x - 48)) 0 b"

text \<open>\<open>_text\<close> and \<open>_msg\<close>, which drops the line ends at the end.\<close>

definition text_replaced :: "bytes \<Rightarrow> string" where
  "text_replaced b = text_of (utf8_replace b)"

definition rstrip_bytes :: "bytes \<Rightarrow> bytes" where
  "rstrip_bytes b = rev (dropWhile (\<lambda>x. x = 13 \<or> x = 10) (rev b))"

definition msg_text :: "bytes \<Rightarrow> string" where
  "msg_text b = text_of (rstrip_bytes (utf8_replace b))"

text \<open>\<open>_token\<close>: the value, \<^term>\<open>None\<close> for a dash, and the rest.\<close>

definition token :: "nat option \<Rightarrow> bytes \<Rightarrow> (string option \<times> bytes) option" where
  "token maxlen b =
    (let tok = takeWhile (\<lambda>x. x \<noteq> 0x20) b
     in if \<not> list_all (in_range 33 126) tok then None
        else if tok = [] \<or> (case maxlen of None \<Rightarrow> False | Some m \<Rightarrow> length tok > m) then None
        else Some (if tok = [0x2D] then None else Some (text_of tok), dropWhile (\<lambda>x. x \<noteq> 0x20) b))"

definition sd_byte :: "8 word \<Rightarrow> bool" where
  "sd_byte x \<longleftrightarrow> in_range 33 126 x \<and> x \<notin> {0x3D, 0x20, 0x5D, 0x22}"

definition sd_name :: "bytes \<Rightarrow> (string \<times> bytes) option" where
  "sd_name b = (let n = takeWhile sd_byte b in if 1 \<le> length n \<and> length n \<le> 32 then Some (text_of n, dropWhile sd_byte b) else None)"

text \<open>A quoted value up to its closing quote: only a quote, a backslash and a bracket are escaped.\<close>

fun sd_value :: "bytes \<Rightarrow> (bytes \<times> bytes) option" where
  "sd_value [] = None"
| "sd_value [c] = (if c = 0x22 then Some ([], []) else None)"
| "sd_value (c # d # b) =
    (if c = 0x5C then
       (if d \<in> {0x22, 0x5C, 0x5D} then map_option (\<lambda>(v, r). (d # v, r)) (sd_value b)
        else map_option (\<lambda>(v, r). (c # d # v, r)) (sd_value b))
     else if c = 0x22 then Some ([], d # b)
     else map_option (\<lambda>(v, r). (c # v, r)) (sd_value (d # b)))"

lemma sd_value_shorter: "sd_value b = Some (v, r) \<Longrightarrow> length r < length b"
  by (induction b arbitrary: v rule: sd_value.induct) (fastforce split: if_splits)+

lemma sd_name_shorter: "sd_name b = Some (n, r) \<Longrightarrow> length r < length b"
proof -
  assume a: "sd_name b = Some (n, r)"
  then have "takeWhile sd_byte b \<noteq> []" "r = dropWhile sd_byte b" by (auto simp: sd_name_def Let_def split: if_splits)
  moreover have "length (takeWhile sd_byte b) + length (dropWhile sd_byte b) = length b"
    by (metis length_append takeWhile_dropWhile_id)
  ultimately show ?thesis by (simp flip: length_greater_0_conv)
qed

section \<open>RFC 5424\<close>

type_synonym sd_param = "string \<times> string"
type_synonym sd_element = "string \<times> sd_param list"

text \<open>One parameter: a name, \<open>="\<close> and the value; and the parameters of an element with the spaces before them.\<close>

definition sd_param :: "bytes \<Rightarrow> (sd_param \<times> bytes) option" where
  "sd_param b =
    (case sd_name b of
       None \<Rightarrow> None
     | Some (n, r) \<Rightarrow>
         if take 2 r \<noteq> [0x3D, 0x22] then None
         else map_option (\<lambda>(v, r'). ((n, text_replaced v), r')) (sd_value (drop 2 r)))"

lemma sd_param_shorter: "sd_param b = Some (p, r) \<Longrightarrow> length r < length b"
proof -
  assume "sd_param b = Some (p, r)"
  then obtain n q v where "sd_name b = Some (n, q)" "sd_value (drop 2 q) = Some (v, r)"
    by (auto simp: sd_param_def split: option.splits if_splits)
  then show ?thesis using sd_name_shorter sd_value_shorter by fastforce
qed

function sd_params :: "bytes \<Rightarrow> (sd_param list \<times> bytes) option" where
  "sd_params b =
    (case b of
       [] \<Rightarrow> Some ([], b)
     | c # r \<Rightarrow>
         if c \<noteq> 0x20 then Some ([], b)
         else
           (case sd_param r of
              None \<Rightarrow> None
            | Some (p, r') \<Rightarrow> map_option (\<lambda>(ps, r''). (p # ps, r'')) (sd_params r')))"
  by auto
termination by (relation "measure length") (auto dest: sd_param_shorter)

declare sd_params.simps [simp del]

lemma sd_params_shorter: "sd_params b = Some (ps, r) \<Longrightarrow> length r \<le> length b"
proof (induction b arbitrary: ps rule: sd_params.induct)
  case (1 b)
  show ?case
  proof (cases "\<exists>s. b = 0x20 # s")
    case True
    then obtain s where b: "b = 0x20 # s" by blast
    then obtain p r' ps' where "sd_param s = Some (p, r')" "sd_params r' = Some (ps', r)"
      using 1(2) by (auto simp: sd_params.simps [of "0x20 # s"] split: option.splits)
    then show ?thesis using 1(1) [OF b _ _ refl] sd_param_shorter [of s] by (fastforce simp: b)
  next
    case False
    then show ?thesis using 1(2) by (auto simp: sd_params.simps [of b] split: list.splits if_splits)
  qed
qed

definition sd_element :: "bytes \<Rightarrow> (sd_element \<times> bytes) option" where
  "sd_element b =
    (case sd_name b of
       None \<Rightarrow> None
     | Some (sid, r) \<Rightarrow>
         (case sd_params r of
            Some (ps, c # r') \<Rightarrow> if c = 0x5D then Some ((sid, ps), r') else None
          | _ \<Rightarrow> None))"

lemma sd_element_shorter: "sd_element b = Some (e, r) \<Longrightarrow> length r < length b"
  by (auto simp: sd_element_def dest!: sd_name_shorter sd_params_shorter split: option.splits list.splits if_splits)

function sd_elements :: "bytes \<Rightarrow> (sd_element list \<times> bytes) option" where
  "sd_elements b =
    (case b of
       [] \<Rightarrow> Some ([], b)
     | c # r \<Rightarrow>
         if c \<noteq> 0x5B then Some ([], b)
         else
           (case sd_element r of
              None \<Rightarrow> None
            | Some (e, r') \<Rightarrow> map_option (\<lambda>(es, r''). (e # es, r'')) (sd_elements r')))"
  by auto
termination by (relation "measure length") (auto dest: sd_element_shorter)

declare sd_elements.simps [simp del]

definition structured_data :: "bytes \<Rightarrow> (sd_element list \<times> bytes) option" where
  "structured_data b =
    (case b of
       [] \<Rightarrow> None
     | c # r \<Rightarrow> if c = 0x2D then Some ([], r) else if c = 0x5B then sd_elements b else None)"

datatype syslog_format = Rfc5424 | Rfc3164

record syslog =
  sy_format :: syslog_format
  sy_facility :: int
  sy_severity :: int
  sy_timestamp :: "string option"
  sy_hostname :: "string option"
  sy_app_name :: "string option"
  sy_procid :: "string option"
  sy_msgid :: "string option"
  sy_structured_data :: "sd_element list"
  sy_msg :: string

text \<open>The header fields, a space before each.\<close>

fun fields_5424 :: "nat option list \<Rightarrow> bytes \<Rightarrow> (string option list \<times> bytes) option" where
  "fields_5424 [] b = Some ([], b)"
| "fields_5424 (m # ms) b =
    (case b of
       [] \<Rightarrow> None
     | c # r \<Rightarrow>
         if c \<noteq> 0x20 then None
         else
           (case token m r of
              None \<Rightarrow> None
            | Some (x, r') \<Rightarrow> map_option (\<lambda>(xs, r''). (x # xs, r'')) (fields_5424 ms r')))"

definition BOM :: bytes where "BOM = [0xEF, 0xBB, 0xBF]"

definition msg_5424 :: "bytes \<Rightarrow> string option" where
  "msg_5424 b =
    (case b of
       [] \<Rightarrow> Some ''''
     | c # m \<Rightarrow> if c \<noteq> 0x20 then None else Some (msg_text (if take 3 m = BOM then drop 3 m else m)))"

definition parse_5424 :: "nat \<Rightarrow> bytes \<Rightarrow> syslog option" where
  "parse_5424 pri b =
    (case fields_5424 [None, Some 255, Some 48, Some 128, Some 32] b of
       Some ([ts, host, app, pid, mid], c # r) \<Rightarrow>
         if c \<noteq> 0x20 then None
         else
           (case structured_data r of
              None \<Rightarrow> None
            | Some (sd, r') \<Rightarrow>
                map_option (\<lambda>m. \<lparr>sy_format = Rfc5424, sy_facility = int (pri div 8), sy_severity = int (pri mod 8), sy_timestamp = ts,
                  sy_hostname = host, sy_app_name = app, sy_procid = pid, sy_msgid = mid, sy_structured_data = sd, sy_msg = m\<rparr>) (msg_5424 r'))
     | _ \<Rightarrow> None)"

section \<open>RFC 3164\<close>

definition MONTHS :: "bytes list" where
  "MONTHS = map bytes_of [''Jan'', ''Feb'', ''Mar'', ''Apr'', ''May'', ''Jun'', ''Jul'', ''Aug'', ''Sep'', ''Oct'', ''Nov'', ''Dec'']"

definition tag_byte :: "8 word \<Rightarrow> bool" where
  "tag_byte x \<longleftrightarrow> in_range 0x41 0x5A x \<or> in_range 0x61 0x7A x \<or> digit_byte x \<or> x \<in> {0x5F, 0x2E, 0x2D, 0x2F}"

text \<open>Two digits of at most \<open>hi\<close>, and the time \<open>hh:mm:ss\<close>.\<close>

definition two_digits :: "nat \<Rightarrow> bytes \<Rightarrow> bool" where
  "two_digits hi b \<longleftrightarrow> length b = 2 \<and> list_all digit_byte b \<and> number_of_bytes b \<le> hi"

definition clock_time :: "bytes \<Rightarrow> bool" where
  "clock_time t \<longleftrightarrow> length t = 8 \<and> t ! 2 = 0x3A \<and> t ! 5 = 0x3A
     \<and> two_digits 23 (take 2 t) \<and> two_digits 59 (take 2 (drop 3 t)) \<and> two_digits 59 (drop 6 t)"

definition day_of_month :: "bytes \<Rightarrow> bool" where
  "day_of_month d \<longleftrightarrow> length d = 2
     \<and> (hd d = 0x20 \<and> in_range 0x31 0x39 (d ! 1) \<or> two_digits 31 d \<and> 10 \<le> number_of_bytes d)"

definition ts3164 :: "bytes \<Rightarrow> bool" where
  "ts3164 b \<longleftrightarrow> length b \<ge> 16 \<and> b ! 15 = 0x20 \<and> take 3 b \<in> set MONTHS \<and> b ! 3 = 0x20 \<and> b ! 6 = 0x20
     \<and> day_of_month (take 2 (drop 4 b)) \<and> clock_time (take 8 (drop 7 b))"

text \<open>A process id in brackets and the colon, \<open>[123]:\<close>.\<close>

definition pid_tag :: "bytes \<Rightarrow> (string \<times> bytes) option" where
  "pid_tag b =
    (case b of
       [] \<Rightarrow> None
     | c # r \<Rightarrow>
         (let ds = takeWhile digit_byte r; q = dropWhile digit_byte r
          in if c = 0x5B \<and> 1 \<le> length ds \<and> length ds \<le> 10 \<and> take 2 q = [0x5D, 0x3A] then Some (text_of ds, drop 2 q) else None))"

definition drop_space :: "bytes \<Rightarrow> bytes" where
  "drop_space b = (if take 1 b = [0x20] then tl b else b)"

text \<open>The application, the process id, and the message after them.\<close>

definition tag_3164 :: "bytes \<Rightarrow> string option \<times> string option \<times> bytes" where
  "tag_3164 content =
    (let tag = takeWhile tag_byte content; r = dropWhile tag_byte content
     in if 1 \<le> length tag \<and> length tag \<le> 32
        then (if take 1 r = [0x3A] then (Some (text_of tag), None, drop_space (tl r))
              else (case pid_tag r of
                      Some (pid, r') \<Rightarrow> (Some (text_of tag), Some pid, drop_space r')
                    | None \<Rightarrow> (None, None, content)))
        else (None, None, content))"

definition host_3164 :: "bytes \<Rightarrow> string option \<times> bytes" where
  "host_3164 after =
    (let h = takeWhile (in_range 33 126) after; r = dropWhile (in_range 33 126) after
     in if h \<noteq> [] \<and> take 1 r = [0x20] then (Some (text_of h), tl r) else (None, after))"

definition parse_3164 :: "nat \<Rightarrow> bytes \<Rightarrow> syslog" where
  "parse_3164 pri rest =
    (let (ts, host, content) =
           (if ts3164 rest then (case host_3164 (drop 16 rest) of (h, c) \<Rightarrow> (Some (text_of (take 15 rest)), h, c)) else (None, None, rest));
         (app, pid, m) = tag_3164 content
     in \<lparr>sy_format = Rfc3164, sy_facility = int (pri div 8), sy_severity = int (pri mod 8), sy_timestamp = ts, sy_hostname = host,
         sy_app_name = app, sy_procid = pid, sy_msgid = None, sy_structured_data = [], sy_msg = msg_text m\<rparr>)"

section \<open>Datagrams\<close>

text \<open>The priority in angle brackets at the front, at most 191 and without a leading zero.\<close>

definition priority :: "bytes \<Rightarrow> (nat \<times> bytes) option" where
  "priority b =
    (case b of
       [] \<Rightarrow> None
     | c # r \<Rightarrow>
         (let ds = takeWhile digit_byte r; q = dropWhile digit_byte r
          in if c \<noteq> 0x3C \<or> ds = [] \<or> length ds > 3 \<or> take 1 q \<noteq> [0x3E] then None
             else if length ds > 1 \<and> hd ds = 0x30 \<or> number_of_bytes ds > 191 then None
             else Some (number_of_bytes ds, tl q)))"

text \<open>A version and a space: RFC 5424 when the version is 1, malformed when it is another.\<close>

definition version_of :: "bytes \<Rightarrow> bytes option" where
  "version_of r =
    (let ds = takeWhile digit_byte r
     in if ds \<noteq> [] \<and> length ds \<le> 3 \<and> hd ds \<noteq> 0x30 \<and> take 1 (dropWhile digit_byte r) = [0x20] then Some ds else None)"

definition parse_syslog :: "bytes \<Rightarrow> syslog option" where
  "parse_syslog b =
    (case priority b of
       None \<Rightarrow> None
     | Some (pri, rest) \<Rightarrow>
         (case version_of rest of
            None \<Rightarrow> Some (parse_3164 pri rest)
          | Some v \<Rightarrow> if v \<noteq> [0x31] then None else parse_5424 pri (drop (length v) rest)))"

section \<open>From events to alarms\<close>

fun has_part :: "string \<Rightarrow> string \<Rightarrow> bool" where
  "has_part p [] \<longleftrightarrow> p = []"
| "has_part p (c # s) \<longleftrightarrow> startswith (c # s) p \<or> has_part p s"

record syslog_want =
  sw_app_name :: "string option"
  sw_msgid :: "string option"
  sw_hostname :: "string option"
  sw_facility :: "int option"
  sw_msg_contains :: "string option"

datatype rule_action = NotifyAction | RaiseAction | ClearAction

record syslog_rule =
  sr_want :: "syslog_want option"
  sr_action :: rule_action
  sr_type :: string
  sr_severity :: "string option"
  sr_resource_sd :: "(string \<times> string) option"

definition wanted :: "'a option \<Rightarrow> 'a option \<Rightarrow> bool" where
  "wanted want have1 = (case want of None \<Rightarrow> True | Some w \<Rightarrow> have1 = Some w)"

definition syslog_matches :: "syslog_want \<Rightarrow> syslog \<Rightarrow> bool" where
  "syslog_matches w sl \<longleftrightarrow> wanted (sw_app_name w) (sy_app_name sl) \<and> wanted (sw_msgid w) (sy_msgid sl)
     \<and> wanted (sw_hostname w) (sy_hostname sl) \<and> wanted (sw_facility w) (Some (sy_facility sl))
     \<and> (case sw_msg_contains w of None \<Rightarrow> True | Some p \<Rightarrow> has_part p (sy_msg sl))"

definition alarm_report :: "string \<Rightarrow> string \<Rightarrow> string \<Rightarrow> string option \<Rightarrow> bool \<Rightarrow> report" where
  "alarm_report resource t qualifier severity cleared =
    \<lparr>rp_resource = resource, rp_type = t, rp_qualifier = Some qualifier, rp_severity = severity, rp_cleared = cleared, rp_inform = False\<rparr>"

text \<open>\<^term>\<open>None\<close> is a notification without an alarm.\<close>

definition syslog_alarm :: "syslog_rule \<Rightarrow> syslog \<Rightarrow> string \<Rightarrow> (int, string option) dict \<Rightarrow> report option" where
  "syslog_alarm r sl source table =
    (let param = Option.bind (sr_resource_sd r) (\<lambda>(eid, pname).
           Option.bind (find (\<lambda>e. fst e = eid) (sy_structured_data sl)) (\<lambda>e. find (\<lambda>p. fst p = pname) (snd e)));
         resource = (case param of None \<Rightarrow> source | Some (n, v) \<Rightarrow> source @ ''/'' @ v);
         severity = (case sr_severity r of Some s \<Rightarrow> Some s | None \<Rightarrow> syslog_severity (sy_severity sl) table)
     in case sr_action r of
          NotifyAction \<Rightarrow> None
        | ClearAction \<Rightarrow> Some (alarm_report resource (sr_type r) '''' None True)
        | RaiseAction \<Rightarrow> if severity = None then None else Some (alarm_report resource (sr_type r) '''' severity False))"

definition map_syslog :: "syslog \<Rightarrow> syslog_rule list \<Rightarrow> string \<Rightarrow> (int, string option) dict \<Rightarrow> report option" where
  "map_syslog sl rules source table =
    (case find (\<lambda>r. case sr_want r of None \<Rightarrow> False | Some w \<Rightarrow> syslog_matches w sl) rules of
       Some r \<Rightarrow> syslog_alarm r sl source table
     | None \<Rightarrow>
         if syslog_severity (sy_severity sl) table = None then None
         else Some (alarm_report source ''syslog'' (case sy_app_name sl of Some a \<Rightarrow> a | None \<Rightarrow> '''')
                (syslog_severity (sy_severity sl) table) False))"

section \<open>SNMP notifications\<close>

definition SYS_UPTIME :: string where "SYS_UPTIME = ''1.3.6.1.2.1.1.3.0''"
definition SNMP_TRAP_OID :: string where "SNMP_TRAP_OID = ''1.3.6.1.6.3.1.1.4.1.0''"
definition SNMP_TRAP_ADDRESS :: string where "SNMP_TRAP_ADDRESS = ''1.3.6.1.6.3.18.1.3.0''"
definition SNMP_TRAP_COMMUNITY :: string where "SNMP_TRAP_COMMUNITY = ''1.3.6.1.6.3.18.1.4.0''"
definition SNMP_TRAP_ENTERPRISE :: string where "SNMP_TRAP_ENTERPRISE = ''1.3.6.1.6.3.1.1.4.3.0''"
definition GENERIC_TRAPS :: string where "GENERIC_TRAPS = ''1.3.6.1.6.3.1.1.5.''"

record varbind =
  vb_oid :: string
  vb_type :: string
  vb_value :: json

record snmp =
  sn_version :: string
  sn_uptime :: int
  sn_trap_oid :: string
  sn_varbinds :: "varbind list"

definition varbind_of :: "json \<Rightarrow> varbind option" where
  "varbind_of x =
    (case (jstr (jget ''oid'' x), jstr (jget ''type'' x), jget ''value'' x) of
       (Some oid, Some t, Some v) \<Rightarrow> Some \<lparr>vb_oid = oid, vb_type = t, vb_value = v\<rparr>
     | _ \<Rightarrow> None)"

fun collect :: "'a option list \<Rightarrow> 'a list option" where
  "collect [] = Some []"
| "collect (x # xs) = (case x of None \<Rightarrow> None | Some y \<Rightarrow> map_option ((#) y) (collect xs))"

definition add_absent :: "string \<Rightarrow> string \<Rightarrow> string \<Rightarrow> varbind list \<Rightarrow> varbind list \<Rightarrow> varbind list" where
  "add_absent oid t v received vbs =
    (if oid \<in> vb_oid ` set received then vbs else vbs @ [\<lparr>vb_oid = oid, vb_type = t, vb_value = JStr v\<rparr>])"

text \<open>\<open>str\<close> of an integer.\<close>

definition str_int :: "int \<Rightarrow> string" where
  "str_int i = (if i < 0 then ''-'' @ show_nat (nat (- i)) else show_nat (nat i))"

definition trap_v1 :: "json \<Rightarrow> varbind list \<Rightarrow> (int \<times> string \<times> varbind list) option" where
  "trap_v1 t vbs =
    (case (jstr (jget ''enterprise'' t), jstr (jget ''agent_addr'' t), jint (jget ''generic'' t), jint (jget ''specific'' t), jint (jget ''timestamp'' t)) of
       (Some enterprise, Some agent, Some generic, Some specific, Some timestamp) \<Rightarrow>
         if \<not> (0 \<le> generic \<and> generic \<le> 6) then None
         else Some (timestamp,
           if generic = 6 then enterprise @ ''.0.'' @ str_int specific else GENERIC_TRAPS @ str_int (generic + 1),
           add_absent SNMP_TRAP_ENTERPRISE ''OBJECT IDENTIFIER'' enterprise vbs (add_absent SNMP_TRAP_ADDRESS ''IpAddress'' agent vbs vbs))
     | _ \<Rightarrow> None)"

text \<open>\<open>Some None\<close> is a malformed trap; \<^term>\<open>None\<close> an uptime of more digits than \<open>int\<close> reads, which raises.\<close>

definition trap_v2 :: "varbind list \<Rightarrow> (int \<times> string \<times> varbind list) option option" where
  "trap_v2 vbs =
    (case vbs of
       up # trap # rest \<Rightarrow>
         if vb_oid up \<noteq> SYS_UPTIME \<or> vb_oid trap \<noteq> SNMP_TRAP_OID then Some None
         else
           (case vb_value up of
              JStr u \<Rightarrow>
                if \<not> is_numeral u then Some None
                else map_option (\<lambda>n. case vb_value trap of JStr oid \<Rightarrow> if n \<le> 2 ^ 53 - 1 then Some (int n, oid, rest) else None | _ \<Rightarrow> None)
                  (int_of_digits u)
            | _ \<Rightarrow> Some None)
     | _ \<Rightarrow> Some None)"

definition normalize_trap :: "json \<Rightarrow> snmp option option" where
  "normalize_trap t =
    (case Option.bind (jlist (jget ''varbinds'' t)) (\<lambda>xs. collect (map varbind_of xs)) of
       None \<Rightarrow> Some None
     | Some vbs \<Rightarrow>
         (let v = jstr (jget ''version'' t) in
          map_option (map_option (\<lambda>(uptime, oid, vs).
              \<lparr>sn_version = the v, sn_uptime = uptime, sn_trap_oid = oid, sn_varbinds = filter (\<lambda>x. vb_oid x \<noteq> SNMP_TRAP_COMMUNITY) vs\<rparr>))
            (if v = Some ''v1'' then Some (trap_v1 t vbs) else if v \<in> {Some ''v2c'', Some ''v3''} then trap_v2 vbs else Some None)))"

record trap_rule =
  tr_trap_oid :: string
  tr_varbind :: "(string \<times> json) option"
  tr_action :: rule_action
  tr_resource_varbind :: "string option"
  tr_type :: string
  tr_severity :: "string option"

text \<open>\<open>str_of\<close> is \<open>str\<close> of a value.\<close>

definition trap_matches :: "(json \<Rightarrow> string) \<Rightarrow> snmp \<Rightarrow> trap_rule \<Rightarrow> bool" where
  "trap_matches str_of sn r \<longleftrightarrow> tr_trap_oid r = sn_trap_oid sn
     \<and> (case tr_varbind r of
          None \<Rightarrow> True
        | Some (oid, v) \<Rightarrow> list_ex (\<lambda>x. vb_oid x = oid \<and> str_of (vb_value x) = str_of v) (sn_varbinds sn))"

definition trap_alarm :: "(json \<Rightarrow> string) \<Rightarrow> snmp \<Rightarrow> string \<Rightarrow> trap_rule \<Rightarrow> report option" where
  "trap_alarm str_of sn source r =
    (let hit = (case tr_resource_varbind r of
           None \<Rightarrow> None
         | Some prefix \<Rightarrow> if prefix = [] then None
             else find (\<lambda>x. vb_oid x = prefix \<or> startswith (vb_oid x) (prefix @ ''.'')) (sn_varbinds sn));
         resource = (case hit of None \<Rightarrow> source | Some x \<Rightarrow> source @ ''/'' @ str_of (vb_value x));
         cleared = (tr_action r = ClearAction)
     in if tr_action r = NotifyAction then None
        else Some (alarm_report resource (tr_type r) '''' (if cleared then None else tr_severity r) cleared))"

definition map_alarm :: "(json \<Rightarrow> string) \<Rightarrow> snmp \<Rightarrow> trap_rule list \<Rightarrow> string \<Rightarrow> report option" where
  "map_alarm str_of sn rules source =
    (case find (trap_matches str_of sn) rules of None \<Rightarrow> None | Some r \<Rightarrow> trap_alarm str_of sn source r)"

section \<open>Streams\<close>

definition TLS_MAX :: nat where "TLS_MAX = 65536"

text \<open>The first message of a stream: its size, that more bytes are needed, or that the stream is broken.\<close>

datatype frame = Whole nat | More | Broken

definition next_frame :: "bytes \<Rightarrow> frame" where
  "next_frame rest =
    (if length rest < 2 then More
     else
       (let t = rest ! 0; l = unat (rest ! 1)
        in if t \<noteq> 0x30 \<or> l = 0x80 \<or> l \<ge> 0x85 then Broken
           else
             (let k = (if l < 0x80 then 0 else l - 0x80)
              in if length rest < 2 + k then More
                 else
                   (let size = 2 + k + (if l < 0x80 then l else from_bytes (take k (drop 2 rest)))
                    in if size > TLS_MAX then Broken else if length rest < size then More else Whole size))))"

lemma next_frame_size: "next_frame b = Whole n \<Longrightarrow> 2 \<le> n \<and> n \<le> length b"
  by (auto simp: next_frame_def Let_def split: if_splits)

function tls_frames :: "bytes \<Rightarrow> bytes list \<times> bytes \<times> bool" where
  "tls_frames stream =
    (case next_frame stream of
       More \<Rightarrow> ([], stream, False)
     | Broken \<Rightarrow> ([], stream, True)
     | Whole n \<Rightarrow> (case tls_frames (drop n stream) of (ms, pending, close) \<Rightarrow> (take n stream # ms, pending, close)))"
  by auto
termination by (relation "measure length") (auto dest: next_frame_size)

declare tls_frames.simps [simp del]

definition dtls_record :: "bytes \<Rightarrow> bytes option" where
  "dtls_record b = (case tls_frames b of ([m], pending, close) \<Rightarrow> if pending = [] \<and> \<not> close then Some m else None | _ \<Rightarrow> None)"

end
