(* ===== verification/Syslog.thy ===== *)
theory Syslog
  imports Syslog_Model
begin

text \<open>What the readers of events guarantee: the split of a stream does not depend on how it arrives, fields stay within their bounds,
  and the community of a trap is not carried.\<close>

section \<open>Streams\<close>

lemma next_frame_append: "next_frame a \<noteq> More \<Longrightarrow> next_frame (a @ b) = next_frame a"
proof -
  assume more: "next_frame a \<noteq> More"
  then have two: "\<not> length a < 2" by (auto simp: next_frame_def)
  define l where "l = unat (a ! 1)"
  define k where "k = (if l < 0x80 then 0 else l - 0x80)"
  define size where "size c = 2 + k + (if l < 0x80 then l else from_bytes (take k (drop 2 c)))" for c
  have at: "(a @ b) ! 0 = a ! 0" "(a @ b) ! 1 = a ! 1" using two by (cases a; auto simp: nth_append)+
  have frame: "next_frame c = (if a ! 0 \<noteq> 0x30 \<or> l = 0x80 \<or> l \<ge> 0x85 then Broken else if length c < 2 + k then More
      else if size c > TLS_MAX then Broken else if length c < size c then More else Whole (size c))"
    if "c = a \<or> c = a @ b" for c
  proof -
    have "c ! 0 = a ! 0" "c ! 1 = a ! 1" "\<not> length c < 2" using that two at by auto
    then show ?thesis by (simp only: next_frame_def Let_def l_def k_def size_def if_False)
  qed
  have "size (a @ b) = size a" if "\<not> length a < 2 + k" using that by (simp add: size_def)
  then show ?thesis using more frame [of a] frame [of "a @ b"] by (auto split: if_splits)
qed

lemma next_frame_take:
  assumes w: "next_frame b = Whole n"
  shows "next_frame (take n b) = Whole n"
proof -
  have n: "2 \<le> n" "n \<le> length b" using next_frame_size [OF w] by auto
  define l where "l = unat (b ! 1)"
  define k where "k = (if l < 0x80 then 0 else l - 0x80)"
  define body where "body = from_bytes (take k (drop 2 b))"
  have n_eq: "n = 2 + k + (if l < 0x80 then l else body)" and head: "\<not> (b ! 0 \<noteq> 0x30 \<or> l = 0x80 \<or> l \<ge> 0x85)"
    and small: "\<not> n > TLS_MAX"
    using w unfolding next_frame_def Let_def l_def [symmetric] k_def [symmetric] body_def [symmetric] by (simp_all only: split: if_splits) simp_all
  have at: "take n b ! 0 = b ! 0" "take n b ! 1 = b ! 1" "length (take n b) = n" using n by simp_all
  have "take k (drop 2 (take n b)) = take k (drop 2 b)" using n_eq by (simp add: drop_take min_def)
  then have bd: "from_bytes (take k (drop 2 (take n b))) = body" by (simp add: body_def)
  have "\<not> n < 2" "\<not> n < 2 + k" using n n_eq by simp_all
  then show ?thesis
    unfolding next_frame_def Let_def at l_def [symmetric] k_def [symmetric] bd n_eq [symmetric] using head small by simp
qed

lemma tls_frames_parts: "tls_frames s = (ms, p, c) \<Longrightarrow> concat ms @ p = s \<and> (\<forall>m\<in>set ms. next_frame m = Whole (length m)) \<and> (next_frame p = (if c then Broken else More))"
proof (induction s arbitrary: ms rule: tls_frames.induct)
  case (1 s)
  show ?case
  proof (cases "next_frame s")
    case (Whole n)
    obtain ms' where r: "tls_frames (drop n s) = (ms', p, c)" "ms = take n s # ms'"
      using 1(2) Whole by (auto simp: tls_frames.simps [of s] split: prod.splits)
    from 1(1) [OF Whole r(1)] next_frame_take [OF Whole] next_frame_size [OF Whole] show ?thesis by (simp add: r(2) min_def)
  next
    case More
    then show ?thesis using 1(2) by (simp add: tls_frames.simps [of s])
  next
    case Broken
    then show ?thesis using 1(2) by (simp add: tls_frames.simps [of s])
  qed
qed

text \<open>A TLS stream gives the same messages however it is cut into reads. Reading a first part and then what was pending with the
  rest gives what reading all of it at once gives, a broken stream stays broken, and no byte is lost: the messages and what is
  pending make up the stream, and each message is one whole frame by itself.\<close>

theorem frames_any_chunking:
  assumes "tls_frames a = (ms, p, c)" "tls_frames (p @ b) = (ms', p', c')"
  shows "tls_frames (a @ b) = (ms @ ms', p', c') \<and> (c \<longrightarrow> c' \<and> ms' = []) \<and> concat (ms @ ms') @ p' = a @ b
    \<and> (\<forall>m\<in>set (ms @ ms'). dtls_record m = Some m)"
proof -
  have split: "tls_frames (a @ b) = (ms @ ms', p', c')" using assms
  proof (induction a arbitrary: ms rule: tls_frames.induct)
    case (1 a)
    show ?case
    proof (cases "next_frame a")
      case (Whole n)
      obtain ms1 where r: "tls_frames (drop n a) = (ms1, p, c)" "ms = take n a # ms1"
        using 1(2) Whole by (auto simp: tls_frames.simps [of a] split: prod.splits)
      have n: "n \<le> length a" using next_frame_size [OF Whole] by simp
      have "next_frame (a @ b) = Whole n" using next_frame_append [of a b] Whole by simp
      then show ?thesis using 1(1) [OF Whole r(1) 1(3)] n by (simp add: tls_frames.simps [of "a @ b"] r(2))
    next
      case More
      then show ?thesis using 1(2,3) by (simp add: tls_frames.simps [of a])
    next
      case Broken
      then show ?thesis using 1(2,3) by (simp add: tls_frames.simps [of a])
    qed
  qed
  note pa = tls_frames_parts [OF assms(1)] and pb = tls_frames_parts [OF assms(2)]
  have "c' \<and> ms' = []" if c
  proof -
    have "next_frame (p @ b) = Broken" using pa that next_frame_append [of p b] by simp
    then show ?thesis using assms(2) by (simp add: tls_frames.simps [of "p @ b"])
  qed
  moreover have "dtls_record m = Some m" if "next_frame m = Whole (length m)" for m
    using that by (simp add: dtls_record_def tls_frames.simps [of m]) (simp add: tls_frames.simps [of "[]"] next_frame_def)
  ultimately show ?thesis using split pa pb tls_frames_parts [OF split] by auto
qed

theorem frames_any_chunking_witness:
  "tls_frames ([0x30, 2, 5, 0, 0x30] @ [1, 7, 0x31]) = ([[0x30, 2, 5, 0], [0x30, 1, 7]], [0x31], False)"
proof -
  have f: "next_frame [0x30, 2, 5, 0, 0x30] = Whole 4" "next_frame [0x30] = More" "next_frame [0x30, 1, 7, 0x31] = Whole 3" "next_frame [0x31] = More"
    by (simp_all add: next_frame_def TLS_MAX_def Let_def)
  have a: "tls_frames [0x30, 2, 5, 0, 0x30] = ([[0x30, 2, 5, 0]], [0x30], False)"
    by (simp add: tls_frames.simps [of "[0x30, 2, 5, 0, 0x30]"] tls_frames.simps [of "[0x30]"] f)
  have b: "tls_frames ([0x30] @ [1, 7, 0x31]) = ([[0x30, 1, 7]], [0x31], False)"
    by (simp add: tls_frames.simps [of "[0x30, 1, 7, 0x31]"] tls_frames.simps [of "[0x31]"] f)
  show ?thesis using conjunct1 [OF frames_any_chunking [OF a b]] by simp
qed

section \<open>Syslog\<close>

lemma priority_bound: "priority b = Some (pri, r) \<Longrightarrow> pri \<le> 191"
  by (auto simp: priority_def Let_def split: list.splits if_splits)

lemma msg_text_end: "msg_text b = s \<Longrightarrow> s \<noteq> [] \<Longrightarrow> last s \<noteq> char_of (13 :: nat) \<and> last s \<noteq> char_of (10 :: nat)"
proof -
  assume s: "msg_text b = s" "s \<noteq> []"
  define r where "r = dropWhile (\<lambda>x. x = 13 \<or> x = 10) (rev (utf8_replace b))"
  have s': "s = text_of (rev r)" using s(1) by (simp add: msg_text_def rstrip_bytes_def r_def)
  then have "r \<noteq> []" using s(2) by (auto simp: text_of_def)
  then have "\<not> (hd r = 13 \<or> hd r = 10)" unfolding r_def by (rule hd_dropWhile)
  have "last s = char_of (unat (hd r))" using \<open>r \<noteq> []\<close> by (simp add: s' text_of_def last_map last_rev)
  have "char_of (unat x) = (char_of (n :: nat) :: char) \<Longrightarrow> n < 256 \<Longrightarrow> x = word_of_nat n" for x :: "8 word" and n
  proof -
    assume eq: "char_of (unat x) = (char_of n :: char)" and n: "n < 256"
    have "of_char (char_of (unat x) :: char) = (of_char (char_of n :: char) :: nat)" by (simp only: eq)
    then have "unat x = n" using byte_bound [of x] n by simp
    then show ?thesis by auto
  qed
  note char = this
  show ?thesis
    using \<open>\<not> (hd r = 13 \<or> hd r = 10)\<close> \<open>last s = char_of (unat (hd r))\<close> char [of "hd r" 13] char [of "hd r" 10] by auto
qed

lemma token_shape: "token m b = Some (Some t, r) \<Longrightarrow> t \<noteq> [] \<and> (\<forall>k. m = Some k \<longrightarrow> length t \<le> k)"
  by (auto simp: token_def text_of_def Let_def split: if_splits option.splits)

lemma fields_5424_length: "fields_5424 ms b = Some (xs, r) \<Longrightarrow> length xs = length ms"
  by (induction ms arbitrary: b xs) (fastforce split: list.splits option.splits if_splits)+

lemma fields_5424_bounds:
  "fields_5424 ms b = Some (xs, r) \<Longrightarrow> i < length ms \<Longrightarrow> xs ! i = Some t \<Longrightarrow> t \<noteq> [] \<and> (\<forall>k. ms ! i = Some k \<longrightarrow> length t \<le> k)"
proof (induction ms arbitrary: b xs i)
  case (Cons m ms)
  then obtain c s x r' ys where "b = c # s" and x: "token m s = Some (x, r')" and ys: "fields_5424 ms r' = Some (ys, r)" and xs: "xs = x # ys"
    by (auto split: list.splits option.splits if_splits)
  show ?case
  proof (cases i)
    case 0
    then show ?thesis using Cons.prems(3) token_shape [of m s t r'] x xs by simp
  next
    case (Suc j)
    then show ?thesis using Cons.IH [OF ys, of j] Cons.prems(2,3) xs by simp
  qed
qed simp

lemma parse_5424_bounds:
  assumes "parse_5424 pri b = Some sl"
  shows "(\<forall>t. sy_hostname sl = Some t \<longrightarrow> t \<noteq> [] \<and> length t \<le> 255) \<and> (\<forall>t. sy_app_name sl = Some t \<longrightarrow> t \<noteq> [] \<and> length t \<le> 48)
    \<and> (\<forall>t. sy_procid sl = Some t \<longrightarrow> t \<noteq> [] \<and> length t \<le> 128) \<and> (\<forall>t. sy_msgid sl = Some t \<longrightarrow> t \<noteq> [] \<and> length t \<le> 32)
    \<and> sy_facility sl = int (pri div 8) \<and> sy_severity sl = int (pri mod 8) \<and> (sy_msg sl = [] \<or> (\<exists>m. sy_msg sl = msg_text m))"
proof -
  let ?ms = "[None, Some 255, Some 48, Some 128, Some 32] :: nat option list"
  define F where "F = fields_5424 ?ms b"
  have "F \<noteq> None" using assms unfolding parse_5424_def F_def [symmetric] by (intro notI) simp
  then obtain xs rest where F: "F = Some (xs, rest)" by auto
  then have "length xs = 5" using fields_5424_length [of ?ms b xs rest] by (simp add: F_def)
  then obtain ts host app pid mid where xs: "xs = [ts, host, app, pid, mid]"
    by (auto simp: numeral_eq_Suc length_Suc_conv)
  have f: "fields_5424 ?ms b = Some ([ts, host, app, pid, mid], rest)" using F xs by (simp add: F_def)
  have "rest \<noteq> []" using assms unfolding parse_5424_def F_def [symmetric] F xs by (intro notI) simp
  then obtain c r where rest: "rest = c # r" by (cases rest) auto
  have "c = 0x20" using assms unfolding parse_5424_def F_def [symmetric] F xs rest by (simp split: if_splits)
  then have at_sd: "parse_5424 pri b = (case structured_data r of None \<Rightarrow> None | Some (sd, r') \<Rightarrow>
        map_option (\<lambda>m. \<lparr>sy_format = Rfc5424, sy_facility = int (pri div 8), sy_severity = int (pri mod 8), sy_timestamp = ts,
          sy_hostname = host, sy_app_name = app, sy_procid = pid, sy_msgid = mid, sy_structured_data = sd, sy_msg = m\<rparr>) (msg_5424 r'))"
    unfolding parse_5424_def F_def [symmetric] F xs rest by simp
  obtain sd r' m where sl: "sl = \<lparr>sy_format = Rfc5424, sy_facility = int (pri div 8), sy_severity = int (pri mod 8), sy_timestamp = ts,
          sy_hostname = host, sy_app_name = app, sy_procid = pid, sy_msgid = mid, sy_structured_data = sd, sy_msg = m\<rparr>" "msg_5424 r' = Some m"
    using assms unfolding at_sd by (auto split: option.splits)
  have "m = [] \<or> (\<exists>x. m = msg_text x)" using sl(2) by (auto simp: msg_5424_def split: list.splits if_splits)
  then show ?thesis
    using fields_5424_bounds [OF f, of 1] fields_5424_bounds [OF f, of 2] fields_5424_bounds [OF f, of 3] fields_5424_bounds [OF f, of 4]
    by (auto simp: sl(1))
qed

text \<open>What a datagram can put into an event is bounded, whatever its bytes: the facility and severity are those of a priority, a
  host name is not empty and has at most 255 characters in RFC 5424, the message is text that does not end in a line break, and an
  alarm made of it is cleared exactly when it has no severity.\<close>

theorem syslog_bounds:
  assumes "parse_syslog b = Some sl"
  shows "0 \<le> sy_facility sl \<and> sy_facility sl \<le> 23 \<and> 0 \<le> sy_severity sl \<and> sy_severity sl \<le> 7
    \<and> (sy_format sl = Rfc5424 \<longrightarrow> (\<forall>t. sy_hostname sl = Some t \<longrightarrow> t \<noteq> [] \<and> length t \<le> 255)
        \<and> (\<forall>t. sy_app_name sl = Some t \<longrightarrow> t \<noteq> [] \<and> length t \<le> 48))
    \<and> (sy_msg sl \<noteq> [] \<longrightarrow> last (sy_msg sl) \<noteq> char_of (13 :: nat) \<and> last (sy_msg sl) \<noteq> char_of (10 :: nat))
    \<and> (\<forall>rules source table rp. map_syslog sl rules source table = Some rp \<longrightarrow> rp_cleared rp = (rp_severity rp = None))"
proof -
  obtain pri rest where p: "priority b = Some (pri, rest)" and alt: "sl = parse_3164 pri rest \<or> (\<exists>r. parse_5424 pri r = Some sl)"
    using assms by (auto simp: parse_syslog_def split: option.splits if_splits) blast
  have pri: "pri div 8 \<le> 23" "pri mod 8 \<le> 7" using priority_bound [OF p] by auto
  have old: "sy_format (parse_3164 pri rest) = Rfc3164 \<and> sy_facility (parse_3164 pri rest) = int (pri div 8)
      \<and> sy_severity (parse_3164 pri rest) = int (pri mod 8) \<and> (\<exists>m. sy_msg (parse_3164 pri rest) = msg_text m)"
    by (auto simp: parse_3164_def split: prod.split)
  have "rp_cleared rp = (rp_severity rp = None)" if "map_syslog sl rules source table = Some rp" for rules source table rp
    using that by (auto simp: map_syslog_def syslog_alarm_def alarm_report_def Let_def split: option.splits if_splits rule_action.splits)
  note mapped = this
  have fac: "0 \<le> int (pri div 8)" "int (pri div 8) \<le> 23" "0 \<le> int (pri mod 8)" "int (pri mod 8) \<le> 7" using pri by linarith+
  have fields: "sy_facility sl = int (pri div 8) \<and> sy_severity sl = int (pri mod 8) \<and> (sy_msg sl = [] \<or> (\<exists>m. sy_msg sl = msg_text m))
      \<and> (sy_format sl = Rfc5424 \<longrightarrow> (\<forall>t. sy_hostname sl = Some t \<longrightarrow> t \<noteq> [] \<and> length t \<le> 255)
        \<and> (\<forall>t. sy_app_name sl = Some t \<longrightarrow> t \<noteq> [] \<and> length t \<le> 48))"
    using alt
  proof
    assume "sl = parse_3164 pri rest"
    then show ?thesis using old by simp
  next
    assume "\<exists>r. parse_5424 pri r = Some sl"
    then show ?thesis using parse_5424_bounds by blast
  qed
  then have "sy_msg sl \<noteq> [] \<longrightarrow> last (sy_msg sl) \<noteq> char_of (13 :: nat) \<and> last (sy_msg sl) \<noteq> char_of (10 :: nat)"
    using msg_text_end by metis
  with fields fac mapped show ?thesis by simp
qed

theorem syslog_bounds_witness:
  "\<exists>sl. parse_syslog [0x3C, 0x31, 0x33, 0x3E, 0x61] = Some sl \<and> sy_facility sl = 1 \<and> sy_severity sl = 5 \<and> 0 \<le> sy_facility sl \<and> sy_severity sl \<le> 7"
proof -
  have p: "map_option (\<lambda>sl. (sy_facility sl, sy_severity sl)) (parse_syslog [0x3C, 0x31, 0x33, 0x3E, 0x61]) = Some (1, 5)" by code_simp
  then obtain sl where s: "parse_syslog [0x3C, 0x31, 0x33, 0x3E, 0x61] = Some sl" "sy_facility sl = 1" "sy_severity sl = 5" by auto
  then show ?thesis using syslog_bounds [OF s(1)] by auto
qed

section \<open>Traps\<close>

lemma add_absent_keeps: "set vbs \<subseteq> set (add_absent oid t v rs vbs)"
  by (auto simp: add_absent_def)

lemma trap_v1_keeps: "trap_v1 t received = Some (uptime, oid, vs) \<Longrightarrow> set received \<subseteq> set vs"
proof -
  assume "trap_v1 t received = Some (uptime, oid, vs)"
  then obtain e a where "vs = add_absent SNMP_TRAP_ENTERPRISE ''OBJECT IDENTIFIER'' e received (add_absent SNMP_TRAP_ADDRESS ''IpAddress'' a received received)"
    unfolding trap_v1_def by (simp split: option.splits if_splits) blast+
  then show ?thesis using add_absent_keeps by (meson subset_trans)
qed

lemma trap_v2_keeps:
  assumes "trap_v2 received = Some (Some (uptime, oid, vs))" shows "vs = drop 2 received"
proof -
  obtain up trap rest where r: "received = up # trap # rest"
    using assms unfolding trap_v2_def by (auto split: list.splits)
  obtain u where u: "vb_value up = JStr u"
    using assms unfolding trap_v2_def r by (simp split: if_splits json.splits)
  show ?thesis
    using assms unfolding trap_v2_def r list.case u json.case by (cases "vb_value trap") (auto split: if_splits)
qed

text \<open>The community string of a trap is a secret and is never carried: no version of a notification, whatever variables it lists,
  leaves one among the variables of its event, and no other variable it received after the header is lost.\<close>

theorem community_never_carried:
  assumes "normalize_trap t = Some (Some sn)"
  shows "SNMP_TRAP_COMMUNITY \<notin> vb_oid ` set (sn_varbinds sn)
    \<and> (\<exists>xs received. jget ''varbinds'' t = Some (JList xs) \<and> collect (map varbind_of xs) = Some received
         \<and> (\<forall>x\<in>set (if sn_version sn = ''v1'' then received else drop 2 received). vb_oid x \<noteq> SNMP_TRAP_COMMUNITY \<longrightarrow> x \<in> set (sn_varbinds sn)))"
proof -
  obtain xs received where r: "jlist (jget ''varbinds'' t) = Some xs" "collect (map varbind_of xs) = Some received"
    using assms by (auto simp: normalize_trap_def bind_eq_Some_conv split: option.splits)
  define v where "v = jstr (jget ''version'' t)"
  obtain uptime oid vs where vs: "(if v = Some ''v1'' then Some (trap_v1 t received) else if v \<in> {Some ''v2c'', Some ''v3''} then trap_v2 received else Some None) = Some (Some (uptime, oid, vs))"
      and sn: "sn = \<lparr>sn_version = the v, sn_uptime = uptime, sn_trap_oid = oid, sn_varbinds = filter (\<lambda>x. vb_oid x \<noteq> SNMP_TRAP_COMMUNITY) vs\<rparr>"
    using assms unfolding normalize_trap_def r bind.simps option.case Let_def v_def [symmetric] by auto
  have "set (if v = Some ''v1'' then received else drop 2 received) \<subseteq> set vs"
    using vs trap_v1_keeps trap_v2_keeps by (auto split: if_splits)
  moreover have "v \<noteq> None" using vs by (auto split: if_splits)
  ultimately show ?thesis using r by (auto simp: sn jlist_eq)
qed

theorem community_never_carried_witness:
  "\<exists>sn. normalize_trap (JDict [(''version'', JStr ''v2c''), (''varbinds'', JList (map (\<lambda>(i, v). JDict [(''oid'', JStr i), (''type'', JStr ''x''), (''value'', JStr v)])
      [(SYS_UPTIME, ''5''), (SNMP_TRAP_OID, ''1.2''), (SNMP_TRAP_COMMUNITY, ''secret''), (''1.9'', ''up'')]))]) = Some (Some sn)
    \<and> SNMP_TRAP_COMMUNITY \<notin> vb_oid ` set (sn_varbinds sn)"
proof -
  let ?t = "JDict [(''version'', JStr ''v2c''), (''varbinds'', JList (map (\<lambda>(i, v). JDict [(''oid'', JStr i), (''type'', JStr ''x''), (''value'', JStr v)])
      [(SYS_UPTIME, ''5''), (SNMP_TRAP_OID, ''1.2''), (SNMP_TRAP_COMMUNITY, ''secret''), (''1.9'', ''up'')]))]"
  have "is_numeral ''5''" "int_of_digits ''5'' = Some 5" by (simp_all add: is_numeral_def is_digit_def parse_nat_def int_of_digits_def INT_MAX_STR_DIGITS_def)
  then have "\<exists>sn. normalize_trap ?t = Some (Some sn)"
    by (simp add: normalize_trap_def jget_def jlist_def jstr_def varbind_of_def trap_v2_def)
  then show ?thesis using community_never_carried by blast
qed

end
