(* ===== verification/Snmp_Model.thy ===== *)
theory Snmp_Model
  imports Syslog_Model Base64
begin

unbundle bit_operations_syntax

text \<open>
  SNMPv3 at a gateway, \<^verbatim>\<open>dsipvec/events_v3.py\<close>: BER, the messages of the user-based security model (\<open>parse_v3\<close>) and of the
  transport model (\<open>parse_tsm\<close>), the USM receiver (class \<open>UsmReceiver\<close>) with its cache of engines' clocks, and the gateway's
  answers (\<open>snmp_answer\<close>). The hash functions, HMAC and AES-CFB are parameters. A reader is the position in the message and the
  bytes up to its end; what the code raises for a malformed message is \<^term>\<open>None\<close>.
\<close>

definition WINDOW :: int where "WINDOW = 150"
definition MAX31 :: int where "MAX31 = 2 ^ 31 - 1"
definition MAC_LEN :: "(string, nat) dict" where
  "MAC_LEN = [(''md5'', 12), (''sha'', 12), (''sha224'', 16), (''sha256'', 24), (''sha384'', 32), (''sha512'', 48)]"

section \<open>BER\<close>

definition ensure :: "bool \<Rightarrow> unit option" where
  "ensure b = (if b then Some () else None)"

text \<open>The tag, the length of the header and that of the content of the element at the front.\<close>

definition tlv :: "bytes \<Rightarrow> (nat \<times> nat \<times> nat) option" where
  "tlv b =
    (if length b < 2 then None
     else
       (let tag = unat (b ! 0); first = unat (b ! 1)
        in if tag AND 0x1F = 0x1F then None
           else
             (let k = first AND 0x7F
              in if first \<ge> 0x80 \<and> (k = 0 \<or> k > 4 \<or> length b < 2 + k) then None
                 else
                   (let h = (if first < 0x80 then 2 else 2 + k);
                        n = (if first < 0x80 then first else from_bytes (take k (drop 2 b)))
                    in if length b < h + n then None else Some (tag, h, n)))))"

type_synonym reader = "nat \<times> bytes"

definition rd_next :: "reader \<Rightarrow> (nat \<times> reader \<times> reader) option" where
  "rd_next r =
    (case r of (p, b) \<Rightarrow>
       map_option (\<lambda>(tag, h, n). (tag, (p + h, take n (drop h b)), (p + h + n, drop (h + n) b))) (tlv b))"

definition rd_expect :: "nat \<Rightarrow> reader \<Rightarrow> (reader \<times> reader) option" where
  "rd_expect tag r = do { (t, c, rest) \<leftarrow> rd_next r; ensure (t = tag); Some (c, rest) }"

definition rd_done :: "reader \<Rightarrow> unit option" where
  "rd_done r = ensure (snd r = [])"

text \<open>\<open>int.from_bytes(b, "big", signed=True)\<close>.\<close>

definition signed_int :: "bytes \<Rightarrow> int" where
  "signed_int b = (if 2 * from_bytes b \<ge> 256 ^ length b then int (from_bytes b) - 256 ^ length b else int (from_bytes b))"

definition ber_int :: "bytes \<Rightarrow> int option" where
  "ber_int b = (if 1 \<le> length b \<and> length b \<le> 8 then Some (signed_int b) else None)"

definition ber_uint :: "bytes \<Rightarrow> nat option" where
  "ber_uint b = (if 1 \<le> length b \<and> length b \<le> 9 \<and> \<not> (length b = 9 \<and> hd b \<noteq> 0) then Some (from_bytes b) else None)"

definition ranged :: "int \<Rightarrow> int \<Rightarrow> int \<Rightarrow> int option" where
  "ranged lo hi v = (if lo \<le> v \<and> v \<le> hi then Some v else None)"

text \<open>An integer that is next, within its range.\<close>

definition rd_int :: "reader \<Rightarrow> (int \<times> reader) option" where
  "rd_int r = do { (c, rest) \<leftarrow> rd_expect 0x02 r; v \<leftarrow> ber_int (snd c); Some (v, rest) }"

definition rd_ranged :: "int \<Rightarrow> int \<Rightarrow> reader \<Rightarrow> (int \<times> reader) option" where
  "rd_ranged lo hi r = do { (v, rest) \<leftarrow> rd_int r; w \<leftarrow> ranged lo hi v; Some (w, rest) }"

text \<open>The subidentifiers of an object identifier: seven bits a byte, the top bit set on all but the last.\<close>

fun oid_subs :: "nat \<Rightarrow> bytes \<Rightarrow> nat list option" where
  "oid_subs acc [] = Some []"
| "oid_subs acc (x # b) =
    (let a = push_bit 7 acc OR (unat x AND 0x7F)
     in if a > 2 ^ 64 - 1 then None
        else if unat x \<ge> 0x80 then oid_subs a b
        else map_option ((#) a) (oid_subs 0 b))"

fun join_dots :: "nat list \<Rightarrow> string" where
  "join_dots [] = ''''"
| "join_dots [n] = show_nat n"
| "join_dots (n # ns) = show_nat n @ CHR ''.'' # join_dots ns"

definition oid_head :: "nat \<Rightarrow> nat list" where
  "oid_head x = (if x < 40 then [0, x] else if x < 80 then [1, x - 40] else [2, x - 80])"

definition ber_oid :: "bytes \<Rightarrow> string option" where
  "ber_oid b =
    (if b = [] \<or> unat (last b) \<ge> 0x80 then None
     else map_option (\<lambda>subs. join_dots (oid_head (hd subs) @ tl subs)) (oid_subs 0 b))"

text \<open>\<open>_printable\<close>: UTF-8 without control characters, those of two bytes included.\<close>

fun has_control :: "bytes \<Rightarrow> bool" where
  "has_control [] = False"
| "has_control (x # b) = (x \<le> 0x1F \<or> x = 0x7F \<or> (x = 0xC2 \<and> (case b of [] \<Rightarrow> False | y # _ \<Rightarrow> 0x80 \<le> y \<and> y \<le> 0x9F)) \<or> has_control b)"

definition printable :: "bytes \<Rightarrow> string option" where
  "printable b = (if utf8_valid b \<and> \<not> has_control b then Some (text_of b) else None)"

definition hex_char :: "nat \<Rightarrow> char" where
  "hex_char n = ''0123456789abcdef'' ! n"

definition hex_of :: "bytes \<Rightarrow> string" where
  "hex_of b = concat (map (\<lambda>x. [hex_char (unat x div 16), hex_char (unat x mod 16)]) b)"

definition ip_text :: "bytes \<Rightarrow> string" where
  "ip_text b = join_dots (map unat b)"

definition ber_value :: "nat \<Rightarrow> bytes \<Rightarrow> (string \<times> string) option" where
  "ber_value tag c =
    (if tag = 0x02 then do { v \<leftarrow> ber_int c; w \<leftarrow> ranged (- (2 ^ 31)) MAX31 v; Some (''Integer32'', str_int w) }
     else if tag = 0x04 then Some (''OCTET STRING'', case printable c of Some t \<Rightarrow> t | None \<Rightarrow> hex_of c)
     else if tag = 0x05 then (if c = [] then Some (''NULL'', '''') else None)
     else if tag = 0x06 then map_option (Pair ''OBJECT IDENTIFIER'') (ber_oid c)
     else if tag = 0x40 then (if length c = 4 then Some (''IpAddress'', ip_text c) else None)
     else if tag \<in> {0x41, 0x42, 0x43, 0x46} then
       do { v \<leftarrow> ber_uint c; ensure (tag = 0x46 \<or> v \<le> 2 ^ 32 - 1);
            Some (if tag = 0x41 then ''Counter32'' else if tag = 0x42 then ''Gauge32'' else if tag = 0x43 then ''TimeTicks'' else ''Counter64'', show_nat v) }
     else if tag = 0x44 then Some (''Opaque'', hex_of c)
     else None)"

section \<open>Messages\<close>

type_synonym pdu = "nat \<times> int \<times> varbind list"

definition read_varbind :: "reader \<Rightarrow> varbind option" where
  "read_varbind r =
    do { (oid, r1) \<leftarrow> rd_expect 0x06 r;
         (t, c, r2) \<leftarrow> rd_next r1;
         rd_done r2;
         (typ, v) \<leftarrow> ber_value t (snd c);
         o1 \<leftarrow> ber_oid (snd oid);
         Some \<lparr>vb_oid = o1, vb_type = typ, vb_value = JStr v\<rparr> }"

lemma tlv_bounds: "tlv b = Some (t, h, n) \<Longrightarrow> 2 \<le> h \<and> h + n \<le> length b"
  by (auto simp: tlv_def Let_def split: if_splits)

lemma rd_expect_shorter: "rd_expect t r = Some (c, r') \<Longrightarrow> length (snd r') < length (snd r)"
  by (cases r) (auto simp: rd_expect_def rd_next_def bind_eq_Some_conv ensure_def dest!: tlv_bounds split: if_splits)

function read_varbinds :: "reader \<Rightarrow> varbind list option" where
  "read_varbinds r =
    (if snd r = [] then Some []
     else
       (case rd_expect 0x30 r of
          None \<Rightarrow> None
        | Some (c, r') \<Rightarrow> do { v \<leftarrow> read_varbind c; vs \<leftarrow> read_varbinds r'; Some (v # vs) }))"
  by auto
termination by (relation "measure (\<lambda>r. length (snd r))") (auto dest: rd_expect_shorter)

declare read_varbinds.simps [simp del]

definition scoped_content :: "reader \<Rightarrow> pdu option" where
  "scoped_content q0 =
    do { (e, q1) \<leftarrow> rd_expect 0x04 q0;
         (n, q2) \<leftarrow> rd_expect 0x04 q1;
         (tag, p0, q3) \<leftarrow> rd_next q2;
         rd_done q3;
         (rid, p1) \<leftarrow> rd_ranged (- (2 ^ 31)) MAX31 p0;
         (x, p2) \<leftarrow> rd_int p1;
         (y, p3) \<leftarrow> rd_int p2;
         (vs, p4) \<leftarrow> rd_expect 0x30 p3;
         rd_done p4;
         vbs \<leftarrow> read_varbinds vs;
         Some (tag, rid, vbs) }"

definition parse_scoped_pdu :: "bytes \<Rightarrow> pdu option" where
  "parse_scoped_pdu b = do { (s, r) \<leftarrow> rd_expect 0x30 (0, b); rd_done r; scoped_content s }"

text \<open>What both security models have: the version, the global data, and the rest of the message.\<close>

definition v3_head :: "bytes \<Rightarrow> (int \<times> nat \<times> int \<times> reader) option" where
  "v3_head b =
    do { (m0, t) \<leftarrow> rd_expect 0x30 (0, b);
         rd_done t;
         (v, m1) \<leftarrow> rd_int m0;
         ensure (v = 3);
         (g0, m2) \<leftarrow> rd_expect 0x30 m1;
         (msg_id, g1) \<leftarrow> rd_ranged 0 MAX31 g0;
         (sz, g2) \<leftarrow> rd_ranged 484 MAX31 g1;
         (f, g3) \<leftarrow> rd_expect 0x04 g2;
         ensure (length (snd f) = 1);
         (model, g4) \<leftarrow> rd_ranged 0 MAX31 g3;
         rd_done g4;
         ensure (\<not> (odd (unat (hd (snd f)) div 2) \<and> even (unat (hd (snd f)))));
         Some (msg_id, unat (hd (snd f)), model, m2) }"

datatype v3_data = Encrypted bytes | Plain pdu

record v3_message =
  vm_msg_id :: int
  vm_flags :: nat
  vm_model :: int
  vm_engine :: bytes
  vm_boots :: int
  vm_time :: int
  vm_user :: bytes
  vm_auth_at :: nat
  vm_auth_params :: bytes
  vm_priv_params :: bytes
  vm_data :: v3_data

definition vm_auth :: "v3_message \<Rightarrow> bool" where "vm_auth m = odd (vm_flags m)"
definition vm_priv :: "v3_message \<Rightarrow> bool" where "vm_priv m = odd (vm_flags m div 2)"
definition vm_reportable :: "v3_message \<Rightarrow> bool" where "vm_reportable m = odd (vm_flags m div 4)"

definition parse_v3 :: "bytes \<Rightarrow> v3_message option" where
  "parse_v3 b =
    do { (msg_id, flags, model, m0) \<leftarrow> v3_head b;
         (sec, m1) \<leftarrow> rd_expect 0x04 m0;
         (u0, s1) \<leftarrow> rd_expect 0x30 sec;
         rd_done s1;
         (engine, u1) \<leftarrow> rd_expect 0x04 u0;
         ensure (length (snd engine) = 0 \<or> (5 \<le> length (snd engine) \<and> length (snd engine) \<le> 32));
         (boots, u2) \<leftarrow> rd_ranged 0 MAX31 u1;
         (etime, u3) \<leftarrow> rd_ranged 0 MAX31 u2;
         (user, u4) \<leftarrow> rd_expect 0x04 u3;
         ensure (length (snd user) \<le> 32);
         (auth, u5) \<leftarrow> rd_expect 0x04 u4;
         (priv, u6) \<leftarrow> rd_expect 0x04 u5;
         rd_done u6;
         (data, m2) \<leftarrow> (if odd (flags div 2)
            then do { (c, r) \<leftarrow> rd_expect 0x04 m1; Some (Encrypted (snd c), r) }
            else do { (c, r) \<leftarrow> rd_expect 0x30 m1; d \<leftarrow> scoped_content c; Some (Plain d, r) });
         rd_done m2;
         Some \<lparr>vm_msg_id = msg_id, vm_flags = flags, vm_model = model, vm_engine = snd engine, vm_boots = boots, vm_time = etime,
           vm_user = snd user, vm_auth_at = fst auth, vm_auth_params = snd auth, vm_priv_params = snd priv, vm_data = data\<rparr> }"

section \<open>The transport model\<close>

definition LOCAL_ENGINE_ID :: bytes where "LOCAL_ENGINE_ID = [0x80, 0, 0, 0, 0x06]"
definition SNMP_ENGINE_ID_OID :: string where "SNMP_ENGINE_ID_OID = ''1.3.6.1.6.3.10.2.1.1.0''"

definition parse_tsm :: "bytes \<Rightarrow> (int \<times> pdu \<times> bytes) option" where
  "parse_tsm b =
    do { (msg_id, flags, model, m0) \<leftarrow> v3_head b;
         (sec, m1) \<leftarrow> rd_expect 0x04 m0;
         (s, m2) \<leftarrow> rd_expect 0x30 m1;
         d \<leftarrow> scoped_content s;
         rd_done m2;
         (engine, q) \<leftarrow> rd_expect 0x04 s;
         Some (model, d, snd engine) }"

datatype tsm_out = TsmRefused string | TsmDiscovery int | TsmAccepted "varbind list" "int option"

definition tsm_receive :: "bytes \<Rightarrow> tsm_out" where
  "tsm_receive b =
    (case parse_tsm b of
       None \<Rightarrow> TsmRefused ''malformed''
     | Some (model, (tag, rid, vbs), engine) \<Rightarrow>
         if model \<noteq> 4 then TsmRefused ''unsupported-security-model''
         else if tag = 0xA0 \<and> engine = LOCAL_ENGINE_ID \<and> map vb_oid vbs = [SNMP_ENGINE_ID_OID] then TsmDiscovery rid
         else if tag \<notin> {0xA7, 0xA6} then TsmRefused ''not-a-notification''
         else TsmAccepted vbs (if tag = 0xA6 then Some rid else None))"

section \<open>The USM receiver\<close>

record snmp_prims =
  digest :: "string \<Rightarrow> bytes \<Rightarrow> bytes"
  hmac :: "string \<Rightarrow> bytes \<Rightarrow> bytes \<Rightarrow> bytes"
  cfb_decrypt :: "bytes \<Rightarrow> bytes \<Rightarrow> bytes \<Rightarrow> bytes"
  cfb_encrypt :: "bytes \<Rightarrow> bytes \<Rightarrow> bytes \<Rightarrow> bytes"

text \<open>A mebibyte of the password repeated; an empty one raises.\<close>

definition password_to_key :: "snmp_prims \<Rightarrow> string \<Rightarrow> bytes \<Rightarrow> bytes \<Rightarrow> bytes option" where
  "password_to_key H auth password engine =
    (if password = [] then None
     else
       (let rep = take 1048576 (concat (replicate (1048576 div length password + 1) password)); ku = digest H auth rep
        in Some (digest H auth (ku @ engine @ ku))))"

definition usm_key :: "snmp_prims \<Rightarrow> string \<Rightarrow> bytes \<Rightarrow> bytes \<Rightarrow> (bytes \<times> bytes) option" where
  "usm_key H auth password engine = map_option (\<lambda>k. (k, take 16 k)) (password_to_key H auth password engine)"

text \<open>A user: an engine or any, and each key as such or as a password.\<close>

record usm_user =
  uu_engine :: "bytes option"
  uu_name :: string
  uu_auth :: string
  uu_auth_key :: "bytes + bytes"
  uu_priv_key :: "(bytes + bytes) option"

record engine_clock =
  ec_boots :: int
  ec_time :: int
  ec_latest :: int
  ec_at :: int

record usm =
  us_now :: int
  us_start :: int
  us_engine :: bytes
  us_boots :: int
  us_time0 :: int
  us_users :: "usm_user list"
  us_cache :: "(bytes, engine_clock) dict"

definition local_time :: "usm \<Rightarrow> int" where
  "local_time s = us_time0 s + (us_now s - us_start s)"

text \<open>The user of a name: one of this engine first, then one of any.\<close>

definition find_user :: "usm \<Rightarrow> bytes \<Rightarrow> bytes \<Rightarrow> usm_user option" where
  "find_user s engine name =
    (case utf8_decode name of
       None \<Rightarrow> None
     | Some n \<Rightarrow>
         (case find (\<lambda>u. uu_engine u = Some engine \<and> uu_name u = n) (us_users s) of
            Some u \<Rightarrow> Some u
          | None \<Rightarrow> find (\<lambda>u. uu_engine u = None \<and> uu_name u = n) (us_users s)))"

definition key_of_user :: "snmp_prims \<Rightarrow> usm_user \<Rightarrow> bytes \<Rightarrow> bytes + bytes \<Rightarrow> bytes option" where
  "key_of_user H u engine k = (case k of Inl key \<Rightarrow> Some key | Inr password \<Rightarrow> password_to_key H (uu_auth u) password engine)"

datatype usm_out = UsmRefused string bool | UsmAccepted "varbind list" "int option" bytes string bool

text \<open>The message with its authentication parameters zeroed, and whether it carries its digest; an unknown algorithm raises.\<close>

definition zeroed :: "bytes \<Rightarrow> nat \<Rightarrow> nat \<Rightarrow> bytes" where
  "zeroed b at n = take at b @ replicate n 0 @ drop (at + n) b"

definition authentic :: "snmp_prims \<Rightarrow> usm_user \<Rightarrow> bytes \<Rightarrow> bytes \<Rightarrow> v3_message \<Rightarrow> bool option" where
  "authentic H u ak b m =
    do { n \<leftarrow> dget MAC_LEN (uu_auth u);
         Some (length (vm_auth_params m) = n \<and> take n (hmac H (uu_auth u) ak (zeroed b (vm_auth_at m) n)) = vm_auth_params m) }"

text \<open>The gateway's own engine: its boots and its clock. Another: the cache follows the newest time, and what is older by more than
  the window is refused.\<close>

definition in_own_window :: "usm \<Rightarrow> v3_message \<Rightarrow> bool" where
  "in_own_window s m \<longleftrightarrow> us_boots s \<noteq> MAX31 \<and> vm_boots m = us_boots s \<and> \<bar>vm_time m - local_time s\<bar> \<le> WINDOW"

definition follow_clock :: "usm \<Rightarrow> v3_message \<Rightarrow> engine_clock" where
  "follow_clock s m =
    (let new = \<lparr>ec_boots = vm_boots m, ec_time = vm_time m, ec_latest = vm_time m, ec_at = us_now s\<rparr>
     in case dget (us_cache s) (vm_engine m) of
          None \<Rightarrow> new
        | Some c \<Rightarrow> if vm_boots m > ec_boots c \<or> vm_boots m = ec_boots c \<and> vm_time m > ec_latest c then new else c)"

definition too_old :: "usm \<Rightarrow> engine_clock \<Rightarrow> v3_message \<Rightarrow> bool" where
  "too_old s c m \<longleftrightarrow> ec_boots c = MAX31 \<or> vm_boots m < ec_boots c
     \<or> (vm_boots m = ec_boots c \<and> vm_time m < ec_time c + (us_now s - ec_at c) - WINDOW)"

text \<open>The scoped PDU, decrypted when the message is encrypted: \<^term>\<open>None\<close> where it does not decrypt.\<close>

definition open_data :: "snmp_prims \<Rightarrow> bytes option \<Rightarrow> v3_message \<Rightarrow> pdu option" where
  "open_data H pk m =
    (case vm_data m of
       Plain d \<Rightarrow> Some d
     | Encrypted e \<Rightarrow>
         if length (vm_priv_params m) \<noteq> 8 then None
         else parse_scoped_pdu (cfb_decrypt H (case pk of Some k \<Rightarrow> k | None \<Rightarrow> [])
                (to_bytes 4 (nat (vm_boots m)) @ to_bytes 4 (nat (vm_time m)) @ vm_priv_params m) e))"

definition usm_deliver :: "snmp_prims \<Rightarrow> usm_user \<Rightarrow> bytes option \<Rightarrow> bool \<Rightarrow> v3_message \<Rightarrow> usm_out" where
  "usm_deliver H u pk authoritative m =
    (case open_data H pk m of
       None \<Rightarrow> UsmRefused ''decryption-error'' False
     | Some (tag, rid, vbs) \<Rightarrow>
         if tag \<notin> {0xA7, 0xA6} then UsmRefused ''not-a-notification'' False
         else if (tag = 0xA7) = authoritative then UsmRefused ''engine-id-mismatch'' False
         else UsmAccepted vbs (if tag = 0xA6 then Some rid else None) (vm_engine m) (uu_name u) (vm_priv m))"

text \<open>The time check, then delivery.\<close>

definition usm_timely :: "snmp_prims \<Rightarrow> usm \<Rightarrow> usm_user \<Rightarrow> bytes option \<Rightarrow> v3_message \<Rightarrow> usm \<times> usm_out" where
  "usm_timely H s u pk m =
    (if vm_engine m = us_engine s then
       (s, if \<not> in_own_window s m then UsmRefused ''not-in-time-window'' (vm_reportable m) else usm_deliver H u pk True m)
     else
       (let c = follow_clock s m; s' = s\<lparr>us_cache := dset (vm_engine m) c (us_cache s)\<rparr>
        in (s', if too_old s c m then UsmRefused ''not-in-time-window'' False else usm_deliver H u pk False m)))"

definition usm_receive :: "snmp_prims \<Rightarrow> usm \<Rightarrow> bytes \<Rightarrow> (usm \<times> usm_out) option" where
  "usm_receive H s b =
    (case parse_v3 b of
       None \<Rightarrow> Some (s, UsmRefused ''malformed'' False)
     | Some m \<Rightarrow>
         if vm_model m \<noteq> 3 then Some (s, UsmRefused ''unsupported-security-model'' False)
         else if vm_engine m = [] then Some (s, UsmRefused ''unknown-engine-id'' (vm_reportable m))
         else
           (case find_user s (vm_engine m) (vm_user m) of
              None \<Rightarrow> Some (s, UsmRefused ''unknown-user'' False)
            | Some u \<Rightarrow>
                if \<not> vm_auth m \<or> (vm_priv m \<and> uu_priv_key u = None) then Some (s, UsmRefused ''unsupported-security-level'' False)
                else do {
                  ak \<leftarrow> key_of_user H u (vm_engine m) (uu_auth_key u);
                  pk \<leftarrow> (case uu_priv_key u of
                          None \<Rightarrow> Some None
                        | Some k \<Rightarrow> do { x \<leftarrow> key_of_user H u (vm_engine m) k; Some (Some (take 16 x)) });
                  ok \<leftarrow> authentic H u ak b m;
                  if \<not> ok then Some (s, UsmRefused ''wrong-digest'' False)
                  else Some (usm_timely H s u pk m) }))"

datatype usm_event = UsmReceive bytes | UsmAdvance int

definition usm_step :: "snmp_prims \<Rightarrow> usm \<Rightarrow> usm_event \<Rightarrow> (usm \<times> usm_out list) option" where
  "usm_step H s e =
    (case e of
       UsmReceive b \<Rightarrow> do { (s', x) \<leftarrow> usm_receive H s b; Some (s', [x]) }
     | UsmAdvance n \<Rightarrow> Some (s\<lparr>us_now := us_now s + n\<rparr>, []))"

definition init_usm :: "int \<Rightarrow> bytes \<Rightarrow> int \<Rightarrow> int \<Rightarrow> usm_user list \<Rightarrow> usm" where
  "init_usm now engine boots time0 users = \<lparr>us_now = now, us_start = now, us_engine = engine, us_boots = boots, us_time0 = time0,
     us_users = users, us_cache = []\<rparr>"

section \<open>The gateway's answers\<close>

definition ANSWER_MAX_SIZE :: int where "ANSWER_MAX_SIZE = 65507"

definition REPORT_OIDS :: "(string, string) dict" where
  "REPORT_OIDS = [(''unknown-engine-id'', ''1.3.6.1.6.3.15.1.1.4.0''), (''not-in-time-window'', ''1.3.6.1.6.3.15.1.1.2.0'')]"

definition enc_len :: "nat \<Rightarrow> bytes" where
  "enc_len n = (if n < 0x80 then [word_of_nat n] else (let k = number_bytes n in word_of_nat (0x80 OR length k) # k))"

definition enc_tlv :: "nat \<Rightarrow> bytes \<Rightarrow> bytes" where
  "enc_tlv tag body = word_of_nat tag # enc_len (length body) @ body"

text \<open>The least width, in bytes, that holds a signed number.\<close>

function int_width :: "nat \<Rightarrow> int \<Rightarrow> nat" where
  "int_width n v = (if - (2 ^ (8 * n - 1)) \<le> v \<and> v < 2 ^ (8 * n - 1) then n else int_width (Suc n) v)"
  by auto
termination
proof (relation "measure (\<lambda>(n, v). nat (\<bar>v\<bar> + 1) - 2 ^ (8 * n - 1))", simp, goal_cases)
  case (1 n v)
  then have a: "(2 :: int) ^ (8 * n - 1) \<le> \<bar>v\<bar>" by auto
  have "(2 :: nat) ^ (8 * n - 1) < 2 ^ (8 * Suc n - 1)" by (intro power_strict_increasing) auto
  moreover have "(2 :: nat) ^ (8 * n - 1) < nat (\<bar>v\<bar> + 1)"
    using a by (simp add: nat_less_iff zless_nat_eq_int_zless)
  ultimately show ?case by (simp only: in_measure prod.case diff_less_mono2)
qed

declare int_width.simps [simp del]

definition enc_int :: "int \<Rightarrow> bytes" where
  "enc_int v = (let n = int_width 1 v in enc_tlv 0x02 (to_bytes n (nat (v mod 256 ^ n))))"

definition enc_uint :: "nat \<Rightarrow> nat \<Rightarrow> bytes" where
  "enc_uint tag v = (let k = (if v = 0 then [0] else number_bytes v) in enc_tlv tag (if unat (hd k) \<ge> 0x80 then 0 # k else k))"

function enc_high :: "nat \<Rightarrow> bytes" where
  "enc_high m = (if m = 0 then [] else enc_high (m div 128) @ [word_of_nat (0x80 OR (m AND 0x7F))])"
  by auto
termination by (relation "measure id") auto

declare enc_high.simps [simp del]

definition enc_sub :: "nat \<Rightarrow> bytes" where
  "enc_sub n = enc_high (n div 128) @ [word_of_nat (n AND 0x7F)]"

definition enc_oid :: "string \<Rightarrow> bytes" where
  "enc_oid oid =
    (let p = map parse_nat (split CHR ''.'' oid) in enc_tlv 0x06 (concat (map enc_sub ((p ! 0 * 40 + p ! 1) # drop 2 p))))"

definition enc_scoped :: "bytes \<Rightarrow> bytes \<Rightarrow> nat \<Rightarrow> int \<Rightarrow> bytes \<Rightarrow> bytes" where
  "enc_scoped engine name tag rid vbl =
    enc_tlv 0x30 (enc_tlv 0x04 engine @ enc_tlv 0x04 name @ enc_tlv tag (enc_int rid @ enc_int 0 @ enc_int 0 @ vbl))"

text \<open>The whole message, and the offset of the security parameters' content in it.\<close>

definition enc_head :: "int \<Rightarrow> nat \<Rightarrow> int \<Rightarrow> bytes" where
  "enc_head msg_id flags model =
    enc_int 3 @ enc_tlv 0x30 (enc_int msg_id @ enc_int ANSWER_MAX_SIZE @ enc_tlv 0x04 [word_of_nat flags] @ enc_int model)"

definition enc_message :: "int \<Rightarrow> nat \<Rightarrow> int \<Rightarrow> bytes \<Rightarrow> bytes \<Rightarrow> bytes \<times> nat" where
  "enc_message msg_id flags model sec data =
    (let head = enc_head msg_id flags model; body = head @ enc_tlv 0x04 sec @ data
     in (enc_tlv 0x30 body, 1 + length (enc_len (length body)) + length head + 1 + length (enc_len (length sec))))"

record local_engine =
  le_id :: bytes
  le_boots :: int
  le_time :: int

record answer_user =
  an_auth :: string
  an_auth_key :: bytes
  an_priv_key :: bytes

text \<open>A USM message from the gateway's engine, encrypted and authenticated as the flags say; an unknown algorithm raises.\<close>

definition iv_of :: "int \<Rightarrow> int \<Rightarrow> bytes \<Rightarrow> bytes" where
  "iv_of boots time1 salt = to_bytes 4 (nat boots) @ to_bytes 4 (nat time1) @ salt"

definition enc_usm :: "snmp_prims \<Rightarrow> int \<Rightarrow> nat \<Rightarrow> local_engine \<Rightarrow> bytes \<Rightarrow> bytes \<Rightarrow> answer_user \<Rightarrow> bytes \<Rightarrow> bytes option" where
  "enc_usm H msg_id flags l user scoped u salt =
    map_option (\<lambda>mac_len. let priv = odd (flags div 2);
         data = (if priv then enc_tlv 0x04 (cfb_encrypt H (take 16 (an_priv_key u)) (iv_of (le_boots l) (le_time l) salt) scoped) else scoped);
         head = enc_tlv 0x04 (le_id l) @ enc_int (le_boots l) @ enc_int (le_time l) @ enc_tlv 0x04 user;
         content = head @ enc_tlv 0x04 (replicate mac_len 0) @ enc_tlv 0x04 (if priv then salt else []);
         (msg, at0) = enc_message msg_id flags 3 (enc_tlv 0x30 content) data
     in if mac_len = 0 then msg
        else
          (let at = at0 + 1 + length (enc_len (length content)) + length head + 2;
               mac = take mac_len (hmac H (an_auth u) (an_auth_key u) msg)
           in take at msg @ mac @ drop (at + mac_len) msg))
      (if odd flags then dget MAC_LEN (an_auth u) else Some 0)"

text \<open>What an answer takes from the message it answers: \<open>_received\<close> and \<open>_scoped_raw\<close>.\<close>

definition rd_raw :: "reader \<Rightarrow> (bytes \<times> reader) option" where
  "rd_raw r = map_option (\<lambda>(t, c, rest). (take (fst rest - fst r) (snd r), rest)) (rd_next r)"

definition snmp_received :: "bytes \<Rightarrow> (int \<times> nat \<times> int \<times> bytes) option" where
  "snmp_received b =
    do { (m0, t) \<leftarrow> rd_expect 0x30 (0, b);
         (v, m1) \<leftarrow> rd_expect 0x02 m0;
         (g0, m2) \<leftarrow> rd_expect 0x30 m1;
         (msg_id, g1) \<leftarrow> rd_int g0;
         (sz, g2) \<leftarrow> rd_expect 0x02 g1;
         (f, g3) \<leftarrow> rd_expect 0x04 g2;
         ensure (snd f \<noteq> []);
         (model, g4) \<leftarrow> rd_int g3;
         (sec, m3) \<leftarrow> rd_expect 0x04 m2;
         (data, m4) \<leftarrow> rd_raw m3;
         Some (msg_id, unat (hd (snd f)), model, data) }"

definition scoped_raw :: "bytes \<Rightarrow> (bytes \<times> bytes \<times> int \<times> bytes) option" where
  "scoped_raw b =
    do { (s, t) \<leftarrow> rd_expect 0x30 (0, b);
         rd_done t;
         (engine, q1) \<leftarrow> rd_expect 0x04 s;
         (name, q2) \<leftarrow> rd_expect 0x04 q1;
         (tag, p0, q3) \<leftarrow> rd_next q2;
         (rid, p1) \<leftarrow> rd_int p0;
         (x, p2) \<leftarrow> rd_expect 0x02 p1;
         (y, p3) \<leftarrow> rd_expect 0x02 p2;
         (t2, vs, p4) \<leftarrow> rd_next p3;
         ensure (t2 = 0x30);
         Some (snd engine, snd name, rid, take (fst p4 - fst p3) (snd p3)) }"

definition report_bindings :: "string \<Rightarrow> nat \<Rightarrow> bytes" where
  "report_bindings kind counter = enc_tlv 0x30 (enc_tlv 0x30 (enc_oid (dget_or REPORT_OIDS kind '''') @ enc_uint 0x41 counter))"

definition snmp_report :: "snmp_prims \<Rightarrow> string \<Rightarrow> bytes \<Rightarrow> local_engine \<Rightarrow> nat \<Rightarrow> answer_user \<Rightarrow> bytes option" where
  "snmp_report H kind b l counter u =
    do { m \<leftarrow> parse_v3 b;
         enc_usm H (vm_msg_id m) (if kind = ''not-in-time-window'' then 1 else 0) l (vm_user m)
           (enc_scoped (le_id l) [] 0xA8 0 (report_bindings kind counter)) u [] }"

definition tsm_answer :: "bool \<Rightarrow> bytes \<Rightarrow> local_engine \<Rightarrow> bytes option" where
  "tsm_answer discovery b l =
    do { (msg_id, flags, model, data) \<leftarrow> snmp_received b;
         x \<leftarrow> parse_tsm b;
         (engine, name, rid, vbl) \<leftarrow> scoped_raw data;
         Some (fst (enc_message msg_id (flags AND 3) 4 [] (enc_scoped engine name 0xA2 rid
           (if discovery then enc_tlv 0x30 (enc_tlv 0x30 (enc_oid SNMP_ENGINE_ID_OID @ enc_tlv 0x04 (le_id l))) else vbl)))) }"

definition usm_answer :: "snmp_prims \<Rightarrow> bytes \<Rightarrow> local_engine \<Rightarrow> answer_user \<Rightarrow> bytes \<Rightarrow> bytes option" where
  "usm_answer H b l u salt =
    do { (msg_id, flags, model, data) \<leftarrow> snmp_received b;
         m \<leftarrow> parse_v3 b;
         (engine, name, rid, vbl) \<leftarrow> scoped_raw (case vm_data m of
            Encrypted e \<Rightarrow> cfb_decrypt H (take 16 (an_priv_key u)) (iv_of (vm_boots m) (vm_time m) (vm_priv_params m)) e
          | Plain d \<Rightarrow> data);
         enc_usm H msg_id (flags AND 3) l (vm_user m) (enc_scoped engine name 0xA2 rid vbl) u (if odd ((flags AND 3) div 2) then salt else []) }"

text \<open>The answer: \<^term>\<open>None\<close> where the code answers that the message is malformed, or raises.\<close>

definition snmp_answer :: "snmp_prims \<Rightarrow> string \<Rightarrow> bytes \<Rightarrow> local_engine \<Rightarrow> nat \<Rightarrow> answer_user \<Rightarrow> bytes \<Rightarrow> bytes option" where
  "snmp_answer H kind b l counter u salt =
    (if kind \<in> set (dkeys REPORT_OIDS) then snmp_report H kind b l counter u
     else
       do { (msg_id, flags, model, data) \<leftarrow> snmp_received b;
            if model = 4 then tsm_answer (kind = ''discovery'') b l else usm_answer H b l u salt })"

end
