(* ===== verification/Snmp.thy ===== *)
theory Snmp
  imports Snmp_Model
begin

text \<open>What the USM receiver accepts, its clocks, and that the gateway's own messages read back.\<close>

section \<open>The cache of clocks\<close>

definition known_clock :: "bytes \<Rightarrow> usm \<Rightarrow> int \<times> int" where
  "known_clock e s = (case dget (us_cache s) e of None \<Rightarrow> (-1, -1) | Some c \<Rightarrow> (ec_boots c, ec_latest c))"

definition usm_ok :: "usm \<Rightarrow> bool" where
  "usm_ok s \<longleftrightarrow> (\<forall>e c. dget (us_cache s) e = Some c \<longrightarrow> ec_time c = ec_latest c \<and> 0 \<le> ec_boots c \<and> ec_at c \<le> us_now s)"

definition usm_event_ok :: "usm_event \<Rightarrow> bool" where
  "usm_event_ok e = (case e of UsmReceive b \<Rightarrow> True | UsmAdvance n \<Rightarrow> 0 \<le> n)"

definition usm_next :: "snmp_prims \<Rightarrow> usm \<Rightarrow> usm_event \<Rightarrow> usm option" where
  "usm_next H s e = map_option fst (usm_step H s e)"

lemma rd_ranged_bound: "rd_ranged lo hi r = Some (v, r') \<Longrightarrow> lo \<le> v \<and> v \<le> hi"
  by (auto simp: rd_ranged_def ranged_def bind_eq_Some_conv split: if_splits)

lemma parse_v3_bounds: "parse_v3 b = Some m \<Longrightarrow> 0 \<le> vm_boots m \<and> 0 \<le> vm_time m"
  unfolding parse_v3_def by (auto simp: bind_eq_Some_conv dest!: rd_ranged_bound)

text \<open>A message that passes reaches the check of its time, authentic under the key of a configured user.\<close>

lemma usm_receive_cases:
  assumes "usm_receive H s b = Some (s', x)"
  obtains (refused) reason report where "s' = s" "x = UsmRefused reason report"
  | (checked) m u ak pk where "parse_v3 b = Some m" "vm_model m = 3" "find_user s (vm_engine m) (vm_user m) = Some u"
      "vm_auth m" "vm_priv m \<longrightarrow> uu_priv_key u \<noteq> None" "key_of_user H u (vm_engine m) (uu_auth_key u) = Some ak"
      "authentic H u ak b m = Some True" "(s', x) = usm_timely H s u pk m"
proof (cases "parse_v3 b")
  case None
  then show thesis using refused assms by (auto simp: usm_receive_def)
next
  case (Some m)
  show thesis
  proof (cases "vm_model m \<noteq> 3 \<or> vm_engine m = []")
    case True
    then show thesis using refused assms by (auto simp: usm_receive_def Some split: if_splits)
  next
    case False
    show thesis
    proof (cases "find_user s (vm_engine m) (vm_user m)")
      case None
      then show thesis using refused assms False by (auto simp: usm_receive_def Some)
    next
      case u: (Some u)
      show thesis
      proof (cases "\<not> vm_auth m \<or> (vm_priv m \<and> uu_priv_key u = None)")
        case True
        then show thesis using refused assms False by (auto simp: usm_receive_def Some u)
      next
        case False2: False
        then obtain ak pk ok where k: "key_of_user H u (vm_engine m) (uu_auth_key u) = Some ak" "authentic H u ak b m = Some ok"
            and r: "(if \<not> ok then Some (s, UsmRefused ''wrong-digest'' False) else Some (usm_timely H s u pk m)) = Some (s', x)"
          using assms False by (auto simp: usm_receive_def Some u bind_eq_Some_conv)
        show thesis
        proof (cases ok)
          case True
          then have "(s', x) = usm_timely H s u pk m" "authentic H u ak b m = Some True" using r k by simp_all
          from checked [OF Some _ u _ _ k(1) this(2,1)] show thesis using False False2 by simp
        qed (use r refused in auto)
      qed
    qed
  qed
qed

lemma usm_timely_state:
  "fst (usm_timely H s u pk m) = (if vm_engine m = us_engine s then s
     else s\<lparr>us_cache := dset (vm_engine m) (follow_clock s m) (us_cache s)\<rparr>)"
  by (simp add: usm_timely_def Let_def)

lemma follow_clock_ok:
  assumes "usm_ok s" "0 \<le> vm_boots m" "0 \<le> vm_time m"
  shows "ec_time (follow_clock s m) = ec_latest (follow_clock s m)" "0 \<le> ec_boots (follow_clock s m)" "ec_at (follow_clock s m) \<le> us_now s"
    "known_clock (vm_engine m) s \<le> (ec_boots (follow_clock s m), ec_latest (follow_clock s m))"
    "(vm_boots m, vm_time m) \<le> (ec_boots (follow_clock s m), ec_latest (follow_clock s m))"
  using assms by (auto simp: follow_clock_def usm_ok_def known_clock_def Let_def less_eq_prod_simp split: option.splits)

lemma usm_next_cases:
  assumes "usm_next H s e = Some s'" "usm_ok s" "usm_event_ok e"
  shows "usm_ok s' \<and> us_engine s' = us_engine s \<and> us_boots s' = us_boots s \<and> known_clock x s \<le> known_clock x s'"
proof (cases e)
  case (UsmAdvance n)
  then have "s' = s\<lparr>us_now := us_now s + n\<rparr>" "0 \<le> n" using assms(1,3) by (auto simp: usm_next_def usm_step_def usm_event_ok_def)
  then show ?thesis using assms(2) by (force simp: usm_ok_def known_clock_def)
next
  case (UsmReceive b)
  then obtain y where r: "usm_receive H s b = Some (s', y)" using assms(1) by (auto simp: usm_next_def usm_step_def bind_eq_Some_conv)
  then show ?thesis
  proof (cases rule: usm_receive_cases)
    case (checked m u ak pk)
    note pos = parse_v3_bounds [OF checked(1)]
    note f = follow_clock_ok [OF assms(2) conjunct1 [OF pos] conjunct2 [OF pos]]
    have "s' = fst (usm_timely H s u pk m)" using checked(8) by (metis fst_conv)
    then show ?thesis using assms(2) f unfolding usm_timely_state by (auto simp: usm_ok_def known_clock_def split: if_splits)
  qed (use assms(2) in simp)
qed

interpretation usm: monotone_machine "usm_next H" usm_event_ok usm_ok "known_clock x" for H x
  by unfold_locales (use usm_next_cases in blast)+

section \<open>What is accepted\<close>

lemma usm_deliver_accepted:
  "usm_deliver H u pk a m = UsmAccepted vbs rid e n p \<Longrightarrow> e = vm_engine m \<and> n = uu_name u \<and> p = vm_priv m
     \<and> (\<exists>tag r. open_data H pk m = Some (tag, r, vbs) \<and> (if a then tag = 0xA6 else tag = 0xA7))"
  by (auto simp: usm_deliver_def split: option.splits if_splits)

lemma usm_accepted_sound:
  assumes "usm_receive H s b = Some (s', UsmAccepted vbs rid e n p)"
  shows "\<exists>m u ak. parse_v3 b = Some m \<and> vm_engine m = e \<and> find_user s e (vm_user m) = Some u \<and> uu_name u = n \<and> vm_priv m = p
    \<and> (p \<longrightarrow> uu_priv_key u \<noteq> None)
    \<and> vm_auth m \<and> key_of_user H u e (uu_auth_key u) = Some ak
    \<and> take (dget_or MAC_LEN (uu_auth u) 0) (hmac H (uu_auth u) ak (zeroed b (vm_auth_at m) (length (vm_auth_params m)))) = vm_auth_params m
    \<and> (if e = us_engine s then in_own_window s m \<and> s' = s
       else \<exists>c. dget (us_cache s') e = Some c \<and> (vm_boots m, vm_time m) \<le> (ec_boots c, max (ec_latest c) (vm_time m)) \<and> vm_boots m = ec_boots c
         \<and> ec_time c + (us_now s - ec_at c) - 150 \<le> vm_time m)"
  using assms
proof (cases rule: usm_receive_cases)
  case (checked m u ak pk)
  have auth: "take (dget_or MAC_LEN (uu_auth u) 0) (hmac H (uu_auth u) ak (zeroed b (vm_auth_at m) (length (vm_auth_params m)))) = vm_auth_params m"
    using checked(7) by (auto simp: authentic_def dget_or_def bind_eq_Some_conv)
  show ?thesis
  proof (cases "vm_engine m = us_engine s")
    case True
    then have t: "s' = s" "in_own_window s m" "usm_deliver H u pk True m = UsmAccepted vbs rid e n p"
      using checked(8) by (auto simp: usm_timely_def split: if_splits)
    then show ?thesis using usm_deliver_accepted [OF t(3)] checked auth True by metis
  next
    case False
    then have t: "s' = s\<lparr>us_cache := dset (vm_engine m) (follow_clock s m) (us_cache s)\<rparr>" "\<not> too_old s (follow_clock s m) m"
        "usm_deliver H u pk False m = UsmAccepted vbs rid e n p"
      using checked(8) by (auto simp: usm_timely_def Let_def split: if_splits)
    have "vm_boots m \<le> ec_boots (follow_clock s m)"
      by (auto simp: follow_clock_def Let_def split: option.splits)
    then have "vm_boots m = ec_boots (follow_clock s m)" "ec_time (follow_clock s m) + (us_now s - ec_at (follow_clock s m)) - 150 \<le> vm_time m"
      using t(2) by (auto simp: too_old_def WINDOW_def)
    then show ?thesis using usm_deliver_accepted [OF t(3)] checked auth False t(1) by (auto simp: less_eq_prod_simp)
  qed
qed simp

text \<open>C24: A notification over SNMPv3 is accepted only from a configured user: the message carries that user's digest of itself, is
  encrypted only for a user with a privacy key, and is in time. An inform is one to the gateway's own engine, of its current boots
  and within 150 seconds of its clock; a trap comes from another engine and is not older than the newest time known of it by more
  than 150 seconds and the time passed since.\<close>

theorem usm_accepts_authentic:
  assumes "usm_receive H s b = Some (s', UsmAccepted vbs rid e n p)"
  shows "\<exists>m u ak. parse_v3 b = Some m \<and> vm_engine m = e \<and> find_user s e (vm_user m) = Some u \<and> uu_name u = n \<and> vm_priv m = p
    \<and> (p \<longrightarrow> uu_priv_key u \<noteq> None)
    \<and> vm_auth m \<and> key_of_user H u e (uu_auth_key u) = Some ak
    \<and> take (dget_or MAC_LEN (uu_auth u) 0) (hmac H (uu_auth u) ak (zeroed b (vm_auth_at m) (length (vm_auth_params m)))) = vm_auth_params m
    \<and> (if e = us_engine s then in_own_window s m \<and> s' = s
       else \<exists>c. dget (us_cache s') e = Some c \<and> (vm_boots m, vm_time m) \<le> (ec_boots c, max (ec_latest c) (vm_time m)) \<and> vm_boots m = ec_boots c
         \<and> ec_time c + (us_now s - ec_at c) - 150 \<le> vm_time m)"
  using assms by (rule usm_accepted_sound)

lemma usm_engine_fixed: "reaches (usm_next H) usm_event_ok s t \<Longrightarrow> usm_ok s \<Longrightarrow> us_engine t = us_engine s"
proof (induction rule: reaches.induct)
  case (reaches_step s t e u)
  have "usm_ok t" using usm.reaches_inv [OF reaches_step(1) reaches_step(5)] .
  then show ?case using usm_next_cases [OF reaches_step(3) _ reaches_step(2)] reaches_step(4,5) by simp
qed simp

text \<open>C25: Old notifications cannot be replayed. Once a trap of an engine has been accepted, then whatever the gateway receives and however
  time passes, no trap of that engine is accepted that has fewer boots, or the same boots and a time more than 150 seconds before
  the first one's.\<close>

theorem usm_no_replay:
  assumes "usm_ok s" "usm_receive H s b = Some (s1, UsmAccepted vbs rid e n p)" "e \<noteq> us_engine s" "parse_v3 b = Some m"
    and "reaches (usm_next H) usm_event_ok s1 t" "usm_receive H t b' = Some (t1, UsmAccepted vbs' rid' e n' p')" "parse_v3 b' = Some m'"
  shows "vm_boots m < vm_boots m' \<or> vm_boots m = vm_boots m' \<and> vm_time m - 150 \<le> vm_time m'"
proof -
  have step: "usm_next H s (UsmReceive b) = Some s1" "usm_next H t (UsmReceive b') = Some t1"
    using assms(2,6) by (simp_all add: usm_next_def usm_step_def)
  have ok1: "usm_ok s1" and eng1: "us_engine s1 = us_engine s" using usm_next_cases [OF step(1) assms(1)] by (simp_all add: usm_event_ok_def)
  have okt: "usm_ok t" using usm.reaches_inv [OF assms(5) ok1] .
  have engt: "us_engine t = us_engine s1" by (rule usm_engine_fixed [OF assms(5) ok1])
  obtain c where c: "dget (us_cache s1) e = Some c" "vm_boots m = ec_boots c"
    and le: "(vm_boots m, vm_time m) \<le> (ec_boots c, ec_latest c)"
  proof -
    from assms(2) show thesis
    proof (cases rule: usm_receive_cases)
      case (checked m0 u ak pk)
      then have m0: "m0 = m" using assms(4) by simp
      have e: "vm_engine m = e" using usm_accepted_sound [OF assms(2)] assms(4) by auto
      note f = follow_clock_ok [OF assms(1), of m] parse_v3_bounds [OF assms(4)]
      have "s1 = fst (usm_timely H s u pk m)" using checked(8) m0 by (metis fst_conv)
      then have "dget (us_cache s1) e = Some (follow_clock s m)" using e assms(3) by (simp add: usm_timely_state)
      then show thesis using that f usm_accepted_sound [OF assms(2)] assms(3,4) by fastforce
    qed simp
  qed
  have mono: "known_clock e s1 \<le> known_clock e t1"
    using usm.reaches_mono [OF assms(5) ok1, of e] usm_next_cases [OF step(2) okt, of e] by (force simp: usm_event_ok_def)
  have "e \<noteq> us_engine t" using assms(3) eng1 engt by simp
  then obtain c' where c': "dget (us_cache t1) e = Some c'" "vm_boots m' = ec_boots c'" "ec_time c' + (us_now t - ec_at c') - 150 \<le> vm_time m'"
    using usm_accepted_sound [OF assms(6)] assms(7) by auto
  have okt1: "usm_ok t1" using usm_next_cases [OF step(2) okt] by (simp add: usm_event_ok_def)
  have now: "us_now t1 = us_now t"
    using assms(6)
  proof (cases rule: usm_receive_cases)
    case (checked m0 u ak pk)
    then have "t1 = fst (usm_timely H t u pk m0)" by (metis fst_conv)
    then show ?thesis by (simp add: usm_timely_state)
  qed simp
  have "ec_latest c' - 150 \<le> vm_time m'" using c'(1,3) okt1 now by (fastforce simp: usm_ok_def)
  moreover have "(vm_boots m, vm_time m) \<le> (ec_boots c', ec_latest c')"
    using le mono unfolding known_clock_def c(1) c'(1) option.case by (rule order_trans)
  ultimately show ?thesis using c'(2) by (auto simp: less_eq_prod_simp)
qed

section \<open>What the gateway writes reads back\<close>

lemma from_number_bytes: "from_bytes (number_bytes n) = n"
proof (induction n rule: number_bytes.induct)
  case (1 n)
  then show ?case by (cases "n = 0") (simp_all add: number_bytes.simps [of n] number_bytes.simps [of 0] unat_of_nat take_bit_nat_def)
qed

lemma number_bytes_length: "n < 256 ^ k \<Longrightarrow> length (number_bytes n) \<le> k"
proof (induction k arbitrary: n)
  case 0
  then show ?case by (simp add: number_bytes.simps)
next
  case (Suc k)
  then have "n div 256 < 256 ^ k" by (simp add: less_mult_imp_div_less mult.commute)
  then show ?case using Suc.IH [of "n div 256"] by (simp add: number_bytes.simps [of n])
qed

lemma number_bytes_nonempty: "0 < n \<Longrightarrow> number_bytes n \<noteq> []"
  by (simp add: number_bytes.simps [of n])

definition small_body :: "bytes \<Rightarrow> bool" where
  "small_body b \<longleftrightarrow> length b < 2 ^ 32"

lemma tlv_enc:
  assumes "tag < 256" "tag AND 0x1F \<noteq> 0x1F" "small_body body"
  shows "tlv (enc_tlv tag body @ rest) = Some (tag, Suc (length (enc_len (length body))), length body)"
proof -
  have tag: "unat (word_of_nat tag :: 8 word) = tag" using assms(1) by (simp add: unat_of_nat take_bit_nat_eq_self)
  show ?thesis
  proof (cases "length body < 0x80")
    case True
    then have "unat (word_of_nat (length body) :: 8 word) = length body" by (simp add: unat_of_nat take_bit_nat_eq_self)
    then show ?thesis using assms(2) True by (simp add: tlv_def enc_tlv_def enc_len_def tag Let_def)
  next
    case False
    define k where "k = number_bytes (length body)"
    have "0 < length body" using False by linarith
    then have "length k \<le> 4" "k \<noteq> []" using assms(3) False number_bytes_length [of "length body" 4] number_bytes_nonempty [of "length body"]
      by (simp_all add: k_def small_body_def)
    moreover have "1 \<le> length k" using \<open>k \<noteq> []\<close> by (cases k) auto
    ultimately have "length k = 1 \<or> length k = 2 \<or> length k = 3 \<or> length k = 4" by linarith
    then have first: "unat (word_of_nat (0x80 OR length k) :: 8 word) = 0x80 + length k" "(0x80 + length k) AND 0x7F = length k"
      by (auto simp: unat_of_nat take_bit_nat_def)
    have "from_bytes k = length body" by (simp add: k_def from_number_bytes)
    then show ?thesis using assms(2) False first \<open>length k \<le> 4\<close> \<open>k \<noteq> []\<close>
      by (simp add: tlv_def enc_tlv_def enc_len_def tag k_def [symmetric] Let_def)
  qed
qed

definition header_len :: "bytes \<Rightarrow> nat" where
  "header_len body = Suc (length (enc_len (length body)))"

lemma enc_tlv_split: "take (header_len body) (enc_tlv tag body @ rest) = word_of_nat tag # enc_len (length body)"
  "drop (header_len body) (enc_tlv tag body @ rest) = body @ rest"
  by (simp_all add: header_len_def enc_tlv_def)

lemma enc_tlv_length: "length (enc_tlv tag body) = header_len body + length body"
  by (simp add: enc_tlv_def header_len_def)

lemma rd_next_enc:
  assumes "tag < 256" "tag AND 0x1F \<noteq> 0x1F" "small_body body"
  shows "rd_next (p, enc_tlv tag body @ rest) = Some (tag, (p + header_len body, body), (p + header_len body + length body, rest))"
proof -
  have "drop (header_len body + length body) (enc_tlv tag body @ rest) = rest"
    using enc_tlv_length [of tag body] by simp
  then show ?thesis using tlv_enc [OF assms] enc_tlv_split [of body tag rest] by (simp add: rd_next_def header_len_def del: drop_append take_append) simp
qed

lemma rd_expect_enc:
  assumes "tag \<in> {0x02, 0x04, 0x06, 0x30}" "small_body body"
  shows "rd_expect tag (p, enc_tlv tag body @ rest) = Some ((p + header_len body, body), (p + header_len body + length body, rest))"
    "rd_expect tag (p, enc_tlv tag body) = Some ((p + header_len body, body), (p + header_len body + length body, []))"
  using rd_next_enc [of tag body p rest] rd_next_enc [of tag body p "[]"] assms by (auto simp: rd_expect_def ensure_def)

section \<open>Integers\<close>

lemma int_width_range: "1 \<le> n \<Longrightarrow> - (2 ^ (8 * int_width n v - 1)) \<le> v \<and> v < 2 ^ (8 * int_width n v - 1) \<and> n \<le> int_width n v"
proof (induction n v rule: int_width.induct)
  case (1 n v)
  then show ?case by (cases "- (2 ^ (8 * n - 1)) \<le> v \<and> v < 2 ^ (8 * n - 1)") (auto simp: int_width.simps [of n v])
qed

lemma int_width_least: "n \<le> m \<Longrightarrow> - (2 ^ (8 * m - 1)) \<le> v \<Longrightarrow> v < 2 ^ (8 * m - 1) \<Longrightarrow> int_width n v \<le> m"
proof (induction n v rule: int_width.induct)
  case (1 n v)
  show ?case
  proof (cases "- (2 ^ (8 * n - 1)) \<le> v \<and> v < 2 ^ (8 * n - 1)")
    case False
    then have "n \<noteq> m" using 1(3,4) by auto
    then show ?thesis using 1 False by (simp add: int_width.simps [of n v])
  qed (use 1(2) in \<open>simp add: int_width.simps [of n v]\<close>)
qed

lemma signed_int_bytes:
  assumes "1 \<le> n" "- (2 ^ (8 * n - 1)) \<le> v" "v < 2 ^ (8 * n - 1)"
  shows "signed_int (to_bytes n (nat (v mod 256 ^ n))) = v"
proof -
  have pow: "(256 :: int) ^ n = 2 * 2 ^ (8 * n - 1)"
  proof -
    have "(256 :: int) ^ n = 2 ^ (8 * n)" by (simp add: power_mult)
    also have "8 * n = Suc (8 * n - 1)" using assms(1) by simp
    also have "(2 :: int) ^ Suc (8 * n - 1) = 2 * 2 ^ (8 * n - 1)" by (rule power_Suc)
    finally show ?thesis .
  qed
  define u where "u = v mod 256 ^ n"
  have u: "0 \<le> u" "u < 256 ^ n" by (simp_all add: u_def)
  have "nat u < 256 ^ n" using u by (simp add: nat_less_iff)
  then have fb: "int (from_bytes (to_bytes n (nat u))) = u" using u by (simp add: from_to_bytes)
  have u_eq: "u = (if v < 0 then v + 256 ^ n else v)"
  proof (cases "v < 0")
    case True
    then have "u = (v + 256 ^ n) mod 256 ^ n" by (simp add: u_def)
    also have "\<dots> = v + 256 ^ n" using assms True pow by (intro mod_pos_pos_trivial) auto
    finally show ?thesis using True by simp
  next
    case False
    then show ?thesis unfolding u_def using assms pow by (simp add: mod_pos_pos_trivial)
  qed
  have "2 * from_bytes (to_bytes n (nat u)) \<ge> 256 ^ n \<longleftrightarrow> 2 * u \<ge> 256 ^ n"
  proof -
    have "2 * from_bytes (to_bytes n (nat u)) \<ge> 256 ^ n \<longleftrightarrow> int (256 ^ n) \<le> int (2 * from_bytes (to_bytes n (nat u)))" by (simp only: of_nat_le_iff)
    then show ?thesis using fb by simp
  qed
  also have "\<dots> \<longleftrightarrow> v < 0" using u_eq pow assms by auto
  finally show ?thesis using fb u_eq unfolding signed_int_def u_def [symmetric] by auto
qed

text \<open>Every 64-bit integer reads back.\<close>

lemma rd_int_enc:
  assumes "- (2 ^ 63) \<le> v" "v < 2 ^ 63"
  shows "\<exists>q. rd_int (p, enc_int v @ rest) = Some (v, (q, rest)) \<and> q = p + length (enc_int v)"
proof -
  define n where "n = int_width 1 v"
  have r: "- (2 ^ (8 * n - 1)) \<le> v" "v < 2 ^ (8 * n - 1)" "1 \<le> n" using int_width_range [of 1 v] by (simp_all add: n_def)
  have n8: "n \<le> 8" unfolding n_def by (rule int_width_least) (use assms in simp_all)
  define b where "b = to_bytes n (nat (v mod 256 ^ n))"
  have e: "enc_int v = enc_tlv 0x02 b" by (simp add: enc_int_def Let_def n_def b_def)
  have lb: "length b = n" by (simp add: b_def)
  then have "small_body b" using n8 by (simp add: small_body_def)
  moreover have "ber_int b = Some v" using r n8 lb signed_int_bytes [OF r(3) r(1,2)] by (simp add: ber_int_def b_def)
  ultimately show ?thesis using rd_expect_enc(1) [of "0x02" b p rest] by (simp add: rd_int_def e enc_tlv_length)
qed

end
