(* ===== verification/Snmp_Answer.thy ===== *)
theory Snmp_Answer
  imports Snmp
begin

text \<open>The gateway's authenticated answers read back and carry the digest that their receiver checks; and the witnesses of the
  properties of SNMPv3, on a trap written so.\<close>

section \<open>Numbers and headers\<close>

lemma rd_int_encs:
  assumes "- (2 ^ 63) \<le> v" "v < 2 ^ 63"
  shows "rd_int (p, enc_int v @ rest) = Some (v, (p + length (enc_int v), rest))"
    "rd_int (p, enc_int v) = Some (v, (p + length (enc_int v), []))"
  using rd_int_enc [OF assms, of p rest] rd_int_enc [OF assms, of p "[]"] by auto

lemma rd_ranged_encs:
  assumes "lo \<le> v" "v \<le> hi" "- (2 ^ 31) \<le> lo" "hi \<le> MAX31"
  shows "rd_ranged lo hi (p, enc_int v @ rest) = Some (v, (p + length (enc_int v), rest))"
    "rd_ranged lo hi (p, enc_int v) = Some (v, (p + length (enc_int v), []))"
proof -
  have b: "- (2 ^ 63) \<le> v" "v < 2 ^ 63" using assms by (simp_all add: MAX31_def)
  show "rd_ranged lo hi (p, enc_int v @ rest) = Some (v, (p + length (enc_int v), rest))"
    "rd_ranged lo hi (p, enc_int v) = Some (v, (p + length (enc_int v), []))"
    using assms(1,2) by (simp_all add: rd_ranged_def rd_int_encs [OF b] ranged_def)
qed

lemma enc_int_length: "- (2 ^ 63) \<le> v \<Longrightarrow> v < 2 ^ 63 \<Longrightarrow> length (enc_int v) \<le> 10"
proof -
  assume a: "- (2 ^ 63) \<le> v" "v < 2 ^ 63"
  have "int_width 1 v \<le> 8" by (rule int_width_least) (use a in simp_all)
  then show ?thesis by (simp add: enc_int_def Let_def enc_tlv_def enc_len_def)
qed

definition in31 :: "int \<Rightarrow> bool" where
  "in31 v \<longleftrightarrow> 0 \<le> v \<and> v \<le> MAX31"

lemma in31_bounds: "in31 v \<Longrightarrow> - (2 ^ 63) \<le> v \<and> v < 2 ^ 63"
  by (simp add: in31_def MAX31_def)

lemma in31_reads:
  assumes "in31 v"
  shows "rd_ranged 0 MAX31 (p, enc_int v @ rest) = Some (v, (p + length (enc_int v), rest))"
    "rd_ranged 0 MAX31 (p, enc_int v) = Some (v, (p + length (enc_int v), []))"
    "rd_int (p, enc_int v @ rest) = Some (v, (p + length (enc_int v), rest))"
  using assms in31_bounds [OF assms] rd_ranged_encs(1) [of 0 v MAX31 p rest] rd_ranged_encs(2) [of 0 v MAX31 p] rd_int_encs(1) [of v p rest] by (simp_all add: in31_def)

lemma const_reads:
  "rd_int (p, enc_int 3 @ rest) = Some (3, (p + length (enc_int 3), rest))"
  "rd_ranged 484 MAX31 (p, enc_int ANSWER_MAX_SIZE @ rest) = Some (ANSWER_MAX_SIZE, (p + length (enc_int ANSWER_MAX_SIZE), rest))"
  using rd_int_encs(1) [of 3 p rest] rd_ranged_encs(1) [of 484 ANSWER_MAX_SIZE MAX31 p rest] by (simp_all add: ANSWER_MAX_SIZE_def MAX31_def)

definition global_data :: "int \<Rightarrow> nat \<Rightarrow> int \<Rightarrow> bytes" where
  "global_data msg_id flags model = enc_int msg_id @ enc_int ANSWER_MAX_SIZE @ enc_tlv 0x04 [word_of_nat flags] @ enc_int model"

lemma global_data_small: "in31 msg_id \<Longrightarrow> in31 model \<Longrightarrow> small_body (global_data msg_id flags model)"
proof -
  assume a: "in31 msg_id" "in31 model"
  have "length (enc_int msg_id) \<le> 10" "length (enc_int model) \<le> 10" "length (enc_int ANSWER_MAX_SIZE) \<le> 10"
    using enc_int_length in31_bounds a by (auto simp: ANSWER_MAX_SIZE_def)
  then show ?thesis by (simp add: small_body_def global_data_def enc_tlv_def enc_len_def)
qed

text \<open>The head of a message reads back, and the rest of it starts where \<open>enc_message\<close> says.\<close>

lemma v3_head_enc:
  assumes "in31 msg_id" "in31 model" "flags < 4" "flags \<noteq> 2" "small_body (enc_head msg_id flags model @ rest)"
  shows "v3_head (enc_tlv 0x30 (enc_head msg_id flags model @ rest)) = Some (msg_id, flags, model,
    (header_len (enc_head msg_id flags model @ rest) + length (enc_head msg_id flags model), rest))"
proof -
  have h: "enc_head msg_id flags model @ rest = enc_int 3 @ enc_tlv 0x30 (global_data msg_id flags model) @ rest"
    by (simp add: enc_head_def global_data_def)
  have f: "unat (word_of_nat flags :: 8 word) = flags" using assms(3) by (simp add: unat_of_nat take_bit_nat_eq_self)
  have fl: "\<not> (odd (flags div 2) \<and> even flags)" proof -
    have "flags = 0 \<or> flags = 1 \<or> flags = 3" using assms(3,4) by linarith
    then show ?thesis by auto
  qed
  have one: "small_body [word_of_nat flags]" by (simp add: small_body_def)
  have len: "length (enc_head msg_id flags model) = length (enc_int 3) + (header_len (global_data msg_id flags model) + length (global_data msg_id flags model))"
    by (simp add: enc_head_def global_data_def [symmetric] enc_tlv_length)
  show ?thesis
    unfolding v3_head_def
    by (simp add: rd_expect_enc assms(5), simp add: h rd_expect_enc global_data_small assms(1,2) const_reads ensure_def rd_done_def,
        simp add: global_data_def in31_reads assms(1,2) const_reads rd_expect_enc one f fl ensure_def rd_done_def len [unfolded global_data_def] add.assoc)
qed


section \<open>USM messages\<close>

text \<open>The security parameters, and a message with given authentication and privacy parameters around its data.\<close>

definition usm_fields :: "local_engine \<Rightarrow> bytes \<Rightarrow> bytes" where
  "usm_fields l user = enc_tlv 0x04 (le_id l) @ enc_int (le_boots l) @ enc_int (le_time l) @ enc_tlv 0x04 user"

definition usm_content :: "local_engine \<Rightarrow> bytes \<Rightarrow> bytes \<Rightarrow> bytes \<Rightarrow> bytes" where
  "usm_content l user auth salt = usm_fields l user @ enc_tlv 0x04 auth @ enc_tlv 0x04 salt"

definition usm_body :: "int \<Rightarrow> nat \<Rightarrow> local_engine \<Rightarrow> bytes \<Rightarrow> bytes \<Rightarrow> bytes \<Rightarrow> bytes \<Rightarrow> bytes" where
  "usm_body msg_id flags l user auth salt data = enc_head msg_id flags 3 @ enc_tlv 0x04 (enc_tlv 0x30 (usm_content l user auth salt)) @ data"

definition usm_bytes :: "int \<Rightarrow> nat \<Rightarrow> local_engine \<Rightarrow> bytes \<Rightarrow> bytes \<Rightarrow> bytes \<Rightarrow> bytes \<Rightarrow> bytes" where
  "usm_bytes msg_id flags l user auth salt data = enc_tlv 0x30 (usm_body msg_id flags l user auth salt data)"

definition wf_local :: "local_engine \<Rightarrow> bytes \<Rightarrow> bool" where
  "wf_local l user \<longleftrightarrow> 5 \<le> length (le_id l) \<and> length (le_id l) \<le> 32 \<and> in31 (le_boots l) \<and> in31 (le_time l) \<and> length user \<le> 32"

lemma usm_content_small:
  assumes "wf_local l user" "length auth \<le> 48" "length salt \<le> 8"
  shows "length (usm_content l user auth salt) \<le> 210"
proof -
  have "length (enc_int (le_boots l)) \<le> 10" "length (enc_int (le_time l)) \<le> 10"
    using assms(1) enc_int_length in31_bounds by (auto simp: wf_local_def)
  then show ?thesis using assms by (simp add: usm_content_def usm_fields_def enc_tlv_def enc_len_def wf_local_def)
qed

text \<open>What stands for the data of a message reads as given: in the clear, or encrypted.\<close>

definition data_reads :: "nat \<Rightarrow> bytes \<Rightarrow> v3_data \<Rightarrow> bool" where
  "data_reads flags data d \<longleftrightarrow> (case d of
     Encrypted e \<Rightarrow> odd (flags div 2) \<and> small_body e \<and> data = enc_tlv 0x04 e
   | Plain pdu \<Rightarrow> \<not> odd (flags div 2) \<and> (\<exists>inner. small_body inner \<and> data = enc_tlv 0x30 inner \<and> (\<forall>p. scoped_content (p, inner) = Some pdu)))"

lemma data_reads_parse:
  assumes "data_reads flags data d"
  shows "(if odd (flags div 2) then do { (c, r) \<leftarrow> rd_expect 0x04 (p, data); Some (Encrypted (snd c), r) }
     else do { (c, r) \<leftarrow> rd_expect 0x30 (p, data); d \<leftarrow> scoped_content c; Some (Plain d, r) }) = Some (d, (p + length data, []))"
  using assms by (auto simp: data_reads_def enc_tlv_length rd_expect_enc split: v3_data.splits)

definition auth_at :: "int \<Rightarrow> nat \<Rightarrow> local_engine \<Rightarrow> bytes \<Rightarrow> bytes \<Rightarrow> bytes \<Rightarrow> bytes \<Rightarrow> nat" where
  "auth_at msg_id flags l user auth salt data = header_len (usm_body msg_id flags l user auth salt data)
      + length (enc_head msg_id flags 3) + header_len (enc_tlv 0x30 (usm_content l user auth salt)) + header_len (usm_content l user auth salt)
      + length (usm_fields l user) + header_len auth"

text \<open>A USM message reads back with all its fields, and the place of its authentication parameters.\<close>

lemma parse_usm_bytes:
  assumes "in31 msg_id" "flags \<in> {0, 1, 3}" "wf_local l user" "length auth \<le> 48" "length salt \<le> 8" "data_reads flags data d"
    and "small_body (usm_body msg_id flags l user auth salt data)"
  shows "parse_v3 (usm_bytes msg_id flags l user auth salt data) = Some \<lparr>vm_msg_id = msg_id, vm_flags = flags, vm_model = 3,
      vm_engine = le_id l, vm_boots = le_boots l, vm_time = le_time l, vm_user = user,
      vm_auth_at = auth_at msg_id flags l user auth salt data, vm_auth_params = auth, vm_priv_params = salt, vm_data = d\<rparr>"
proof -
  have c: "length (usm_content l user auth salt) \<le> 210" using usm_content_small [OF assms(3-5)] .
  then have small: "small_body (usm_content l user auth salt)" "small_body (enc_tlv 0x30 (usm_content l user auth salt))"
    by (simp_all add: small_body_def enc_tlv_def enc_len_def number_bytes.simps)
  have w: "small_body (le_id l)" "small_body user" "small_body auth" "small_body salt" "in31 (le_boots l)" "in31 (le_time l)"
    "5 \<le> length (le_id l)" "length (le_id l) \<le> 32" "length user \<le> 32"
    using assms(3-5) by (auto simp: wf_local_def small_body_def)
  have m3: "in31 3" by (simp add: in31_def MAX31_def)
  have fl: "flags < 4" "flags \<noteq> 2" using assms(2) by auto
  note head = v3_head_enc [OF assms(1) m3 fl assms(7) [unfolded usm_body_def]]
  have salt: "rd_expect 0x04 (p, enc_tlv 0x04 salt) = Some ((p + header_len salt, salt), (p + (header_len salt + length salt), []))" for p
    by (simp add: rd_expect_enc w(4) add.assoc)
  show ?thesis
    unfolding parse_v3_def usm_bytes_def auth_at_def usm_body_def
    by (simp add: head, simp add: rd_expect_enc small ensure_def rd_done_def data_reads_parse [OF assms(6)] add.assoc del: length_0_conv,
        simp add: usm_content_def usm_fields_def rd_expect_enc salt w in31_reads enc_tlv_length ensure_def rd_done_def add.assoc del: length_0_conv)
qed

text \<open>The same, cut at the authentication parameters: what stands around them depends on their length only.\<close>

definition content_length :: "local_engine \<Rightarrow> bytes \<Rightarrow> nat \<Rightarrow> bytes \<Rightarrow> nat" where
  "content_length l user n salt = length (usm_fields l user) + (Suc (length (enc_len n)) + n + length (enc_tlv 0x04 salt))"

definition sec_length :: "local_engine \<Rightarrow> bytes \<Rightarrow> nat \<Rightarrow> bytes \<Rightarrow> nat" where
  "sec_length l user n salt = Suc (length (enc_len (content_length l user n salt))) + content_length l user n salt"

definition usm_prefix :: "int \<Rightarrow> nat \<Rightarrow> local_engine \<Rightarrow> bytes \<Rightarrow> nat \<Rightarrow> bytes \<Rightarrow> nat \<Rightarrow> bytes" where
  "usm_prefix msg_id flags l user n salt k =
    (0x30 # enc_len (length (enc_head msg_id flags 3) + (Suc (length (enc_len (sec_length l user n salt))) + sec_length l user n salt) + k)) @ enc_head msg_id flags 3
    @ (0x04 # enc_len (sec_length l user n salt)) @ (0x30 # enc_len (content_length l user n salt)) @ usm_fields l user @ 0x04 # enc_len n"

lemma usm_bytes_eq:
  "usm_bytes msg_id flags l user auth salt data = usm_prefix msg_id flags l user (length auth) salt (length data) @ auth @ enc_tlv 0x04 salt @ data"
proof -
  let ?c = "usm_content l user auth salt" and ?n = "length auth"
  have c: "length ?c = content_length l user ?n salt"
    by (simp add: usm_content_def content_length_def enc_tlv_def [of 4 auth])
  have s: "length (enc_tlv 0x30 ?c) = sec_length l user ?n salt" by (simp add: sec_length_def enc_tlv_def c)
  have m: "length (usm_body msg_id flags l user auth salt data)
      = length (enc_head msg_id flags 3) + (Suc (length (enc_len (sec_length l user ?n salt))) + sec_length l user ?n salt) + length data"
    by (simp add: usm_body_def enc_tlv_def [of 4 "enc_tlv 48 _"] s)
  have b: "usm_bytes msg_id flags l user auth salt data = (0x30 # enc_len (length (enc_head msg_id flags 3)
        + (Suc (length (enc_len (sec_length l user ?n salt))) + sec_length l user ?n salt) + length data))
      @ enc_head msg_id flags 3 @ enc_tlv 0x04 (enc_tlv 0x30 ?c) @ data"
    unfolding usm_bytes_def enc_tlv_def [of "48" "usm_body msg_id flags l user auth salt data"] m by (simp add: usm_body_def)
  have sec: "enc_tlv 0x04 (enc_tlv 0x30 ?c) = (0x04 # enc_len (sec_length l user ?n salt)) @ enc_tlv 0x30 ?c"
    by (simp add: enc_tlv_def [of 4 "enc_tlv 48 _"] s)
  have seq: "enc_tlv 0x30 ?c = (0x30 # enc_len (content_length l user ?n salt)) @ ?c"
    by (simp add: enc_tlv_def [of "48" ?c] c)
  have content: "?c = usm_fields l user @ (0x04 # enc_len ?n) @ auth @ enc_tlv 0x04 salt"
    by (simp add: usm_content_def enc_tlv_def [of 4 auth])
  show ?thesis
    unfolding b unfolding sec unfolding seq unfolding content usm_prefix_def by (simp only: append_assoc append_Cons append_Nil)
qed

lemma auth_at_prefix: "auth_at msg_id flags l user auth salt data = length (usm_prefix msg_id flags l user (length auth) salt (length data))"
proof -
  have "length (usm_bytes msg_id flags l user auth salt data)
      = length (usm_prefix msg_id flags l user (length auth) salt (length data)) + (length auth + (length (enc_tlv 0x04 salt) + length data))"
    by (simp add: usm_bytes_eq)
  moreover have "length (usm_bytes msg_id flags l user auth salt data)
      = auth_at msg_id flags l user auth salt data + (length auth + (length (enc_tlv 0x04 salt) + length data))"
    by (simp only: usm_bytes_def usm_body_def auth_at_def enc_tlv_length usm_content_def length_append)
  ultimately show ?thesis by linarith
qed

text \<open>What \<open>enc_usm\<close> writes, with the data it writes: the scoped PDU, or its encryption.\<close>

definition usm_data :: "snmp_prims \<Rightarrow> nat \<Rightarrow> local_engine \<Rightarrow> bytes \<Rightarrow> answer_user \<Rightarrow> bytes \<Rightarrow> bytes" where
  "usm_data H flags l scoped u salt =
    (if odd (flags div 2) then enc_tlv 0x04 (cfb_encrypt H (take 16 (an_priv_key u)) (iv_of (le_boots l) (le_time l) salt) scoped) else scoped)"

lemma enc_usm_bytes:
  fixes l :: local_engine and scoped user :: bytes and msg_id :: int
  assumes "odd flags" "dget MAC_LEN (an_auth u) = Some n" "\<And>k b. n \<le> length (hmac H (an_auth u) k b)" "odd (flags div 2) \<or> salt = []"
  defines "data \<equiv> usm_data H flags l scoped u salt"
  defines "mac \<equiv> take n (hmac H (an_auth u) (an_auth_key u) (usm_bytes msg_id flags l user (replicate n 0) salt data))"
  shows "enc_usm H msg_id flags l user scoped u salt = Some (usm_bytes msg_id flags l user mac salt data)"
proof -
  let ?z = "replicate n (0 :: 8 word)"
  have n: "0 < n" "n < 0x80" using assms(2) by (auto simp: MAC_LEN_def split: if_splits)
  have lm: "length mac = n" using assms(3) by (simp add: mac_def)
  have salt: "(if odd (flags div 2) then salt else []) = salt" using assms(4) by auto
  have hz: "header_len ?z = 2" using n(2) by (simp add: header_len_def enc_len_def)
  define at where "at = length (usm_prefix msg_id flags l user n salt (length data))"
  have at: "1 + length (enc_len (length (usm_body msg_id flags l user ?z salt data))) + length (enc_head msg_id flags 3)
      + 1 + length (enc_len (length (enc_tlv 0x30 (usm_content l user ?z salt)))) + 1 + length (enc_len (length (usm_content l user ?z salt)))
      + length (usm_fields l user) + 2 = at"
    using auth_at_prefix [of msg_id flags l user ?z salt data] hz by (simp add: auth_at_def header_len_def at_def)
  have "enc_usm H msg_id flags l user scoped u salt
      = Some (take at (usm_bytes msg_id flags l user ?z salt data) @ mac @ drop (at + n) (usm_bytes msg_id flags l user ?z salt data))"
    using n(1) assms(1,2)
    unfolding enc_usm_def Let_def salt usm_data_def [symmetric] data_def [symmetric] enc_message_def usm_fields_def [symmetric] usm_content_def [symmetric]
      usm_body_def [symmetric] prod.case usm_bytes_def [symmetric]
    by (simp add: at [simplified, symmetric] mac_def)
  also have "\<dots> = Some (usm_bytes msg_id flags l user mac salt data)" by (simp add: usm_bytes_eq lm at_def)
  finally show ?thesis .
qed

text \<open>Bytes that read as one variable list, wherever they stand and however their length is written.\<close>

definition list_reads :: "bytes \<Rightarrow> varbind list \<Rightarrow> bool" where
  "list_reads vbl vbs \<longleftrightarrow> (\<forall>p. \<exists>q. rd_expect 0x30 (p, vbl) = Some (q, (p + length vbl, [])) \<and> read_varbinds q = Some vbs)"

lemma list_reads_enc: "small_body vs \<Longrightarrow> (\<And>p. read_varbinds (p, vs) = Some vbs) \<Longrightarrow> list_reads (enc_tlv 0x30 vs) vbs"
  by (simp add: list_reads_def rd_expect_enc enc_tlv_length)

lemma scoped_content_enc:
  assumes "small_body engine" "small_body name" "tag < 256" "tag AND 0x1F \<noteq> 0x1F" "- (2 ^ 31) \<le> rid" "rid \<le> MAX31"
    and "small_body (enc_int rid @ enc_int 0 @ enc_int 0 @ vbl)" "list_reads vbl vbs"
  shows "scoped_content (p, enc_tlv 0x04 engine @ enc_tlv 0x04 name @ enc_tlv tag (enc_int rid @ enc_int 0 @ enc_int 0 @ vbl)) = Some (tag, rid, vbs)"
proof -
  note zero = rd_int_encs(1) [of 0, simplified]
  have r: "rd_ranged (- (2 ^ 31)) MAX31 (q, enc_int rid @ rest) = Some (rid, (q + length (enc_int rid), rest))" for q rest
    by (rule rd_ranged_encs) (use assms(5,6) in simp_all)
  define z where "z q = fst (the (rd_expect 0x30 (q, vbl)))" for q
  have l: "rd_expect 0x30 (q, vbl) = Some (z q, (q + length vbl, []))" "read_varbinds (z q) = Some vbs" for q
    using assms(8) by (auto simp: list_reads_def z_def) (metis fst_conv option.sel)+
  show ?thesis
    unfolding scoped_content_def using rd_next_enc [OF assms(3,4,7), where rest = "[]"]
    by (simp add: r [simplified] rd_expect_enc assms(1,2) l rd_done_def ensure_def zero)
qed

text \<open>Whether flags, salt and cipher fit: a message in the clear has no salt; an encrypted one has eight bytes of it, and AES-CFB
  with the same key and start value gives back what it encrypted, byte for byte as long.\<close>

definition cipher_fits :: "snmp_prims \<Rightarrow> nat \<Rightarrow> bytes \<Rightarrow> bool" where
  "cipher_fits H flags salt \<longleftrightarrow> (if odd (flags div 2)
     then length salt = 8 \<and> (\<forall>k iv x. cfb_decrypt H k iv (cfb_encrypt H k iv x) = x \<and> length (cfb_encrypt H k iv x) = length x)
     else salt = [])"

lemma enc_len_length: "k < 2 ^ 32 \<Longrightarrow> length (enc_len k) \<le> 5"
  using number_bytes_length [of k 4] by (force simp: enc_len_def Let_def)

lemma scoped_reads:
  assumes "tag \<in> {0xA2, 0xA6, 0xA7, 0xA8}" "- (2 ^ 31) \<le> rid" "rid \<le> MAX31" "list_reads vbl vbs" "length engine + length name + length vbl \<le> 60000"
  shows "\<exists>inner. enc_scoped engine name tag rid vbl = enc_tlv 0x30 inner \<and> length inner \<le> 60100 \<and> (\<forall>p. scoped_content (p, inner) = Some (tag, rid, vbs))"
proof -
  let ?in = "enc_int rid @ enc_int 0 @ enc_int 0 @ vbl"
  define inner where "inner = enc_tlv 0x04 engine @ enc_tlv 0x04 name @ enc_tlv tag ?in"
  have li: "length (enc_int rid) \<le> 10" "length (enc_int 0) \<le> 10" using enc_int_length assms(2,3) by (auto simp: MAX31_def)
  have small: "small_body engine" "small_body name" "small_body ?in" using li assms(5) by (simp_all add: small_body_def)
  have tag: "tag < 256" "tag AND 0x1F \<noteq> 0x1F" using assms(1) by auto
  have "length inner \<le> 60100"
    using li enc_len_length [of "length ?in"] enc_len_length [of "length engine"] enc_len_length [of "length name"] assms(5)
    by (simp add: inner_def enc_tlv_def)
  moreover have "scoped_content (p, inner) = Some (tag, rid, vbs)" for p
    unfolding inner_def by (rule scoped_content_enc [OF small(1,2) tag assms(2,3) small(3) assms(4)])
  ultimately show ?thesis by (auto simp: enc_scoped_def inner_def)
qed

lemma usm_answer_reads:
  assumes "in31 msg_id" "flags \<in> {1, 3}" "wf_local l user" "dget MAC_LEN (an_auth u) = Some n" "\<And>k b. n \<le> length (hmac H (an_auth u) k b)"
    and "cipher_fits H flags salt" "tag \<in> {0xA2, 0xA6, 0xA7, 0xA8}" "- (2 ^ 31) \<le> rid" "rid \<le> MAX31" "list_reads vbl vbs"
    and "length engine + length name + length vbl \<le> 60000" "uu_auth w = an_auth u"
  shows "\<exists>msg m. enc_usm H msg_id flags l user (enc_scoped engine name tag rid vbl) u salt = Some msg \<and> parse_v3 msg = Some m
    \<and> vm_msg_id m = msg_id \<and> vm_engine m = le_id l \<and> vm_boots m = le_boots l \<and> vm_time m = le_time l \<and> vm_user m = user
    \<and> vm_model m = 3 \<and> vm_auth m \<and> (vm_priv m \<longleftrightarrow> flags = 3) \<and> (\<not> vm_priv m \<longrightarrow> vm_data m = Plain (tag, rid, vbs))
    \<and> open_data H (Some (take 16 (an_priv_key u))) m = Some (tag, rid, vbs) \<and> authentic H w (an_auth_key u) msg m = Some True"
proof -
  have n: "0 < n" "n \<le> 48" using assms(4) by (auto simp: MAC_LEN_def split: if_splits)
  define data where "data = usm_data H flags l (enc_scoped engine name tag rid vbl) u salt"
  define mac where "mac = take n (hmac H (an_auth u) (an_auth_key u) (usm_bytes msg_id flags l user (replicate n 0) salt data))"
  define msg where "msg = usm_bytes msg_id flags l user mac salt data"
  have lm: "length mac = n" using assms(5) by (simp add: mac_def)
  have odds: "odd flags" "odd (flags div 2) \<longleftrightarrow> flags = 3" "flags \<in> {0, 1, 3}" using assms(2) by auto
  have salt: "odd (flags div 2) \<or> salt = []" "length salt \<le> 8" using assms(6) by (auto simp: cipher_fits_def split: if_splits)
  have enc: "enc_usm H msg_id flags l user (enc_scoped engine name tag rid vbl) u salt = Some msg"
    using enc_usm_bytes [OF odds(1) assms(4,5) salt(1)] by (simp add: mac_def data_def msg_def)
  obtain inner where inner: "enc_scoped engine name tag rid vbl = enc_tlv 0x30 inner" "length inner \<le> 60100"
      "\<And>p. scoped_content (p, inner) = Some (tag, rid, vbs)"
    using scoped_reads [OF assms(7-11)] by blast
  define e where "e = cfb_encrypt H (take 16 (an_priv_key u)) (iv_of (le_boots l) (le_time l) salt) (enc_tlv 0x30 inner)"
  define d where "d = (if flags = 3 then Encrypted e else Plain (tag, rid, vbs))"
  have il: "length (enc_tlv 0x30 inner) \<le> 60110" using inner(2) enc_len_length [of "length inner"] by (simp add: enc_tlv_def)
  have el: "length e \<le> 60110" if "flags = 3" using that assms(6) il odds(2) by (simp add: cipher_fits_def e_def)
  have reads: "data_reads flags data d"
  proof (cases "flags = 3")
    case True
    then show ?thesis using el odds(2) by (simp add: data_reads_def d_def data_def usm_data_def inner(1) e_def small_body_def)
  next
    case False
    moreover have "small_body inner" using inner(2) by (simp add: small_body_def)
    ultimately show ?thesis using inner(1,3) odds(2) by (auto simp: data_reads_def d_def data_def usm_data_def)
  qed
  have dl: "length data \<le> 60120"
    using il el enc_len_length [of "length e"] odds(2) by (auto simp: data_def usm_data_def inner(1) e_def [symmetric] enc_tlv_def [of 4])
  have "length (enc_head msg_id flags 3) \<le> 100"
    using global_data_small [OF assms(1), of 3 flags] enc_int_length [of msg_id] enc_int_length [of ANSWER_MAX_SIZE] enc_int_length [of 3] in31_bounds [OF assms(1)]
    by (simp add: enc_head_def enc_tlv_def enc_len_def ANSWER_MAX_SIZE_def)
  moreover have "length (usm_content l user mac salt) \<le> 210" using usm_content_small [OF assms(3) _ salt(2)] lm n(2) by simp
  ultimately have big: "small_body (usm_body msg_id flags l user mac salt data)"
    using enc_len_length [of "length (usm_content l user mac salt)"] enc_len_length [of "length (enc_tlv 0x30 (usm_content l user mac salt))"] dl
    by (simp add: small_body_def usm_body_def enc_tlv_def)
  have m48: "length mac \<le> 48" using lm n(2) by simp
  note p = parse_usm_bytes [OF assms(1) odds(3) assms(3) m48 salt(2) reads big, folded msg_def]
  have "zeroed msg (auth_at msg_id flags l user mac salt data) n = usm_bytes msg_id flags l user (replicate n 0) salt data"
    by (simp add: zeroed_def msg_def auth_at_prefix usm_bytes_eq lm)
  then have auth: "authentic H w (an_auth_key u) msg m = Some True"
    if "vm_auth_params m = mac" "vm_auth_at m = auth_at msg_id flags l user mac salt data" for m
    using that lm by (simp add: authentic_def assms(4,12) mac_def)
  have opened: "open_data H (Some (take 16 (an_priv_key u))) m = Some (tag, rid, vbs)"
    if "vm_data m = d" "vm_priv_params m = salt" "vm_boots m = le_boots l" "vm_time m = le_time l" for m
  proof (cases "flags = 3")
    case True
    then have "parse_scoped_pdu (enc_tlv 0x30 inner) = Some (tag, rid, vbs)"
      using rd_expect_enc(2) [of "0x30" inner 0] inner(2,3) by (simp add: parse_scoped_pdu_def small_body_def rd_done_def ensure_def)
    then show ?thesis
      using True assms(6) odds(2) that by (simp add: open_data_def d_def e_def cipher_fits_def iv_of_def)
  qed (simp add: open_data_def that d_def)
  show ?thesis
    unfolding enc using p auth opened odds by (auto simp: vm_auth_def vm_priv_def d_def)
qed

text \<open>C26: The gateway's authenticated answers are accepted by who holds the keys, in the clear (flags 1) or encrypted (flags 3), and
  whatever context engine, context name and variable list they echo. A message it writes reads back, with the message id, its
  engine and clock and the user; its scoped PDU, decrypted with the user's privacy key, has the tag, request id and variables
  put into it; and the digest in it is the one a receiver computes under the same key over the message with the digest's
  place zeroed, found where the receiver looks for it. The numbers are in SNMP's ranges, the content at most 60000 bytes, the
  hash as long as its digest field, and AES-CFB undoes itself.\<close>

theorem usm_answer_authentic:
  assumes "in31 msg_id" "flags \<in> {1, 3}" "wf_local l user" "dget MAC_LEN (an_auth u) = Some n" "\<And>k b. n \<le> length (hmac H (an_auth u) k b)"
    and "cipher_fits H flags salt" "tag \<in> {0xA2, 0xA6, 0xA7, 0xA8}" "- (2 ^ 31) \<le> rid" "rid \<le> MAX31" "list_reads vbl vbs"
    and "length engine + length name + length vbl \<le> 60000" "uu_auth w = an_auth u"
  shows "\<exists>msg m. enc_usm H msg_id flags l user (enc_scoped engine name tag rid vbl) u salt = Some msg \<and> parse_v3 msg = Some m
    \<and> vm_msg_id m = msg_id \<and> vm_engine m = le_id l \<and> vm_boots m = le_boots l \<and> vm_time m = le_time l \<and> vm_user m = user
    \<and> vm_model m = 3 \<and> vm_auth m \<and> (vm_priv m \<longleftrightarrow> flags = 3) \<and> (\<not> vm_priv m \<longrightarrow> vm_data m = Plain (tag, rid, vbs))
    \<and> open_data H (Some (take 16 (an_priv_key u))) m = Some (tag, rid, vbs) \<and> authentic H w (an_auth_key u) msg m = Some True"
  using assms by (rule usm_answer_reads)

section \<open>Witnesses\<close>

definition demo_snmp :: snmp_prims where
  "demo_snmp = \<lparr>digest = (\<lambda>h b. replicate 64 0), hmac = (\<lambda>h k b. replicate 64 0), cfb_decrypt = (\<lambda>k iv b. map (\<lambda>x. x XOR 0x5A) b),
     cfb_encrypt = (\<lambda>k iv b. map (\<lambda>x. x XOR 0x5A) b)\<rparr>"

definition demo_local :: local_engine where
  "demo_local = \<lparr>le_id = [1, 2, 3, 4, 5], le_boots = 7, le_time = 1000\<rparr>"

definition demo_answerer :: answer_user where
  "demo_answerer = \<lparr>an_auth = ''sha'', an_auth_key = [9], an_priv_key = []\<rparr>"

definition demo_receiver :: usm where
  "demo_receiver = init_usm 0 [9, 9, 9, 9, 9] 1 0 [\<lparr>uu_engine = None, uu_name = ''u'', uu_auth = ''sha'', uu_auth_key = Inl [9], uu_priv_key = None\<rparr>]"

definition demo_trap :: bytes where
  "demo_trap = the (enc_usm demo_snmp 5 1 demo_local [0x75] (enc_scoped [1, 2, 3, 4, 5] [] 0xA7 0 (enc_tlv 0x30 [])) demo_answerer [])"

definition demo_user :: usm_user where
  "demo_user = \<lparr>uu_engine = None, uu_name = ''u'', uu_auth = ''sha'', uu_auth_key = Inl [9], uu_priv_key = None\<rparr>"

lemma demo_premises:
  "in31 5" "wf_local demo_local [0x75]" "dget MAC_LEN (an_auth demo_answerer) = Some 12" "12 \<le> length (hmac demo_snmp (an_auth demo_answerer) k b)"
  "list_reads (enc_tlv 0x30 []) []" "uu_auth demo_user = an_auth demo_answerer" "- (2 ^ 31) \<le> (0 :: int)" "(0 :: int) \<le> MAX31"
  "an_auth_key demo_answerer = [9]" "le_id demo_local = [1, 2, 3, 4, 5]"
  by (simp_all add: in31_def MAX31_def wf_local_def demo_local_def small_body_def read_varbinds.simps MAC_LEN_def demo_answerer_def demo_user_def
      demo_snmp_def list_reads_enc)

text \<open>An encrypted answer to an inform, with another engine's context.\<close>

theorem usm_answer_authentic_witness:
  "\<exists>msg m. enc_usm demo_snmp 5 3 demo_local [0x75] (enc_scoped [6, 6, 6, 6, 6] [0x63] 0xA2 0 (enc_tlv 0x30 [])) demo_answerer [1, 2, 3, 4, 5, 6, 7, 8] = Some msg
    \<and> parse_v3 msg = Some m \<and> vm_msg_id m = 5 \<and> vm_boots m = 7 \<and> open_data demo_snmp (Some []) m = Some (0xA2, 0, [])
    \<and> authentic demo_snmp demo_user [9] msg m = Some True"
proof -
  have fits: "cipher_fits demo_snmp 3 [1, 2, 3, 4, 5, 6, 7, 8]"
    by (simp add: cipher_fits_def demo_snmp_def comp_def bit.conj_xor_distrib xor.assoc)
  have r: "(3 :: nat) \<in> {1, 3}" "(0xA2 :: nat) \<in> {0xA2, 0xA6, 0xA7, 0xA8}"
    "length [6, 6, 6, 6, 6 :: 8 word] + length [0x63 :: 8 word] + length (enc_tlv 0x30 []) \<le> 60000" by (simp_all add: enc_tlv_def enc_len_def)
  show ?thesis
    using usm_answer_authentic [OF demo_premises(1) r(1) demo_premises(2,3,4) fits r(2) demo_premises(7,8,5) r(3) demo_premises(6)]
    by (auto simp: demo_premises(9) demo_local_def demo_answerer_def)
qed

lemma demo_trap_accepted:
  "\<exists>s'. usm_receive demo_snmp demo_receiver demo_trap = Some (s', UsmAccepted [] None [1, 2, 3, 4, 5] ''u'' False)"
proof -
  have fits: "cipher_fits demo_snmp 1 []" by (simp add: cipher_fits_def)
  have r: "(1 :: nat) \<in> {1, 3}" "(0xA7 :: nat) \<in> {0xA2, 0xA6, 0xA7, 0xA8}"
    "length [1, 2, 3, 4, 5 :: 8 word] + length ([] :: bytes) + length (enc_tlv 0x30 []) \<le> 60000" by (simp_all add: enc_tlv_def enc_len_def)
  obtain m where m: "parse_v3 demo_trap = Some m" "vm_engine m = [1, 2, 3, 4, 5]" "vm_boots m = 7" "vm_time m = 1000" "vm_user m = [0x75]"
      "vm_data m = Plain (0xA7, 0, [])" "vm_model m = 3" "vm_auth m" "\<not> vm_priv m" "authentic demo_snmp demo_user [9] demo_trap m = Some True"
    using usm_answer_reads [OF demo_premises(1) r(1) demo_premises(2,3,4) fits r(2) demo_premises(7,8,5) r(3) demo_premises(6)]
    by (auto simp: demo_trap_def demo_premises(9,10) demo_local_def)
  have "utf8_decode [0x75] = Some ''u''" by code_simp
  then have u: "find_user demo_receiver [1, 2, 3, 4, 5] [0x75] = Some demo_user"
    by (simp add: find_user_def demo_receiver_def init_usm_def demo_user_def)
  have "key_of_user demo_snmp demo_user [1, 2, 3, 4, 5] (uu_auth_key demo_user) = Some [9]" "uu_priv_key demo_user = None" "uu_name demo_user = ''u''"
    by (simp_all add: key_of_user_def demo_user_def)
  then have "usm_receive demo_snmp demo_receiver demo_trap = Some (usm_timely demo_snmp demo_receiver demo_user None m)"
    using m u by (simp add: usm_receive_def)
  moreover have "snd (usm_timely demo_snmp demo_receiver demo_user None m) = UsmAccepted [] None [1, 2, 3, 4, 5] ''u'' False"
    using m \<open>uu_name demo_user = ''u''\<close>
    by (simp add: usm_timely_def demo_receiver_def init_usm_def follow_clock_def too_old_def MAX31_def WINDOW_def usm_deliver_def open_data_def Let_def)
  ultimately show ?thesis by (metis prod.collapse)
qed

theorem usm_accepts_authentic_witness:
  "\<exists>m u. parse_v3 demo_trap = Some m \<and> find_user demo_receiver [1, 2, 3, 4, 5] (vm_user m) = Some u \<and> uu_name u = ''u'' \<and> vm_auth m"
proof -
  obtain s' where s: "usm_receive demo_snmp demo_receiver demo_trap = Some (s', UsmAccepted [] None [1, 2, 3, 4, 5] ''u'' False)"
    using demo_trap_accepted by blast
  show ?thesis using usm_accepts_authentic [OF s] by blast
qed

theorem usm_no_replay_witness:
  "\<exists>s1 m. usm_receive demo_snmp demo_receiver demo_trap = Some (s1, UsmAccepted [] None [1, 2, 3, 4, 5] ''u'' False) \<and> parse_v3 demo_trap = Some m
    \<and> (\<forall>t1 vbs rid n p b' m'. usm_receive demo_snmp s1 b' = Some (t1, UsmAccepted vbs rid [1, 2, 3, 4, 5] n p) \<longrightarrow> parse_v3 b' = Some m'
        \<longrightarrow> vm_boots m < vm_boots m' \<or> vm_boots m = vm_boots m' \<and> vm_time m - 150 \<le> vm_time m')"
proof -
  obtain s1 where s: "usm_receive demo_snmp demo_receiver demo_trap = Some (s1, UsmAccepted [] None [1, 2, 3, 4, 5] ''u'' False)"
    using demo_trap_accepted by blast
  obtain m where m: "parse_v3 demo_trap = Some m" using usm_accepted_sound [OF s] by blast
  have ok: "usm_ok demo_receiver" "[1, 2, 3, 4, 5] \<noteq> us_engine demo_receiver" by (simp_all add: usm_ok_def demo_receiver_def init_usm_def)
  show ?thesis using s m usm_no_replay [OF ok(1) s ok(2) m reaches_refl] by blast
qed

end
