(* ===== verification/Tnbinding_Model.thy ===== *)
theory Tnbinding_Model
  imports Utf8 Text Envelope_Model Snmp_Model
begin

text \<open>
  Bindings of telephone numbers to DIDs, \<^verbatim>\<open>dsipvec/tnbinding.py\<close>: the strict DER reader and the TNAuthList of a certificate, certificate
  paths, the verification of a binding (\<open>verify\<close>, steps 1 to 8), what a node stores (\<open>store\<close>), what a reader selects (\<open>select\<close>,
  \<open>authority\<close>), and the gateway's checks (\<open>passport\<close>, \<open>route\<close>, \<open>assert_\<close>). The X.509 parser, ECDSA, the reader of PEM keys and
  the JSON decoder are parameters, held in the record \<open>tn_prims\<close>; a failure of the DER reader (\<open>ValueError\<close>) is \<^term>\<open>None\<close>, a
  \<open>Reject\<close> is \<^term>\<open>Rej\<close>. Names of header parameters are ASCII. JSON
  that nests deeper than the decoder goes, where it raises \<open>RecursionError\<close>, is outside the model.
\<close>

definition LIFETIME_MAX :: int where "LIFETIME_MAX = 604800"
definition IAT_TOLERANCE :: int where "IAT_TOLERANCE = 300"
definition PP_FRESH :: int where "PP_FRESH = 60"
definition N_P256 :: nat where "N_P256 = 0xFFFFFFFF00000000FFFFFFFFFFFFFFFFBCE6FAADA7179E84F3B9CAC2FC632551"

section \<open>Strict DER\<close>

text \<open>One element: its tag, its content, and what follows. Lengths are definite and minimal.\<close>

definition der_take :: "8 word \<Rightarrow> nat \<Rightarrow> bytes \<Rightarrow> (8 word \<times> bytes \<times> bytes) option" where
  "der_take t n r = (if length r < n then None else Some (t, take n r, drop n r))"

definition der_read :: "bytes \<Rightarrow> (8 word \<times> bytes \<times> bytes) option" where
  "der_read b =
    (case b of
       t # l # r \<Rightarrow>
         if unat l < 0x80 then der_take t (unat l) r
         else let k = unat l - 0x80; n = from_bytes (take k r)
              in if k = 0 \<or> k > 4 \<or> length r < k \<or> hd r = 0 then None
                 else if n < 0x80 then None
                 else der_take t n (drop k r)
     | _ \<Rightarrow> None)"

definition der_one :: "bytes \<Rightarrow> 8 word \<Rightarrow> bytes option" where
  "der_one b tag = (case der_read b of None \<Rightarrow> None | Some (t, c, rest) \<Rightarrow> if t \<noteq> tag \<or> rest \<noteq> [] then None else Some c)"

lemma der_take_less: "der_take t n r = Some (t', c, rest) \<Longrightarrow> length rest \<le> length r"
  by (auto simp: der_take_def split: if_splits)

lemma der_read_less: "der_read b = Some (t, c, rest) \<Longrightarrow> length rest < length b"
  by (auto simp: der_read_def Let_def dest!: der_take_less split: list.splits if_splits)

text \<open>The elements of a content, each with its own bytes (\<open>der_raw\<close>).\<close>

function der_parts :: "bytes \<Rightarrow> (8 word \<times> bytes \<times> bytes) list option" where
  "der_parts b =
    (if b = [] then Some []
     else (case der_read b of
             None \<Rightarrow> None
           | Some (t, c, rest) \<Rightarrow> map_option (\<lambda>xs. (t, c, take (length b - length rest) b) # xs) (der_parts rest)))"
  by auto
termination by (relation "measure length") (auto dest: der_read_less)

declare der_parts.simps [simp del]

definition der_seq :: "bytes \<Rightarrow> (8 word \<times> bytes) list option" where
  "der_seq b = map_option (map (\<lambda>(t, c, _). (t, c))) (der_parts b)"

section \<open>TNAuthList\<close>

datatype tn_entry = Spc string | NumberRange string int | One string

definition tel_number :: "8 word \<Rightarrow> bytes \<Rightarrow> string option" where
  "tel_number t c =
    (if t \<noteq> 0x16 \<or> c = [] \<or> length c > 15 \<or> \<not> list_all (\<lambda>x. x \<in> set ''0123456789#*'') (text_of c) then None else Some (text_of c))"

text \<open>The content of an INTEGER is not empty and minimal.\<close>

definition minimal_int :: "bytes \<Rightarrow> bool" where
  "minimal_int b \<longleftrightarrow>
    (case b of [] \<Rightarrow> False | [x] \<Rightarrow> True | x # y # _ \<Rightarrow> \<not> (x = 0 \<and> y < 0x80 \<or> x = 0xFF \<and> y \<ge> 0x80))"

definition tn_entry_of :: "8 word \<times> bytes \<Rightarrow> tn_entry option" where
  "tn_entry_of e =
    (case e of (tag, c) \<Rightarrow>
       if tag = 0xA0 then
         (case der_one c 0x16 of None \<Rightarrow> None | Some s \<Rightarrow> if s = [] \<or> list_ex (\<lambda>x. x \<ge> 0x80) s then None else Some (Spc (text_of s)))
       else if tag = 0xA1 then
         (case Option.bind (der_one c 0x30) der_seq of
            Some [(t1, c1), (t2, c2)] \<Rightarrow>
              if t2 \<noteq> 0x02 then None
              else do { start \<leftarrow> tel_number t1 c1; ensure (minimal_int c2); ensure (signed_int c2 \<ge> 2); Some (NumberRange start (signed_int c2)) }
          | _ \<Rightarrow> None)
       else if tag = 0xA2 then
         (case der_read c of
            None \<Rightarrow> None
          | Some (t, n, rest) \<Rightarrow> if rest \<noteq> [] then None else map_option One (tel_number t n))
       else None)"

definition parse_tnauth :: "bytes \<Rightarrow> tn_entry list option" where
  "parse_tnauth b =
    (case Option.bind (der_one b 0x30) der_seq of
       None \<Rightarrow> None
     | Some es \<Rightarrow> if es = [] then None else those (map tn_entry_of es))"

definition covers :: "tn_entry list \<Rightarrow> string \<Rightarrow> (string, string list) dict \<Rightarrow> bool" where
  "covers entries d spc \<longleftrightarrow>
    list_ex (\<lambda>e. case e of
        One n \<Rightarrow> n = d
      | NumberRange start count \<Rightarrow> is_numeral start \<and> length start = length d
          \<and> 0 \<le> int (parse_nat d) - int (parse_nat start) \<and> int (parse_nat d) - int (parse_nat start) < count
      | Spc s \<Rightarrow> d \<in> set (dget_or spc s [])) entries"

section \<open>Certificates\<close>

text \<open>What the X.509 library reads: an extension by its identifier, and whether it is critical.\<close>

datatype extension = BasicConstraints bool "nat option" | KeyUsage bool bool | TnAuth bytes | OtherExtension

record x509 =
  xc_v3 :: bool
  xc_key :: "(bytes \<times> bool) option"
  xc_not_before :: int
  xc_not_after :: int
  xc_extensions :: "(bool \<times> extension) list"
  xc_signature :: bytes
  xc_tbs :: bytes

record tn_prims =
  read_x509 :: "bytes \<Rightarrow> x509 option"
  ecdsa :: "bytes \<Rightarrow> bytes \<Rightarrow> bytes \<Rightarrow> bool"
  ecdsa_rs :: "bytes \<Rightarrow> nat \<Rightarrow> nat \<Rightarrow> bytes \<Rightarrow> bool"
  pem_public :: "string \<Rightarrow> bytes option"
  json_pairs :: "bytes \<Rightarrow> json option"

record cert =
  ct_der :: bytes
  ct_issuer :: bytes
  ct_subject :: bytes
  ct_alg_ok :: bool
  ct_key :: "bytes option"
  ct_nb :: int
  ct_na :: int
  ct_ca :: "(bool \<times> nat option) option"
  ct_usage :: "(bool \<times> bool) option"
  ct_tnauth :: "tn_entry list option"
  ct_unknown_critical :: bool
  ct_signature :: bytes
  ct_tbs :: bytes

text \<open>\<open>ct_key\<close> is the key of a certificate whose key is of the curve P-256.\<close>

definition ECDSA_WITH_SHA256 :: bytes where
  "ECDSA_WITH_SHA256 = [0x30, 0x0A, 0x06, 0x08, 0x2A, 0x86, 0x48, 0xCE, 0x3D, 0x04, 0x03, 0x02]"

fun read_extensions :: "cert \<Rightarrow> (bool \<times> extension) list \<Rightarrow> cert option" where
  "read_extensions c [] = Some c"
| "read_extensions c ((critical, e) # es) =
    (case e of
       BasicConstraints ca len \<Rightarrow> read_extensions (c\<lparr>ct_ca := Some (ca, len)\<rparr>) es
     | KeyUsage sign digital \<Rightarrow> read_extensions (c\<lparr>ct_usage := Some (sign, digital)\<rparr>) es
     | TnAuth b \<Rightarrow> (case parse_tnauth b of None \<Rightarrow> None | Some l \<Rightarrow> read_extensions (c\<lparr>ct_tnauth := Some l\<rparr>) es)
     | OtherExtension \<Rightarrow> read_extensions (c\<lparr>ct_unknown_critical := ct_unknown_critical c \<or> critical\<rparr>) es)"

definition parse_cert :: "tn_prims \<Rightarrow> bytes \<Rightarrow> cert option" where
  "parse_cert P der =
    (case Option.bind (der_one der 0x30) der_parts of
       Some [(t0, c0, _), (_, _, alg), _] \<Rightarrow>
         if t0 \<noteq> 0x30 then None
         else
           (case der_parts c0 of
              None \<Rightarrow> None
            | Some tbs \<Rightarrow>
                if length tbs < 7 \<or> fst (tbs ! 0) \<noteq> 0xA0 then None
                else if snd (snd (tbs ! 2)) \<noteq> alg then None
                else
                  (case read_x509 P der of
                     None \<Rightarrow> None
                   | Some x \<Rightarrow>
                       if \<not> xc_v3 x then None
                       else read_extensions
                         \<lparr>ct_der = der, ct_issuer = snd (snd (tbs ! 3)), ct_subject = snd (snd (tbs ! 5)), ct_alg_ok = (alg = ECDSA_WITH_SHA256),
                          ct_key = (case xc_key x of Some (k, True) \<Rightarrow> Some k | _ \<Rightarrow> None), ct_nb = xc_not_before x, ct_na = xc_not_after x,
                          ct_ca = None, ct_usage = None, ct_tnauth = None, ct_unknown_critical = False,
                          ct_signature = xc_signature x, ct_tbs = xc_tbs x\<rparr> (xc_extensions x)))
     | _ \<Rightarrow> None)"

definition signed_by :: "tn_prims \<Rightarrow> cert \<Rightarrow> cert \<Rightarrow> bool" where
  "signed_by P c issuer \<longleftrightarrow> (case ct_key issuer of None \<Rightarrow> False | Some k \<Rightarrow> ecdsa P k (ct_signature c) (ct_tbs c))"

section \<open>Certificate paths\<close>

definition padded_b64 :: "string \<Rightarrow> bytes option" where
  "padded_b64 body =
    (let core = takeWhile (\<lambda>c. c \<noteq> CHR ''='') body; pad = dropWhile (\<lambda>c. c \<noteq> CHR ''='') body
     in if length body mod 4 \<noteq> 0 \<or> pad \<notin> {'''', ''='', ''==''} \<or> \<not> list_all (\<lambda>c. is_alnum c \<or> c \<in> set ''+/'') core then None
        else Some (b64_bytes (map (\<lambda>c. if c = CHR ''+'' then CHR ''-'' else if c = CHR ''/'' then CHR ''_'' else c) core)))"

definition drop_cr :: "string \<Rightarrow> string" where
  "drop_cr s = (if s \<noteq> [] \<and> last s = char_of (13 :: nat) then butlast s else s)"

text \<open>The texts between the lines that begin and end a certificate; \<^term>\<open>None\<close> when the last one is not ended.\<close>

fun pem_blocks :: "string option \<Rightarrow> string list \<Rightarrow> string list option" where
  "pem_blocks None [] = Some []"
| "pem_blocks (Some b) [] = None"
| "pem_blocks None (l # ls) = pem_blocks (if l = ''-----BEGIN CERTIFICATE-----'' then Some [] else None) ls"
| "pem_blocks (Some b) (l # ls) =
    (if l = ''-----END CERTIFICATE-----'' then map_option (\<lambda>bs. b # bs) (pem_blocks None ls)
     else pem_blocks (Some (b @ filter (\<lambda>c. c \<notin> {CHR '' '', char_of (9 :: nat), char_of (13 :: nat), char_of (10 :: nat)}) l)) ls)"

definition load_chain :: "tn_prims \<Rightarrow> string \<Rightarrow> cert list option" where
  "load_chain P text =
    (case pem_blocks None (map drop_cr (split (char_of (10 :: nat)) text)) of
       None \<Rightarrow> None
     | Some bs \<Rightarrow> if bs = [] then None else those (map (\<lambda>b. Option.bind (padded_b64 b) (parse_cert P)) bs))"

text \<open>The chain up to its first anchor; or the whole chain and each anchor that issued its end.\<close>

fun upto_anchor :: "bytes set \<Rightarrow> cert list \<Rightarrow> cert list option" where
  "upto_anchor ders [] = None"
| "upto_anchor ders (c # cs) = (if ct_der c \<in> ders then Some [c] else map_option (\<lambda>p. c # p) (upto_anchor ders cs))"

definition build_paths :: "tn_prims \<Rightarrow> cert list \<Rightarrow> cert list \<Rightarrow> cert list list" where
  "build_paths P chain anchors =
    (case upto_anchor (ct_der ` set anchors) chain of
       Some path \<Rightarrow> [path]
     | None \<Rightarrow> map (\<lambda>a. chain @ [a]) (filter (\<lambda>a. ct_subject a = ct_issuer (last chain) \<and> signed_by P (last chain) a) anchors))"

fun links_ok :: "tn_prims \<Rightarrow> cert list \<Rightarrow> bool" where
  "links_ok P (c # d # cs) \<longleftrightarrow> ct_issuer c = ct_subject d \<and> signed_by P c d \<and> links_ok P (d # cs)"
| "links_ok P _ = True"

definition cert_ok :: "int \<Rightarrow> nat \<Rightarrow> cert \<Rightarrow> bool" where
  "cert_ok now p c \<longleftrightarrow> ct_alg_ok c \<and> ct_key c \<noteq> None \<and> ct_nb c \<le> now \<and> now \<le> ct_na c \<and> \<not> ct_unknown_critical c
     \<and> (1 \<le> p \<longrightarrow>
          (case ct_ca c of None \<Rightarrow> False | Some (ca, len) \<Rightarrow> ca \<and> (case len of None \<Rightarrow> True | Some n \<Rightarrow> p - 1 \<le> n))
          \<and> (case ct_usage c of None \<Rightarrow> True | Some (sign, _) \<Rightarrow> sign))"

definition check_path :: "tn_prims \<Rightarrow> cert list \<Rightarrow> int \<Rightarrow> bool" where
  "check_path P path now \<longleftrightarrow> links_ok P path \<and> list_all (\<lambda>(p, c). cert_ok now p c) (enumerate 0 path)
     \<and> (case ct_usage (hd path) of None \<Rightarrow> True | Some (_, digital) \<Rightarrow> digital)"

definition attested_by :: "cert \<Rightarrow> string option option" where
  "attested_by c =
    do { rdns \<leftarrow> Option.bind (der_one (ct_subject c) 0x30) der_seq;
         atvs \<leftarrow> those (map (\<lambda>(_, rdn). der_seq rdn) rdns);
         pairs \<leftarrow> those (map (\<lambda>(_, atv). case der_seq atv of Some (o1 # v1 # _) \<Rightarrow> Some (snd o1, v1) | _ \<Rightarrow> None) (concat atvs));
         Some (let found = (\<lambda>oid. find (\<lambda>x. x \<noteq> None) (map (\<lambda>(oc, vt, vc). if oc = oid \<and> vt \<in> {0x0C, 0x13} then utf8_decode vc else None) pairs))
               in case found [0x55, 0x04, 0x0A] of Some n \<Rightarrow> n | None \<Rightarrow> (case found [0x55, 0x04, 0x03] of Some n \<Rightarrow> n | None \<Rightarrow> None)) }"

section \<open>I-JSON\<close>

text \<open>\<open>ijson\<close> of \<^verbatim>\<open>dsipvec/webvh.py\<close>, on the value that the decoder reads with every pair of an object kept, and \<open>json.loads\<close>, where
  the last pair of a name stands in the place of the first.\<close>

definition MAX_SAFE :: int where "MAX_SAFE = 2 ^ 53 - 1"

fun ijson_ok :: "json \<Rightarrow> bool" where
  "ijson_ok (JDict d) \<longleftrightarrow> distinct (map fst d) \<and> list_all (\<lambda>kv. ijson_ok (snd kv)) d"
| "ijson_ok (JList xs) \<longleftrightarrow> list_all ijson_ok xs"
| "ijson_ok (JInt n) \<longleftrightarrow> - MAX_SAFE \<le> n \<and> n \<le> MAX_SAFE"
| "ijson_ok (JFloat z) \<longleftrightarrow> False"
| "ijson_ok _ \<longleftrightarrow> True"

fun loads_plain :: "json \<Rightarrow> json" where
  "loads_plain (JDict d) = JDict (foldl (\<lambda>acc kv. dset (fst kv) (snd kv) acc) [] (map (\<lambda>kv. (fst kv, loads_plain (snd kv))) d))"
| "loads_plain (JList xs) = JList (map loads_plain xs)"
| "loads_plain j = j"

definition malformed :: "'a res" where "malformed = Rej ''malformed'' None"
definition untrusted :: "'a res" where "untrusted = Rej ''untrusted-certificate'' None"

definition b64u :: "string \<Rightarrow> bytes option" where
  "b64u s = (if b64_text s then Some (b64_bytes s) else None)"

definition json_object :: "tn_prims \<Rightarrow> bytes \<Rightarrow> json option" where
  "json_object P b = (case json_pairs P b of None \<Rightarrow> None | Some j \<Rightarrow> if ijson_ok j \<and> is_dict j then Some j else None)"

section \<open>A binding\<close>

definition tn_ok :: "string \<Rightarrow> bool" where
  "tn_ok s \<longleftrightarrow> (case s of p # d # ds \<Rightarrow> p = CHR ''+'' \<and> is_digit d \<and> d \<noteq> CHR ''0'' \<and> 1 \<le> length ds \<and> length ds \<le> 14 \<and> list_all is_digit ds | _ \<Rightarrow> False)"

definition starts :: "json option \<Rightarrow> string \<Rightarrow> bool" where
  "starts j p \<longleftrightarrow> (case jstr j of Some s \<Rightarrow> startswith s p | None \<Rightarrow> False)"

record tn_payload =
  tp_tn :: string
  tp_did :: string
  tp_iat :: int
  tp_exp :: int
  tp_status :: "string option"

definition tn_header_ok :: "json \<Rightarrow> bool" where
  "tn_header_ok h \<longleftrightarrow> jget ''alg'' h = Some (JStr ''ES256'') \<and> jget ''typ'' h = Some (JStr ''dsip-tn-binding+jwt'')
     \<and> starts (jget ''x5u'' h) ''https://'' \<and> jget ''crit'' h = None"

definition tn_payload_of :: "json \<Rightarrow> tn_payload option" where
  "tn_payload_of p =
    do { tn \<leftarrow> jstr (jget ''tn'' p); did \<leftarrow> jstr (jget ''did'' p); iat \<leftarrow> jint (jget ''iat'' p); exp \<leftarrow> jint (jget ''exp'' p);
         jti \<leftarrow> jstr (jget ''jti'' p);
         ensure (tn_ok tn \<and> startswith did ''did:'' \<and> iat \<ge> 0 \<and> exp > iat \<and> ulid_valid jti
           \<and> (jget ''status'' p = None \<or> starts (jget ''status'' p) ''https://''));
         Some \<lparr>tp_tn = tn, tp_did = did, tp_iat = iat, tp_exp = exp, tp_status = jstr (jget ''status'' p)\<rparr> }"

text \<open>The three segments of a token, decoded, and the bytes that are signed.\<close>

definition segments :: "tn_prims \<Rightarrow> string \<Rightarrow> (json \<times> json \<times> bytes \<times> bytes) option" where
  "segments P t =
    (case split CHR ''.'' t of
       [a, b, c] \<Rightarrow>
         if c = [] then None
         else do { ra \<leftarrow> b64u a; rb \<leftarrow> b64u b; rc \<leftarrow> b64u c; h \<leftarrow> json_object P ra; p \<leftarrow> json_object P rb;
                   Some (h, p, bytes_of (a @ ''.'' @ b), rc) }
     | _ \<Rightarrow> None)"

definition parse_binding :: "tn_prims \<Rightarrow> json \<Rightarrow> (string \<times> tn_payload \<times> bytes \<times> bytes) res" where
  "parse_binding P binding =
    (case Option.bind (jstr (Some binding)) (segments P) of
       None \<Rightarrow> malformed
     | Some (h, p, input, sig) \<Rightarrow>
         if \<not> tn_header_ok h then malformed
         else (case tn_payload_of p of None \<Rightarrow> malformed | Some q \<Rightarrow> Ok (the (jstr (jget ''x5u'' h)), q, input, sig)))"

record tn_context =
  tc_certificates :: "(string, string) dict"
  tc_anchors :: "string list"
  tc_spc :: "(string, string list) dict"
  tc_require_status :: bool
  tc_status :: "(string, string) dict"
  tc_gateway :: "json option"

definition cert_path :: "tn_prims \<Rightarrow> tn_context \<Rightarrow> string \<Rightarrow> int \<Rightarrow> cert list res" where
  "cert_path P ctx x5u now =
    (case Option.bind (dget (tc_certificates ctx) x5u) (load_chain P) of
       None \<Rightarrow> untrusted
     | Some chain \<Rightarrow>
         let anchors = List.map_filter (\<lambda>a. Option.bind (padded_b64 a) (parse_cert P)) (tc_anchors ctx)
         in (case find (\<lambda>path. check_path P path now) (build_paths P chain anchors) of None \<Rightarrow> untrusted | Some path \<Rightarrow> Ok path))"

definition check_signature :: "tn_prims \<Rightarrow> cert list \<Rightarrow> bytes \<Rightarrow> bytes \<Rightarrow> unit res" where
  "check_signature P path sig input =
    (let r = from_bytes (take 32 sig); s = from_bytes (drop 32 sig)
     in if length sig \<noteq> 64 \<or> \<not> (0 < r \<and> r < N_P256 \<and> 0 < s \<and> s < N_P256) then Rej ''signature'' None
        else if (case ct_key (hd path) of None \<Rightarrow> False | Some k \<Rightarrow> ecdsa_rs P k r s input) then Ok () else Rej ''signature'' None)"

definition check_coverage :: "tn_context \<Rightarrow> cert list \<Rightarrow> string \<Rightarrow> unit res" where
  "check_coverage ctx path d =
    (if ct_tnauth (hd path) = None \<or> list_ex (\<lambda>c. case ct_tnauth c of None \<Rightarrow> False | Some l \<Rightarrow> \<not> covers l d (tc_spc ctx)) path
     then Rej ''not-authorized-for-tn'' None else Ok ())"

definition check_lifetime :: "tn_payload \<Rightarrow> int \<Rightarrow> unit res" where
  "check_lifetime p now =
    (if tp_exp p - tp_iat p > LIFETIME_MAX then Rej ''lifetime-too-long'' None
     else if tp_iat p > now + IAT_TOLERANCE then Rej ''not-yet-valid'' None
     else if now \<ge> tp_exp p then Rej ''expired'' None
     else Ok ())"

definition steps_1_to_5 :: "tn_prims \<Rightarrow> tn_context \<Rightarrow> json \<Rightarrow> int \<Rightarrow> (tn_payload \<times> cert list) res" where
  "steps_1_to_5 P ctx binding now =
    rbind (parse_binding P binding) (\<lambda>(x5u, p, input, sig).
    rbind (cert_path P ctx x5u now) (\<lambda>path.
    rbind (check_signature P path sig input) (\<lambda>_.
    rbind (check_coverage ctx path (tl (tp_tn p))) (\<lambda>_.
    rbind (check_lifetime p now) (\<lambda>_. Ok (p, path))))))"

record tn_verified =
  tv_tn :: string
  tv_did :: string
  tv_expires :: int
  tv_by :: "string option"

definition claimed_back :: "json option \<Rightarrow> string \<Rightarrow> string \<Rightarrow> bool" where
  "claimed_back doc did tn \<longleftrightarrow>
    (case doc of None \<Rightarrow> False
     | Some d \<Rightarrow> jget ''id'' d = Some (JStr did)
         \<and> (case jlist (jget ''alsoKnownAs'' d) of None \<Rightarrow> False | Some as \<Rightarrow> JStr (''tel:'' @ tn) \<in> set as))"

definition check_status :: "tn_context \<Rightarrow> tn_payload \<Rightarrow> unit res" where
  "check_status ctx p =
    (if \<not> tc_require_status ctx then Ok ()
     else (case Option.bind (tp_status p) (dget (tc_status ctx)) of
             Some a \<Rightarrow> if a = ''revoked'' then Rej ''revoked'' None else if a \<noteq> ''good'' then Rej ''status-unavailable'' None else Ok ()
           | None \<Rightarrow> Rej ''status-unavailable'' None))"

definition steps_6_to_8 :: "tn_context \<Rightarrow> string \<Rightarrow> json option \<Rightarrow> tn_payload \<Rightarrow> cert list \<Rightarrow> tn_verified res" where
  "steps_6_to_8 ctx did doc p path =
    (if tp_did p \<noteq> did then Rej ''did-mismatch'' None
     else if \<not> claimed_back doc did (tp_tn p) then Rej ''not-claimed-by-did'' None
     else rbind (check_status ctx p) (\<lambda>_.
       (case attested_by (hd path) of
          None \<Rightarrow> Raises
        | Some by \<Rightarrow> Ok \<lparr>tv_tn = tp_tn p, tv_did = tp_did p, tv_expires = tp_exp p, tv_by = by\<rparr>)))"

definition tn_verify :: "tn_prims \<Rightarrow> tn_context \<Rightarrow> json \<Rightarrow> string \<Rightarrow> json option \<Rightarrow> int \<Rightarrow> tn_verified res" where
  "tn_verify P ctx binding did doc now =
    rbind (steps_1_to_5 P ctx binding now) (\<lambda>(p, path). steps_6_to_8 ctx did doc p path)"

section \<open>Claims and contacts\<close>

datatype claim_out = ClaimIgnored | ClaimDropped string "string option" | ClaimAttested string int int

text \<open>The middle dot, in UTF-8, with its spaces.\<close>

definition SPACED_DOT :: string where "SPACED_DOT = [CHR '' '', char_of (0xC2 :: nat), char_of (0xB7 :: nat), CHR '' '']"

definition by_text :: "string option \<Rightarrow> string" where
  "by_text by = (case by of Some a \<Rightarrow> '' by '' @ a | None \<Rightarrow> [])"

definition tn_claim :: "tn_prims \<Rightarrow> tn_context \<Rightarrow> json \<Rightarrow> string \<Rightarrow> json option \<Rightarrow> int \<Rightarrow> claim_out res" where
  "tn_claim P ctx c identity doc now =
    (if jget ''type'' c \<noteq> Some (JStr ''tel'') \<or> jget ''binding'' c = None \<or> jstr (jget ''verifier'' c) \<noteq> None then Ok ClaimIgnored
     else
       let number = jstr (jget ''number'' c);
           line = (case number of Some n \<Rightarrow> if tn_ok n then Some (n @ '' (unverified)'') else None | None \<Rightarrow> None);
           b = the (jget ''binding'' c)
       in if jstr (Some b) = None then Ok (ClaimDropped ''malformed'' line)
          else (case tn_verify P ctx b identity doc now of
                  Raises \<Rightarrow> Raises
                | Rej r _ \<Rightarrow> Ok (ClaimDropped r line)
                | Ok v \<Rightarrow>
                    if number \<noteq> Some (tv_tn v) then Ok (ClaimDropped ''number-mismatch'' line)
                    else rbind (parse_binding P b) (\<lambda>(_, p, _).
                      Ok (ClaimAttested (tv_tn v @ SPACED_DOT @ ''number attested'' @ by_text (tv_by v) @ '' for this identity'') (tp_iat p) (tv_expires v)))))"

text \<open>The date of a time in seconds, as \<open>datetime\<close> prints it in UTC: years up to 9999.\<close>

definition two_figures :: "nat \<Rightarrow> string" where
  "two_figures n = (if n < 10 then ''0'' @ show_nat n else show_nat n)"

definition date_text :: "nat \<Rightarrow> string option" where
  "date_text seconds =
    (let z = seconds div 86400 + 719468; era = z div 146097; doe = z mod 146097;
         yoe = (doe - doe div 1460 + doe div 36524 - doe div 146096) div 365;
         doy = doe - (365 * yoe + yoe div 4 - yoe div 100); mp = (5 * doy + 2) div 153;
         day = doy - (153 * mp + 2) div 5 + 1; month = (if mp < 10 then mp + 3 else mp - 9);
         year = yoe + era * 400 + (if month \<le> 2 then 1 else 0)
     in if year > 9999 then None else Some (show_nat year @ ''-'' @ two_figures month @ ''-'' @ two_figures day))"

record tn_contact =
  co_numbers :: "string list"
  co_did :: string
  co_name :: string

record attested =
  at_tn :: string
  at_did :: string
  at_issued :: nat
  at_by :: "string option"

definition contact_warning :: "tn_contact list \<Rightarrow> attested \<Rightarrow> string option option" where
  "contact_warning contacts a =
    (case filter (\<lambda>c. at_tn a \<in> set (co_numbers c)) contacts of
       [] \<Rightarrow> Some None
     | c # cs \<Rightarrow>
         if list_ex (\<lambda>c. co_did c = at_did a) (c # cs) then Some None
         else (case date_text (at_issued a) of
                 None \<Rightarrow> None
               | Some date \<Rightarrow> Some (Some (at_tn a @ '' now belongs to a different identity (number attested'' @ by_text (at_by a) @ '' since '' @ date
                   @ ''). Your contact '' @ [char_of (34 :: nat)] @ co_name c @ [char_of (34 :: nat)] @ '' is '' @ co_did c @ ''.''))))"

end
