(* ===== verification/Tnbinding.thy ===== *)
theory Tnbinding
  imports Tnbinding_Use
begin

text \<open>Verified numbers: what a verified binding and a verified PASSporT guarantee, what a node stores, and that a reader's choice does
  not depend on the order of the answers.\<close>

section \<open>Paths and signatures\<close>

text \<open>A path to an anchor that is in force: every certificate but the first may issue, and each is signed by the next.\<close>

definition trusted_path :: "tn_prims \<Rightarrow> tn_context \<Rightarrow> cert list \<Rightarrow> int \<Rightarrow> bool" where
  "trusted_path P ctx path now \<longleftrightarrow> path \<noteq> [] \<and> links_ok P path
     \<and> (\<exists>a\<in>set (tc_anchors ctx). \<exists>c. Option.bind (padded_b64 a) (parse_cert P) = Some c \<and> ct_der c = ct_der (last path))
     \<and> (\<forall>c\<in>set path. ct_alg_ok c \<and> ct_key c \<noteq> None \<and> ct_nb c \<le> now \<and> now \<le> ct_na c \<and> \<not> ct_unknown_critical c)
     \<and> (\<forall>c\<in>set (tl path). \<exists>len. ct_ca c = Some (True, len))"

text \<open>The key of the first certificate signs, and every list of numbers on the path covers the number.\<close>

definition signs :: "tn_prims \<Rightarrow> cert list \<Rightarrow> bytes \<Rightarrow> bytes \<Rightarrow> bool" where
  "signs P path sig input \<longleftrightarrow> length sig = 64
     \<and> (\<exists>k. ct_key (hd path) = Some k \<and> ecdsa_rs P k (from_bytes (take 32 sig)) (from_bytes (drop 32 sig)) input)"

definition covered :: "tn_context \<Rightarrow> cert list \<Rightarrow> string \<Rightarrow> bool" where
  "covered ctx path d \<longleftrightarrow> ct_tnauth (hd path) \<noteq> None \<and> (\<forall>c\<in>set path. \<forall>l. ct_tnauth c = Some l \<longrightarrow> covers l d (tc_spc ctx))"

lemma rbind_OkE: "rbind x f = Ok y \<longleftrightarrow> (\<exists>a. x = Ok a \<and> f a = Ok y)"
  by (cases x) auto

lemma those_nonempty: "those xs = Some ys \<Longrightarrow> length ys = length xs"
  by (induction xs arbitrary: ys) (auto split: option.splits)

lemma load_chain_nonempty: "load_chain P t = Some chain \<Longrightarrow> chain \<noteq> []"
  by (auto simp: load_chain_def dest!: those_nonempty split: option.splits if_splits)

lemma upto_anchor_last: "upto_anchor D cs = Some p \<Longrightarrow> p \<noteq> [] \<and> ct_der (last p) \<in> D"
  by (induction cs arbitrary: p) (auto split: if_splits)

lemma build_paths_anchor:
  assumes "path \<in> set (build_paths P chain anchors)"
  shows "path \<noteq> [] \<and> ct_der (last path) \<in> ct_der ` set anchors"
proof (cases "upto_anchor (ct_der ` set anchors) chain")
  case None
  then show ?thesis using assms by (auto simp: build_paths_def)
next
  case (Some p)
  then have "path = p" using assms by (simp add: build_paths_def)
  then show ?thesis using upto_anchor_last [OF Some] by simp
qed

lemma enumerate_tl: "list_all (\<lambda>(p, c). Q p c) (enumerate 0 (x # xs)) \<Longrightarrow> (\<forall>c\<in>set xs. \<exists>p\<ge>1. Q p c)"
proof -
  assume a: "list_all (\<lambda>(p, c). Q p c) (enumerate 0 (x # xs))"
  show ?thesis
  proof
    fix c assume "c \<in> set xs"
    then obtain i where "i < length xs" "c = xs ! i" by (auto simp: in_set_conv_nth)
    then have "(Suc i, c) \<in> set (enumerate 0 (x # xs))" by (auto simp: in_set_enumerate_eq)
    then show "\<exists>p\<ge>1. Q p c" using a by (auto simp: list_all_iff intro!: exI [of _ "Suc i"])
  qed
qed

lemma enumerate_all: "list_all (\<lambda>(p, c). Q p c) (enumerate 0 xs) \<Longrightarrow> c \<in> set xs \<Longrightarrow> \<exists>p. Q p c"
proof -
  assume a: "list_all (\<lambda>(p, c). Q p c) (enumerate 0 xs)" "c \<in> set xs"
  then obtain i where "i < length xs" "c = xs ! i" by (auto simp: in_set_conv_nth)
  then have "(i, c) \<in> set (enumerate 0 xs)" by (auto simp: in_set_enumerate_eq)
  then show ?thesis using a(1) by (auto simp: list_all_iff)
qed

lemma check_path_valid:
  assumes "check_path P path now" "path \<noteq> []"
  shows "links_ok P path" "\<forall>c\<in>set path. ct_alg_ok c \<and> ct_key c \<noteq> None \<and> ct_nb c \<le> now \<and> now \<le> ct_na c \<and> \<not> ct_unknown_critical c"
    "\<forall>c\<in>set (tl path). \<exists>len. ct_ca c = Some (True, len)"
proof -
  have all: "list_all (\<lambda>(p, c). cert_ok now p c) (enumerate 0 path)" and l: "links_ok P path" using assms(1) by (simp_all add: check_path_def)
  show "links_ok P path" by (rule l)
  show "\<forall>c\<in>set path. ct_alg_ok c \<and> ct_key c \<noteq> None \<and> ct_nb c \<le> now \<and> now \<le> ct_na c \<and> \<not> ct_unknown_critical c"
    using enumerate_all [OF all] by (fastforce simp: cert_ok_def)
  obtain x xs where p: "path = x # xs" using assms(2) by (cases path) auto
  show "\<forall>c\<in>set (tl path). \<exists>len. ct_ca c = Some (True, len)"
  proof
    fix c assume "c \<in> set (tl path)"
    then obtain i where "i \<ge> 1" "cert_ok now i c" using enumerate_tl [OF all [unfolded p]] by (auto simp: p)
    then show "\<exists>len. ct_ca c = Some (True, len)" by (auto simp: cert_ok_def split: option.splits prod.splits)
  qed
qed

lemma find_Some_set: "find Q xs = Some x \<Longrightarrow> x \<in> set xs \<and> Q x"
  by (auto simp: find_Some_iff)

lemma cert_path_trusted:
  assumes "cert_path P ctx x5u now = Ok path"
  shows "trusted_path P ctx path now"
proof -
  define anchors where "anchors = List.map_filter (\<lambda>a. Option.bind (padded_b64 a) (parse_cert P)) (tc_anchors ctx)"
  obtain chain where c: "Option.bind (dget (tc_certificates ctx) x5u) (load_chain P) = Some chain"
    using assms by (cases "Option.bind (dget (tc_certificates ctx) x5u) (load_chain P)") (simp_all add: cert_path_def untrusted_def)
  have "find (\<lambda>path. check_path P path now) (build_paths P chain anchors) = Some path"
    using assms unfolding cert_path_def c option.case Let_def anchors_def [symmetric] by (auto simp: untrusted_def split: option.splits)
  then have f: "path \<in> set (build_paths P chain anchors)" "check_path P path now" by (auto dest: find_Some_set)
  note b = build_paths_anchor [OF f(1)]
  have "ct_der (last path) \<in> ct_der ` set anchors" using b by simp
  then obtain a c where "a \<in> set (tc_anchors ctx)" "Option.bind (padded_b64 a) (parse_cert P) = Some c" "ct_der c = ct_der (last path)"
    by (auto simp: anchors_def List.map_filter_def)
  then show ?thesis using b check_path_valid [OF f(2)] unfolding trusted_path_def by blast
qed

lemma check_signature_signs: "check_signature P path sig input = Ok u \<Longrightarrow> signs P path sig input"
  by (auto simp: check_signature_def signs_def Let_def split: if_splits option.splits)

lemma check_coverage_covered: "check_coverage ctx path d = Ok u \<Longrightarrow> covered ctx path d"
  by (auto simp: check_coverage_def covered_def list_ex_iff split: if_splits option.splits)

lemma steps_1_to_5_sound:
  assumes "steps_1_to_5 P ctx b now = Ok (p, path)"
  obtains x5u input sig where "parse_binding P b = Ok (x5u, p, input, sig)" "trusted_path P ctx path now" "signs P path sig input"
    "covered ctx path (tl (tp_tn p))" "tp_exp p - tp_iat p \<le> 604800" "tp_iat p \<le> now + 300" "now < tp_exp p"
proof -
  obtain x5u input sig where st: "parse_binding P b = Ok (x5u, p, input, sig)" "cert_path P ctx x5u now = Ok path"
      "check_signature P path sig input = Ok ()" "check_coverage ctx path (tl (tp_tn p)) = Ok ()" "check_lifetime p now = Ok ()"
    using assms by (auto simp: steps_1_to_5_def rbind_OkE)
  have "tp_exp p - tp_iat p \<le> 604800" "tp_iat p \<le> now + 300" "now < tp_exp p"
    using st(5) by (auto simp: check_lifetime_def LIFETIME_MAX_def IAT_TOLERANCE_def split: if_splits)
  then show thesis using that st(1) cert_path_trusted [OF st(2)] check_signature_signs [OF st(3)] check_coverage_covered [OF st(4)] by blast
qed

text \<open>C16: A verified number is authorised. When a binding verifies for a DID, its token is signed by the key of a certificate with a
  list of numbers, on a path in force to a configured anchor; every list on the path covers the number; the binding is in
  time and lives at most a week; it names the DID; the DID's document claims the number back; and where the policy asks for a
  status, it is good.\<close>

theorem verified_number_authorised:
  assumes "tn_verify P ctx b did doc now = Ok v"
  shows "\<exists>x5u p input sig path. parse_binding P b = Ok (x5u, p, input, sig) \<and> tv_tn v = tp_tn p \<and> tv_did v = did \<and> tp_did p = did
    \<and> trusted_path P ctx path now \<and> signs P path sig input \<and> covered ctx path (tl (tp_tn p))
    \<and> tp_exp p - tp_iat p \<le> 604800 \<and> tp_iat p \<le> now + 300 \<and> now < tp_exp p \<and> claimed_back doc did (tp_tn p)
    \<and> (tc_require_status ctx \<longrightarrow> Option.bind (tp_status p) (dget (tc_status ctx)) = Some ''good'')"
proof -
  obtain p path where s: "steps_1_to_5 P ctx b now = Ok (p, path)" "steps_6_to_8 ctx did doc p path = Ok v"
    using assms by (auto simp: tn_verify_def rbind_OkE)
  obtain x5u input sig where "parse_binding P b = Ok (x5u, p, input, sig)" "trusted_path P ctx path now" "signs P path sig input"
      "covered ctx path (tl (tp_tn p))" "tp_exp p - tp_iat p \<le> 604800" "tp_iat p \<le> now + 300" "now < tp_exp p"
    by (rule steps_1_to_5_sound [OF s(1)])
  moreover have "tp_did p = did" "claimed_back doc did (tp_tn p)" "tv_tn v = tp_tn p" "tv_did v = did" "check_status ctx p = Ok ()"
    using s(2) by (auto simp: steps_6_to_8_def rbind_OkE split: if_splits option.splits)
  moreover have "tc_require_status ctx \<Longrightarrow> check_status ctx p = Ok () \<Longrightarrow> Option.bind (tp_status p) (dget (tc_status ctx)) = Some ''good''"
    by (auto simp: check_status_def split: option.splits if_splits)
  ultimately show ?thesis by blast
qed

section \<open>A node's store\<close>

lemma dset_new: "k \<notin> set (map fst d) \<Longrightarrow> dset k v d = d @ [(k, v)]"
  by (induction d) auto

lemma foldl_dset_new: "distinct (map fst acc @ map fst d) \<Longrightarrow> foldl (\<lambda>a kv. dset (fst kv) (snd kv) a) acc d = acc @ d"
proof (induction d arbitrary: acc)
  case (Cons kv d)
  then have "dset (fst kv) (snd kv) acc = acc @ [kv]" using dset_new [of "fst kv" acc "snd kv"] by simp
  then show ?case using Cons by simp
qed simp

text \<open>\<open>json.loads\<close> reads an I-JSON value as it is.\<close>

lemma loads_plain_ijson: "ijson_ok j \<Longrightarrow> loads_plain j = j"
proof (induction j rule: loads_plain.induct)
  case (1 d)
  have "map (\<lambda>kv. (fst kv, loads_plain (snd kv))) d = d" using 1 by (auto simp: list_all_iff intro!: map_idI)
  then show ?case using 1(2) foldl_dset_new [of "[]" d] by simp
next
  case (2 xs)
  then show ?case by (auto simp: list_all_iff intro!: map_idI)
qed auto

lemma parsed_payload:
  assumes "parse_binding P (JStr b) = Ok (x5u, p, input, sig)"
  shows "payload_did P b = Some (tp_did p)" "payload_iat P b = Some (tp_iat p)" "held_payload P b \<noteq> None"
proof -
  obtain h q where s: "segments P b = Some (h, q, input, sig)" "tn_payload_of q = Some p"
    using assms by (auto simp: parse_binding_def jstr_def malformed_def split: option.splits if_splits prod.splits)
  then obtain s1 s2 s3 rb where sp: "split CHR ''.'' b = [s1, s2, s3]" and b64: "b64u s2 = Some rb" and j: "json_object P rb = Some q"
    by (auto simp: segments_def bind_eq_Some_conv split: list.splits if_splits)
  then have "json_pairs P rb = Some q" "ijson_ok q" by (auto simp: json_object_def split: option.splits if_splits)
  then have p: "payload_of P b = Some q" using sp b64 by (simp add: payload_of_def loads_plain_ijson)
  have f: "jstr (jget ''did'' q) = Some (tp_did p)" "jint (jget ''iat'' q) = Some (tp_iat p)" "jint (jget ''exp'' q) = Some (tp_exp p)"
    using s(2) by (auto simp: tn_payload_of_def bind_eq_Some_conv)
  show "payload_did P b = Some (tp_did p)" "payload_iat P b = Some (tp_iat p)" using p f by (simp_all add: payload_did_def payload_iat_def)
  show "held_payload P b \<noteq> None" using sp b64 j f by (simp add: held_payload_def ensure_def)
qed

text \<open>What a node that holds \<open>held\<close> for the number \<open>tn\<close> holds after a request.\<close>

definition store_step :: "tn_prims \<Rightarrow> tn_context \<Rightarrow> string \<Rightarrow> string list \<Rightarrow> string \<times> int \<Rightarrow> string list option" where
  "store_step P ctx tn held e =
    (case tn_store P ctx (JStr tn) (fst e) (snd e) (Some (JList (map JStr held))) of
       Ok (Stored hs) \<Rightarrow> Some hs | Ok _ \<Rightarrow> Some held | _ \<Rightarrow> None)"

definition node_ok :: "tn_prims \<Rightarrow> tn_context \<Rightarrow> string \<Rightarrow> string list \<Rightarrow> bool" where
  "node_ok P ctx tn held \<longleftrightarrow> length held \<le> 4 \<and> distinct (map (payload_did P) held) \<and> sorted (map (\<lambda>b. (- iat_of P b, b)) held)
     \<and> (\<forall>h\<in>set held. \<exists>now p path. steps_1_to_5 P ctx (JStr h) now = Ok (p, path) \<and> tp_tn p = tn)"

lemma texts_strings [simp]: "texts (Some (JList (map JStr xs))) = xs"
  by (simp add: texts_def jlist_def List.map_filter_def jstr_def comp_def)

lemma oldest_member: "held \<noteq> [] \<Longrightarrow> oldest P held \<in> set held"
proof -
  assume h: "held \<noteq> []"
  define low where "low = Min (set (map (iat_of P) held))"
  have "low \<in> set (map (iat_of P) held)" unfolding low_def by (rule Min_in) (use h in auto)
  then have "set (filter (\<lambda>h. iat_of P h = low) held) \<noteq> {}" by auto
  then have "Max (set (filter (\<lambda>h. iat_of P h = low) held)) \<in> set (filter (\<lambda>h. iat_of P h = low) held)" by (intro Max_in) auto
  then show ?thesis by (simp add: oldest_def low_def Let_def)
qed

lemma held_order_props:
  "set (held_order P bs) = set bs" "length (held_order P bs) = length bs" "sorted (map (\<lambda>b. (- iat_of P b, b)) (held_order P bs))"
  "distinct (map f (held_order P bs)) = distinct (map f bs)"
  by (simp_all add: held_order_def distinct_map)

text \<open>Adding a binding to some of those held keeps their number and that each has a DID of its own.\<close>

lemma store_verified_cases:
  assumes "store_verified P b p now (Some (JList (map JStr held))) = Stored hs" "payload_did P b = Some (tp_did p)"
    "distinct (map (payload_did P) held)" "length held \<le> 4"
  obtains kept where "hs = held_order P (kept @ [b])" "set kept \<subseteq> set held" "length kept \<le> 3"
    "distinct (map (payload_did P) (kept @ [b]))"
proof -
  define cur where "cur = filter (still_held P now) held"
  have cur: "distinct (map (payload_did P) cur)" "length cur \<le> 4" "set cur \<subseteq> set held"
    using assms(3,4) le_trans [OF length_filter_le assms(4)] by (simp_all add: cur_def distinct_map_filter)
  define same where "same = filter (\<lambda>h. payload_did P h = Some (tp_did p)) cur"
  have st: "(case same of h # _ \<Rightarrow> if h = b then StoreKept ''same''
        else if tp_iat p > iat_of P h then Stored (held_order P (filter (\<lambda>x. x \<noteq> h) cur @ [b])) else StoreKept ''older''
      | [] \<Rightarrow> if length cur < 4 then Stored (held_order P (cur @ [b]))
        else if tp_iat p > iat_of P (oldest P cur) then Stored (held_order P (filter (\<lambda>x. x \<noteq> oldest P cur) cur @ [b]))
        else StoreKept ''full'') = Stored hs"
    using assms(1) unfolding store_verified_def texts_strings Let_def cur_def [symmetric] same_def [symmetric] .
  have fewer: "length (filter (\<lambda>x. x \<noteq> h) cur) \<le> 3" if "h \<in> set cur" for h
    using length_filter_less [of h cur "\<lambda>x. x \<noteq> h"] that cur(2) by simp
  have new: "distinct (map (payload_did P) (kept @ [b]))"
    if "kept = filter Q cur" "\<And>x. x \<in> set cur \<Longrightarrow> Q x \<Longrightarrow> payload_did P x \<noteq> Some (tp_did p)" for kept Q
  proof -
    have "payload_did P b \<notin> set (map (payload_did P) kept)" using that(2) by (auto simp: that(1) assms(2)) (metis that(2))
    then show ?thesis using cur(1) by (simp add: that(1) distinct_map_filter)
  qed
  have none: "payload_did P x \<noteq> Some (tp_did p)" if "same = []" "x \<in> set cur" for x
    using that by (auto simp: same_def filter_empty_conv)
  show thesis
  proof (cases same)
    case Nil
    consider "length cur < 4" "hs = held_order P (cur @ [b])"
      | "\<not> length cur < 4" "hs = held_order P (filter (\<lambda>x. x \<noteq> oldest P cur) cur @ [b])"
      using st Nil by (auto split: if_splits)
    then show thesis
    proof cases
      case 1
      then show thesis using that [of cur] cur(3) new [of cur "\<lambda>x. True"] none [OF Nil] by simp
    next
      case 2
      then have "oldest P cur \<in> set cur" by (intro oldest_member) auto
      then show thesis using that [OF 2(2)] cur(3) fewer new [OF refl] none [OF Nil] by auto
    qed
  next
    case (Cons h hh)
    then have h: "hs = held_order P (filter (\<lambda>x. x \<noteq> h) cur @ [b])" using st by (auto split: if_splits)
    have "h \<in> set same" using Cons by simp
    then have "h \<in> set cur" "payload_did P h = Some (tp_did p)" by (simp_all add: same_def)
    moreover from this have "payload_did P x \<noteq> Some (tp_did p)" if "x \<in> set cur" "x \<noteq> h" for x
      using cur(1) that by (auto simp: distinct_map inj_on_def)
    ultimately show thesis using that [OF h] cur(3) fewer new [OF refl, of "\<lambda>x. x \<noteq> h"] by auto
  qed
qed

lemma store_step_ok:
  assumes "node_ok P ctx tn held" "store_step P ctx tn held e = Some hs"
  shows "node_ok P ctx tn hs"
proof -
  obtain b now where e: "e = (b, now)" by (cases e)
  show ?thesis
  proof (cases "tn_store P ctx (JStr tn) b now (Some (JList (map JStr held)))")
    case (Ok r)
    show ?thesis
    proof (cases r)
      case (Stored xs)
      then have hs: "hs = xs" using assms(2) Ok by (simp add: store_step_def e)
      obtain p path where st: "steps_1_to_5 P ctx (JStr b) now = res.Ok (p, path)" "tp_tn p = tn"
          "store_verified P b p now (Some (JList (map JStr held))) = store_out.Stored xs"
        using Ok unfolding Stored by (auto simp: tn_store_def split: if_splits res.splits prod.splits)
      obtain x5u input sig where "parse_binding P (JStr b) = res.Ok (x5u, p, input, sig)" by (rule steps_1_to_5_sound [OF st(1)])
      note did = parsed_payload(1) [OF this]
      obtain kept where k: "xs = held_order P (kept @ [b])" "set kept \<subseteq> set held" "length kept \<le> 3" "distinct (map (payload_did P) (kept @ [b]))"
        using store_verified_cases [OF st(3) did] assms(1) by (auto simp: node_ok_def)
      have "\<exists>now p path. steps_1_to_5 P ctx (JStr h) now = res.Ok (p, path) \<and> tp_tn p = tn" if "h \<in> set xs" for h
      proof (cases "h = b")
        case True
        then show ?thesis using st(1,2) by blast
      next
        case False
        then have "h \<in> set held" using that k(1,2) by (auto simp: held_order_props)
        then show ?thesis using assms(1) by (auto simp: node_ok_def)
      qed
      moreover have "length xs \<le> 4" using k(1,3) by (simp add: held_order_props)
      moreover have "distinct (map (payload_did P) xs)" using k(1,4) by (simp only: held_order_props(4))
      moreover have "sorted (map (\<lambda>b. (- iat_of P b, b)) xs)" unfolding k(1) by (rule held_order_props(3))
      ultimately show ?thesis unfolding hs node_ok_def by blast
    qed (use assms Ok in \<open>simp_all add: store_step_def e\<close>)
  qed (use assms in \<open>simp_all add: store_step_def e\<close>)
qed

interpretation number_store: machine "store_step P ctx tn" "\<lambda>e. True" "node_ok P ctx tn"
  by unfold_locales (rule store_step_ok)

text \<open>C17: What a node holds for a number. Whatever is put and however time passes, it holds at most four bindings, one of each DID, the
  newest first, and each of them is for that number and passed the checks of a binding when it was put.\<close>

theorem node_holds_verified:
  assumes "reaches (store_step P ctx tn) (\<lambda>e. True) [] held"
  shows "length held \<le> 4 \<and> distinct (map (payload_did P) held) \<and> sorted (map (\<lambda>b. (- iat_of P b, b)) held)
    \<and> (\<forall>h\<in>set held. \<exists>now p path. steps_1_to_5 P ctx (JStr h) now = Ok (p, path) \<and> tp_tn p = tn)"
proof -
  have "node_ok P ctx tn []" by (simp add: node_ok_def)
  then have "node_ok P ctx tn held" by (rule number_store.reaches_inv [OF assms])
  then show ?thesis unfolding node_ok_def .
qed

section \<open>A reader's choice\<close>

lemma all_verified_cases:
  assumes "\<And>b. (\<exists>x. f b = Ok x) \<or> f b = Raises"
  shows "all_verified f bs = (if \<exists>b\<in>set bs. f b = Raises then Raises
    else Ok (List.map_filter (\<lambda>b. case f b of Ok x \<Rightarrow> x | _ \<Rightarrow> None) bs))"
proof (induction bs)
  case (Cons b bs)
  then show ?case using assms [of b] by (auto simp: map_filter_simps split: option.splits)
qed (simp add: map_filter_simps)

lemma verified_for_cases: "(\<exists>x. verified_for P ctx tn ds now b = Ok x) \<or> verified_for P ctx tn ds now b = Raises"
  by (auto simp: verified_for_def split: option.splits res.splits)

lemma verified_for_text:
  assumes "verified_for P ctx tn ds now b = Ok (Some (iat, s, v))"
  shows "b = JStr s" "iat = iat_of P s" "tv_tn v = tn"
    "\<exists>did. payload_did P s = Some did \<and> tn_verify P ctx b did (Option.bind ds (jget did)) now = Ok v"
  using assms by (auto simp: verified_for_def jstr_eq split: option.splits res.splits if_splits)

definition verified_list :: "tn_prims \<Rightarrow> tn_context \<Rightarrow> string \<Rightarrow> json option \<Rightarrow> int \<Rightarrow> json list \<Rightarrow> (int \<times> string \<times> tn_verified) list" where
  "verified_list P ctx tn ds now bs = List.map_filter (\<lambda>b. case verified_for P ctx tn ds now b of Ok x \<Rightarrow> x | _ \<Rightarrow> None) bs"

lemma verified_list_set:
  "set (verified_list P ctx tn ds now bs) = {x. \<exists>b\<in>set bs. verified_for P ctx tn ds now b = Ok (Some x)}"
  by (force simp: verified_list_def List.map_filter_def split: res.splits)

lemma tn_select_eq:
  "tn_select P ctx tn (Some (JList bs)) ds now =
    (if \<exists>b\<in>set bs. verified_for P ctx tn ds now b = Raises then Raises else Ok (newest_of (verified_list P ctx tn ds now bs)))"
  by (simp add: tn_select_def elements_def jlist_def all_verified_cases [OF verified_for_cases] verified_list_def)

text \<open>The choice depends on the set of what verified, as a text determines the rest.\<close>

definition text_keyed :: "(int \<times> string \<times> tn_verified) list \<Rightarrow> bool" where
  "text_keyed vs \<longleftrightarrow> inj_on (\<lambda>(iat, b, v). (- iat, b)) (set vs)"

lemma verified_list_keyed: "text_keyed (verified_list P ctx tn ds now bs)"
proof -
  have "x = y" if "x \<in> set (verified_list P ctx tn ds now bs)" "y \<in> set (verified_list P ctx tn ds now bs)"
      "(case x of (iat, b, v) \<Rightarrow> (- iat, b)) = (case y of (iat, b, v) \<Rightarrow> (- iat, b))" for x y
  proof -
    note m = that
    obtain b where b: "verified_for P ctx tn ds now b = Ok (Some x)" using m(1) unfolding verified_list_set by blast
    obtain c where c: "verified_for P ctx tn ds now c = Ok (Some y)" using m(2) unfolding verified_list_set by blast
    obtain i s v where x: "x = (i, s, v)" by (cases x)
    obtain i' s' v' where y: "y = (i', s', v')" by (cases y)
    have "b = c" using verified_for_text(1) [of P ctx tn ds now b] verified_for_text(1) [of P ctx tn ds now c] b c m(3) by (auto simp: x y)
    then show ?thesis using b c by simp
  qed
  then show ?thesis unfolding text_keyed_def by (rule inj_onI)
qed

lemma hd_sort_key_least:
  fixes k :: "'a \<Rightarrow> 'b::linorder"
  assumes "xs \<noteq> []"
  shows "hd (sort_key k xs) \<in> set xs" "\<forall>x\<in>set xs. k (hd (sort_key k xs)) \<le> k x"
proof -
  have ne: "sort_key k xs \<noteq> []" using assms by (metis length_0_conv length_sort)
  then have "hd (sort_key k xs) \<in> set (sort_key k xs)" by (rule hd_in_set)
  then show "hd (sort_key k xs) \<in> set xs" by simp
  have "sorted (map k (sort_key k xs))" by (rule sorted_sort_key)
  then have "\<forall>x\<in>set (sort_key k xs). k (hd (sort_key k xs)) \<le> k x" using ne by (cases "sort_key k xs") auto
  then show "\<forall>x\<in>set xs. k (hd (sort_key k xs)) \<le> k x" by simp
qed

lemma hd_sort_key_set:
  fixes k :: "'a \<Rightarrow> 'b::linorder"
  assumes "set xs = set ys" "inj_on k (set xs)" "xs \<noteq> []"
  shows "hd (sort_key k xs) = hd (sort_key k ys)"
proof -
  have "ys \<noteq> []" using assms(1,3) by auto
  note a = hd_sort_key_least [OF assms(3), of k] and b = hd_sort_key_least [OF this, of k]
  have "k (hd (sort_key k xs)) = k (hd (sort_key k ys))" using a b assms(1) by (auto intro: order_antisym)
  then show ?thesis using a(1) b(1) assms(1,2) by (auto dest: inj_onD)
qed

lemma newest_of_eq:
  "newest_of vs = (if vs = [] then None
    else (case hd (sort_key (\<lambda>(iat, b, _). (- iat, b)) vs) of (iat, b, v) \<Rightarrow>
      Some \<lparr>fd_did = tv_did v, fd_by = tv_by v, fd_issued = iat,
            fd_others = sorted_list_of_set ((\<lambda>(_, _, w). tv_did w) ` set vs - {tv_did v}), fd_binding = b\<rparr>))"
proof (cases "vs = []")
  case False
  let ?k = "\<lambda>(iat, b, _). (- iat, b)"
  have "sort_key ?k vs \<noteq> []" using False by (metis length_0_conv length_sort)
  then obtain iat b v r where s: "sort_key ?k vs = (iat, b, v) # r" by (metis list.exhaust prod_cases3)
  have d: "sort (remdups (filter (\<lambda>d. d \<noteq> tv_did v) (map (\<lambda>(_, _, w). tv_did w) vs)))
      = sorted_list_of_set ((\<lambda>(_, _, w). tv_did w) ` set vs - {tv_did v})"
    unfolding sorted_list_of_set_sort_remdups [symmetric] by (rule arg_cong [where f = sorted_list_of_set]) force
  show ?thesis unfolding newest_of_def s list.case prod.case d using False s by simp
qed (simp add: newest_of_def)

lemma newest_of_set: "set vs = set ws \<Longrightarrow> text_keyed vs \<Longrightarrow> newest_of vs = newest_of ws"
  using hd_sort_key_set [of vs ws "\<lambda>(iat, b, _). (- iat, b)"] by (auto simp: newest_of_eq text_keyed_def)

text \<open>A reader's choice does not depend on the order in which the answers arrive, nor on how often a binding is among them: the
  same set of bindings gives the same result.\<close>

theorem selection_order_free:
  assumes "set bs = set bs'"
  shows "tn_select P ctx tn (Some (JList bs)) ds now = tn_select P ctx tn (Some (JList bs')) ds now"
proof -
  have "set (verified_list P ctx tn ds now bs) = set (verified_list P ctx tn ds now bs')" using assms by (simp add: verified_list_set)
  from newest_of_set [OF this verified_list_keyed] show ?thesis using assms by (simp add: tn_select_eq)
qed

text \<open>What is selected verifies, for the number that was asked for, and nothing that verifies is newer.\<close>

lemma selection_newest:
  assumes "tn_select P ctx tn (Some (JList bs)) ds now = Ok (Some f)"
  shows "\<exists>v. verified_for P ctx tn ds now (JStr (fd_binding f)) = Ok (Some (fd_issued f, fd_binding f, v)) \<and> tv_tn v = tn \<and> tv_did v = fd_did f
    \<and> JStr (fd_binding f) \<in> set bs
    \<and> (\<forall>b\<in>set bs. \<forall>iat s w. verified_for P ctx tn ds now b = Ok (Some (iat, s, w)) \<longrightarrow> iat \<le> fd_issued f)"
proof -
  let ?vs = "verified_list P ctx tn ds now bs" and ?k = "\<lambda>(iat :: int, b :: string, _ :: tn_verified). (- iat, b)"
  have n: "newest_of ?vs = Some f" using assms by (auto simp: tn_select_eq split: if_splits)
  then have ne: "?vs \<noteq> []" by (auto simp: newest_of_eq)
  obtain iat b v where h: "hd (sort_key ?k ?vs) = (iat, b, v)" by (metis prod_cases3)
  then have f: "fd_issued f = iat" "fd_binding f = b" "fd_did f = tv_did v" using n ne by (auto simp: newest_of_eq)
  note l = hd_sort_key_least [OF ne, of ?k, unfolded h]
  obtain c where c: "c \<in> set bs" "verified_for P ctx tn ds now c = Ok (Some (iat, b, v))" using l(1) by (auto simp: verified_list_set)
  have "\<forall>b\<in>set bs. \<forall>i s w. verified_for P ctx tn ds now b = Ok (Some (i, s, w)) \<longrightarrow> i \<le> iat"
  proof (intro ballI allI impI)
    fix b i s w assume "b \<in> set bs" "verified_for P ctx tn ds now b = Ok (Some (i, s, w))"
    then have "(i, s, w) \<in> set ?vs" unfolding verified_list_set by blast
    then show "i \<le> iat" using l(2) by fastforce
  qed
  then show ?thesis using c verified_for_text [OF c(2)] by (auto simp: f)
qed

section \<open>Calls from the telephone network\<close>

text \<open>C18: What a verified PASSporT guarantees: its token is signed by a certificate on a path in force to a configured anchor, fetched
  from the address its header and the Identity header both name; it is from the calling number and to the called one, and at
  most a minute old; and the highest attestation also needs that the certificates cover the calling number.\<close>

theorem verified_passport_sound:
  assumes "check_passport P ctx (Some (JStr s)) from_tn to_tn now = Ok (level, True, r)"
  shows "\<exists>tok params x5u p input sig path. parse_identity s = Some (tok, params, x5u) \<and> parse_passport P tok = Some (x5u, p, input, sig)
    \<and> cert_path P ctx x5u now = Ok path \<and> trusted_path P ctx path now \<and> signs P path sig input \<and> pp_attest p = level
    \<and> canon from_tn = Some (pp_orig p) \<and> canon to_tn \<in> Some ` set (pp_dest p) \<and> \<bar>now - pp_iat p\<bar> \<le> 60
    \<and> (level = ''A'' \<longrightarrow> covered ctx path (pp_orig p))"
proof -
  obtain tok params info x5u p input sig where i: "parse_identity s = Some (tok, params, info)" "parse_passport P tok = Some (x5u, p, input, sig)"
      "check_pass P ctx info x5u p input sig from_tn to_tn now = Ok (level, True, r)"
    using assms by (auto simp: check_passport_def jstr_def split: option.splits prod.splits if_splits)
  then have c: "Some (pp_orig p) = canon from_tn" "canon to_tn \<in> Some ` set (pp_dest p)" "\<bar>now - pp_iat p\<bar> \<le> 60" "x5u = info" "pp_attest p = level"
    "\<exists>u. rbind (cert_path P ctx x5u now) (\<lambda>path. rbind (check_signature P path sig input) (\<lambda>_.
        if pp_attest p = ''A'' then check_coverage ctx path (pp_orig p) else Ok ())) = Ok u"
    by (auto simp: check_pass_def Let_def PP_FRESH_def split: if_splits res.splits)
  then obtain path where path: "cert_path P ctx x5u now = Ok path" "check_signature P path sig input = Ok ()"
      "level = ''A'' \<longrightarrow> check_coverage ctx path (pp_orig p) = Ok ()"
    using c(6) by (auto simp: rbind_OkE c(5) split: if_splits)
  show ?thesis using i c path(1,3) cert_path_trusted [OF path(1)] check_signature_signs [OF path(2)] check_coverage_covered by (metis (no_types, lifting))
qed

end
