(* ===== verification/Tnbinding_Demo.thy ===== *)
theory Tnbinding_Demo
  imports Tnbinding
begin

text \<open>One certificate, binding and PASSporT on which the properties of verified numbers apply.\<close>

section \<open>The certificate and the tokens\<close>

text \<open>A certificate with the number 15, which is its own anchor, served at \<open>https://c\<close>; a binding and a PASSporT signed with it.\<close>

definition demo_cert :: string where
  "demo_cert = ''MCgwGKAAAgAwCgYIKoZIzj0EAwIwADAAMAAwADAKBggqhkjOPQQDAgMA''"

definition demo_sig :: string where
  "demo_sig = ''AAAAAAAAAAAAAAAAAAAAAAAAAAAAAAAAAAAAAAAAAAEAAAAAAAAAAAAAAAAAAAAAAAAAAAAAAAAAAAAAAAAAAQ''"

definition demo_binding :: string where
  "demo_binding = ''AQ.Ag.'' @ demo_sig"

definition demo_json :: "bytes \<Rightarrow> json option" where
  "demo_json b =
    (if b = [1] then Some (JDict [(''alg'', JStr ''ES256''), (''typ'', JStr ''dsip-tn-binding+jwt''), (''x5u'', JStr ''https://c'')])
     else if b = [2] then Some (JDict [(''tn'', JStr ''+15''), (''did'', JStr ''did:x''), (''iat'', JInt 100), (''exp'', JInt 200),
       (''jti'', JStr ''01ARZ3NDEKTSV4RRFFQ69G5FAV'')])
     else if b = [3] then Some (JDict [(''alg'', JStr ''ES256''), (''typ'', JStr ''passport''), (''ppt'', JStr ''shaken''), (''x5u'', JStr ''https://c'')])
     else if b = [4] then Some (JDict [(''attest'', JStr ''A''), (''orig'', JDict [(''tn'', JStr ''15'')]), (''dest'', JDict [(''tn'', JList [JStr ''22''])]),
       (''iat'', JInt 120)])
     else None)"

definition demo_tn :: tn_prims where
  "demo_tn = \<lparr>read_x509 = (\<lambda>b. Some \<lparr>xc_v3 = True, xc_key = Some ([1], True), xc_not_before = 0, xc_not_after = 1000,
       xc_extensions = [(True, TnAuth [0x30, 0x06, 0xA2, 0x04, 0x16, 0x02, 0x31, 0x35])], xc_signature = [], xc_tbs = []\<rparr>),
     ecdsa = (\<lambda>k s m. False), ecdsa_rs = (\<lambda>k r s m. r = 1 \<and> s = 1), pem_public = (\<lambda>t. None), json_pairs = demo_json\<rparr>"

definition demo_numbers :: tn_context where
  "demo_numbers = \<lparr>tc_certificates = [(''https://c'', ''-----BEGIN CERTIFICATE-----'' @ [char_of (10 :: nat)] @ demo_cert @ [char_of (10 :: nat)]
       @ ''-----END CERTIFICATE-----'' @ [char_of (10 :: nat)])],
     tc_anchors = [demo_cert], tc_spc = [], tc_require_status = False, tc_status = [], tc_gateway = None\<rparr>"

definition demo_document :: json where
  "demo_document = JDict [(''id'', JStr ''did:x''), (''alsoKnownAs'', JList [JStr ''tel:+15''])]"

definition demo_der :: bytes where
  "demo_der = [0x30, 0x28, 0x30, 0x18, 0xA0, 0, 2, 0, 0x30, 0x0A, 0x06, 0x08, 0x2A, 0x86, 0x48, 0xCE, 0x3D, 0x04, 0x03, 0x02, 0x30, 0, 0x30, 0, 0x30, 0, 0x30, 0,
     0x30, 0x0A, 0x06, 0x08, 0x2A, 0x86, 0x48, 0xCE, 0x3D, 0x04, 0x03, 0x02, 3, 0]"

definition demo_parsed :: cert where
  "demo_parsed = \<lparr>ct_der = demo_der, ct_issuer = [0x30, 0], ct_subject = [0x30, 0], ct_alg_ok = True, ct_key = Some [1], ct_nb = 0, ct_na = 1000,
     ct_ca = None, ct_usage = None, ct_tnauth = Some [One ''15''], ct_unknown_critical = False, ct_signature = [], ct_tbs = []\<rparr>"

definition demo_sig_bytes :: bytes where
  "demo_sig_bytes = [0, 0, 0, 0, 0, 0, 0, 0, 0, 0, 0, 0, 0, 0, 0, 0, 0, 0, 0, 0, 0, 0, 0, 0, 0, 0, 0, 0, 0, 0, 0, 1, 0, 0, 0, 0, 0, 0, 0, 0, 0, 0, 0, 0, 0, 0, 0, 0, 0, 0, 0, 0, 0, 0, 0, 0, 0, 0, 0, 0, 0, 0, 0, 1]"

lemmas b64_simps = b64_text_def b64_value_def uc_letter_def lc_letter_def char_in_def is_digit_def

lemma b64_bytes_eq:
  assumes "length x = 4 * q + r" "r < 4" "length b = 3 * q + 6 * r div 8"
    "drop_bit (6 * r mod 8) (foldl (\<lambda>n c. 64 * n + the (b64_value c)) 0 x) = from_bytes b"
  shows "b64_bytes x = b"
proof -
  have e: "6 * (4 * q + r) = 6 * r + 8 * (3 * q)" by simp
  have "(6 * r + 8 * (3 * q)) div 8 = 3 * q + 6 * r div 8" "(6 * r + 8 * (3 * q)) mod 8 = 6 * r mod 8"
    by (simp, rule mod_mult_self2)
  then have "6 * length x div 8 = length b" "6 * length x mod 8 = 6 * r mod 8" by (simp_all only: assms(1,3) e)
  then show ?thesis using assms(4) to_from_bytes [of b] by (simp add: b64_bytes_def Let_def)
qed

lemma demo_texts:
  "b64u demo_sig = Some demo_sig_bytes" "b64u ''AQ'' = Some [1]" "b64u ''Ag'' = Some [2]" "b64u ''Aw'' = Some [3]" "b64u ''BA'' = Some [4]"
proof -
  have "b64_bytes demo_sig = demo_sig_bytes"
    by (rule b64_bytes_eq [where q = 21 and r = 2])
      (simp_all add: demo_sig_def demo_sig_bytes_def b64_simps from_bytes_def drop_bit_eq_div)
  then show "b64u demo_sig = Some demo_sig_bytes" by (simp add: b64u_def demo_sig_def b64_simps)
  have "b64_bytes ''AQ'' = [1]" "b64_bytes ''Ag'' = [2]" "b64_bytes ''Aw'' = [3]" "b64_bytes ''BA'' = [4]"
    by (rule b64_bytes_eq [where q = 0 and r = 2]; simp add: b64_simps from_bytes_def drop_bit_eq_div)+
  then show "b64u ''AQ'' = Some [1]" "b64u ''Ag'' = Some [2]" "b64u ''Aw'' = Some [3]" "b64u ''BA'' = Some [4]"
    by (simp_all add: b64u_def b64_simps)
qed

lemma demo_cert_bytes: "padded_b64 demo_cert = Some demo_der"
proof -
  have "b64_bytes demo_cert = demo_der"
    by (rule b64_bytes_eq [where q = 14 and r = 0]) (simp_all add: demo_cert_def demo_der_def b64_simps from_bytes_def drop_bit_eq_div)
  then show ?thesis by (simp add: padded_b64_def demo_cert_def b64_simps is_alnum_def)
qed

lemma demo_parse: "parse_cert demo_tn demo_der = Some demo_parsed"
  by code_simp

lemma demo_pem:
  "pem_blocks None (map drop_cr (split (char_of (10 :: nat)) (the (dget (tc_certificates demo_numbers) ''https://c'')))) = Some [demo_cert]"
  by code_simp

lemma demo_checked: "check_path demo_tn [demo_parsed] 150" "check_coverage demo_numbers [demo_parsed] ''15'' = Ok ()"
    "check_signature demo_tn [demo_parsed] demo_sig_bytes m = Ok ()"
  apply code_simp
  apply code_simp
  apply (simp add: check_signature_def demo_sig_bytes_def from_bytes_def demo_parsed_def demo_tn_def Let_def N_P256_def)
  done

lemma demo_path: "cert_path demo_tn demo_numbers ''https://c'' 150 = Ok [demo_parsed]"
proof -
  obtain t where t: "dget (tc_certificates demo_numbers) ''https://c'' = Some t" by (simp add: demo_numbers_def)
  then have "load_chain demo_tn t = Some [demo_parsed]" using demo_pem by (simp add: load_chain_def demo_cert_bytes demo_parse)
  moreover have "tc_anchors demo_numbers = [demo_cert]" by (simp add: demo_numbers_def)
  ultimately show ?thesis using t demo_checked(1)
    by (simp add: cert_path_def map_filter_simps demo_cert_bytes demo_parse build_paths_def)
qed

lemma demo_split: "split CHR ''.'' demo_binding = [''AQ'', ''Ag'', demo_sig]" "split CHR ''.'' (''Aw.BA.'' @ demo_sig) = [''Aw'', ''BA'', demo_sig]"
    "demo_sig \<noteq> []"
  by code_simp+

lemma demo_segments:
  "\<exists>input. segments demo_tn demo_binding = Some (the (demo_json [1]), the (demo_json [2]), input, demo_sig_bytes)"
  "\<exists>input. segments demo_tn (''Aw.BA.'' @ demo_sig) = Some (the (demo_json [3]), the (demo_json [4]), input, demo_sig_bytes)"
proof -
  have j: "json_object demo_tn [n] = Some (the (demo_json [n]))" if "n \<in> {1, 2, 3, 4}" for n
    using that by (auto simp: json_object_def demo_tn_def demo_json_def MAX_SAFE_def is_dict_def)
  show "\<exists>input. segments demo_tn demo_binding = Some (the (demo_json [1]), the (demo_json [2]), input, demo_sig_bytes)"
    "\<exists>input. segments demo_tn (''Aw.BA.'' @ demo_sig) = Some (the (demo_json [3]), the (demo_json [4]), input, demo_sig_bytes)"
    by (simp_all only: segments_def demo_split list.case if_False demo_texts bind.simps j insert_iff simp_thms) auto
qed


lemma demo_signed_path:
  "tn_ok ''+15''" "ulid_valid ''01ARZ3NDEKTSV4RRFFQ69G5FAV''" "attested_by demo_parsed = Some None"
  "\<not> tc_require_status demo_numbers"
  by code_simp+

lemma demo_steps:
  "steps_1_to_5 demo_tn demo_numbers (JStr demo_binding) 150
    = Ok (\<lparr>tp_tn = ''+15'', tp_did = ''did:x'', tp_iat = 100, tp_exp = 200, tp_status = None\<rparr>, [demo_parsed])"
proof -
  obtain input where i: "segments demo_tn demo_binding = Some (the (demo_json [1]), the (demo_json [2]), input, demo_sig_bytes)"
    using demo_segments(1) by blast
  have "parse_binding demo_tn (JStr demo_binding)
      = Ok (''https://c'', \<lparr>tp_tn = ''+15'', tp_did = ''did:x'', tp_iat = 100, tp_exp = 200, tp_status = None\<rparr>, input, demo_sig_bytes)"
    by (simp add: parse_binding_def jstr_def i demo_json_def tn_header_ok_def tn_payload_of_def starts_def startswith_def jget_def jint_def
        demo_signed_path ensure_def)
  then show ?thesis
    by (simp add: steps_1_to_5_def demo_path demo_checked(2,3) check_lifetime_def LIFETIME_MAX_def IAT_TOLERANCE_def)
qed

lemma demo_verified:
  "tn_verify demo_tn demo_numbers (JStr demo_binding) ''did:x'' (Some demo_document) 150
    = Ok \<lparr>tv_tn = ''+15'', tv_did = ''did:x'', tv_expires = 200, tv_by = None\<rparr>"
  by (simp add: tn_verify_def demo_steps steps_6_to_8_def claimed_back_def demo_document_def jget_def jlist_def check_status_def
      demo_signed_path)

lemma demo_stored: "store_step demo_tn demo_numbers ''+15'' [] (demo_binding, 150) = Some [demo_binding]"
  by (simp add: store_step_def tn_store_def demo_steps store_verified_def jstr_def demo_signed_path texts_def jlist_def
      List.map_filter_def held_order_def)

lemma demo_identity:
  "parse_identity (''Aw.BA.'' @ demo_sig @ '';info=<https://c>'') = Some (''Aw.BA.'' @ demo_sig, [(''info'', ''<https://c>'')], ''https://c'')"
  by code_simp

lemma demo_passport:
  "check_passport demo_tn demo_numbers (Some (JStr (''Aw.BA.'' @ demo_sig @ '';info=<https://c>''))) (Some (JStr ''+1-5'')) (Some (JStr ''22'')) 150
    = Ok (''A'', True, None)"
proof -
  obtain input where i: "segments demo_tn (''Aw.BA.'' @ demo_sig) = Some (the (demo_json [3]), the (demo_json [4]), input, demo_sig_bytes)"
    using demo_segments(2) by blast
  have c: "canon (Some (JStr ''15'')) = Some ''15''" "canon (Some (JStr ''+1-5'')) = Some ''15''" "canon (Some (JStr ''22'')) = Some ''22''"
    by code_simp+
  have "parse_passport demo_tn (''Aw.BA.'' @ demo_sig)
      = Some (''https://c'', \<lparr>pp_attest = ''A'', pp_orig = ''15'', pp_dest = [''22''], pp_iat = 120\<rparr>, input, demo_sig_bytes)"
    unfolding parse_passport_def i by (simp add: demo_json_def jget_def jstr_def jlist_def jint_def starts_def startswith_def ensure_def c)
  then show ?thesis
    using demo_identity
    by (simp add: check_passport_def jstr_def dget_or_def check_pass_def c demo_path demo_checked(2,3) PP_FRESH_def)
qed

section \<open>Witnesses\<close>

theorem verified_number_authorised_witness:
  "\<exists>x5u p input sig path. parse_binding demo_tn (JStr demo_binding) = Ok (x5u, p, input, sig) \<and> tp_tn p = ''+15''
    \<and> trusted_path demo_tn demo_numbers path 150 \<and> signs demo_tn path sig input \<and> covered demo_numbers path (tl (tp_tn p))"
  using verified_number_authorised [OF demo_verified] by auto

theorem node_holds_verified_witness:
  "\<exists>now p path. steps_1_to_5 demo_tn demo_numbers (JStr demo_binding) now = Ok (p, path) \<and> tp_tn p = ''+15''"
proof -
  have "reaches (store_step demo_tn demo_numbers ''+15'') (\<lambda>e. True) [] [demo_binding]"
    by (rule reaches_step [where e = "(demo_binding, 150)", OF reaches_refl]) (simp_all add: demo_stored)
  from node_holds_verified [OF this] show ?thesis by simp
qed

theorem selection_order_free_witness:
  "tn_select demo_tn demo_numbers ''+15'' (Some (JList [JStr demo_binding, JNull])) None 150
    = tn_select demo_tn demo_numbers ''+15'' (Some (JList [JNull, JStr demo_binding, JNull])) None 150"
  by (rule selection_order_free) auto

theorem verified_passport_sound_witness:
  "\<exists>(p :: pass_payload) path. pp_attest p = ''A'' \<and> trusted_path demo_tn demo_numbers path 150 \<and> covered demo_numbers path (pp_orig p)"
proof -
  from verified_passport_sound [OF demo_passport] obtain p :: pass_payload and path
    where "pp_attest p = ''A''" "trusted_path demo_tn demo_numbers path 150" "covered demo_numbers path (pp_orig p)" by blast
  then show ?thesis by blast
qed

end
