(* ===== verification/Syslog_Sign.thy ===== *)
theory Syslog_Sign
  imports Tnbinding_Model
begin

text \<open>
  Signed syslog, \<^verbatim>\<open>dsipvec/syslog_sign.py\<close>: the collector of RFC 5848 blocks (class \<open>Collector\<close>). It holds the messages of configured
  signers until a verified signature block lists their hash, or their time is over. Hashes and the DSA check are parameters, held
  in the record \<open>sign_prims\<close>; a signer's key is given with the signer, as the readers of OpenPGP and X.509 keys are not modelled.
  A block that does not read (\<open>Bad\<close>) is \<^term>\<open>None\<close>.
\<close>

section \<open>Fields of blocks\<close>

definition SIG_PARAMS :: "string list" where
  "SIG_PARAMS = [''VER'', ''RSID'', ''SG'', ''SPRI'', ''GBC'', ''FMN'', ''CNT'', ''HB'', ''SIGN'']"
definition CERT_PARAMS :: "string list" where
  "CERT_PARAMS = [''VER'', ''RSID'', ''SG'', ''SPRI'', ''TPBL'', ''INDEX'', ''FLEN'', ''FRAG'', ''SIGN'']"

text \<open>The hash of a version, with the length of its digests.\<close>

definition VERSIONS :: "(string, string \<times> nat) dict" where
  "VERSIONS = [(''0111'', (''sha1'', 20)), (''0121'', (''sha256'', 32))]"

function mpis :: "bytes \<Rightarrow> nat list option" where
  "mpis b =
    (if b = [] then Some []
     else let n = (from_bytes (take 2 b) + 7) div 8
          in if length b < 2 + n then None else map_option (\<lambda>ns. from_bytes (take n (drop 2 b)) # ns) (mpis (drop (2 + n) b)))"
  by auto
termination by (relation "measure length") auto

declare mpis.simps [simp del]

definition dec :: "string \<Rightarrow> nat \<Rightarrow> int \<Rightarrow> int option \<Rightarrow> int option" where
  "dec s digits lo hi =
    (if is_numeral s \<and> (s = ''0'' \<or> hd s \<noteq> CHR ''0'') \<and> length s \<le> digits \<and> lo \<le> int (parse_nat s)
       \<and> (case hi of None \<Rightarrow> True | Some h \<Rightarrow> int (parse_nat s) \<le> h)
     then Some (int (parse_nat s)) else None)"

text \<open>The place of the bracket that closes the element that starts at \<open>start\<close>.\<close>

function closing :: "bool \<Rightarrow> nat \<Rightarrow> bytes \<Rightarrow> nat option" where
  "closing quoted i [] = None"
| "closing quoted i (c # cs) =
    (if quoted \<and> c = 0x5C then closing quoted (i + 2) (tl cs)
     else if c = 0x22 then closing (\<not> quoted) (i + 1) cs
     else if c = 0x5D \<and> \<not> quoted then Some i
     else closing quoted (i + 1) cs)"
  by pat_completeness auto
termination by (relation "measure (\<lambda>(q, i, b). length b)") auto

definition element_end :: "bytes \<Rightarrow> nat \<Rightarrow> nat option" where
  "element_end msg start =
    (case drop start msg of [] \<Rightarrow> None | c # cs \<Rightarrow> if c \<noteq> 0x5B then None else closing False (start + 1) cs)"

record sign_block =
  sb_ver :: string
  sb_rsid :: int
  sb_sg :: int
  sb_spri :: int
  sb_sign :: string
  sb_rs :: "nat \<times> nat"

datatype block_body = SigBody int "bytes list" | CertBody int int int bytes

definition sig_body :: "(string, string) dict \<Rightarrow> block_body option" where
  "sig_body v =
    do { gbc \<leftarrow> Option.bind (dget v ''GBC'') (\<lambda>s. dec s 10 0 None); fmn \<leftarrow> Option.bind (dget v ''FMN'') (\<lambda>s. dec s 10 1 None);
         cnt \<leftarrow> Option.bind (dget v ''CNT'') (\<lambda>s. dec s 2 1 (Some 99)); hb \<leftarrow> dget v ''HB'';
         ensure (int (length (split CHR '' '' hb)) = cnt \<and> [] \<notin> set (split CHR '' '' hb));
         hs \<leftarrow> those (map padded_b64 (split CHR '' '' hb));
         ensure (case Option.bind (dget v ''VER'') (dget VERSIONS) of None \<Rightarrow> True | Some (_, n) \<Rightarrow> list_all (\<lambda>h. length h = n) hs);
         Some (SigBody fmn hs) }"

definition cert_body :: "(string, string) dict \<Rightarrow> block_body option" where
  "cert_body v =
    do { tpbl \<leftarrow> Option.bind (dget v ''TPBL'') (\<lambda>s. dec s 8 1 None); index \<leftarrow> Option.bind (dget v ''INDEX'') (\<lambda>s. dec s 8 1 None);
         flen \<leftarrow> Option.bind (dget v ''FLEN'') (\<lambda>s. dec s 4 1 None); frag \<leftarrow> dget v ''FRAG'';
         ensure (int (length (bytes_of frag)) = flen \<and> index + flen - 1 \<le> tpbl);
         Some (CertBody tpbl index flen (bytes_of frag)) }"

definition read_block :: "sd_element list \<Rightarrow> bool \<Rightarrow> (sign_block \<times> block_body) option" where
  "read_block sd is_cert =
    (case sd of
       [(_, ps)] \<Rightarrow>
         do { ensure (map fst ps = (if is_cert then CERT_PARAMS else SIG_PARAMS));
              ver \<leftarrow> dget ps ''VER''; ensure (length ver = 4);
              rsid \<leftarrow> Option.bind (dget ps ''RSID'') (\<lambda>s. dec s 10 0 None); sg \<leftarrow> Option.bind (dget ps ''SG'') (\<lambda>s. dec s 1 0 (Some 3));
              spri \<leftarrow> Option.bind (dget ps ''SPRI'') (\<lambda>s. dec s 3 0 (Some 191));
              sign \<leftarrow> dget ps ''SIGN''; raw \<leftarrow> padded_b64 sign; rs \<leftarrow> mpis raw; ensure (length rs = 2);
              body \<leftarrow> (if is_cert then cert_body ps else sig_body ps);
              Some (\<lparr>sb_ver = ver, sb_rsid = rsid, sb_sg = sg, sb_spri = spri, sb_sign = sign, sb_rs = (rs ! 0, rs ! 1)\<rparr>, body) }
     | _ \<Rightarrow> None)"

section \<open>The state of a collector\<close>

record sign_prims =
  sha256_hex :: "bytes \<Rightarrow> string"
  hash_of :: "string \<Rightarrow> bytes \<Rightarrow> bytes"
  dsa_order :: "bytes \<Rightarrow> nat"
  dsa_verify :: "bytes \<Rightarrow> nat \<Rightarrow> nat \<Rightarrow> bytes \<Rightarrow> string \<Rightarrow> bool"

record signer =
  si_type :: string
  si_raw :: bytes
  si_sha256 :: string
  si_pub :: "bytes option"
  si_gaps :: bool

type_synonym sign_session = "string \<times> string option \<times> string option \<times> int"
type_synonym sign_group = "sign_session \<times> int \<times> int"

record held_message =
  hm_msg :: bytes
  hm_sha256 :: string
  hm_due :: int

record signed_claim =
  sc_hostname :: "string option"
  sc_app_name :: "string option"
  sc_procid :: "string option"
  sc_group :: sign_group
  sc_number :: int
  sc_key :: string

record waiting_hash =
  wh_alg :: string
  wh_hash :: bytes
  wh_claim :: signed_claim
  wh_due :: int

record collector =
  cl_now :: int
  cl_hold :: int
  cl_signers :: "(string, signer) dict"
  cl_held :: "held_message list"
  cl_waiting :: "waiting_hash list"
  cl_frags :: "(sign_session, int \<times> (int, 8 word) dict) dict"
  cl_sessions :: "(sign_session, bytes) dict"
  cl_highest :: "(string \<times> string option, int) dict"
  cl_authed :: "(sign_group \<times> int) set"
  cl_covered :: "(sign_group, int) dict"

definition init_collector :: "int \<Rightarrow> int \<Rightarrow> (string, signer) dict \<Rightarrow> collector" where
  "init_collector now hold signers = \<lparr>cl_now = now, cl_hold = hold, cl_signers = foldl (\<lambda>d (h, s). dset (lower h) s d) [] signers, cl_held = [],
     cl_waiting = [], cl_frags = [], cl_sessions = [], cl_highest = [], cl_authed = {}, cl_covered = []\<rparr>"

datatype sign_out =
    Deposited string "signed_claim option"
  | BlockRefused bool string
  | SessionOpened sign_session string
  | Gap signed_claim int int

section \<open>Blocks\<close>

text \<open>An established session ends when another payload is sent for it.\<close>

definition close_session :: "sign_session \<Rightarrow> collector \<Rightarrow> collector" where
  "close_session se c = c\<lparr>cl_sessions := ddel se (cl_sessions c), cl_authed := {a \<in> cl_authed c. fst (fst a) \<noteq> se},
     cl_waiting := filter (\<lambda>w. fst (sc_group (wh_claim w)) \<noteq> se) (cl_waiting c),
     cl_covered := filter (\<lambda>(g, n). fst g \<noteq> se) (cl_covered c)\<rparr>"

fun put_bytes :: "int \<Rightarrow> bytes \<Rightarrow> (int, 8 word) dict \<Rightarrow> (int, 8 word) dict" where
  "put_bytes i [] d = d"
| "put_bytes i (b # bs) d = put_bytes (i + 1) bs (dset i b d)"

fun agrees :: "int \<Rightarrow> bytes \<Rightarrow> (int, 8 word) dict \<Rightarrow> bool" where
  "agrees i [] d \<longleftrightarrow> True"
| "agrees i (b # bs) d \<longleftrightarrow> dget_or d i b = b \<and> agrees (i + 1) bs d"

text \<open>What the whole payload says of the key; \<^term>\<open>None\<close> when it is the signer's.\<close>

definition payload_fault :: "signer \<Rightarrow> bytes \<Rightarrow> string option" where
  "payload_fault si payload =
    (let parts = split CHR '' '' (text_of payload)
     in if \<not> (2 \<le> length parts \<and> length parts \<le> 3) \<or> parts ! 0 = [] \<or> parts ! 1 \<notin> {''C'', ''K'', ''P'', ''N'', ''U''}
        then Some ''payload-mismatch''
        else if parts ! 1 = ''U'' then Some ''unsupported-key-blob''
        else if parts ! 1 = ''N'' then (if length parts \<noteq> 2 then Some ''payload-mismatch'' else None)
        else if length parts \<noteq> 3 \<or> parts ! 1 \<noteq> si_type si \<or> padded_b64 (parts ! 2) \<noteq> Some (si_raw si) then Some ''payload-mismatch''
        else None)"

definition assemble :: "sign_session \<Rightarrow> signer \<Rightarrow> int \<Rightarrow> int \<Rightarrow> bytes \<Rightarrow> collector \<Rightarrow> collector \<times> sign_out list" where
  "assemble se si tpbl index frag c =
    (let (total, known) = (case dget (cl_frags c) se of Some st \<Rightarrow> st | None \<Rightarrow> (tpbl, []))
     in if total \<noteq> tpbl \<or> \<not> agrees (index - 1) frag known then (c, [BlockRefused True ''fragment-mismatch''])
        else
          let d = put_bytes (index - 1) frag known
          in if int (length d) < total then (c\<lparr>cl_frags := dset se (total, d) (cl_frags c)\<rparr>, [])
             else
               let payload = map (\<lambda>i. dget_or d (int i) 0) [0..<nat total]; c = c\<lparr>cl_frags := ddel se (cl_frags c)\<rparr>;
                   key = (fst se, fst (snd se))
               in (case payload_fault si payload of
                     Some r \<Rightarrow> (c, [BlockRefused True r])
                   | None \<Rightarrow>
                       (c\<lparr>cl_sessions := dset se payload (cl_sessions c),
                          cl_highest := dset key (max (dget_or (cl_highest c) key 0) (snd (snd (snd se)))) (cl_highest c)\<rparr>,
                        [SessionOpened se (si_sha256 si)])))"

definition cert_block :: "sign_session \<Rightarrow> signer \<Rightarrow> int \<Rightarrow> int \<Rightarrow> int \<Rightarrow> bytes \<Rightarrow> collector \<Rightarrow> collector \<times> sign_out list" where
  "cert_block se si tpbl index flen frag c =
    (case dget (cl_sessions c) se of
       None \<Rightarrow> assemble se si tpbl index frag c
     | Some pay \<Rightarrow>
         if int (length pay) = tpbl \<and> take (nat flen) (drop (nat (index - 1)) pay) = frag then (c, [])
         else assemble se si tpbl index frag (close_session se c))"

text \<open>One hash of a signature block: the message it signs is deposited, or the hash waits for it.\<close>

definition sign_hash :: "sign_prims \<Rightarrow> string \<Rightarrow> signed_claim \<Rightarrow> bytes \<Rightarrow> collector \<Rightarrow> collector \<times> sign_out list" where
  "sign_hash H alg claim h c =
    (if (sc_group claim, sc_number claim) \<in> cl_authed c then (c, [])
     else
       (case find (\<lambda>m. hash_of H alg (hm_msg m) = h) (cl_held c) of
          Some m \<Rightarrow>
            (c\<lparr>cl_held := remove1 m (cl_held c), cl_authed := insert (sc_group claim, sc_number claim) (cl_authed c)\<rparr>,
             [Deposited (hm_sha256 m) (Some claim)])
        | None \<Rightarrow>
            if list_ex (\<lambda>w. sc_group (wh_claim w) = sc_group claim \<and> sc_number (wh_claim w) = sc_number claim) (cl_waiting c) then (c, [])
            else (c\<lparr>cl_waiting := cl_waiting c @ [\<lparr>wh_alg = alg, wh_hash = h, wh_claim = claim, wh_due = cl_now c + cl_hold c\<rparr>]\<rparr>, [])))"

fun sign_hashes :: "sign_prims \<Rightarrow> string \<Rightarrow> signed_claim \<Rightarrow> bytes list \<Rightarrow> collector \<Rightarrow> collector \<times> sign_out list" where
  "sign_hashes H alg claim [] c = (c, [])"
| "sign_hashes H alg claim (h # hs) c =
    (case sign_hash H alg claim h c of (c1, out) \<Rightarrow>
       (case sign_hashes H alg (claim\<lparr>sc_number := sc_number claim + 1\<rparr>) hs c1 of (c2, rest) \<Rightarrow> (c2, out @ rest)))"

definition sig_block :: "sign_prims \<Rightarrow> string \<Rightarrow> signed_claim \<Rightarrow> bytes list \<Rightarrow> signer \<Rightarrow> collector \<Rightarrow> collector \<times> sign_out list" where
  "sig_block H alg claim hb si c =
    (let group = sc_group claim; fmn = sc_number claim
     in if dget (cl_sessions c) (fst group) = None then (c, [BlockRefused False ''no-session''])
        else
          let cov = dget_or (cl_covered c) group 0;
              gap = (if si_gaps si \<and> cov > 0 \<and> fmn > cov + 1 then [Gap claim (cov + 1) (fmn - 1)] else []);
              c1 = (if si_gaps si then c\<lparr>cl_covered := dset group (max cov (fmn + int (length hb) - 1)) (cl_covered c)\<rparr> else c)
          in (case sign_hashes H alg claim hb c1 of (c2, out) \<Rightarrow> (c2, gap @ out)))"

text \<open>The bytes that are signed: the message without the parameter \<open>SIGN\<close>, which ends the element.\<close>

definition signed_bytes :: "bytes \<Rightarrow> string \<Rightarrow> bytes option" where
  "signed_bytes msg sign =
    (let spaces = filter (\<lambda>i. msg ! i = 0x20) [0..<length msg]; cut = bytes_of ('' SIGN='' @ [char_of (34 :: nat)] @ sign @ [char_of (34 :: nat)])
     in if length spaces < 6 then None
        else (case element_end msg (spaces ! 5 + 1) of
                None \<Rightarrow> None
              | Some close \<Rightarrow>
                  if length cut \<le> close \<and> take (length cut) (drop (close - length cut) msg) = cut
                  then Some (take (close - length cut) msg @ drop close msg) else None))"

definition block :: "sign_prims \<Rightarrow> bytes \<Rightarrow> syslog \<Rightarrow> bool \<Rightarrow> collector \<Rightarrow> collector \<times> sign_out list" where
  "block H msg sl is_cert c =
    (let no = (\<lambda>r. (c, [BlockRefused is_cert r]))
     in (case read_block (sy_structured_data sl) is_cert of
           None \<Rightarrow> no ''malformed-block''
         | Some (b, body) \<Rightarrow>
             (case dget VERSIONS (sb_ver b) of
                None \<Rightarrow> no ''unsupported-version''
              | Some (alg, _) \<Rightarrow>
                  let host = lower (case sy_hostname sl of Some h \<Rightarrow> h | None \<Rightarrow> [])
                  in (case dget (cl_signers c) host of
                        None \<Rightarrow> no ''unknown-signer''
                      | Some si \<Rightarrow>
                          (case signed_bytes msg (sb_sign b) of
                             None \<Rightarrow> no ''malformed-block''
                           | Some input \<Rightarrow>
                               (case si_pub si of
                                  None \<Rightarrow> no ''bad-signature''
                                | Some key \<Rightarrow>
                                    let (r, s) = sb_rs b; q = dsa_order H key; se = (host, sy_app_name sl, sy_procid sl, sb_rsid b)
                                    in if \<not> (0 < r \<and> r < q \<and> 0 < s \<and> s < q) \<or> \<not> dsa_verify H key r s input alg then no ''bad-signature''
                                       else if sb_rsid b > 0 \<and> sb_rsid b < dget_or (cl_highest c) (host, sy_app_name sl) 0 then no ''old-session''
                                       else (case body of
                                               CertBody tpbl index flen frag \<Rightarrow> cert_block se si tpbl index flen frag c
                                             | SigBody fmn hb \<Rightarrow>
                                                 sig_block H alg \<lparr>sc_hostname = sy_hostname sl, sc_app_name = sy_app_name sl, sc_procid = sy_procid sl,
                                                   sc_group = (se, sb_sg b, sb_spri b), sc_number = fmn, sc_key = si_sha256 si\<rparr> hb si c))))))) "

section \<open>Events\<close>

text \<open>Whether a message is a block, and of which kind: the first element of either name.\<close>

definition block_kind :: "syslog \<Rightarrow> bool option" where
  "block_kind sl = map_option (\<lambda>i. i = ''ssign-cert'') (find (\<lambda>i. i \<in> {''ssign'', ''ssign-cert''}) (map fst (sy_structured_data sl)))"

definition collect_message :: "sign_prims \<Rightarrow> bytes \<Rightarrow> collector \<Rightarrow> collector \<times> sign_out list" where
  "collect_message H msg c =
    (let sha = sha256_hex H msg
     in (case parse_syslog msg of
           None \<Rightarrow> (c, [Deposited sha None])
         | Some sl \<Rightarrow>
             if sy_format sl \<noteq> Rfc5424 \<or> sy_hostname sl = None then (c, [Deposited sha None])
             else
               (case block_kind sl of
                  Some is_cert \<Rightarrow> block H msg sl is_cert c
                | None \<Rightarrow>
                    if dget (cl_signers c) (lower (the (sy_hostname sl))) = None then (c, [Deposited sha None])
                    else
                      (case find (\<lambda>w. hash_of H (wh_alg w) msg = wh_hash w) (cl_waiting c) of
                         Some w \<Rightarrow>
                           (c\<lparr>cl_waiting := remove1 w (cl_waiting c),
                              cl_authed := insert (sc_group (wh_claim w), sc_number (wh_claim w)) (cl_authed c)\<rparr>,
                            [Deposited sha (Some (wh_claim w))])
                       | None \<Rightarrow>
                           (c\<lparr>cl_held := cl_held c @ [\<lparr>hm_msg = msg, hm_sha256 = sha, hm_due = cl_now c + cl_hold c\<rparr>]\<rparr>, [])))))"

definition or_empty :: "string option \<Rightarrow> string" where
  "or_empty s = (case s of Some t \<Rightarrow> t | None \<Rightarrow> [])"

text \<open>Numbers that follow each other in a group make one gap.\<close>

fun gaps :: "waiting_hash list \<Rightarrow> sign_out list \<Rightarrow> sign_out list" where
  "gaps [] out = out"
| "gaps (w # ws) out =
    (let c = wh_claim w
     in gaps ws
       (case rev out of
          Gap c' a b # r \<Rightarrow> if sc_group c' = sc_group c \<and> b + 1 = sc_number c then rev r @ [Gap c' a (sc_number c)]
            else out @ [Gap c (sc_number c) (sc_number c)]
        | _ \<Rightarrow> out @ [Gap c (sc_number c) (sc_number c)]))"

definition gap_key :: "waiting_hash \<Rightarrow> (string \<times> string \<times> string \<times> int) \<times> int \<times> int \<times> int" where
  "gap_key w = (case sc_group (wh_claim w) of ((h, a, p, r), sg, spri) \<Rightarrow> ((h, or_empty a, or_empty p, r), sg, spri, sc_number (wh_claim w)))"

definition advance_collector :: "int \<Rightarrow> collector \<Rightarrow> collector \<times> sign_out list" where
  "advance_collector n c =
    (let now = cl_now c + n;
         lost = filter (\<lambda>w. wh_due w \<le> now \<and> (case dget (cl_signers c) (fst (fst (sc_group (wh_claim w)))) of Some si \<Rightarrow> si_gaps si | None \<Rightarrow> False))
           (cl_waiting c)
     in (c\<lparr>cl_now := now, cl_held := filter (\<lambda>m. hm_due m > now) (cl_held c), cl_waiting := filter (\<lambda>w. wh_due w > now) (cl_waiting c)\<rparr>,
         gaps (sort_key gap_key lost) (map (\<lambda>m. Deposited (hm_sha256 m) None) (filter (\<lambda>m. hm_due m \<le> now) (cl_held c)))))"

datatype sign_event = SignReceive bytes | SignAdvance int

definition collector_step :: "sign_prims \<Rightarrow> collector \<Rightarrow> sign_event \<Rightarrow> collector \<times> sign_out list" where
  "collector_step H c e = (case e of SignReceive msg \<Rightarrow> collect_message H msg c | SignAdvance n \<Rightarrow> advance_collector n c)"

end
