(* ===== verification/Signed_Syslog.thy ===== *)
theory Signed_Syslog
  imports Syslog_Sign "HOL-Library.Multiset"
begin

text \<open>What a collector of signed syslog guarantees: every message is deposited once or still held.\<close>

section \<open>Every message once\<close>

fun deposited :: "sign_out list \<Rightarrow> string list" where
  "deposited [] = []"
| "deposited (Deposited s cl # os) = s # deposited os"
| "deposited (_ # os) = deposited os"

lemma deposited_append [simp]: "deposited (a @ b) = deposited a @ deposited b"
  by (induction a rule: deposited.induct) auto

definition is_block :: "bytes \<Rightarrow> bool" where
  "is_block msg \<longleftrightarrow> (\<exists>sl. parse_syslog msg = Some sl \<and> sy_format sl = Rfc5424 \<and> sy_hostname sl \<noteq> None \<and> block_kind sl \<noteq> None)"

text \<open>The digests of what a collector holds.\<close>

abbreviation holds :: "collector \<Rightarrow> string multiset" where
  "holds c \<equiv> mset (map hm_sha256 (cl_held c))"

lemma holds_remove1:
  assumes "m \<in> set ms"
  shows "add_mset (hm_sha256 m) (image_mset hm_sha256 (mset ms - {#m#})) = image_mset hm_sha256 (mset ms)"
proof -
  have "image_mset hm_sha256 (add_mset m (mset ms - {#m#})) = image_mset hm_sha256 (mset ms)" using assms by (simp add: insert_DiffM)
  then show ?thesis by simp
qed

lemma sign_hash_holds: "sign_hash H alg cl h c = (c', out) \<Longrightarrow> mset (deposited out) + holds c' = holds c"
  by (auto simp: sign_hash_def find_Some_iff intro!: holds_remove1 split: if_splits option.splits)

lemma sign_hashes_holds: "sign_hashes H alg cl hs c = (c', out) \<Longrightarrow> mset (deposited out) + holds c' = holds c"
proof (induction hs arbitrary: cl c c' out)
  case (Cons h hs)
  obtain c1 o1 where 1: "sign_hash H alg cl h c = (c1, o1)" by (cases "sign_hash H alg cl h c")
  obtain c2 o2 where 2: "sign_hashes H alg (cl\<lparr>sc_number := sc_number cl + 1\<rparr>) hs c1 = (c2, o2)"
    by (cases "sign_hashes H alg (cl\<lparr>sc_number := sc_number cl + 1\<rparr>) hs c1")
  have "c' = c2" "out = o1 @ o2" using Cons.prems 1 2 by simp_all
  then show ?case using sign_hash_holds [OF 1] Cons.IH [OF 2] by (simp add: add.assoc)
qed simp

lemma sig_block_holds: "sig_block H alg cl hb si c = (c', out) \<Longrightarrow> mset (deposited out) + holds c' = holds c"
proof -
  assume a: "sig_block H alg cl hb si c = (c', out)"
  show ?thesis
  proof (cases "dget (cl_sessions c) (fst (sc_group cl)) = None")
    case True
    then show ?thesis using a by (auto simp: sig_block_def Let_def)
  next
    case False
    define c1 where "c1 = (if si_gaps si then c\<lparr>cl_covered := dset (sc_group cl)
        (max (dget_or (cl_covered c) (sc_group cl) 0) (sc_number cl + int (length hb) - 1)) (cl_covered c)\<rparr> else c)"
    obtain c2 o2 where 2: "sign_hashes H alg cl hb c1 = (c2, o2)" by (cases "sign_hashes H alg cl hb c1")
    have "c' = c2" "deposited out = deposited o2"
      using a False 2 by (auto simp: sig_block_def Let_def c1_def [symmetric] split: if_splits)
    moreover have "holds c1 = holds c" by (simp add: c1_def)
    ultimately show ?thesis using sign_hashes_holds [OF 2] by simp
  qed
qed

lemma assemble_holds: "assemble se si t i f c = (c', out) \<Longrightarrow> cl_held c' = cl_held c \<and> deposited out = []"
  by (auto simp: assemble_def Let_def split: option.splits if_splits prod.splits)

lemma cert_block_holds: "cert_block se si t i n f c = (c', out) \<Longrightarrow> cl_held c' = cl_held c \<and> deposited out = []"
  by (auto simp: cert_block_def close_session_def dest!: assemble_holds split: option.splits if_splits)

text \<open>A block is refused or handled as what it is.\<close>

lemma block_cases:
  assumes "block H msg sl k c = (c', out)"
  obtains (refused) r where "c' = c" "out = [BlockRefused k r]"
  | (cert) se si t i n f where "cert_block se si t i n f c = (c', out)"
  | (sig) alg cl hb si where "sig_block H alg cl hb si c = (c', out)"
  using assms unfolding block_def Let_def
  by (auto split: option.splits prod.splits if_splits block_body.splits)

lemma block_holds: "block H msg sl k c = (c', out) \<Longrightarrow> mset (deposited out) + holds c' = holds c"
  by (erule block_cases) (auto dest!: cert_block_holds sig_block_holds)

lemma collect_holds:
  assumes "collect_message H msg c = (c', out)"
  shows "mset (deposited out) + holds c' = holds c + (if is_block msg then {#} else {#sha256_hex H msg#})"
proof (cases "is_block msg")
  case True
  then obtain sl k h where "parse_syslog msg = Some sl" "sy_format sl = Rfc5424" "sy_hostname sl = Some h" "block_kind sl = Some k"
    by (auto simp: is_block_def)
  then have "block H msg sl k c = (c', out)" using assms by (simp add: collect_message_def Let_def)
  then show ?thesis using block_holds True by simp
next
  case False
  then show ?thesis using assms
    by (auto simp: collect_message_def is_block_def Let_def split: option.splits if_splits)
qed

lemma gaps_deposited: "deposited (gaps ws out) = deposited out"
proof (induction ws out rule: gaps.induct)
  case (2 w ws out)
  show ?case
  proof (cases "rev out")
    case (Cons g r)
    then have "out = rev r @ [g]" by (metis rev_rev_ident rev.simps(2))
    then show ?thesis using 2 by (cases g) (auto simp: Let_def)
  qed (use 2 in \<open>simp add: Let_def\<close>)
qed simp

lemma deposited_unsigned: "deposited (map (\<lambda>m. Deposited (hm_sha256 m) None) ms) = map hm_sha256 ms"
  by (induction ms) auto

lemma advance_holds:
  assumes "advance_collector n c = (c', out)"
  shows "mset (deposited out) + holds c' = holds c"
proof -
  have "deposited out = map hm_sha256 (filter (\<lambda>m. hm_due m \<le> cl_now c + n) (cl_held c))"
    "cl_held c' = filter (\<lambda>m. \<not> hm_due m \<le> cl_now c + n) (cl_held c)"
    using assms by (auto simp: advance_collector_def Let_def gaps_deposited deposited_unsigned not_le)
  then show ?thesis by (simp add: image_mset_union [symmetric] multiset_partition [symmetric])
qed

text \<open>A run of the collector, and the digests of the messages that it received and that are no blocks.\<close>

fun collector_run :: "sign_prims \<Rightarrow> collector \<Rightarrow> sign_event list \<Rightarrow> collector \<times> sign_out list" where
  "collector_run H c [] = (c, [])"
| "collector_run H c (e # es) =
    (case collector_step H c e of (c1, out) \<Rightarrow> (case collector_run H c1 es of (c2, rest) \<Rightarrow> (c2, out @ rest)))"

fun messages :: "sign_prims \<Rightarrow> sign_event list \<Rightarrow> string list" where
  "messages H [] = []"
| "messages H (SignReceive m # es) = (if is_block m then messages H es else sha256_hex H m # messages H es)"
| "messages H (SignAdvance n # es) = messages H es"

lemma collector_run_holds: "collector_run H c es = (c', out) \<Longrightarrow> mset (deposited out) + holds c' = holds c + mset (messages H es)"
proof (induction es arbitrary: c c' out)
  case (Cons e es)
  obtain c1 o1 where 1: "collector_step H c e = (c1, o1)" by (cases "collector_step H c e")
  obtain c2 o2 where 2: "collector_run H c1 es = (c2, o2)" by (cases "collector_run H c1 es")
  have out: "c' = c2" "out = o1 @ o2" using Cons.prems 1 2 by simp_all
  have "mset (deposited o1) + holds c1 = holds c + mset (messages H [e])"
    using 1 by (cases e) (auto simp: collector_step_def dest!: collect_holds advance_holds)
  moreover have "messages H (e # es) = messages H [e] @ messages H es" by (cases e) auto
  moreover have "mset (deposited o2) + holds c2 = holds c1 + mset (messages H es)" by (rule Cons.IH [OF 2])
  ultimately show ?case by (simp add: out) (metis (no_types, lifting) add.assoc add.commute)
qed simp

text \<open>C19: A collector loses and repeats no message. Over any run, what it has deposited (signed or not) together with what it still holds
  is what it has received, blocks aside, each message as often as it was received.\<close>

theorem collector_conserves:
  "mset (deposited (snd (collector_run H (init_collector now hold signers) es)))
    + mset (map hm_sha256 (cl_held (fst (collector_run H (init_collector now hold signers) es)))) = mset (messages H es)"
  using collector_run_holds [of H "init_collector now hold signers" es] by (cases "collector_run H (init_collector now hold signers) es")
    (simp add: init_collector_def)

end
