(* ===== verification/Trust.thy ===== *)
theory Trust
  imports Tnbinding_Model
begin

text \<open>
  The texts that tell a callee how far a caller is verified, \<^verbatim>\<open>dsipvec/trust.py\<close>. A claim has its fields as the schema types them;
  a text that is not a string is \<^term>\<open>None\<close>. The empty attestation counts as none.
\<close>

record trust_claim =
  tr_type :: string
  tr_verifier :: "string option"
  tr_attestation :: "string option"
  tr_verified :: bool
  tr_number :: "string option"
  tr_cnam :: "string option"

definition without_prefix :: "string \<Rightarrow> string \<Rightarrow> string" where
  "without_prefix p s = (if startswith s p then drop (length p) s else s)"

definition attestation_of :: "trust_claim \<Rightarrow> string" where
  "attestation_of c = (case tr_attestation c of None \<Rightarrow> ''none'' | Some a \<Rightarrow> if a = [] then ''none'' else a)"

definition tel_basis :: "trust_claim \<Rightarrow> string option" where
  "tel_basis c =
    (if tr_type c \<noteq> ''tel'' then None
     else
       (case tr_verifier c of
          None \<Rightarrow> None
        | Some v \<Rightarrow>
            let start = ''Gateway attested by '' @ without_prefix ''did:web:'' v @ SPACED_DOT; a = attestation_of c
            in Some (start @
              (if tr_verified c \<and> a \<noteq> ''none'' then ''STIR attestation '' @ a @ '' (verified)''
               else if a \<noteq> ''none'' then ''STIR attestation '' @ a @ '' (unverified)''
               else ''no attestation''))))"

definition verification_basis :: "string \<Rightarrow> trust_claim list \<Rightarrow> string" where
  "verification_basis identity claims =
    (case List.map_filter tel_basis claims of
       b # _ \<Rightarrow> b
     | [] \<Rightarrow>
         if startswith identity ''did:web:'' then ''Domain verified (did:web:'' @ without_prefix ''did:web:'' identity @ '')''
         else if startswith identity ''did:key:'' then ''Self-issued identity''
         else ''Unrecognized identity method'')"

definition tel_caller_line :: "trust_claim \<Rightarrow> string option" where
  "tel_caller_line c =
    (if tr_type c \<noteq> ''tel'' \<or> tr_verifier c = None then None
     else (case tr_number c of
             None \<Rightarrow> None
           | Some n \<Rightarrow> Some (''PSTN caller '' @ n @ (case tr_cnam c of Some name \<Rightarrow> SPACED_DOT @ name | None \<Rightarrow> []))))"

definition PHRASE :: "(string, string) dict" where
  "PHRASE = [(''no-srtp-on-trunk'', ''media is not encrypted on the PSTN trunk''),
     (''identity-not-assertable'', ''your identity could not be asserted into the PSTN''),
     (''no-attestation'', ''the caller carried no verified attestation''),
     (''policy-unenforceable'', ''your media policy cannot be enforced past the gateway''),
     (''recording-not-disclosed'', ''the PSTN party was not told this call is recorded'')]"

text \<open>The section sign is the bytes C2 A7.\<close>

definition downgrade_summary :: "string list \<Rightarrow> string" where
  "downgrade_summary losses =
    (let start = ''Trust downgraded crossing the gateway ('' @ [char_of (0xC2 :: nat), char_of (0xA7 :: nat)] @ ''6.3)'';
         phrases = map (\<lambda>l. dget_or PHRASE l ''an unspecified guarantee was lost'') losses
     in if losses = [] then start else start @ '': '' @ hd phrases @ concat (map (\<lambda>p. ''; '' @ p) (tl phrases)))"

text \<open>A caller is shown as verified by a gateway only for a claim that the gateway marked so.\<close>

lemma shown_verified:
  assumes "verification_basis identity claims = ''Gateway attested by '' @ host @ SPACED_DOT @ ''STIR attestation '' @ a @ '' (verified)''"
  shows "\<exists>c\<in>set claims. tr_type c = ''tel'' \<and> tr_verifier c \<noteq> None \<and> attestation_of c \<noteq> ''none'' \<and> tr_verified c"
proof -
  obtain b bs where bs: "List.map_filter tel_basis claims = b # bs"
    using assms by (cases "List.map_filter tel_basis claims") (auto simp: verification_basis_def split: if_splits)
  then have b: "b = ''Gateway attested by '' @ host @ SPACED_DOT @ ''STIR attestation '' @ a @ '' (verified)''"
    using assms by (simp add: verification_basis_def)
  have "b \<in> set (List.map_filter tel_basis claims)" using bs by simp
  then obtain c where c: "c \<in> set claims" "tel_basis c = Some b" by (auto simp: List.map_filter_def)
  have r: "take 11 (rev b) = rev '' (verified)''" unfolding b by simp
  have "tr_verified c \<and> attestation_of c \<noteq> ''none''"
  proof (rule ccontr)
    assume n: "\<not> (tr_verified c \<and> attestation_of c \<noteq> ''none'')"
    then obtain x where "b = x @ '' (unverified)'' \<or> b = x @ ''no attestation''"
      using c(2) by (auto simp: tel_basis_def Let_def split: if_splits option.splits)
    then show False using r by auto
  qed
  moreover have "tr_type c = ''tel''" "tr_verifier c \<noteq> None" using c(2) by (auto simp: tel_basis_def split: if_splits option.splits)
  ultimately show ?thesis using c(1) by blast
qed

end
