(* ===== verification/Spec2Isabelle.thy ===== *)
theory Spec2Isabelle
  imports Session Relay Subscription Gateway Recording Wake Hub Mailbox Device Client Successor Alarm Mls Kt Envelope Binding Semantic Message Syslog
    Snmp_Answer Tnbinding_Demo Signed_Syslog Trust
begin

text \<open>
  A verification library for the DSIP reference implementation, the Python package \<^verbatim>\<open>src/impl/tools/dsipvec\<close>.

  \<^bold>\<open>The program.\<close> DSIP is a signalling protocol. The package holds one deterministic engine per role of the protocol; each
  is a state and a step that takes one event and returns a list of emissions. There are no threads: time is an event, and
  every interleaving of messages, timers and clock ticks is a trace of events. The parts and the theories that model them:

  \<^item> \<open>Prelude\<close>: Python values and dictionaries (the locale \<open>py_dict\<close>, interpreted on association lists), loops and the
    contract of a step engine (the locales \<open>machine\<close> and \<open>total_machine\<close>, from which whole traces follow; the
    components below interpret one of them on their own step).
  \<^item> \<open>Registry\<close>: the registries of reasons and of the rules for them (\<^verbatim>\<open>registry.py\<close>).
  \<^item> \<open>Session_Model\<close>, with the lemmas in the theories \<open>Session_*\<close> and the properties in \<open>Session\<close>: the endpoint's sessions,
    their timers, glare, updates, keys and grants (\<^verbatim>\<open>session.py\<close>).
  \<^item> \<open>Relay_Model\<close>, \<open>Relay\<close>: the forking relay, its attempts and store-and-forward queues (\<^verbatim>\<open>relay.py\<close>).
  \<^item> \<open>Broadcast_Model\<close>, \<open>Broadcast\<close>, \<open>Subscription\<close>: publications, presence, subscriptions and the subscriber
    (\<^verbatim>\<open>broadcast.py\<close>, and the part of \<^verbatim>\<open>presence.py\<close> it calls).
  \<^item> \<open>Gateway_Model\<close>, \<open>Gateway\<close>: the gateway to SIP and the telephone network (\<^verbatim>\<open>gateway.py\<close>).
  \<^item> \<open>Recording\<close>: consent to recording and the recorder's leg (\<^verbatim>\<open>recording.py\<close>).
  \<^item> \<open>Wake\<close>: wakes of sleeping devices; the relay and the mailbox tell the waker what they hold (\<^verbatim>\<open>wake.py\<close>).
  \<^item> \<open>Hub_Model\<close>, \<open>Hub\<close>: the hub that orders a group's deposits (class \<^verbatim>\<open>Hub\<close> of \<^verbatim>\<open>messaging.py\<close>).
  \<^item> \<open>Mailbox_Model\<close>, \<open>Mailbox\<close>: the mailbox that receives them (class \<^verbatim>\<open>Mailbox\<close>), which the devices sync from.
  \<^item> \<open>Device_Model\<close>, \<open>Device\<close>: what a device keeps for its groups: its durable positions, items behind a gap, the answers to
    its commits, its outbox while the hub is down, a moved group's hub, and the enrolment at a mailbox (classes
    \<^verbatim>\<open>Resume\<close>, \<^verbatim>\<open>GapTracker\<close>, \<^verbatim>\<open>CommitRetry\<close>, \<^verbatim>\<open>HubOutage\<close>, \<^verbatim>\<open>MoveArrival\<close>, \<^verbatim>\<open>Enrolment\<close>).
  \<^item> \<open>Ulid\<close>, \<open>Successor\<close>: the identifiers that order by time (\<^verbatim>\<open>ulid.py\<close>), and how members of a group agree on one direct
    conversation and one successor group (\<^verbatim>\<open>select_direct\<close>, \<^verbatim>\<open>select_successor\<close>, class \<^verbatim>\<open>SuccessorTracker\<close>).
  \<^item> \<open>Text\<close>: the operations on ASCII text that the formats share.
  \<^item> \<open>Bytes\<close>, \<open>Mls\<close>: byte strings as lists of 8-bit words, the contract of a codec (the locale \<open>codec\<close>), and the bytes of MLS
    extensions (\<^verbatim>\<open>encode_extension\<close>, \<^verbatim>\<open>decode_extension\<close> of \<^verbatim>\<open>messaging.py\<close>).
  \<^item> \<open>Json\<close>, \<open>Base64\<close>, \<open>Envelope_Model\<close>, \<open>Envelope\<close>: JSON values, the text encodings of bytes and keys (\<^verbatim>\<open>crypto.py\<close>), and the
    verification every message passes first: signature, delegation and revocation, times (\<^verbatim>\<open>envelope.py\<close>, \<^verbatim>\<open>wire.py\<close>).
  \<^item> \<open>Semantic\<close>, \<open>Presence\<close>: the stages after it: versions, sealed bodies, the checks on the meaning of each type and the values of
    the registries (\<^verbatim>\<open>semantic.py\<close>), and an identity's presence from its devices' records (\<^verbatim>\<open>presence.py\<close>).
  \<^item> \<open>Binding_Model\<close>, \<open>Binding\<close>: the WebRTC media binding, SDP, candidates and answers (\<^verbatim>\<open>binding.py\<close>), and what the gateway
    reads from a trunk's SDP.
  \<^item> \<open>Alarm_Model\<close>, \<open>Alarm\<close>: the device events profile: alarms and their escalation, informs, the clear hold-down (\<^verbatim>\<open>events.py\<close>).
  \<^item> \<open>Message_Checks\<close>, \<open>Message_Decisions\<close>, \<open>Message\<close>: the decisions of \<^verbatim>\<open>messaging.py\<close> that keep no state: deposits and
    the objects in them, the credential of an MLS leaf (a delegation that \<open>Envelope\<close> verifies), sealed contents and
    introductions, blobs and the choice of a mailbox.
  \<^item> \<open>Utf8\<close>, \<open>Syslog_Model\<close>, \<open>Syslog\<close>: UTF-8 as Python decodes it, and what a gateway reads for the device events: syslog in both
    formats and its mapping, the frames of TLS streams (\<^verbatim>\<open>events_v3.py\<close>), traps and their mapping (\<^verbatim>\<open>events.py\<close>).
  \<^item> \<open>Snmp_Model\<close>, \<open>Snmp\<close>, \<open>Snmp_Answer\<close>: SNMPv3 (\<^verbatim>\<open>events_v3.py\<close>): BER, the messages, the receiver of the user-based security
    model (class \<^verbatim>\<open>UsmReceiver\<close>) and the gateway's answers.
  \<^item> \<open>Syslog_Sign\<close>, \<open>Signed_Syslog\<close>: the collector of signed syslog (class \<^verbatim>\<open>Collector\<close> of \<^verbatim>\<open>syslog_sign.py\<close>).
  \<^item> \<open>Trust\<close>: the texts that show how a caller is verified (\<^verbatim>\<open>trust.py\<close>).
  \<^item> \<open>Tnbinding_Model\<close>, \<open>Tnbinding_Use\<close>, \<open>Tnbinding\<close>, \<open>Tnbinding_Demo\<close>: bindings of telephone numbers to DIDs (\<^verbatim>\<open>tnbinding.py\<close>): the
    certificates with lists of numbers, the verification of a binding, a node's store, a reader's selection, and the gateway's
    checks of calls from and to the telephone network.
  \<^item> \<open>Kt_Tree\<close>, \<open>Kt_Hash\<close>, \<open>Kt\<close>: alias transparency (\<^verbatim>\<open>kt.py\<close>): the implicit search tree, the hash trees of the log and of an
    entry's versions, the Configuration, tree heads and the answers of a provider.
  \<^item> \<open>Client_Model\<close>, \<open>Client\<close>: the conversation a device shows, its receipts and its history (classes \<^verbatim>\<open>Client\<close>, \<^verbatim>\<open>History\<close>).

  \<^bold>\<open>How the code is read.\<close> A dict is an association list in insertion order, a class a record, a message a record or a
  constructor with optional fields for the keys that may be absent. A method becomes a function of the state and its event
  with the same name where Isabelle allows it. A call that raises is \<^term>\<open>None\<close>. A string stands for the bytes of its UTF-8
  form, and the cursors of the mailbox for ASCII strings. Python's integers are \<^typ>\<open>int\<close>; the reading of decimal digits
  has Python's limit of 4300 digits where the code reads them from a message. That \<^verbatim>\<open>json.loads\<close> gives a value, rejects, or
  raises on deep nesting is an argument of the definitions that read headers. Cryptographic checks, hashes
  and JSON Schema validation are results carried by the events or arguments of the definitions: they are not code of the
  repository.

  \<^bold>\<open>What the lemmas show.\<close> For each engine an invariant of its state, kept by every event (\<open>ep_inv\<close>, \<open>relay_ok\<close>, \<open>auth_ok\<close>,
  \<open>hub_ok\<close>, \<open>mailbox_ok\<close> and so on) and what the protocol needs from it: no session or attempt waits without a timer,
  and time enough ends it; both ends of a glare keep the same attempt; nobody is let in without admission; notifies show
  the current state and carry consecutive numbers; nothing is recorded without the consent of all; a hub numbers each
  deposit once, takes one commit per epoch for good and delivers in order; a mailbox stays within its quota, and paging through it
  loses nothing; a device's durable positions refine a specification by sets of passed numbers, its gap tracker processes
  an item once and in its turn, its outbox loses
  nothing, and the conversation it shows only grows; members agree on a successor whatever the order of the candidates; an
  alarm nobody attends to is escalated when the policy's time since it began to wait is over, whatever reports change in between,
  and the hold-down loses no clear and releases the clears in order. An accepted envelope is signed by the
  sender or by a device the sender delegated and has not revoked, and is fresh; an accepted payload is of a version the receiver
  speaks, was opened only from a body sealed for it, keeps the rules of its type, and what is handed on is computed from it;
  candidates are neither lost nor used twice, of the answers to an offer that name their senders the first valid one is applied, and
  media crosses the gateway and back unchanged. A leaf of a group acts for an identity that
  delegated it. A gateway reads the same messages however a stream is cut, accepts a notification only from a configured user and
  never an old one again, and its authenticated answers, in the clear or encrypted, read back and pass the receiver's digest check; a collector of signed syslog loses and repeats no message. A number is
  verified for an identity only under a certificate that covers it, and a node keeps few bindings of a number, all verified. For the formats and trees: an MLS
  extension and a Configuration have one encoding each and are accepted in no other; the frontier computed with shifts is
  the right spine of the left-balanced tree; a root binds the contents of its tree, stated without any assumption on the
  hash function but its length: two trees with one root are equal, or a collision is among the strings that were hashed.

  \<^bold>\<open>Fuel.\<close> The loop of \<open>Endpoint._advance\<close> runs with fuel; \<open>advance_returns\<close> proves that the number of due timers and expiries
  bounds it, so that it always returns. The paging loop \<open>sync_all\<close> describes a client and takes one request more than
  there are items. Every other loop is a fold, a structural recursion or a function with its own termination proof (the
  drains of held items, the chunks of a history, the readers of syslog, BER, DER and TLS frames, the loops of the search tree and the ladder, the hash trees); a shift by a
  negative amount and an index past a key, which Python raises, are \<^term>\<open>None\<close> there, and the lemmas show they are not met.

  \<^bold>\<open>Not modelled.\<close> The methods that print the state for test vectors; the DID methods, and
  the names in certificates; and the cryptographic code (the keys of sealed presence records, HPKE and AES, the VRF,
  commitments), the harness, the fuzzer and the generators of vectors, which are calls of other packages or test tools.
\<close>

end
